(* ===== verification/Prelude.thy ===== *)
theory Prelude
  imports Main "HOL-Library.Word" "HOL-Library.Multiset" "HOL-Library.List_Lexorder" "HOL-Library.Char_ord"
begin

text \<open>
  Shared ground of the development: the machine integers of the C++ sources, output
  pointers, counted loops over \<open>uint64_t\<close>, \<open>std::vector::resize\<close>, and the
  ordered \<open>std::map\<close> as an association list sorted by key, with the lemmas every
  component uses about them.
\<close>

section \<open>Machine integers and pointers\<close>

type_synonym u8 = "8 word"
type_synonym u16 = "16 word"
type_synonym u32 = "32 word"
type_synonym u64 = "64 word"
type_synonym bytes = "u8 list"

text \<open>
  A C++ output parameter is a pointer. The model returns the value written through it;
  whether the caller passed a null pointer is an argument of type \<open>out_ptr\<close>, because
  the sources test it.
\<close>

datatype out_ptr = nullptr | out

named_theorems idx "facts that move index comparisons from machine words to natural numbers"
named_theorems inv_intro "operations keep the invariant of their component"

lemmas [idx] = word_less_nat_alt word_le_nat_alt

lemma unat_inc [idx]: "unat (x + 1) = Suc (unat x)" if "x < y" for x y :: "'a::len word"
proof -
  have "unat x < unat y" using that by (simp add: word_less_nat_alt)
  then have "Suc (unat x) < 2 ^ LENGTH('a)"
    using unsigned_less [of y, where ?'a = nat] by linarith
  then show ?thesis by (simp add: unat_word_ariths)
qed

lemma unat_inc_bound: "unat (x + 1) = Suc (unat x)" if "Suc (unat x) < 2 ^ 64" for x :: u64
  using that by (simp add: unat_word_ariths)

lemma unat_dec: "unat (x - 1) = unat x - 1" if "0 < x" for x :: "'a::len word"
  using that by (simp add: unat_minus_one word_gt_0)

lemma unat_dec_less: "unat (x - 1) < unat x" if "0 < x" for x :: "'a::len word"
  using that by (metis measure_unat word_gt_0)

lemma zero_less_max_word [simp]: "(0 :: u64) < - 1"
  by (simp add: word_gt_0)

lemma unat_u64_lt: "unat (x :: u64) < 2 ^ 64"
  using unsigned_less [of x, where ?'a = nat] by simp

section \<open>Counted loops\<close>

text \<open>
  \<open>for (i = b; i <= e; ++i)\<close> over \<open>uint64_t\<close> visits \<open>word_interval b e\<close>. The loop
  itself is \<open>for_any\<close>: a search that stops at the first hit, where \<open>None\<close> stands for
  a loop that never ends, which happens when \<open>e\<close> is the largest value and \<open>++i\<close> wraps.
\<close>

definition word_interval :: "u64 \<Rightarrow> u64 \<Rightarrow> u64 list" where
  "word_interval b e = map word_of_nat [unat b ..< Suc (unat e)]"

partial_function (option) for_any :: "(u64 \<Rightarrow> bool) \<Rightarrow> u64 \<Rightarrow> u64 \<Rightarrow> bool option" where
  "for_any P b e = (if b \<le> e then (if P b then Some True else for_any P (b + 1) e) else Some False)"

lemma set_word_interval: "set (word_interval b e) = {i. b \<le> i \<and> i \<le> e}"
proof -
  have "i \<in> word_of_nat ` {unat b ..< Suc (unat e)}" if "b \<le> i" "i \<le> e" for i
    using that by (intro image_eqI [where x = "unat i"]) (auto simp: word_le_nat_alt)
  moreover have "b \<le> word_of_nat n \<and> (word_of_nat n :: u64) \<le> e"
    if "unat b \<le> n" "n \<le> unat e" for n
    using that unat_u64_lt [of e] by (simp add: word_le_nat_alt unat_of_nat)
  ultimately show ?thesis
    unfolding word_interval_def set_map set_upt
    by (auto simp: less_Suc_eq_le)
qed

lemma word_interval_Cons: "word_interval b e = b # word_interval (b + 1) e" if "b < e \<or> b = e" "e < - 1"
proof -
  have "unat (b + 1) = Suc (unat b)" using that by (auto intro!: unat_inc [of _ "- 1"])
  moreover have "unat b < Suc (unat e)" using that by (auto simp: word_less_nat_alt)
  ultimately show ?thesis
    by (simp add: word_interval_def upt_rec [of "unat b"] del: upt_Suc)
qed

lemma word_interval_empty: "word_interval b e = []" if "e < b"
  using that by (simp add: word_interval_def word_less_nat_alt)

text \<open>Unless the upper bound is the largest \<open>uint64_t\<close>, the loop ends, with this answer.\<close>

lemma for_any_ends: "for_any P b e = Some (list_ex P (word_interval b e))" if "e < - 1"
proof (induction "unat e - unat b" arbitrary: b rule: less_induct)
  case less
  show ?case
  proof (cases "b \<le> e")
    case False
    then show ?thesis by (subst for_any.simps) (simp add: word_interval_empty)
  next
    case True
    have eq: "word_interval b e = b # word_interval (b + 1) e"
      by (rule word_interval_Cons) (use True that in auto)
    have "for_any P (b + 1) e = Some (list_ex P (word_interval (b + 1) e))"
    proof (cases "b = e")
      case True
      have lt: "e < e + 1"
        using that unat_inc [of e "- 1"] by (simp add: word_less_nat_alt)
      then have "\<not> e + 1 \<le> e" by (simp only: not_le)
      then have "for_any P (e + 1) e = Some False"
        by (subst for_any.simps) simp
      with lt show ?thesis
        using True by (simp add: word_interval_empty)
    next
      case False
      then have "b < e" using True by simp
      then have "unat e - unat (b + 1) < unat e - unat b"
        using unat_inc [of b e] by (simp add: word_less_nat_alt)
      then show ?thesis by (rule less)
    qed
    then show ?thesis
      using True by (subst for_any.simps) (simp add: eq)
  qed
qed

section \<open>Options\<close>

lemma option_eqI: "(\<And>e. a = Some e \<longleftrightarrow> b = Some e) \<Longrightarrow> a = b"
  by (metis not_Some_eq)

section \<open>Vectors\<close>

text \<open>\<open>std::vector::resize\<close>: cut, or fill up with the default element.\<close>

definition vec_resize :: "'a \<Rightarrow> 'a list \<Rightarrow> nat \<Rightarrow> 'a list" where
  "vec_resize d xs n = take n xs @ replicate (n - length xs) d"

lemma vec_resize_take [simp]: "n \<le> length xs \<Longrightarrow> vec_resize d xs n = take n xs"
  by (simp add: vec_resize_def)

end
