(* ===== verification/Status.thy ===== *)
theory Status
  imports Prelude
begin

text \<open>
  \<open>common/status.h\<close> and \<open>common/status.cpp\<close>. A \<open>Status\<close> is a code with a message text.
  Only the RPC services of the metadata and the stores, which are not modelled, branch on a message,
  so the model of the other components keeps the code of a returned status and leaves the text out;
  \<open>ToString\<close> shows how the two are printed. A function of the sources that returns a status and writes its result through a
  pointer becomes one of type \<open>Status + 'a\<close>, with \<open>Inl\<close> for a status other than OK.
\<close>

datatype StatusCode =
    kOk
  | kInvalidArgument
  | kNotFound
  | kIoError
  | kCorruption
  | kBusy
  | kResourceExhausted
  | kRetryLater
  | kInternalError

type_synonym Status = StatusCode

abbreviation OK :: Status where "OK \<equiv> kOk"
abbreviation InvalidArgument :: Status where "InvalidArgument \<equiv> kInvalidArgument"
abbreviation NotFound :: Status where "NotFound \<equiv> kNotFound"
abbreviation Corruption :: Status where "Corruption \<equiv> kCorruption"
abbreviation Busy :: Status where "Busy \<equiv> kBusy"
abbreviation ResourceExhausted :: Status where "ResourceExhausted \<equiv> kResourceExhausted"
abbreviation RetryLater :: Status where "RetryLater \<equiv> kRetryLater"
abbreviation InternalError :: Status where "InternalError \<equiv> kInternalError"

abbreviation ok :: "Status \<Rightarrow> bool" where "ok s \<equiv> s = kOk"

fun StatusCodeToString :: "StatusCode \<Rightarrow> string" where
  "StatusCodeToString kOk = ''OK''"
| "StatusCodeToString kInvalidArgument = ''INVALID_ARGUMENT''"
| "StatusCodeToString kNotFound = ''NOT_FOUND''"
| "StatusCodeToString kIoError = ''IO_ERROR''"
| "StatusCodeToString kCorruption = ''CORRUPTION''"
| "StatusCodeToString kBusy = ''BUSY''"
| "StatusCodeToString kResourceExhausted = ''RESOURCE_EXHAUSTED''"
| "StatusCodeToString kRetryLater = ''RETRY_LATER''"
| "StatusCodeToString kInternalError = ''INTERNAL_ERROR''"

definition Status_ToString :: "StatusCode \<Rightarrow> string \<Rightarrow> string" where
  "Status_ToString c message =
     (if ok c then StatusCodeToString c else StatusCodeToString c @ '': '' @ message)"

text \<open>The null check every function with an output pointer begins with.\<close>

definition require_out :: "out_ptr \<Rightarrow> Status" where
  "require_out p = (if p = nullptr then InvalidArgument else OK)"

lemma require_out_simps [simp]:
  "require_out out = OK"
  "require_out nullptr = InvalidArgument"
  by (simp_all add: require_out_def)

text \<open>
  The idiom \<open>status = f(...); if (!status.ok()) return status;\<close> of every function that
  computes a value in several steps.
\<close>

fun and_then :: "Status + 'a \<Rightarrow> ('a \<Rightarrow> Status + 'b) \<Rightarrow> Status + 'b" where
  "and_then (Inl s) f = Inl s"
| "and_then (Inr x) f = f x"

lemma and_then_Inr_iff: "and_then m f = Inr y \<longleftrightarrow> (\<exists>x. m = Inr x \<and> f x = Inr y)"
  by (cases m) auto

lemma and_then_Inl_iff: "and_then m f = Inl s \<longleftrightarrow> m = Inl s \<or> (\<exists>x. m = Inr x \<and> f x = Inl s)"
  by (cases m) auto

lemma and_then_cong [cong]:
  "m = m' \<Longrightarrow> (\<And>x. m' = Inr x \<Longrightarrow> f x = f' x) \<Longrightarrow> and_then m f = and_then m' f'"
  by (cases m') auto

definition check :: "Status \<Rightarrow> Status + unit" where
  "check s = (if ok s then Inr () else Inl s)"

lemma check_simps [simp]: "check OK = Inr ()" "check s = Inr u \<longleftrightarrow> s = OK"
  by (auto simp: check_def)

text \<open>Results: the status an operation returns, and whether it was OK.\<close>

fun status_of :: "Status + 'a \<Rightarrow> Status" where
  "status_of (Inl s) = s"
| "status_of (Inr _) = OK"

end
