(* ===== verification/Checksum.thy ===== *)
theory Checksum
  imports Prelude
begin

text \<open>
  \<open>common/checksum.cpp\<close>: the 64-bit FNV-1a checksum that snapshots and write-ahead-log
  records carry. The loop over the bytes is \<open>Compute_loop\<close>; the theorems show that it
  is incremental and that it detects every change of a single byte, which is what the
  corruption tests of the storage layer rely on.
\<close>

unbundle bit_operations_syntax

definition kFnvOffsetBasis :: u64 where
  "kFnvOffsetBasis = 14695981039346656037"

definition kFnvPrime :: u64 where
  "kFnvPrime = 1099511628211"

fun Compute_loop :: "u64 \<Rightarrow> bytes \<Rightarrow> u64" where
  "Compute_loop value [] = value"
| "Compute_loop value (b # bs) = Compute_loop ((value XOR ucast b) * kFnvPrime) bs"

definition Compute :: "bytes \<Rightarrow> u64" where
  "Compute data = Compute_loop kFnvOffsetBasis data"

definition Verify :: "bytes \<Rightarrow> u64 \<Rightarrow> bool" where
  "Verify data expected \<longleftrightarrow> Compute data = expected"

lemma Compute_loop_append: "Compute_loop v (xs @ ys) = Compute_loop (Compute_loop v xs) ys"
  by (induction xs arbitrary: v) auto

text \<open>The prime is odd, so multiplying by it can be undone; so can the exclusive or.\<close>

lemma kFnvPrime_inverse: "kFnvPrime * 14886173955864302971 = 1"
  by (simp add: kFnvPrime_def)

lemma kFnvPrime_cancel: "x * kFnvPrime = y * kFnvPrime \<longleftrightarrow> x = y"
proof
  assume "x * kFnvPrime = y * kFnvPrime"
  then have "x * kFnvPrime * 14886173955864302971 = y * kFnvPrime * 14886173955864302971"
    by (rule arg_cong)
  then show "x = y"
    unfolding mult.assoc kFnvPrime_inverse by (simp only: mult_1_right)
qed simp

lemma xor_cancel_left: "x XOR y = x XOR z \<longleftrightarrow> y = z" for x y z :: "'a::len word"
  by (metis xor.assoc xor.left_neutral xor_self_eq)

lemma xor_cancel_right: "y XOR x = z XOR x \<longleftrightarrow> y = z" for x y z :: "'a::len word"
  by (simp add: xor.commute xor_cancel_left)

lemma ucast_byte_inj: "(ucast a :: u64) = ucast b \<longleftrightarrow> a = b" for a b :: u8
proof
  assume "(ucast a :: u64) = ucast b"
  then have "unat (ucast a :: u64) = unat (ucast b :: u64)" by simp
  moreover have "unat (ucast x :: u64) = unat x" for x :: u8
    using unsigned_less [of x, where ?'a = nat] by (simp add: unsigned_ucast_eq take_bit_nat_eq_self)
  ultimately show "a = b" by (simp add: word_unat_eq_iff)
qed simp

lemma Compute_loop_inj: "Compute_loop v bs = Compute_loop w bs \<longleftrightarrow> v = w"
  by (induction bs arbitrary: v w) (auto simp: kFnvPrime_cancel xor_cancel_right)

lemma Compute_byte_change:
  "Compute_loop v (b # bs) = Compute_loop v (c # bs) \<longleftrightarrow> b = c"
  by (simp add: Compute_loop_inj kFnvPrime_cancel xor_cancel_left ucast_byte_inj)

lemma Verify_Compute [simp]: "Verify data (Compute data)"
  by (simp add: Verify_def)

text \<open>
  A checksum computed over some bytes no longer verifies after exactly one of the bytes is
  replaced by a different one, wherever it is and whatever surrounds it.
\<close>

theorem Checksum_detects_byte_change:
  assumes "b \<noteq> c"
  shows "\<not> Verify (pre @ c # post) (Compute (pre @ b # post))"
  using assms Compute_byte_change
  by (simp add: Verify_def Compute_def Compute_loop_append del: Compute_loop.simps)

theorem Checksum_detects_byte_change_witness:
  "(1 :: u8) \<noteq> 2 \<and> \<not> Verify ([7, 8] @ 2 # [9]) (Compute ([7, 8] @ 1 # [9]))"
proof -
  have h: "(1 :: u8) \<noteq> 2" by simp
  show ?thesis using h Checksum_detects_byte_change [OF h] by blast
qed

end
