(* ===== verification/Std_Map.thy ===== *)
theory Std_Map
  imports Prelude
begin

text \<open>
  \<open>std::map\<close>: an association list kept sorted by key, so that iteration has the order of
  the C++ container. \<open>map_find\<close> is \<open>find\<close>, \<open>map_set\<close> is \<open>m[k] = v\<close>,
  \<open>map_emplace\<close> is \<open>emplace\<close> (which keeps an entry that exists), \<open>map_erase\<close>
  is \<open>erase\<close> by key and \<open>map_erase_if\<close> the erasing iteration. The interface a client
  relies on is the locale \<open>ordered_map\<close>.
\<close>

type_synonym ('k, 'v) std_map = "('k \<times> 'v) list"

definition map_wf :: "('k::linorder, 'v) std_map \<Rightarrow> bool" where
  "map_wf m \<longleftrightarrow> sorted_wrt (<) (map fst m)"

definition map_find :: "('k, 'v) std_map \<Rightarrow> 'k \<Rightarrow> 'v option" where
  "map_find m k = map_of m k"

fun map_set :: "'k::linorder \<Rightarrow> 'v \<Rightarrow> ('k, 'v) std_map \<Rightarrow> ('k, 'v) std_map" where
  "map_set k v [] = [(k, v)]"
| "map_set k v ((a, b) # m) =
     (if k < a then (k, v) # (a, b) # m
      else if k = a then (k, v) # m
      else (a, b) # map_set k v m)"

definition map_emplace :: "'k::linorder \<Rightarrow> 'v \<Rightarrow> ('k, 'v) std_map \<Rightarrow> ('k, 'v) std_map" where
  "map_emplace k v m = (case map_find m k of None \<Rightarrow> map_set k v m | Some _ \<Rightarrow> m)"

definition map_erase_if :: "('k \<Rightarrow> bool) \<Rightarrow> ('k, 'v) std_map \<Rightarrow> ('k, 'v) std_map" where
  "map_erase_if P m = filter (\<lambda>(k, _). \<not> P k) m"

definition map_erase :: "'k \<Rightarrow> ('k, 'v) std_map \<Rightarrow> ('k, 'v) std_map" where
  "map_erase k m = map_erase_if (\<lambda>k'. k' = k) m"

lemma map_wf_Nil [simp]: "map_wf []"
  by (simp add: map_wf_def)

lemma map_find_Nil [simp]: "map_find [] k = None"
  by (simp add: map_find_def)

lemma map_find_set [simp]: "map_find (map_set k v m) k' = (if k' = k then Some v else map_find m k')"
  by (induction k v m rule: map_set.induct) (auto simp: map_find_def)

lemma fst_map_set: "fst ` set (map_set k v m) = insert k (fst ` set m)"
  by (induction k v m rule: map_set.induct) auto

lemma map_wf_set [simp, intro]: "map_wf m \<Longrightarrow> map_wf (map_set k v m)"
proof (induction k v m rule: map_set.induct)
  case (2 k v a b m)
  have "\<forall>x \<in> fst ` set (map_set k v m). a < x" if "a < k"
    using 2 that unfolding fst_map_set by (auto simp: map_wf_def)
  with 2 show ?case by (auto simp: map_wf_def)
qed (simp add: map_wf_def)

lemma map_find_erase_if [simp]:
  "map_find (map_erase_if P m) k = (if P k then None else map_find m k)"
  by (induction m) (auto simp: map_find_def map_erase_if_def)

lemma map_wf_erase_if [simp, intro]: "map_wf m \<Longrightarrow> map_wf (map_erase_if P m)"
  by (induction m) (auto simp: map_wf_def map_erase_if_def)

lemma map_find_emplace [simp]:
  "map_find (map_emplace k v m) k' =
     (if k' = k \<and> map_find m k = None then Some v else map_find m k')"
  by (auto simp: map_emplace_def split: option.splits)

lemma map_wf_emplace [simp, intro]: "map_wf m \<Longrightarrow> map_wf (map_emplace k v m)"
  by (auto simp: map_emplace_def split: option.splits)

text \<open>Two well-formed maps with the same lookups are the same list.\<close>

lemma map_find_mem: "map_wf m \<Longrightarrow> map_find m k = Some v \<longleftrightarrow> (k, v) \<in> set m"
  unfolding map_find_def map_wf_def
  by (rule map_of_eq_Some_iff) (simp add: strict_sorted_iff)

lemma map_wf_ext:
  assumes "map_wf m" "map_wf n" "\<And>k. map_find m k = map_find n k"
  shows "m = n"
proof (rule map_sorted_distinct_set_unique [of fst])
  show "set m = set n" using map_find_mem [OF assms(1)] map_find_mem [OF assms(2)] assms(3) by auto
  show "inj_on fst (set m \<union> set n)"
    using \<open>set m = set n\<close> assms(1) by (auto simp: map_wf_def strict_sorted_iff distinct_map)
  show "sorted (map fst m)" "distinct (map fst m)" "sorted (map fst n)" "distinct (map fst n)"
    using assms by (simp_all add: map_wf_def strict_sorted_iff)
qed

lemma map_wf_map_values: "map_wf (map (\<lambda>(k, v). (k, f k v)) m) = map_wf m"
  by (simp add: map_wf_def o_def case_prod_beta')

lemma map_find_map_values: "map_find (map (\<lambda>(k, v). (k, f k v)) m) k = map_option (f k) (map_find m k)"
  by (induction m) (auto simp: map_find_def)

locale ordered_map =
  fixes find :: "'m \<Rightarrow> 'k \<Rightarrow> 'v option"
    and assign :: "'k \<Rightarrow> 'v \<Rightarrow> 'm \<Rightarrow> 'm"
    and remove :: "'k \<Rightarrow> 'm \<Rightarrow> 'm"
    and invar :: "'m \<Rightarrow> bool"
  assumes find_assign: "find (assign k v m) k' = (if k' = k then Some v else find m k')"
    and find_remove: "find (remove k m) k' = (if k' = k then None else find m k')"
    and invar_assign: "invar m \<Longrightarrow> invar (assign k v m)"
    and invar_remove: "invar m \<Longrightarrow> invar (remove k m)"
begin

lemma assign_frame: "k' \<noteq> k \<Longrightarrow> find (assign k v m) k' = find m k'"
  by (simp add: find_assign)

lemma assign_dom: "(find (assign k v m) k' \<noteq> None) = (k' = k \<or> find m k' \<noteq> None)"
  by (simp add: find_assign)

lemma fold_assign_find:
  "find (fold (\<lambda>k. assign k (f k)) ks m) k' = (if k' \<in> set ks then Some (f k') else find m k')"
  by (induction ks arbitrary: m) (auto simp: find_assign)

lemma fold_assign_invar: "invar m \<Longrightarrow> invar (fold (\<lambda>k. assign k (f k)) ks m)"
  by (induction ks arbitrary: m) (auto intro: invar_assign)

end

interpretation smap: ordered_map map_find map_set map_erase map_wf
  by unfold_locales (auto simp: map_erase_def)

end
