(* ===== verification/Bounded_Queue.thy ===== *)
theory Bounded_Queue
  imports Status
begin

text \<open>
  \<open>common/bounded_queue.h\<close>: the mutex-protected bounded FIFO through which every runtime
  thread receives its events. Each member function runs under the mutex, so one call is one
  step; \<open>Pop\<close> first waits on the condition variable until the queue is closed or not
  empty, and its model is \<open>None\<close> while that wait lasts.
\<close>

record 'a BoundedQueue =
  bq_capacity :: nat
  bq_queue :: "'a list"
  bq_closed :: bool

definition BoundedQueue_new :: "nat \<Rightarrow> 'a BoundedQueue" where
  "BoundedQueue_new capacity = \<lparr>bq_capacity = capacity, bq_queue = [], bq_closed = False\<rparr>"

definition BoundedQueue_Push :: "'a \<Rightarrow> 'a BoundedQueue \<Rightarrow> Status \<times> 'a BoundedQueue" where
  "BoundedQueue_Push value q =
     (if bq_closed q then (Busy, q)
      else if bq_capacity q = 0 then (ResourceExhausted, q)
      else if bq_capacity q \<le> length (bq_queue q) then (ResourceExhausted, q)
      else (OK, q\<lparr>bq_queue := bq_queue q @ [value]\<rparr>))"

definition BoundedQueue_Pop ::
  "out_ptr \<Rightarrow> 'a BoundedQueue \<Rightarrow> ((Status + 'a) \<times> 'a BoundedQueue) option" where
  "BoundedQueue_Pop p q =
     (if p = nullptr then Some (Inl InvalidArgument, q)
      else if \<not> (bq_closed q \<or> bq_queue q \<noteq> []) then None
      else (case bq_queue q of
              [] \<Rightarrow> Some (Inl (if bq_closed q then RetryLater else InternalError), q)
            | value # rest \<Rightarrow> Some (Inr value, q\<lparr>bq_queue := rest\<rparr>)))"

definition BoundedQueue_Close :: "'a BoundedQueue \<Rightarrow> 'a BoundedQueue" where
  "BoundedQueue_Close q = q\<lparr>bq_closed := True\<rparr>"

definition BoundedQueue_size :: "'a BoundedQueue \<Rightarrow> nat" where
  "BoundedQueue_size q = length (bq_queue q)"

text \<open>Calls from any threads, in the order in which they take the mutex.\<close>

datatype 'a bq_call = CallPush 'a | CallPop | CallClose

text \<open>
  A run records what \<open>Push\<close> accepted and what \<open>Pop\<close> handed out. A \<open>Pop\<close> that has to
  wait takes the mutex only when it can proceed, so it leaves the state as it is.
\<close>

record 'a bq_run =
  run_queue :: "'a BoundedQueue"
  run_accepted :: "'a list"
  run_popped :: "'a list"

fun bq_step :: "'a bq_call \<Rightarrow> 'a bq_run \<Rightarrow> 'a bq_run" where
  "bq_step (CallPush v) r =
     (case BoundedQueue_Push v (run_queue r) of (s, q) \<Rightarrow>
        r\<lparr>run_queue := q, run_accepted := run_accepted r @ (if ok s then [v] else [])\<rparr>)"
| "bq_step CallPop r =
     (case BoundedQueue_Pop out (run_queue r) of
        None \<Rightarrow> r
      | Some (Inl s, q) \<Rightarrow> r\<lparr>run_queue := q\<rparr>
      | Some (Inr v, q) \<Rightarrow> r\<lparr>run_queue := q, run_popped := run_popped r @ [v]\<rparr>)"
| "bq_step CallClose r = r\<lparr>run_queue := BoundedQueue_Close (run_queue r)\<rparr>"

definition bq_exec :: "nat \<Rightarrow> 'a bq_call list \<Rightarrow> 'a bq_run" where
  "bq_exec capacity calls =
     fold bq_step calls \<lparr>run_queue = BoundedQueue_new capacity, run_accepted = [], run_popped = []\<rparr>"

definition bq_inv :: "nat \<Rightarrow> 'a bq_run \<Rightarrow> bool" where
  "bq_inv capacity r \<longleftrightarrow>
     bq_capacity (run_queue r) = capacity \<and>
     BoundedQueue_size (run_queue r) \<le> capacity \<and>
     run_accepted r = run_popped r @ bq_queue (run_queue r)"

lemma bq_step_inv: "bq_inv capacity r \<Longrightarrow> bq_inv capacity (bq_step c r)"
  by (cases c)
     (auto simp: bq_inv_def BoundedQueue_Push_def BoundedQueue_Pop_def BoundedQueue_Close_def
        BoundedQueue_size_def split: list.splits)

lemma fold_bq_step_inv: "bq_inv capacity r \<Longrightarrow> bq_inv capacity (fold bq_step calls r)"
  by (induction calls arbitrary: r) (auto intro: bq_step_inv)

lemma bq_exec_inv: "bq_inv capacity (bq_exec capacity calls)"
  unfolding bq_exec_def
  by (rule fold_bq_step_inv) (simp add: bq_inv_def BoundedQueue_new_def BoundedQueue_size_def)

text \<open>
  First in, first out, bounded, with nothing lost or duplicated: after any sequence of
  concurrent calls the accepted values are the popped ones followed by what is still queued,
  in order, and the queue never holds more than its capacity.
\<close>

theorem BoundedQueue_fifo:
  "run_accepted (bq_exec capacity calls) =
     run_popped (bq_exec capacity calls) @ bq_queue (run_queue (bq_exec capacity calls)) \<and>
   BoundedQueue_size (run_queue (bq_exec capacity calls)) \<le> capacity"
  using bq_exec_inv [of capacity calls] by (simp add: bq_inv_def)

lemma BoundedQueue_Pop_no_InternalError:
  "BoundedQueue_Pop p q \<noteq> Some (Inl InternalError, q')"
  by (auto simp: BoundedQueue_Pop_def split: list.splits)

text \<open>A closed queue accepts nothing, and a \<open>Pop\<close> on it never waits: it drains, then ends.\<close>

lemma BoundedQueue_closed:
  "BoundedQueue_Push v (BoundedQueue_Close q) = (Busy, BoundedQueue_Close q)"
  "BoundedQueue_Pop out (BoundedQueue_Close q) =
     (case bq_queue q of
        [] \<Rightarrow> Some (Inl RetryLater, BoundedQueue_Close q)
      | v # rest \<Rightarrow> Some (Inr v, (BoundedQueue_Close q)\<lparr>bq_queue := rest\<rparr>))"
  by (auto simp: BoundedQueue_Push_def BoundedQueue_Pop_def BoundedQueue_Close_def
      split: list.splits)

end
