(* ===== verification/Raft_Types.thy ===== *)
theory Raft_Types
  imports Status
begin

text \<open>
  \<open>common/types.h\<close>, \<open>raft/raft_types.h\<close>, \<open>raft/raft_message.h\<close> and the records of
  \<open>raft/raft_storage.h\<close>: the identifiers, log entries, hard state, membership view, peer
  progress and messages all parts of the Raft implementation exchange. Every identifier is
  a \<open>uint64_t\<close> and wraps; zero is the invalid node, the initial term and the invalid index.
\<close>

type_synonym NodeId = u64
type_synonym Term = u64
type_synonym LogIndex = u64

abbreviation kInvalidNodeId :: NodeId where "kInvalidNodeId \<equiv> 0"
abbreviation kInitialTerm :: Term where "kInitialTerm \<equiv> 0"
abbreviation kInvalidLogIndex :: LogIndex where "kInvalidLogIndex \<equiv> 0"

datatype RaftRole = FOLLOWER | CANDIDATE | LEADER | LEARNER

datatype LogEntryType = NO_OP | COMMAND | MEMBERSHIP_CHANGE

type_synonym OpaquePayload = bytes

record NodeAddress =
  na_host :: string
  na_port :: u16

record RaftMember =
  mb_node_id :: NodeId
  mb_address :: NodeAddress

record MembershipView =
  mv_voters :: "RaftMember list"
  mv_learners :: "RaftMember list"
  mv_has_active_transition :: bool
  mv_configuration_id :: u64
  mv_next_voters :: "RaftMember list"
  mv_next_learners :: "RaftMember list"

record LogEntry =
  le_index :: LogIndex
  le_term :: Term
  le_type :: LogEntryType
  le_payload :: OpaquePayload

record HardState =
  hs_current_term :: Term
  hs_voted_for :: NodeId
  hs_commit_index :: LogIndex
  hs_membership_configuration_id :: u64

record SnapshotMetadata =
  sm_last_included_index :: LogIndex
  sm_last_included_term :: Term
  sm_membership :: MembershipView

record SnapshotData =
  sd_metadata :: SnapshotMetadata
  sd_payload :: OpaquePayload

record PeerProgress =
  pp_node_id :: NodeId
  pp_is_learner :: bool
  pp_is_active :: bool
  pp_match_index :: LogIndex
  pp_next_index :: LogIndex

definition LogEntry_default :: LogEntry where
  "LogEntry_default = \<lparr>le_index = 0, le_term = 0, le_type = NO_OP, le_payload = []\<rparr>"

definition MembershipView_default :: MembershipView where
  "MembershipView_default =
     \<lparr>mv_voters = [], mv_learners = [], mv_has_active_transition = False,
      mv_configuration_id = 0, mv_next_voters = [], mv_next_learners = []\<rparr>"

definition HardState_default :: HardState where
  "HardState_default =
     \<lparr>hs_current_term = 0, hs_voted_for = 0, hs_commit_index = 0,
      hs_membership_configuration_id = 0\<rparr>"

section \<open>Messages\<close>

datatype VoteRejectReason =
  Reject_NONE | Reject_STALE_TERM | Reject_LOG_OUTDATED | Reject_ALREADY_VOTED | Reject_LEARNER

record RequestVoteRequest =
  rv_term :: Term
  rv_candidate_id :: NodeId
  rv_last_log_index :: LogIndex
  rv_last_log_term :: Term

record RequestVoteResponse =
  rvr_term :: Term
  rvr_vote_granted :: bool
  rvr_reject_reason :: VoteRejectReason

record AppendEntriesRequest =
  ae_term :: Term
  ae_leader_id :: NodeId
  ae_prev_log_index :: LogIndex
  ae_prev_log_term :: Term
  ae_entries :: "LogEntry list"
  ae_leader_commit :: LogIndex

record AppendEntriesResponse =
  aer_term :: Term
  aer_success :: bool
  aer_match_index :: LogIndex
  aer_conflict_index :: LogIndex
  aer_conflict_term :: Term

record InstallSnapshotRequest =
  is_term :: Term
  is_leader_id :: NodeId
  is_metadata :: SnapshotMetadata
  is_payload :: OpaquePayload

record InstallSnapshotResponse =
  isr_term :: Term
  isr_success :: bool
  isr_last_included_index :: LogIndex

text \<open>\<open>RaftMessageType\<close> repeats the alternative of the variant payload; senders set both.\<close>

datatype RaftMessagePayload =
    RequestVoteRequestMsg RequestVoteRequest
  | RequestVoteResponseMsg RequestVoteResponse
  | AppendEntriesRequestMsg AppendEntriesRequest
  | AppendEntriesResponseMsg AppendEntriesResponse
  | InstallSnapshotRequestMsg InstallSnapshotRequest
  | InstallSnapshotResponseMsg InstallSnapshotResponse

datatype RaftMessageType =
    REQUEST_VOTE_REQUEST
  | REQUEST_VOTE_RESPONSE
  | APPEND_ENTRIES_REQUEST
  | APPEND_ENTRIES_RESPONSE
  | INSTALL_SNAPSHOT_REQUEST
  | INSTALL_SNAPSHOT_RESPONSE

record RaftMessage =
  msg_type :: RaftMessageType
  msg_source_node_id :: NodeId
  msg_target_node_id :: NodeId
  msg_payload :: RaftMessagePayload

section \<open>The order of members\<close>

text \<open>
  \<open>MemberLess\<close> of \<open>raft_membership.cpp\<close> compares node id, host and port. It is a strict
  linear order, so sorting with it has one possible result, the library's \<open>sort\<close> over
  the instance below. \<open>std::string\<close> compares bytes as unsigned, as \<open>char\<close> does here.
\<close>

definition MemberLess :: "RaftMember \<Rightarrow> RaftMember \<Rightarrow> bool" where
  "MemberLess lhs rhs =
     (if mb_node_id lhs \<noteq> mb_node_id rhs then mb_node_id lhs < mb_node_id rhs
      else if na_host (mb_address lhs) \<noteq> na_host (mb_address rhs)
        then na_host (mb_address lhs) < na_host (mb_address rhs)
      else na_port (mb_address lhs) < na_port (mb_address rhs))"

definition member_key :: "'a RaftMember_scheme \<Rightarrow> NodeId \<times> string \<times> u16 \<times> 'a" where
  "member_key m =
     (mb_node_id m, na_host (mb_address m), na_port (mb_address m), RaftMember.more m)"

lemma member_key_inj: "member_key x = member_key y \<longleftrightarrow> x = y"
  by (cases x; cases y) (auto simp: member_key_def intro: NodeAddress.equality)

fun key_less_eq :: "NodeId \<times> string \<times> u16 \<times> 'a::linorder \<Rightarrow> NodeId \<times> string \<times> u16 \<times> 'a \<Rightarrow> bool" where
  "key_less_eq (a, h, p, r) (a', h', p', r') =
     (if a \<noteq> a' then a < a' else if h \<noteq> h' then h < h' else if p \<noteq> p' then p < p' else r \<le> r')"

lemma key_less_eq_linorder:
  "key_less_eq x x"
  "key_less_eq x y \<Longrightarrow> key_less_eq y z \<Longrightarrow> key_less_eq x z"
  "key_less_eq x y \<Longrightarrow> key_less_eq y x \<Longrightarrow> x = y"
  "key_less_eq x y \<or> key_less_eq y x"
  by (cases x; cases y; cases z; force split: if_splits)+

instantiation RaftMember_ext :: (linorder) linorder
begin

definition less_eq_RaftMember_ext :: "'a RaftMember_scheme \<Rightarrow> 'a RaftMember_scheme \<Rightarrow> bool" where
  "less_eq_RaftMember_ext x y \<longleftrightarrow> key_less_eq (member_key x) (member_key y)"

definition less_RaftMember_ext :: "'a RaftMember_scheme \<Rightarrow> 'a RaftMember_scheme \<Rightarrow> bool" where
  "less_RaftMember_ext x y \<longleftrightarrow> x \<le> y \<and> \<not> y \<le> (x :: 'a RaftMember_scheme)"

instance
proof
  fix x y z :: "'a RaftMember_scheme"
  show "(x < y) = (x \<le> y \<and> \<not> y \<le> x)" by (rule less_RaftMember_ext_def)
  show "x \<le> x" by (simp add: less_eq_RaftMember_ext_def key_less_eq_linorder(1))
  show "x \<le> y \<Longrightarrow> y \<le> z \<Longrightarrow> x \<le> z"
    unfolding less_eq_RaftMember_ext_def by (rule key_less_eq_linorder(2))
  show "x \<le> y \<Longrightarrow> y \<le> x \<Longrightarrow> x = y"
    unfolding less_eq_RaftMember_ext_def by (metis key_less_eq_linorder(3) member_key_inj)
  show "x \<le> y \<or> y \<le> x"
    unfolding less_eq_RaftMember_ext_def by (rule key_less_eq_linorder(4))
qed

end

lemma MemberLess_iff: "MemberLess x y \<longleftrightarrow> x < y"
  by (auto simp: MemberLess_def less_RaftMember_ext_def less_eq_RaftMember_ext_def member_key_def
      split: if_splits)

end
