(* ===== verification/Raft_Log.thy ===== *)
theory Raft_Log
  imports Raft_Types
begin

text \<open>
  \<open>raft/raft_log.h\<close> and \<open>raft/raft_log.cpp\<close>: the in-memory log of one node, a vector of
  entries behind a snapshot boundary with the stable, commit and applied markers. The
  definitions follow the member functions one by one; a function that changes the log
  returns its status with the new log, because the source may return an error after a change.
  The lemmas show the invariant, that every operation keeps it, and what each operation does
  to the abstract log, a partial map from indexes to entries.
\<close>

record RaftLog =
  lg_entries :: "LogEntry list"
  lg_snapshot_index :: LogIndex
  lg_snapshot_term :: Term
  lg_stable_index :: LogIndex
  lg_commit_index :: LogIndex
  lg_applied_index :: LogIndex

datatype ConflictType = Conflict_NONE | Conflict_CONFLICT | Conflict_APPEND

record ConflictResult =
  cr_type :: ConflictType
  cr_index :: LogIndex

definition RaftLog_new :: RaftLog where
  "RaftLog_new =
     \<lparr>lg_entries = [], lg_snapshot_index = kInvalidLogIndex, lg_snapshot_term = kInitialTerm,
      lg_stable_index = kInvalidLogIndex, lg_commit_index = kInvalidLogIndex,
      lg_applied_index = kInvalidLogIndex\<rparr>"

definition last_index :: "RaftLog \<Rightarrow> LogIndex" where
  "last_index l = (if lg_entries l = [] then lg_snapshot_index l else le_index (last (lg_entries l)))"

definition first_index :: "RaftLog \<Rightarrow> LogIndex" where
  "first_index l = lg_snapshot_index l + 1"

definition HasLogEntry :: "RaftLog \<Rightarrow> LogIndex \<Rightarrow> bool" where
  "HasLogEntry l index \<longleftrightarrow> lg_snapshot_index l < index \<and> index \<le> last_index l"

definition Offset :: "RaftLog \<Rightarrow> LogIndex \<Rightarrow> nat" where
  "Offset l index = unat (index - lg_snapshot_index l - 1)"

fun ValidateEntries_loop :: "LogIndex \<Rightarrow> LogIndex \<Rightarrow> nat \<Rightarrow> LogEntry list \<Rightarrow> Status" where
  "ValidateEntries_loop snapshot expected_start i [] = OK"
| "ValidateEntries_loop snapshot expected_start i (entry # entries) =
     (if le_index entry \<noteq> expected_start + of_nat i then InvalidArgument
      else if le_index entry \<le> snapshot then InvalidArgument
      else if le_term entry = kInitialTerm then InvalidArgument
      else ValidateEntries_loop snapshot expected_start (Suc i) entries)"

definition ValidateEntries :: "RaftLog \<Rightarrow> LogEntry list \<Rightarrow> LogIndex \<Rightarrow> Status" where
  "ValidateEntries l entries expected_start =
     (case entries of
        [] \<Rightarrow> OK
      | front # _ \<Rightarrow>
          if le_index front \<noteq> expected_start then InvalidArgument
          else ValidateEntries_loop (lg_snapshot_index l) expected_start 0 entries)"

fun ValidateInvariants_loop :: "LogIndex \<Rightarrow> LogEntry list \<Rightarrow> Status" where
  "ValidateInvariants_loop expected [] = OK"
| "ValidateInvariants_loop expected (entry # entries) =
     (if le_index entry \<noteq> expected then InternalError
      else if le_term entry = kInitialTerm then InternalError
      else ValidateInvariants_loop (expected + 1) entries)"

definition ValidateInvariants :: "RaftLog \<Rightarrow> Status" where
  "ValidateInvariants l =
     (if lg_commit_index l < lg_applied_index l then InternalError
      else if last_index l < lg_commit_index l then InternalError
      else if last_index l < lg_stable_index l then InternalError
      else if last_index l < lg_snapshot_index l then InternalError
      else if lg_commit_index l < lg_snapshot_index l then InternalError
      else if lg_applied_index l < lg_snapshot_index l then InternalError
      else if lg_stable_index l < lg_snapshot_index l then InternalError
      else ValidateInvariants_loop (lg_snapshot_index l + 1) (lg_entries l))"

definition Append_batch :: "RaftLog \<Rightarrow> LogEntry list \<Rightarrow> Status \<times> RaftLog" where
  "Append_batch l entries =
     (if entries = [] then (OK, l)
      else let expected_start = last_index l + 1;
               status = ValidateEntries l entries expected_start
           in if \<not> ok status then (status, l)
              else let l' = l\<lparr>lg_entries := lg_entries l @ entries\<rparr>
                   in (ValidateInvariants l', l'))"

definition Append :: "RaftLog \<Rightarrow> LogEntry \<Rightarrow> Status \<times> RaftLog" where
  "Append l entry = Append_batch l [entry]"

definition GetEntry :: "RaftLog \<Rightarrow> LogIndex \<Rightarrow> out_ptr \<Rightarrow> Status + LogEntry" where
  "GetEntry l index entry =
     (if \<not> ok (require_out entry) then Inl (require_out entry)
      else if index \<le> lg_snapshot_index l then Inl NotFound
      else if \<not> HasLogEntry l index then Inl NotFound
      else Inr (lg_entries l ! Offset l index))"

definition GetTerm :: "RaftLog \<Rightarrow> LogIndex \<Rightarrow> out_ptr \<Rightarrow> Status + Term" where
  "GetTerm l index term =
     (if \<not> ok (require_out term) then Inl (require_out term)
      else if index = kInvalidLogIndex then Inr kInitialTerm
      else if index = lg_snapshot_index l then Inr (lg_snapshot_term l)
      else if index < lg_snapshot_index l then Inl NotFound
      else if \<not> HasLogEntry l index then Inl NotFound
      else Inr (le_term (lg_entries l ! Offset l index)))"

definition GetEntries :: "RaftLog \<Rightarrow> LogIndex \<Rightarrow> LogIndex \<Rightarrow> out_ptr \<Rightarrow> Status + LogEntry list" where
  "GetEntries l begin_index end_index entries =
     (if \<not> ok (require_out entries) then Inl (require_out entries)
      else if end_index < begin_index then Inl InvalidArgument
      else if begin_index \<le> lg_snapshot_index l then Inl NotFound
      else if last_index l + 1 < end_index then Inl NotFound
      else if begin_index = end_index then Inr []
      else Inr (take (Offset l end_index - Offset l begin_index)
                  (drop (Offset l begin_index) (lg_entries l))))"

fun FindConflict_loop :: "RaftLog \<Rightarrow> LogEntry list \<Rightarrow> Status + ConflictResult" where
  "FindConflict_loop l [] = Inr \<lparr>cr_type = Conflict_NONE, cr_index = kInvalidLogIndex\<rparr>"
| "FindConflict_loop l (entry # incoming) =
     (if le_index entry \<le> lg_snapshot_index l then Inl InvalidArgument
      else if last_index l < le_index entry
        then Inr \<lparr>cr_type = Conflict_APPEND, cr_index = le_index entry\<rparr>
      else (case GetTerm l (le_index entry) out of
              Inl status \<Rightarrow> Inl status
            | Inr local_term \<Rightarrow>
                if local_term \<noteq> le_term entry
                then Inr \<lparr>cr_type = Conflict_CONFLICT, cr_index = le_index entry\<rparr>
                else FindConflict_loop l incoming))"

definition FindConflict :: "RaftLog \<Rightarrow> LogEntry list \<Rightarrow> out_ptr \<Rightarrow> Status + ConflictResult" where
  "FindConflict l incoming result =
     (if \<not> ok (require_out result) then Inl (require_out result)
      else if incoming = [] then Inr \<lparr>cr_type = Conflict_NONE, cr_index = kInvalidLogIndex\<rparr>
      else let status = ValidateEntries l incoming (le_index (hd incoming))
           in if \<not> ok status then Inl status else FindConflict_loop l incoming)"

definition TruncateSuffix :: "RaftLog \<Rightarrow> LogIndex \<Rightarrow> Status \<times> RaftLog" where
  "TruncateSuffix l index =
     (if index \<le> lg_snapshot_index l then (InvalidArgument, l)
      else if index \<le> lg_commit_index l then (InvalidArgument, l)
      else if last_index l + 1 < index then (InvalidArgument, l)
      else if index = last_index l + 1 then (OK, l)
      else let l1 = l\<lparr>lg_entries := vec_resize LogEntry_default (lg_entries l) (Offset l index)\<rparr>;
               l2 = l1\<lparr>lg_stable_index := min (lg_stable_index l1) (last_index l1)\<rparr>
           in (ValidateInvariants l2, l2))"

definition AdvanceStableTo :: "RaftLog \<Rightarrow> LogIndex \<Rightarrow> Status \<times> RaftLog" where
  "AdvanceStableTo l index =
     (if index < lg_stable_index l then (InvalidArgument, l)
      else if last_index l < index then (InvalidArgument, l)
      else let l' = l\<lparr>lg_stable_index := index\<rparr> in (ValidateInvariants l', l'))"

definition AdvanceCommitTo :: "RaftLog \<Rightarrow> LogIndex \<Rightarrow> Status \<times> RaftLog" where
  "AdvanceCommitTo l index =
     (if index < lg_commit_index l then (InvalidArgument, l)
      else if last_index l < index then (InvalidArgument, l)
      else let l' = l\<lparr>lg_commit_index := index\<rparr> in (ValidateInvariants l', l'))"

definition AdvanceAppliedTo :: "RaftLog \<Rightarrow> LogIndex \<Rightarrow> Status \<times> RaftLog" where
  "AdvanceAppliedTo l index =
     (if index < lg_applied_index l then (InvalidArgument, l)
      else if lg_commit_index l < index then (InvalidArgument, l)
      else let l' = l\<lparr>lg_applied_index := index\<rparr> in (ValidateInvariants l', l'))"

definition UpdateSnapshotBoundary :: "RaftLog \<Rightarrow> LogIndex \<Rightarrow> Term \<Rightarrow> Status \<times> RaftLog" where
  "UpdateSnapshotBoundary l index term =
     (if index < lg_snapshot_index l then (InvalidArgument, l)
      else if lg_applied_index l < index then (InvalidArgument, l)
      else if last_index l < index then (InvalidArgument, l)
      else if kInvalidLogIndex < index \<and> term = kInitialTerm then (InvalidArgument, l)
      else if index = lg_snapshot_index l then
        (if term \<noteq> lg_snapshot_term l then (InvalidArgument, l) else (OK, l))
      else (case GetTerm l index out of
              Inl status \<Rightarrow> (status, l)
            | Inr existing_term \<Rightarrow>
                if existing_term \<noteq> term then (InvalidArgument, l)
                else let l1 = (if lg_snapshot_index l < index
                               then l\<lparr>lg_entries := drop (Offset l (index + 1)) (lg_entries l)\<rparr>
                               else l);
                         l2 = l1\<lparr>lg_snapshot_index := index, lg_snapshot_term := term\<rparr>;
                         l3 = l2\<lparr>lg_stable_index := max (lg_stable_index l2) (lg_snapshot_index l2),
                                 lg_commit_index := max (lg_commit_index l2) (lg_snapshot_index l2),
                                 lg_applied_index := max (lg_applied_index l2) (lg_snapshot_index l2)\<rparr>
                     in (ValidateInvariants l3, l3)))"

definition Matches :: "RaftLog \<Rightarrow> LogIndex \<Rightarrow> Term \<Rightarrow> bool" where
  "Matches l index term =
     (case GetTerm l index out of Inl _ \<Rightarrow> False | Inr local_term \<Rightarrow> local_term = term)"

section \<open>The invariant\<close>

text \<open>
  Entries stand at consecutive indexes behind the snapshot boundary, without wrap-around, with
  positive terms, and the markers are ordered.
\<close>


definition log_inv :: "RaftLog \<Rightarrow> bool" where
  "log_inv l \<longleftrightarrow>
     (\<forall>k < length (lg_entries l).
        unat (le_index (lg_entries l ! k)) = unat (lg_snapshot_index l) + Suc k) \<and>
     (\<forall>e \<in> set (lg_entries l). le_term e \<noteq> kInitialTerm) \<and>
     (lg_snapshot_index l = kInvalidLogIndex \<longleftrightarrow> lg_snapshot_term l = kInitialTerm) \<and>
     lg_snapshot_index l \<le> lg_applied_index l \<and>
     lg_applied_index l \<le> lg_commit_index l \<and>
     lg_commit_index l \<le> last_index l \<and>
     lg_snapshot_index l \<le> lg_stable_index l \<and>
     lg_stable_index l \<le> last_index l"

lemma log_inv_new: "log_inv RaftLog_new"
  by (simp add: log_inv_def RaftLog_new_def last_index_def)

lemma unat_last_index:
  assumes "log_inv l"
  shows "unat (last_index l) = unat (lg_snapshot_index l) + length (lg_entries l)"
proof (cases "lg_entries l = []")
  case True
  then show ?thesis by (simp add: last_index_def)
next
  case False
  then have "length (lg_entries l) - 1 < length (lg_entries l)" by simp
  with assms have "unat (le_index (lg_entries l ! (length (lg_entries l) - 1)))
      = unat (lg_snapshot_index l) + Suc (length (lg_entries l) - 1)"
    unfolding log_inv_def by blast
  with False show ?thesis by (simp add: last_index_def last_conv_nth)
qed

lemma unat_Offset:
  assumes "lg_snapshot_index l < i"
  shows "Offset l i = unat i - unat (lg_snapshot_index l) - 1"
proof -
  have "unat (i - lg_snapshot_index l) = unat i - unat (lg_snapshot_index l)"
    using assms by (intro unat_sub) simp
  moreover have "0 < i - lg_snapshot_index l"
    using assms by (simp add: word_gt_0)
  ultimately show ?thesis
    unfolding Offset_def by (simp add: unat_dec)
qed

lemma Offset_less:
  assumes "log_inv l" "HasLogEntry l i"
  shows "Offset l i < length (lg_entries l)"
  using assms unat_last_index [of l] unat_Offset [of l i]
  by (auto simp: HasLogEntry_def idx)

lemma Offset_index:
  assumes "log_inv l" "HasLogEntry l i"
  shows "le_index (lg_entries l ! Offset l i) = i"
proof -
  have "unat (le_index (lg_entries l ! Offset l i)) = unat (lg_snapshot_index l) + Suc (Offset l i)"
    using assms Offset_less [OF assms] by (simp add: log_inv_def)
  also have "\<dots> = unat i"
    using assms(2) unat_Offset [of l i] by (auto simp: HasLogEntry_def idx)
  finally show ?thesis by (simp add: word_unat_eq_iff)
qed

text \<open>
  The abstract log: which entry stands at which index. Two logs with the same boundary, the
  same invariant and the same map hold the same entries.
\<close>

definition abs_log :: "RaftLog \<Rightarrow> LogIndex \<Rightarrow> LogEntry option" where
  "abs_log l i = (if HasLogEntry l i then Some (lg_entries l ! Offset l i) else None)"

lemma GetEntry_abs: "GetEntry l i out = (case abs_log l i of None \<Rightarrow> Inl NotFound | Some e \<Rightarrow> Inr e)"
  by (auto simp: GetEntry_def abs_log_def HasLogEntry_def)

lemma GetTerm_abs:
  "log_inv l \<Longrightarrow> GetTerm l i out =
     (if i = kInvalidLogIndex then Inr kInitialTerm
      else if i = lg_snapshot_index l then Inr (lg_snapshot_term l)
      else (case abs_log l i of None \<Rightarrow> Inl NotFound | Some e \<Rightarrow> Inr (le_term e)))"
  by (auto simp: GetTerm_def abs_log_def HasLogEntry_def)

lemma abs_log_index: "log_inv l \<Longrightarrow> abs_log l i = Some e \<Longrightarrow> le_index e = i"
  by (auto simp: abs_log_def Offset_index split: if_splits)

lemma abs_log_mem: "log_inv l \<Longrightarrow> abs_log l i = Some e \<Longrightarrow> e \<in> set (lg_entries l)"
  by (auto simp: abs_log_def Offset_less split: if_splits)

lemma dom_abs_log: "abs_log l i \<noteq> None \<longleftrightarrow> lg_snapshot_index l < i \<and> i \<le> last_index l"
  by (simp add: abs_log_def HasLogEntry_def)

lemma log_nth_index:
  assumes "log_inv l" "k < length (lg_entries l)"
  shows "unat (le_index (lg_entries l ! k)) = unat (lg_snapshot_index l) + Suc k"
  using assms by (simp add: log_inv_def)

text \<open>What the abstract log is, in terms of the position of an entry.\<close>

lemma abs_log_nth:
  assumes "log_inv l" "k < length (lg_entries l)"
  shows "abs_log l (le_index (lg_entries l ! k)) = Some (lg_entries l ! k)"
proof -
  let ?i = "le_index (lg_entries l ! k)"
  have i: "unat ?i = unat (lg_snapshot_index l) + Suc k"
    using assms by (rule log_nth_index)
  then have lt: "lg_snapshot_index l < ?i" by (simp add: idx)
  moreover have "?i \<le> last_index l"
    using assms unat_last_index i by (simp add: idx)
  moreover have "Offset l ?i = k"
    using unat_Offset [OF lt] i by simp
  ultimately show ?thesis by (simp add: abs_log_def HasLogEntry_def)
qed

section \<open>The runtime check is exact\<close>

lemma ValidateInvariants_loop_OK:
  "ok (ValidateInvariants_loop expected es) \<longleftrightarrow>
     (\<forall>k < length es. le_index (es ! k) = expected + of_nat k) \<and>
     (\<forall>e \<in> set es. le_term e \<noteq> kInitialTerm)"
proof (induction expected es rule: ValidateInvariants_loop.induct)
  case (2 expected e es)
  have "(\<forall>k < Suc (length es). le_index ((e # es) ! k) = expected + of_nat k) \<longleftrightarrow>
      le_index e = expected \<and> (\<forall>k < length es. le_index (es ! k) = expected + 1 + of_nat k)"
    by (simp add: All_less_Suc2 add.assoc)
  with 2 show ?case by auto
qed simp

lemma ValidateInvariants_OK:
  assumes inv: "log_inv l"
  shows "ValidateInvariants l = OK"
proof -
  have "le_index (lg_entries l ! k) = lg_snapshot_index l + 1 + of_nat k"
    if "k < length (lg_entries l)" for k
  proof -
    have eq: "unat (le_index (lg_entries l ! k)) = unat (lg_snapshot_index l) + Suc k"
      using inv that by (rule log_nth_index)
    have "(of_nat (unat (le_index (lg_entries l ! k))) :: u64)
        = of_nat (unat (lg_snapshot_index l) + Suc k)"
      by (simp only: eq)
    then show ?thesis by (simp add: add.commute add.left_commute)
  qed
  moreover have "lg_snapshot_index l \<le> last_index l"
    using unat_last_index [OF inv] by (simp add: idx)
  ultimately show ?thesis
    using inv by (auto simp: ValidateInvariants_def ValidateInvariants_loop_OK log_inv_def)
qed

lemma ValidateInvariants_sound:
  assumes ok: "ok (ValidateInvariants l)" and len: "length (lg_entries l) < 2 ^ 64"
    and snap: "lg_snapshot_index l = kInvalidLogIndex \<longleftrightarrow> lg_snapshot_term l = kInitialTerm"
  shows "log_inv l"
proof -
  let ?es = "lg_entries l" and ?s = "unat (lg_snapshot_index l)"
  have loop: "\<forall>k < length ?es. le_index (?es ! k) = lg_snapshot_index l + 1 + of_nat k"
    and terms: "\<forall>e \<in> set ?es. le_term e \<noteq> kInitialTerm"
    and marks: "lg_applied_index l \<le> lg_commit_index l" "lg_commit_index l \<le> last_index l"
      "lg_stable_index l \<le> last_index l" "lg_snapshot_index l \<le> last_index l"
      "lg_snapshot_index l \<le> lg_applied_index l" "lg_snapshot_index l \<le> lg_stable_index l"
    using ok by (auto simp: ValidateInvariants_def ValidateInvariants_loop_OK not_less split: if_splits)
  have nth: "le_index (?es ! k) = of_nat (?s + Suc k)" if "k < length ?es" for k
    using loop that by (simp add: add.commute add.left_commute)
  have "last_index l = of_nat (?s + length ?es)"
    using nth [of "length ?es - 1"] by (cases "?es = []") (auto simp: last_index_def last_conv_nth)
  then have last: "unat (last_index l) = (?s + length ?es) mod 2 ^ 64"
    by (simp add: unat_of_nat del: of_nat_add)
  have "?s + length ?es < 2 ^ 64"
  proof (rule ccontr)
    assume wrap: "\<not> ?thesis"
    then have "(?s + length ?es) mod 2 ^ 64 = ?s + length ?es - 2 ^ 64"
      using len unat_u64_lt [of "lg_snapshot_index l"] by (subst mod_if) simp
    then show False
      using marks(4) last wrap len by (simp add: word_le_nat_alt)
  qed
  then have "unat (le_index (?es ! k)) = ?s + Suc k" if "k < length ?es" for k
    using nth [OF that] that by (simp add: unat_of_nat del: of_nat_Suc of_nat_add)
  with terms marks snap show ?thesis by (auto simp: log_inv_def)
qed

section \<open>Entries by index\<close>

lemma abs_log_iff:
  assumes inv: "log_inv l"
  shows "abs_log l i = Some e \<longleftrightarrow> e \<in> set (lg_entries l) \<and> le_index e = i"
proof
  assume "abs_log l i = Some e"
  with inv show "e \<in> set (lg_entries l) \<and> le_index e = i"
    using abs_log_index abs_log_mem by blast
next
  assume e: "e \<in> set (lg_entries l) \<and> le_index e = i"
  then obtain k where "k < length (lg_entries l)" "lg_entries l ! k = e"
    by (auto simp: in_set_conv_nth)
  with e show "abs_log l i = Some e" using abs_log_nth [OF inv] by auto
qed

lemma set_take_log:
  assumes "log_inv l"
  shows "e \<in> set (take n (lg_entries l)) \<longleftrightarrow>
    e \<in> set (lg_entries l) \<and> unat (le_index e) \<le> unat (lg_snapshot_index l) + n"
proof
  assume "e \<in> set (take n (lg_entries l))"
  then obtain k where "k < n" "k < length (lg_entries l)" "lg_entries l ! k = e"
    by (auto simp: in_set_conv_nth)
  then show "e \<in> set (lg_entries l) \<and> unat (le_index e) \<le> unat (lg_snapshot_index l) + n"
    using log_nth_index [OF assms, of k] by auto
next
  assume a: "e \<in> set (lg_entries l) \<and> unat (le_index e) \<le> unat (lg_snapshot_index l) + n"
  then obtain k where k: "k < length (lg_entries l)" "lg_entries l ! k = e"
    by (auto simp: in_set_conv_nth)
  then have "k < n" using a log_nth_index [OF assms, of k] by auto
  then show "e \<in> set (take n (lg_entries l))"
    using k by (auto simp: in_set_conv_nth intro!: exI [of _ k])
qed

lemma set_drop_log:
  assumes "log_inv l"
  shows "e \<in> set (drop n (lg_entries l)) \<longleftrightarrow>
    e \<in> set (lg_entries l) \<and> unat (lg_snapshot_index l) + n < unat (le_index e)"
proof
  assume "e \<in> set (drop n (lg_entries l))"
  then obtain k where "k < length (lg_entries l) - n" "lg_entries l ! (n + k) = e"
    by (auto simp: in_set_conv_nth)
  then show "e \<in> set (lg_entries l) \<and> unat (lg_snapshot_index l) + n < unat (le_index e)"
    using log_nth_index [OF assms, of "n + k"] by auto
next
  assume a: "e \<in> set (lg_entries l) \<and> unat (lg_snapshot_index l) + n < unat (le_index e)"
  then obtain k where k: "k < length (lg_entries l)" "lg_entries l ! k = e"
    by (auto simp: in_set_conv_nth)
  then have "n \<le> k" using a log_nth_index [OF assms, of k] by auto
  then have "drop n (lg_entries l) ! (k - n) = e" "k - n < length (drop n (lg_entries l))"
    using k by auto
  then show "e \<in> set (drop n (lg_entries l))" by (metis nth_mem)
qed

section \<open>The markers\<close>

lemma AdvanceStableTo_eq:
  assumes "log_inv l"
  shows "AdvanceStableTo l i =
    (if lg_stable_index l \<le> i \<and> i \<le> last_index l
     then (OK, l\<lparr>lg_stable_index := i\<rparr>) else (InvalidArgument, l))"
proof (cases "lg_stable_index l \<le> i \<and> i \<le> last_index l")
  case True
  with assms have "log_inv (l\<lparr>lg_stable_index := i\<rparr>)"
    by (auto simp: log_inv_def last_index_def)
  with True show ?thesis by (simp add: AdvanceStableTo_def ValidateInvariants_OK not_less)
qed (auto simp: AdvanceStableTo_def not_less)

lemma AdvanceCommitTo_eq:
  assumes "log_inv l"
  shows "AdvanceCommitTo l i =
    (if lg_commit_index l \<le> i \<and> i \<le> last_index l
     then (OK, l\<lparr>lg_commit_index := i\<rparr>) else (InvalidArgument, l))"
proof (cases "lg_commit_index l \<le> i \<and> i \<le> last_index l")
  case True
  with assms have "log_inv (l\<lparr>lg_commit_index := i\<rparr>)"
    by (auto simp: log_inv_def last_index_def)
  with True show ?thesis by (simp add: AdvanceCommitTo_def ValidateInvariants_OK not_less)
qed (auto simp: AdvanceCommitTo_def not_less)

lemma AdvanceAppliedTo_eq:
  assumes "log_inv l"
  shows "AdvanceAppliedTo l i =
    (if lg_applied_index l \<le> i \<and> i \<le> lg_commit_index l
     then (OK, l\<lparr>lg_applied_index := i\<rparr>) else (InvalidArgument, l))"
proof (cases "lg_applied_index l \<le> i \<and> i \<le> lg_commit_index l")
  case True
  with assms have "log_inv (l\<lparr>lg_applied_index := i\<rparr>)"
    by (auto simp: log_inv_def last_index_def)
  with True show ?thesis by (simp add: AdvanceAppliedTo_def ValidateInvariants_OK not_less)
qed (auto simp: AdvanceAppliedTo_def not_less)

lemma log_inv_markers:
  assumes "log_inv l"
  shows "lg_stable_index l \<le> i \<Longrightarrow> i \<le> last_index l \<Longrightarrow> log_inv (l\<lparr>lg_stable_index := i\<rparr>)"
    and "lg_commit_index l \<le> i \<Longrightarrow> i \<le> last_index l \<Longrightarrow> log_inv (l\<lparr>lg_commit_index := i\<rparr>)"
    and "lg_applied_index l \<le> i \<Longrightarrow> i \<le> lg_commit_index l \<Longrightarrow> log_inv (l\<lparr>lg_applied_index := i\<rparr>)"
  using assms by (auto simp: log_inv_def last_index_def)

lemma abs_log_markers [simp]:
  "abs_log (l\<lparr>lg_stable_index := i\<rparr>) = abs_log l"
  "abs_log (l\<lparr>lg_commit_index := i\<rparr>) = abs_log l"
  "abs_log (l\<lparr>lg_applied_index := i\<rparr>) = abs_log l"
  by (auto simp: abs_log_def HasLogEntry_def last_index_def Offset_def)

lemma last_index_markers [simp]:
  "last_index (l\<lparr>lg_stable_index := i\<rparr>) = last_index l"
  "last_index (l\<lparr>lg_commit_index := i\<rparr>) = last_index l"
  "last_index (l\<lparr>lg_applied_index := i\<rparr>) = last_index l"
  by (auto simp: last_index_def)

section \<open>Appending\<close>

lemma ValidateEntries_loop_cases:
  "ValidateEntries_loop s start i es = OK \<or> ValidateEntries_loop s start i es = InvalidArgument"
  by (induction s start i es rule: ValidateEntries_loop.induct) auto

lemma ValidateEntries_loop_OK:
  "ok (ValidateEntries_loop s start i es) \<longleftrightarrow>
     (\<forall>k < length es. le_index (es ! k) = start + of_nat (i + k) \<and> s < le_index (es ! k)
        \<and> le_term (es ! k) \<noteq> kInitialTerm)"
proof (induction s start i es rule: ValidateEntries_loop.induct)
  case (2 s start i e es)
  have "(\<forall>k < length (e # es). le_index ((e # es) ! k) = start + of_nat (i + k)
          \<and> s < le_index ((e # es) ! k) \<and> le_term ((e # es) ! k) \<noteq> kInitialTerm) \<longleftrightarrow>
      (le_index e = start + of_nat i \<and> s < le_index e \<and> le_term e \<noteq> kInitialTerm) \<and>
      (\<forall>k < length es. le_index (es ! k) = start + of_nat (Suc i + k)
          \<and> s < le_index (es ! k) \<and> le_term (es ! k) \<noteq> kInitialTerm)"
    by (simp add: All_less_Suc2 ac_simps)
  with 2 show ?case by (auto simp: not_le)
qed simp

text \<open>
  \<open>contiguous_from n es\<close>: the entries stand at the indexes after \<open>n\<close>, none of them past the
  largest \<open>uint64_t\<close>, and carry positive terms.
\<close>

definition contiguous_from :: "nat \<Rightarrow> LogEntry list \<Rightarrow> bool" where
  "contiguous_from n es \<longleftrightarrow>
     (\<forall>k < length es. unat (le_index (es ! k)) = n + Suc k) \<and>
     (\<forall>e \<in> set es. le_term e \<noteq> kInitialTerm)"

lemma no_wrap:
  assumes idx: "\<forall>k < n. x + of_nat (Suc k) \<noteq> (0 :: u64)" and "k \<le> n"
  shows "unat (x + of_nat k) = unat x + k"
  using \<open>k \<le> n\<close>
proof (induction k)
  case (Suc k)
  then have eq: "unat (x + of_nat k) = unat x + k" by simp
  have "x + of_nat (Suc k) \<noteq> 0" using idx Suc.prems by (meson Suc_le_lessD)
  then have ne: "x + of_nat k + 1 \<noteq> 0" by (simp add: ac_simps)
  then have "unat (1 + (x + of_nat k)) = Suc (unat (x + of_nat k))"
    by (intro unatSuc) (simp add: add.commute)
  with eq show ?case by (simp add: add.commute add.left_commute)
qed simp

lemma ValidateEntries_contiguous:
  assumes "ok (ValidateEntries l es (x + 1))"
  shows "contiguous_from (unat x) es"
proof (cases es)
  case (Cons e es')
  then have "ok (ValidateEntries_loop (lg_snapshot_index l) (x + 1) 0 es)"
    using assms by (simp add: ValidateEntries_def del: ValidateEntries_loop.simps split: if_splits)
  then have all: "\<forall>k < length es. le_index (es ! k) = x + 1 + of_nat (0 + k)
      \<and> lg_snapshot_index l < le_index (es ! k) \<and> le_term (es ! k) \<noteq> kInitialTerm"
    unfolding ValidateEntries_loop_OK .
  then have eq: "le_index (es ! k) = x + of_nat (Suc k)" if "k < length es" for k
    using that by (simp add: ac_simps)
  have nz: "\<forall>k < length es. x + of_nat (Suc k) \<noteq> 0"
    using all eq by (metis word_not_simps(1))
  have "unat (le_index (es ! k)) = unat x + Suc k" if "k < length es" for k
    using that no_wrap [OF nz, of "Suc k"] by (simp only: eq Suc_leI)
  then show ?thesis
    using all by (auto simp: contiguous_from_def in_set_conv_nth)
qed (simp add: contiguous_from_def)

lemma contiguous_ValidateEntries:
  assumes "contiguous_from (unat x) es" "lg_snapshot_index l \<le> x"
  shows "ValidateEntries l es (x + 1) = OK"
proof (cases es)
  case (Cons e es')
  have eq: "le_index (es ! k) = x + 1 + of_nat k" if "k < length es" for k
  proof -
    have "(of_nat (unat (le_index (es ! k))) :: u64) = of_nat (unat x + Suc k)"
      using assms(1) that by (simp only: contiguous_from_def)
    then show ?thesis by (simp add: add.commute add.left_commute)
  qed
  moreover have "lg_snapshot_index l < le_index (es ! k)" if "k < length es" for k
    using assms that by (auto simp: contiguous_from_def idx)
  moreover have "le_term (es ! k) \<noteq> kInitialTerm" if "k < length es" for k
    using assms(1) that by (simp add: contiguous_from_def)
  ultimately have "ok (ValidateEntries_loop (lg_snapshot_index l) (x + 1) 0 es)"
    unfolding ValidateEntries_loop_OK by simp
  then show ?thesis
    using eq [of 0] Cons by (simp add: ValidateEntries_def del: ValidateEntries_loop.simps)
qed (simp add: ValidateEntries_def)

lemma last_index_append:
  "es \<noteq> [] \<Longrightarrow> last_index (l\<lparr>lg_entries := lg_entries l @ es\<rparr>) = le_index (last es)"
  by (simp add: last_index_def)

lemma log_inv_append:
  assumes inv: "log_inv l" and es: "contiguous_from (unat (last_index l)) es"
  shows "log_inv (l\<lparr>lg_entries := lg_entries l @ es\<rparr>)"
    and "last_index l \<le> last_index (l\<lparr>lg_entries := lg_entries l @ es\<rparr>)"
proof -
  let ?l = "l\<lparr>lg_entries := lg_entries l @ es\<rparr>" and ?n = "length (lg_entries l)"
  have last: "unat (last_index l) = unat (lg_snapshot_index l) + ?n"
    using inv by (rule unat_last_index)
  have "unat (le_index ((lg_entries l @ es) ! k)) = unat (lg_snapshot_index l) + Suc k"
    if "k < ?n + length es" for k
    using that es log_nth_index [OF inv, of k] last
    by (cases "k < ?n") (auto simp: nth_append contiguous_from_def)
  moreover show le: "last_index l \<le> last_index ?l"
  proof (cases "es = []")
    case False
    then have "unat (le_index (es ! (length es - 1))) = unat (last_index l) + Suc (length es - 1)"
      using es by (simp add: contiguous_from_def)
    then show ?thesis using False by (simp add: last_index_append last_conv_nth idx)
  qed simp
  ultimately show "log_inv ?l"
    using inv es le by (auto simp: log_inv_def contiguous_from_def)
qed

lemma Append_batch_eq:
  assumes inv: "log_inv l"
  shows "Append_batch l es =
    (if contiguous_from (unat (last_index l)) es
     then (OK, l\<lparr>lg_entries := lg_entries l @ es\<rparr>) else (InvalidArgument, l))"
proof (cases "contiguous_from (unat (last_index l)) es")
  case True
  have "lg_snapshot_index l \<le> last_index l"
    using unat_last_index [OF inv] by (simp add: idx)
  with True have "ValidateEntries l es (last_index l + 1) = OK"
    by (rule contiguous_ValidateEntries)
  with True show ?thesis
    using log_inv_append [OF inv True] by (simp add: Append_batch_def ValidateInvariants_OK)
next
  case False
  then have "es \<noteq> []" and "ValidateEntries l es (last_index l + 1) \<noteq> OK"
    using ValidateEntries_contiguous [of l es "last_index l"] by (auto simp: contiguous_from_def)
  moreover have "ValidateEntries l es s \<in> {OK, InvalidArgument}" for s
    using ValidateEntries_loop_cases by (auto simp: ValidateEntries_def split: list.split)
  ultimately show ?thesis
    using False by (auto simp: Append_batch_def Let_def)
qed

lemma abs_log_append:
  assumes inv: "log_inv l" and es: "contiguous_from (unat (last_index l)) es"
  shows "abs_log (l\<lparr>lg_entries := lg_entries l @ es\<rparr>) i = Some e \<longleftrightarrow>
    abs_log l i = Some e \<or> (e \<in> set es \<and> le_index e = i)"
  using abs_log_iff [OF inv] abs_log_iff [OF log_inv_append(1) [OF inv es]] by auto

section \<open>Truncating\<close>

lemma last_index_take:
  assumes inv: "log_inv l" and n: "n \<le> length (lg_entries l)"
  shows "unat (last_index (l\<lparr>lg_entries := take n (lg_entries l), lg_stable_index := s\<rparr>)) =
    unat (lg_snapshot_index l) + n"
proof (cases "n = 0")
  case True
  then show ?thesis by (simp add: last_index_def)
next
  case False
  with n have ne: "take n (lg_entries l) \<noteq> []" by auto
  moreover have "last (take n (lg_entries l)) = lg_entries l ! (n - 1)"
    using n False by (simp add: last_conv_nth [OF ne] min_absorb2)
  ultimately show ?thesis
    using False n log_nth_index [OF inv, of "n - 1"] by (auto simp: last_index_def)
qed

text \<open>The log cut before \<open>i\<close>, with the stable marker drawn back.\<close>

definition log_truncated :: "RaftLog \<Rightarrow> LogIndex \<Rightarrow> RaftLog" where
  "log_truncated l i =
     l\<lparr>lg_entries := take (Offset l i) (lg_entries l), lg_stable_index := min (lg_stable_index l) (i - 1)\<rparr>"

lemma log_inv_order:
  assumes "log_inv l"
  shows "lg_snapshot_index l \<le> lg_commit_index l" "lg_snapshot_index l \<le> last_index l"
    "lg_snapshot_index l \<le> lg_stable_index l" "lg_stable_index l \<le> last_index l"
    "lg_commit_index l \<le> last_index l" "lg_applied_index l \<le> last_index l"
    "lg_applied_index l \<le> lg_commit_index l" "lg_snapshot_index l \<le> lg_applied_index l"
  using assms by (auto simp: log_inv_def)

lemma truncate_facts:
  assumes inv: "log_inv l" and last: "last_index l < - 1"
    and i: "lg_commit_index l < i" "i \<le> last_index l + 1"
  shows "unat (i - 1) = unat i - 1" "0 < unat i" "Offset l i = unat i - unat (lg_snapshot_index l) - 1"
    "Offset l i \<le> length (lg_entries l)" "unat i \<le> Suc (unat (last_index l))"
    "lg_snapshot_index l < i"
proof -
  show pos: "0 < unat i" using i(1) by (simp add: idx)
  then show "unat (i - 1) = unat i - 1" by (intro unat_dec) (simp add: idx)
  show snap: "lg_snapshot_index l < i" using i(1) log_inv_order(1) [OF inv] by simp
  then show off: "Offset l i = unat i - unat (lg_snapshot_index l) - 1" by (rule unat_Offset)
  show le: "unat i \<le> Suc (unat (last_index l))"
    using i(2) unat_inc [OF last] by (simp add: idx)
  show "Offset l i \<le> length (lg_entries l)"
    using off le unat_last_index [OF inv] by simp
qed

lemma last_index_truncated:
  assumes inv: "log_inv l" and last: "last_index l < - 1"
    and i: "lg_commit_index l < i" "i \<le> last_index l + 1"
  shows "last_index (log_truncated l i) = i - 1"
  using last_index_take [OF inv, of "Offset l i"] truncate_facts [OF assms]
  unfolding log_truncated_def by (simp add: word_unat_eq_iff idx)

lemma log_inv_truncated:
  assumes inv: "log_inv l" and last: "last_index l < - 1"
    and i: "lg_commit_index l < i" "i \<le> last_index l + 1"
  shows "log_inv (log_truncated l i)"
  unfolding log_inv_def last_index_truncated [OF assms]
  using inv truncate_facts [OF assms] i log_inv_order [OF inv]
  by (auto simp: log_truncated_def log_inv_def min_def idx dest: in_set_takeD)

lemma TruncateSuffix_eq:
  assumes inv: "log_inv l" and last: "last_index l < - 1"
  shows "TruncateSuffix l i =
    (if lg_commit_index l < i \<and> i \<le> last_index l + 1
     then (OK, log_truncated l i) else (InvalidArgument, l))"
proof (cases "lg_commit_index l < i \<and> i \<le> last_index l + 1")
  case False
  then show ?thesis by (auto simp: TruncateSuffix_def not_less)
next
  case True
  then have i: "lg_commit_index l < i" "i \<le> last_index l + 1" by auto
  note facts = truncate_facts [OF inv last i]
  show ?thesis
  proof (cases "i = last_index l + 1")
    case eq: True
    then have "Offset l i = length (lg_entries l)"
      using facts(3) unat_inc [OF last] unat_last_index [OF inv] by simp
    moreover have "i - 1 = last_index l" using eq by simp
    ultimately have "log_truncated l i = l"
      using log_inv_order(4) [OF inv] by (simp add: log_truncated_def min_absorb1)
    then show ?thesis
      using eq i facts(6) by (simp add: TruncateSuffix_def not_le)
  next
    case False
    let ?l1 = "l\<lparr>lg_entries := take (Offset l i) (lg_entries l)\<rparr>"
    have "last_index ?l1 = i - 1"
      using last_index_truncated [OF inv last i]
      by (auto simp: last_index_def log_truncated_def split: if_splits)
    then have "?l1\<lparr>lg_stable_index := min (lg_stable_index ?l1) (last_index ?l1)\<rparr> = log_truncated l i"
      by (simp add: log_truncated_def)
    moreover have "ValidateInvariants (log_truncated l i) = OK"
      by (rule ValidateInvariants_OK) (rule log_inv_truncated [OF inv last i])
    ultimately show ?thesis
      using True False facts by (simp add: TruncateSuffix_def not_le not_less Let_def)
  qed
qed

lemma abs_log_truncated:
  assumes inv: "log_inv l" and last: "last_index l < - 1"
    and i: "lg_commit_index l < i" "i \<le> last_index l + 1"
  shows "abs_log (log_truncated l i) j = (if j < i then abs_log l j else None)"
proof (rule option_eqI)
  fix e
  note facts = truncate_facts [OF inv last i]
  show "abs_log (log_truncated l i) j = Some e \<longleftrightarrow> (if j < i then abs_log l j else None) = Some e"
    using abs_log_iff [OF inv] abs_log_iff [OF log_inv_truncated [OF inv last i]]
      set_take_log [OF inv] facts
    by (auto simp: log_truncated_def idx)
qed

section \<open>Compaction\<close>

definition log_compacted :: "RaftLog \<Rightarrow> LogIndex \<Rightarrow> Term \<Rightarrow> RaftLog" where
  "log_compacted l i t =
     l\<lparr>lg_entries := drop (unat i - unat (lg_snapshot_index l)) (lg_entries l),
       lg_snapshot_index := i, lg_snapshot_term := t,
       lg_stable_index := max (lg_stable_index l) i\<rparr>"

lemma last_index_compacted:
  assumes inv: "log_inv l" and i: "lg_snapshot_index l \<le> i" "i \<le> last_index l"
  shows "last_index (log_compacted l i t) = last_index l"
proof (cases "i = last_index l")
  case True
  then show ?thesis
    using unat_last_index [OF inv] by (simp add: last_index_def log_compacted_def)
next
  case False
  then have "unat i - unat (lg_snapshot_index l) < length (lg_entries l)"
    using i unat_last_index [OF inv] by (auto simp: idx word_unat_eq_iff)
  then show ?thesis by (auto simp: last_index_def log_compacted_def)
qed

lemma log_inv_compacted:
  assumes inv: "log_inv l" and i: "lg_snapshot_index l \<le> i" "i \<le> lg_applied_index l"
    and t: "i = kInvalidLogIndex \<longleftrightarrow> t = kInitialTerm"
  shows "log_inv (log_compacted l i t)"
proof -
  have le: "i \<le> last_index l" using i log_inv_order [OF inv] by simp
  have "unat (le_index (lg_entries l ! (unat i - unat (lg_snapshot_index l) + k))) = unat i + Suc k"
    if "k < length (lg_entries l) - (unat i - unat (lg_snapshot_index l))" for k
    using that i(1) by (subst log_nth_index [OF inv]) (auto simp: idx)
  then show ?thesis
    unfolding log_inv_def last_index_compacted [OF inv i(1) le]
    using inv i le t by (auto simp: log_compacted_def log_inv_def max_def dest: in_set_dropD)
qed

lemma UpdateSnapshotBoundary_eq:
  assumes inv: "log_inv l" and last: "last_index l < - 1"
  shows "UpdateSnapshotBoundary l i t =
    (if lg_snapshot_index l \<le> i \<and> i \<le> lg_applied_index l \<and> GetTerm l i out = Inr t
     then (OK, log_compacted l i t) else (InvalidArgument, l))"
proof -
  consider (range) "\<not> (lg_snapshot_index l \<le> i \<and> i \<le> lg_applied_index l)"
    | (same) "i = lg_snapshot_index l" "i \<le> lg_applied_index l"
    | (later) "lg_snapshot_index l < i" "i \<le> lg_applied_index l"
    by force
  then show ?thesis
  proof cases
    case range
    then show ?thesis by (auto simp: UpdateSnapshotBoundary_def not_less)
  next
    case same
    have "log_compacted l i t = l" if "t = lg_snapshot_term l"
      using that same log_inv_order(3) [OF inv] by (simp add: log_compacted_def max_absorb1)
    moreover have "GetTerm l i out = Inr (lg_snapshot_term l)"
      using same inv by (auto simp: GetTerm_def log_inv_def)
    moreover have "\<not> last_index l < i" using same log_inv_order [OF inv] by simp
    ultimately show ?thesis
      using same inv by (auto simp: UpdateSnapshotBoundary_def log_inv_def word_gt_0)
  next
    case later
    have le: "i \<le> last_index l" using later log_inv_order [OF inv] by simp
    then have inc: "unat (i + 1) = Suc (unat i)"
      using last by (intro unat_inc [of i "- 1"]) simp
    then have "Offset l (i + 1) = unat i - unat (lg_snapshot_index l)"
      using later by (subst unat_Offset) (auto simp: idx)
    moreover have nz: "i \<noteq> kInvalidLogIndex" using later by auto
    moreover have "HasLogEntry l i" using later le by (simp add: HasLogEntry_def)
    moreover have "le_term (lg_entries l ! Offset l i) \<noteq> kInitialTerm"
      using inv Offset_less [OF inv \<open>HasLogEntry l i\<close>] by (simp add: log_inv_def)
    moreover have "max (lg_commit_index l) i = lg_commit_index l" "max (lg_applied_index l) i = lg_applied_index l"
      using later log_inv_order [OF inv] by auto
    moreover have "ValidateInvariants (log_compacted l i t) = OK" if "t \<noteq> kInitialTerm"
      using that nz later by (intro ValidateInvariants_OK log_inv_compacted [OF inv]) auto
    ultimately show ?thesis
      using later le by (auto simp: UpdateSnapshotBoundary_def GetTerm_def log_compacted_def Let_def)
  qed
qed

lemma abs_log_compacted:
  assumes inv: "log_inv l" and i: "lg_snapshot_index l \<le> i" "i \<le> lg_applied_index l"
    and t: "i = kInvalidLogIndex \<longleftrightarrow> t = kInitialTerm"
  shows "abs_log (log_compacted l i t) j = (if i < j then abs_log l j else None)"
proof (rule option_eqI)
  fix e
  show "abs_log (log_compacted l i t) j = Some e \<longleftrightarrow> (if i < j then abs_log l j else None) = Some e"
    using abs_log_iff [OF inv] abs_log_iff [OF log_inv_compacted [OF inv i t]] set_drop_log [OF inv] i(1)
    by (auto simp: log_compacted_def idx)
qed

section \<open>Lookups through the operations\<close>

lemma GetTerm_cases:
  assumes inv: "log_inv l"
  shows "GetTerm l i out = Inr t \<longleftrightarrow>
    (i = kInvalidLogIndex \<and> t = kInitialTerm) \<or>
    (i \<noteq> kInvalidLogIndex \<and> i = lg_snapshot_index l \<and> t = lg_snapshot_term l) \<or>
    (\<exists>e. abs_log l i = Some e \<and> le_term e = t)"
  using dom_abs_log [of l i] inv
  by (auto simp: GetTerm_abs log_inv_def split: option.splits)

lemma GetTerm_in_range:
  assumes "log_inv l" "lg_snapshot_index l \<le> i" "i \<le> last_index l"
  shows "\<exists>t. GetTerm l i out = Inr t"
proof (cases "i = lg_snapshot_index l")
  case True
  then show ?thesis using assms(1) by (auto simp: GetTerm_abs log_inv_def)
next
  case False
  then have "HasLogEntry l i" using assms by (simp add: HasLogEntry_def)
  then show ?thesis using assms(1) False by (auto simp: GetTerm_abs abs_log_def)
qed

lemma GetTerm_positive:
  assumes "log_inv l" "GetTerm l i out = Inr t" "i \<noteq> kInvalidLogIndex"
  shows "t \<noteq> kInitialTerm"
  using assms abs_log_mem [OF assms(1)] unfolding GetTerm_cases [OF assms(1)]
  by (auto simp: log_inv_def)

lemma Matches_iff: "Matches l i t \<longleftrightarrow> GetTerm l i out = Inr t"
  by (auto simp: Matches_def split: sum.splits)

lemma Matches_abs:
  assumes "log_inv l" "lg_snapshot_index l < i"
  shows "Matches l i t \<longleftrightarrow> (\<exists>e. abs_log l i = Some e \<and> le_term e = t)"
  using assms GetTerm_cases [OF assms(1), of i t] by (auto simp: Matches_iff)

text \<open>The entries of a range, as the abstract log has them.\<close>

lemma GetEntries_abs:
  assumes inv: "log_inv l" and last: "last_index l < - 1"
    and range: "lg_snapshot_index l < b" "b \<le> e" "e \<le> last_index l + 1"
  shows "\<exists>es. GetEntries l b e out = Inr es \<and> length es = unat e - unat b \<and>
    contiguous_from (unat b - 1) es \<and> (\<forall>x \<in> set es. abs_log l (le_index x) = Some x)"
proof (cases "b = e")
  case True
  then show ?thesis using range by (auto simp: GetEntries_def contiguous_from_def)
next
  case False
  let ?es = "take (Offset l e - Offset l b) (drop (Offset l b) (lg_entries l))"
  have inc: "unat (last_index l + 1) = Suc (unat (last_index l))" using last by (rule unat_inc)
  have off: "Offset l b = unat b - unat (lg_snapshot_index l) - 1"
    "Offset l e = unat e - unat (lg_snapshot_index l) - 1"
    using range unat_Offset [of l b] unat_Offset [of l e] by auto
  have le: "Offset l e \<le> length (lg_entries l)"
    using range(3) inc off unat_last_index [OF inv] by (simp add: idx)
  have lt: "unat (lg_snapshot_index l) < unat b" "unat b < unat e"
    using range False by (auto simp: idx word_unat_eq_iff)
  have nth: "unat (le_index (?es ! k)) = unat b - 1 + Suc k" if "k < length ?es" for k
  proof -
    have "k + Offset l b < length (lg_entries l)" using that by auto
    then show ?thesis
      using that off lt log_nth_index [OF inv, of "Offset l b + k"] by (auto simp: add.commute)
  qed
  have mem: "x \<in> set (lg_entries l)" if "x \<in> set ?es" for x
    using that by (meson in_set_dropD in_set_takeD)
  have "contiguous_from (unat b - 1) ?es"
    unfolding contiguous_from_def using nth mem inv by (auto simp: log_inv_def simp del: nth_take)
  moreover have "\<forall>x \<in> set ?es. abs_log l (le_index x) = Some x"
    using mem by (simp add: abs_log_iff [OF inv])
  moreover have "length ?es = unat e - unat b" using off le lt by simp
  moreover have "GetEntries l b e out = Inr ?es"
    using range False by (auto simp: GetEntries_def not_less)
  ultimately show ?thesis by blast
qed

section \<open>Conflict search\<close>

text \<open>
  Against a batch of contiguous entries the search answers with the first entry the log does
  not have with the same term: nothing, a conflict inside the log, or the append position.
\<close>

fun conflict_spec :: "RaftLog \<Rightarrow> LogEntry list \<Rightarrow> ConflictResult \<Rightarrow> bool" where
  "conflict_spec l [] r \<longleftrightarrow> cr_type r = Conflict_NONE"
| "conflict_spec l (e # es) r \<longleftrightarrow>
     (if last_index l < le_index e then cr_type r = Conflict_APPEND \<and> cr_index r = le_index e
      else if \<not> Matches l (le_index e) (le_term e)
        then cr_type r = Conflict_CONFLICT \<and> cr_index r = le_index e
      else conflict_spec l es r)"

lemma FindConflict_loop_spec:
  assumes inv: "log_inv l" and es: "\<forall>e \<in> set es. lg_snapshot_index l < le_index e"
  shows "\<exists>r. FindConflict_loop l es = Inr r \<and> conflict_spec l es r"
  using es
proof (induction es)
  case (Cons e es)
  have snap: "lg_snapshot_index l < le_index e" using Cons.prems by simp
  show ?case
  proof (cases "last_index l < le_index e")
    case False
    then obtain t where "GetTerm l (le_index e) out = Inr t"
      using GetTerm_in_range [OF inv, of "le_index e"] snap by (metis leI order.strict_implies_order)
    with Cons snap False show ?thesis by (auto simp: not_le Matches_iff)
  qed (use snap in auto)
qed simp

text \<open>
  Splitting the batch at the reported index: what is before it agrees with the log, and the
  entry at it is the first one that does not.
\<close>

lemma conflict_spec_split:
  assumes "conflict_spec l es r"
  shows "\<exists>pre post. es = pre @ post \<and>
    (\<forall>x \<in> set pre. Matches l (le_index x) (le_term x) \<and> le_index x \<le> last_index l) \<and>
    (cr_type r = Conflict_NONE \<longrightarrow> post = []) \<and>
    (cr_type r \<noteq> Conflict_NONE \<longrightarrow> post \<noteq> [] \<and> cr_index r = le_index (hd post)) \<and>
    (cr_type r = Conflict_APPEND \<longrightarrow> last_index l < cr_index r) \<and>
    (cr_type r = Conflict_CONFLICT \<longrightarrow> cr_index r \<le> last_index l \<and>
       \<not> Matches l (cr_index r) (le_term (hd post)))"
  using assms
proof (induction es)
  case (Cons e es)
  show ?case
  proof (cases "last_index l < le_index e \<or> \<not> Matches l (le_index e) (le_term e)")
    case True
    then show ?thesis
      using Cons.prems by (intro exI [of _ "[]"] exI [of _ "e # es"]) (auto split: if_splits)
  next
    case False
    then have "conflict_spec l es r" using Cons.prems by simp
    from Cons.IH [OF this] obtain pre post where "es = pre @ post"
      "\<forall>x \<in> set pre. Matches l (le_index x) (le_term x) \<and> le_index x \<le> last_index l"
      "cr_type r = Conflict_NONE \<longrightarrow> post = []"
      "cr_type r \<noteq> Conflict_NONE \<longrightarrow> post \<noteq> [] \<and> cr_index r = le_index (hd post)"
      "cr_type r = Conflict_APPEND \<longrightarrow> last_index l < cr_index r"
      "cr_type r = Conflict_CONFLICT \<longrightarrow> cr_index r \<le> last_index l \<and>
         \<not> Matches l (cr_index r) (le_term (hd post))"
      by blast
    with False show ?thesis
      by (intro exI [of _ "e # pre"] exI [of _ post]) auto
  qed
qed simp

lemma FindConflict_spec:
  assumes inv: "log_inv l" and es: "contiguous_from n es"
    and snap: "\<forall>e \<in> set es. lg_snapshot_index l < le_index e"
  shows "\<exists>r. FindConflict l es out = Inr r \<and> conflict_spec l es r"
proof (cases es)
  case (Cons e es')
  have "unat (le_index e) = Suc n" using es Cons by (auto simp: contiguous_from_def)
  then have "unat (le_index e - 1) = n" by (subst unat_dec) (auto simp: word_less_nat_alt)
  moreover have eq: "le_index e - 1 + 1 = le_index e" by simp
  moreover have "lg_snapshot_index l \<le> le_index e - 1"
    using snap Cons calculation(1) \<open>unat (le_index e) = Suc n\<close> by (simp add: idx)
  ultimately have "ValidateEntries l es (le_index e) = OK"
    using contiguous_ValidateEntries [of "le_index e - 1" es l] es by simp
  then show ?thesis
    using FindConflict_loop_spec [OF inv snap] Cons by (simp add: FindConflict_def del: FindConflict_loop.simps)
qed (simp add: FindConflict_def)

text \<open>A successful search also says that the batch was well formed.\<close>

lemma FindConflict_valid:
  assumes "FindConflict l es out = Inr r" "es \<noteq> []"
  shows "contiguous_from (unat (le_index (hd es) - 1)) es"
    and "FindConflict_loop l es = Inr r"
    and "\<forall>e \<in> set es. lg_snapshot_index l < le_index e"
proof -
  have ok: "ok (ValidateEntries l es (le_index (hd es)))"
    using assms by (auto simp: FindConflict_def Let_def split: if_splits)
  then show "contiguous_from (unat (le_index (hd es) - 1)) es"
    using ValidateEntries_contiguous [of l es "le_index (hd es) - 1"] by simp
  show "FindConflict_loop l es = Inr r"
    using assms ok by (simp add: FindConflict_def)
  have "ok (ValidateEntries_loop (lg_snapshot_index l) (le_index (hd es)) 0 es)"
    using ok assms(2) by (cases es) (auto simp: ValidateEntries_def simp del: ValidateEntries_loop.simps)
  then show "\<forall>e \<in> set es. lg_snapshot_index l < le_index e"
    unfolding ValidateEntries_loop_OK by (metis in_set_conv_nth)
qed

section \<open>Refinement of the abstract log\<close>

text \<open>
  The contract of \<open>RaftLog\<close>: a map from indexes to entries with six markers, and what each
  operation does to it. An operation whose precondition fails is rejected and changes nothing.
\<close>

record abstract_log =
  al_map :: "LogIndex \<Rightarrow> LogEntry option"
  al_last :: LogIndex
  al_snapshot :: LogIndex
  al_snapshot_term :: Term
  al_stable :: LogIndex
  al_commit :: LogIndex
  al_applied :: LogIndex

datatype log_op =
    Op_Append "LogEntry list"
  | Op_TruncateSuffix LogIndex
  | Op_AdvanceStableTo LogIndex
  | Op_AdvanceCommitTo LogIndex
  | Op_AdvanceAppliedTo LogIndex
  | Op_UpdateSnapshotBoundary LogIndex Term

fun log_exec :: "log_op \<Rightarrow> RaftLog \<Rightarrow> Status \<times> RaftLog" where
  "log_exec (Op_Append es) l = Append_batch l es"
| "log_exec (Op_TruncateSuffix i) l = TruncateSuffix l i"
| "log_exec (Op_AdvanceStableTo i) l = AdvanceStableTo l i"
| "log_exec (Op_AdvanceCommitTo i) l = AdvanceCommitTo l i"
| "log_exec (Op_AdvanceAppliedTo i) l = AdvanceAppliedTo l i"
| "log_exec (Op_UpdateSnapshotBoundary i t) l = UpdateSnapshotBoundary l i t"

definition abstract_term :: "abstract_log \<Rightarrow> LogIndex \<Rightarrow> Term option" where
  "abstract_term a i =
     (if i = kInvalidLogIndex then Some kInitialTerm
      else if i = al_snapshot a then Some (al_snapshot_term a)
      else map_option le_term (al_map a i))"

definition guarded :: "bool \<Rightarrow> abstract_log \<Rightarrow> abstract_log \<Rightarrow> Status \<times> abstract_log" where
  "guarded P a a' = (if P then (OK, a') else (InvalidArgument, a))"

fun log_spec :: "log_op \<Rightarrow> abstract_log \<Rightarrow> Status \<times> abstract_log" where
  "log_spec (Op_Append es) a =
     guarded (contiguous_from (unat (al_last a)) es) a
       (a\<lparr>al_map := al_map a ++ map_of (map (\<lambda>e. (le_index e, e)) es),
          al_last := (if es = [] then al_last a else le_index (last es))\<rparr>)"
| "log_spec (Op_TruncateSuffix i) a =
     guarded (al_commit a < i \<and> i \<le> al_last a + 1) a
       (a\<lparr>al_map := al_map a |` {..<i}, al_last := i - 1, al_stable := min (al_stable a) (i - 1)\<rparr>)"
| "log_spec (Op_AdvanceStableTo i) a =
     guarded (al_stable a \<le> i \<and> i \<le> al_last a) a (a\<lparr>al_stable := i\<rparr>)"
| "log_spec (Op_AdvanceCommitTo i) a =
     guarded (al_commit a \<le> i \<and> i \<le> al_last a) a (a\<lparr>al_commit := i\<rparr>)"
| "log_spec (Op_AdvanceAppliedTo i) a =
     guarded (al_applied a \<le> i \<and> i \<le> al_commit a) a (a\<lparr>al_applied := i\<rparr>)"
| "log_spec (Op_UpdateSnapshotBoundary i t) a =
     guarded (al_snapshot a \<le> i \<and> i \<le> al_applied a \<and> abstract_term a i = Some t) a
       (a\<lparr>al_map := al_map a |` {i<..}, al_snapshot := i, al_snapshot_term := t,
          al_stable := max (al_stable a) i\<rparr>)"

definition log_abs :: "RaftLog \<Rightarrow> abstract_log" where
  "log_abs l =
     \<lparr>al_map = abs_log l, al_last = last_index l, al_snapshot = lg_snapshot_index l,
      al_snapshot_term = lg_snapshot_term l, al_stable = lg_stable_index l,
      al_commit = lg_commit_index l, al_applied = lg_applied_index l\<rparr>"

lemma GetTerm_abstract_term:
  assumes "log_inv l"
  shows "GetTerm l i out = Inr t \<longleftrightarrow> abstract_term (log_abs l) i = Some t"
  using assms by (auto simp: GetTerm_abs abstract_term_def log_abs_def split: option.splits)

lemma contiguous_from_distinct:
  assumes "contiguous_from n es"
  shows "distinct (map le_index es)"
proof -
  have "i = j" if "i < length es" "j < length es" "le_index (es ! i) = le_index (es ! j)" for i j
  proof -
    have "n + Suc i = n + Suc j" using assms that unfolding contiguous_from_def by metis
    then show ?thesis by simp
  qed
  then show ?thesis by (auto simp: distinct_conv_nth)
qed

lemma contiguous_from_bounds:
  assumes "contiguous_from n es" "e \<in> set es"
  shows "n < unat (le_index e)" "unat (le_index e) \<le> n + length es"
  using assms by (auto simp: contiguous_from_def in_set_conv_nth)

lemma map_of_by_index:
  assumes "contiguous_from n es"
  shows "map_of (map (\<lambda>e. (le_index e, e)) es) i = Some x \<longleftrightarrow> x \<in> set es \<and> le_index x = i"
  using contiguous_from_distinct [OF assms]
  by (subst map_of_eq_Some_iff) (auto simp: o_def)

lemma abs_log_append_map:
  assumes inv: "log_inv l" and es: "contiguous_from (unat (last_index l)) es"
  shows "abs_log (l\<lparr>lg_entries := lg_entries l @ es\<rparr>) =
    abs_log l ++ map_of (map (\<lambda>e. (le_index e, e)) es)"
proof (rule ext, rule option_eqI)
  fix i e
  have "\<not> (e \<in> set es \<and> le_index e = i)" if "abs_log l i = Some e'" for e e'
    using contiguous_from_bounds(1) [OF es, of e] that dom_abs_log [of l i] by (auto simp: idx)
  then have "map_of (map (\<lambda>e. (le_index e, e)) es) i = None" if "abs_log l i = Some e'" for e'
    using that map_of_by_index [OF es, of i] by (meson not_Some_eq)
  then show "abs_log (l\<lparr>lg_entries := lg_entries l @ es\<rparr>) i = Some e \<longleftrightarrow>
      (abs_log l ++ map_of (map (\<lambda>e. (le_index e, e)) es)) i = Some e"
    unfolding abs_log_append [OF inv es] map_add_Some_iff map_of_by_index [OF es] by blast
qed

definition refines :: "log_op \<Rightarrow> RaftLog \<Rightarrow> bool" where
  "refines op l \<longleftrightarrow>
     log_spec op (log_abs l) = (fst (log_exec op l), log_abs (snd (log_exec op l))) \<and>
     log_inv (snd (log_exec op l))"

lemma refines_append:
  assumes "log_inv l"
  shows "refines (Op_Append es) l"
  using assms log_inv_append(1) [OF assms] abs_log_append_map [OF assms, of es]
  by (simp add: refines_def Append_batch_eq guarded_def log_abs_def last_index_append)

lemma refines_truncate:
  assumes inv: "log_inv l" and last: "last_index l < - 1"
  shows "refines (Op_TruncateSuffix i) l"
proof (cases "lg_commit_index l < i \<and> i \<le> last_index l + 1")
  case True
  then have "abs_log (log_truncated l i) = abs_log l |` {..<i}"
    using abs_log_truncated [OF inv last] by (simp add: restrict_map_def fun_eq_iff)
  with True show ?thesis
    using log_inv_truncated [OF inv last] last_index_truncated [OF inv last]
    by (simp add: refines_def TruncateSuffix_eq [OF inv last] guarded_def log_abs_def)
      (simp add: log_truncated_def)
next
  case False
  then show ?thesis
    using inv by (auto simp: refines_def TruncateSuffix_eq [OF inv last] guarded_def log_abs_def)
qed

lemma refines_compact:
  assumes inv: "log_inv l" and last: "last_index l < - 1"
  shows "refines (Op_UpdateSnapshotBoundary i t) l"
proof (cases "lg_snapshot_index l \<le> i \<and> i \<le> lg_applied_index l \<and> GetTerm l i out = Inr t")
  case True
  then have i: "lg_snapshot_index l \<le> i" "i \<le> lg_applied_index l" and t: "GetTerm l i out = Inr t"
    by auto
  have zero: "i = kInvalidLogIndex \<longleftrightarrow> t = kInitialTerm"
    using t GetTerm_positive [OF inv t] by (auto simp: GetTerm_def)
  have le: "i \<le> last_index l" using i(2) log_inv_order(6) [OF inv] by (rule order_trans)
  have "abs_log (log_compacted l i t) = abs_log l |` {i<..}"
    by (rule ext) (simp add: abs_log_compacted [OF inv i zero] restrict_map_def)
  moreover have "abstract_term (log_abs l) i = Some t"
    using t by (simp only: GetTerm_abstract_term [OF inv])
  moreover have "log_inv (log_compacted l i t)" by (rule log_inv_compacted [OF inv i zero])
  moreover have "last_index (log_compacted l i t) = last_index l"
    by (rule last_index_compacted [OF inv i(1) le])
  ultimately show ?thesis
    using i t unfolding refines_def log_exec.simps UpdateSnapshotBoundary_eq [OF inv last]
    by (simp add: guarded_def log_abs_def) (simp add: log_compacted_def)
next
  case False
  then have "\<not> (lg_snapshot_index l \<le> i \<and> i \<le> lg_applied_index l \<and>
      abstract_term (log_abs l) i = Some t)"
    by (simp only: GetTerm_abstract_term [OF inv]) simp
  then have "\<not> (al_snapshot (log_abs l) \<le> i \<and> i \<le> al_applied (log_abs l) \<and>
      abstract_term (log_abs l) i = Some t)"
    by (simp add: log_abs_def)
  then show ?thesis
    using inv False unfolding refines_def log_exec.simps UpdateSnapshotBoundary_eq [OF inv last]
    by (auto simp: guarded_def)
qed

lemma refines_markers:
  assumes inv: "log_inv l"
  shows "refines (Op_AdvanceStableTo i) l" "refines (Op_AdvanceCommitTo i) l"
    "refines (Op_AdvanceAppliedTo i) l"
  using inv log_inv_markers [OF inv]
  by (simp_all add: refines_def AdvanceStableTo_eq AdvanceCommitTo_eq AdvanceAppliedTo_eq
      guarded_def log_abs_def)

text \<open>
  The check \<open>ValidateInvariants\<close> that closes every mutating operation is exact: on a log
  whose vector has a possible size and whose boundary term is positive exactly when the boundary
  is, it answers OK if and only if the log satisfies the invariant, wrap-around included.
\<close>

theorem ValidateInvariants_exact:
  assumes "length (lg_entries l) < 2 ^ 64"
    and "lg_snapshot_index l = kInvalidLogIndex \<longleftrightarrow> lg_snapshot_term l = kInitialTerm"
  shows "ok (ValidateInvariants l) \<longleftrightarrow> log_inv l"
  using ValidateInvariants_OK ValidateInvariants_sound assms by blast

theorem ValidateInvariants_exact_witness:
  "ok (ValidateInvariants RaftLog_new) \<longleftrightarrow> log_inv RaftLog_new"
  by (rule ValidateInvariants_exact) (simp_all add: RaftLog_new_def)

text \<open>
  C19. \<open>RaftLog\<close> implements its contract: for every operation, the status it returns and the
  log it leaves are those of the abstract log, and the invariant is kept, so the closing check
  never fails. Rejected operations change nothing; truncation never reaches committed entries.
\<close>

theorem RaftLog_refines_abstract_log:
  assumes "log_inv l" and "last_index l < - 1"
  shows "log_spec op (log_abs l) = (fst (log_exec op l), log_abs (snd (log_exec op l))) \<and>
    log_inv (snd (log_exec op l))"
proof -
  have "refines op l"
    by (cases op) (use assms refines_append refines_truncate refines_compact refines_markers in auto)
  then show ?thesis by (simp only: refines_def)
qed

theorem RaftLog_refines_abstract_log_witness:
  "log_inv RaftLog_new \<and> last_index RaftLog_new < - 1 \<and>
   (let e = \<lparr>le_index = 1, le_term = 1, le_type = NO_OP, le_payload = []\<rparr>;
        r = log_exec (Op_Append [e]) RaftLog_new
    in log_spec (Op_Append [e]) (log_abs RaftLog_new) = (fst r, log_abs (snd r)) \<and> log_inv (snd r))"
proof -
  have a: "log_inv RaftLog_new" by (rule log_inv_new)
  have b: "last_index RaftLog_new < - 1" by (simp add: last_index_def RaftLog_new_def)
  show ?thesis
    unfolding Let_def using a b RaftLog_refines_abstract_log [OF a b] by blast
qed

end
