(* ===== verification/Byte_Codec.thy ===== *)
theory Byte_Codec
  imports Status
begin

text \<open>
  The byte-level readers and writers that \<open>raft_membership.cpp\<close> and \<open>raft_snapshot.cpp\<close>
  share in shape: little-endian integers, strings, and counted lists. A reader takes the
  payload and an offset and returns the value with the offset behind it. The locales state
  what a codec built from them relies on: a value written at the offset is read back, and a
  successful read stays inside the payload.
\<close>

unbundle bit_operations_syntax

definition byte_of_char :: "char \<Rightarrow> u8" where
  "byte_of_char c = word_of_nat (of_char c)"

definition char_of_byte :: "u8 \<Rightarrow> char" where
  "char_of_byte b = char_of (unat b)"

lemma char_of_byte_of_char [simp]: "char_of_byte (byte_of_char c) = c"
proof -
  have "of_char c < (2 :: nat) ^ 8" using nat_of_char_less_256 [of c] by simp
  then show ?thesis by (simp add: char_of_byte_def byte_of_char_def unat_of_nat)
qed

lemma map_char_of_byte [simp]: "map (char_of_byte \<circ> byte_of_char) s = s"
  by (simp add: o_def)

text \<open>\<open>std::size_t\<close> subtraction: it wraps when the offset is past the end.\<close>

definition size_sub :: "nat \<Rightarrow> nat \<Rightarrow> nat" where
  "size_sub a b = (if b \<le> a then a - b else a + 2 ^ 64 - b)"

lemma size_sub_le [simp]: "b \<le> a \<Longrightarrow> size_sub a b = a - b"
  by (simp add: size_sub_def)

section \<open>Little-endian integers\<close>

text \<open>
  \<open>for (shift = 0; shift < 8 * n; shift += 8) push_back((value >> shift) & 0xFF)\<close> and
  \<open>for (shift = 0; ...) decoded |= static_cast<T>(payload[offset++]) << shift\<close>.
\<close>

definition put_le :: "nat \<Rightarrow> 'a::len word \<Rightarrow> bytes" where
  "put_le n value = map (\<lambda>k. ucast (drop_bit (8 * k) value AND 0xFF)) [0 ..< n]"

definition get_le :: "nat \<Rightarrow> bytes \<Rightarrow> nat \<Rightarrow> 'a::len word" where
  "get_le n payload offset =
     fold (\<lambda>k decoded. decoded OR push_bit (8 * k) (ucast (payload ! (offset + k)))) [0 ..< n] 0"

lemma length_put_le [simp]: "length (put_le n v) = n"
  by (simp add: put_le_def)

lemma bit_push_byte:
  "bit (push_bit (8 * n) (ucast (x :: u8)) :: 'a::len word) i \<longleftrightarrow>
     i < LENGTH('a) \<and> i div 8 = n \<and> bit x (i mod 8)"
proof -
  have "bit (push_bit (8 * n) (ucast x) :: 'a word) i \<longleftrightarrow> i < LENGTH('a) \<and> 8 * n \<le> i \<and> bit x (i - 8 * n)"
    by (auto simp: bit_push_bit_iff bit_ucast_iff)
  also have "\<dots> \<longleftrightarrow> i < LENGTH('a) \<and> i div 8 = n \<and> bit x (i mod 8)"
  proof (cases "i div 8 = n")
    case True
    then have "8 * n \<le> i" "i - 8 * n = i mod 8"
      using div_mult_mod_eq [of i 8] by linarith+
    then show ?thesis using True by simp
  next
    case False
    have "i div 8 = n" if "8 * n \<le> i" "i < 8 * n + 8"
      using that by (intro div_nat_eqI) simp_all
    with False have "8 \<le> i - 8 * n" if "8 * n \<le> i" using that by linarith
    then have "\<not> (8 * n \<le> i \<and> bit x (i - 8 * n))"
      using bit_imp_le_length [of x "i - 8 * n"] by force
    then show ?thesis using False by blast
  qed
  finally show ?thesis .
qed

lemma get_le_Suc:
  "get_le (Suc n) payload offset = get_le n payload offset OR push_bit (8 * n) (ucast (payload ! (offset + n)))"
  by (simp add: get_le_def)

lemma bit_get_le:
  "bit (get_le n payload offset :: 'a::len word) i \<longleftrightarrow>
     i < LENGTH('a) \<and> i div 8 < n \<and> bit (payload ! (offset + i div 8)) (i mod 8)"
proof (induction n)
  case (Suc n)
  show ?case
    unfolding get_le_Suc bit_or_iff Suc.IH bit_push_byte less_Suc_eq by blast
qed (simp add: get_le_def)

lemma bit_0xFF: "bit (0xFF :: 'a::len word) j \<longleftrightarrow> j < LENGTH('a) \<and> j < 8"
proof -
  have "(0xFF :: 'a word) = mask 8" by (simp add: mask_eq_exp_minus_1)
  then show ?thesis by (simp only: bit_mask_iff possible_bit_word)
qed

lemma bit_put_le:
  assumes "k < n" "j < 8"
  shows "bit (put_le n v ! k) j \<longleftrightarrow> bit v (8 * k + j)"
proof -
  have "put_le n v ! k = ucast (drop_bit (8 * k) v AND 0xFF)"
    using assms(1) by (simp add: put_le_def)
  moreover have "bit (drop_bit (8 * k) v AND 0xFF) j \<longleftrightarrow> bit v (8 * k + j)"
    unfolding bit_and_iff bit_drop_bit_eq bit_0xFF o_def
    using assms(2) bit_imp_le_length [of v "8 * k + j"] by auto
  ultimately show ?thesis using assms(2) by (simp only: bit_ucast_iff) simp
qed

lemma get_put_le:
  assumes "LENGTH('a) = 8 * n"
  shows "get_le n (pre @ put_le n v @ post) (length pre) = (v :: 'a::len word)"
proof (rule bit_word_eqI)
  fix i assume i: "i < LENGTH('a)"
  then have d: "i div 8 < n" using assms by auto
  moreover have "(pre @ put_le n v @ post) ! (length pre + i div 8) = put_le n v ! (i div 8)"
    using d by (simp add: nth_append)
  ultimately show "bit (get_le n (pre @ put_le n v @ post) (length pre) :: 'a word) i = bit v i"
    using i by (simp add: bit_get_le bit_put_le)
qed

section \<open>Codecs\<close>

type_synonym 'a reader = "bytes \<Rightarrow> nat \<Rightarrow> Status + ('a \<times> nat)"

text \<open>The loop \<open>for (i = 0; i < count; ++i)\<close> that reads the elements of a list.\<close>

fun read_list :: "'a reader \<Rightarrow> nat \<Rightarrow> 'a list reader" where
  "read_list r 0 payload offset = Inr ([], offset)"
| "read_list r (Suc n) payload offset =
     and_then (r payload offset) (\<lambda>(x, offset1).
     and_then (read_list r n payload offset1) (\<lambda>(xs, offset2). Inr (x # xs, offset2)))"

locale offset_codec =
  fixes put :: "'a \<Rightarrow> bytes"
    and read :: "'a reader"
    and encodable :: "'a \<Rightarrow> bool"
  assumes read_put: "encodable x \<Longrightarrow>
    read (pre @ put x @ post) (length pre) = Inr (x, length pre + length (put x))"
begin

lemma read_put_at:
  assumes "encodable x" "payload = pre @ put x @ post" "offset = length pre"
  shows "read payload offset = Inr (x, offset + length (put x))"
  using read_put [OF assms(1), of pre post] assms by simp

text \<open>The form in which reads are chained: what is left of the payload starts with the value.\<close>

lemma read_rest:
  assumes "encodable x" "drop offset payload = put x @ rest" "offset \<le> length payload"
  shows "read payload offset = Inr (x, offset + length (put x))"
    and "drop (offset + length (put x)) payload = rest"
    and "offset + length (put x) \<le> length payload"
proof -
  have p: "payload = take offset payload @ put x @ rest"
    using assms(2) by (metis append_take_drop_id)
  show "read payload offset = Inr (x, offset + length (put x))"
    using assms(1) p by (rule read_put_at) (simp add: assms(3))
  show "drop (offset + length (put x)) payload = rest"
    using assms(2) by (metis add.commute append_eq_conv_conj drop_drop)
  show "offset + length (put x) \<le> length payload"
    using arg_cong [OF assms(2), of length] assms(3) by simp
qed

lemma read_put_list:
  assumes "\<forall>x \<in> set xs. encodable x"
  shows "read_list read (length xs) (pre @ concat (map put xs) @ post) (length pre) =
    Inr (xs, length pre + length (concat (map put xs)))"
  using assms
proof (induction xs arbitrary: pre)
  case (Cons x xs)
  have "read (pre @ put x @ concat (map put xs) @ post) (length pre) =
      Inr (x, length pre + length (put x))"
    using Cons.prems by (intro read_put) simp
  moreover have "read_list read (length xs) ((pre @ put x) @ concat (map put xs) @ post) (length (pre @ put x)) =
      Inr (xs, length (pre @ put x) + length (concat (map put xs)))"
    using Cons.prems by (intro Cons.IH) simp
  ultimately show ?case by simp
qed simp

end

locale bounded_reader =
  fixes read :: "'a reader"
  assumes read_bounds: "offset \<le> length payload \<Longrightarrow> read payload offset = Inr (x, offset') \<Longrightarrow>
    offset \<le> offset' \<and> offset' \<le> length payload"
begin

lemma read_list_bounds:
  assumes "offset \<le> length payload" "read_list read n payload offset = Inr (xs, offset')"
  shows "offset \<le> offset' \<and> offset' \<le> length payload \<and> length xs = n"
  using assms
proof (induction n arbitrary: offset xs)
  case (Suc n)
  then obtain x offset1 ys where "read payload offset = Inr (x, offset1)"
    "read_list read n payload offset1 = Inr (ys, offset')" "xs = x # ys"
    by (auto simp: and_then_Inr_iff)
  with Suc show ?case using read_bounds [of offset payload x offset1] by fastforce
qed simp

end

text \<open>A codec whose reader is also bounded.\<close>

locale safe_codec = offset_codec + bounded_reader

end
