(* ===== verification/Quorum.thy ===== *)
theory Quorum
  imports Prelude
begin

text \<open>
  Quorums, as \<open>TryAdvanceCommitIndex\<close>, \<open>HasJointQuorumAt\<close> and the election of the runtime
  use them: at least \<open>size / 2 + 1\<close> members of a voter vector, and in a joint transition of
  both vectors. The interface is a locale: quorums intersect and grow, from which follow that a
  quorum is never empty and that at most one candidate can win when every voter has one vote.
\<close>

definition majority :: "'n list \<Rightarrow> 'n set \<Rightarrow> bool" where
  "majority voters Q \<longleftrightarrow> length voters div 2 + 1 \<le> length (filter (\<lambda>n. n \<in> Q) voters)"

locale quorum_system =
  fixes quorum :: "'n set \<Rightarrow> bool"
  assumes quorum_intersect: "quorum Q \<Longrightarrow> quorum R \<Longrightarrow> Q \<inter> R \<noteq> {}"
    and quorum_mono: "quorum Q \<Longrightarrow> Q \<subseteq> R \<Longrightarrow> quorum R"
begin

lemma quorum_non_empty: "quorum Q \<Longrightarrow> Q \<noteq> {}"
  using quorum_intersect by blast

lemma unique_winner:
  assumes "quorum {n. vote n = Some a}" "quorum {n. vote n = Some b}"
  shows "a = b"
  using quorum_intersect [OF assms] by auto

lemma quorum_overlap:
  assumes "quorum Q" "quorum R"
  obtains n where "n \<in> Q" "n \<in> R"
  using quorum_intersect [OF assms] by blast

end

lemma filter_lengths_le:
  "(\<forall>n \<in> set ns. \<not> (n \<in> Q \<and> n \<in> R)) \<Longrightarrow>
     length (filter (\<lambda>n. n \<in> Q) ns) + length (filter (\<lambda>n. n \<in> R) ns) \<le> length ns"
  by (induction ns) auto

lemma majority_intersect:
  assumes "majority ns Q" "majority ns R"
  shows "Q \<inter> R \<noteq> {}"
proof
  assume "Q \<inter> R = {}"
  then have "length (filter (\<lambda>n. n \<in> Q) ns) + length (filter (\<lambda>n. n \<in> R) ns) \<le> length ns"
    by (intro filter_lengths_le) auto
  with assms show False unfolding majority_def by linarith
qed

lemma filter_length_mono: "Q \<subseteq> R \<Longrightarrow> length (filter (\<lambda>n. n \<in> Q) ns) \<le> length (filter (\<lambda>n. n \<in> R) ns)"
  by (induction ns) auto

lemma majority_mono: "majority ns Q \<Longrightarrow> Q \<subseteq> R \<Longrightarrow> majority ns R"
  unfolding majority_def using filter_length_mono [of Q R ns] by linarith

interpretation maj: quorum_system "majority ns" for ns
  by unfold_locales (fact majority_intersect majority_mono)+

text \<open>A majority of a vector that is only reordered is the same majority.\<close>

lemma majority_mset: "mset xs = mset ys \<Longrightarrow> majority xs Q \<longleftrightarrow> majority ys Q"
  unfolding majority_def by (metis mset_eq_length mset_filter)

text \<open>A joint quorum holds a majority of both vectors; it meets every majority of either.\<close>

definition joint_quorum :: "'n list \<Rightarrow> 'n list \<Rightarrow> 'n set \<Rightarrow> bool" where
  "joint_quorum old new Q \<longleftrightarrow> majority old Q \<and> majority new Q"

locale joint_system = old: quorum_system old_quorum + new: quorum_system new_quorum
  for old_quorum new_quorum :: "'n set \<Rightarrow> bool" +
  fixes joint :: "'n set \<Rightarrow> bool"
  assumes joint_iff: "joint Q \<longleftrightarrow> old_quorum Q \<and> new_quorum Q"
begin

lemma joint_meets_old: "joint Q \<Longrightarrow> old_quorum R \<Longrightarrow> Q \<inter> R \<noteq> {}"
  by (auto simp: joint_iff dest: old.quorum_intersect)

lemma joint_meets_new: "joint Q \<Longrightarrow> new_quorum R \<Longrightarrow> Q \<inter> R \<noteq> {}"
  by (auto simp: joint_iff dest: new.quorum_intersect)

lemma joint_is_quorum_system: "quorum_system joint"
  by unfold_locales (auto simp: joint_iff dest: old.quorum_intersect intro: old.quorum_mono new.quorum_mono)

end

sublocale joint_system \<subseteq> both: quorum_system joint
  by (rule joint_is_quorum_system)

interpretation joint_maj: joint_system "majority old" "majority new" "joint_quorum old new" for old new
  by unfold_locales (simp add: joint_quorum_def)

end
