(* ===== verification/Membership.thy ===== *)
theory Membership
  imports Raft_Types Quorum
begin

text \<open>
  \<open>raft/raft_membership.h\<close> and the first two thirds of \<open>raft/raft_membership.cpp\<close>: the
  committed membership of the cluster, its validation, the four builders of membership log
  entries (add a learner, promote it, remove a member, finalize a joint transition) and the
  application of a committed entry. The byte format is in \<open>Membership_Codec\<close>.
\<close>

record MembershipLogEntry =
  me_configuration_id :: u64
  me_voters :: "RaftMember list"
  me_learners :: "RaftMember list"
  me_has_active_transition :: bool
  me_next_voters :: "RaftMember list"
  me_next_learners :: "RaftMember list"

record MembershipState =
  ms_voters :: "RaftMember list"
  ms_learners :: "RaftMember list"
  ms_next_voters :: "RaftMember list"
  ms_next_learners :: "RaftMember list"
  ms_has_active_transition :: bool
  ms_configuration_id :: u64

definition MembershipState_new :: MembershipState where
  "MembershipState_new =
     \<lparr>ms_voters = [], ms_learners = [], ms_next_voters = [], ms_next_learners = [],
      ms_has_active_transition = False, ms_configuration_id = 0\<rparr>"

section \<open>Validation\<close>

definition MemberEqual :: "RaftMember \<Rightarrow> RaftMember \<Rightarrow> bool" where
  "MemberEqual lhs rhs \<longleftrightarrow>
     mb_node_id lhs = mb_node_id rhs \<and>
     na_host (mb_address lhs) = na_host (mb_address rhs) \<and>
     na_port (mb_address lhs) = na_port (mb_address rhs)"

definition SameAddress :: "NodeAddress \<Rightarrow> NodeAddress \<Rightarrow> bool" where
  "SameAddress lhs rhs \<longleftrightarrow> na_host lhs = na_host rhs \<and> na_port lhs = na_port rhs"

definition ValidateAddress :: "NodeAddress \<Rightarrow> Status" where
  "ValidateAddress address =
     (if na_host address = [] then InvalidArgument
      else if na_port address = 0 then InvalidArgument
      else OK)"

fun ValidateMembers_loop :: "RaftMember option \<Rightarrow> RaftMember list \<Rightarrow> Status" where
  "ValidateMembers_loop previous [] = OK"
| "ValidateMembers_loop previous (member # members) =
     (if mb_node_id member = kInvalidNodeId then InvalidArgument
      else if (case previous of None \<Rightarrow> False | Some p \<Rightarrow> mb_node_id p = mb_node_id member)
        then InvalidArgument
      else if \<not> ok (ValidateAddress (mb_address member)) then InvalidArgument
      else ValidateMembers_loop (Some member) members)"

definition ValidateMembers :: "RaftMember list \<Rightarrow> Status" where
  "ValidateMembers members = ValidateMembers_loop None (sort members)"

definition NormalizeMembers :: "RaftMember list \<Rightarrow> RaftMember list" where
  "NormalizeMembers members = sort members"

text \<open>The merge over two sorted member vectors that looks for a node in both.\<close>

fun common_node :: "RaftMember list \<Rightarrow> RaftMember list \<Rightarrow> bool" where
  "common_node (x # xs) (y # ys) =
     (if mb_node_id x = mb_node_id y then True
      else if mb_node_id x < mb_node_id y then common_node xs (y # ys)
      else common_node (x # xs) ys)"
| "common_node _ _ = False"

definition ValidateMembershipView :: "MembershipView \<Rightarrow> Status" where
  "ValidateMembershipView view =
     (if mv_configuration_id view = 0 then InvalidArgument
      else if mv_voters view = [] then InvalidArgument
      else let status = ValidateMembers (mv_voters view) in if \<not> ok status then status
      else let status = ValidateMembers (mv_learners view) in if \<not> ok status then status
      else let status = ValidateMembers (mv_next_voters view) in if \<not> ok status then status
      else let status = ValidateMembers (mv_next_learners view) in if \<not> ok status then status
      else let voters = NormalizeMembers (mv_voters view);
               learners = NormalizeMembers (mv_learners view);
               next_voters = NormalizeMembers (mv_next_voters view);
               next_learners = NormalizeMembers (mv_next_learners view)
           in if common_node voters learners then InvalidArgument
              else if \<not> mv_has_active_transition view then
                (if mv_next_voters view \<noteq> [] \<or> mv_next_learners view \<noteq> []
                 then InvalidArgument else OK)
              else if next_voters = [] then InvalidArgument
              else if common_node next_voters next_learners then InvalidArgument
              else OK)"

definition ValidateMembershipLogEntry :: "MembershipLogEntry \<Rightarrow> Status" where
  "ValidateMembershipLogEntry entry =
     ValidateMembershipView
       \<lparr>mv_voters = me_voters entry, mv_learners = me_learners entry,
        mv_has_active_transition = me_has_active_transition entry,
        mv_configuration_id = me_configuration_id entry,
        mv_next_voters = me_next_voters entry, mv_next_learners = me_next_learners entry\<rparr>"

definition NormalizeView :: "MembershipView \<Rightarrow> Status + MembershipView" where
  "NormalizeView view =
     (let status = ValidateMembershipView view
      in if \<not> ok status then Inl status
         else Inr (view\<lparr>mv_voters := NormalizeMembers (mv_voters view),
                        mv_learners := NormalizeMembers (mv_learners view)\<rparr>))"

definition NormalizeLogEntry :: "MembershipLogEntry \<Rightarrow> Status + MembershipLogEntry" where
  "NormalizeLogEntry entry =
     (let status = ValidateMembershipLogEntry entry
      in if \<not> ok status then Inl status
         else Inr (entry\<lparr>me_voters := NormalizeMembers (me_voters entry),
                         me_learners := NormalizeMembers (me_learners entry)\<rparr>))"

definition ViewsEqual :: "MembershipView \<Rightarrow> MembershipView \<Rightarrow> bool" where
  "ViewsEqual lhs rhs \<longleftrightarrow>
     mv_configuration_id lhs = mv_configuration_id rhs \<and>
     mv_has_active_transition lhs = mv_has_active_transition rhs \<and>
     length (mv_voters lhs) = length (mv_voters rhs) \<and>
     length (mv_learners lhs) = length (mv_learners rhs) \<and>
     length (mv_next_voters lhs) = length (mv_next_voters rhs) \<and>
     length (mv_next_learners lhs) = length (mv_next_learners rhs) \<and>
     list_all2 MemberEqual (mv_voters lhs) (mv_voters rhs) \<and>
     list_all2 MemberEqual (mv_learners lhs) (mv_learners rhs) \<and>
     list_all2 MemberEqual (mv_next_voters lhs) (mv_next_voters rhs) \<and>
     list_all2 MemberEqual (mv_next_learners lhs) (mv_next_learners rhs)"

section \<open>The membership state\<close>

definition MembershipState_empty :: "MembershipState \<Rightarrow> bool" where
  "MembershipState_empty s \<longleftrightarrow>
     ms_configuration_id s = 0 \<and> ms_voters s = [] \<and> ms_learners s = [] \<and>
     ms_next_voters s = [] \<and> ms_next_learners s = [] \<and> \<not> ms_has_active_transition s"

definition has_node :: "NodeId \<Rightarrow> RaftMember list \<Rightarrow> bool" where
  "has_node node_id members \<longleftrightarrow> list_ex (\<lambda>m. mb_node_id m = node_id) members"

definition IsVoter :: "MembershipState \<Rightarrow> NodeId \<Rightarrow> bool" where
  "IsVoter s node_id \<longleftrightarrow>
     has_node node_id (ms_voters s) \<or>
     (ms_has_active_transition s \<and> has_node node_id (ms_next_voters s))"

definition IsLearner :: "MembershipState \<Rightarrow> NodeId \<Rightarrow> bool" where
  "IsLearner s node_id \<longleftrightarrow>
     list_ex (\<lambda>m. mb_node_id m = node_id \<and>
                  (\<not> ms_has_active_transition s \<or> \<not> has_node node_id (ms_next_voters s)))
       (ms_learners s)"

definition MembershipState_Contains :: "MembershipState \<Rightarrow> NodeId \<Rightarrow> bool" where
  "MembershipState_Contains s node_id \<longleftrightarrow> IsVoter s node_id \<or> IsLearner s node_id"

definition CanVote :: "MembershipState \<Rightarrow> NodeId \<Rightarrow> bool" where
  "CanVote s node_id = IsVoter s node_id"

definition CountsTowardQuorum :: "MembershipState \<Rightarrow> NodeId \<Rightarrow> bool" where
  "CountsTowardQuorum s node_id = IsVoter s node_id"

definition CanBecomeLeader :: "MembershipState \<Rightarrow> NodeId \<Rightarrow> bool" where
  "CanBecomeLeader s node_id = IsVoter s node_id"

definition ToView :: "MembershipState \<Rightarrow> MembershipView" where
  "ToView s =
     \<lparr>mv_voters = ms_voters s, mv_learners = ms_learners s,
      mv_has_active_transition = ms_has_active_transition s,
      mv_configuration_id = ms_configuration_id s,
      mv_next_voters = ms_next_voters s, mv_next_learners = ms_next_learners s\<rparr>"

definition ToLogEntry :: "MembershipState \<Rightarrow> MembershipLogEntry" where
  "ToLogEntry s =
     \<lparr>me_configuration_id = ms_configuration_id s, me_voters = ms_voters s,
      me_learners = ms_learners s, me_has_active_transition = ms_has_active_transition s,
      me_next_voters = ms_next_voters s, me_next_learners = ms_next_learners s\<rparr>"

definition FromView :: "MembershipView \<Rightarrow> out_ptr \<Rightarrow> Status + MembershipState" where
  "FromView view state =
     (if \<not> ok (require_out state) then Inl (require_out state)
      else and_then (NormalizeView view) (\<lambda>normalized.
        Inr \<lparr>ms_voters = mv_voters normalized, ms_learners = mv_learners normalized,
             ms_next_voters = mv_next_voters normalized,
             ms_next_learners = mv_next_learners normalized,
             ms_has_active_transition = mv_has_active_transition normalized,
             ms_configuration_id = mv_configuration_id normalized\<rparr>))"

definition Bootstrap ::
  "NodeId \<Rightarrow> MembershipView \<Rightarrow> HardState \<Rightarrow> SnapshotMetadata option \<Rightarrow> Status + MembershipState" where
  "Bootstrap local_node_id bootstrap_view hard_state snapshot =
     (if local_node_id = kInvalidNodeId then Inl InvalidArgument
      else if snapshot \<noteq> None then Inl Busy
      else if hs_membership_configuration_id hard_state \<noteq> 0 then Inl Busy
      else and_then (FromView bootstrap_view out) (\<lambda>candidate.
        if \<not> MembershipState_Contains candidate local_node_id then Inl InvalidArgument
        else Inr candidate))"

definition ApplyCommitted :: "MembershipState \<Rightarrow> MembershipLogEntry \<Rightarrow> Status \<times> MembershipState" where
  "ApplyCommitted s entry =
     (case NormalizeLogEntry entry of
        Inl status \<Rightarrow> (status, s)
      | Inr normalized \<Rightarrow>
          let current = ToView s;
              incoming = \<lparr>mv_voters = me_voters normalized, mv_learners = me_learners normalized,
                mv_has_active_transition = me_has_active_transition normalized,
                mv_configuration_id = me_configuration_id normalized,
                mv_next_voters = me_next_voters normalized,
                mv_next_learners = me_next_learners normalized\<rparr>
          in if MembershipState_empty s then
               (case FromView incoming out of Inl status \<Rightarrow> (status, s) | Inr s' \<Rightarrow> (OK, s'))
             else if me_configuration_id normalized < ms_configuration_id s then (InvalidArgument, s)
             else if me_configuration_id normalized = ms_configuration_id s then
               (case NormalizeView current of
                  Inl status \<Rightarrow> (status, s)
                | Inr normalized_current \<Rightarrow>
                    if \<not> ViewsEqual normalized_current incoming then (InvalidArgument, s)
                    else (OK, s))
             else
               (case FromView incoming out of
                  Inl status \<Rightarrow> (status, s)
                | Inr candidate \<Rightarrow> (OK, candidate)))"

section \<open>Builders of membership log entries\<close>

text \<open>\<open>v.erase(find_if(v.begin(), v.end(), P))\<close>: the first match goes.\<close>

fun erase_first :: "('a \<Rightarrow> bool) \<Rightarrow> 'a list \<Rightarrow> 'a list" where
  "erase_first P [] = []"
| "erase_first P (x # xs) = (if P x then xs else x # erase_first P xs)"

definition BuildAddLearnerLogEntry ::
  "MembershipState \<Rightarrow> RaftMember \<Rightarrow> out_ptr \<Rightarrow> Status + MembershipLogEntry" where
  "BuildAddLearnerLogEntry state learner entry =
     (if \<not> ok (require_out entry) then Inl (require_out entry)
      else if MembershipState_empty state then Inl InvalidArgument
      else if ms_has_active_transition state then Inl Busy
      else if mb_node_id learner = kInvalidNodeId then Inl InvalidArgument
      else if \<not> ok (ValidateAddress (mb_address learner)) then Inl (ValidateAddress (mb_address learner))
      else if IsVoter state (mb_node_id learner) then Inl InvalidArgument
      else if IsLearner state (mb_node_id learner) then Inl InvalidArgument
      else let candidate = ToLogEntry state
           in if list_ex (\<lambda>m. SameAddress (mb_address m) (mb_address learner)) (me_voters candidate)
                then Inl InvalidArgument
              else if list_ex (\<lambda>m. SameAddress (mb_address m) (mb_address learner)) (me_learners candidate)
                then Inl InvalidArgument
              else NormalizeLogEntry
                (candidate\<lparr>me_configuration_id := me_configuration_id candidate + 1,
                           me_has_active_transition := False,
                           me_learners := me_learners candidate @ [learner],
                           me_next_voters := [], me_next_learners := []\<rparr>))"

definition BuildPromoteLearnerLogEntry ::
  "MembershipState \<Rightarrow> NodeId \<Rightarrow> out_ptr \<Rightarrow> Status + MembershipLogEntry" where
  "BuildPromoteLearnerLogEntry state learner_node_id entry =
     (if \<not> ok (require_out entry) then Inl (require_out entry)
      else if MembershipState_empty state then Inl InvalidArgument
      else if ms_has_active_transition state then Inl Busy
      else if learner_node_id = kInvalidNodeId then Inl InvalidArgument
      else if IsVoter state learner_node_id then Inl InvalidArgument
      else let candidate = ToLogEntry state
           in case List.find (\<lambda>m. mb_node_id m = learner_node_id) (me_learners candidate) of
                None \<Rightarrow> Inl InvalidArgument
              | Some promoted \<Rightarrow>
                  NormalizeLogEntry
                    (candidate\<lparr>me_configuration_id := me_configuration_id candidate + 1,
                               me_has_active_transition := True,
                               me_next_voters := me_voters candidate @ [promoted],
                               me_next_learners :=
                                 erase_first (\<lambda>m. mb_node_id m = learner_node_id)
                                   (me_learners candidate)\<rparr>))"

definition BuildRemoveMemberLogEntry ::
  "MembershipState \<Rightarrow> NodeId \<Rightarrow> out_ptr \<Rightarrow> Status + MembershipLogEntry" where
  "BuildRemoveMemberLogEntry state member_node_id entry =
     (if \<not> ok (require_out entry) then Inl (require_out entry)
      else if MembershipState_empty state then Inl InvalidArgument
      else if ms_has_active_transition state then Inl Busy
      else if member_node_id = kInvalidNodeId then Inl InvalidArgument
      else let candidate = ToLogEntry state;
               is_it = (\<lambda>m. mb_node_id m = member_node_id);
               bump = (\<lambda>c. c\<lparr>me_configuration_id := me_configuration_id c + 1\<rparr>)
           in if has_node member_node_id (me_voters candidate) then
                (if length (me_voters candidate) = 1 then Inl InvalidArgument
                 else NormalizeLogEntry (bump
                   (candidate\<lparr>me_next_voters := erase_first is_it (me_voters candidate),
                              me_next_learners := me_learners candidate,
                              me_has_active_transition := True\<rparr>)))
              else if \<not> has_node member_node_id (me_learners candidate) then Inl InvalidArgument
              else NormalizeLogEntry (bump
                (candidate\<lparr>me_learners := erase_first is_it (me_learners candidate),
                           me_next_voters := [], me_next_learners := [],
                           me_has_active_transition := False\<rparr>)))"

definition BuildFinalizeMembershipLogEntry ::
  "MembershipState \<Rightarrow> out_ptr \<Rightarrow> Status + MembershipLogEntry" where
  "BuildFinalizeMembershipLogEntry state entry =
     (if \<not> ok (require_out entry) then Inl (require_out entry)
      else if MembershipState_empty state \<or> \<not> ms_has_active_transition state
        then Inl InvalidArgument
      else NormalizeLogEntry
        \<lparr>me_configuration_id = ms_configuration_id state + 1,
         me_voters = ms_next_voters state, me_learners = ms_next_learners state,
         me_has_active_transition = False, me_next_voters = [], me_next_learners = []\<rparr>)"

section \<open>What validation accepts\<close>

definition node_ids :: "RaftMember list \<Rightarrow> NodeId set" where
  "node_ids ms = mb_node_id ` set ms"

definition members_wf :: "RaftMember list \<Rightarrow> bool" where
  "members_wf ms \<longleftrightarrow>
     distinct (map mb_node_id ms) \<and>
     (\<forall>m \<in> set ms. mb_node_id m \<noteq> kInvalidNodeId \<and> na_host (mb_address m) \<noteq> [] \<and>
        na_port (mb_address m) \<noteq> 0)"

definition view_wf :: "MembershipView \<Rightarrow> bool" where
  "view_wf v \<longleftrightarrow>
     mv_configuration_id v \<noteq> 0 \<and> mv_voters v \<noteq> [] \<and>
     members_wf (mv_voters v) \<and> members_wf (mv_learners v) \<and>
     members_wf (mv_next_voters v) \<and> members_wf (mv_next_learners v) \<and>
     node_ids (mv_voters v) \<inter> node_ids (mv_learners v) = {} \<and>
     (if mv_has_active_transition v
      then mv_next_voters v \<noteq> [] \<and> node_ids (mv_next_voters v) \<inter> node_ids (mv_next_learners v) = {}
      else mv_next_voters v = [] \<and> mv_next_learners v = [])"

lemma ValidateAddress_OK: "ok (ValidateAddress a) \<longleftrightarrow> na_host a \<noteq> [] \<and> na_port a \<noteq> 0"
  by (simp add: ValidateAddress_def)

lemma MemberEqual_iff: "MemberEqual x y \<longleftrightarrow> x = y"
  by (auto simp: MemberEqual_def intro: RaftMember.equality NodeAddress.equality)

lemma list_all2_MemberEqual: "list_all2 MemberEqual xs ys \<longleftrightarrow> xs = ys"
  by (simp add: MemberEqual_iff list.rel_eq [unfolded fun_eq_iff] list_all2_conv_all_nth list_eq_iff_nth_eq)

lemma ViewsEqual_iff: "ViewsEqual x y \<longleftrightarrow> x = y"
  by (auto simp: ViewsEqual_def list_all2_MemberEqual intro: MembershipView.equality)

text \<open>Sorting members sorts their node ids, so duplicates stand next to each other.\<close>

lemma member_less_eq_node_id: "x \<le> y \<Longrightarrow> mb_node_id x \<le> mb_node_id (y :: RaftMember)"
  by (auto simp: less_eq_RaftMember_ext_def member_key_def split: if_splits)

lemma sorted_node_ids: "sorted ms \<Longrightarrow> sorted (map mb_node_id (ms :: RaftMember list))"
  by (induction ms) (auto intro: member_less_eq_node_id)

lemma ValidateMembers_loop_OK:
  assumes "sorted (map mb_node_id ms)"
    and "\<forall>p. prev = Some p \<longrightarrow> (\<forall>m \<in> set ms. mb_node_id p \<le> mb_node_id m)"
  shows "ok (ValidateMembers_loop prev ms) \<longleftrightarrow>
    members_wf ms \<and> (\<forall>p. prev = Some p \<longrightarrow> mb_node_id p \<notin> node_ids ms)"
  using assms
proof (induction prev ms rule: ValidateMembers_loop.induct)
  case (2 prev m ms)
  have IH: "ok (ValidateMembers_loop (Some m) ms) \<longleftrightarrow> members_wf ms \<and> mb_node_id m \<notin> node_ids ms"
    if "mb_node_id m \<noteq> 0" "\<not> (case prev of None \<Rightarrow> False | Some p \<Rightarrow> mb_node_id p = mb_node_id m)"
      "ok (ValidateAddress (mb_address m))"
    using 2(1) [OF that(1,2)] that(3) 2(2) by auto
  have prev: "mb_node_id p \<notin> node_ids ms \<longleftrightarrow> True" if "prev = Some p" "mb_node_id p \<noteq> mb_node_id m" for p
    using 2(2,3) that by (fastforce simp: node_ids_def)
  show ?case
    using IH prev by (auto simp: members_wf_def ValidateAddress_OK node_ids_def split: option.splits)
qed (simp add: members_wf_def node_ids_def)

lemma members_wf_sort [simp]: "members_wf (sort ms) \<longleftrightarrow> members_wf ms"
proof -
  have "distinct (map mb_node_id (sort ms)) \<longleftrightarrow> distinct (map mb_node_id ms)"
    by (simp add: distinct_map)
  then show ?thesis by (simp add: members_wf_def)
qed

lemma node_ids_sort [simp]: "node_ids (sort ms) = node_ids ms"
  by (simp add: node_ids_def)

lemma ValidateMembers_OK: "ok (ValidateMembers ms) \<longleftrightarrow> members_wf ms"
  using ValidateMembers_loop_OK [of "sort ms" None]
  by (simp add: ValidateMembers_def sorted_node_ids)

lemma common_node_iff:
  assumes "sorted (map mb_node_id xs)" "sorted (map mb_node_id ys)"
  shows "common_node xs ys \<longleftrightarrow> node_ids xs \<inter> node_ids ys \<noteq> {}"
  using assms
proof (induction xs ys rule: common_node.induct)
  case (1 x xs y ys)
  show ?case
  proof (cases "mb_node_id x" "mb_node_id y" rule: linorder_cases)
    case less
    then have "mb_node_id x \<notin> node_ids (y # ys)" using 1(4) by (auto simp: node_ids_def)
    with less 1 show ?thesis by (auto simp: node_ids_def)
  next
    case equal
    then show ?thesis by (auto simp: node_ids_def)
  next
    case greater
    then have "mb_node_id y \<notin> node_ids (x # xs)" using 1(3) by (auto simp: node_ids_def)
    with greater 1 show ?thesis by (auto simp: node_ids_def)
  qed
qed (auto simp: node_ids_def)

lemma ValidateMembers_cases: "ValidateMembers ms = OK \<or> ValidateMembers ms = InvalidArgument"
proof -
  have "ValidateMembers_loop p xs \<in> {OK, InvalidArgument}" for p xs
    by (induction p xs rule: ValidateMembers_loop.induct) auto
  then show ?thesis by (auto simp: ValidateMembers_def)
qed

lemma ValidateMembershipView_eq:
  "ValidateMembershipView v = (if view_wf v then OK else InvalidArgument)"
proof -
  have "sort xs \<noteq> [] \<longleftrightarrow> xs \<noteq> []" for xs :: "RaftMember list"
    by (metis length_0_conv length_sort)
  then show ?thesis
    using ValidateMembers_cases ValidateMembers_OK
    by (auto simp: ValidateMembershipView_def NormalizeMembers_def Let_def common_node_iff
        sorted_node_ids view_wf_def)
qed

section \<open>The state invariant and the application of committed entries\<close>

definition entry_view :: "MembershipLogEntry \<Rightarrow> MembershipView" where
  "entry_view e =
     \<lparr>mv_voters = me_voters e, mv_learners = me_learners e,
      mv_has_active_transition = me_has_active_transition e,
      mv_configuration_id = me_configuration_id e,
      mv_next_voters = me_next_voters e, mv_next_learners = me_next_learners e\<rparr>"

definition view_state :: "MembershipView \<Rightarrow> MembershipState" where
  "view_state v =
     \<lparr>ms_voters = sort (mv_voters v), ms_learners = sort (mv_learners v),
      ms_next_voters = mv_next_voters v, ms_next_learners = mv_next_learners v,
      ms_has_active_transition = mv_has_active_transition v,
      ms_configuration_id = mv_configuration_id v\<rparr>"

definition ms_wf :: "MembershipState \<Rightarrow> bool" where
  "ms_wf s \<longleftrightarrow> MembershipState_empty s \<or>
     (view_wf (ToView s) \<and> sorted (ms_voters s) \<and> sorted (ms_learners s))"

lemma ms_wf_new [simp]: "ms_wf MembershipState_new"
  by (simp add: ms_wf_def MembershipState_empty_def MembershipState_new_def)

lemma ValidateMembershipLogEntry_eq:
  "ValidateMembershipLogEntry e = (if view_wf (entry_view e) then OK else InvalidArgument)"
  unfolding ValidateMembershipLogEntry_def entry_view_def by (rule ValidateMembershipView_eq)

lemma NormalizeLogEntry_eq:
  "NormalizeLogEntry e =
     (if view_wf (entry_view e)
      then Inr (e\<lparr>me_voters := sort (me_voters e), me_learners := sort (me_learners e)\<rparr>)
      else Inl InvalidArgument)"
  by (simp add: NormalizeLogEntry_def ValidateMembershipLogEntry_eq NormalizeMembers_def)

lemma FromView_eq:
  "FromView v out = (if view_wf v then Inr (view_state v) else Inl InvalidArgument)"
  by (simp add: FromView_def NormalizeView_def ValidateMembershipView_eq NormalizeMembers_def
      view_state_def)

lemma sort_eq_Nil [simp]: "sort xs = [] \<longleftrightarrow> xs = []" for xs :: "'a::linorder list"
  by (metis length_0_conv length_sort)

lemma view_wf_sort:
  "view_wf (v\<lparr>mv_voters := sort (mv_voters v), mv_learners := sort (mv_learners v)\<rparr>) \<longleftrightarrow> view_wf v"
  by (simp add: view_wf_def)

lemma ToView_view_state:
  "ToView (view_state v) = v\<lparr>mv_voters := sort (mv_voters v), mv_learners := sort (mv_learners v)\<rparr>"
  by (simp add: ToView_def view_state_def)

lemma view_state_wf: "view_wf v \<Longrightarrow> ms_wf (view_state v)"
  using view_wf_sort [of v] by (simp add: ms_wf_def ToView_view_state) (simp add: view_state_def)

lemma view_state_nonempty: "view_wf v \<Longrightarrow> \<not> MembershipState_empty (view_state v)"
  by (auto simp: view_wf_def MembershipState_empty_def view_state_def)

text \<open>The exact behaviour of \<open>ApplyCommitted\<close> on a well-formed state.\<close>

definition apply_spec :: "MembershipState \<Rightarrow> MembershipLogEntry \<Rightarrow> Status \<times> MembershipState" where
  "apply_spec s e =
     (let s' = view_state (entry_view e)
      in if \<not> view_wf (entry_view e) then (InvalidArgument, s)
         else if MembershipState_empty s then (OK, s')
         else if me_configuration_id e < ms_configuration_id s then (InvalidArgument, s)
         else if me_configuration_id e = ms_configuration_id s
           then (if s = s' then OK else InvalidArgument, s)
         else (OK, s'))"

lemma ApplyCommitted_eq:
  assumes "ms_wf s"
  shows "ApplyCommitted s e = apply_spec s e"
proof (cases "view_wf (entry_view e)")
  case False
  then show ?thesis by (simp add: ApplyCommitted_def apply_spec_def NormalizeLogEntry_eq)
next
  case True
  let ?v = "entry_view e" and ?s = "view_state (entry_view e)"
  let ?n = "e\<lparr>me_voters := sort (me_voters e), me_learners := sort (me_learners e)\<rparr>"
  have inc: "entry_view ?n = ?v\<lparr>mv_voters := sort (mv_voters ?v), mv_learners := sort (mv_learners ?v)\<rparr>"
    by (simp add: entry_view_def)
  have wf: "view_wf (entry_view ?n)"
    using True unfolding inc by (simp only: view_wf_sort)
  have st: "view_state (entry_view ?n) = ?s"
    by (simp add: entry_view_def view_state_def sorted_sort_id)
  have "ViewsEqual (ToView s) (entry_view ?n) \<longleftrightarrow> s = ?s"
    unfolding ViewsEqual_iff inc
    by (auto simp: ToView_def entry_view_def view_state_def intro: MembershipState.equality)
  moreover have "NormalizeView (ToView s) = Inr (ToView s)" if "\<not> MembershipState_empty s"
    using assms that
    by (simp add: ms_wf_def NormalizeView_def ValidateMembershipView_eq NormalizeMembers_def)
      (simp add: ToView_def sorted_sort_id)
  ultimately show ?thesis
    using True wf st
    by (simp add: ApplyCommitted_def NormalizeLogEntry_eq apply_spec_def Let_def FromView_eq
        entry_view_def [of ?n, symmetric, simplified])
qed

lemma apply_spec_wf: "ms_wf s \<Longrightarrow> ms_wf (snd (apply_spec s e))"
  by (auto simp: apply_spec_def Let_def view_state_wf)

lemma ApplyCommitted_wf: "ms_wf s \<Longrightarrow> ms_wf (snd (ApplyCommitted s e))"
  by (simp add: ApplyCommitted_eq apply_spec_wf)

lemma ApplyCommitted_id_mono:
  "ms_wf s \<Longrightarrow> ms_configuration_id s \<le> ms_configuration_id (snd (ApplyCommitted s e))"
  by (auto simp: ApplyCommitted_eq apply_spec_def Let_def view_state_def entry_view_def
      MembershipState_empty_def)

section \<open>One change at a time\<close>

text \<open>The entries a leader can build in a membership state.\<close>

inductive membership_change :: "MembershipState \<Rightarrow> MembershipLogEntry \<Rightarrow> bool" where
  add: "BuildAddLearnerLogEntry s learner out = Inr e \<Longrightarrow> membership_change s e"
| promote: "BuildPromoteLearnerLogEntry s node_id out = Inr e \<Longrightarrow> membership_change s e"
| remove: "BuildRemoveMemberLogEntry s node_id out = Inr e \<Longrightarrow> membership_change s e"
| finalize: "BuildFinalizeMembershipLogEntry s out = Inr e \<Longrightarrow> membership_change s e"

text \<open>The sets of nodes that can elect a leader or commit an entry in a membership state.\<close>

definition state_quorum :: "MembershipState \<Rightarrow> NodeId set \<Rightarrow> bool" where
  "state_quorum s Q \<longleftrightarrow>
     majority (map mb_node_id (ms_voters s)) Q \<and>
     (ms_has_active_transition s \<longrightarrow> majority (map mb_node_id (ms_next_voters s)) Q)"

lemma NormalizeLogEntry_Inr:
  assumes "NormalizeLogEntry c = Inr e"
  shows "view_wf (entry_view e)" "view_wf (entry_view c)"
    "view_state (entry_view e) = view_state (entry_view c)"
    "me_configuration_id e = me_configuration_id c"
proof -
  have wf: "view_wf (entry_view c)"
    and e: "e = c\<lparr>me_voters := sort (me_voters c), me_learners := sort (me_learners c)\<rparr>"
    using assms by (auto simp: NormalizeLogEntry_eq split: if_splits)
  have "entry_view e = (entry_view c)\<lparr>mv_voters := sort (mv_voters (entry_view c)),
      mv_learners := sort (mv_learners (entry_view c))\<rparr>"
    by (simp add: e entry_view_def)
  then show "view_wf (entry_view e)" using wf view_wf_sort by simp
  show "view_state (entry_view e) = view_state (entry_view c)"
    by (simp add: e view_state_def entry_view_def sorted_sort_id)
  show "me_configuration_id e = me_configuration_id c" by (simp add: e)
qed (use assms in \<open>auto simp: NormalizeLogEntry_eq split: if_splits\<close>)

text \<open>
  What a built entry is: the normal form of a candidate whose id is the next one and whose voter
  sets are related to those of the state in one of three ways.
\<close>

definition next_candidate :: "MembershipState \<Rightarrow> MembershipLogEntry \<Rightarrow> bool" where
  "next_candidate s c \<longleftrightarrow>
     \<not> MembershipState_empty s \<and> me_configuration_id c = ms_configuration_id s + 1 \<and>
     ((\<not> ms_has_active_transition s \<and> me_voters c = ms_voters s) \<or>
      (ms_has_active_transition s \<and> \<not> me_has_active_transition c \<and> me_voters c = ms_next_voters s))"

lemma membership_change_candidate:
  assumes "membership_change s e"
  obtains c where "NormalizeLogEntry c = Inr e" "next_candidate s c"
  using assms
proof cases
  case (add learner)
  then show ?thesis
    by (intro that) (auto simp: BuildAddLearnerLogEntry_def Let_def next_candidate_def ToLogEntry_def
        split: if_splits)
next
  case (promote node_id)
  then obtain p where p: "List.find (\<lambda>m. mb_node_id m = node_id) (ms_learners s) = Some p"
    by (auto simp: BuildPromoteLearnerLogEntry_def Let_def ToLogEntry_def split: if_splits option.splits)
  then show ?thesis using promote
    by (intro that) (auto simp: BuildPromoteLearnerLogEntry_def Let_def next_candidate_def ToLogEntry_def
        split: if_splits)
next
  case (remove node_id)
  then show ?thesis
    by (cases "has_node node_id (ms_voters s)"; intro that)
      (auto simp: BuildRemoveMemberLogEntry_def Let_def next_candidate_def ToLogEntry_def split: if_splits)
next
  case finalize
  then show ?thesis
    by (intro that) (auto simp: BuildFinalizeMembershipLogEntry_def next_candidate_def split: if_splits)
qed

lemma membership_change_apply:
  assumes wf: "ms_wf s" and change: "membership_change s e"
  shows "ApplyCommitted s e = (OK, view_state (entry_view e))"
    and "ms_configuration_id (view_state (entry_view e)) = ms_configuration_id s + 1"
proof -
  obtain c where c: "NormalizeLogEntry c = Inr e" "next_candidate s c"
    using change by (rule membership_change_candidate)
  note n = NormalizeLogEntry_Inr [OF c(1)]
  have id: "me_configuration_id e = ms_configuration_id s + 1"
    using n(4) c(2) by (simp add: next_candidate_def)
  moreover have "me_configuration_id e \<noteq> 0" using n(1) by (simp add: view_wf_def entry_view_def)
  ultimately have "unat (me_configuration_id e) = Suc (unat (ms_configuration_id s))"
    by (metis add.commute unatSuc)
  then have "ms_configuration_id s < me_configuration_id e" by (simp add: idx)
  then show "ApplyCommitted s e = (OK, view_state (entry_view e))"
    using n(1) c(2) by (auto simp: ApplyCommitted_eq [OF wf] apply_spec_def next_candidate_def Let_def)
  show "ms_configuration_id (view_state (entry_view e)) = ms_configuration_id s + 1"
    using id by (simp add: view_state_def entry_view_def)
qed

lemma majority_sort_map: "majority (map f (sort xs)) Q \<longleftrightarrow> majority (map f xs) Q"
  by (rule majority_mset) simp

lemma membership_change_overlap:
  assumes change: "membership_change s e"
    and Q: "state_quorum s Q" and R: "state_quorum (view_state (entry_view e)) R"
  shows "Q \<inter> R \<noteq> {}"
proof -
  obtain c where c: "NormalizeLogEntry c = Inr e" "next_candidate s c"
    using change by (rule membership_change_candidate)
  have R': "majority (map mb_node_id (me_voters c)) R"
    using R unfolding NormalizeLogEntry_Inr(3) [OF c(1)]
    by (simp add: state_quorum_def view_state_def entry_view_def majority_sort_map)
  moreover have "majority (map mb_node_id (me_voters c)) Q"
    using c(2) Q by (auto simp: next_candidate_def state_quorum_def)
  ultimately show ?thesis by (metis maj.quorum_intersect)
qed

text \<open>
  \<open>ValidateMembershipView\<close>, with its sorting and merging, accepts exactly the well-formed
  views: an id, at least one voter, valid and pairwise different members in every set, no node
  both voter and learner, and target sets exactly when a transition is active.
\<close>

theorem ValidateMembershipView_iff:
  "ValidateMembershipView v = (if view_wf v then OK else InvalidArgument)"
  by (rule ValidateMembershipView_eq)

text \<open>
  Applying a committed membership entry to a well-formed state: a malformed entry, an older
  configuration id, and the same id with different content are rejected without a change; the
  same content again is accepted without a change; a newer entry replaces the state by its
  normal form. The state stays well formed and its configuration id never decreases.
\<close>

theorem ApplyCommitted_exact:
  assumes "ms_wf s"
  shows "ApplyCommitted s e = apply_spec s e \<and> ms_wf (snd (ApplyCommitted s e)) \<and>
    ms_configuration_id s \<le> ms_configuration_id (snd (ApplyCommitted s e))"
  using assms ApplyCommitted_eq ApplyCommitted_wf ApplyCommitted_id_mono by blast

definition example_member :: "NodeId \<Rightarrow> RaftMember" where
  "example_member n = \<lparr>mb_node_id = n, mb_address = \<lparr>na_host = ''h'', na_port = ucast n\<rparr>\<rparr>"

definition example_entry :: MembershipLogEntry where
  "example_entry =
     \<lparr>me_configuration_id = 1, me_voters = [example_member 1], me_learners = [example_member 2],
      me_has_active_transition = False, me_next_voters = [], me_next_learners = []\<rparr>"

theorem ApplyCommitted_exact_witness:
  "ms_wf MembershipState_new \<and>
   ApplyCommitted MembershipState_new example_entry = apply_spec MembershipState_new example_entry \<and>
   ms_wf (snd (ApplyCommitted MembershipState_new example_entry))"
  using ApplyCommitted_exact [OF ms_wf_new, of example_entry] ms_wf_new by blast

text \<open>
  C20. Changing the membership is safe: an entry that any of the builders makes in a well-formed
  state applies to it, advances the configuration id by one, and every set of nodes that is a
  quorum before the change meets every set that is a quorum after it.
\<close>

theorem membership_change_safe:
  assumes "ms_wf s" and "membership_change s e"
  shows "\<exists>s'. ApplyCommitted s e = (OK, s') \<and> ms_wf s' \<and>
    ms_configuration_id s' = ms_configuration_id s + 1 \<and>
    (\<forall>Q R. state_quorum s Q \<and> state_quorum s' R \<longrightarrow> Q \<inter> R \<noteq> {})"
  using membership_change_apply [OF assms] membership_change_overlap [OF assms(2)]
    ApplyCommitted_wf [OF assms(1), of e] by (metis snd_conv)

theorem membership_change_safe_witness:
  "\<exists>s e. ms_wf s \<and> membership_change s e \<and>
    (\<exists>s'. ApplyCommitted s e = (OK, s') \<and> ms_wf s' \<and>
      ms_configuration_id s' = ms_configuration_id s + 1 \<and>
      (\<forall>Q R. state_quorum s Q \<and> state_quorum s' R \<longrightarrow> Q \<inter> R \<noteq> {}))"
proof -
  let ?s = "view_state (entry_view example_entry)"
  have wf: "view_wf (entry_view example_entry)"
    by (simp add: view_wf_def members_wf_def node_ids_def entry_view_def example_entry_def example_member_def)
  have "\<exists>e. BuildPromoteLearnerLogEntry ?s 2 out = Inr e"
    by (simp add: BuildPromoteLearnerLogEntry_def NormalizeLogEntry_eq view_wf_def members_wf_def
        node_ids_def entry_view_def example_entry_def example_member_def view_state_def ToLogEntry_def
        MembershipState_empty_def IsVoter_def has_node_def)
  then obtain e where "membership_change ?s e" by (blast intro: membership_change.promote)
  then show ?thesis
    using membership_change_safe [OF view_state_wf [OF wf]] view_state_wf [OF wf] by blast
qed

end
