(* ===== verification/Membership_Codec.thy ===== *)
theory Membership_Codec
  imports Membership Byte_Codec
begin

text \<open>
  The byte format of membership log entries: the readers and writers in the anonymous namespace
  of \<open>raft/raft_membership.cpp\<close> and \<open>EncodeMembershipLogEntry\<close>,
  \<open>DecodeMembershipLogEntry\<close>. The internal helpers are only called with addresses of local
  variables, so their null checks have no counterpart.
\<close>

definition kMembershipLogFormatVersion :: u8 where
  "kMembershipLogFormatVersion = 2"

definition kActiveTransitionFlag :: u8 where
  "kActiveTransitionFlag = 0x01"

definition UINT32_MAX :: nat where
  "UINT32_MAX = 4294967295"

section \<open>Writers\<close>

definition PutU8 :: "bytes \<Rightarrow> u8 \<Rightarrow> bytes" where
  "PutU8 payload value = payload @ [value]"

definition PutU16 :: "bytes \<Rightarrow> u16 \<Rightarrow> bytes" where
  "PutU16 payload value = payload @ [ucast (value AND 0xFF), ucast (drop_bit 8 value AND 0xFF)]"

definition PutU32 :: "bytes \<Rightarrow> u32 \<Rightarrow> bytes" where
  "PutU32 payload value = payload @ put_le 4 value"

definition PutU64 :: "bytes \<Rightarrow> u64 \<Rightarrow> bytes" where
  "PutU64 payload value = payload @ put_le 8 value"

definition EncodeMember :: "RaftMember \<Rightarrow> bytes \<Rightarrow> Status + bytes" where
  "EncodeMember member payload =
     (let payload1 = PutU64 payload (mb_node_id member);
          host = na_host (mb_address member)
      in if UINT32_MAX < length host then Inl InvalidArgument
         else let payload2 = PutU32 payload1 (word_of_nat (length host));
                  payload3 = payload2 @ map byte_of_char host
              in Inr (PutU16 payload3 (na_port (mb_address member))))"

fun EncodeMembers_loop :: "RaftMember list \<Rightarrow> bytes \<Rightarrow> Status + bytes" where
  "EncodeMembers_loop [] payload = Inr payload"
| "EncodeMembers_loop (member # members) payload =
     and_then (EncodeMember member payload) (EncodeMembers_loop members)"

definition EncodeMembers :: "RaftMember list \<Rightarrow> bytes \<Rightarrow> Status + bytes" where
  "EncodeMembers members payload =
     (if UINT32_MAX < length members then Inl InvalidArgument
      else EncodeMembers_loop members (PutU32 payload (word_of_nat (length members))))"

definition EncodeMembershipLogEntry :: "MembershipLogEntry \<Rightarrow> out_ptr \<Rightarrow> Status + bytes" where
  "EncodeMembershipLogEntry entry payload =
     (if \<not> ok (require_out payload) then Inl (require_out payload)
      else and_then (NormalizeLogEntry entry) (\<lambda>normalized.
        let encoded1 = PutU8 [] kMembershipLogFormatVersion;
            encoded2 = PutU8 encoded1 (if me_has_active_transition normalized then kActiveTransitionFlag else 0);
            encoded3 = PutU64 encoded2 (me_configuration_id normalized)
        in and_then (EncodeMembers (me_voters normalized) encoded3) (\<lambda>encoded4.
           and_then (EncodeMembers (me_learners normalized) encoded4) (\<lambda>encoded5.
           and_then (EncodeMembers (me_next_voters normalized) encoded5) (\<lambda>encoded6.
           EncodeMembers (me_next_learners normalized) encoded6)))))"

section \<open>Readers\<close>

definition ReadU8 :: "u8 reader" where
  "ReadU8 payload offset =
     (if length payload \<le> offset then Inl Corruption else Inr (payload ! offset, offset + 1))"

definition ReadU16 :: "u16 reader" where
  "ReadU16 payload offset =
     (if size_sub (length payload) offset < 2 then Inl Corruption
      else let low = (ucast (payload ! offset) :: u16);
               high = push_bit 8 (ucast (payload ! (offset + 1)) :: u16)
           in Inr (low OR high, offset + 2))"

definition ReadU32 :: "u32 reader" where
  "ReadU32 payload offset =
     (if size_sub (length payload) offset < 4 then Inl Corruption
      else Inr (get_le 4 payload offset, offset + 4))"

definition ReadU64 :: "u64 reader" where
  "ReadU64 payload offset =
     (if size_sub (length payload) offset < 8 then Inl Corruption
      else Inr (get_le 8 payload offset, offset + 8))"

definition DecodeMember :: "RaftMember reader" where
  "DecodeMember payload offset =
     and_then (ReadU64 payload offset) (\<lambda>(node_id, offset1).
     and_then (ReadU32 payload offset1) (\<lambda>(host_size, offset2).
       if size_sub (length payload) offset2 < unat host_size then Inl Corruption
       else let host = map char_of_byte (take (unat host_size) (drop offset2 payload));
                offset3 = offset2 + unat host_size
            in and_then (ReadU16 payload offset3) (\<lambda>(port, offset4).
               Inr (\<lparr>mb_node_id = node_id, mb_address = \<lparr>na_host = host, na_port = port\<rparr>\<rparr>, offset4))))"

definition DecodeMembers :: "RaftMember list reader" where
  "DecodeMembers payload offset =
     and_then (ReadU32 payload offset) (\<lambda>(count, offset1).
       read_list DecodeMember (unat count) payload offset1)"

definition DecodeMembershipLogEntry :: "bytes \<Rightarrow> out_ptr \<Rightarrow> Status + MembershipLogEntry" where
  "DecodeMembershipLogEntry payload entry =
     (if \<not> ok (require_out entry) then Inl (require_out entry)
      else and_then (ReadU8 payload 0) (\<lambda>(version, offset1).
        if version \<noteq> 1 \<and> version \<noteq> kMembershipLogFormatVersion then Inl Corruption
        else and_then (ReadU8 payload offset1) (\<lambda>(flags, offset2).
        if flags AND NOT kActiveTransitionFlag \<noteq> 0 then Inl Corruption
        else and_then (ReadU64 payload offset2) (\<lambda>(configuration_id, offset3).
        and_then (DecodeMembers payload offset3) (\<lambda>(voters, offset4).
        and_then (DecodeMembers payload offset4) (\<lambda>(learners, offset5).
        and_then (if 2 \<le> version
                  then and_then (DecodeMembers payload offset5) (\<lambda>(next_voters, offset6).
                       and_then (DecodeMembers payload offset6) (\<lambda>(next_learners, offset7).
                       Inr (next_voters, next_learners, offset7)))
                  else Inr ([], [], offset5)) (\<lambda>(next_voters, next_learners, offset8).
        if offset8 \<noteq> length payload then Inl Corruption
        else (case NormalizeLogEntry
                \<lparr>me_configuration_id = configuration_id, me_voters = voters, me_learners = learners,
                 me_has_active_transition = (flags AND kActiveTransitionFlag \<noteq> 0),
                 me_next_voters = next_voters, me_next_learners = next_learners\<rparr> of
                Inl status \<Rightarrow> Inl (if status = InvalidArgument then Corruption else status)
              | Inr normalized \<Rightarrow> Inr normalized))))))))"

section \<open>The codecs\<close>

lemma put_le_2: "put_le 2 (v :: 'a::len word) = [ucast (v AND 0xFF), ucast (drop_bit 8 v AND 0xFF)]"
  by (simp add: put_le_def upt_rec)

lemma get_le_2: "get_le 2 payload offset =
    (ucast (payload ! offset) OR push_bit 8 (ucast (payload ! (offset + 1))) :: 'a::len word)"
  by (simp add: get_le_def upt_rec)

lemma ReadU16_get_le:
  "ReadU16 payload offset =
     (if size_sub (length payload) offset < 2 then Inl Corruption
      else Inr (get_le 2 payload offset, offset + 2))"
  by (simp add: ReadU16_def get_le_2 Let_def)

interpretation u8c: safe_codec "\<lambda>v. [v]" ReadU8 "\<lambda>_. True"
  by unfold_locales (auto simp: ReadU8_def split: if_splits)

interpretation u16c: safe_codec "put_le 2" ReadU16 "\<lambda>_. True"
  by unfold_locales (auto simp: ReadU16_get_le get_put_le split: if_splits)

interpretation u32c: safe_codec "put_le 4" ReadU32 "\<lambda>_. True"
  by unfold_locales (auto simp: ReadU32_def get_put_le split: if_splits)

interpretation u64c: safe_codec "put_le 8" ReadU64 "\<lambda>_. True"
  by unfold_locales (auto simp: ReadU64_def get_put_le split: if_splits)

definition member_bytes :: "RaftMember \<Rightarrow> bytes" where
  "member_bytes m =
     put_le 8 (mb_node_id m) @ put_le 4 (word_of_nat (length (na_host (mb_address m))) :: u32) @
     map byte_of_char (na_host (mb_address m)) @ put_le 2 (na_port (mb_address m))"

definition member_encodable :: "RaftMember \<Rightarrow> bool" where
  "member_encodable m \<longleftrightarrow> length (na_host (mb_address m)) \<le> UINT32_MAX"

definition members_bytes :: "RaftMember list \<Rightarrow> bytes" where
  "members_bytes ms = put_le 4 (word_of_nat (length ms) :: u32) @ concat (map member_bytes ms)"

definition members_encodable :: "RaftMember list \<Rightarrow> bool" where
  "members_encodable ms \<longleftrightarrow> length ms \<le> UINT32_MAX \<and> (\<forall>m \<in> set ms. member_encodable m)"

lemma EncodeMember_eq:
  "EncodeMember m payload =
     (if member_encodable m then Inr (payload @ member_bytes m) else Inl InvalidArgument)"
  by (simp add: EncodeMember_def member_encodable_def member_bytes_def Let_def PutU64_def PutU32_def
      PutU16_def put_le_2)

lemma EncodeMembers_loop_eq:
  "EncodeMembers_loop ms payload =
     (if \<forall>m \<in> set ms. member_encodable m then Inr (payload @ concat (map member_bytes ms))
      else Inl InvalidArgument)"
  by (induction ms arbitrary: payload) (auto simp: EncodeMember_eq)

lemma EncodeMembers_eq:
  "EncodeMembers ms payload =
     (if members_encodable ms then Inr (payload @ members_bytes ms) else Inl InvalidArgument)"
  by (auto simp: EncodeMembers_def EncodeMembers_loop_eq members_encodable_def members_bytes_def
      PutU32_def)

lemma unat_u32_of_length: "n \<le> UINT32_MAX \<Longrightarrow> unat (word_of_nat n :: u32) = n"
  by (simp add: UINT32_MAX_def unat_of_nat)

lemma DecodeMember_put:
  assumes "member_encodable m"
  shows "DecodeMember (pre @ member_bytes m @ post) (length pre) = Inr (m, length pre + length (member_bytes m))"
proof -
  define p where "p = pre @ member_bytes m @ post"
  define start where "start = length pre"
  let ?host = "na_host (mb_address m)"
  let ?size = "word_of_nat (length ?host) :: u32"
  have size: "unat ?size = length ?host"
    using assms unat_u32_of_length by (simp add: member_encodable_def)
  have "drop start p = put_le 8 (mb_node_id m) @
      (put_le 4 ?size @ map byte_of_char ?host @ put_le 2 (na_port (mb_address m)) @ post)"
    by (simp add: p_def start_def member_bytes_def)
  moreover have "start \<le> length p" by (simp add: p_def start_def)
  ultimately have r1: "ReadU64 p start = Inr (mb_node_id m, start + 8)"
    "drop (start + 8) p = put_le 4 ?size @ map byte_of_char ?host @ put_le 2 (na_port (mb_address m)) @ post"
    "start + 8 \<le> length p"
    using u64c.read_rest [OF TrueI, of start p "mb_node_id m"] by auto
  have r2: "ReadU32 p (start + 8) = Inr (?size, start + 12)"
    "drop (start + 12) p = map byte_of_char ?host @ put_le 2 (na_port (mb_address m)) @ post"
    using u32c.read_rest [OF TrueI r1(2,3)] by (simp_all add: add.assoc)
  have "drop (start + 12 + length ?host) p = drop (length ?host) (drop (start + 12) p)"
    by (simp only: drop_drop add.commute)
  then have d3: "drop (start + 12 + length ?host) p = put_le 2 (na_port (mb_address m)) @ post"
    by (simp only: r2(2)) simp
  have len: "length p = start + 12 + length ?host + 2 + length post"
    by (simp add: p_def start_def member_bytes_def)
  then have l3: "start + 12 + length ?host \<le> length p" by simp
  have r3: "ReadU16 p (start + 12 + length ?host) =
      Inr (na_port (mb_address m), start + 12 + length ?host + 2)"
    using u16c.read_rest(1) [OF TrueI d3 l3] by simp
  have "length (member_bytes m) = 14 + length ?host" by (simp add: member_bytes_def)
  moreover have "size_sub (length p) (start + 12) = length ?host + 2 + length post"
    using len by simp
  ultimately have "DecodeMember p start = Inr (m, start + length (member_bytes m))"
    by (simp add: DecodeMember_def Let_def r1(1) r2 size r3)
  then show ?thesis by (simp add: p_def start_def)
qed

lemma DecodeMember_bounds:
  assumes "offset \<le> length payload" "DecodeMember payload offset = Inr (m, offset')"
  shows "offset \<le> offset' \<and> offset' \<le> length payload"
proof -
  obtain node_id o1 size o2 port where r: "ReadU64 payload offset = Inr (node_id, o1)"
    "ReadU32 payload o1 = Inr (size, o2)" "\<not> size_sub (length payload) o2 < unat size"
    "ReadU16 payload (o2 + unat size) = Inr (port, offset')"
    using assms(2) by (auto simp: DecodeMember_def and_then_Inr_iff Let_def split: if_splits)
  have b1: "offset \<le> o1 \<and> o1 \<le> length payload" using assms(1) r(1) by (rule u64c.read_bounds)
  then have b2: "o1 \<le> o2 \<and> o2 \<le> length payload" using r(2) u32c.read_bounds by blast
  then have b3: "o2 + unat size \<le> length payload"
    using r(3) size_sub_le [of o2 "length payload"] by linarith
  then show ?thesis using b1 b2 u16c.read_bounds [OF b3 r(4)] by linarith
qed

interpretation memberc: safe_codec member_bytes DecodeMember member_encodable
  by unfold_locales (use DecodeMember_put DecodeMember_bounds in blast)+

lemma DecodeMembers_put:
  assumes "members_encodable ms"
  shows "DecodeMembers (pre @ members_bytes ms @ post) (length pre) =
    Inr (ms, length pre + length (members_bytes ms))"
proof -
  let ?c = "word_of_nat (length ms) :: u32"
  have count: "unat ?c = length ms"
    using assms unat_u32_of_length by (simp add: members_encodable_def)
  have "ReadU32 (pre @ put_le 4 ?c @ (concat (map member_bytes ms) @ post)) (length pre) =
      Inr (?c, length pre + 4)"
    using u32c.read_put [OF TrueI, of pre ?c] by simp
  moreover have "read_list DecodeMember (length ms)
      ((pre @ put_le 4 ?c) @ concat (map member_bytes ms) @ post) (length (pre @ put_le 4 ?c)) =
      Inr (ms, length (pre @ put_le 4 ?c) + length (concat (map member_bytes ms)))"
    using assms by (intro memberc.read_put_list) (simp add: members_encodable_def)
  ultimately show ?thesis
    by (simp add: DecodeMembers_def members_bytes_def count)
qed

lemma DecodeMembers_bounds:
  assumes "offset \<le> length payload" "DecodeMembers payload offset = Inr (ms, offset')"
  shows "offset \<le> offset' \<and> offset' \<le> length payload"
proof -
  obtain count o1 where r: "ReadU32 payload offset = Inr (count, o1)"
    "read_list DecodeMember (unat count) payload o1 = Inr (ms, offset')"
    using assms(2) by (auto simp: DecodeMembers_def and_then_Inr_iff)
  have b: "offset \<le> o1 \<and> o1 \<le> length payload" using assms(1) r(1) by (rule u32c.read_bounds)
  then show ?thesis using memberc.read_list_bounds [OF _ r(2)] by auto
qed

interpretation membersc: safe_codec members_bytes DecodeMembers members_encodable
  by unfold_locales (use DecodeMembers_put DecodeMembers_bounds in blast)+

section \<open>The round trip\<close>

definition entry_bytes :: "MembershipLogEntry \<Rightarrow> bytes" where
  "entry_bytes n =
     [kMembershipLogFormatVersion] @ [if me_has_active_transition n then kActiveTransitionFlag else 0] @
     put_le 8 (me_configuration_id n) @ members_bytes (me_voters n) @ members_bytes (me_learners n) @
     members_bytes (me_next_voters n) @ members_bytes (me_next_learners n)"

definition entry_encodable :: "MembershipLogEntry \<Rightarrow> bool" where
  "entry_encodable n \<longleftrightarrow>
     members_encodable (me_voters n) \<and> members_encodable (me_learners n) \<and>
     members_encodable (me_next_voters n) \<and> members_encodable (me_next_learners n)"

lemma EncodeMembershipLogEntry_eq:
  "EncodeMembershipLogEntry e out =
     and_then (NormalizeLogEntry e)
       (\<lambda>n. if entry_encodable n then Inr (entry_bytes n) else Inl InvalidArgument)"
  by (auto simp: EncodeMembershipLogEntry_def EncodeMembers_eq entry_encodable_def entry_bytes_def
      Let_def PutU8_def PutU64_def intro!: and_then_cong)

lemma NormalizeLogEntry_idem:
  assumes "NormalizeLogEntry e = Inr n"
  shows "NormalizeLogEntry n = Inr n"
proof -
  have "n = e\<lparr>me_voters := sort (me_voters e), me_learners := sort (me_learners e)\<rparr>"
    using assms by (auto simp: NormalizeLogEntry_eq split: if_splits)
  then have "sort (me_voters n) = me_voters n" "sort (me_learners n) = me_learners n"
    by (simp_all add: sorted_sort_id)
  then show ?thesis
    using NormalizeLogEntry_Inr(1) [OF assms] by (simp add: NormalizeLogEntry_eq)
qed

text \<open>Reading the members of all four sets, one after the other.\<close>

lemma DecodeMembers_rest:
  assumes "members_encodable ms" "drop offset p = members_bytes ms @ rest" "offset \<le> length p"
  obtains offset' where "DecodeMembers p offset = Inr (ms, offset')" "drop offset' p = rest"
    "offset' \<le> length p"
  using membersc.read_rest [OF assms] that by blast

lemma DecodeMembershipLogEntry_bytes:
  assumes enc: "entry_encodable n" and norm: "NormalizeLogEntry n = Inr n"
  shows "DecodeMembershipLogEntry (entry_bytes n @ extra) out =
    (if extra = [] then Inr n else Inl Corruption)"
proof -
  define p where "p = entry_bytes n @ extra"
  let ?flags = "if me_has_active_transition n then kActiveTransitionFlag else 0"
  have p: "p = kMembershipLogFormatVersion # ?flags # put_le 8 (me_configuration_id n) @
      members_bytes (me_voters n) @ members_bytes (me_learners n) @
      members_bytes (me_next_voters n) @ members_bytes (me_next_learners n) @ extra"
    by (simp add: p_def entry_bytes_def)
  have r1: "ReadU8 p 0 = Inr (kMembershipLogFormatVersion, 1)" "ReadU8 p 1 = Inr (?flags, 2)"
    by (simp_all add: p ReadU8_def)
  have "drop 2 p = put_le 8 (me_configuration_id n) @ (members_bytes (me_voters n) @
      members_bytes (me_learners n) @ members_bytes (me_next_voters n) @
      members_bytes (me_next_learners n) @ extra)" "2 \<le> length p"
    by (simp_all add: p)
  note r2 = u64c.read_rest [OF TrueI this]
  obtain o4 where r4: "DecodeMembers p (2 + length (put_le 8 (me_configuration_id n))) = Inr (me_voters n, o4)"
    "drop o4 p = members_bytes (me_learners n) @ members_bytes (me_next_voters n) @
      members_bytes (me_next_learners n) @ extra" "o4 \<le> length p"
    using enc r2(2,3) unfolding entry_encodable_def by (metis DecodeMembers_rest)
  obtain o5 where r5: "DecodeMembers p o4 = Inr (me_learners n, o5)"
    "drop o5 p = members_bytes (me_next_voters n) @ members_bytes (me_next_learners n) @ extra"
    "o5 \<le> length p"
    using enc r4(2,3) unfolding entry_encodable_def by (metis DecodeMembers_rest)
  obtain o6 where r6: "DecodeMembers p o5 = Inr (me_next_voters n, o6)"
    "drop o6 p = members_bytes (me_next_learners n) @ extra" "o6 \<le> length p"
    using enc r5(2,3) unfolding entry_encodable_def by (metis DecodeMembers_rest)
  obtain o7 where r7: "DecodeMembers p o6 = Inr (me_next_learners n, o7)"
    "drop o7 p = extra" "o7 \<le> length p"
    using enc r6(2,3) unfolding entry_encodable_def by (metis DecodeMembers_rest)
  have flags: "?flags AND NOT kActiveTransitionFlag = 0"
    "(?flags AND kActiveTransitionFlag \<noteq> 0) = me_has_active_transition n"
    by (simp_all add: kActiveTransitionFlag_def)
  have last: "o7 = length p \<longleftrightarrow> extra = []" using r7(2,3) by auto
  have entry: "\<lparr>me_configuration_id = me_configuration_id n, me_voters = me_voters n,
      me_learners = me_learners n, me_has_active_transition = me_has_active_transition n,
      me_next_voters = me_next_voters n, me_next_learners = me_next_learners n\<rparr> = n"
    by simp
  have version: "kMembershipLogFormatVersion \<noteq> 1" "2 \<le> kMembershipLogFormatVersion"
    by (simp_all add: kMembershipLogFormatVersion_def)
  have "DecodeMembershipLogEntry p out = (if extra = [] then Inr n else Inl Corruption)"
    unfolding DecodeMembershipLogEntry_def
    by (simp only: r1 r2(1) r4(1) r5(1) r6(1) r7(1) and_then.simps prod.case flags version last entry norm
        require_out_simps if_True if_False simp_thms sum.case)
      simp
  then show ?thesis by (simp add: p_def)
qed

text \<open>
  Decoding an encoded membership entry returns its normal form, the one the encoder wrote;
  the same bytes with anything appended are rejected as corrupt.
\<close>

theorem membership_entry_roundtrip:
  assumes "EncodeMembershipLogEntry entry out = Inr payload"
  shows "\<exists>n. NormalizeLogEntry entry = Inr n \<and> DecodeMembershipLogEntry payload out = Inr n \<and>
    (\<forall>b extra. DecodeMembershipLogEntry (payload @ b # extra) out = Inl Corruption)"
proof -
  obtain n where n: "NormalizeLogEntry entry = Inr n" "entry_encodable n" "payload = entry_bytes n"
    using assms by (auto simp: EncodeMembershipLogEntry_eq and_then_Inr_iff split: if_splits)
  note d = DecodeMembershipLogEntry_bytes [OF n(2) NormalizeLogEntry_idem [OF n(1)]]
  show ?thesis using n d [of "[]"] d by auto
qed

theorem membership_entry_roundtrip_witness:
  "\<exists>payload n. EncodeMembershipLogEntry example_entry out = Inr payload \<and>
    NormalizeLogEntry example_entry = Inr n \<and> DecodeMembershipLogEntry payload out = Inr n"
proof -
  have "view_wf (entry_view example_entry)"
    by (simp add: view_wf_def members_wf_def node_ids_def entry_view_def example_entry_def example_member_def)
  then have "EncodeMembershipLogEntry example_entry out = Inr (entry_bytes example_entry)"
    by (simp add: EncodeMembershipLogEntry_eq NormalizeLogEntry_eq)
      (simp add: entry_encodable_def members_encodable_def member_encodable_def UINT32_MAX_def
        example_entry_def example_member_def)
  then show ?thesis using membership_entry_roundtrip [of example_entry] by blast
qed

end
