(* ===== verification/Raft_Snapshot.thy ===== *)
theory Raft_Snapshot
  imports Byte_Codec Checksum Membership
begin

text \<open>
  \<open>raft/raft_snapshot.cpp\<close>: the snapshot file format, a little-endian body followed by its
  FNV-1a checksum, with the limits both directions enforce. The internal helpers are only called
  with addresses of local variables, so their null checks have no counterpart.
\<close>

definition kSnapshotFormatVersion :: u32 where "kSnapshotFormatVersion = 1"
definition kMaxSnapshotPayloadLength :: nat where "kMaxSnapshotPayloadLength = 64 * 1024 * 1024"
definition kMaxMembers :: nat where "kMaxMembers = 10000"
definition kMaxHostLength :: nat where "kMaxHostLength = 4096"

section \<open>Writers\<close>

definition Snapshot_PutU32 :: "bytes \<Rightarrow> u32 \<Rightarrow> bytes" where
  "Snapshot_PutU32 bytes value = bytes @ put_le 4 value"

definition Snapshot_PutU64 :: "bytes \<Rightarrow> u64 \<Rightarrow> bytes" where
  "Snapshot_PutU64 bytes value = bytes @ put_le 8 value"

definition Snapshot_EncodeMember :: "RaftMember \<Rightarrow> bytes \<Rightarrow> Status + bytes" where
  "Snapshot_EncodeMember member bytes =
     (if mb_node_id member = kInvalidNodeId then Inl InvalidArgument
      else if kMaxHostLength < length (na_host (mb_address member)) then Inl InvalidArgument
      else let bytes1 = Snapshot_PutU64 bytes (mb_node_id member);
               bytes2 = Snapshot_PutU32 bytes1 (ucast (na_port (mb_address member)));
               bytes3 = Snapshot_PutU64 bytes2 (word_of_nat (length (na_host (mb_address member))))
           in Inr (bytes3 @ map byte_of_char (na_host (mb_address member))))"

fun Snapshot_EncodeMembers_loop :: "RaftMember list \<Rightarrow> bytes \<Rightarrow> Status + bytes" where
  "Snapshot_EncodeMembers_loop [] bytes = Inr bytes"
| "Snapshot_EncodeMembers_loop (member # members) bytes =
     and_then (Snapshot_EncodeMember member bytes) (Snapshot_EncodeMembers_loop members)"

definition Snapshot_EncodeMembers :: "RaftMember list \<Rightarrow> bytes \<Rightarrow> Status + bytes" where
  "Snapshot_EncodeMembers members bytes =
     Snapshot_EncodeMembers_loop members (Snapshot_PutU64 bytes (word_of_nat (length members)))"

definition EncodeSnapshotData :: "SnapshotData \<Rightarrow> out_ptr \<Rightarrow> Status + bytes" where
  "EncodeSnapshotData snapshot bytes =
     (let metadata = sd_metadata snapshot; membership = sm_membership metadata
      in if \<not> ok (require_out bytes) then Inl (require_out bytes)
         else if sm_last_included_index metadata = kInvalidLogIndex then Inl InvalidArgument
         else if sm_last_included_term metadata = kInitialTerm then Inl InvalidArgument
         else if kMaxSnapshotPayloadLength < length (sd_payload snapshot) then Inl InvalidArgument
         else let body1 = Snapshot_PutU32 [] kSnapshotFormatVersion;
                  body2 = Snapshot_PutU64 body1 (sm_last_included_index metadata);
                  body3 = Snapshot_PutU64 body2 (sm_last_included_term metadata);
                  body4 = Snapshot_PutU64 body3 (mv_configuration_id membership);
                  body5 = Snapshot_PutU32 body4 (if mv_has_active_transition membership then 1 else 0)
              in and_then (Snapshot_EncodeMembers (mv_voters membership) body5) (\<lambda>body6.
                 and_then (Snapshot_EncodeMembers (mv_learners membership) body6) (\<lambda>body7.
                 let body8 = Snapshot_PutU64 body7 (word_of_nat (length (sd_payload snapshot)));
                     body9 = body8 @ sd_payload snapshot
                 in Inr (Snapshot_PutU64 body9 (Compute body9)))))"

section \<open>Readers\<close>

definition Snapshot_ReadU32 :: "u32 reader" where
  "Snapshot_ReadU32 bytes offset =
     (if length bytes < offset \<or> length bytes - offset < 4 then Inl Corruption
      else Inr (get_le 4 bytes offset, offset + 4))"

definition Snapshot_ReadU64 :: "u64 reader" where
  "Snapshot_ReadU64 bytes offset =
     (if length bytes < offset \<or> length bytes - offset < 8 then Inl Corruption
      else Inr (get_le 8 bytes offset, offset + 8))"

definition Snapshot_DecodeMember :: "RaftMember reader" where
  "Snapshot_DecodeMember bytes offset =
     and_then (Snapshot_ReadU64 bytes offset) (\<lambda>(node_id, offset1).
     and_then (Snapshot_ReadU32 bytes offset1) (\<lambda>(port, offset2).
     and_then (Snapshot_ReadU64 bytes offset2) (\<lambda>(host_length, offset3).
       if node_id = kInvalidNodeId then Inl Corruption
       else if 65535 < port then Inl Corruption
       else if kMaxHostLength < unat host_length then Inl Corruption
       else if length bytes < offset3 \<or> length bytes - offset3 < unat host_length then Inl Corruption
       else Inr (\<lparr>mb_node_id = node_id,
                  mb_address = \<lparr>na_host = map char_of_byte (take (unat host_length) (drop offset3 bytes)),
                                na_port = ucast port\<rparr>\<rparr>,
                 offset3 + unat host_length))))"

definition Snapshot_DecodeMembers :: "RaftMember list reader" where
  "Snapshot_DecodeMembers bytes offset =
     and_then (Snapshot_ReadU64 bytes offset) (\<lambda>(count, offset1).
       if kMaxMembers < unat count then Inl Corruption
       else read_list Snapshot_DecodeMember (unat count) bytes offset1)"

definition DecodeSnapshotData :: "bytes \<Rightarrow> out_ptr \<Rightarrow> Status + SnapshotData" where
  "DecodeSnapshotData bytes snapshot =
     (if \<not> ok (require_out snapshot) then Inl (require_out snapshot)
      else if bytes = [] then Inl Corruption
      else and_then (Snapshot_ReadU32 bytes 0) (\<lambda>(version, offset1).
        if version \<noteq> kSnapshotFormatVersion then Inl Corruption
        else and_then (Snapshot_ReadU64 bytes offset1) (\<lambda>(last_included_index, offset2).
        and_then (Snapshot_ReadU64 bytes offset2) (\<lambda>(last_included_term, offset3).
        and_then (Snapshot_ReadU64 bytes offset3) (\<lambda>(configuration_id, offset4).
        and_then (Snapshot_ReadU32 bytes offset4) (\<lambda>(active_transition, offset5).
        if 1 < active_transition then Inl Corruption
        else and_then (Snapshot_DecodeMembers bytes offset5) (\<lambda>(voters, offset6).
        and_then (Snapshot_DecodeMembers bytes offset6) (\<lambda>(learners, offset7).
        and_then (Snapshot_ReadU64 bytes offset7) (\<lambda>(payload_length, offset8).
        if kMaxSnapshotPayloadLength < unat payload_length then Inl Corruption
        else if length bytes < offset8 \<or> length bytes - offset8 < unat payload_length then Inl Corruption
        else let payload = take (unat payload_length) (drop offset8 bytes);
                 offset9 = offset8 + unat payload_length
             in if size_sub (length bytes) offset9 \<noteq> 8 then Inl Corruption
                else and_then (Snapshot_ReadU64 bytes offset9) (\<lambda>(checksum, offset10).
                  if Compute (take (length bytes - 8) bytes) \<noteq> checksum then Inl Corruption
                  else if last_included_index = kInvalidLogIndex then Inl Corruption
                  else if last_included_term = kInitialTerm then Inl Corruption
                  else Inr
                    \<lparr>sd_metadata =
                       \<lparr>sm_last_included_index = last_included_index,
                        sm_last_included_term = last_included_term,
                        sm_membership = MembershipView_default
                          \<lparr>mv_configuration_id := configuration_id,
                           mv_has_active_transition := (active_transition = 1),
                           mv_voters := voters, mv_learners := learners\<rparr>\<rparr>,
                     sd_payload = payload\<rparr>))))))))))"

section \<open>The codecs\<close>

interpretation su32: safe_codec "put_le 4" Snapshot_ReadU32 "\<lambda>_. True"
  by unfold_locales (auto simp: Snapshot_ReadU32_def get_put_le split: if_splits)

interpretation su64: safe_codec "put_le 8" Snapshot_ReadU64 "\<lambda>_. True"
  by unfold_locales (auto simp: Snapshot_ReadU64_def get_put_le split: if_splits)

definition snapshot_member_bytes :: "RaftMember \<Rightarrow> bytes" where
  "snapshot_member_bytes m =
     put_le 8 (mb_node_id m) @ put_le 4 (ucast (na_port (mb_address m)) :: u32) @
     put_le 8 (word_of_nat (length (na_host (mb_address m))) :: u64) @
     map byte_of_char (na_host (mb_address m))"

definition snapshot_member_encodable :: "RaftMember \<Rightarrow> bool" where
  "snapshot_member_encodable m \<longleftrightarrow>
     mb_node_id m \<noteq> kInvalidNodeId \<and> length (na_host (mb_address m)) \<le> kMaxHostLength"

definition snapshot_members_bytes :: "RaftMember list \<Rightarrow> bytes" where
  "snapshot_members_bytes ms =
     put_le 8 (word_of_nat (length ms) :: u64) @ concat (map snapshot_member_bytes ms)"

definition snapshot_members_encodable :: "RaftMember list \<Rightarrow> bool" where
  "snapshot_members_encodable ms \<longleftrightarrow> (\<forall>m \<in> set ms. snapshot_member_encodable m)"

lemma Snapshot_EncodeMember_eq:
  "Snapshot_EncodeMember m bytes =
     (if snapshot_member_encodable m then Inr (bytes @ snapshot_member_bytes m) else Inl InvalidArgument)"
  by (simp add: Snapshot_EncodeMember_def snapshot_member_encodable_def snapshot_member_bytes_def
      Let_def Snapshot_PutU64_def Snapshot_PutU32_def)

lemma Snapshot_EncodeMembers_eq:
  "Snapshot_EncodeMembers ms bytes =
     (if snapshot_members_encodable ms then Inr (bytes @ snapshot_members_bytes ms) else Inl InvalidArgument)"
proof -
  have "Snapshot_EncodeMembers_loop ms bytes =
      (if \<forall>m \<in> set ms. snapshot_member_encodable m
       then Inr (bytes @ concat (map snapshot_member_bytes ms)) else Inl InvalidArgument)" for bytes
    by (induction ms arbitrary: bytes) (auto simp: Snapshot_EncodeMember_eq)
  then show ?thesis
    by (simp add: Snapshot_EncodeMembers_def snapshot_members_encodable_def snapshot_members_bytes_def
        Snapshot_PutU64_def)
qed

lemma unat_u64_of_small: "n \<le> kMaxHostLength + kMaxMembers + kMaxSnapshotPayloadLength \<Longrightarrow>
    unat (word_of_nat n :: u64) = n"
  by (simp add: kMaxHostLength_def kMaxMembers_def kMaxSnapshotPayloadLength_def unat_of_nat)

lemma port_roundtrip: "(ucast (ucast p :: u32) :: u16) = p" "\<not> 65535 < (ucast p :: u32)" for p :: u16
proof -
  have "unat (ucast p :: u32) = unat p"
    using unsigned_less [of p, where ?'a = nat] by (simp add: unsigned_ucast_eq take_bit_nat_eq_self)
  moreover have "unat p < 65536" using unsigned_less [of p, where ?'a = nat] by simp
  ultimately show "\<not> 65535 < (ucast p :: u32)" by (simp add: word_less_nat_alt)
  show "(ucast (ucast p :: u32) :: u16) = p"
    by (rule bit_word_eqI) (simp add: bit_ucast_iff)
qed

lemma Snapshot_DecodeMember_put:
  assumes "snapshot_member_encodable m"
  shows "Snapshot_DecodeMember (pre @ snapshot_member_bytes m @ post) (length pre) =
    Inr (m, length pre + length (snapshot_member_bytes m))"
proof -
  define p where "p = pre @ snapshot_member_bytes m @ post"
  define start where "start = length pre"
  let ?host = "na_host (mb_address m)" and ?port = "ucast (na_port (mb_address m)) :: u32"
  let ?size = "word_of_nat (length ?host) :: u64"
  have size: "unat ?size = length ?host" "length ?host \<le> kMaxHostLength" "mb_node_id m \<noteq> 0"
    using assms unat_u64_of_small by (simp_all add: snapshot_member_encodable_def)
  have "drop start p = put_le 8 (mb_node_id m) @
      (put_le 4 ?port @ put_le 8 ?size @ map byte_of_char ?host @ post)"
    by (simp add: p_def start_def snapshot_member_bytes_def)
  moreover have "start \<le> length p" by (simp add: p_def start_def)
  ultimately have r1: "Snapshot_ReadU64 p start = Inr (mb_node_id m, start + 8)"
    "drop (start + 8) p = put_le 4 ?port @ put_le 8 ?size @ map byte_of_char ?host @ post"
    "start + 8 \<le> length p"
    using su64.read_rest [OF TrueI, of start p "mb_node_id m"] by auto
  have r2: "Snapshot_ReadU32 p (start + 8) = Inr (?port, start + 12)"
    "drop (start + 12) p = put_le 8 ?size @ map byte_of_char ?host @ post" "start + 12 \<le> length p"
    using su32.read_rest [OF TrueI r1(2,3)] by (simp_all add: add.assoc)
  have r3: "Snapshot_ReadU64 p (start + 12) = Inr (?size, start + 20)"
    "drop (start + 20) p = map byte_of_char ?host @ post" "start + 20 \<le> length p"
    using su64.read_rest [OF TrueI r2(2,3)] by (simp_all add: add.assoc)
  have "length p = start + 20 + length ?host + length post"
    by (simp add: p_def start_def snapshot_member_bytes_def)
  then have fits: "\<not> (length p < start + 20 \<or> length p - (start + 20) < length ?host)" by simp
  have host: "map char_of_byte (take (length ?host) (drop (start + 20) p)) = ?host"
    by (simp add: r3(2))
  have "Snapshot_DecodeMember p start = Inr (m, start + 20 + length ?host)"
    unfolding Snapshot_DecodeMember_def r1(1) and_then.simps prod.case r2(1) r3(1) size(1) host
    using size fits port_roundtrip [of "na_port (mb_address m)"] by simp
  then show ?thesis by (simp add: p_def start_def snapshot_member_bytes_def)
qed

lemma Snapshot_DecodeMember_bounds:
  assumes "offset \<le> length p" "Snapshot_DecodeMember p offset = Inr (m, offset')"
  shows "offset \<le> offset' \<and> offset' \<le> length p"
proof -
  obtain a o1 b o2 c o3 where r: "Snapshot_ReadU64 p offset = Inr (a, o1)"
    "Snapshot_ReadU32 p o1 = Inr (b, o2)" "Snapshot_ReadU64 p o2 = Inr (c, o3)"
    "\<not> (length p < o3 \<or> length p - o3 < unat c)" "offset' = o3 + unat c"
    using assms(2) by (auto simp: Snapshot_DecodeMember_def and_then_Inr_iff split: if_splits)
  have b1: "offset \<le> o1 \<and> o1 \<le> length p" using assms(1) r(1) by (rule su64.read_bounds)
  then have b2: "o1 \<le> o2 \<and> o2 \<le> length p" using r(2) su32.read_bounds by blast
  then have "o2 \<le> o3 \<and> o3 \<le> length p" using r(3) su64.read_bounds by blast
  then show ?thesis using b1 b2 r(4,5) by linarith
qed

interpretation smemberc: safe_codec snapshot_member_bytes Snapshot_DecodeMember snapshot_member_encodable
  by unfold_locales (use Snapshot_DecodeMember_put Snapshot_DecodeMember_bounds in blast)+

lemma Snapshot_DecodeMembers_put:
  assumes "snapshot_members_encodable ms" "length ms \<le> kMaxMembers"
  shows "Snapshot_DecodeMembers (pre @ snapshot_members_bytes ms @ post) (length pre) =
    Inr (ms, length pre + length (snapshot_members_bytes ms))"
proof -
  let ?c = "word_of_nat (length ms) :: u64"
  have count: "unat ?c = length ms" using assms(2) by (intro unat_u64_of_small) simp
  have "Snapshot_ReadU64 (pre @ put_le 8 ?c @ (concat (map snapshot_member_bytes ms) @ post)) (length pre) =
      Inr (?c, length pre + 8)"
    using su64.read_put [OF TrueI, of pre ?c] by simp
  moreover have "read_list Snapshot_DecodeMember (length ms)
      ((pre @ put_le 8 ?c) @ concat (map snapshot_member_bytes ms) @ post) (length (pre @ put_le 8 ?c)) =
      Inr (ms, length (pre @ put_le 8 ?c) + length (concat (map snapshot_member_bytes ms)))"
    using assms by (intro smemberc.read_put_list) (simp add: snapshot_members_encodable_def)
  ultimately show ?thesis
    using assms(2) by (simp add: Snapshot_DecodeMembers_def snapshot_members_bytes_def count)
qed

lemma Snapshot_DecodeMembers_bounds:
  assumes "offset \<le> length p" "Snapshot_DecodeMembers p offset = Inr (ms, offset')"
  shows "offset \<le> offset' \<and> offset' \<le> length p"
proof -
  obtain count o1 where r: "Snapshot_ReadU64 p offset = Inr (count, o1)"
    "read_list Snapshot_DecodeMember (unat count) p o1 = Inr (ms, offset')"
    using assms(2) by (auto simp: Snapshot_DecodeMembers_def and_then_Inr_iff split: if_splits)
  have b: "offset \<le> o1 \<and> o1 \<le> length p" using assms(1) r(1) by (rule su64.read_bounds)
  then show ?thesis using smemberc.read_list_bounds [OF _ r(2)] by auto
qed

interpretation smembersc: safe_codec snapshot_members_bytes Snapshot_DecodeMembers
    "\<lambda>ms. snapshot_members_encodable ms \<and> length ms \<le> kMaxMembers"
  by unfold_locales (use Snapshot_DecodeMembers_put Snapshot_DecodeMembers_bounds in blast)+

section \<open>The snapshot file\<close>

definition snapshot_body :: "SnapshotData \<Rightarrow> bytes" where
  "snapshot_body s =
     (let md = sd_metadata s; mv = sm_membership md
      in put_le 4 kSnapshotFormatVersion @ put_le 8 (sm_last_included_index md) @
         put_le 8 (sm_last_included_term md) @ put_le 8 (mv_configuration_id mv) @
         put_le 4 (if mv_has_active_transition mv then 1 else 0 :: u32) @
         snapshot_members_bytes (mv_voters mv) @ snapshot_members_bytes (mv_learners mv) @
         put_le 8 (word_of_nat (length (sd_payload s)) :: u64) @ sd_payload s)"

definition snapshot_encodable :: "SnapshotData \<Rightarrow> bool" where
  "snapshot_encodable s \<longleftrightarrow>
     sm_last_included_index (sd_metadata s) \<noteq> kInvalidLogIndex \<and>
     sm_last_included_term (sd_metadata s) \<noteq> kInitialTerm \<and>
     length (sd_payload s) \<le> kMaxSnapshotPayloadLength \<and>
     snapshot_members_encodable (mv_voters (sm_membership (sd_metadata s))) \<and>
     snapshot_members_encodable (mv_learners (sm_membership (sd_metadata s)))"

lemma EncodeSnapshotData_eq:
  "EncodeSnapshotData s out =
     (if snapshot_encodable s then Inr (snapshot_body s @ put_le 8 (Compute (snapshot_body s)))
      else Inl InvalidArgument)"
  by (auto simp: EncodeSnapshotData_def snapshot_encodable_def snapshot_body_def Let_def
      Snapshot_EncodeMembers_eq Snapshot_PutU32_def Snapshot_PutU64_def)

text \<open>What survives a snapshot file: everything but the target sets of a joint transition.\<close>

definition forget_targets :: "SnapshotData \<Rightarrow> SnapshotData" where
  "forget_targets s =
     s\<lparr>sd_metadata := (sd_metadata s)\<lparr>sm_membership :=
       (sm_membership (sd_metadata s))\<lparr>mv_next_voters := [], mv_next_learners := []\<rparr>\<rparr>\<rparr>"

lemma Snapshot_DecodeMembers_rest:
  assumes "snapshot_members_encodable ms" "length ms \<le> kMaxMembers"
    "drop offset p = snapshot_members_bytes ms @ rest" "offset \<le> length p"
  obtains offset' where "Snapshot_DecodeMembers p offset = Inr (ms, offset')" "drop offset' p = rest"
    "offset' \<le> length p"
  using smembersc.read_rest [OF conjI [OF assms(1,2)] assms(3,4)] that by blast

lemma DecodeSnapshotData_body:
  assumes enc: "snapshot_encodable s"
    and few: "length (mv_voters (sm_membership (sd_metadata s))) \<le> kMaxMembers"
      "length (mv_learners (sm_membership (sd_metadata s))) \<le> kMaxMembers"
  shows "DecodeSnapshotData (snapshot_body s @ put_le 8 (Compute (snapshot_body s))) out =
    Inr (forget_targets s)"
proof -
  let ?md = "sd_metadata s" and ?mv = "sm_membership (sd_metadata s)"
  let ?flag = "if mv_has_active_transition ?mv then 1 else 0 :: u32"
  let ?len = "word_of_nat (length (sd_payload s)) :: u64"
  let ?sum = "put_le 8 (Compute (snapshot_body s))"
  define p where "p = snapshot_body s @ ?sum"
  define start where "start = (0 :: nat)"
  have "drop start p = put_le 4 kSnapshotFormatVersion @ put_le 8 (sm_last_included_index ?md) @
      put_le 8 (sm_last_included_term ?md) @ put_le 8 (mv_configuration_id ?mv) @ put_le 4 ?flag @
      snapshot_members_bytes (mv_voters ?mv) @ snapshot_members_bytes (mv_learners ?mv) @
      put_le 8 ?len @ sd_payload s @ ?sum" "start \<le> length p"
    by (simp_all add: p_def start_def snapshot_body_def Let_def)
  note r1 = su32.read_rest [OF TrueI this]
  note r2 = su64.read_rest [OF TrueI r1(2,3)]
  note r3 = su64.read_rest [OF TrueI r2(2,3)]
  note r4 = su64.read_rest [OF TrueI r3(2,3)]
  note r5 = su32.read_rest [OF TrueI r4(2,3)]
  obtain o6 where r6: "Snapshot_DecodeMembers p (start + length (put_le 4 kSnapshotFormatVersion) +
        length (put_le 8 (sm_last_included_index ?md)) + length (put_le 8 (sm_last_included_term ?md)) +
        length (put_le 8 (mv_configuration_id ?mv)) + length (put_le 4 ?flag)) = Inr (mv_voters ?mv, o6)"
    "drop o6 p = snapshot_members_bytes (mv_learners ?mv) @ put_le 8 ?len @ sd_payload s @ ?sum"
    "o6 \<le> length p"
    using enc few r5(2,3) unfolding snapshot_encodable_def by (metis Snapshot_DecodeMembers_rest)
  obtain o7 where r7: "Snapshot_DecodeMembers p o6 = Inr (mv_learners ?mv, o7)"
    "drop o7 p = put_le 8 ?len @ sd_payload s @ ?sum" "o7 \<le> length p"
    using enc few r6(2,3) unfolding snapshot_encodable_def by (metis Snapshot_DecodeMembers_rest)
  note r8 = su64.read_rest [OF TrueI r7(2,3)]
  define o8 where "o8 = o7 + length (put_le 8 ?len)"
  have d8: "drop o8 p = sd_payload s @ ?sum" "o8 \<le> length p"
    using r8(2,3) by (simp_all add: o8_def)
  have len: "unat ?len = length (sd_payload s)" "length (sd_payload s) \<le> kMaxSnapshotPayloadLength"
    using enc by (auto simp: snapshot_encodable_def intro!: unat_u64_of_small)
  have total: "length p = o8 + length (sd_payload s) + 8"
    using arg_cong [OF d8(1), of length] d8(2) by simp
  have "drop (o8 + length (sd_payload s)) p = drop (length (sd_payload s)) (drop o8 p)"
    by (simp only: drop_drop add.commute)
  then have d9: "drop (o8 + length (sd_payload s)) p = ?sum @ []" by (simp add: d8(1))
  have l9: "o8 + length (sd_payload s) \<le> length p" by (simp add: total)
  note r9 = su64.read_rest(1) [OF TrueI d9 l9]
  have body: "take (length p - 8) p = snapshot_body s" by (simp add: p_def)
  have payload: "take (length (sd_payload s)) (drop o8 p) = sd_payload s" by (simp add: d8(1))
  have "p \<noteq> []" using total by auto
  moreover have "\<not> (length p < o8 \<or> length p - o8 < length (sd_payload s))"
    "size_sub (length p) (o8 + length (sd_payload s)) = 8"
    using total by simp_all
  moreover have "\<not> 1 < ?flag" "(?flag = 1) = mv_has_active_transition ?mv" by simp_all
  moreover have "\<lparr>sd_metadata = \<lparr>sm_last_included_index = sm_last_included_index ?md,
        sm_last_included_term = sm_last_included_term ?md,
        sm_membership = MembershipView_default\<lparr>mv_configuration_id := mv_configuration_id ?mv,
          mv_has_active_transition := mv_has_active_transition ?mv,
          mv_voters := mv_voters ?mv, mv_learners := mv_learners ?mv\<rparr>\<rparr>,
      sd_payload = sd_payload s\<rparr> = forget_targets s"
    by (simp add: forget_targets_def MembershipView_default_def)
  ultimately have "DecodeSnapshotData p out = Inr (forget_targets s)"
    using enc len(2) unfolding DecodeSnapshotData_def start_def [symmetric]
    by (simp only: r1(1) r2(1) r3(1) r4(1) r5(1) r6(1) r7(1) r8(1) o8_def [symmetric] r9 len(1) body
        payload and_then.simps prod.case Let_def require_out_simps simp_thms if_True if_False
        snapshot_encodable_def not_less)
      simp
  then show ?thesis by (simp add: p_def)
qed

text \<open>A file that decodes ends with the checksum of everything before it.\<close>

lemma DecodeSnapshotData_checksum:
  assumes "DecodeSnapshotData p out = Inr s"
  shows "8 \<le> length p" "Compute (take (length p - 8) p) = get_le 8 p (length p - 8)"
proof -
  obtain o8 n checksum o10 where r: "o8 \<le> length p" "n \<le> length p - o8"
    "size_sub (length p) (o8 + n) = 8" "Snapshot_ReadU64 p (o8 + n) = Inr (checksum, o10)"
    "Compute (take (length p - 8) p) = checksum"
    using assms
    by (auto simp: DecodeSnapshotData_def and_then_Inr_iff Let_def not_less split: if_splits)
  from r(1-3) have total: "length p = o8 + n + 8" by simp
  then show "8 \<le> length p" by simp
  have "checksum = get_le 8 p (o8 + n)"
    using r(4) by (auto simp: Snapshot_ReadU64_def split: if_splits)
  moreover have "o8 + n = length p - 8" using total by simp
  ultimately show "Compute (take (length p - 8) p) = get_le 8 p (length p - 8)"
    using r(5) by simp
qed

text \<open>Every way in which decoding fails is reported as corruption.\<close>

lemma Snapshot_read_Corruption:
  "Snapshot_ReadU32 p i = Inl e \<Longrightarrow> e = Corruption"
  "Snapshot_ReadU64 p i = Inl e \<Longrightarrow> e = Corruption"
  by (auto simp: Snapshot_ReadU32_def Snapshot_ReadU64_def split: if_splits)

lemma Snapshot_DecodeMember_Corruption:
  "Snapshot_DecodeMember p i = Inl e \<Longrightarrow> e = Corruption"
  by (auto simp: Snapshot_DecodeMember_def and_then_Inl_iff dest: Snapshot_read_Corruption split: if_splits)

lemma Snapshot_read_list_Corruption:
  "read_list Snapshot_DecodeMember n p i = Inl e \<Longrightarrow> e = Corruption"
  by (induction n arbitrary: i)
    (auto simp: and_then_Inl_iff dest: Snapshot_DecodeMember_Corruption)

lemma Snapshot_DecodeMembers_Corruption:
  "Snapshot_DecodeMembers p i = Inl e \<Longrightarrow> e = Corruption"
  by (auto simp: Snapshot_DecodeMembers_def and_then_Inl_iff
      dest: Snapshot_read_Corruption Snapshot_read_list_Corruption split: if_splits)

lemma DecodeSnapshotData_Corruption:
  "DecodeSnapshotData p out = Inl e \<Longrightarrow> e = Corruption"
  by (auto simp: DecodeSnapshotData_def and_then_Inl_iff Let_def
      dest: Snapshot_read_Corruption Snapshot_DecodeMembers_Corruption split: if_splits)

text \<open>
  A changed byte cannot be compensated: in the body it changes the computed checksum, in the
  last eight bytes the recorded one.
\<close>

lemma get_le_byte_change:
  fixes p :: bytes
  assumes "k < n" "offset + n \<le> length p" "b \<noteq> p ! (offset + k)" "8 * n \<le> LENGTH('a)"
  shows "(get_le n (p[offset + k := b]) offset :: 'a::len word) \<noteq> get_le n p offset"
proof
  assume eq: "(get_le n (p[offset + k := b]) offset :: 'a word) = get_le n p offset"
  have "bit b j = bit (p ! (offset + k)) j" if "j < 8" for j
  proof -
    have j: "(8 * k + j) div 8 = k" "(8 * k + j) mod 8 = j" "8 * k + j < LENGTH('a)"
      using that assms by (simp_all add: div_add1_eq)
    have "bit (get_le n (p[offset + k := b]) offset :: 'a word) (8 * k + j) = bit b j"
      "bit (get_le n p offset :: 'a word) (8 * k + j) = bit (p ! (offset + k)) j"
      using assms j by (simp_all add: bit_get_le)
    with eq show ?thesis by simp
  qed
  then have "b = p ! (offset + k)" by (intro bit_word_eqI) simp
  with assms(3) show False ..
qed

lemma DecodeSnapshotData_byte_change:
  assumes sum: "8 \<le> length p" "Compute (take (length p - 8) p) = get_le 8 p (length p - 8)"
    and i: "i < length p" and b: "b \<noteq> p ! i"
  shows "DecodeSnapshotData (p[i := b]) out = Inl Corruption"
proof (cases "DecodeSnapshotData (p[i := b]) out")
  case (Inl e)
  then show ?thesis using DecodeSnapshotData_Corruption by blast
next
  case (Inr s)
  let ?m = "length p - 8"
  have eq: "Compute (take ?m (p[i := b])) = get_le 8 (p[i := b]) ?m"
    using DecodeSnapshotData_checksum(2) [OF Inr] by simp
  show ?thesis
  proof (cases "i < ?m")
    case True
    then have body: "take ?m (p[i := b]) = take i (take ?m p) @ b # drop (Suc i) (take ?m p)"
      "take ?m p = take i (take ?m p) @ (p ! i) # drop (Suc i) (take ?m p)"
      using id_take_nth_drop [of i "take ?m p"] upd_conv_take_nth_drop [of i "take ?m p" b]
      by (simp_all add: take_update_swap)
    have "(get_le 8 (p[i := b]) ?m :: u64) = get_le 8 p ?m"
      using True by (intro bit_word_eqI) (simp add: bit_get_le)
    with eq sum(2) have "Compute (take ?m (p[i := b])) = Compute (take ?m p)" by simp
    then have "Compute_loop (Compute_loop kFnvOffsetBasis (take i (take ?m p))) (b # drop (Suc i) (take ?m p)) =
        Compute_loop (Compute_loop kFnvOffsetBasis (take i (take ?m p))) ((p ! i) # drop (Suc i) (take ?m p))"
      unfolding Compute_def using body by (metis Compute_loop_append)
    then show ?thesis using b Compute_byte_change by blast
  next
    case False
    then obtain k where k: "i = ?m + k" "k < 8"
      using i sum(1) that [of "i - ?m"] by linarith
    have "take ?m (p[i := b]) = take ?m p" using False by simp
    with eq sum(2) have "(get_le 8 (p[i := b]) ?m :: u64) = get_le 8 p ?m" by simp
    moreover have "(get_le 8 (p[i := b]) ?m :: u64) \<noteq> get_le 8 p ?m"
      unfolding k(1) using k b sum(1) by (intro get_le_byte_change) simp_all
    ultimately show ?thesis by blast
  qed
qed

section \<open>Properties\<close>

text \<open>
  Every snapshot the encoder accepts, with at most ten thousand members in each list,
  decodes to what was encoded, payload and metadata included, except that the target sets of
  a joint transition are lost.
\<close>

theorem snapshot_roundtrip:
  assumes "EncodeSnapshotData s out = Inr bytes"
    and "length (mv_voters (sm_membership (sd_metadata s))) \<le> kMaxMembers"
    and "length (mv_learners (sm_membership (sd_metadata s))) \<le> kMaxMembers"
  shows "DecodeSnapshotData bytes out = Inr (forget_targets s)"
  using assms DecodeSnapshotData_body [of s]
  by (simp add: EncodeSnapshotData_eq split: if_splits)

definition example_snapshot :: SnapshotData where
  "example_snapshot =
     \<lparr>sd_metadata =
        \<lparr>sm_last_included_index = 3, sm_last_included_term = 2,
         sm_membership = MembershipView_default
           \<lparr>mv_configuration_id := 7, mv_voters := [example_member 1, example_member 2],
            mv_has_active_transition := True,
            mv_next_voters := [example_member 1, example_member 2, example_member 3]\<rparr>\<rparr>,
      sd_payload = [1, 2, 3]\<rparr>"

lemma example_snapshot_encodable: "snapshot_encodable example_snapshot"
  by (simp add: snapshot_encodable_def example_snapshot_def snapshot_members_encodable_def
      snapshot_member_encodable_def example_member_def kMaxSnapshotPayloadLength_def
      kMaxHostLength_def MembershipView_default_def)

theorem snapshot_roundtrip_witness:
  "\<exists>bytes. EncodeSnapshotData example_snapshot out = Inr bytes \<and>
     DecodeSnapshotData bytes out = Inr (forget_targets example_snapshot)"
proof -
  obtain bytes where b: "EncodeSnapshotData example_snapshot out = Inr bytes"
    by (simp add: EncodeSnapshotData_eq example_snapshot_encodable)
  have "DecodeSnapshotData bytes out = Inr (forget_targets example_snapshot)"
    by (rule snapshot_roundtrip [OF b])
      (simp_all add: example_snapshot_def kMaxMembers_def MembershipView_default_def)
  with b show ?thesis by blast
qed

text \<open>
  C29. Changing any one byte of an encoded snapshot, in the header, the members, the payload or
  the checksum itself, makes it undecodable: the decoder answers Corruption.
\<close>

theorem snapshot_byte_change_detected:
  assumes "EncodeSnapshotData s out = Inr bytes" and "i < length bytes" and "b \<noteq> bytes ! i"
  shows "DecodeSnapshotData (bytes[i := b]) out = Inl Corruption"
proof -
  have bytes: "bytes = snapshot_body s @ put_le 8 (Compute (snapshot_body s))"
    using assms(1) by (auto simp: EncodeSnapshotData_eq split: if_splits)
  have "8 \<le> length bytes" "take (length bytes - 8) bytes = snapshot_body s" by (simp_all add: bytes)
  moreover have "get_le 8 bytes (length bytes - 8) = Compute (snapshot_body s)"
    using get_put_le [of 8 "snapshot_body s" "Compute (snapshot_body s)" "[]"] by (simp add: bytes)
  ultimately show ?thesis
    using DecodeSnapshotData_byte_change [of bytes i b] assms(2,3) by simp
qed

theorem snapshot_byte_change_detected_witness:
  "\<exists>bytes. EncodeSnapshotData example_snapshot out = Inr bytes \<and>
     DecodeSnapshotData (bytes[0 := bytes ! 0 + 1]) out = Inl Corruption"
proof -
  obtain bytes where b: "EncodeSnapshotData example_snapshot out = Inr bytes"
    by (simp add: EncodeSnapshotData_eq example_snapshot_encodable)
  then have "length bytes = length (snapshot_body example_snapshot) + 8"
    by (auto simp: EncodeSnapshotData_eq example_snapshot_encodable)
  then have "0 < length bytes" by simp
  then have "DecodeSnapshotData (bytes[0 := bytes ! 0 + 1]) out = Inl Corruption"
    by (rule snapshot_byte_change_detected [OF b]) simp
  with b show ?thesis by blast
qed

text \<open>
  A snapshot taken during a joint transition cannot be used: the encoder accepts it, the
  decoded membership still says that a transition is active but has no target voters, and
  \<open>FromView\<close> refuses it.
\<close>

theorem snapshot_loses_transition:
  assumes "EncodeSnapshotData s out = Inr bytes"
    and "length (mv_voters (sm_membership (sd_metadata s))) \<le> kMaxMembers"
    and "length (mv_learners (sm_membership (sd_metadata s))) \<le> kMaxMembers"
    and "mv_has_active_transition (sm_membership (sd_metadata s))"
    and "DecodeSnapshotData bytes out = Inr s'"
  shows "mv_has_active_transition (sm_membership (sd_metadata s')) \<and>
    FromView (sm_membership (sd_metadata s')) out = Inl InvalidArgument"
proof -
  have "s' = forget_targets s"
    using assms(1,2,3,5) DecodeSnapshotData_body [of s]
    by (simp add: EncodeSnapshotData_eq split: if_splits)
  then show ?thesis using assms(4) by (simp add: forget_targets_def FromView_eq view_wf_def)
qed

theorem snapshot_loses_transition_witness:
  "\<exists>bytes s'. EncodeSnapshotData example_snapshot out = Inr bytes \<and>
     DecodeSnapshotData bytes out = Inr s' \<and>
     mv_has_active_transition (sm_membership (sd_metadata s')) \<and>
     FromView (sm_membership (sd_metadata example_snapshot)) out \<noteq> Inl InvalidArgument \<and>
     FromView (sm_membership (sd_metadata s')) out = Inl InvalidArgument"
proof -
  let ?bytes = "snapshot_body example_snapshot @ put_le 8 (Compute (snapshot_body example_snapshot))"
  have b: "EncodeSnapshotData example_snapshot out = Inr ?bytes"
    by (simp add: EncodeSnapshotData_eq example_snapshot_encodable)
  have few: "length (mv_voters (sm_membership (sd_metadata example_snapshot))) \<le> kMaxMembers"
    "length (mv_learners (sm_membership (sd_metadata example_snapshot))) \<le> kMaxMembers"
    by (simp_all add: example_snapshot_def kMaxMembers_def MembershipView_default_def)
  have d: "DecodeSnapshotData ?bytes out = Inr (forget_targets example_snapshot)"
    by (rule DecodeSnapshotData_body [OF example_snapshot_encodable few])
  have act: "mv_has_active_transition (sm_membership (sd_metadata example_snapshot))"
    by (simp add: example_snapshot_def)
  have "FromView (sm_membership (sd_metadata example_snapshot)) out \<noteq> Inl InvalidArgument"
    by (simp add: FromView_eq example_snapshot_def view_wf_def members_wf_def node_ids_def
        MembershipView_default_def example_member_def)
  then show ?thesis using b d snapshot_loses_transition [OF b few act d] by blast
qed

end
