(* ===== verification/Raft_Core.thy ===== *)
theory Raft_Core
  imports Std_Map Raft_Log Membership_Codec
begin

text \<open>
  \<open>raft/raft_core.h\<close> and \<open>raft/raft_core.cpp\<close>: the deterministic state machine of one Raft
  node. Every member function is a function of the object \<open>RaftCore\<close>, the record of its
  fields: a mutating one returns its status, or its status or result, with the new object,
  because the source may change fields before it returns an error. \<open>peer_progress_\<close> is the
  ordered map of \<open>Std_Map\<close>; a pointer to one of its elements becomes a lookup and a
  \<open>map_set\<close> of the changed element.
\<close>

section \<open>Types\<close>

record PendingMessage =
  pm_message :: RaftMessage
  pm_require_hard_state :: bool
  pm_required_stable_index :: LogIndex

record Options =
  opt_node_id :: NodeId
  opt_initial_role :: RaftRole
  opt_election_timeout_ticks :: u64
  opt_hard_state :: HardState
  opt_voter_ids :: "NodeId list"
  opt_learner_ids :: "NodeId list"
  opt_membership :: "MembershipView option"

record ApplyRange =
  ar_begin :: LogIndex
  ar_end :: LogIndex

record PersistenceRequirement =
  pr_has_hard_state :: bool
  pr_hard_state :: HardState
  pr_first_log_index :: LogIndex
  pr_last_log_index :: LogIndex

record PersistenceConfirmation =
  pc_status :: Status
  pc_hard_state_persisted :: bool
  pc_stable_index :: LogIndex
  pc_max_stable_index :: LogIndex

record RaftOutput =
  ro_has_hard_state :: bool
  ro_hard_state :: HardState
  ro_unstable_entries :: "LogEntry list"
  ro_persistence :: PersistenceRequirement
  ro_immediate_messages :: "RaftMessage list"
  ro_persisted_messages :: "RaftMessage list"
  ro_committed_range :: ApplyRange
  ro_role :: RaftRole
  ro_term :: Term
  ro_leader_id :: NodeId

datatype TickAction = Tick_NONE | START_ELECTION

datatype VoteResponseAction = Vote_NONE | RECORDED_GRANT | RECORDED_REJECTION | Vote_STEPPED_DOWN

datatype AppendResponseAction = Append_NONE | ACCEPTED | REJECTED | Append_STEPPED_DOWN

datatype ReplicationMode = APPEND_ENTRIES | INSTALL_SNAPSHOT

record LearnerState =
  ls_healthy :: bool
  ls_caught_up :: bool
  ls_requires_snapshot :: bool
  ls_match_index :: LogIndex
  ls_next_index :: LogIndex
  ls_leader_commit :: LogIndex

record RaftCore =
  rc_node_id :: NodeId
  rc_role :: RaftRole
  rc_leader_id :: NodeId
  rc_logical_ticks :: u64
  rc_election_elapsed_ticks :: u64
  rc_election_timeout_ticks :: u64
  rc_hard_state :: HardState
  rc_log :: RaftLog
  rc_voter_ids :: "NodeId list"
  rc_learner_ids :: "NodeId list"
  rc_membership_state :: MembershipState
  rc_peer_progress :: "(NodeId, PeerProgress) std_map"
  rc_persisted_hard_state :: HardState
  rc_immediate_messages :: "RaftMessage list"
  rc_persisted_messages :: "PendingMessage list"
  rc_initialized :: bool

definition RaftCore_new :: RaftCore where
  "RaftCore_new =
     \<lparr>rc_node_id = kInvalidNodeId, rc_role = FOLLOWER, rc_leader_id = kInvalidNodeId,
      rc_logical_ticks = 0, rc_election_elapsed_ticks = 0, rc_election_timeout_ticks = 0,
      rc_hard_state = HardState_default, rc_log = RaftLog_new, rc_voter_ids = [],
      rc_learner_ids = [], rc_membership_state = MembershipState_new, rc_peer_progress = [],
      rc_persisted_hard_state = HardState_default, rc_immediate_messages = [],
      rc_persisted_messages = [], rc_initialized = False\<rparr>"

section \<open>Sequencing\<close>

text \<open>\<open>status = f(); if (!status.ok()) return status;\<close> for functions that change the object.\<close>

fun then_do :: "Status \<times> 's \<Rightarrow> ('s \<Rightarrow> Status \<times> 's) \<Rightarrow> Status \<times> 's" where
  "then_do (status, s) f = (if ok status then f s else (status, s))"

fun then_get :: "Status \<times> 's \<Rightarrow> ('s \<Rightarrow> (Status + 'a) \<times> 's) \<Rightarrow> (Status + 'a) \<times> 's" where
  "then_get (status, s) f = (if ok status then f s else (Inl status, s))"

definition require_core :: "RaftCore \<Rightarrow> out_ptr \<Rightarrow> Status" where
  "require_core c p = (if \<not> rc_initialized c then InvalidArgument else require_out p)"

section \<open>Helpers\<close>

definition ContainsNode :: "NodeId list \<Rightarrow> NodeId \<Rightarrow> bool" where
  "ContainsNode nodes node_id \<longleftrightarrow> node_id \<in> set nodes"

definition MemberIds :: "RaftMember list \<Rightarrow> NodeId list" where
  "MemberIds members = sort (map mb_node_id members)"

definition SortedNodeIds :: "NodeId list \<Rightarrow> NodeId list" where
  "SortedNodeIds ids = sort ids"

definition SameHardState :: "HardState \<Rightarrow> HardState \<Rightarrow> bool" where
  "SameHardState lhs rhs \<longleftrightarrow>
     hs_current_term lhs = hs_current_term rhs \<and>
     hs_voted_for lhs = hs_voted_for rhs \<and>
     hs_commit_index lhs = hs_commit_index rhs \<and>
     hs_membership_configuration_id lhs = hs_membership_configuration_id rhs"

definition ResetVoteResponse :: "Term \<Rightarrow> RequestVoteResponse" where
  "ResetVoteResponse term =
     \<lparr>rvr_term = term, rvr_vote_granted = False, rvr_reject_reason = Reject_NONE\<rparr>"

definition ResetAppendResponse :: "Term \<Rightarrow> AppendEntriesResponse" where
  "ResetAppendResponse term =
     \<lparr>aer_term = term, aer_success = False, aer_match_index = kInvalidLogIndex,
      aer_conflict_index = kInvalidLogIndex, aer_conflict_term = kInitialTerm\<rparr>"

definition current_term :: "RaftCore \<Rightarrow> Term" where
  "current_term c = hs_current_term (rc_hard_state c)"

definition voted_for :: "RaftCore \<Rightarrow> NodeId" where
  "voted_for c = hs_voted_for (rc_hard_state c)"

definition HasDirtyHardState :: "RaftCore \<Rightarrow> bool" where
  "HasDirtyHardState c \<longleftrightarrow> \<not> SameHardState (rc_hard_state c) (rc_persisted_hard_state c)"

definition HardStateChanged :: "RaftCore \<Rightarrow> bool" where
  "HardStateChanged c = HasDirtyHardState c"

definition ResetElectionTicks :: "RaftCore \<Rightarrow> RaftCore" where
  "ResetElectionTicks c = c\<lparr>rc_election_elapsed_ticks := 0\<rparr>"

section \<open>Peer progress\<close>

definition FindPeerProgress :: "RaftCore \<Rightarrow> NodeId \<Rightarrow> Status + PeerProgress" where
  "FindPeerProgress c target_node_id =
     (case map_find (rc_peer_progress c) target_node_id of
        None \<Rightarrow> Inl NotFound
      | Some progress \<Rightarrow> Inr progress)"

definition put_progress :: "NodeId \<Rightarrow> PeerProgress \<Rightarrow> RaftCore \<Rightarrow> RaftCore" where
  "put_progress n progress c = c\<lparr>rc_peer_progress := map_set n progress (rc_peer_progress c)\<rparr>"

definition SyncLocalPeerProgress :: "RaftCore \<Rightarrow> Status \<times> RaftCore" where
  "SyncLocalPeerProgress c =
     (case FindPeerProgress c (rc_node_id c) of
        Inl status \<Rightarrow> (if status = NotFound then (OK, c) else (status, c))
      | Inr progress \<Rightarrow>
          (OK, put_progress (rc_node_id c)
                 (progress\<lparr>pp_is_active := True, pp_match_index := last_index (rc_log c),
                           pp_next_index := last_index (rc_log c) + 1\<rparr>) c))"

definition fresh_progress :: "RaftCore \<Rightarrow> bool \<Rightarrow> bool \<Rightarrow> NodeId \<Rightarrow> PeerProgress" where
  "fresh_progress c learner active node_id =
     \<lparr>pp_node_id = node_id, pp_is_learner = learner, pp_is_active = active,
      pp_match_index = (if active then last_index (rc_log c) else kInvalidLogIndex),
      pp_next_index = last_index (rc_log c) + 1\<rparr>"

definition ResetPeerProgress :: "RaftCore \<Rightarrow> Status \<times> RaftCore" where
  "ResetPeerProgress c =
     (let voters = fold (\<lambda>n. map_emplace n (fresh_progress c False (n = rc_node_id c) n))
                     (rc_voter_ids c) [];
          members = fold (\<lambda>n. map_emplace n (fresh_progress c True (n = rc_node_id c) n))
                     (rc_learner_ids c) voters
      in SyncLocalPeerProgress (c\<lparr>rc_peer_progress := members\<rparr>))"

text \<open>
  The two loops and the erasing pass that \<open>ApplyCommittedMembershipEntry\<close> and
  \<open>UpdatePeerProgressForMembership\<close> contain word for word.
\<close>

definition ensure_voter :: "RaftCore \<Rightarrow> NodeId \<Rightarrow> (NodeId, PeerProgress) std_map \<Rightarrow> (NodeId, PeerProgress) std_map" where
  "ensure_voter c n m =
     (case map_find m n of
        None \<Rightarrow> map_emplace n (fresh_progress c False (n = rc_node_id c) n) m
      | Some progress \<Rightarrow> map_set n (progress\<lparr>pp_is_learner := False\<rparr>) m)"

definition ensure_learner :: "RaftCore \<Rightarrow> NodeId \<Rightarrow> (NodeId, PeerProgress) std_map \<Rightarrow> (NodeId, PeerProgress) std_map" where
  "ensure_learner c n m =
     (case map_find m n of
        None \<Rightarrow> map_emplace n (fresh_progress c True False n) m
      | Some progress \<Rightarrow> map_set n (progress\<lparr>pp_is_learner := True\<rparr>) m)"

definition member_progress ::
  "RaftCore \<Rightarrow> NodeId list \<Rightarrow> NodeId list \<Rightarrow> (NodeId, PeerProgress) std_map" where
  "member_progress c voters learners =
     map_erase_if (\<lambda>n. \<not> ContainsNode voters n \<and> \<not> ContainsNode learners n)
       (fold (ensure_learner c) learners (fold (ensure_voter c) voters (rc_peer_progress c)))"

definition UpdatePeerProgressForMembership :: "RaftCore \<Rightarrow> Status \<times> RaftCore" where
  "UpdatePeerProgressForMembership c =
     (if rc_peer_progress c = [] then ResetPeerProgress c
      else SyncLocalPeerProgress
             (c\<lparr>rc_peer_progress := member_progress c (rc_voter_ids c) (rc_learner_ids c)\<rparr>))"

section \<open>Membership vectors\<close>

definition push_new :: "NodeId \<Rightarrow> NodeId list \<Rightarrow> NodeId list" where
  "push_new n ids = (if ContainsNode ids n then ids else ids @ [n])"

definition TransitionVoterIds :: "MembershipState \<Rightarrow> NodeId list" where
  "TransitionVoterIds m =
     (let voters = MemberIds (ms_voters m)
      in if \<not> ms_has_active_transition m then voters
         else sort (fold push_new (MemberIds (ms_next_voters m)) voters))"

definition TransitionLearnerIds :: "MembershipState \<Rightarrow> NodeId list" where
  "TransitionLearnerIds m =
     (let learners = MemberIds (ms_learners m)
      in if \<not> ms_has_active_transition m then learners
         else let kept = fold (\<lambda>n. filter (\<lambda>x. x \<noteq> n)) (MemberIds (ms_next_voters m)) learners
              in sort (fold push_new (MemberIds (ms_next_learners m)) kept))"

definition SyncMembershipVectorsFromState :: "RaftCore \<Rightarrow> Status \<times> RaftCore" where
  "SyncMembershipVectorsFromState c =
     (if MembershipState_empty (rc_membership_state c) then (OK, c)
      else (OK, c\<lparr>rc_voter_ids := TransitionVoterIds (rc_membership_state c),
                  rc_learner_ids := TransitionLearnerIds (rc_membership_state c)\<rparr>))"

definition InitializeMembershipState :: "RaftCore \<Rightarrow> Options \<Rightarrow> Status \<times> RaftCore" where
  "InitializeMembershipState c options =
     (let c0 = c\<lparr>rc_membership_state := MembershipState_new\<rparr>
      in case opt_membership options of
           None \<Rightarrow> (OK, c0)
         | Some view \<Rightarrow>
             (case FromView view out of
                Inl status \<Rightarrow> (status, c0)
              | Inr m \<Rightarrow>
                  SyncMembershipVectorsFromState
                    (c0\<lparr>rc_membership_state := m,
                        rc_hard_state := (rc_hard_state c0)
                          \<lparr>hs_membership_configuration_id := ms_configuration_id m\<rparr>\<rparr>)))"

section \<open>Initialization\<close>

fun insert_ids :: "NodeId set \<Rightarrow> NodeId list \<Rightarrow> Status + NodeId set" where
  "insert_ids seen [] = Inr seen"
| "insert_ids seen (n # ns) =
     (if n = kInvalidNodeId then Inl InvalidArgument
      else if n \<in> seen then Inl InvalidArgument
      else insert_ids (insert n seen) ns)"

definition ValidateOptions :: "Options \<Rightarrow> Status" where
  "ValidateOptions options =
     (let node_id = opt_node_id options;
          is_voter = ContainsNode (opt_voter_ids options) node_id;
          is_learner = ContainsNode (opt_learner_ids options) node_id
      in if node_id = kInvalidNodeId then InvalidArgument
         else if opt_election_timeout_ticks options = 0 then InvalidArgument
         else if opt_voter_ids options = [] then InvalidArgument
         else (case and_then (insert_ids {} (opt_voter_ids options))
                      (\<lambda>seen. insert_ids seen (opt_learner_ids options)) of
                 Inl status \<Rightarrow> status
               | Inr _ \<Rightarrow>
                   if \<not> is_voter \<and> \<not> is_learner then InvalidArgument
                   else if is_learner \<and> opt_initial_role options \<noteq> LEARNER then InvalidArgument
                   else if is_voter \<and> opt_initial_role options = LEARNER then InvalidArgument
                   else if opt_initial_role options = LEADER \<and> \<not> is_voter then InvalidArgument
                   else if opt_initial_role options = LEARNER \<and>
                           hs_voted_for (opt_hard_state options) = node_id then InvalidArgument
                   else (case opt_membership options of
                           None \<Rightarrow> OK
                         | Some view \<Rightarrow>
                             (case FromView view out of
                                Inl status \<Rightarrow> status
                              | Inr m \<Rightarrow>
                                  if SortedNodeIds (opt_voter_ids options) \<noteq> MemberIds (ms_voters m)
                                    then InvalidArgument
                                  else if SortedNodeIds (opt_learner_ids options) \<noteq> MemberIds (ms_learners m)
                                    then InvalidArgument
                                  else OK))))"

definition Initialize :: "RaftCore \<Rightarrow> Options \<Rightarrow> Status \<times> RaftCore" where
  "Initialize c options =
     (if \<not> ok (ValidateOptions options) then (ValidateOptions options, c)
      else let c1 = c\<lparr>rc_node_id := opt_node_id options,
                      rc_role := opt_initial_role options,
                      rc_leader_id := (if opt_initial_role options = LEADER then opt_node_id options
                                       else kInvalidNodeId),
                      rc_logical_ticks := 0,
                      rc_election_elapsed_ticks := 0,
                      rc_election_timeout_ticks := opt_election_timeout_ticks options,
                      rc_hard_state := (opt_hard_state options)
                        \<lparr>hs_commit_index := lg_commit_index RaftLog_new\<rparr>,
                      rc_log := RaftLog_new,
                      rc_voter_ids := opt_voter_ids options,
                      rc_learner_ids := opt_learner_ids options,
                      rc_membership_state := MembershipState_new,
                      rc_immediate_messages := [],
                      rc_persisted_messages := [],
                      rc_initialized := True\<rparr>
           in (case InitializeMembershipState c1 options of
                 (status, c2) \<Rightarrow>
                   if \<not> ok status then (status, c2\<lparr>rc_initialized := False\<rparr>)
                   else (case ResetPeerProgress (c2\<lparr>rc_persisted_hard_state := rc_hard_state c2\<rparr>) of
                           (status, c3) \<Rightarrow>
                             if \<not> ok status then (status, c3\<lparr>rc_initialized := False\<rparr>)
                             else (OK, c3))))"

section \<open>Terms and roles\<close>

definition ValidateTransitionTerm :: "RaftCore \<Rightarrow> Term \<Rightarrow> Status" where
  "ValidateTransitionTerm c term =
     (if \<not> rc_initialized c then InvalidArgument
      else if term < current_term c then InvalidArgument
      else OK)"

definition UpdateCurrentTerm :: "RaftCore \<Rightarrow> Term \<Rightarrow> Status \<times> RaftCore" where
  "UpdateCurrentTerm c term =
     (let status = ValidateTransitionTerm c term
      in if \<not> ok status then (status, c)
         else if current_term c < term
           then (OK, c\<lparr>rc_hard_state := (rc_hard_state c)
                   \<lparr>hs_current_term := term, hs_voted_for := kInvalidNodeId\<rparr>\<rparr>)
         else (OK, c))"

definition BecomeFollowerForRemote :: "RaftCore \<Rightarrow> Term \<Rightarrow> NodeId \<Rightarrow> Status \<times> RaftCore" where
  "BecomeFollowerForRemote c term leader_id =
     then_do (UpdateCurrentTerm c term) (\<lambda>c1.
       let c2 = (if rc_role c1 \<noteq> LEARNER then c1\<lparr>rc_role := FOLLOWER\<rparr> else c1)
       in (OK, ResetElectionTicks (c2\<lparr>rc_leader_id := leader_id\<rparr>)))"

definition BecomeFollower :: "RaftCore \<Rightarrow> Term \<Rightarrow> NodeId \<Rightarrow> Status \<times> RaftCore" where
  "BecomeFollower c term leader_id =
     (let status = ValidateTransitionTerm c term
      in if \<not> ok status then (status, c)
         else if rc_role c = LEARNER then (InvalidArgument, c)
         else BecomeFollowerForRemote c term leader_id)"

definition StartElection :: "RaftCore \<Rightarrow> Status \<times> RaftCore" where
  "StartElection c =
     (if \<not> rc_initialized c then (InvalidArgument, c)
      else if rc_role c = LEADER then (InvalidArgument, c)
      else if rc_role c = LEARNER then (InvalidArgument, c)
      else (OK, ResetElectionTicks
                  (c\<lparr>rc_hard_state := (rc_hard_state c)
                       \<lparr>hs_current_term := current_term c + 1, hs_voted_for := rc_node_id c\<rparr>,
                     rc_role := CANDIDATE,
                     rc_leader_id := kInvalidNodeId\<rparr>)))"

definition BecomeLeader :: "RaftCore \<Rightarrow> Status \<times> RaftCore" where
  "BecomeLeader c =
     (if \<not> rc_initialized c then (InvalidArgument, c)
      else if rc_role c = LEARNER then (InvalidArgument, c)
      else if rc_role c \<noteq> CANDIDATE then (InvalidArgument, c)
      else ResetPeerProgress
             (ResetElectionTicks (c\<lparr>rc_role := LEADER, rc_leader_id := rc_node_id c\<rparr>)))"

definition Tick :: "RaftCore \<Rightarrow> out_ptr \<Rightarrow> (Status + TickAction) \<times> RaftCore" where
  "Tick c action =
     (if \<not> ok (require_core c action) then (Inl (require_core c action), c)
      else let c1 = c\<lparr>rc_logical_ticks := rc_logical_ticks c + 1\<rparr>
           in if rc_role c1 = LEADER \<or> rc_role c1 = LEARNER then (Inr Tick_NONE, c1)
              else let c2 = c1\<lparr>rc_election_elapsed_ticks := rc_election_elapsed_ticks c1 + 1\<rparr>
                   in if rc_election_elapsed_ticks c2 < rc_election_timeout_ticks c2
                      then (Inr Tick_NONE, c2)
                      else then_get (StartElection c2) (\<lambda>c3. (Inr START_ELECTION, c3)))"

definition UpdateElectionTimeout :: "RaftCore \<Rightarrow> u64 \<Rightarrow> Status \<times> RaftCore" where
  "UpdateElectionTimeout c ticks =
     (if ticks = 0 then (InvalidArgument, c)
      else (OK, c\<lparr>rc_election_timeout_ticks := ticks\<rparr>))"

section \<open>Staging of messages behind persistence\<close>

definition StageMessage :: "RaftCore \<Rightarrow> RaftMessage \<Rightarrow> bool \<Rightarrow> LogIndex \<Rightarrow> Status \<times> RaftCore" where
  "StageMessage c message require_hard_state required_stable_index =
     (let has_log_dependency = lg_stable_index (rc_log c) < required_stable_index;
          has_hard_state_dependency = (require_hard_state \<and> HasDirtyHardState c);
          same = (\<lambda>m. msg_type m = msg_type message \<and> msg_target_node_id m = msg_target_node_id message);
          c1 = c\<lparr>rc_immediate_messages := filter (\<lambda>m. \<not> same m) (rc_immediate_messages c),
                 rc_persisted_messages :=
                   filter (\<lambda>p. \<not> same (pm_message p)) (rc_persisted_messages c)\<rparr>
      in if has_hard_state_dependency \<or> has_log_dependency
         then (OK, c1\<lparr>rc_persisted_messages := rc_persisted_messages c1 @
                 [\<lparr>pm_message = message, pm_require_hard_state = has_hard_state_dependency,
                   pm_required_stable_index =
                     (if has_log_dependency then required_stable_index else kInvalidLogIndex)\<rparr>]\<rparr>)
         else (OK, c1\<lparr>rc_immediate_messages := rc_immediate_messages c1 @ [message]\<rparr>))"

definition pending_ready :: "RaftCore \<Rightarrow> PendingMessage \<Rightarrow> bool" where
  "pending_ready c pending \<longleftrightarrow>
     (\<not> pm_require_hard_state pending \<or> \<not> HasDirtyHardState c) \<and>
     (pm_required_stable_index pending = kInvalidLogIndex \<or>
      pm_required_stable_index pending \<le> lg_stable_index (rc_log c))"

definition ReclassifyBlockedMessages :: "RaftCore \<Rightarrow> Status \<times> RaftCore" where
  "ReclassifyBlockedMessages c =
     (OK, c\<lparr>rc_immediate_messages := rc_immediate_messages c @
              map pm_message (filter (pending_ready c) (rc_persisted_messages c)),
            rc_persisted_messages := filter (\<lambda>p. \<not> pending_ready c p) (rc_persisted_messages c)\<rparr>)"

definition ConfirmPersistence :: "RaftCore \<Rightarrow> PersistenceConfirmation \<Rightarrow> Status \<times> RaftCore" where
  "ConfirmPersistence c confirmation =
     (let stable_index = pc_stable_index confirmation
      in if \<not> rc_initialized c then (InvalidArgument, c)
         else if \<not> ok (pc_status confirmation) then (pc_status confirmation, c)
         else if stable_index < lg_stable_index (rc_log c) then (InvalidArgument, c)
         else if last_index (rc_log c) < stable_index then (InvalidArgument, c)
         else if pc_max_stable_index confirmation \<noteq> kInvalidLogIndex \<and>
                 pc_max_stable_index confirmation < stable_index then (InvalidArgument, c)
         else let c1 = (if pc_hard_state_persisted confirmation
                        then c\<lparr>rc_persisted_hard_state := rc_hard_state c\<rparr> else c)
              in then_do (if lg_stable_index (rc_log c1) < stable_index
                          then (case AdvanceStableTo (rc_log c1) stable_index of
                                  (status, l) \<Rightarrow> (status, c1\<lparr>rc_log := l\<rparr>))
                          else (OK, c1))
                   ReclassifyBlockedMessages)"

definition ConfirmPersistence_stable :: "RaftCore \<Rightarrow> bool \<Rightarrow> LogIndex \<Rightarrow> Status \<times> RaftCore" where
  "ConfirmPersistence_stable c hard_state_persisted stable_index =
     ConfirmPersistence c
       \<lparr>pc_status = OK, pc_hard_state_persisted = hard_state_persisted,
        pc_stable_index = stable_index, pc_max_stable_index = stable_index\<rparr>"

section \<open>Votes\<close>

definition GetLastLogTerm :: "RaftCore \<Rightarrow> out_ptr \<Rightarrow> Status + Term" where
  "GetLastLogTerm c term =
     (if \<not> ok (require_out term) then Inl (require_out term)
      else GetTerm (rc_log c) (last_index (rc_log c)) term)"

definition IsCandidateLogUpToDate :: "RaftCore \<Rightarrow> LogIndex \<Rightarrow> Term \<Rightarrow> bool" where
  "IsCandidateLogUpToDate c last_log_index last_log_term =
     (case GetLastLogTerm c out of
        Inl _ \<Rightarrow> False
      | Inr local_last_term \<Rightarrow>
          if last_log_term \<noteq> local_last_term then local_last_term < last_log_term
          else last_index (rc_log c) \<le> last_log_index)"

definition ValidateRequestVoteRequest :: "RaftCore \<Rightarrow> RequestVoteRequest \<Rightarrow> Status" where
  "ValidateRequestVoteRequest c request =
     (if \<not> rc_initialized c then InvalidArgument
      else if rv_candidate_id request = kInvalidNodeId then InvalidArgument
      else OK)"

text \<open>The body of \<open>HandleRequestVote\<close> between the validation and the staged reply.\<close>

definition DecideVote :: "RaftCore \<Rightarrow> RequestVoteRequest \<Rightarrow> (Status + RequestVoteResponse) \<times> RaftCore" where
  "DecideVote c request =
     (let response = ResetVoteResponse (current_term c)
      in if rc_role c = LEARNER then (Inr (response\<lparr>rvr_reject_reason := Reject_LEARNER\<rparr>), c)
         else if rv_term request < current_term c
           then (Inr (response\<lparr>rvr_reject_reason := Reject_STALE_TERM\<rparr>), c)
         else then_get (if current_term c < rv_term request
                        then BecomeFollowerForRemote c (rv_term request) kInvalidNodeId
                        else (OK, c)) (\<lambda>c1.
           let response1 = response\<lparr>rvr_term := current_term c1\<rparr>
           in if \<not> IsCandidateLogUpToDate c1 (rv_last_log_index request) (rv_last_log_term request)
                then (Inr (response1\<lparr>rvr_reject_reason := Reject_LOG_OUTDATED\<rparr>), c1)
              else if voted_for c1 \<noteq> kInvalidNodeId \<and> voted_for c1 \<noteq> rv_candidate_id request
                then (Inr (response1\<lparr>rvr_reject_reason := Reject_ALREADY_VOTED\<rparr>), c1)
              else (Inr (response1\<lparr>rvr_vote_granted := True, rvr_reject_reason := Reject_NONE\<rparr>),
                    ResetElectionTicks
                      (c1\<lparr>rc_hard_state := (rc_hard_state c1)
                         \<lparr>hs_voted_for := rv_candidate_id request\<rparr>\<rparr>))))"

definition HandleRequestVote ::
  "RaftCore \<Rightarrow> RequestVoteRequest \<Rightarrow> out_ptr \<Rightarrow> (Status + RequestVoteResponse) \<times> RaftCore" where
  "HandleRequestVote c request response_ptr =
     (if \<not> ok (require_core c response_ptr) then (Inl (require_core c response_ptr), c)
      else if \<not> ok (ValidateRequestVoteRequest c request)
        then (Inl (ValidateRequestVoteRequest c request), c)
      else (case DecideVote c request of
              (Inl status, c1) \<Rightarrow> (Inl status, c1)
            | (Inr response, c1) \<Rightarrow>
                then_get (StageMessage c1
                    \<lparr>msg_type = REQUEST_VOTE_RESPONSE, msg_source_node_id = rc_node_id c1,
                     msg_target_node_id = rv_candidate_id request,
                     msg_payload = RequestVoteResponseMsg response\<rparr>
                    (\<not> SameHardState (rc_hard_state c) (rc_hard_state c1)) kInvalidLogIndex)
                  (\<lambda>c2. (Inr response, c2))))"

definition ValidateRequestVoteResponse :: "RaftCore \<Rightarrow> NodeId \<Rightarrow> RequestVoteResponse \<Rightarrow> Status" where
  "ValidateRequestVoteResponse c source_node_id response =
     (if \<not> rc_initialized c then InvalidArgument
      else if source_node_id = kInvalidNodeId then InvalidArgument
      else if rvr_vote_granted response \<and> rvr_reject_reason response \<noteq> Reject_NONE then InvalidArgument
      else if \<not> rvr_vote_granted response \<and> rvr_reject_reason response = Reject_NONE then InvalidArgument
      else OK)"

definition HandleRequestVoteResponse ::
  "RaftCore \<Rightarrow> NodeId \<Rightarrow> RequestVoteResponse \<Rightarrow> out_ptr \<Rightarrow> (Status + VoteResponseAction) \<times> RaftCore" where
  "HandleRequestVoteResponse c source_node_id response action =
     (if \<not> ok (require_core c action) then (Inl (require_core c action), c)
      else if \<not> ok (ValidateRequestVoteResponse c source_node_id response)
        then (Inl (ValidateRequestVoteResponse c source_node_id response), c)
      else if rvr_term response < current_term c then (Inr Vote_NONE, c)
      else if current_term c < rvr_term response
        then then_get (BecomeFollowerForRemote c (rvr_term response) kInvalidNodeId)
               (\<lambda>c1. (Inr Vote_STEPPED_DOWN, c1))
      else if rc_role c \<noteq> CANDIDATE then (Inr Vote_NONE, c)
      else (Inr (if rvr_vote_granted response then RECORDED_GRANT else RECORDED_REJECTION), c))"

section \<open>The commit index\<close>

text \<open>The counting loop over \<open>voter_ids_\<close>, which returns the error of a missing peer.\<close>

fun count_matches :: "RaftCore \<Rightarrow> LogIndex \<Rightarrow> NodeId list \<Rightarrow> nat \<Rightarrow> Status + nat" where
  "count_matches c candidate [] matches = Inr matches"
| "count_matches c candidate (n # ns) matches =
     and_then (FindPeerProgress c n) (\<lambda>progress.
       count_matches c candidate ns
         (if candidate \<le> pp_match_index progress then matches + 1 else matches))"

text \<open>The lambda \<open>count_for\<close> of \<open>HasJointQuorumAt\<close>, which skips missing peers.\<close>

definition count_for :: "RaftCore \<Rightarrow> LogIndex \<Rightarrow> NodeId list \<Rightarrow> nat" where
  "count_for c index nodes =
     length (filter (\<lambda>n. case FindPeerProgress c n of
                           Inl _ \<Rightarrow> False
                         | Inr progress \<Rightarrow> index \<le> pp_match_index progress) nodes)"

definition HasJointQuorumAt :: "RaftCore \<Rightarrow> LogIndex \<Rightarrow> bool" where
  "HasJointQuorumAt c index =
     (let old_voters = MemberIds (ms_voters (rc_membership_state c));
          new_voters = MemberIds (ms_next_voters (rc_membership_state c))
      in length old_voters div 2 + 1 \<le> count_for c index old_voters \<and>
         length new_voters div 2 + 1 \<le> count_for c index new_voters)"

definition has_commit_quorum :: "RaftCore \<Rightarrow> LogIndex \<Rightarrow> Status + bool" where
  "has_commit_quorum c candidate =
     (if ms_has_active_transition (rc_membership_state c) then Inr (HasJointQuorumAt c candidate)
      else and_then (count_matches c candidate (rc_voter_ids c) 0) (\<lambda>matches.
        Inr (\<not> matches < length (rc_voter_ids c) div 2 + 1)))"

definition commit_to :: "RaftCore \<Rightarrow> LogIndex \<Rightarrow> Status \<times> RaftCore" where
  "commit_to c index =
     (case AdvanceCommitTo (rc_log c) index of
        (status, l) \<Rightarrow>
          if \<not> ok status then (status, c\<lparr>rc_log := l\<rparr>)
          else (OK, c\<lparr>rc_log := l,
                      rc_hard_state := (rc_hard_state c)\<lparr>hs_commit_index := lg_commit_index l\<rparr>\<rparr>))"

function TryAdvanceCommitIndex_loop :: "RaftCore \<Rightarrow> LogIndex \<Rightarrow> Status \<times> RaftCore" where
  "TryAdvanceCommitIndex_loop c candidate =
     (if \<not> lg_commit_index (rc_log c) < candidate then (OK, c)
      else (case GetTerm (rc_log c) candidate out of
              Inl status \<Rightarrow> (status, c)
            | Inr candidate_term \<Rightarrow>
                if candidate_term \<noteq> current_term c then TryAdvanceCommitIndex_loop c (candidate - 1)
                else (case has_commit_quorum c candidate of
                        Inl status \<Rightarrow> (status, c)
                      | Inr False \<Rightarrow> TryAdvanceCommitIndex_loop c (candidate - 1)
                      | Inr True \<Rightarrow> commit_to c candidate)))"
  by pat_completeness auto

termination
  by (relation "measure (\<lambda>(c, i). unat i)") (auto intro!: unat_dec_less simp: word_gt_0)

declare TryAdvanceCommitIndex_loop.simps [simp del]

definition TryAdvanceCommitIndex :: "RaftCore \<Rightarrow> Status \<times> RaftCore" where
  "TryAdvanceCommitIndex c = TryAdvanceCommitIndex_loop c (last_index (rc_log c))"

section \<open>Proposals\<close>

text \<open>
  Appending an entry of the leader's own term, with the two assignments to the local progress
  that follow it in \<open>Propose\<close> and \<open>AppendMembershipChangeProposal\<close>.
\<close>

definition own_entry :: "RaftCore \<Rightarrow> LogEntryType \<Rightarrow> OpaquePayload \<Rightarrow> LogEntry" where
  "own_entry c type payload =
     \<lparr>le_index = last_index (rc_log c) + 1, le_term = current_term c, le_type = type, le_payload = payload\<rparr>"

definition append_own :: "RaftCore \<Rightarrow> LogEntryType \<Rightarrow> OpaquePayload \<Rightarrow> Status \<times> RaftCore" where
  "append_own c type payload =
     (let entry = own_entry c type payload;
          index = le_index entry
      in (case Append (rc_log c) entry of
            (status, l) \<Rightarrow>
              let c1 = c\<lparr>rc_log := l\<rparr>
              in if \<not> ok status then (status, c1)
                 else (OK, case map_find (rc_peer_progress c1) (rc_node_id c1) of
                             None \<Rightarrow> c1
                           | Some progress \<Rightarrow>
                               put_progress (rc_node_id c1)
                                 (progress\<lparr>pp_match_index := index, pp_next_index := index + 1\<rparr>) c1)))"

definition Propose :: "RaftCore \<Rightarrow> OpaquePayload \<Rightarrow> Status \<times> RaftCore" where
  "Propose c payload =
     (if \<not> rc_initialized c then (InvalidArgument, c)
      else if rc_role c \<noteq> LEADER then (InvalidArgument, c)
      else then_do (append_own c COMMAND payload) TryAdvanceCommitIndex)"

definition AppendMembershipChangeProposal ::
  "RaftCore \<Rightarrow> MembershipLogEntry \<Rightarrow> (Status + LogIndex) \<times> RaftCore" where
  "AppendMembershipChangeProposal c membership_entry =
     (if \<not> rc_initialized c then (Inl InvalidArgument, c)
      else (case EncodeMembershipLogEntry membership_entry out of
              Inl status \<Rightarrow> (Inl status, c)
            | Inr payload \<Rightarrow>
                then_get (append_own c MEMBERSHIP_CHANGE payload) (\<lambda>c1.
                then_get (TryAdvanceCommitIndex c1) (\<lambda>c2.
                  (Inr (last_index (rc_log c) + 1), c2)))))"

text \<open>
  The loop over \<open>applied + 1 .. last\<close>; \<open>for_any_ends\<close> shows that this is its result whenever
  the last index is below the largest \<open>uint64_t\<close>, and that it would not end otherwise.
\<close>

definition is_membership_change_at :: "RaftCore \<Rightarrow> LogIndex \<Rightarrow> bool" where
  "is_membership_change_at c index =
     (case GetEntry (rc_log c) index out of
        Inl _ \<Rightarrow> False
      | Inr entry \<Rightarrow> le_type entry = MEMBERSHIP_CHANGE)"

definition HasPendingMembershipChange :: "RaftCore \<Rightarrow> bool" where
  "HasPendingMembershipChange c =
     list_ex (is_membership_change_at c)
       (word_interval (lg_applied_index (rc_log c) + 1) (last_index (rc_log c)))"

definition HasCommittedVoterQuorum :: "RaftCore \<Rightarrow> bool" where
  "HasCommittedVoterQuorum c =
     (let active = filter (\<lambda>n. n = rc_node_id c \<or>
                     (case FindPeerProgress c n of Inl _ \<Rightarrow> False | Inr progress \<Rightarrow> pp_is_active progress))
                   (rc_voter_ids c)
      in length (rc_voter_ids c) div 2 + 1 \<le> length active)"

definition GetLearnerState :: "RaftCore \<Rightarrow> NodeId \<Rightarrow> out_ptr \<Rightarrow> Status + LearnerState" where
  "GetLearnerState c target_node_id state =
     (if \<not> ok (require_core c state) then Inl (require_core c state)
      else and_then (FindPeerProgress c target_node_id) (\<lambda>progress.
        if \<not> pp_is_learner progress then Inl InvalidArgument
        else let requires_snapshot = pp_next_index progress \<le> lg_snapshot_index (rc_log c)
             in Inr \<lparr>ls_healthy = pp_is_active progress,
                     ls_caught_up = (\<not> requires_snapshot \<and>
                       lg_commit_index (rc_log c) \<le> pp_match_index progress),
                     ls_requires_snapshot = requires_snapshot,
                     ls_match_index = pp_match_index progress,
                     ls_next_index = pp_next_index progress,
                     ls_leader_commit = lg_commit_index (rc_log c)\<rparr>))"

definition AddLearner :: "RaftCore \<Rightarrow> RaftMember \<Rightarrow> (Status + LogIndex) \<times> RaftCore" where
  "AddLearner c learner =
     (if \<not> rc_initialized c then (Inl InvalidArgument, c)
      else if rc_role c \<noteq> LEADER then (Inl InvalidArgument, c)
      else if HasPendingMembershipChange c then (Inl Busy, c)
      else (case BuildAddLearnerLogEntry (rc_membership_state c) learner out of
              Inl status \<Rightarrow> (Inl status, c)
            | Inr membership_entry \<Rightarrow> AppendMembershipChangeProposal c membership_entry))"

definition PromoteLearner :: "RaftCore \<Rightarrow> NodeId \<Rightarrow> (Status + LogIndex) \<times> RaftCore" where
  "PromoteLearner c learner_node_id =
     (if \<not> rc_initialized c then (Inl InvalidArgument, c)
      else if rc_role c \<noteq> LEADER then (Inl InvalidArgument, c)
      else if learner_node_id = kInvalidNodeId then (Inl InvalidArgument, c)
      else if HasPendingMembershipChange c then (Inl Busy, c)
      else if \<not> HasCommittedVoterQuorum c then (Inl Busy, c)
      else (case GetLearnerState c learner_node_id out of
              Inl status \<Rightarrow> (Inl status, c)
            | Inr learner_state \<Rightarrow>
                if ls_requires_snapshot learner_state then (Inl Busy, c)
                else if \<not> ls_healthy learner_state then (Inl Busy, c)
                else if \<not> ls_caught_up learner_state then (Inl Busy, c)
                else (case BuildPromoteLearnerLogEntry (rc_membership_state c) learner_node_id out of
                        Inl status \<Rightarrow> (Inl status, c)
                      | Inr membership_entry \<Rightarrow> AppendMembershipChangeProposal c membership_entry)))"

definition RemoveMember :: "RaftCore \<Rightarrow> NodeId \<Rightarrow> (Status + LogIndex) \<times> RaftCore" where
  "RemoveMember c member_node_id =
     (if \<not> rc_initialized c then (Inl InvalidArgument, c)
      else if rc_role c \<noteq> LEADER then (Inl InvalidArgument, c)
      else if member_node_id = kInvalidNodeId then (Inl InvalidArgument, c)
      else if HasPendingMembershipChange c then (Inl Busy, c)
      else if \<not> HasCommittedVoterQuorum c then (Inl Busy, c)
      else (case BuildRemoveMemberLogEntry (rc_membership_state c) member_node_id out of
              Inl status \<Rightarrow> (Inl status, c)
            | Inr membership_entry \<Rightarrow> AppendMembershipChangeProposal c membership_entry))"

definition FinalizeMembershipChange :: "RaftCore \<Rightarrow> (Status + LogIndex) \<times> RaftCore" where
  "FinalizeMembershipChange c =
     (if \<not> rc_initialized c then (Inl InvalidArgument, c)
      else if rc_role c \<noteq> LEADER then (Inl InvalidArgument, c)
      else if \<not> ms_has_active_transition (rc_membership_state c) then (Inl InvalidArgument, c)
      else if HasPendingMembershipChange c then (Inl Busy, c)
      else (case BuildFinalizeMembershipLogEntry (rc_membership_state c) out of
              Inl status \<Rightarrow> (Inl status, c)
            | Inr membership_entry \<Rightarrow> AppendMembershipChangeProposal c membership_entry))"

section \<open>Requests of a leader\<close>

definition BuildHeartbeat :: "RaftCore \<Rightarrow> out_ptr \<Rightarrow> Status + AppendEntriesRequest" where
  "BuildHeartbeat c request =
     (if \<not> ok (require_core c request) then Inl (require_core c request)
      else if rc_role c \<noteq> LEADER then Inl InvalidArgument
      else and_then (GetTerm (rc_log c) (last_index (rc_log c)) out) (\<lambda>prev_term.
        Inr \<lparr>ae_term = current_term c, ae_leader_id = rc_node_id c,
             ae_prev_log_index = last_index (rc_log c), ae_prev_log_term = prev_term,
             ae_entries = [], ae_leader_commit = lg_commit_index (rc_log c)\<rparr>))"

definition BuildAppendEntriesForPeer ::
  "RaftCore \<Rightarrow> NodeId \<Rightarrow> out_ptr \<Rightarrow> (Status + AppendEntriesRequest) \<times> RaftCore" where
  "BuildAppendEntriesForPeer c target_node_id request_ptr =
     (if \<not> ok (require_core c request_ptr) then (Inl (require_core c request_ptr), c)
      else if rc_role c \<noteq> LEADER then (Inl InvalidArgument, c)
      else if target_node_id = rc_node_id c then (Inl InvalidArgument, c)
      else (case FindPeerProgress c target_node_id of
              Inl status \<Rightarrow> (Inl status, c)
            | Inr progress \<Rightarrow>
                if pp_next_index progress \<le> lg_snapshot_index (rc_log c) then (Inl RetryLater, c)
                else (case GetTerm (rc_log c) (pp_next_index progress - 1) out of
                        Inl status \<Rightarrow> (Inl status, c)
                      | Inr prev_term \<Rightarrow>
                          (case (if pp_next_index progress \<le> last_index (rc_log c)
                                 then GetEntries (rc_log c) (pp_next_index progress)
                                        (last_index (rc_log c) + 1) out
                                 else Inr []) of
                             Inl status \<Rightarrow> (Inl status, c)
                           | Inr entries \<Rightarrow>
                               let request = \<lparr>ae_term = current_term c, ae_leader_id = rc_node_id c,
                                     ae_prev_log_index = pp_next_index progress - 1,
                                     ae_prev_log_term = prev_term, ae_entries = entries,
                                     ae_leader_commit = lg_commit_index (rc_log c)\<rparr>
                               in then_get (StageMessage c
                                      \<lparr>msg_type = APPEND_ENTRIES_REQUEST,
                                       msg_source_node_id = rc_node_id c,
                                       msg_target_node_id = target_node_id,
                                       msg_payload = AppendEntriesRequestMsg request\<rparr>
                                      (HasDirtyHardState c)
                                      (if entries = [] then kInvalidLogIndex else le_index (last entries)))
                                    (\<lambda>c1. (Inr request, c1))))))"

definition BuildInstallSnapshotForPeer ::
  "RaftCore \<Rightarrow> NodeId \<Rightarrow> out_ptr \<Rightarrow> (Status + InstallSnapshotRequest) \<times> RaftCore" where
  "BuildInstallSnapshotForPeer c target_node_id request_ptr =
     (if \<not> ok (require_core c request_ptr) then (Inl (require_core c request_ptr), c)
      else if rc_role c \<noteq> LEADER then (Inl InvalidArgument, c)
      else if target_node_id = rc_node_id c then (Inl InvalidArgument, c)
      else if lg_snapshot_index (rc_log c) = kInvalidLogIndex then (Inl NotFound, c)
      else (case FindPeerProgress c target_node_id of
              Inl status \<Rightarrow> (Inl status, c)
            | Inr progress \<Rightarrow>
                if lg_snapshot_index (rc_log c) < pp_next_index progress then (Inl InvalidArgument, c)
                else let request = \<lparr>is_term = current_term c, is_leader_id = rc_node_id c,
                           is_metadata =
                             \<lparr>sm_last_included_index = lg_snapshot_index (rc_log c),
                              sm_last_included_term = lg_snapshot_term (rc_log c),
                              sm_membership =
                                (if MembershipState_empty (rc_membership_state c)
                                 then MembershipView_default else ToView (rc_membership_state c))\<rparr>,
                           is_payload = []\<rparr>
                     in then_get (StageMessage c
                            \<lparr>msg_type = INSTALL_SNAPSHOT_REQUEST,
                             msg_source_node_id = rc_node_id c,
                             msg_target_node_id = target_node_id,
                             msg_payload = InstallSnapshotRequestMsg request\<rparr>
                            (HasDirtyHardState c) kInvalidLogIndex)
                          (\<lambda>c1. (Inr request, c1))))"

section \<open>Requests to a follower\<close>

definition ValidateAppendEntriesRequest :: "RaftCore \<Rightarrow> AppendEntriesRequest \<Rightarrow> Status" where
  "ValidateAppendEntriesRequest c request =
     (if \<not> rc_initialized c then InvalidArgument
      else if ae_leader_id request = kInvalidNodeId then InvalidArgument
      else if kInvalidLogIndex < ae_prev_log_index request \<and> ae_prev_log_term request = kInitialTerm
        then InvalidArgument
      else OK)"

function FindFirstIndexOfTerm_loop :: "RaftLog \<Rightarrow> Term \<Rightarrow> LogIndex \<Rightarrow> LogIndex" where
  "FindFirstIndexOfTerm_loop l term index =
     (if lg_snapshot_index l < index
      then (case GetTerm l index out of
              Inl _ \<Rightarrow> index
            | Inr current \<Rightarrow>
                if current \<noteq> term then index else FindFirstIndexOfTerm_loop l term (index - 1))
      else index)"
  by pat_completeness auto

termination
  by (relation "measure (\<lambda>(l, t, i). unat i)") (auto intro!: unat_dec_less simp: word_gt_0)

declare FindFirstIndexOfTerm_loop.simps [simp del]

definition FindFirstIndexOfTerm :: "RaftCore \<Rightarrow> Term \<Rightarrow> LogIndex \<Rightarrow> LogIndex" where
  "FindFirstIndexOfTerm c term hint_index =
     (if hint_index = lg_snapshot_index (rc_log c) \<and> term = lg_snapshot_term (rc_log c) then hint_index
      else FindFirstIndexOfTerm_loop (rc_log c) term hint_index + 1)"

function FindLastIndexOfTerm_loop :: "RaftLog \<Rightarrow> Term \<Rightarrow> LogIndex \<Rightarrow> LogIndex option" where
  "FindLastIndexOfTerm_loop l term index =
     (if lg_snapshot_index l < index
      then (case GetTerm l index out of
              Inl _ \<Rightarrow> None
            | Inr current \<Rightarrow>
                if current = term then Some index
                else if current < term then None
                else FindLastIndexOfTerm_loop l term (index - 1))
      else None)"
  by pat_completeness auto

termination
  by (relation "measure (\<lambda>(l, t, i). unat i)") (auto intro!: unat_dec_less simp: word_gt_0)

declare FindLastIndexOfTerm_loop.simps [simp del]

definition FindLastIndexOfTerm :: "RaftCore \<Rightarrow> Term \<Rightarrow> LogIndex" where
  "FindLastIndexOfTerm c term =
     (case FindLastIndexOfTerm_loop (rc_log c) term (last_index (rc_log c)) of
        Some index \<Rightarrow> index
      | None \<Rightarrow>
          if term = lg_snapshot_term (rc_log c) then lg_snapshot_index (rc_log c) else kInvalidLogIndex)"

text \<open>The conflict hint of a rejected request: conflict index and conflict term.\<close>

definition conflict_hint :: "RaftCore \<Rightarrow> AppendEntriesRequest \<Rightarrow> Status + (LogIndex \<times> Term)" where
  "conflict_hint c request =
     (let prev = ae_prev_log_index request
      in if last_index (rc_log c) < prev then Inr (last_index (rc_log c) + 1, kInitialTerm)
         else (case GetTerm (rc_log c) prev out of
                 Inl status \<Rightarrow>
                   if prev < first_index (rc_log c)
                   then Inr (first_index (rc_log c), lg_snapshot_term (rc_log c))
                   else Inl status
               | Inr conflict_term \<Rightarrow> Inr (FindFirstIndexOfTerm c conflict_term prev, conflict_term)))"

definition append_reply ::
  "RaftCore \<Rightarrow> NodeId \<Rightarrow> AppendEntriesResponse \<Rightarrow> bool \<Rightarrow> LogIndex \<Rightarrow>
     (Status + AppendEntriesResponse) \<times> RaftCore" where
  "append_reply c target response require_hard_state required_stable_index =
     then_get (StageMessage c
         \<lparr>msg_type = APPEND_ENTRIES_RESPONSE, msg_source_node_id = rc_node_id c,
          msg_target_node_id = target, msg_payload = AppendEntriesResponseMsg response\<rparr>
         require_hard_state required_stable_index)
       (\<lambda>c1. (Inr response, c1))"

text \<open>The entries of an accepted request: cut a conflicting suffix, append what is missing.\<close>

definition store_entries :: "RaftCore \<Rightarrow> LogEntry list \<Rightarrow> Status \<times> RaftCore" where
  "store_entries c entries =
     (if entries = [] then (OK, c)
      else (case FindConflict (rc_log c) entries out of
              Inl status \<Rightarrow> (status, c)
            | Inr conflict \<Rightarrow>
                then_do (if cr_type conflict = Conflict_CONFLICT
                         then (case TruncateSuffix (rc_log c) (cr_index conflict) of
                                 (status, l) \<Rightarrow> (status, c\<lparr>rc_log := l\<rparr>))
                         else (OK, c)) (\<lambda>c1.
                if cr_type conflict \<noteq> Conflict_NONE
                then (case Append_batch (rc_log c1)
                             (drop (unat (cr_index conflict - le_index (hd entries))) entries) of
                        (status, l) \<Rightarrow> (status, c1\<lparr>rc_log := l\<rparr>))
                else (OK, c1))))"

definition follow_commit :: "RaftCore \<Rightarrow> LogIndex \<Rightarrow> Status \<times> RaftCore" where
  "follow_commit c leader_commit =
     (let target_commit = min leader_commit (last_index (rc_log c))
      in if lg_commit_index (rc_log c) < target_commit then commit_to c target_commit else (OK, c))"

definition HandleAppendEntries ::
  "RaftCore \<Rightarrow> AppendEntriesRequest \<Rightarrow> out_ptr \<Rightarrow> (Status + AppendEntriesResponse) \<times> RaftCore" where
  "HandleAppendEntries c request response_ptr =
     (if \<not> ok (require_core c response_ptr) then (Inl (require_core c response_ptr), c)
      else if \<not> ok (ValidateAppendEntriesRequest c request)
        then (Inl (ValidateAppendEntriesRequest c request), c)
      else let before_hard_state = rc_hard_state c;
               before_last_index = last_index (rc_log c);
               response = ResetAppendResponse (current_term c);
               target = ae_leader_id request
           in if ae_term request < current_term c
              then append_reply c target response False kInvalidLogIndex
              else then_get (if current_term c < ae_term request
                             then UpdateCurrentTerm c (ae_term request) else (OK, c)) (\<lambda>c1.
                if rc_role c1 = LEADER \<and> ae_leader_id request \<noteq> rc_node_id c1
                then append_reply c1 target response
                       (\<not> SameHardState before_hard_state (rc_hard_state c1)) kInvalidLogIndex
                else let c2 = (if rc_role c1 = CANDIDATE then c1\<lparr>rc_role := FOLLOWER\<rparr> else c1);
                         c3 = ResetElectionTicks (c2\<lparr>rc_leader_id := ae_leader_id request\<rparr>);
                         response1 = response\<lparr>aer_term := current_term c3\<rparr>
                     in if \<not> Matches (rc_log c3) (ae_prev_log_index request) (ae_prev_log_term request)
                        then (case conflict_hint c3 request of
                                Inl status \<Rightarrow> (Inl status, c3)
                              | Inr (conflict_index, conflict_term) \<Rightarrow>
                                  append_reply c3 target
                                    (response1\<lparr>aer_conflict_index := conflict_index,
                                               aer_conflict_term := conflict_term\<rparr>)
                                    (\<not> SameHardState before_hard_state (rc_hard_state c3))
                                    kInvalidLogIndex)
                        else then_get (then_do (then_do (store_entries c3 (ae_entries request))
                                 (\<lambda>c4. follow_commit c4 (ae_leader_commit request)))
                                 SyncLocalPeerProgress) (\<lambda>c6.
                          append_reply c6 target
                            (response1\<lparr>aer_success := True, aer_match_index := last_index (rc_log c6)\<rparr>)
                            (\<not> SameHardState before_hard_state (rc_hard_state c6))
                            (if before_last_index < last_index (rc_log c6)
                             then last_index (rc_log c6) else kInvalidLogIndex))))"

section \<open>Replies to a leader\<close>

definition ClampPeerNextIndex :: "RaftCore \<Rightarrow> LogIndex \<Rightarrow> LogIndex" where
  "ClampPeerNextIndex c index =
     (let minimum = (if kInvalidLogIndex < lg_snapshot_index (rc_log c)
                     then lg_snapshot_index (rc_log c) else first_index (rc_log c));
          maximum = last_index (rc_log c) + 1
      in if index < minimum then minimum
         else if maximum < index then maximum
         else index)"

definition ValidateAppendEntriesResponse :: "RaftCore \<Rightarrow> NodeId \<Rightarrow> AppendEntriesResponse \<Rightarrow> Status" where
  "ValidateAppendEntriesResponse c source_node_id response =
     (if \<not> rc_initialized c then InvalidArgument
      else if source_node_id = kInvalidNodeId then InvalidArgument
      else if \<not> ContainsNode (rc_voter_ids c) source_node_id \<and>
              \<not> ContainsNode (rc_learner_ids c) source_node_id then InvalidArgument
      else if aer_success response \<and> aer_match_index response = kInvalidLogIndex \<and>
              last_index (rc_log c) \<noteq> kInvalidLogIndex then InvalidArgument
      else if \<not> aer_success response \<and> aer_term response = current_term c \<and>
              aer_conflict_index response = kInvalidLogIndex then InvalidArgument
      else OK)"

definition HandleAppendEntriesResponse ::
  "RaftCore \<Rightarrow> NodeId \<Rightarrow> AppendEntriesResponse \<Rightarrow> out_ptr \<Rightarrow> (Status + AppendResponseAction) \<times> RaftCore" where
  "HandleAppendEntriesResponse c source_node_id response action =
     (if \<not> ok (require_core c action) then (Inl (require_core c action), c)
      else if \<not> ok (ValidateAppendEntriesResponse c source_node_id response)
        then (Inl (ValidateAppendEntriesResponse c source_node_id response), c)
      else if aer_term response < current_term c then (Inr Append_NONE, c)
      else if current_term c < aer_term response
        then then_get (if rc_role c = LEARNER then UpdateCurrentTerm c (aer_term response)
                       else BecomeFollowerForRemote c (aer_term response) kInvalidNodeId)
               (\<lambda>c1. (Inr Append_STEPPED_DOWN, c1))
      else if rc_role c \<noteq> LEADER then (Inr Append_NONE, c)
      else (case FindPeerProgress c source_node_id of
              Inl status \<Rightarrow> (Inl status, c)
            | Inr found \<Rightarrow>
                let progress = found\<lparr>pp_is_active := True\<rparr>
                in if aer_success response
                   then (if last_index (rc_log c) < aer_match_index response
                         then (Inl InvalidArgument, put_progress source_node_id progress c)
                         else let match = (if pp_match_index progress < aer_match_index response
                                           then aer_match_index response else pp_match_index progress);
                                  progress1 = progress\<lparr>pp_match_index := match,
                                    pp_next_index := max (pp_next_index progress) (match + 1)\<rparr>
                              in then_get (TryAdvanceCommitIndex (put_progress source_node_id progress1 c))
                                   (\<lambda>c1. (Inr ACCEPTED, c1)))
                   else let next_index =
                              (if aer_conflict_term response \<noteq> kInitialTerm
                               then let local_index = FindLastIndexOfTerm c (aer_conflict_term response)
                                    in if local_index \<noteq> kInvalidLogIndex then local_index + 1
                                       else aer_conflict_index response
                               else aer_conflict_index response);
                            progress1 = progress\<lparr>pp_next_index :=
                              min (pp_next_index progress) (ClampPeerNextIndex c next_index)\<rparr>
                        in (Inr REJECTED, put_progress source_node_id progress1 c)))"

definition HandleInstallSnapshotResponse ::
  "RaftCore \<Rightarrow> NodeId \<Rightarrow> InstallSnapshotResponse \<Rightarrow> Status \<times> RaftCore" where
  "HandleInstallSnapshotResponse c source_node_id response =
     (if \<not> rc_initialized c then (InvalidArgument, c)
      else if source_node_id = kInvalidNodeId then (InvalidArgument, c)
      else if isr_term response < current_term c then (OK, c)
      else if current_term c < isr_term response
        then BecomeFollowerForRemote c (isr_term response) kInvalidNodeId
      else if rc_role c \<noteq> LEADER then (OK, c)
      else if \<not> isr_success response then (InvalidArgument, c)
      else if lg_snapshot_index (rc_log c) < isr_last_included_index response then (InvalidArgument, c)
      else (case FindPeerProgress c source_node_id of
              Inl status \<Rightarrow> (status, c)
            | Inr found \<Rightarrow>
                let match = (if pp_match_index found < isr_last_included_index response
                             then isr_last_included_index response else pp_match_index found)
                in (OK, put_progress source_node_id
                          (found\<lparr>pp_is_active := True, pp_match_index := match,
                                 pp_next_index := max (pp_next_index found) (match + 1)\<rparr>) c)))"

section \<open>Committed entries and snapshots\<close>

definition step_aside :: "RaftCore \<Rightarrow> RaftCore" where
  "step_aside c =
     ResetElectionTicks
       (c\<lparr>rc_role := LEARNER, rc_leader_id := kInvalidNodeId,
          rc_hard_state := (rc_hard_state c)\<lparr>hs_voted_for := kInvalidNodeId\<rparr>\<rparr>)"

text \<open>The member lists \<open>ApplyCommittedMembershipEntry\<close> computes from the new state.\<close>

definition candidate_voter_ids :: "MembershipState \<Rightarrow> NodeId list" where
  "candidate_voter_ids m =
     (let voters = MemberIds (ms_voters m)
      in if ms_has_active_transition m then sort (fold push_new (MemberIds (ms_next_voters m)) voters)
         else voters)"

definition candidate_learner_ids :: "MembershipState \<Rightarrow> NodeId list" where
  "candidate_learner_ids m =
     (let learners = MemberIds (ms_learners m);
          voters = fold push_new (MemberIds (ms_next_voters m)) (MemberIds (ms_voters m))
      in if ms_has_active_transition m
         then let kept = fold (\<lambda>n. filter (\<lambda>x. x \<noteq> n)) (MemberIds (ms_next_voters m)) learners
              in sort (fold (\<lambda>n ids. if \<not> ContainsNode ids n \<and> \<not> ContainsNode voters n
                                     then ids @ [n] else ids)
                         (MemberIds (ms_next_learners m)) kept)
         else learners)"

definition ApplyCommittedMembershipEntry :: "RaftCore \<Rightarrow> LogEntry \<Rightarrow> Status \<times> RaftCore" where
  "ApplyCommittedMembershipEntry c entry =
     (if \<not> rc_initialized c then (InvalidArgument, c)
      else if le_type entry \<noteq> MEMBERSHIP_CHANGE then (InvalidArgument, c)
      else (case DecodeMembershipLogEntry (le_payload entry) out of
              Inl status \<Rightarrow> (status, c)
            | Inr membership_entry \<Rightarrow>
                (case ApplyCommitted (rc_membership_state c) membership_entry of
                   (status, candidate_state) \<Rightarrow>
                     if \<not> ok status then (status, c)
                     else let voters = candidate_voter_ids candidate_state;
                              learners = candidate_learner_ids candidate_state;
                              c1 = c\<lparr>rc_membership_state := candidate_state,
                                     rc_voter_ids := voters,
                                     rc_learner_ids := learners,
                                     rc_peer_progress := member_progress c voters learners,
                                     rc_hard_state := (rc_hard_state c)
                                       \<lparr>hs_membership_configuration_id :=
                                          ms_configuration_id candidate_state\<rparr>\<rparr>
                          in then_do (SyncLocalPeerProgress c1) (\<lambda>c2.
                            if \<not> ContainsNode (rc_voter_ids c2) (rc_node_id c2) \<and>
                               \<not> ContainsNode (rc_learner_ids c2) (rc_node_id c2)
                            then (OK, step_aside c2)
                            else if ContainsNode (rc_learner_ids c2) (rc_node_id c2)
                            then (OK, step_aside c2)
                            else (OK, c2)))))"

definition ConfirmApplied :: "RaftCore \<Rightarrow> LogIndex \<Rightarrow> Status \<times> RaftCore" where
  "ConfirmApplied c index =
     (if \<not> rc_initialized c then (InvalidArgument, c)
      else if index = kInvalidLogIndex then (InvalidArgument, c)
      else if index \<noteq> lg_applied_index (rc_log c) + 1 then (InvalidArgument, c)
      else if lg_commit_index (rc_log c) < index then (InvalidArgument, c)
      else (case AdvanceAppliedTo (rc_log c) index of (status, l) \<Rightarrow> (status, c\<lparr>rc_log := l\<rparr>)))"

definition Core_UpdateSnapshotBoundary :: "RaftCore \<Rightarrow> SnapshotMetadata \<Rightarrow> Status \<times> RaftCore" where
  "Core_UpdateSnapshotBoundary c metadata =
     (if \<not> rc_initialized c then (InvalidArgument, c)
      else then_do (case UpdateSnapshotBoundary (rc_log c) (sm_last_included_index metadata)
                           (sm_last_included_term metadata) of
                      (status, l) \<Rightarrow> (status, c\<lparr>rc_log := l\<rparr>)) (\<lambda>c1.
        then_do (if mv_configuration_id (sm_membership metadata) \<noteq> 0
                 then (case FromView (sm_membership metadata) out of
                         Inl status \<Rightarrow> (status, c1)
                       | Inr candidate \<Rightarrow>
                           then_do (SyncMembershipVectorsFromState
                                      (c1\<lparr>rc_membership_state := candidate\<rparr>)) (\<lambda>c2.
                             (OK, c2\<lparr>rc_hard_state := (rc_hard_state c2)
                                    \<lparr>hs_membership_configuration_id :=
                                       ms_configuration_id (rc_membership_state c2)\<rparr>\<rparr>)))
                 else (OK, c1)) (\<lambda>c3.
        then_do (UpdatePeerProgressForMembership c3) (\<lambda>c4.
          if \<not> ContainsNode (rc_voter_ids c4) (rc_node_id c4) \<and>
             \<not> ContainsNode (rc_learner_ids c4) (rc_node_id c4)
          then (OK, step_aside c4)
          else (OK, c4)))))"

section \<open>Queries\<close>

definition GetPeerProgress :: "RaftCore \<Rightarrow> NodeId \<Rightarrow> out_ptr \<Rightarrow> Status + PeerProgress" where
  "GetPeerProgress c target_node_id progress =
     (if \<not> ok (require_core c progress) then Inl (require_core c progress)
      else FindPeerProgress c target_node_id)"

definition GetReplicationModeForPeer :: "RaftCore \<Rightarrow> NodeId \<Rightarrow> out_ptr \<Rightarrow> Status + ReplicationMode" where
  "GetReplicationModeForPeer c target_node_id mode =
     (if \<not> ok (require_core c mode) then Inl (require_core c mode)
      else and_then (FindPeerProgress c target_node_id) (\<lambda>progress.
        Inr (if pp_next_index progress \<le> lg_snapshot_index (rc_log c)
             then INSTALL_SNAPSHOT else APPEND_ENTRIES)))"

text \<open>
  With an empty membership state the source fills in the caller's view and leaves its target
  sets alone; \<open>view\<close> is what the pointer refers to before the call.
\<close>

definition GetMembershipView :: "RaftCore \<Rightarrow> out_ptr \<Rightarrow> MembershipView \<Rightarrow> Status + MembershipView" where
  "GetMembershipView c view_ptr view =
     (if \<not> ok (require_core c view_ptr) then Inl (require_core c view_ptr)
      else if \<not> MembershipState_empty (rc_membership_state c)
        then Inr (ToView (rc_membership_state c))
      else let bare = (\<lambda>n. \<lparr>mb_node_id = n, mb_address = \<lparr>na_host = [], na_port = 0\<rparr>\<rparr>)
           in Inr (view\<lparr>mv_voters := map bare (rc_voter_ids c),
                        mv_learners := map bare (rc_learner_ids c),
                        mv_configuration_id := hs_membership_configuration_id (rc_hard_state c),
                        mv_has_active_transition := False\<rparr>))"

definition GetApplyReadyRange :: "RaftCore \<Rightarrow> out_ptr \<Rightarrow> Status + ApplyRange" where
  "GetApplyReadyRange c range_ptr =
     (if \<not> ok (require_core c range_ptr) then Inl (require_core c range_ptr)
      else Inr \<lparr>ar_begin = lg_applied_index (rc_log c) + 1, ar_end = lg_commit_index (rc_log c)\<rparr>)"

definition GetOutput :: "RaftCore \<Rightarrow> out_ptr \<Rightarrow> Status + RaftOutput" where
  "GetOutput c output =
     (if \<not> ok (require_core c output) then Inl (require_core c output)
      else and_then (if lg_stable_index (rc_log c) < last_index (rc_log c)
                     then GetEntries (rc_log c) (lg_stable_index (rc_log c) + 1)
                            (last_index (rc_log c) + 1) out
                     else Inr []) (\<lambda>unstable.
        and_then (GetApplyReadyRange c out) (\<lambda>committed_range.
          Inr \<lparr>ro_has_hard_state = HardStateChanged c,
               ro_hard_state = rc_hard_state c,
               ro_unstable_entries = unstable,
               ro_persistence =
                 \<lparr>pr_has_hard_state = HardStateChanged c,
                  pr_hard_state = rc_hard_state c,
                  pr_first_log_index = (if lg_stable_index (rc_log c) < last_index (rc_log c)
                                        then le_index (hd unstable) else kInvalidLogIndex),
                  pr_last_log_index = (if lg_stable_index (rc_log c) < last_index (rc_log c)
                                       then le_index (last unstable) else kInvalidLogIndex)\<rparr>,
               ro_immediate_messages = rc_immediate_messages c,
               ro_persisted_messages = map pm_message (rc_persisted_messages c),
               ro_committed_range = committed_range,
               ro_role = rc_role c,
               ro_term = current_term c,
               ro_leader_id = rc_leader_id c\<rparr>)))"

end
