(* ===== verification/Raft_Core_Invariant.thy ===== *)
theory Raft_Core_Invariant
  imports Raft_Core
begin

text \<open>
  What every operation of \<open>RaftCore\<close> keeps. \<open>core_inv\<close> is the invariant of one object;
  \<open>core_le\<close> relates the object before and after: terms and the commit index only grow,
  committed entries stay, a vote is kept for its term, a learner stays a learner. Both are
  proved for every helper first and composed along \<open>then_do\<close> and \<open>then_get\<close>.
\<close>

section \<open>The invariant\<close>

text \<open>The progress map has exactly one record per member, under the member's own id.\<close>

definition peers_inv :: "RaftCore \<Rightarrow> bool" where
  "peers_inv c \<longleftrightarrow>
     map_wf (rc_peer_progress c) \<and>
     (\<forall>n. map_find (rc_peer_progress c) n \<noteq> None \<longleftrightarrow>
        n \<in> set (rc_voter_ids c) \<union> set (rc_learner_ids c)) \<and>
     (\<forall>n p. map_find (rc_peer_progress c) n = Some p \<longrightarrow> pp_node_id p = n)"

definition membership_inv :: "RaftCore \<Rightarrow> bool" where
  "membership_inv c \<longleftrightarrow>
     distinct (rc_voter_ids c) \<and> rc_voter_ids c \<noteq> [] \<and> ms_wf (rc_membership_state c) \<and>
     (if MembershipState_empty (rc_membership_state c)
      then \<not> ms_has_active_transition (rc_membership_state c)
      else rc_voter_ids c = TransitionVoterIds (rc_membership_state c))"

text \<open>At most one message per kind and receiver waits, in either queue.\<close>

definition message_key :: "RaftMessage \<Rightarrow> RaftMessageType \<times> NodeId" where
  "message_key m = (msg_type m, msg_target_node_id m)"

definition queued :: "RaftCore \<Rightarrow> RaftMessage list" where
  "queued c = rc_immediate_messages c @ map pm_message (rc_persisted_messages c)"

definition queue_inv :: "RaftCore \<Rightarrow> bool" where
  "queue_inv c \<longleftrightarrow> distinct (map message_key (queued c))"

definition core_inv :: "RaftCore \<Rightarrow> bool" where
  "core_inv c \<longleftrightarrow>
     rc_initialized c \<and> rc_node_id c \<noteq> kInvalidNodeId \<and> log_inv (rc_log c) \<and>
     hs_commit_index (rc_hard_state c) = lg_commit_index (rc_log c) \<and>
     (rc_role c = LEADER \<longrightarrow> rc_leader_id c = rc_node_id c) \<and>
     peers_inv c \<and> membership_inv c \<and> queue_inv c"

definition log_le :: "RaftLog \<Rightarrow> RaftLog \<Rightarrow> bool" where
  "log_le l l' \<longleftrightarrow>
     lg_snapshot_index l \<le> lg_snapshot_index l' \<and> lg_commit_index l \<le> lg_commit_index l' \<and>
     lg_applied_index l \<le> lg_applied_index l' \<and>
     (\<forall>i. lg_snapshot_index l' < i \<and> i \<le> lg_commit_index l \<longrightarrow> abs_log l' i = abs_log l i)"

text \<open>A vote cast in the current term stays cast, or the node has become a learner.\<close>

definition vote_le :: "RaftCore \<Rightarrow> RaftCore \<Rightarrow> bool" where
  "vote_le c c' \<longleftrightarrow>
     current_term c \<le> current_term c' \<and>
     (rc_role c = LEARNER \<longrightarrow> rc_role c' = LEARNER) \<and>
     (current_term c' = current_term c \<and> voted_for c \<noteq> kInvalidNodeId \<longrightarrow>
        voted_for c' = voted_for c \<or> rc_role c' = LEARNER)"

definition core_le :: "RaftCore \<Rightarrow> RaftCore \<Rightarrow> bool" where
  "core_le c c' \<longleftrightarrow>
     core_inv c' \<and> rc_node_id c' = rc_node_id c \<and> log_le (rc_log c) (rc_log c') \<and> vote_le c c'"

lemma log_le_refl [simp]: "log_le l l"
  by (simp add: log_le_def)

lemma log_le_trans:
  assumes ab: "log_le a b" and bc: "log_le b c"
  shows "log_le a c"
proof -
  have "abs_log c i = abs_log a i" if i: "lg_snapshot_index c < i" "i \<le> lg_commit_index a" for i
  proof -
    have "lg_snapshot_index b < i" using bc i(1) unfolding log_le_def by (meson le_less_trans)
    moreover have "i \<le> lg_commit_index b" using ab i(2) unfolding log_le_def by (meson order.trans)
    ultimately show ?thesis using ab bc i unfolding log_le_def by simp
  qed
  then show ?thesis using ab bc unfolding log_le_def by (meson order.trans)
qed

lemma vote_le_refl [simp]: "vote_le c c"
  by (simp add: vote_le_def)

lemma vote_le_trans: "vote_le a b \<Longrightarrow> vote_le b c \<Longrightarrow> vote_le a c"
  unfolding vote_le_def by (metis order.trans order.antisym)

lemma core_le_refl [simp]: "core_inv c \<Longrightarrow> core_le c c"
  by (simp add: core_le_def)

lemma core_le_trans: "core_le a b \<Longrightarrow> core_le b c \<Longrightarrow> core_le a c"
  unfolding core_le_def using log_le_trans vote_le_trans by metis

lemma core_le_inv: "core_le c c' \<Longrightarrow> core_inv c'"
  by (simp add: core_le_def)

lemma core_invD:
  assumes "core_inv c"
  shows "rc_initialized c" "rc_node_id c \<noteq> kInvalidNodeId" "log_inv (rc_log c)"
    "hs_commit_index (rc_hard_state c) = lg_commit_index (rc_log c)"
    "peers_inv c" "membership_inv c" "queue_inv c"
  using assms by (simp_all add: core_inv_def)

text \<open>Composition along the error-checking sequences of the code.\<close>

lemma then_do_le:
  assumes "core_le c (snd r)" "fst r = OK \<Longrightarrow> core_inv (snd r) \<Longrightarrow> core_le (snd r) (snd (f (snd r)))"
  shows "core_le c (snd (then_do r f))"
proof (cases "fst r = OK")
  case True
  then have "then_do r f = f (snd r)" by (cases r) simp
  then show ?thesis using True assms core_le_inv core_le_trans by metis
next
  case False
  then have "snd (then_do r f) = snd r" by (cases r) simp
  then show ?thesis using assms(1) by simp
qed

lemma then_get_le:
  assumes "core_le c (snd r)" "fst r = OK \<Longrightarrow> core_inv (snd r) \<Longrightarrow> core_le (snd r) (snd (f (snd r)))"
  shows "core_le c (snd (then_get r f))"
proof (cases "fst r = OK")
  case True
  then have "then_get r f = f (snd r)" by (cases r) simp
  then show ?thesis using True assms core_le_inv core_le_trans by metis
next
  case False
  then have "snd (then_get r f) = snd r" by (cases r) simp
  then show ?thesis using assms(1) by simp
qed

section \<open>Updates of single fields\<close>

lemmas core_defs = core_inv_def peers_inv_def membership_inv_def queue_inv_def queued_def
  core_le_def vote_le_def current_term_def voted_for_def

named_theorems core_step "operations of RaftCore stay within core_le"

lemma ticks_le [core_step]:
  "core_inv c \<Longrightarrow> core_le c (c\<lparr>rc_logical_ticks := a\<rparr>)"
  "core_inv c \<Longrightarrow> core_le c (c\<lparr>rc_election_elapsed_ticks := a\<rparr>)"
  "core_inv c \<Longrightarrow> core_le c (c\<lparr>rc_election_timeout_ticks := a\<rparr>)"
  "core_inv c \<Longrightarrow> core_le c (c\<lparr>rc_persisted_hard_state := h\<rparr>)"
  by (simp_all add: core_defs)

lemma ResetElectionTicks_le [core_step]: "core_inv c \<Longrightarrow> core_le c (ResetElectionTicks c)"
  unfolding ResetElectionTicks_def by (rule ticks_le(2))

lemma ResetElectionTicks_fields [simp]:
  "rc_role (ResetElectionTicks c) = rc_role c" "rc_hard_state (ResetElectionTicks c) = rc_hard_state c"
  "rc_log (ResetElectionTicks c) = rc_log c" "rc_node_id (ResetElectionTicks c) = rc_node_id c"
  "rc_leader_id (ResetElectionTicks c) = rc_leader_id c"
  "rc_voter_ids (ResetElectionTicks c) = rc_voter_ids c"
  "rc_learner_ids (ResetElectionTicks c) = rc_learner_ids c"
  "rc_membership_state (ResetElectionTicks c) = rc_membership_state c"
  "rc_peer_progress (ResetElectionTicks c) = rc_peer_progress c"
  "rc_immediate_messages (ResetElectionTicks c) = rc_immediate_messages c"
  "rc_persisted_messages (ResetElectionTicks c) = rc_persisted_messages c"
  "rc_persisted_hard_state (ResetElectionTicks c) = rc_persisted_hard_state c"
  "rc_initialized (ResetElectionTicks c) = rc_initialized c"
  by (simp_all add: ResetElectionTicks_def)

text \<open>Replacing the log, with the commit index of the hard state, and the progress map.\<close>

lemma log_update_le:
  assumes "core_inv c" "log_inv l" "log_le (rc_log c) l" "lg_commit_index l = lg_commit_index (rc_log c)"
  shows "core_le c (c\<lparr>rc_log := l\<rparr>)"
  using assms by (simp add: core_defs)

lemma progress_update_le:
  assumes "core_inv c" "peers_inv (c\<lparr>rc_peer_progress := m\<rparr>)"
  shows "core_le c (c\<lparr>rc_peer_progress := m\<rparr>)"
  using assms by (simp add: core_defs)

lemma put_progress_peers:
  assumes "peers_inv c" "map_find (rc_peer_progress c) n = Some p" "pp_node_id q = pp_node_id p"
  shows "peers_inv (put_progress n q c)"
  using assms by (auto simp: peers_inv_def put_progress_def)

lemma FindPeerProgress_Inr: "FindPeerProgress c n = Inr p \<longleftrightarrow> map_find (rc_peer_progress c) n = Some p"
  by (auto simp: FindPeerProgress_def split: option.splits)

lemma FindPeerProgress_Inl: "FindPeerProgress c n = Inl s \<longleftrightarrow> map_find (rc_peer_progress c) n = None \<and> s = NotFound"
  by (auto simp: FindPeerProgress_def split: option.splits)

lemma put_progress_le [core_step]:
  assumes "core_inv c" "FindPeerProgress c n = Inr p" "pp_node_id q = pp_node_id p"
  shows "core_le c (put_progress n q c)"
  using assms put_progress_peers [of c n p q] progress_update_le [of c]
  by (auto simp: FindPeerProgress_Inr core_inv_def put_progress_def)

lemma SyncLocalPeerProgress_le [core_step]: "core_inv c \<Longrightarrow> core_le c (snd (SyncLocalPeerProgress c))"
  using put_progress_le by (auto simp: SyncLocalPeerProgress_def split: sum.splits)

lemma SyncLocalPeerProgress_OK [simp]: "fst (SyncLocalPeerProgress c) = OK"
  by (auto simp: SyncLocalPeerProgress_def FindPeerProgress_Inl split: sum.splits)

lemma SyncLocalPeerProgress_fields:
  "rc_role (snd (SyncLocalPeerProgress c)) = rc_role c"
  "rc_hard_state (snd (SyncLocalPeerProgress c)) = rc_hard_state c"
  "rc_log (snd (SyncLocalPeerProgress c)) = rc_log c"
  "rc_node_id (snd (SyncLocalPeerProgress c)) = rc_node_id c"
  "rc_leader_id (snd (SyncLocalPeerProgress c)) = rc_leader_id c"
  "rc_voter_ids (snd (SyncLocalPeerProgress c)) = rc_voter_ids c"
  "rc_learner_ids (snd (SyncLocalPeerProgress c)) = rc_learner_ids c"
  "rc_membership_state (snd (SyncLocalPeerProgress c)) = rc_membership_state c"
  "rc_persisted_hard_state (snd (SyncLocalPeerProgress c)) = rc_persisted_hard_state c"
  "rc_immediate_messages (snd (SyncLocalPeerProgress c)) = rc_immediate_messages c"
  "rc_persisted_messages (snd (SyncLocalPeerProgress c)) = rc_persisted_messages c"
  "rc_initialized (snd (SyncLocalPeerProgress c)) = rc_initialized c"
  by (auto simp: SyncLocalPeerProgress_def put_progress_def split: sum.splits)

section \<open>Terms and roles\<close>

lemma role_update_le:
  assumes "core_inv c" "rc_role c = LEARNER \<longrightarrow> r = LEARNER" "r = LEADER \<longrightarrow> x = rc_node_id c"
  shows "core_le c (c\<lparr>rc_role := r, rc_leader_id := x\<rparr>)"
  using assms by (simp add: core_defs)

lemma term_update_le:
  assumes "core_inv c" "current_term c < t"
  shows "core_le c (c\<lparr>rc_hard_state := (rc_hard_state c)\<lparr>hs_current_term := t, hs_voted_for := v\<rparr>\<rparr>)"
  using assms by (simp add: core_defs) auto

lemma vote_update_le:
  assumes "core_inv c" "voted_for c = kInvalidNodeId \<or> voted_for c = v"
  shows "core_le c (c\<lparr>rc_hard_state := (rc_hard_state c)\<lparr>hs_voted_for := v\<rparr>\<rparr>)"
  using assms by (auto simp: core_defs)

lemma step_aside_le [core_step]: "core_inv c \<Longrightarrow> core_le c (step_aside c)"
  by (simp add: step_aside_def core_defs)

lemma UpdateCurrentTerm_eq:
  assumes "rc_initialized c"
  shows "UpdateCurrentTerm c t =
    (if t < current_term c then (InvalidArgument, c)
     else if current_term c < t
       then (OK, c\<lparr>rc_hard_state := (rc_hard_state c)\<lparr>hs_current_term := t, hs_voted_for := kInvalidNodeId\<rparr>\<rparr>)
     else (OK, c))"
  using assms by (simp add: UpdateCurrentTerm_def ValidateTransitionTerm_def)

lemma UpdateCurrentTerm_le [core_step]: "core_inv c \<Longrightarrow> core_le c (snd (UpdateCurrentTerm c t))"
  using term_update_le by (simp add: UpdateCurrentTerm_eq core_invD(1))

lemma UpdateCurrentTerm_fields:
  "rc_log (snd (UpdateCurrentTerm c t)) = rc_log c" "rc_role (snd (UpdateCurrentTerm c t)) = rc_role c"
  "rc_node_id (snd (UpdateCurrentTerm c t)) = rc_node_id c"
  "rc_peer_progress (snd (UpdateCurrentTerm c t)) = rc_peer_progress c"
  "rc_persisted_hard_state (snd (UpdateCurrentTerm c t)) = rc_persisted_hard_state c"
  by (simp_all add: UpdateCurrentTerm_def Let_def)

lemma BecomeFollowerForRemote_eq:
  assumes "rc_initialized c"
  shows "BecomeFollowerForRemote c t x =
    (if t < current_term c then (InvalidArgument, c)
     else (OK, ResetElectionTicks ((snd (UpdateCurrentTerm c t))
            \<lparr>rc_role := (if rc_role c = LEARNER then LEARNER else FOLLOWER), rc_leader_id := x\<rparr>)))"
proof -
  have keep: "d\<lparr>rc_role := LEARNER, rc_leader_id := x\<rparr> = d\<lparr>rc_leader_id := x\<rparr>"
    if "rc_role d = LEARNER" for d :: RaftCore
    using that by (intro RaftCore.equality) simp_all
  show ?thesis
    using assms by (simp add: BecomeFollowerForRemote_def UpdateCurrentTerm_eq Let_def keep)
qed

lemma BecomeFollowerForRemote_le [core_step]:
  assumes "core_inv c"
  shows "core_le c (snd (BecomeFollowerForRemote c t x))"
proof (cases "t < current_term c")
  case True
  then show ?thesis using assms by (simp add: BecomeFollowerForRemote_eq core_invD(1))
next
  case False
  let ?c1 = "snd (UpdateCurrentTerm c t)"
  let ?c2 = "?c1\<lparr>rc_role := (if rc_role c = LEARNER then LEARNER else FOLLOWER), rc_leader_id := x\<rparr>"
  have l1: "core_le c ?c1" using assms by (rule UpdateCurrentTerm_le)
  have l2: "core_le ?c1 ?c2"
    using core_le_inv [OF l1] by (rule role_update_le) (simp_all add: UpdateCurrentTerm_fields)
  have "core_le c (ResetElectionTicks ?c2)"
    by (rule core_le_trans [OF l1 core_le_trans [OF l2 ResetElectionTicks_le [OF core_le_inv [OF l2]]]])
  then show ?thesis using False assms by (simp add: BecomeFollowerForRemote_eq core_invD(1))
qed

lemma BecomeFollowerForRemote_log [simp]: "rc_log (snd (BecomeFollowerForRemote c t x)) = rc_log c"
  by (cases "UpdateCurrentTerm c t")
    (use UpdateCurrentTerm_fields(1) [of c t] in \<open>auto simp: BecomeFollowerForRemote_def Let_def\<close>)

lemma BecomeFollower_le [core_step]: "core_inv c \<Longrightarrow> core_le c (snd (BecomeFollower c t x))"
  by (simp add: BecomeFollower_def Let_def BecomeFollowerForRemote_le)

lemma StartElection_le [core_step]:
  assumes "core_inv c" "current_term c < - 1"
  shows "core_le c (snd (StartElection c))"
proof (cases "rc_role c = LEADER \<or> rc_role c = LEARNER")
  case True
  then show ?thesis using assms(1) by (auto simp: StartElection_def)
next
  case False
  have "current_term c < current_term c + 1"
    using unat_inc [OF assms(2)] by (simp add: word_less_nat_alt)
  then show ?thesis
    using False assms(1) by (simp add: StartElection_def core_defs)
qed

lemma Tick_le [core_step]:
  assumes "core_inv c" "current_term c < - 1"
  shows "core_le c (snd (Tick c p))"
proof -
  let ?c1 = "c\<lparr>rc_logical_ticks := rc_logical_ticks c + 1\<rparr>"
  let ?c2 = "?c1\<lparr>rc_election_elapsed_ticks := rc_election_elapsed_ticks ?c1 + 1\<rparr>"
  have l1: "core_le c ?c1" using assms(1) by (rule ticks_le)
  have l2: "core_le c ?c2" by (rule core_le_trans [OF l1 ticks_le(2) [OF core_le_inv [OF l1]]])
  have "core_le ?c2 (snd (StartElection ?c2))"
    using core_le_inv [OF l2] assms(2) by (intro StartElection_le) (simp_all add: current_term_def)
  then have "core_le c (snd (StartElection ?c2))" by (rule core_le_trans [OF l2])
  then have l3: "core_le c (snd (then_get (StartElection ?c2) (\<lambda>c3. (Inr START_ELECTION, c3))))"
    by (rule then_get_le) simp
  show ?thesis
    unfolding Tick_def Let_def
    by (split if_split, intro conjI impI, simp add: assms(1), split if_split, intro conjI impI,
        simp only: snd_conv l1, split if_split, intro conjI impI, simp only: snd_conv l2, rule l3)
qed

section \<open>Staging\<close>

lemma messages_update_le:
  assumes "core_inv c"
    "queue_inv (c\<lparr>rc_immediate_messages := im, rc_persisted_messages := pm\<rparr>)"
  shows "core_le c (c\<lparr>rc_immediate_messages := im, rc_persisted_messages := pm\<rparr>)"
  using assms by (simp add: core_defs)

lemma StageMessage_OK [simp]: "fst (StageMessage c m h i) = OK"
  by (simp add: StageMessage_def Let_def)

lemma StageMessage_shape:
  "\<exists>im pm. snd (StageMessage c m h i) = c\<lparr>rc_immediate_messages := im, rc_persisted_messages := pm\<rparr>"
  by (intro exI [of _ "rc_immediate_messages (snd (StageMessage c m h i))"]
      exI [of _ "rc_persisted_messages (snd (StageMessage c m h i))"])
    (simp add: StageMessage_def Let_def)

lemma StageMessage_queued:
  "mset (queued (snd (StageMessage c m h i))) =
     mset (filter (\<lambda>x. message_key x \<noteq> message_key m) (queued c)) + {#m#}"
proof -
  have key: "(\<lambda>x. \<not> (msg_type x = msg_type m \<and> msg_target_node_id x = msg_target_node_id m)) =
      (\<lambda>x. message_key x \<noteq> message_key m)"
    by (simp add: message_key_def)
  show ?thesis
    by (simp add: StageMessage_def Let_def queued_def key filter_map o_def)
      (simp add: message_key_def)
qed

lemma mset_distinct_map: "mset xs = mset ys \<Longrightarrow> distinct (map f xs) \<longleftrightarrow> distinct (map f ys)"
  by (metis mset_eq_imp_distinct_iff mset_map)

lemma StageMessage_queue_inv:
  assumes "queue_inv c"
  shows "queue_inv (snd (StageMessage c m h i))"
proof -
  let ?f = "filter (\<lambda>x. message_key x \<noteq> message_key m) (queued c)"
  have "distinct (map message_key (?f @ [m]))"
    using assms by (auto simp: queue_inv_def distinct_map_filter)
  moreover have "mset (queued (snd (StageMessage c m h i))) = mset (?f @ [m])"
    by (simp add: StageMessage_queued)
  ultimately show ?thesis unfolding queue_inv_def using mset_distinct_map by blast
qed

lemma StageMessage_le [core_step]: "core_inv c \<Longrightarrow> core_le c (snd (StageMessage c m h i))"
  using StageMessage_queue_inv [of c m h i] StageMessage_shape [of c m h i] messages_update_le
  by (metis core_invD(7))

lemma StageMessage_fields:
  "rc_log (snd (StageMessage c m h i)) = rc_log c" "rc_role (snd (StageMessage c m h i)) = rc_role c"
  "rc_hard_state (snd (StageMessage c m h i)) = rc_hard_state c"
  "rc_node_id (snd (StageMessage c m h i)) = rc_node_id c"
  "rc_peer_progress (snd (StageMessage c m h i)) = rc_peer_progress c"
  "rc_membership_state (snd (StageMessage c m h i)) = rc_membership_state c"
  "rc_voter_ids (snd (StageMessage c m h i)) = rc_voter_ids c"
  "rc_learner_ids (snd (StageMessage c m h i)) = rc_learner_ids c"
  "rc_leader_id (snd (StageMessage c m h i)) = rc_leader_id c"
  "rc_initialized (snd (StageMessage c m h i)) = rc_initialized c"
  "rc_persisted_hard_state (snd (StageMessage c m h i)) = rc_persisted_hard_state c"
  by (simp_all add: StageMessage_def Let_def)

lemma stage_then_le [core_step]:
  "core_inv c \<Longrightarrow> core_le c (snd (then_get (StageMessage c m h i) (\<lambda>c1. (Inr x, c1))))"
  by (rule then_get_le) (simp_all add: StageMessage_le)

lemma ReclassifyBlockedMessages_le [core_step]:
  assumes "core_inv c"
  shows "core_le c (snd (ReclassifyBlockedMessages c))"
proof -
  let ?im = "rc_immediate_messages c @ map pm_message (filter (pending_ready c) (rc_persisted_messages c))"
  let ?pm = "filter (\<lambda>p. \<not> pending_ready c p) (rc_persisted_messages c)"
  have "mset (queued (c\<lparr>rc_immediate_messages := ?im, rc_persisted_messages := ?pm\<rparr>)) = mset (queued c)"
    by (simp add: queued_def flip: image_mset_union)
  then have "queue_inv (c\<lparr>rc_immediate_messages := ?im, rc_persisted_messages := ?pm\<rparr>)"
    using core_invD(7) [OF assms] mset_distinct_map unfolding queue_inv_def by blast
  then show ?thesis
    using messages_update_le [OF assms] by (simp add: ReclassifyBlockedMessages_def)
qed

section \<open>The log and the commit index\<close>

lemma log_le_commit: "lg_commit_index l \<le> i \<Longrightarrow> log_le l (l\<lparr>lg_commit_index := i\<rparr>)"
  by (simp add: log_le_def)

lemma log_le_stable: "log_le l (l\<lparr>lg_stable_index := i\<rparr>)"
  by (simp add: log_le_def)

lemma log_le_applied: "lg_applied_index l \<le> i \<Longrightarrow> log_le l (l\<lparr>lg_applied_index := i\<rparr>)"
  by (simp add: log_le_def)

lemma log_le_append:
  assumes inv: "log_inv l" and es: "contiguous_from (unat (last_index l)) es"
  shows "log_le l (l\<lparr>lg_entries := lg_entries l @ es\<rparr>)"
proof -
  have "abs_log (l\<lparr>lg_entries := lg_entries l @ es\<rparr>) i = abs_log l i" if "i \<le> lg_commit_index l" for i
  proof (rule option_eqI)
    fix e
    have "le_index e \<noteq> i" if "e \<in> set es" for e
      using contiguous_from_bounds(1) [OF es that] log_inv_order(5) [OF inv] \<open>i \<le> lg_commit_index l\<close>
      by (auto simp: idx)
    then show "abs_log (l\<lparr>lg_entries := lg_entries l @ es\<rparr>) i = Some e \<longleftrightarrow> abs_log l i = Some e"
      using abs_log_append [OF assms] by blast
  qed
  then show ?thesis by (simp add: log_le_def)
qed

lemma log_le_truncated:
  assumes "log_inv l" "last_index l < - 1" "lg_commit_index l < i" "i \<le> last_index l + 1"
  shows "log_le l (log_truncated l i)"
  using assms abs_log_truncated [OF assms]
  by (auto simp: log_le_def log_truncated_def)

lemma log_le_compacted:
  assumes "log_inv l" "lg_snapshot_index l \<le> i" "i \<le> lg_applied_index l"
    "i = kInvalidLogIndex \<longleftrightarrow> t = kInitialTerm"
  shows "log_le l (log_compacted l i t)"
  using assms abs_log_compacted [OF assms]
  by (auto simp: log_le_def log_compacted_def)

lemma commit_to_eq:
  assumes "log_inv (rc_log c)"
  shows "commit_to c i =
    (if lg_commit_index (rc_log c) \<le> i \<and> i \<le> last_index (rc_log c)
     then (OK, c\<lparr>rc_log := (rc_log c)\<lparr>lg_commit_index := i\<rparr>,
                 rc_hard_state := (rc_hard_state c)\<lparr>hs_commit_index := i\<rparr>\<rparr>)
     else (InvalidArgument, c))"
  by (simp add: commit_to_def AdvanceCommitTo_eq [OF assms])

lemma commit_to_le [core_step]:
  assumes "core_inv c"
  shows "core_le c (snd (commit_to c i))"
proof (cases "lg_commit_index (rc_log c) \<le> i \<and> i \<le> last_index (rc_log c)")
  case True
  then have "log_inv ((rc_log c)\<lparr>lg_commit_index := i\<rparr>)" "log_le (rc_log c) ((rc_log c)\<lparr>lg_commit_index := i\<rparr>)"
    using log_inv_markers(2) [OF core_invD(3) [OF assms]] log_le_commit by auto
  with assms True show ?thesis
    unfolding commit_to_eq [OF core_invD(3) [OF assms]] by (simp add: core_defs)
next
  case False
  then have "commit_to c i = (InvalidArgument, c)"
    unfolding commit_to_eq [OF core_invD(3) [OF assms]] by simp
  then show ?thesis using assms by simp
qed

lemma TryAdvanceCommitIndex_loop_le:
  "core_inv c \<Longrightarrow> core_le c (snd (TryAdvanceCommitIndex_loop c i))"
proof (induction c i rule: TryAdvanceCommitIndex_loop.induct)
  case (1 c i)
  show ?case
    by (subst TryAdvanceCommitIndex_loop.simps)
      (use 1 commit_to_le in \<open>auto split: sum.splits bool.splits\<close>)
qed

lemma TryAdvanceCommitIndex_le [core_step]: "core_inv c \<Longrightarrow> core_le c (snd (TryAdvanceCommitIndex c))"
  by (simp add: TryAdvanceCommitIndex_def TryAdvanceCommitIndex_loop_le)

lemma follow_commit_le [core_step]: "core_inv c \<Longrightarrow> core_le c (snd (follow_commit c i))"
  by (simp add: follow_commit_def Let_def commit_to_le)

lemma Append_own_entry:
  assumes inv: "log_inv (rc_log c)" and last: "last_index (rc_log c) < - 1"
  shows "Append (rc_log c) (own_entry c type payload) =
    (if current_term c = kInitialTerm then (InvalidArgument, rc_log c)
     else (OK, (rc_log c)\<lparr>lg_entries := lg_entries (rc_log c) @ [own_entry c type payload]\<rparr>))"
proof -
  have "contiguous_from (unat (last_index (rc_log c))) [own_entry c type payload] \<longleftrightarrow>
      current_term c \<noteq> kInitialTerm"
    using unat_inc [OF last] by (simp add: contiguous_from_def own_entry_def)
  then show ?thesis by (simp add: Append_def Append_batch_eq [OF inv])
qed

lemma append_own_le [core_step]:
  assumes c: "core_inv c" and last: "last_index (rc_log c) < - 1"
  shows "core_le c (snd (append_own c type payload))"
proof -
  note inv = core_invD(3) [OF c]
  let ?e = "own_entry c type payload"
  let ?l = "(rc_log c)\<lparr>lg_entries := lg_entries (rc_log c) @ [?e]\<rparr>"
  show ?thesis
  proof (cases "current_term c = kInitialTerm")
    case True
    then have "snd (append_own c type payload) = c"
      by (simp add: append_own_def Let_def Append_own_entry [OF inv last])
    then show ?thesis using c by simp
  next
    case False
    have es: "contiguous_from (unat (last_index (rc_log c))) [?e]"
      using unat_inc [OF last] False by (simp add: contiguous_from_def own_entry_def)
    have l1: "core_le c (c\<lparr>rc_log := ?l\<rparr>)"
      using c log_inv_append(1) [OF inv es] log_le_append [OF inv es] by (intro log_update_le) simp_all
    have l2: "core_le (c\<lparr>rc_log := ?l\<rparr>) (put_progress (rc_node_id c) (p\<lparr>pp_match_index := i, pp_next_index := j\<rparr>)
          (c\<lparr>rc_log := ?l\<rparr>))"
      if "map_find (rc_peer_progress c) (rc_node_id c) = Some p" for p i j
      using core_le_inv [OF l1] that
      by (intro put_progress_le [where p = p]) (simp_all add: FindPeerProgress_Inr)
    show ?thesis
      using False l1 core_le_trans [OF l1 l2]
      by (simp add: append_own_def Let_def Append_own_entry [OF inv last] split: option.splits)
  qed
qed

lemma ConfirmApplied_le [core_step]:
  assumes c: "core_inv c"
  shows "core_le c (snd (ConfirmApplied c i))"
proof -
  have "core_le c (c\<lparr>rc_log := (rc_log c)\<lparr>lg_applied_index := i\<rparr>\<rparr>)"
    if "lg_applied_index (rc_log c) \<le> i" "i \<le> lg_commit_index (rc_log c)"
    using c that log_inv_markers(3) [OF core_invD(3) [OF c] that] log_le_applied [OF that(1)]
    by (intro log_update_le) simp_all
  then show ?thesis
    using c by (auto simp: ConfirmApplied_def AdvanceAppliedTo_eq [OF core_invD(3) [OF c]])
qed

lemma ConfirmPersistence_le [core_step]:
  assumes c: "core_inv c"
  shows "core_le c (snd (ConfirmPersistence c p))"
proof -
  let ?i = "pc_stable_index p"
  define c1 where "c1 = (if pc_hard_state_persisted p
    then c\<lparr>rc_persisted_hard_state := rc_hard_state c\<rparr> else c)"
  have l1: "core_le c c1" using c ticks_le(4) by (simp add: c1_def)
  have log: "rc_log c1 = rc_log c" by (simp add: c1_def)
  note inv = core_invD(3) [OF c]
  have l2: "core_le c1 (c1\<lparr>rc_log := (rc_log c)\<lparr>lg_stable_index := ?i\<rparr>\<rparr>)"
    if "lg_stable_index (rc_log c) \<le> ?i" "?i \<le> last_index (rc_log c)"
    using core_le_inv [OF l1] log_inv_markers(1) [OF inv that] log_le_stable
    by (intro log_update_le) (simp_all add: log)
  have adv: "core_le c (snd (if lg_stable_index (rc_log c1) < ?i
        then (case AdvanceStableTo (rc_log c1) ?i of (status, l) \<Rightarrow> (status, c1\<lparr>rc_log := l\<rparr>))
        else (OK, c1)))"
    if "?i \<le> last_index (rc_log c)"
    using l1 core_le_trans [OF l1 l2] that by (simp add: AdvanceStableTo_eq [OF inv] log less_imp_le)
  have finish: "core_le c (snd (then_do (if lg_stable_index (rc_log c1) < ?i
        then (case AdvanceStableTo (rc_log c1) ?i of (status, l) \<Rightarrow> (status, c1\<lparr>rc_log := l\<rparr>))
        else (OK, c1)) ReclassifyBlockedMessages))"
    if "?i \<le> last_index (rc_log c)"
    using adv [OF that] by (rule then_do_le) (rule ReclassifyBlockedMessages_le)
  show ?thesis
    using c finish unfolding ConfirmPersistence_def Let_def c1_def [symmetric]
    by (auto simp del: then_do.simps simp: not_less)
qed

text \<open>
  What an accepted request does to the log: nothing, or its missing suffix \<open>post\<close> is appended
  to the log, from which a conflicting suffix may have been cut.
\<close>

inductive stores :: "RaftLog \<Rightarrow> LogEntry list \<Rightarrow> Status \<times> RaftLog \<Rightarrow> bool" for l es where
  rejected: "st \<noteq> OK \<Longrightarrow> stores l es (st, l)"
| present: "\<forall>e \<in> set es. Matches l (le_index e) (le_term e) \<and> le_index e \<le> last_index l \<Longrightarrow>
    stores l es (OK, l)"
| appended: "es = pre @ post \<Longrightarrow> post \<noteq> [] \<Longrightarrow>
    \<forall>e \<in> set pre. Matches l (le_index e) (le_term e) \<and> le_index e \<le> last_index l \<Longrightarrow>
    contiguous_from (unat (last_index l)) post \<Longrightarrow>
    stores l es (OK, l\<lparr>lg_entries := lg_entries l @ post\<rparr>)"
| replaced: "es = pre @ post \<Longrightarrow> post \<noteq> [] \<Longrightarrow>
    \<forall>e \<in> set pre. Matches l (le_index e) (le_term e) \<and> le_index e \<le> last_index l \<Longrightarrow>
    i = le_index (hd post) \<Longrightarrow> lg_commit_index l < i \<Longrightarrow> i \<le> last_index l \<Longrightarrow>
    contiguous_from (unat (i - 1)) post \<Longrightarrow> contiguous_from n es \<Longrightarrow>
    l' = log_truncated l i \<Longrightarrow>
    stores l es (OK, l'\<lparr>lg_entries := lg_entries l' @ post\<rparr>)"

lemma contiguous_drop:
  assumes "contiguous_from n (pre @ post)"
  shows "contiguous_from (n + length pre) post"
proof -
  have "unat (le_index (post ! k)) = n + length pre + Suc k" if "k < length post" for k
    using assms that unfolding contiguous_from_def
    by (auto simp: nth_append dest: spec [of _ "length pre + k"])
  then show ?thesis using assms by (auto simp: contiguous_from_def)
qed

lemma contiguous_hd:
  assumes "contiguous_from n es" "es \<noteq> []"
  shows "unat (le_index (hd es)) = Suc n" "unat (le_index (hd es) - 1) = n"
proof -
  show "unat (le_index (hd es)) = Suc n"
    using assms by (auto simp: contiguous_from_def hd_conv_nth)
  then show "unat (le_index (hd es) - 1) = n"
    by (subst unat_dec) (auto simp: word_gt_0)
qed

lemma request_suffix:
  assumes "contiguous_from n (pre @ post)" "post \<noteq> []"
  shows "drop (unat (le_index (hd post) - le_index (hd (pre @ post)))) (pre @ post) = post"
proof -
  have h: "unat (le_index (hd (pre @ post))) = Suc n" "unat (le_index (hd post)) = Suc (n + length pre)"
    using contiguous_hd(1) [OF assms(1)] contiguous_hd(1) [OF contiguous_drop [OF assms(1)]] assms(2)
    by simp_all
  then have "unat (le_index (hd post) - le_index (hd (pre @ post))) = length pre"
    by (subst unat_sub) (simp_all add: word_le_nat_alt)
  then show ?thesis by simp
qed

lemma GetTerm_not_OK: "GetTerm l i p \<noteq> Inl OK"
  by (cases p) (simp_all add: GetTerm_def)

lemma FindConflict_not_OK: "FindConflict l es p \<noteq> Inl OK"
proof -
  have "FindConflict_loop l es \<noteq> Inl OK"
    by (induction l es rule: FindConflict_loop.induct) (auto simp: GetTerm_not_OK split: sum.splits)
  then show ?thesis by (cases p) (simp_all add: FindConflict_def Let_def)
qed

lemma store_entries_stores:
  assumes inv: "log_inv (rc_log c)" and last: "last_index (rc_log c) < - 1"
  shows "\<exists>st l. store_entries c es = (st, c\<lparr>rc_log := l\<rparr>) \<and> stores (rc_log c) es (st, l)"
proof -
  let ?l = "rc_log c"
  have same: "c\<lparr>rc_log := ?l\<rparr> = c" by simp
  show ?thesis
  proof (cases "FindConflict ?l es out")
    case (Inl st)
    then have "st \<noteq> OK" using FindConflict_not_OK by metis
    moreover have "es \<noteq> []" using Inl by (auto simp: FindConflict_def)
    ultimately show ?thesis
      using Inl stores.rejected by (intro exI [of _ st] exI [of _ ?l]) (simp add: store_entries_def)
  next
    case (Inr r)
    show ?thesis
    proof (cases "es = []")
      case True
      then show ?thesis
        using stores.present by (intro exI [of _ OK] exI [of _ ?l]) (simp add: store_entries_def)
    next
      case ne: False
      note valid = FindConflict_valid [OF Inr ne]
      obtain r' where "FindConflict_loop ?l es = Inr r'" "conflict_spec ?l es r'"
        using FindConflict_loop_spec [OF inv valid(3)] by blast
      then have spec: "conflict_spec ?l es r" using valid(2) by simp
      obtain pre post where split: "es = pre @ post"
        "\<forall>x \<in> set pre. Matches ?l (le_index x) (le_term x) \<and> le_index x \<le> last_index ?l"
        "cr_type r = Conflict_NONE \<longrightarrow> post = []"
        "cr_type r \<noteq> Conflict_NONE \<longrightarrow> post \<noteq> [] \<and> cr_index r = le_index (hd post)"
        "cr_type r = Conflict_CONFLICT \<longrightarrow> cr_index r \<le> last_index ?l"
        using conflict_spec_split [OF spec] by blast
      have suffix: "drop (unat (cr_index r - le_index (hd es))) es = post" if "cr_type r \<noteq> Conflict_NONE"
        using request_suffix valid(1) split(1,4) that by metis
      consider (none) "cr_type r = Conflict_NONE" | (append) "cr_type r = Conflict_APPEND"
        | (conflict) "cr_type r = Conflict_CONFLICT"
        by (cases "cr_type r") auto
      then show ?thesis
      proof cases
        case none
        then have "\<forall>e \<in> set es. Matches ?l (le_index e) (le_term e) \<and> le_index e \<le> last_index ?l"
          using split(1,2,3) by simp
        then have "stores ?l es (OK, ?l)" by (rule stores.present)
        then show ?thesis
          using none ne Inr by (intro exI [of _ OK] exI [of _ ?l]) (simp add: store_entries_def)
      next
        case append
        then have post: "post \<noteq> []" using split(4) by simp
        have eq: "store_entries c es =
          (if contiguous_from (unat (last_index ?l)) post
           then (OK, c\<lparr>rc_log := ?l\<lparr>lg_entries := lg_entries ?l @ post\<rparr>\<rparr>) else (InvalidArgument, c))"
          using append ne Inr suffix by (simp add: store_entries_def Append_batch_eq [OF inv])
        show ?thesis
        proof (cases "contiguous_from (unat (last_index ?l)) post")
          case True
          have "stores ?l es (OK, ?l\<lparr>lg_entries := lg_entries ?l @ post\<rparr>)"
            by (rule stores.appended [OF split(1) post split(2) True])
          then show ?thesis unfolding eq using True by auto
        next
          case False
          have "stores ?l es (InvalidArgument, ?l)" by (rule stores.rejected) simp
          then show ?thesis
            unfolding eq using False by (intro exI [of _ InvalidArgument] exI [of _ ?l]) simp
        qed
      next
        case conflict
        then have post: "post \<noteq> []" "cr_index r = le_index (hd post)" "cr_index r \<le> last_index ?l"
          using split(4,5) by simp_all
        let ?i = "cr_index r"
        show ?thesis
        proof (cases "lg_commit_index ?l < ?i \<and> ?i \<le> last_index ?l + 1")
          case True
          then have i: "lg_commit_index ?l < ?i" "?i \<le> last_index ?l + 1" by simp_all
          have cont: "contiguous_from (unat (?i - 1)) post"
            using contiguous_drop [of _ pre post] contiguous_hd(2) [of _ post] valid(1) split(1) post(1,2)
            by metis
          let ?l1 = "log_truncated ?l ?i"
          have "Append_batch ?l1 post = (OK, ?l1\<lparr>lg_entries := lg_entries ?l1 @ post\<rparr>)"
            using cont Append_batch_eq [OF log_inv_truncated [OF inv last i]]
            by (simp add: last_index_truncated [OF inv last i])
          then have eq: "store_entries c es = (OK, c\<lparr>rc_log := ?l1\<lparr>lg_entries := lg_entries ?l1 @ post\<rparr>\<rparr>)"
            using conflict ne Inr suffix True by (simp add: store_entries_def TruncateSuffix_eq [OF inv last])
          have "stores ?l es (OK, ?l1\<lparr>lg_entries := lg_entries ?l1 @ post\<rparr>)"
            by (rule stores.replaced [OF split(1) post(1) split(2) post(2) i(1) post(3) cont valid(1) refl])
          then show ?thesis unfolding eq by blast
        next
          case False
          then have "store_entries c es = (InvalidArgument, c)"
            using conflict ne Inr by (auto simp: store_entries_def TruncateSuffix_eq [OF inv last])
          moreover have "stores ?l es (InvalidArgument, ?l)" by (rule stores.rejected) simp
          ultimately show ?thesis
            by (intro exI [of _ InvalidArgument] exI [of _ ?l]) simp
        qed
      qed
    qed
  qed
qed

lemma stores_log:
  assumes "stores l es (st, l')" and inv: "log_inv l" and last: "last_index l < - 1"
  shows "log_inv l' \<and> log_le l l' \<and> lg_commit_index l' = lg_commit_index l \<and>
    lg_snapshot_index l' = lg_snapshot_index l"
  using assms(1)
proof cases
  case (appended pre post)
  then show ?thesis using log_inv_append(1) [OF inv] log_le_append [OF inv] by simp
next
  case (replaced pre post i n l1)
  then have i: "lg_commit_index l < i" "i \<le> last_index l + 1"
    using unat_inc [OF last] by (auto simp: idx)
  note inv1 = log_inv_truncated [OF inv last i]
  have cont: "contiguous_from (unat (last_index (log_truncated l i))) post"
    unfolding last_index_truncated [OF inv last i] using replaced by blast
  show ?thesis
    using replaced log_inv_append(1) [OF inv1 cont] log_le_append [OF inv1 cont]
      log_le_trans [OF log_le_truncated [OF inv last i]]
    by (simp add: log_truncated_def)
qed (use inv in simp_all)

lemma store_entries_le [core_step]:
  assumes c: "core_inv c" and last: "last_index (rc_log c) < - 1"
  shows "core_le c (snd (store_entries c es))"
proof -
  obtain st l where s: "store_entries c es = (st, c\<lparr>rc_log := l\<rparr>)" "stores (rc_log c) es (st, l)"
    using store_entries_stores [OF core_invD(3) [OF c] last] by blast
  show ?thesis
    unfolding s(1) snd_conv
    using stores_log [OF s(2) core_invD(3) [OF c] last] by (intro log_update_le [OF c]) simp_all
qed

section \<open>Membership\<close>

text \<open>The progress map after the loops over the new member lists.\<close>

lemma fold_ensure_voter:
  assumes "map_wf m" "\<forall>n p. map_find m n = Some p \<longrightarrow> pp_node_id p = n"
  shows "map_wf (fold (ensure_voter c) ns m)" (is ?wf)
    and "\<forall>n p. map_find (fold (ensure_voter c) ns m) n = Some p \<longrightarrow> pp_node_id p = n" (is ?ids)
    and "\<forall>n. map_find (fold (ensure_voter c) ns m) n \<noteq> None \<longleftrightarrow> map_find m n \<noteq> None \<or> n \<in> set ns" (is ?dom)
proof -
  have "map_wf (fold (ensure_voter c) ns m) \<and>
      (\<forall>n p. map_find (fold (ensure_voter c) ns m) n = Some p \<longrightarrow> pp_node_id p = n) \<and>
      (\<forall>n. map_find (fold (ensure_voter c) ns m) n \<noteq> None \<longleftrightarrow> map_find m n \<noteq> None \<or> n \<in> set ns)"
    using assms
  proof (induction ns arbitrary: m)
    case (Cons x ns)
    have "map_wf (ensure_voter c x m)"
      "\<forall>n p. map_find (ensure_voter c x m) n = Some p \<longrightarrow> pp_node_id p = n"
      "\<forall>n. map_find (ensure_voter c x m) n \<noteq> None \<longleftrightarrow> map_find m n \<noteq> None \<or> n = x"
      using Cons.prems by (auto simp: ensure_voter_def fresh_progress_def split: option.splits)
    with Cons.IH [of "ensure_voter c x m"] show ?case by auto
  qed simp
  then show ?wf ?ids ?dom by blast+
qed

lemma fold_ensure_learner:
  assumes "map_wf m" "\<forall>n p. map_find m n = Some p \<longrightarrow> pp_node_id p = n"
  shows "map_wf (fold (ensure_learner c) ns m)" (is ?wf)
    and "\<forall>n p. map_find (fold (ensure_learner c) ns m) n = Some p \<longrightarrow> pp_node_id p = n" (is ?ids)
    and "\<forall>n. map_find (fold (ensure_learner c) ns m) n \<noteq> None \<longleftrightarrow> map_find m n \<noteq> None \<or> n \<in> set ns" (is ?dom)
proof -
  have "map_wf (fold (ensure_learner c) ns m) \<and>
      (\<forall>n p. map_find (fold (ensure_learner c) ns m) n = Some p \<longrightarrow> pp_node_id p = n) \<and>
      (\<forall>n. map_find (fold (ensure_learner c) ns m) n \<noteq> None \<longleftrightarrow> map_find m n \<noteq> None \<or> n \<in> set ns)"
    using assms
  proof (induction ns arbitrary: m)
    case (Cons x ns)
    have "map_wf (ensure_learner c x m)"
      "\<forall>n p. map_find (ensure_learner c x m) n = Some p \<longrightarrow> pp_node_id p = n"
      "\<forall>n. map_find (ensure_learner c x m) n \<noteq> None \<longleftrightarrow> map_find m n \<noteq> None \<or> n = x"
      using Cons.prems by (auto simp: ensure_learner_def fresh_progress_def split: option.splits)
    with Cons.IH [of "ensure_learner c x m"] show ?case by auto
  qed simp
  then show ?wf ?ids ?dom by blast+
qed

lemma member_progress_peers:
  assumes "map_wf (rc_peer_progress c)"
    "\<forall>n p. map_find (rc_peer_progress c) n = Some p \<longrightarrow> pp_node_id p = n"
  shows "peers_inv (d\<lparr>rc_voter_ids := vs, rc_learner_ids := ls, rc_peer_progress := member_progress c vs ls\<rparr>)"
proof -
  note v = fold_ensure_voter [OF assms, of c vs]
  note l = fold_ensure_learner [OF v(1,2), of c ls]
  show ?thesis
    using v l by (auto simp: peers_inv_def member_progress_def ContainsNode_def)
qed

lemma fold_emplace_find:
  "map_find (fold (\<lambda>n. map_emplace n (f n)) ns m) k =
     (case map_find m k of Some p \<Rightarrow> Some p | None \<Rightarrow> if k \<in> set ns then Some (f k) else None)"
  by (induction ns arbitrary: m) (auto split: option.splits)

lemma fold_emplace_wf: "map_wf m \<Longrightarrow> map_wf (fold (\<lambda>n. map_emplace n (f n)) ns m)"
  by (induction ns arbitrary: m) auto

lemma reset_progress_peers:
  "peers_inv (c\<lparr>rc_peer_progress :=
     fold (\<lambda>n. map_emplace n (fresh_progress c True (n = rc_node_id c) n)) (rc_learner_ids c)
       (fold (\<lambda>n. map_emplace n (fresh_progress c False (n = rc_node_id c) n)) (rc_voter_ids c) [])\<rparr>)"
  by (auto simp: peers_inv_def fold_emplace_find fold_emplace_wf fresh_progress_def
      split: option.splits if_splits)

lemma SyncLocalPeerProgress_shape:
  "\<exists>pm. SyncLocalPeerProgress (c\<lparr>rc_peer_progress := m\<rparr>) = (OK, c\<lparr>rc_peer_progress := pm\<rparr>)"
  by (auto simp: SyncLocalPeerProgress_def put_progress_def FindPeerProgress_Inl split: sum.splits)

lemma SyncLocalPeerProgress_peers: "peers_inv c \<Longrightarrow> peers_inv (snd (SyncLocalPeerProgress c))"
  by (auto simp: SyncLocalPeerProgress_def FindPeerProgress_Inr intro: put_progress_peers split: sum.splits)

lemma ResetPeerProgress_peers: "peers_inv (snd (ResetPeerProgress c))"
proof -
  let ?c = "c\<lparr>rc_peer_progress :=
     fold (\<lambda>n. map_emplace n (fresh_progress c True (n = rc_node_id c) n)) (rc_learner_ids c)
       (fold (\<lambda>n. map_emplace n (fresh_progress c False (n = rc_node_id c) n)) (rc_voter_ids c) [])\<rparr>"
  have "peers_inv ?c" by (rule reset_progress_peers)
  then have "peers_inv (snd (SyncLocalPeerProgress ?c))" by (rule SyncLocalPeerProgress_peers)
  then show ?thesis by (simp add: ResetPeerProgress_def Let_def)
qed

lemma ResetPeerProgress_le [core_step]:
  assumes "core_inv c"
  shows "core_le c (snd (ResetPeerProgress c))"
proof -
  let ?m = "fold (\<lambda>n. map_emplace n (fresh_progress c True (n = rc_node_id c) n)) (rc_learner_ids c)
       (fold (\<lambda>n. map_emplace n (fresh_progress c False (n = rc_node_id c) n)) (rc_voter_ids c) [])"
  have l1: "core_le c (c\<lparr>rc_peer_progress := ?m\<rparr>)"
    by (rule progress_update_le [OF assms reset_progress_peers])
  show ?thesis
    using core_le_trans [OF l1 SyncLocalPeerProgress_le [OF core_le_inv [OF l1]]]
    by (simp add: ResetPeerProgress_def Let_def)
qed

lemma BecomeLeader_le [core_step]:
  assumes "core_inv c"
  shows "core_le c (snd (BecomeLeader c))"
proof (cases "rc_role c = CANDIDATE")
  case True
  let ?c1 = "c\<lparr>rc_role := LEADER, rc_leader_id := rc_node_id c\<rparr>"
  have l1: "core_le c ?c1" by (rule role_update_le [OF assms]) (use True in simp_all)
  have l2: "core_le c (ResetElectionTicks ?c1)"
    by (rule core_le_trans [OF l1 ResetElectionTicks_le [OF core_le_inv [OF l1]]])
  show ?thesis
    using core_le_trans [OF l2 ResetPeerProgress_le [OF core_le_inv [OF l2]]] True assms
    by (simp add: BecomeLeader_def core_invD(1))
next
  case False
  then show ?thesis using assms by (auto simp: BecomeLeader_def)
qed

lemma fold_push_new:
  "set (fold push_new ns ids) = set ids \<union> set ns" "distinct ids \<Longrightarrow> distinct (fold push_new ns ids)"
proof -
  show "set (fold push_new ns ids) = set ids \<union> set ns"
    by (induction ns arbitrary: ids) (auto simp: push_new_def ContainsNode_def)
  show "distinct ids \<Longrightarrow> distinct (fold push_new ns ids)"
    by (induction ns arbitrary: ids) (auto simp: push_new_def ContainsNode_def)
qed

lemma set_MemberIds [simp]: "set (MemberIds ms) = mb_node_id ` set ms"
  by (simp add: MemberIds_def)

lemma length_MemberIds [simp]: "length (MemberIds ms) = length ms"
  by (simp add: MemberIds_def)

lemma set_TransitionVoterIds:
  "set (TransitionVoterIds m) =
     node_ids (ms_voters m) \<union> (if ms_has_active_transition m then node_ids (ms_next_voters m) else {})"
  by (simp add: TransitionVoterIds_def Let_def fold_push_new node_ids_def)

lemma TransitionVoterIds_wf:
  assumes "ms_wf m" "\<not> MembershipState_empty m"
  shows "distinct (TransitionVoterIds m)" "TransitionVoterIds m \<noteq> []"
proof -
  have wf: "distinct (map mb_node_id (ms_voters m))" "ms_voters m \<noteq> []"
    using assms by (auto simp: ms_wf_def view_wf_def members_wf_def ToView_def)
  then have "distinct (MemberIds (ms_voters m))" by (simp add: MemberIds_def)
  then show "distinct (TransitionVoterIds m)"
    by (simp add: TransitionVoterIds_def Let_def fold_push_new(2))
  have "set (TransitionVoterIds m) \<noteq> {}"
    using wf(2) by (simp add: set_TransitionVoterIds node_ids_def)
  then show "TransitionVoterIds m \<noteq> []" by auto
qed

lemma candidate_voter_ids_eq: "candidate_voter_ids m = TransitionVoterIds m"
  by (simp add: candidate_voter_ids_def TransitionVoterIds_def Let_def)

lemma members_update_le:
  assumes "core_inv c" "ms_wf m" "\<not> MembershipState_empty m"
    and "peers_inv (c\<lparr>rc_voter_ids := TransitionVoterIds m, rc_learner_ids := ls, rc_peer_progress := pm\<rparr>)"
  shows "core_le c (c\<lparr>rc_membership_state := m, rc_voter_ids := TransitionVoterIds m, rc_learner_ids := ls,
    rc_peer_progress := pm,
    rc_hard_state := (rc_hard_state c)\<lparr>hs_membership_configuration_id := i\<rparr>\<rparr>)"
  using assms TransitionVoterIds_wf [OF assms(2,3)] by (simp add: core_defs)

lemma core_peers:
  assumes "core_inv c"
  shows "map_wf (rc_peer_progress c)" "\<forall>n p. map_find (rc_peer_progress c) n = Some p \<longrightarrow> pp_node_id p = n"
  using core_invD(5) [OF assms] by (simp_all add: peers_inv_def)

lemma ApplyCommitted_OK:
  assumes "ms_wf s" "ApplyCommitted s e = (OK, s')"
  shows "ms_wf s'" "\<not> MembershipState_empty s'"
proof -
  show "ms_wf s'" using ApplyCommitted_wf [OF assms(1), of e] assms(2) by simp
  show "\<not> MembershipState_empty s'"
    using assms view_state_nonempty [of "entry_view e"]
    by (auto simp: ApplyCommitted_eq apply_spec_def Let_def split: if_splits)
qed

lemma ApplyCommittedMembershipEntry_le [core_step]:
  assumes c: "core_inv c"
  shows "core_le c (snd (ApplyCommittedMembershipEntry c entry))"
proof -
  note wf = core_invD(6) [OF c, unfolded membership_inv_def]
  have main: "core_le c (snd (then_do (SyncLocalPeerProgress
        (c\<lparr>rc_membership_state := m, rc_voter_ids := candidate_voter_ids m, rc_learner_ids := ls,
           rc_peer_progress := member_progress c (candidate_voter_ids m) ls,
           rc_hard_state := (rc_hard_state c)\<lparr>hs_membership_configuration_id := i\<rparr>\<rparr>))
        (\<lambda>c2. if \<not> ContainsNode (rc_voter_ids c2) (rc_node_id c2) \<and>
               \<not> ContainsNode (rc_learner_ids c2) (rc_node_id c2) then (OK, step_aside c2)
            else if ContainsNode (rc_learner_ids c2) (rc_node_id c2) then (OK, step_aside c2)
            else (OK, c2))))"
    if m: "ApplyCommitted (rc_membership_state c) e = (OK, m)" for e m ls i
  proof -
    note m = ApplyCommitted_OK [OF _ m]
    have l1: "core_le c (c\<lparr>rc_membership_state := m, rc_voter_ids := candidate_voter_ids m, rc_learner_ids := ls,
        rc_peer_progress := member_progress c (candidate_voter_ids m) ls,
        rc_hard_state := (rc_hard_state c)\<lparr>hs_membership_configuration_id := i\<rparr>\<rparr>)"
      unfolding candidate_voter_ids_eq
      using wf m by (intro members_update_le [OF c] member_progress_peers core_peers [OF c]) blast+
    show ?thesis
      by (rule then_do_le [OF core_le_trans [OF l1 SyncLocalPeerProgress_le [OF core_le_inv [OF l1]]]])
        (simp add: step_aside_le)
  qed
  show ?thesis
    using c main unfolding ApplyCommittedMembershipEntry_def Let_def
    by (auto simp del: then_do.simps split: sum.splits prod.splits)
qed

lemma UpdatePeerProgressForMembership_shape:
  assumes "map_wf (rc_peer_progress c)" "\<forall>n p. map_find (rc_peer_progress c) n = Some p \<longrightarrow> pp_node_id p = n"
  shows "\<exists>pm. UpdatePeerProgressForMembership c = (OK, c\<lparr>rc_peer_progress := pm\<rparr>) \<and>
    peers_inv (c\<lparr>rc_peer_progress := pm\<rparr>)"
proof -
  obtain m where m: "UpdatePeerProgressForMembership c = SyncLocalPeerProgress (c\<lparr>rc_peer_progress := m\<rparr>)"
    "peers_inv (c\<lparr>rc_peer_progress := m\<rparr>)"
  proof (cases "rc_peer_progress c = []")
    case True
    then show ?thesis
      using that reset_progress_peers [of c]
      by (simp add: UpdatePeerProgressForMembership_def ResetPeerProgress_def Let_def)
  next
    case False
    then show ?thesis
      using that [of "member_progress c (rc_voter_ids c) (rc_learner_ids c)"]
        member_progress_peers [OF assms, where d = c and vs = "rc_voter_ids c" and ls = "rc_learner_ids c"]
      by (simp add: UpdatePeerProgressForMembership_def)
  qed
  obtain pm where pm: "SyncLocalPeerProgress (c\<lparr>rc_peer_progress := m\<rparr>) = (OK, c\<lparr>rc_peer_progress := pm\<rparr>)"
    using SyncLocalPeerProgress_shape by blast
  have "peers_inv (c\<lparr>rc_peer_progress := pm\<rparr>)"
    using SyncLocalPeerProgress_peers [OF m(2)] by (simp add: pm)
  then show ?thesis using m(1) pm by metis
qed

lemma GetTerm_zero: "GetTerm l kInvalidLogIndex out = Inr kInitialTerm"
  by (simp add: GetTerm_def)

lemma Core_UpdateSnapshotBoundary_le [core_step]:
  assumes c: "core_inv c" and last: "last_index (rc_log c) < - 1"
  shows "core_le c (snd (Core_UpdateSnapshotBoundary c md))"
proof -
  let ?i = "sm_last_included_index md" and ?t = "sm_last_included_term md"
  note inv = core_invD(3) [OF c]
  obtain st l where u: "UpdateSnapshotBoundary (rc_log c) ?i ?t = (st, l)" by force
  have l: "log_inv l \<and> log_le (rc_log c) l \<and> lg_commit_index l = lg_commit_index (rc_log c)"
  proof (cases "lg_snapshot_index (rc_log c) \<le> ?i \<and> ?i \<le> lg_applied_index (rc_log c) \<and>
      GetTerm (rc_log c) ?i out = Inr ?t")
    case True
    then have zero: "?i = kInvalidLogIndex \<longleftrightarrow> ?t = kInitialTerm"
      using GetTerm_positive [OF inv, of ?i ?t] GetTerm_zero [of "rc_log c"] by (metis sum.inject(2))
    have "l = log_compacted (rc_log c) ?i ?t"
      using True u by (simp add: UpdateSnapshotBoundary_eq [OF inv last])
    then show ?thesis
      using True log_inv_compacted [OF inv _ _ zero] log_le_compacted [OF inv _ _ zero]
      by (simp add: log_compacted_def)
  next
    case False
    have "l = rc_log c"
      using u UpdateSnapshotBoundary_eq [OF inv last, of ?i ?t] unfolding if_not_P [OF False] by simp
    then show ?thesis using inv by simp
  qed
  let ?c1 = "c\<lparr>rc_log := l\<rparr>"
  have l1: "core_le c ?c1" using c l by (intro log_update_le) simp_all
  note c1 = core_le_inv [OF l1]
  have aside: "core_le d (snd (if \<not> ContainsNode (rc_voter_ids d) (rc_node_id d) \<and>
      \<not> ContainsNode (rc_learner_ids d) (rc_node_id d) then (OK, step_aside d) else (OK, d)))"
    if "core_inv d" for d
    using that step_aside_le by simp
  have plain: "core_le ?c1 (snd (UpdatePeerProgressForMembership ?c1))"
    using UpdatePeerProgressForMembership_shape [OF core_peers [OF c1]] progress_update_le [OF c1] by auto
  have moved: "core_le ?c1 (snd (UpdatePeerProgressForMembership
      (?c1\<lparr>rc_membership_state := m, rc_voter_ids := TransitionVoterIds m,
         rc_learner_ids := TransitionLearnerIds m,
         rc_hard_state := (rc_hard_state ?c1)\<lparr>hs_membership_configuration_id := j\<rparr>\<rparr>)))"
    if "ms_wf m" "\<not> MembershipState_empty m" for m j
  proof -
    let ?c3 = "?c1\<lparr>rc_membership_state := m, rc_voter_ids := TransitionVoterIds m,
         rc_learner_ids := TransitionLearnerIds m,
         rc_hard_state := (rc_hard_state ?c1)\<lparr>hs_membership_configuration_id := j\<rparr>\<rparr>"
    obtain pm where pm: "UpdatePeerProgressForMembership ?c3 = (OK, ?c3\<lparr>rc_peer_progress := pm\<rparr>)"
      "peers_inv (?c3\<lparr>rc_peer_progress := pm\<rparr>)"
      using UpdatePeerProgressForMembership_shape [of ?c3] core_peers [OF c1] by auto
    have "core_le ?c1 (?c1\<lparr>rc_membership_state := m, rc_voter_ids := TransitionVoterIds m,
        rc_learner_ids := TransitionLearnerIds m, rc_peer_progress := pm,
        rc_hard_state := (rc_hard_state ?c1)\<lparr>hs_membership_configuration_id := j\<rparr>\<rparr>)"
      using pm(2) by (intro members_update_le [OF c1 that]) (simp add: peers_inv_def)
    moreover have "?c1\<lparr>rc_membership_state := m, rc_voter_ids := TransitionVoterIds m,
        rc_learner_ids := TransitionLearnerIds m, rc_peer_progress := pm,
        rc_hard_state := (rc_hard_state ?c1)\<lparr>hs_membership_configuration_id := j\<rparr>\<rparr> =
        ?c3\<lparr>rc_peer_progress := pm\<rparr>"
      by (rule RaftCore.equality) simp_all
    ultimately show ?thesis unfolding pm(1) snd_conv by (rule back_subst [of "core_le ?c1"])
  qed
  have fv: "FromView (sm_membership md) out = Inr m \<Longrightarrow> ms_wf m \<and> \<not> MembershipState_empty m" for m
    using view_state_wf view_state_nonempty by (auto simp: FromView_eq split: if_splits)
  show ?thesis
  proof (cases "st = OK")
    case False
    then show ?thesis using c l1 u by (simp add: Core_UpdateSnapshotBoundary_def core_invD(1))
  next
    case True
    have p2: "core_le ?c1 (snd (then_do (UpdatePeerProgressForMembership ?c1) (\<lambda>c4.
          if \<not> ContainsNode (rc_voter_ids c4) (rc_node_id c4) \<and> \<not> ContainsNode (rc_learner_ids c4) (rc_node_id c4)
          then (OK, step_aside c4) else (OK, c4))))"
      by (rule then_do_le [OF plain], rule aside)
    have m2: "core_le ?c1 (snd (then_do (UpdatePeerProgressForMembership
        (?c1\<lparr>rc_membership_state := m, rc_voter_ids := TransitionVoterIds m,
         rc_learner_ids := TransitionLearnerIds m,
         rc_hard_state := (rc_hard_state ?c1)\<lparr>hs_membership_configuration_id := j\<rparr>\<rparr>)) (\<lambda>c4.
          if \<not> ContainsNode (rc_voter_ids c4) (rc_node_id c4) \<and> \<not> ContainsNode (rc_learner_ids c4) (rc_node_id c4)
          then (OK, step_aside c4) else (OK, c4))))"
      if "FromView (sm_membership md) out = Inr m" for m j
      by (rule then_do_le [OF moved], use fv [OF that] in blast, use fv [OF that] in blast, rule aside)
    show ?thesis
    proof (cases "mv_configuration_id (sm_membership md) = 0")
      case zero: True
      show ?thesis
        using c u True zero core_le_trans [OF l1 p2] by (simp add: Core_UpdateSnapshotBoundary_def core_invD(1))
    next
      case nonzero: False
      show ?thesis
      proof (cases "FromView (sm_membership md) out")
        case (Inl e)
        then have "e \<noteq> OK" by (auto simp: FromView_eq split: if_splits)
        then show ?thesis
          using c u True nonzero Inl l1 by (simp add: Core_UpdateSnapshotBoundary_def core_invD(1))
      next
        case (Inr m)
        then show ?thesis
          using c u True nonzero fv [OF Inr] core_le_trans [OF l1 m2 [OF Inr, of "ms_configuration_id m"]]
          by (simp add: Core_UpdateSnapshotBoundary_def core_invD(1) SyncMembershipVectorsFromState_def)
      qed
    qed
  qed
qed

section \<open>The handlers\<close>

lemma DecideVote_le:
  assumes c: "core_inv c"
  shows "core_le c (snd (DecideVote c r))"
proof -
  have granted: "core_le d (ResetElectionTicks (d\<lparr>rc_hard_state := (rc_hard_state d)\<lparr>hs_voted_for := v\<rparr>\<rparr>))"
    if "core_inv d" "voted_for d = kInvalidNodeId \<or> voted_for d = v" for d v
    using vote_update_le [OF that] ResetElectionTicks_le core_le_inv core_le_trans by blast
  have l1: "core_le c (snd (if current_term c < rv_term r
      then BecomeFollowerForRemote c (rv_term r) kInvalidNodeId else (OK, c)))"
    using c BecomeFollowerForRemote_le by simp
  show ?thesis
    unfolding DecideVote_def Let_def
    by (split if_split, intro conjI impI, simp add: c, split if_split, intro conjI impI, simp add: c,
        rule then_get_le [OF l1]) (auto intro: granted)
qed

lemma HandleRequestVote_le [core_step]:
  assumes c: "core_inv c"
  shows "core_le c (snd (HandleRequestVote c r p))"
proof -
  obtain x d where d: "DecideVote c r = (x, d)" by force
  have l1: "core_le c d" using DecideVote_le [OF c, of r] d by simp
  have "core_le c (snd (then_get (StageMessage d m h i) (\<lambda>c2. (Inr y, c2))))"
    for m h i and y :: RequestVoteResponse
    by (rule core_le_trans [OF l1 stage_then_le [OF core_le_inv [OF l1]]])
  then show ?thesis
    using c d l1 unfolding HandleRequestVote_def Let_def
    by (auto simp del: then_get.simps split: sum.splits)
qed

lemma HandleRequestVoteResponse_le [core_step]:
  assumes c: "core_inv c"
  shows "core_le c (snd (HandleRequestVoteResponse c n r p))"
proof -
  have "core_le c (snd (then_get (BecomeFollowerForRemote c t x) (\<lambda>c1. (Inr y, c1))))"
    for t x and y :: VoteResponseAction
    by (rule then_get_le [OF BecomeFollowerForRemote_le [OF c]]) simp
  then show ?thesis
    using c unfolding HandleRequestVoteResponse_def by (auto simp del: then_get.simps)
qed

lemma BuildAppendEntriesForPeer_le [core_step]:
  assumes c: "core_inv c"
  shows "core_le c (snd (BuildAppendEntriesForPeer c n p))"
  unfolding BuildAppendEntriesForPeer_def Let_def
  using c stage_then_le [OF c] by (auto simp del: then_get.simps split: sum.splits)

lemma BuildInstallSnapshotForPeer_le [core_step]:
  assumes c: "core_inv c"
  shows "core_le c (snd (BuildInstallSnapshotForPeer c n p))"
  unfolding BuildInstallSnapshotForPeer_def Let_def
  using c stage_then_le [OF c] by (auto simp del: then_get.simps split: sum.splits)

lemma append_reply_le: "core_inv c \<Longrightarrow> core_le c (snd (append_reply c t r h i))"
  unfolding append_reply_def by (rule stage_then_le)

lemma HandleAppendEntries_le [core_step]:
  assumes c: "core_inv c" and last: "last_index (rc_log c) < - 1"
  shows "core_le c (snd (HandleAppendEntries c r p))"
proof -
  let ?r1 = "if current_term c < ae_term r then UpdateCurrentTerm c (ae_term r) else (OK, c)"
  have l1: "core_le c (snd ?r1)" using c UpdateCurrentTerm_le by simp
  have log1: "rc_log (snd ?r1) = rc_log c" by (simp add: UpdateCurrentTerm_fields)
  have accept: "core_le d (snd (then_get (then_do (then_do (store_entries d es) (\<lambda>c4. follow_commit c4 i))
      SyncLocalPeerProgress) (\<lambda>c6. append_reply c6 t (f c6) (h c6) (j c6))))"
    if "core_inv d" "last_index (rc_log d) < - 1" for d es i t f h j
    by (intro then_get_le then_do_le store_entries_le that follow_commit_le SyncLocalPeerProgress_le append_reply_le)
  have follow: "core_le d (ResetElectionTicks
      ((if rc_role d = CANDIDATE then d\<lparr>rc_role := FOLLOWER\<rparr> else d)\<lparr>rc_leader_id := x\<rparr>))"
    if d: "core_inv d" and x: "\<not> (rc_role d = LEADER \<and> x \<noteq> rc_node_id d)" for d x
  proof -
    have "core_le d ((if rc_role d = CANDIDATE then d\<lparr>rc_role := FOLLOWER\<rparr> else d)\<lparr>rc_leader_id := x\<rparr>)"
      using d x by (simp add: core_defs)
    then show ?thesis using ResetElectionTicks_le core_le_inv core_le_trans by blast
  qed
  have body: "core_le d (snd (if rc_role d = LEADER \<and> ae_leader_id r \<noteq> rc_node_id d then append_reply d t y h k
      else let c3 = ResetElectionTicks ((if rc_role d = CANDIDATE then d\<lparr>rc_role := FOLLOWER\<rparr> else d)
                \<lparr>rc_leader_id := ae_leader_id r\<rparr>)
           in if \<not> Matches (rc_log c3) a b
              then (case conflict_hint c3 r of Inl status \<Rightarrow> (Inl status, c3)
                    | Inr (u, v) \<Rightarrow> append_reply c3 t (f c3 u v) (g c3) k)
              else then_get (then_do (then_do (store_entries c3 es) (\<lambda>c4. follow_commit c4 i))
                     SyncLocalPeerProgress) (\<lambda>c6. append_reply c6 t (f' c3 c6) (g' c6) (k' c6))))"
    if d: "core_inv d" "last_index (rc_log d) < - 1" for d t y h k a b f g es i f' g' k'
  proof (cases "rc_role d = LEADER \<and> ae_leader_id r \<noteq> rc_node_id d")
    case True
    then show ?thesis using append_reply_le [OF d(1)] by simp
  next
    case False
    define c3 where "c3 = ResetElectionTicks ((if rc_role d = CANDIDATE then d\<lparr>rc_role := FOLLOWER\<rparr> else d)
                \<lparr>rc_leader_id := ae_leader_id r\<rparr>)"
    have le: "core_le d c3" unfolding c3_def using follow [OF d(1) False] .
    note inv = core_le_inv [OF le]
    have log: "last_index (rc_log c3) < - 1" using d(2) by (simp add: c3_def)
    show ?thesis
      unfolding if_not_P [OF False] Let_def c3_def [symmetric]
      using le core_le_trans [OF le accept [OF inv log]] core_le_trans [OF le append_reply_le [OF inv]]
      by (auto simp del: then_get.simps then_do.simps split: sum.splits prod.splits)
  qed
  have main: "core_le c (snd (then_get ?r1 f))"
    if "core_inv (snd ?r1) \<Longrightarrow> last_index (rc_log (snd ?r1)) < - 1 \<Longrightarrow> core_le (snd ?r1) (snd (f (snd ?r1)))"
    for f :: "RaftCore \<Rightarrow> (Status + AppendEntriesResponse) \<times> RaftCore"
    using that last log1 by (intro then_get_le [OF l1]) simp_all
  show ?thesis
    unfolding HandleAppendEntries_def Let_def [of "rc_hard_state c"] Let_def [of "last_index (rc_log c)"]
      Let_def [of "ResetAppendResponse (current_term c)"] Let_def [of "ae_leader_id r"]
    by (split if_split, intro conjI impI, simp add: c, split if_split, intro conjI impI, simp add: c,
        split if_split, intro conjI impI, rule append_reply_le [OF c], rule main)
      (use body [unfolded Let_def] in \<open>simp only: Let_def\<close>)
qed

lemma HandleAppendEntriesResponse_le [core_step]:
  assumes c: "core_inv c"
  shows "core_le c (snd (HandleAppendEntriesResponse c n r p))"
proof -
  have down: "core_le c (snd (then_get (if rc_role c = LEARNER then UpdateCurrentTerm c t
      else BecomeFollowerForRemote c t x) (\<lambda>c1. (Inr y, c1))))" for t x and y :: AppendResponseAction
    by (rule then_get_le) (simp_all add: BecomeFollowerForRemote_le UpdateCurrentTerm_le c)
  have put: "core_le c (put_progress n q c)" if "FindPeerProgress c n = Inr f" "pp_node_id q = pp_node_id f" for q f
    using c that by (rule put_progress_le)
  have adv: "core_le c (snd (then_get (TryAdvanceCommitIndex (put_progress n q c)) (\<lambda>c1. (Inr y, c1))))"
    if "FindPeerProgress c n = Inr f" "pp_node_id q = pp_node_id f" for q f and y :: AppendResponseAction
    by (rule then_get_le)
      (use core_le_trans [OF put [OF that] TryAdvanceCommitIndex_le [OF core_le_inv [OF put [OF that]]]] in simp_all)
  show ?thesis
    using c down unfolding HandleAppendEntriesResponse_def Let_def
    by (auto simp del: then_get.simps split: sum.splits intro!: put adv)
qed

lemma HandleInstallSnapshotResponse_le [core_step]:
  assumes c: "core_inv c"
  shows "core_le c (snd (HandleInstallSnapshotResponse c n r))"
  using c BecomeFollowerForRemote_le [OF c] put_progress_le [OF c]
  by (auto simp: HandleInstallSnapshotResponse_def Let_def split: sum.splits)

lemma Propose_le [core_step]:
  assumes c: "core_inv c" and last: "last_index (rc_log c) < - 1"
  shows "core_le c (snd (Propose c payload))"
proof -
  have "core_le c (snd (then_do (append_own c COMMAND payload) TryAdvanceCommitIndex))"
    by (intro then_do_le append_own_le TryAdvanceCommitIndex_le c last)
  then show ?thesis using c by (simp add: Propose_def del: then_do.simps)
qed

lemma AppendMembershipChangeProposal_le [core_step]:
  assumes c: "core_inv c" and last: "last_index (rc_log c) < - 1"
  shows "core_le c (snd (AppendMembershipChangeProposal c e))"
proof -
  have "core_le c (snd (then_get (append_own c MEMBERSHIP_CHANGE payload) (\<lambda>c1.
      then_get (TryAdvanceCommitIndex c1) (\<lambda>c2. (Inr i, c2)))))" for payload and i :: LogIndex
    by (intro then_get_le append_own_le TryAdvanceCommitIndex_le c last) simp_all
  then show ?thesis
    using c by (auto simp: AppendMembershipChangeProposal_def simp del: then_get.simps split: sum.splits)
qed

lemma membership_proposals_le [core_step]:
  assumes c: "core_inv c" and last: "last_index (rc_log c) < - 1"
  shows "core_le c (snd (AddLearner c m))" "core_le c (snd (PromoteLearner c n))"
    "core_le c (snd (RemoveMember c n))" "core_le c (snd (FinalizeMembershipChange c))"
  unfolding AddLearner_def PromoteLearner_def RemoveMember_def FinalizeMembershipChange_def
  using c AppendMembershipChangeProposal_le [OF c last] by (auto split: sum.splits)

lemma UpdateElectionTimeout_le [core_step]: "core_inv c \<Longrightarrow> core_le c (snd (UpdateElectionTimeout c t))"
  using ticks_le by (simp add: UpdateElectionTimeout_def)

end
