(* ===== verification/Raft_Core_Run.thy ===== *)
theory Raft_Core_Run
  imports Raft_Core_Invariant Quorum
begin

text \<open>
  Runs of one \<open>RaftCore\<close>: any sequence of its operations with any arguments, as the runtime
  may call them, as long as the term and the last log index stay below the largest
  \<open>uint64_t\<close>. The votes a node casts during a run, and what follows from them for a cluster.
\<close>

section \<open>Initialization\<close>

lemma insert_ids_distinct: "insert_ids seen ns = Inr s \<Longrightarrow> distinct ns \<and> set ns \<inter> seen = {}"
  by (induction ns arbitrary: seen) (auto split: if_splits)

lemma ValidateOptions_OK:
  assumes "ValidateOptions options = OK"
  shows "opt_node_id options \<noteq> kInvalidNodeId" "opt_voter_ids options \<noteq> []" "distinct (opt_voter_ids options)"
proof -
  have "e = InvalidArgument" if "insert_ids seen ns = Inl e" for seen ns e
    using that by (induction ns arbitrary: seen) (auto split: if_splits)
  then have err: "and_then (insert_ids {} vs) (\<lambda>seen. insert_ids seen ls) \<noteq> Inl OK" for vs ls
    by (auto simp: and_then_Inl_iff)
  show "opt_node_id options \<noteq> kInvalidNodeId" "opt_voter_ids options \<noteq> []"
    using assms by (auto simp: ValidateOptions_def Let_def split: if_splits)
  show "distinct (opt_voter_ids options)"
  proof (cases "and_then (insert_ids {} (opt_voter_ids options))
      (\<lambda>seen. insert_ids seen (opt_learner_ids options))")
    case (Inl e)
    then have "e \<noteq> OK" using err by metis
    then show ?thesis using assms Inl by (simp add: ValidateOptions_def Let_def split: if_splits)
  next
    case (Inr s)
    then show ?thesis using insert_ids_distinct by (auto simp: and_then_Inr_iff)
  qed
qed

lemma InitializeMembershipState_shape:
  assumes init: "InitializeMembershipState c options = (OK, c2)" and c: "rc_membership_state c = MembershipState_new"
    and ids: "distinct (rc_voter_ids c)" "rc_voter_ids c \<noteq> []"
  shows "membership_inv c2 \<and> (\<exists>m vs ls i. c2 = c\<lparr>rc_membership_state := m, rc_voter_ids := vs,
    rc_learner_ids := ls, rc_hard_state := (rc_hard_state c)\<lparr>hs_membership_configuration_id := i\<rparr>\<rparr>)"
proof (cases "opt_membership options")
  case None
  then have "c2 = c\<lparr>rc_membership_state := MembershipState_new\<rparr>"
    using init by (simp add: InitializeMembershipState_def)
  moreover have "c\<lparr>rc_membership_state := MembershipState_new\<rparr> = c\<lparr>rc_membership_state := MembershipState_new,
      rc_voter_ids := rc_voter_ids c, rc_learner_ids := rc_learner_ids c,
      rc_hard_state := (rc_hard_state c)
        \<lparr>hs_membership_configuration_id := hs_membership_configuration_id (rc_hard_state c)\<rparr>\<rparr>"
    by (rule RaftCore.equality) simp_all
  moreover have "membership_inv (c\<lparr>rc_membership_state := MembershipState_new\<rparr>)"
    using ids by (simp add: membership_inv_def MembershipState_empty_def MembershipState_new_def)
      (simp add: ms_wf_new [unfolded MembershipState_new_def])
  ultimately show ?thesis by metis
next
  case (Some view)
  then obtain m where m: "FromView view out = Inr m"
    using init by (auto simp: InitializeMembershipState_def Let_def FromView_eq split: if_splits)
  then have wf: "ms_wf m" "\<not> MembershipState_empty m"
    using view_state_wf view_state_nonempty by (auto simp: FromView_eq split: if_splits)
  let ?i = "ms_configuration_id m"
  have "c2 = c\<lparr>rc_membership_state := m,
      rc_hard_state := (rc_hard_state c)\<lparr>hs_membership_configuration_id := ?i\<rparr>,
      rc_voter_ids := TransitionVoterIds m, rc_learner_ids := TransitionLearnerIds m\<rparr>"
    using init Some m wf by (simp add: InitializeMembershipState_def SyncMembershipVectorsFromState_def)
  also have "\<dots> = c\<lparr>rc_membership_state := m, rc_voter_ids := TransitionVoterIds m,
      rc_learner_ids := TransitionLearnerIds m,
      rc_hard_state := (rc_hard_state c)\<lparr>hs_membership_configuration_id := ?i\<rparr>\<rparr>"
    by (rule RaftCore.equality) simp_all
  finally have eq: "c2 = \<dots>" .
  then have "membership_inv c2"
    using wf TransitionVoterIds_wf [OF wf] by (simp add: membership_inv_def)
  then show ?thesis using eq by blast
qed

lemma Initialize_inv:
  assumes "Initialize c options = (OK, c')"
  shows "core_inv c'" "current_term c' = hs_current_term (opt_hard_state options)"
    "voted_for c' = hs_voted_for (opt_hard_state options)" "rc_log c' = RaftLog_new"
    "rc_node_id c' = opt_node_id options" "rc_role c' = opt_initial_role options"
    "rc_persisted_hard_state c' = rc_hard_state c'" "queued c' = []"
proof -
  have ok: "ValidateOptions options = OK" using assms by (auto simp: Initialize_def split: if_splits)
  define c1 where "c1 = c\<lparr>rc_node_id := opt_node_id options,
                      rc_role := opt_initial_role options,
                      rc_leader_id := (if opt_initial_role options = LEADER then opt_node_id options
                                       else kInvalidNodeId),
                      rc_logical_ticks := 0,
                      rc_election_elapsed_ticks := 0,
                      rc_election_timeout_ticks := opt_election_timeout_ticks options,
                      rc_hard_state := (opt_hard_state options)
                        \<lparr>hs_commit_index := lg_commit_index RaftLog_new\<rparr>,
                      rc_log := RaftLog_new,
                      rc_voter_ids := opt_voter_ids options,
                      rc_learner_ids := opt_learner_ids options,
                      rc_membership_state := MembershipState_new,
                      rc_immediate_messages := [],
                      rc_persisted_messages := [],
                      rc_initialized := True\<rparr>"
  obtain c2 where c2: "InitializeMembershipState c1 options = (OK, c2)"
    "c' = snd (ResetPeerProgress (c2\<lparr>rc_persisted_hard_state := rc_hard_state c2\<rparr>))"
    using assms ok
    by (auto simp: Initialize_def Let_def c1_def [symmetric] split: prod.splits if_splits)
  have "membership_inv c2 \<and> (\<exists>m vs ls i. c2 = c1\<lparr>rc_membership_state := m, rc_voter_ids := vs,
    rc_learner_ids := ls, rc_hard_state := (rc_hard_state c1)\<lparr>hs_membership_configuration_id := i\<rparr>\<rparr>)"
    using c2(1) by (rule InitializeMembershipState_shape)
      (use ValidateOptions_OK [OF ok] in \<open>simp_all add: c1_def\<close>)
  then obtain m vs ls i where m: "membership_inv c2" "c2 = c1\<lparr>rc_membership_state := m, rc_voter_ids := vs,
    rc_learner_ids := ls, rc_hard_state := (rc_hard_state c1)\<lparr>hs_membership_configuration_id := i\<rparr>\<rparr>" by blast
  let ?c3 = "c2\<lparr>rc_persisted_hard_state := rc_hard_state c2\<rparr>"
  obtain pm where pm: "ResetPeerProgress ?c3 = (OK, ?c3\<lparr>rc_peer_progress := pm\<rparr>)"
    using SyncLocalPeerProgress_shape [where c = ?c3] by (auto simp: ResetPeerProgress_def Let_def)
  then have c': "c' = ?c3\<lparr>rc_peer_progress := pm\<rparr>" using c2(2) by simp
  have "peers_inv c'" using ResetPeerProgress_peers [of ?c3] by (simp add: pm c')
  moreover have "membership_inv c'" using m(1) unfolding c' by (simp add: membership_inv_def)
  moreover have "rc_initialized c'" "rc_node_id c' \<noteq> kInvalidNodeId" "log_inv (rc_log c')"
    "hs_commit_index (rc_hard_state c') = lg_commit_index (rc_log c')"
    "rc_role c' = LEADER \<longrightarrow> rc_leader_id c' = rc_node_id c'" "queue_inv c'"
    using ValidateOptions_OK [OF ok] log_inv_new
    unfolding c' m(2) c1_def by (simp_all add: queue_inv_def queued_def)
  ultimately show "core_inv c'" by (simp add: core_inv_def)
  show "current_term c' = hs_current_term (opt_hard_state options)"
    "voted_for c' = hs_voted_for (opt_hard_state options)" "rc_log c' = RaftLog_new"
    "rc_node_id c' = opt_node_id options" "rc_role c' = opt_initial_role options"
    "rc_persisted_hard_state c' = rc_hard_state c'" "queued c' = []"
    unfolding c' m(2) c1_def by (simp_all add: current_term_def voted_for_def queued_def)
qed

section \<open>Operations and runs\<close>

datatype core_op =
    Do_Tick
  | Do_UpdateElectionTimeout u64
  | Do_BecomeFollower Term NodeId
  | Do_StartElection
  | Do_BecomeLeader
  | Do_HandleRequestVote RequestVoteRequest
  | Do_HandleRequestVoteResponse NodeId RequestVoteResponse
  | Do_BuildAppendEntries NodeId
  | Do_BuildInstallSnapshot NodeId
  | Do_HandleAppendEntries AppendEntriesRequest
  | Do_HandleAppendEntriesResponse NodeId AppendEntriesResponse
  | Do_HandleInstallSnapshotResponse NodeId InstallSnapshotResponse
  | Do_Propose OpaquePayload
  | Do_AddLearner RaftMember
  | Do_PromoteLearner NodeId
  | Do_RemoveMember NodeId
  | Do_FinalizeMembershipChange
  | Do_ApplyCommittedMembershipEntry LogEntry
  | Do_ConfirmApplied LogIndex
  | Do_ConfirmPersistence PersistenceConfirmation
  | Do_UpdateSnapshotBoundary SnapshotMetadata

fun core_exec :: "core_op \<Rightarrow> RaftCore \<Rightarrow> RaftCore" where
  "core_exec Do_Tick c = snd (Tick c out)"
| "core_exec (Do_UpdateElectionTimeout t) c = snd (UpdateElectionTimeout c t)"
| "core_exec (Do_BecomeFollower t n) c = snd (BecomeFollower c t n)"
| "core_exec Do_StartElection c = snd (StartElection c)"
| "core_exec Do_BecomeLeader c = snd (BecomeLeader c)"
| "core_exec (Do_HandleRequestVote r) c = snd (HandleRequestVote c r out)"
| "core_exec (Do_HandleRequestVoteResponse n r) c = snd (HandleRequestVoteResponse c n r out)"
| "core_exec (Do_BuildAppendEntries n) c = snd (BuildAppendEntriesForPeer c n out)"
| "core_exec (Do_BuildInstallSnapshot n) c = snd (BuildInstallSnapshotForPeer c n out)"
| "core_exec (Do_HandleAppendEntries r) c = snd (HandleAppendEntries c r out)"
| "core_exec (Do_HandleAppendEntriesResponse n r) c = snd (HandleAppendEntriesResponse c n r out)"
| "core_exec (Do_HandleInstallSnapshotResponse n r) c = snd (HandleInstallSnapshotResponse c n r)"
| "core_exec (Do_Propose p) c = snd (Propose c p)"
| "core_exec (Do_AddLearner m) c = snd (AddLearner c m)"
| "core_exec (Do_PromoteLearner n) c = snd (PromoteLearner c n)"
| "core_exec (Do_RemoveMember n) c = snd (RemoveMember c n)"
| "core_exec Do_FinalizeMembershipChange c = snd (FinalizeMembershipChange c)"
| "core_exec (Do_ApplyCommittedMembershipEntry e) c = snd (ApplyCommittedMembershipEntry c e)"
| "core_exec (Do_ConfirmApplied i) c = snd (ConfirmApplied c i)"
| "core_exec (Do_ConfirmPersistence p) c = snd (ConfirmPersistence c p)"
| "core_exec (Do_UpdateSnapshotBoundary m) c = snd (Core_UpdateSnapshotBoundary c m)"

text \<open>The 64-bit counters have room for the next step.\<close>

definition in_range :: "RaftCore \<Rightarrow> bool" where
  "in_range c \<longleftrightarrow> last_index (rc_log c) < - 1 \<and> current_term c < - 1"

lemma core_exec_le: "core_inv c \<Longrightarrow> in_range c \<Longrightarrow> core_le c (core_exec op c)"
  by (cases op) (simp_all add: core_step in_range_def)

text \<open>The votes an operation casts: for the node itself, or for the candidate of a request.\<close>

fun casts :: "core_op \<Rightarrow> RaftCore \<Rightarrow> (Term \<times> NodeId) list" where
  "casts Do_Tick c =
     (if fst (Tick c out) = Inr START_ELECTION
      then [(current_term (snd (Tick c out)), rc_node_id c)] else [])"
| "casts Do_StartElection c =
     (if ok (fst (StartElection c)) then [(current_term (snd (StartElection c)), rc_node_id c)] else [])"
| "casts (Do_HandleRequestVote r) c =
     (case fst (HandleRequestVote c r out) of
        Inl _ \<Rightarrow> []
      | Inr response \<Rightarrow> (if rvr_vote_granted response then [(rvr_term response, rv_candidate_id r)] else []))"
| "casts _ c = []"

inductive core_run :: "RaftCore \<Rightarrow> (Term \<times> NodeId) list \<Rightarrow> RaftCore \<Rightarrow> bool" for c0 where
  start: "core_run c0 [] c0"
| step: "core_run c0 votes c \<Longrightarrow> in_range c \<Longrightarrow> core_run c0 (votes @ casts op c) (core_exec op c)"

inductive_cases core_run_NilE: "core_run c0 [] c"

lemma core_run_le:
  assumes "core_run c0 votes c" "core_inv c0"
  shows "core_le c0 c"
  using assms
proof induction
  case (step votes c op)
  then show ?case using core_exec_le core_le_inv core_le_trans by metis
qed simp

text \<open>The exact outcome of a vote request.\<close>

lemma GetLastLogTerm_ok: "log_inv (rc_log c) \<Longrightarrow> \<exists>t. GetLastLogTerm c out = Inr t"
  using GetTerm_in_range log_inv_order(2) by (simp add: GetLastLogTerm_def)

lemma IsCandidateLogUpToDate_cong:
  "rc_log c = rc_log d \<Longrightarrow> IsCandidateLogUpToDate c i t = IsCandidateLogUpToDate d i t"
  unfolding IsCandidateLogUpToDate_def GetLastLogTerm_def by (erule ssubst) (rule refl)

text \<open>When a vote is granted: the rule of the Raft election, as the code decides it.\<close>

definition grants_vote :: "RaftCore \<Rightarrow> RequestVoteRequest \<Rightarrow> bool" where
  "grants_vote c r \<longleftrightarrow>
     rc_role c \<noteq> LEARNER \<and> current_term c \<le> rv_term r \<and>
     IsCandidateLogUpToDate c (rv_last_log_index r) (rv_last_log_term r) \<and>
     (current_term c < rv_term r \<or> voted_for c = kInvalidNodeId \<or> voted_for c = rv_candidate_id r)"

lemma DecideVote_cases:
  assumes c: "core_inv c"
  shows "\<exists>response d. DecideVote c r = (Inr response, d) \<and>
    (rvr_vote_granted response \<longleftrightarrow> grants_vote c r) \<and>
    rvr_term response = current_term d \<and>
    (if rc_role c = LEARNER then d = c else current_term d = max (current_term c) (rv_term r)) \<and>
    (grants_vote c r \<longrightarrow> voted_for d = rv_candidate_id r \<and> rc_role d \<noteq> LEARNER)"
proof -
  note init = core_invD(1) [OF c]
  consider (learner) "rc_role c = LEARNER" | (stale) "rc_role c \<noteq> LEARNER" "rv_term r < current_term c"
    | (newer) "rc_role c \<noteq> LEARNER" "current_term c < rv_term r"
    | (same) "rc_role c \<noteq> LEARNER" "current_term c = rv_term r"
    by force
  then show ?thesis
  proof cases
    case learner
    then show ?thesis by (simp add: DecideVote_def grants_vote_def ResetVoteResponse_def Let_def)
  next
    case stale
    then show ?thesis
      by (auto simp: DecideVote_def grants_vote_def ResetVoteResponse_def Let_def max_def)
  next
    case newer
    then have up: "IsCandidateLogUpToDate (snd (BecomeFollowerForRemote c (rv_term r) kInvalidNodeId)) i t =
        IsCandidateLogUpToDate c i t" for i t
      by (intro IsCandidateLogUpToDate_cong) simp
    from newer show ?thesis
      using up
      by (auto simp: DecideVote_def grants_vote_def ResetVoteResponse_def Let_def max_def
          BecomeFollowerForRemote_eq [OF init] UpdateCurrentTerm_eq [OF init] current_term_def voted_for_def)
  next
    case same
    then show ?thesis
      by (auto simp: DecideVote_def grants_vote_def ResetVoteResponse_def Let_def max_def
          current_term_def voted_for_def)
  qed
qed

section \<open>Votes of a run\<close>

lemma HandleRequestVote_cases:
  assumes c: "core_inv c" and r: "rv_candidate_id r \<noteq> kInvalidNodeId"
  shows "\<exists>response d. DecideVote c r = (Inr response, d) \<and>
    fst (HandleRequestVote c r out) = Inr response \<and>
    rc_hard_state (snd (HandleRequestVote c r out)) = rc_hard_state d \<and>
    rc_role (snd (HandleRequestVote c r out)) = rc_role d \<and>
    rc_log (snd (HandleRequestVote c r out)) = rc_log d"
proof -
  obtain response d where d: "DecideVote c r = (Inr response, d)" using DecideVote_cases [OF c] by blast
  let ?m = "\<lparr>msg_type = REQUEST_VOTE_RESPONSE, msg_source_node_id = rc_node_id d,
    msg_target_node_id = rv_candidate_id r, msg_payload = RequestVoteResponseMsg response\<rparr>"
  let ?s = "StageMessage d ?m (\<not> SameHardState (rc_hard_state c) (rc_hard_state d)) kInvalidLogIndex"
  have "HandleRequestVote c r out = then_get ?s (\<lambda>c2. (Inr response, c2))"
    using d r core_invD(1) [OF c]
    by (simp add: HandleRequestVote_def require_core_def ValidateRequestVoteRequest_def)
  also have "\<dots> = (Inr response, snd ?s)"
    using StageMessage_OK [of d ?m] by (metis prod.collapse then_get.simps)
  finally show ?thesis using d by (simp add: StageMessage_fields)
qed

lemma HandleRequestVote_invalid:
  "rv_candidate_id r = kInvalidNodeId \<Longrightarrow> core_inv c \<Longrightarrow> HandleRequestVote c r out = (Inl InvalidArgument, c)"
  by (simp add: HandleRequestVote_def require_core_def ValidateRequestVoteRequest_def core_invD(1))

lemma StartElection_casts:
  assumes c: "core_inv c" and range: "current_term c < - 1" and ok: "fst (StartElection c) = OK"
  shows "rc_role c \<noteq> LEARNER" "current_term c < current_term (snd (StartElection c))"
    "voted_for (snd (StartElection c)) = rc_node_id c"
proof -
  show "rc_role c \<noteq> LEARNER" using ok by (auto simp: StartElection_def split: if_splits)
  have s: "snd (StartElection c) = ResetElectionTicks
      (c\<lparr>rc_hard_state := (rc_hard_state c)
          \<lparr>hs_current_term := current_term c + 1, hs_voted_for := rc_node_id c\<rparr>,
         rc_role := CANDIDATE, rc_leader_id := kInvalidNodeId\<rparr>)"
    using ok by (auto simp: StartElection_def split: if_splits)
  show "current_term c < current_term (snd (StartElection c))"
    using unat_inc [OF range] by (simp add: s current_term_def word_less_nat_alt)
  show "voted_for (snd (StartElection c)) = rc_node_id c" by (simp add: s voted_for_def)
qed

text \<open>What an operation that casts a vote does to the vote of the node.\<close>

lemma casts_facts:
  assumes c: "core_inv c" and range: "in_range c" and cast: "(t, a) \<in> set (casts op c)"
  shows "casts op c = [(t, a)] \<and> a \<noteq> kInvalidNodeId \<and> rc_role c \<noteq> LEARNER \<and>
    t = current_term (core_exec op c) \<and> a = voted_for (core_exec op c) \<and>
    (current_term c < t \<or> (current_term c = t \<and> (voted_for c = kInvalidNodeId \<or> voted_for c = a)))"
proof -
  note term_range = range [unfolded in_range_def, THEN conjunct2]
  note node = core_invD(2) [OF c]
  have election: ?thesis
    if exec: "core_exec op c = snd (StartElection d)" "casts op c = [(current_term (snd (StartElection d)), rc_node_id c)]"
      and ok: "fst (StartElection d) = OK" and d: "core_inv d" "current_term d = current_term c"
      "rc_node_id d = rc_node_id c" "rc_role d = rc_role c" for d
    using StartElection_casts [OF d(1) _ ok] term_range exec d node cast by simp
  show ?thesis
  proof (cases op)
    case Do_StartElection
    then show ?thesis using cast c by (intro election [of c]) (auto split: if_splits)
  next
    case Do_Tick
    let ?d = "c\<lparr>rc_logical_ticks := rc_logical_ticks c + 1,
      rc_election_elapsed_ticks := rc_election_elapsed_ticks c + 1\<rparr>"
    have t: "fst (Tick c out) = Inr START_ELECTION" using Do_Tick cast by (auto split: if_splits)
    have ok: "fst (StartElection ?d) = OK \<and> Tick c out = (Inr START_ELECTION, snd (StartElection ?d))"
      using t by (cases "StartElection ?d") (auto simp: Tick_def Let_def split: if_splits)
    have "core_inv ?d" using c by (simp add: core_defs)
    then show ?thesis
      using Do_Tick ok by (intro election [of ?d]) (simp_all add: current_term_def)
  next
    case (Do_HandleRequestVote r)
    have r: "rv_candidate_id r \<noteq> kInvalidNodeId"
      using cast Do_HandleRequestVote HandleRequestVote_invalid [OF _ c, of r] by auto
    obtain response d where d: "DecideVote c r = (Inr response, d)"
      "fst (HandleRequestVote c r out) = Inr response"
      "rc_hard_state (snd (HandleRequestVote c r out)) = rc_hard_state d"
      using HandleRequestVote_cases [OF c r] by blast
    then have granted: "rvr_vote_granted response" "t = rvr_term response" "a = rv_candidate_id r"
      "casts op c = [(t, a)]"
      using cast Do_HandleRequestVote by (auto split: if_splits)
    then have g: "grants_vote c r" "t = current_term d" "current_term d = max (current_term c) (rv_term r)"
      "voted_for d = a"
      using DecideVote_cases [OF c, of r] d(1) by (auto simp: grants_vote_def)
    then show ?thesis
      using granted r d(3) Do_HandleRequestVote
      by (auto simp: grants_vote_def current_term_def voted_for_def max_def)
  qed (use cast in auto)
qed

text \<open>The votes known for a node: the one it started with and those it cast since.\<close>

definition initial_vote :: "RaftCore \<Rightarrow> (Term \<times> NodeId) list" where
  "initial_vote c = (if voted_for c = kInvalidNodeId then [] else [(current_term c, voted_for c)])"

definition votes_inv :: "(Term \<times> NodeId) list \<Rightarrow> RaftCore \<Rightarrow> bool" where
  "votes_inv votes c \<longleftrightarrow>
     (\<forall>(t, a) \<in> set votes. a \<noteq> kInvalidNodeId \<and>
        (t < current_term c \<or> (t = current_term c \<and> (voted_for c = a \<or> rc_role c = LEARNER)))) \<and>
     (\<forall>t a b. (t, a) \<in> set votes \<and> (t, b) \<in> set votes \<longrightarrow> a = b)"

lemma votes_inv_unique: "votes_inv votes c \<Longrightarrow> (t, a) \<in> set votes \<Longrightarrow> (t, b) \<in> set votes \<Longrightarrow> a = b"
  unfolding votes_inv_def by blast

lemma votes_inv_step:
  assumes c: "core_inv c" and range: "in_range c" and v: "votes_inv votes c"
  shows "votes_inv (votes @ casts op c) (core_exec op c)"
proof -
  let ?c = "core_exec op c"
  have le: "vote_le c ?c" using core_exec_le [OF c range] by (simp add: core_le_def)
  have old: "a \<noteq> kInvalidNodeId \<and>
      (t < current_term ?c \<or> (t = current_term ?c \<and> (voted_for ?c = a \<or> rc_role ?c = LEARNER)))"
    if "(t, a) \<in> set votes" for t a
  proof -
    have "a \<noteq> kInvalidNodeId"
      "t < current_term c \<or> (t = current_term c \<and> (voted_for c = a \<or> rc_role c = LEARNER))"
      using v that by (auto simp: votes_inv_def)
    then show ?thesis using le by (auto simp: vote_le_def)
  qed
  have same: "b = a" if "(t, a) \<in> set votes" "(t, b) \<in> set (casts op c)" for t a b
  proof -
    have "a \<noteq> kInvalidNodeId"
      "t < current_term c \<or> (t = current_term c \<and> (voted_for c = a \<or> rc_role c = LEARNER))"
      using v that(1) by (auto simp: votes_inv_def)
    moreover note casts_facts [OF c range that(2)]
    ultimately show ?thesis by (metis order.asym)
  qed
  have new: "b = a" if "(t, a) \<in> set (casts op c)" "(t, b) \<in> set (casts op c)" for t a b
    using casts_facts [OF c range that(1)] that(2) by auto
  show ?thesis
    unfolding votes_inv_def
  proof (intro conjI allI impI ballI)
    fix x assume x: "x \<in> set (votes @ casts op c)"
    obtain t a where [simp]: "x = (t, a)" by force
    have "(t, a) \<in> set votes \<or> (t, a) \<in> set (casts op c)" using x by simp
    then show "case x of (t, a) \<Rightarrow> a \<noteq> kInvalidNodeId \<and>
        (t < current_term ?c \<or> t = current_term ?c \<and> (voted_for ?c = a \<or> rc_role ?c = LEARNER))"
      using old casts_facts [OF c range, of t a op] by auto
  next
    fix t a b assume ab: "(t, a) \<in> set (votes @ casts op c) \<and> (t, b) \<in> set (votes @ casts op c)"
    then show "a = b" using same new votes_inv_unique [OF v] by (metis Un_iff set_append)
  qed
qed

lemma votes_inv_run:
  assumes "core_run c0 votes c" "core_inv c0"
  shows "votes_inv (initial_vote c0 @ votes) c"
  using assms
proof induction
  case start
  then show ?case by (auto simp: votes_inv_def initial_vote_def split: if_splits)
next
  case (step votes c op)
  then have "core_inv c" using core_run_le core_le_inv by blast
  then show ?case using votes_inv_step [of c "initial_vote c0 @ votes" op] step by simp
qed

section \<open>Example nodes\<close>

text \<open>Three voters, as the runtime initializes them from an empty store.\<close>

definition example_options :: "NodeId \<Rightarrow> Options" where
  "example_options n =
     \<lparr>opt_node_id = n, opt_initial_role = FOLLOWER, opt_election_timeout_ticks = 3,
      opt_hard_state = HardState_default, opt_voter_ids = [1, 2, 3], opt_learner_ids = [],
      opt_membership = None\<rparr>"

definition example_node :: "NodeId \<Rightarrow> RaftCore" where
  "example_node n = snd (Initialize RaftCore_new (example_options n))"

lemma example_init:
  "Initialize RaftCore_new (example_options 1) = (OK, example_node 1)"
  "Initialize RaftCore_new (example_options 2) = (OK, example_node 2)"
  "Initialize RaftCore_new (example_options 3) = (OK, example_node 3)"
proof -
  have "fst (Initialize RaftCore_new (example_options 1)) = OK" by code_simp
  then show "Initialize RaftCore_new (example_options 1) = (OK, example_node 1)"
    by (simp add: example_node_def prod_eq_iff)
  have "fst (Initialize RaftCore_new (example_options 2)) = OK" by code_simp
  then show "Initialize RaftCore_new (example_options 2) = (OK, example_node 2)"
    by (simp add: example_node_def prod_eq_iff)
  have "fst (Initialize RaftCore_new (example_options 3)) = OK" by code_simp
  then show "Initialize RaftCore_new (example_options 3) = (OK, example_node 3)"
    by (simp add: example_node_def prod_eq_iff)
qed

lemmas example_inv = example_init [THEN Initialize_inv(1)]

lemma core_run_single:
  assumes "in_range c0" "casts op c0 = votes" "core_exec op c0 = c"
  shows "core_run c0 votes c"
  using core_run.step [OF core_run.start assms(1), of op] assms(2,3) by simp

text \<open>A request for a vote by node 2 in term 1, and the voter after it.\<close>

definition example_vote_request :: RequestVoteRequest where
  "example_vote_request =
     \<lparr>rv_term = 1, rv_candidate_id = 2, rv_last_log_index = 0, rv_last_log_term = 0\<rparr>"

lemma example_range: "in_range (example_node 1)" "in_range (example_node 2)" "in_range (example_node 3)"
  by (simp_all add: in_range_def Initialize_inv(2,4) [OF example_init(1)]
      Initialize_inv(2,4) [OF example_init(2)] Initialize_inv(2,4) [OF example_init(3)]
      example_options_def HardState_default_def RaftLog_new_def last_index_def)

lemma example_vote_run:
  "core_run (example_node 1) [(1, 2)] (core_exec (Do_HandleRequestVote example_vote_request) (example_node 1))"
  "core_run (example_node 3) [(1, 2)] (core_exec (Do_HandleRequestVote example_vote_request) (example_node 3))"
proof -
  have "casts (Do_HandleRequestVote example_vote_request) (example_node 1) = [(1, 2)]" by code_simp
  then show "core_run (example_node 1) [(1, 2)]
      (core_exec (Do_HandleRequestVote example_vote_request) (example_node 1))"
    by (rule core_run_single [OF example_range(1)]) simp
  have "casts (Do_HandleRequestVote example_vote_request) (example_node 3) = [(1, 2)]" by code_simp
  then show "core_run (example_node 3) [(1, 2)]
      (core_exec (Do_HandleRequestVote example_vote_request) (example_node 3))"
    by (rule core_run_single [OF example_range(3)]) simp
qed

section \<open>Properties\<close>

text \<open>
  C4. Vote safety: over any run of a node, started from any well-formed state, the votes it has cast
  for itself or for others, including the one it started with, name at most one candidate for
  each term.
\<close>

theorem one_vote_per_term:
  assumes "core_inv c0" and "core_run c0 votes c"
    and "(t, a) \<in> set (initial_vote c0 @ votes)" and "(t, b) \<in> set (initial_vote c0 @ votes)"
  shows "a = b"
  using votes_inv_unique [OF votes_inv_run [OF assms(2,1)] assms(3,4)] .

theorem one_vote_per_term_witness:
  "core_run (example_node 1) [(1, 2)] (core_exec (Do_HandleRequestVote example_vote_request) (example_node 1)) \<and>
   {b. (1, b) \<in> set (initial_vote (example_node 1) @ [(1, 2)])} \<subseteq> {2}"
  using one_vote_per_term [OF example_inv(1) example_vote_run(1), of 1 _ 2] example_vote_run(1) by auto

text \<open>
  C3. Election safety: when every node of a cluster runs the code, two candidates that hold votes of a
  majority of the same voters in the same term are the same node.
\<close>

theorem election_safety:
  assumes "\<forall>n \<in> set voters. core_inv (start n) \<and> core_run (start n) (votes n) (now n)"
    and "majority voters {n \<in> set voters. (t, a) \<in> set (votes n)}"
    and "majority voters {n \<in> set voters. (t, b) \<in> set (votes n)}"
  shows "a = b"
proof -
  obtain n where n: "n \<in> set voters" "(t, a) \<in> set (votes n)" "(t, b) \<in> set (votes n)"
    using maj.quorum_overlap [OF assms(2,3)] by blast
  then have "votes_inv (initial_vote (start n) @ votes n) (now n)"
    using assms(1) votes_inv_run by blast
  then show ?thesis by (rule votes_inv_unique [where t = t]) (use n(2,3) in simp_all)
qed

theorem election_safety_witness:
  "\<exists>votes (now :: NodeId \<Rightarrow> RaftCore). core_run (example_node 1) (votes 1) (now 1) \<and> core_run (example_node 3) (votes 3) (now 3) \<and>
     majority [1, 3 :: NodeId] {n \<in> set [1, 3]. (1, 2) \<in> set (votes n)} \<and>
     {b. majority [1, 3 :: NodeId] {n \<in> set [1, 3]. (1, b) \<in> set (votes n)}} \<subseteq> {2}"
proof -
  define votes :: "NodeId \<Rightarrow> (Term \<times> NodeId) list" where "votes = (\<lambda>_. [(1, 2)])"
  define now where "now n = core_exec (Do_HandleRequestVote example_vote_request) (example_node n)" for n
  have runs: "\<forall>n \<in> set [1, 3]. core_inv (example_node n) \<and> core_run (example_node n) (votes n) (now n)"
    using example_inv example_vote_run by (simp add: votes_def now_def)
  have maj: "majority [1, 3 :: NodeId] {n \<in> set [1, 3]. (1, 2) \<in> set (votes n)}"
    by (simp add: votes_def majority_def)
  have unique: "b = 2" if "majority [1, 3 :: NodeId] {n \<in> set [1, 3]. (1, b) \<in> set (votes n)}" for b
    by (rule election_safety [OF runs that maj])
  have run1: "core_run (example_node 1) (votes 1) (now 1)" and run3: "core_run (example_node 3) (votes 3) (now 3)"
    using runs by simp_all
  show ?thesis
    by (rule exI [of _ votes], rule exI [of _ now]) (use run1 run3 maj unique in blast)
qed

text \<open>
  C5. Whatever a node does, its invariant holds, its term, commit index and applied index never go
  back, and an entry at or below its commit index is never removed or replaced (only compacted
  into a snapshot, behind the snapshot boundary).
\<close>

theorem committed_entries_stay:
  assumes "core_inv c0" and "core_run c0 votes c"
  shows "core_inv c \<and> current_term c0 \<le> current_term c \<and>
    lg_commit_index (rc_log c0) \<le> lg_commit_index (rc_log c) \<and>
    lg_applied_index (rc_log c0) \<le> lg_applied_index (rc_log c) \<and>
    (\<forall>i. lg_snapshot_index (rc_log c) < i \<and> i \<le> lg_commit_index (rc_log c0) \<longrightarrow>
       GetEntry (rc_log c) i out = GetEntry (rc_log c0) i out)"
  using core_run_le [OF assms(2,1)]
  by (simp add: core_le_def log_le_def vote_le_def GetEntry_abs)

theorem committed_entries_stay_witness:
  "core_inv (core_exec (Do_HandleRequestVote example_vote_request) (example_node 1)) \<and>
   current_term (example_node 1) \<le>
     current_term (core_exec (Do_HandleRequestVote example_vote_request) (example_node 1))"
  using committed_entries_stay [OF example_inv(1) example_vote_run(1)] by blast

text \<open>
  A learner stays a learner and never casts a vote, whatever happens to it. In particular the
  membership entry that promotes it to a voter does not make it one.
\<close>

theorem learner_forever:
  assumes "core_inv c0" and "rc_role c0 = LEARNER" and "core_run c0 votes c"
  shows "rc_role c = LEARNER \<and> votes = []"
  using assms(3)
proof induction
  case start
  then show ?case using assms(2) by simp
next
  case (step votes c op)
  have c: "core_inv c" using core_run_le [OF step.hyps(1) assms(1)] by (rule core_le_inv)
  have "casts op c = []"
  proof (rule ccontr)
    assume "casts op c \<noteq> []"
    then obtain t a where "(t, a) \<in> set (casts op c)" by (cases "casts op c") auto
    then show False using casts_facts [OF c step.hyps(2)] step.IH by blast
  qed
  then show ?case
    using step.IH core_exec_le [OF c step.hyps(2), of op] by (simp add: core_le_def vote_le_def)
qed

definition example_learner :: RaftCore where
  "example_learner =
     snd (Initialize RaftCore_new
       ((example_options 4)\<lparr>opt_initial_role := LEARNER, opt_learner_ids := [4]\<rparr>))"

theorem learner_forever_witness:
  "rc_role example_learner = LEARNER \<and>
   rc_role (core_exec (Do_HandleRequestVote example_vote_request) example_learner) = LEARNER \<and>
   casts (Do_HandleRequestVote example_vote_request) example_learner = []"
proof -
  let ?options = "(example_options 4)\<lparr>opt_initial_role := LEARNER, opt_learner_ids := [4]\<rparr>"
  have "fst (Initialize RaftCore_new ?options) = OK" by code_simp
  then have init: "Initialize RaftCore_new ?options = (OK, example_learner)"
    by (simp add: example_learner_def prod_eq_iff)
  note facts = Initialize_inv [OF init]
  have role: "rc_role example_learner = LEARNER" using facts(6) by simp
  have "in_range example_learner"
    using facts(2,4) by (simp add: in_range_def example_options_def HardState_default_def RaftLog_new_def last_index_def)
  then have "core_run example_learner (casts (Do_HandleRequestVote example_vote_request) example_learner)
      (core_exec (Do_HandleRequestVote example_vote_request) example_learner)"
    by (rule core_run_single [OF _ refl refl])
  then show ?thesis using learner_forever [OF facts(1) role] role by blast
qed

end
