(* ===== verification/Raft_Core_Commit.thy ===== *)
theory Raft_Core_Commit
  imports Raft_Core_Run
begin

text \<open>
  When the leader commits: \<open>TryAdvanceCommitIndex\<close> searches from the last index downwards, counting
  the progress records of the voters. The lemmas show which index it finds, in terms of the
  quorums of \<open>Quorum\<close>.
\<close>

section \<open>Counting\<close>

definition acked :: "RaftCore \<Rightarrow> LogIndex \<Rightarrow> NodeId set" where
  "acked c i = {n. \<exists>p. map_find (rc_peer_progress c) n = Some p \<and> i \<le> pp_match_index p}"

text \<open>The quorum of the current configuration, joint while a transition is active.\<close>

definition core_quorum :: "RaftCore \<Rightarrow> NodeId set \<Rightarrow> bool" where
  "core_quorum c Q \<longleftrightarrow>
     (if ms_has_active_transition (rc_membership_state c)
      then joint_quorum (MemberIds (ms_voters (rc_membership_state c)))
             (MemberIds (ms_next_voters (rc_membership_state c))) Q
      else majority (rc_voter_ids c) Q)"

lemma count_matches_eq:
  assumes "\<forall>n \<in> set ns. map_find (rc_peer_progress c) n \<noteq> None"
  shows "count_matches c i ns k = Inr (k + length (filter (\<lambda>n. n \<in> acked c i) ns))"
  using assms
proof (induction ns arbitrary: k)
  case (Cons n ns)
  then obtain p where "map_find (rc_peer_progress c) n = Some p" by auto
  with Cons show ?case by (simp add: FindPeerProgress_def acked_def)
qed simp

lemma count_for_eq: "count_for c i ns = length (filter (\<lambda>n. n \<in> acked c i) ns)"
proof -
  have "(case FindPeerProgress c n of Inl _ \<Rightarrow> False | Inr p \<Rightarrow> i \<le> pp_match_index p) \<longleftrightarrow> n \<in> acked c i" for n
    by (auto simp: FindPeerProgress_def acked_def split: option.splits)
  then show ?thesis by (simp add: count_for_def)
qed

lemma has_commit_quorum_eq:
  assumes "core_inv c"
  shows "has_commit_quorum c i = Inr (core_quorum c (acked c i))"
proof -
  have "\<forall>n \<in> set (rc_voter_ids c). map_find (rc_peer_progress c) n \<noteq> None"
    using core_invD(5) [OF assms] unfolding peers_inv_def by blast
  then show ?thesis
    by (simp add: has_commit_quorum_def core_quorum_def HasJointQuorumAt_def count_for_eq Let_def
        joint_quorum_def majority_def count_matches_eq not_less)
qed

text \<open>With a membership state, this is the quorum of that state.\<close>

lemma majority_MemberIds: "majority (MemberIds ms) Q \<longleftrightarrow> majority (map mb_node_id ms) Q"
  by (rule majority_mset) (simp add: MemberIds_def)

lemma core_quorum_state:
  assumes "core_inv c" "\<not> MembershipState_empty (rc_membership_state c)"
  shows "core_quorum c Q \<longleftrightarrow> state_quorum (rc_membership_state c) Q"
proof -
  have "rc_voter_ids c = TransitionVoterIds (rc_membership_state c)"
    using core_invD(6) [OF assms(1)] assms(2) by (simp add: membership_inv_def)
  then show ?thesis
    by (simp add: core_quorum_def state_quorum_def joint_quorum_def majority_MemberIds
        TransitionVoterIds_def Let_def)
qed

section \<open>The search\<close>

definition committable :: "RaftCore \<Rightarrow> LogIndex \<Rightarrow> bool" where
  "committable c i \<longleftrightarrow>
     lg_commit_index (rc_log c) < i \<and> i \<le> last_index (rc_log c) \<and>
     GetTerm (rc_log c) i out = Inr (current_term c) \<and> core_quorum c (acked c i)"

definition committed_to :: "RaftCore \<Rightarrow> LogIndex \<Rightarrow> RaftCore" where
  "committed_to c i =
     c\<lparr>rc_log := (rc_log c)\<lparr>lg_commit_index := i\<rparr>,
       rc_hard_state := (rc_hard_state c)\<lparr>hs_commit_index := i\<rparr>\<rparr>"

lemma TryAdvanceCommitIndex_loop_spec:
  assumes c: "core_inv c" and i: "i \<le> last_index (rc_log c)"
  shows "(\<forall>j. committable c j \<longrightarrow> i < j) \<and> TryAdvanceCommitIndex_loop c i = (OK, c) \<or>
    (\<exists>j \<le> i. committable c j \<and> (\<forall>k \<le> i. committable c k \<longrightarrow> k \<le> j) \<and>
       TryAdvanceCommitIndex_loop c i = (OK, committed_to c j))"
  using i
proof (induction "unat i" arbitrary: i rule: less_induct)
  case less
  note inv = core_invD(3) [OF c]
  show ?case
  proof (cases "lg_commit_index (rc_log c) < i")
    case False
    then have "committable c j \<longrightarrow> i < j" for j by (auto simp: committable_def not_less)
    then show ?thesis using False by (subst (1 2) TryAdvanceCommitIndex_loop.simps) simp
  next
    case above: True
    then have pos: "0 < i" by (simp add: word_gt_0) auto
    have dec: "unat (i - 1) < unat i" using pos by (rule unat_dec_less)
    have le_dec: "k \<le> i - 1 \<longleftrightarrow> k < i" for k
      using pos by (simp add: word_le_nat_alt word_less_nat_alt unat_dec less_eq_Suc_le) arith
    have "i - 1 \<le> last_index (rc_log c)" using dec less.prems by (simp add: word_le_nat_alt)
    note IH = less.hyps [OF dec this]
    have snap: "lg_snapshot_index (rc_log c) \<le> i"
      using above log_inv_order(1) [OF inv] by (meson le_less_trans less_imp_le)
    obtain t where t: "GetTerm (rc_log c) i out = Inr t" using GetTerm_in_range [OF inv snap less.prems] by blast
    have lt_dec: "i - 1 < k \<longleftrightarrow> i \<le> k" for k using le_dec [of k] by (meson not_le)
    have skip: ?thesis if no: "\<not> committable c i"
      and eq: "TryAdvanceCommitIndex_loop c i = TryAdvanceCommitIndex_loop c (i - 1)"
    proof -
      have none: "i < j" if "committable c j" "i \<le> j" for j using no that by (cases "i = j") auto
      have some: "k < i" if "committable c k" "k \<le> i" for k using no that by (cases "k = i") auto
      show ?thesis
        using IH none some unfolding eq le_dec lt_dec by (meson less_imp_le)
    qed
    show ?thesis
    proof (cases "t = current_term c \<and> core_quorum c (acked c i)")
      case True
      then have com: "committable c i" using above less.prems t by (simp add: committable_def)
      have "TryAdvanceCommitIndex_loop c i = (OK, committed_to c i)"
        using True above less.prems
        by (subst TryAdvanceCommitIndex_loop.simps)
          (simp add: t has_commit_quorum_eq [OF c] commit_to_eq [OF inv] committed_to_def less_imp_le)
      then show ?thesis using com by blast
    next
      case False
      then have no: "\<not> committable c i" using t by (simp add: committable_def)
      have "TryAdvanceCommitIndex_loop c i = TryAdvanceCommitIndex_loop c (i - 1)"
        using False above
        by (subst TryAdvanceCommitIndex_loop.simps) (auto simp: t has_commit_quorum_eq [OF c] split: bool.splits)
      then show ?thesis by (rule skip [OF no])
    qed
  qed
qed

lemma TryAdvanceCommitIndex_spec:
  assumes c: "core_inv c"
  shows "(\<forall>j. \<not> committable c j) \<and> TryAdvanceCommitIndex c = (OK, c) \<or>
    (\<exists>j. committable c j \<and> (\<forall>k. committable c k \<longrightarrow> k \<le> j) \<and>
       TryAdvanceCommitIndex c = (OK, committed_to c j))"
  using TryAdvanceCommitIndex_loop_spec [OF c order.refl]
  unfolding TryAdvanceCommitIndex_def committable_def by (metis not_le)

lemma GetTerm_commit [simp]: "GetTerm (l\<lparr>lg_commit_index := i\<rparr>) = GetTerm l"
  by (intro ext) (simp add: GetTerm_def HasLogEntry_def Offset_def last_index_def)

lemma committed_to_quorum [simp]:
  "core_quorum (committed_to c i) = core_quorum c" "acked (committed_to c i) = acked c"
  "current_term (committed_to c i) = current_term c"
  "rc_log (committed_to c i) = (rc_log c)\<lparr>lg_commit_index := i\<rparr>"
  by (simp_all add: fun_eq_iff core_quorum_def acked_def committed_to_def current_term_def)

lemma TryAdvanceCommitIndex_result:
  assumes "core_inv c" "lg_commit_index (rc_log (snd (TryAdvanceCommitIndex c))) \<noteq> lg_commit_index (rc_log c)"
  shows "\<exists>i. committable c i \<and> snd (TryAdvanceCommitIndex c) = committed_to c i"
  using TryAdvanceCommitIndex_spec [OF assms(1)] assms(2) by auto

lemma put_progress_fields [simp]:
  "rc_log (put_progress n p c) = rc_log c" "current_term (put_progress n p c) = current_term c"
  "rc_role (put_progress n p c) = rc_role c" "rc_hard_state (put_progress n p c) = rc_hard_state c"
  by (simp_all add: put_progress_def current_term_def)

lemma snd_then_get_const: "snd (then_get m (\<lambda>s. (Inr x, s))) = snd m"
  by (cases m) simp

text \<open>Only an accepted reply starts the search; every other path leaves the log alone.\<close>

definition accepts_reply :: "RaftCore \<Rightarrow> NodeId \<Rightarrow> AppendEntriesResponse \<Rightarrow> PeerProgress \<Rightarrow> bool" where
  "accepts_reply c n r f \<longleftrightarrow>
     ok (ValidateAppendEntriesResponse c n r) \<and> aer_term r = current_term c \<and> rc_role c = LEADER \<and>
     FindPeerProgress c n = Inr f \<and> aer_success r \<and> aer_match_index r \<le> last_index (rc_log c)"

definition reply_progress :: "PeerProgress \<Rightarrow> AppendEntriesResponse \<Rightarrow> PeerProgress" where
  "reply_progress f r =
     (let match = (if pp_match_index f < aer_match_index r then aer_match_index r else pp_match_index f)
      in f\<lparr>pp_is_active := True, pp_match_index := match, pp_next_index := max (pp_next_index f) (match + 1)\<rparr>)"

lemma HandleAppendEntriesResponse_accepted:
  assumes "core_inv c" "accepts_reply c n r f"
  shows "snd (HandleAppendEntriesResponse c n r out) =
    snd (TryAdvanceCommitIndex (put_progress n (reply_progress f r) c))"
  using assms core_invD(1) [OF assms(1)]
  by (auto simp: accepts_reply_def HandleAppendEntriesResponse_def require_core_def reply_progress_def Let_def
      snd_then_get_const simp del: then_get.simps)

lemma HandleAppendEntriesResponse_log:
  assumes "\<forall>f. \<not> accepts_reply c n r f"
  shows "rc_log (snd (HandleAppendEntriesResponse c n r out)) = rc_log c"
proof (cases "FindPeerProgress c n")
  case (Inl e)
  then show ?thesis
    by (simp add: HandleAppendEntriesResponse_def Let_def snd_then_get_const UpdateCurrentTerm_fields
        del: then_get.simps)
next
  case (Inr f)
  with assms have "\<not> accepts_reply c n r f" by blast
  with Inr show ?thesis
    by (auto simp: accepts_reply_def HandleAppendEntriesResponse_def Let_def snd_then_get_const
        UpdateCurrentTerm_fields simp del: then_get.simps)
qed

section \<open>Properties\<close>

text \<open>
  C7. \<open>TryAdvanceCommitIndex\<close> commits exactly the largest index above the commit index whose entry is
  of the current term and which a quorum of the current configuration (a joint one during a
  transition) has acknowledged; when there is none it changes nothing. It never fails.
\<close>

theorem TryAdvanceCommitIndex_exact:
  assumes "core_inv c"
  shows "if \<exists>i. committable c i
    then \<exists>i. committable c i \<and> (\<forall>k. committable c k \<longrightarrow> k \<le> i) \<and>
           TryAdvanceCommitIndex c = (OK, committed_to c i)
    else TryAdvanceCommitIndex c = (OK, c)"
  using TryAdvanceCommitIndex_spec [OF assms] by auto

text \<open>A leader of term 1 with one entry of its own, which node 2 has acknowledged.\<close>

definition example_ack :: "LogIndex \<Rightarrow> AppendEntriesResponse" where
  "example_ack i =
     \<lparr>aer_term = 1, aer_success = True, aer_match_index = i, aer_conflict_index = 0, aer_conflict_term = 0\<rparr>"

definition example_leader :: RaftCore where
  "example_leader = snd (Propose (snd (BecomeLeader (snd (StartElection (example_node 1))))) [7])"

lemma example_leader_inv: "core_inv example_leader"
proof -
  have r: "current_term (example_node 1) < - 1" "last_index (rc_log (example_node 1)) < - 1"
    using example_range(1) by (simp_all add: in_range_def)
  have s: "core_inv (snd (StartElection (example_node 1)))"
    using core_le_inv [OF StartElection_le [OF example_inv(1) r(1)]] .
  have l: "core_inv (snd (BecomeLeader (snd (StartElection (example_node 1)))))"
    using core_le_inv [OF BecomeLeader_le [OF s]] .
  have "last_index (rc_log (snd (BecomeLeader (snd (StartElection (example_node 1)))))) < - 1" by code_simp
  then show ?thesis unfolding example_leader_def using core_le_inv [OF Propose_le [OF l]] by blast
qed

text \<open>The leader after the acknowledgement is recorded, before the search for a commit index.\<close>

definition example_acked_leader :: RaftCore where
  "example_acked_leader =
     put_progress 2 \<lparr>pp_node_id = 2, pp_is_learner = False, pp_is_active = True,
       pp_match_index = 1, pp_next_index = 2\<rparr> example_leader"

lemma example_acked_leader_inv: "core_inv example_acked_leader"
proof -
  have "FindPeerProgress example_leader 2 = Inr \<lparr>pp_node_id = 2, pp_is_learner = False,
      pp_is_active = False, pp_match_index = 0, pp_next_index = 1\<rparr>" by code_simp
  then show ?thesis
    unfolding example_acked_leader_def
    by (rule core_le_inv [OF put_progress_le [OF example_leader_inv]]) simp
qed

theorem TryAdvanceCommitIndex_exact_witness:
  "\<exists>i. committable example_acked_leader i \<and>
     TryAdvanceCommitIndex example_acked_leader = (OK, committed_to example_acked_leader i)"
proof -
  have "fst (TryAdvanceCommitIndex example_acked_leader) = OK \<and>
      lg_commit_index (rc_log (snd (TryAdvanceCommitIndex example_acked_leader))) = 1 \<and>
      lg_commit_index (rc_log example_acked_leader) = 0" by code_simp
  then have "TryAdvanceCommitIndex example_acked_leader \<noteq> (OK, example_acked_leader)" by auto
  then show ?thesis
    using TryAdvanceCommitIndex_exact [OF example_acked_leader_inv] by (auto split: if_splits)
qed

text \<open>
  C6. A leader that handles a reply advances its commit index only to an index whose entry has its own
  term and which a quorum of its configuration has acknowledged, and it commits nothing on a
  reply that is stale, unsuccessful or from a higher term.
\<close>

theorem leader_commit_needs_quorum:
  assumes "core_inv c" and "HandleAppendEntriesResponse c n r out = (res, c')"
    and "lg_commit_index (rc_log c') \<noteq> lg_commit_index (rc_log c)"
  shows "rc_role c = LEADER \<and> aer_success r \<and> aer_term r = current_term c \<and>
    lg_commit_index (rc_log c) < lg_commit_index (rc_log c') \<and>
    GetTerm (rc_log c') (lg_commit_index (rc_log c')) out = Inr (current_term c') \<and>
    core_quorum c' (acked c' (lg_commit_index (rc_log c')))"
proof -
  obtain f where f: "accepts_reply c n r f"
    using HandleAppendEntriesResponse_log assms(2,3) by (metis snd_conv)
  let ?d = "put_progress n (reply_progress f r) c"
  have d: "core_inv ?d" "rc_log ?d = rc_log c"
    using f by (auto simp: accepts_reply_def reply_progress_def Let_def
        intro!: core_le_inv [OF put_progress_le [OF assms(1)]])
  have c': "c' = snd (TryAdvanceCommitIndex ?d)"
    using HandleAppendEntriesResponse_accepted [OF assms(1) f] assms(2) by simp
  then obtain i where i: "committable ?d i" "c' = committed_to ?d i"
    using TryAdvanceCommitIndex_result [OF d(1)] assms(3) d(2) by auto
  then show ?thesis using f d(2) by (simp add: committable_def accepts_reply_def)
qed

theorem leader_commit_needs_quorum_witness:
  "lg_commit_index (rc_log (snd (HandleAppendEntriesResponse example_leader 2 (example_ack 1) out))) \<noteq>
     lg_commit_index (rc_log example_leader) \<and>
   core_quorum (snd (HandleAppendEntriesResponse example_leader 2 (example_ack 1) out))
     (acked (snd (HandleAppendEntriesResponse example_leader 2 (example_ack 1) out)) 1)"
proof -
  let ?r = "HandleAppendEntriesResponse example_leader 2 (example_ack 1) out"
  have i: "lg_commit_index (rc_log (snd ?r)) = 1 \<and> lg_commit_index (rc_log example_leader) = 0" by code_simp
  have "?r = (fst ?r, snd ?r)" by simp
  from leader_commit_needs_quorum [OF example_leader_inv this] i show ?thesis by simp
qed

end
