(* ===== verification/Raft_Core_Append.thy ===== *)
theory Raft_Core_Append
  imports Raft_Core_Commit
begin

text \<open>
  Log replication at the follower: the exact outcome of \<open>HandleAppendEntries\<close>, which request it
  accepts, what the log holds afterwards, and what the reply says.
\<close>

section \<open>The follower after the term check\<close>

definition follower_of :: "RaftCore \<Rightarrow> AppendEntriesRequest \<Rightarrow> RaftCore" where
  "follower_of c r =
     (let c1 = (if current_term c < ae_term r
                then c\<lparr>rc_hard_state := (rc_hard_state c)
                  \<lparr>hs_current_term := ae_term r, hs_voted_for := kInvalidNodeId\<rparr>\<rparr> else c);
          c2 = (if rc_role c1 = CANDIDATE then c1\<lparr>rc_role := FOLLOWER\<rparr> else c1)
      in ResetElectionTicks (c2\<lparr>rc_leader_id := ae_leader_id r\<rparr>))"

lemma follower_of_fields [simp]:
  "rc_log (follower_of c r) = rc_log c" "rc_node_id (follower_of c r) = rc_node_id c"
  "rc_leader_id (follower_of c r) = ae_leader_id r"
  "rc_persisted_hard_state (follower_of c r) = rc_persisted_hard_state c"
  "rc_role (follower_of c r) = (if rc_role c = CANDIDATE then FOLLOWER else rc_role c)"
  "hs_commit_index (rc_hard_state (follower_of c r)) = hs_commit_index (rc_hard_state c)"
  "rc_immediate_messages (follower_of c r) = rc_immediate_messages c"
  "rc_persisted_messages (follower_of c r) = rc_persisted_messages c"
  "hs_membership_configuration_id (rc_hard_state (follower_of c r)) =
     hs_membership_configuration_id (rc_hard_state c)"
  by (simp_all add: follower_of_def Let_def)

lemma current_term_follower_of [simp]:
  "current_term (follower_of c r) = max (current_term c) (ae_term r)"
  by (simp add: follower_of_def Let_def current_term_def max_def) auto

text \<open>Which requests reach the log: valid, of a term not below the node's, not stopped by leadership.\<close>

definition follows :: "RaftCore \<Rightarrow> AppendEntriesRequest \<Rightarrow> bool" where
  "follows c r \<longleftrightarrow>
     ok (ValidateAppendEntriesRequest c r) \<and> current_term c \<le> ae_term r \<and>
     \<not> (rc_role c = LEADER \<and> ae_leader_id r \<noteq> rc_node_id c)"

definition take_entries :: "RaftCore \<Rightarrow> AppendEntriesRequest \<Rightarrow> Status \<times> RaftCore" where
  "take_entries c r =
     then_do (then_do (store_entries (follower_of c r) (ae_entries r))
       (\<lambda>c4. follow_commit c4 (ae_leader_commit r))) SyncLocalPeerProgress"

definition success_response :: "RaftCore \<Rightarrow> AppendEntriesRequest \<Rightarrow> RaftCore \<Rightarrow> AppendEntriesResponse" where
  "success_response c r c6 =
     (ResetAppendResponse (current_term c))
       \<lparr>aer_term := current_term (follower_of c r), aer_success := True,
        aer_match_index := last_index (rc_log c6)\<rparr>"

lemma HandleAppendEntries_follows:
  assumes c: "rc_initialized c" and f: "follows c r"
  shows "HandleAppendEntries c r out =
    (if \<not> Matches (rc_log c) (ae_prev_log_index r) (ae_prev_log_term r)
     then (case conflict_hint (follower_of c r) r of
             Inl status \<Rightarrow> (Inl status, follower_of c r)
           | Inr (conflict_index, conflict_term) \<Rightarrow>
               append_reply (follower_of c r) (ae_leader_id r)
                 ((ResetAppendResponse (current_term c))
                    \<lparr>aer_term := current_term (follower_of c r), aer_conflict_index := conflict_index,
                     aer_conflict_term := conflict_term\<rparr>)
                 (\<not> SameHardState (rc_hard_state c) (rc_hard_state (follower_of c r))) kInvalidLogIndex)
     else then_get (take_entries c r) (\<lambda>c6.
            append_reply c6 (ae_leader_id r) (success_response c r c6)
              (\<not> SameHardState (rc_hard_state c) (rc_hard_state c6))
              (if last_index (rc_log c) < last_index (rc_log c6)
               then last_index (rc_log c6) else kInvalidLogIndex)))"
proof -
  define c1 where "c1 = (if current_term c < ae_term r
    then c\<lparr>rc_hard_state := (rc_hard_state c)
      \<lparr>hs_current_term := ae_term r, hs_voted_for := kInvalidNodeId\<rparr>\<rparr> else c)"
  have up: "(if current_term c < ae_term r then UpdateCurrentTerm c (ae_term r) else (OK, c)) = (OK, c1)"
    using order.asym by (auto simp: UpdateCurrentTerm_eq [OF c] c1_def)
  have role: "\<not> (rc_role c1 = LEADER \<and> ae_leader_id r \<noteq> rc_node_id c1)"
    using f by (simp add: follows_def c1_def)
  have low: "\<not> ae_term r < current_term c" using f by (simp add: follows_def not_less)
  have req: "require_core c out = OK" "ValidateAppendEntriesRequest c r = OK"
    using c f by (simp_all add: require_core_def follows_def)
  have eq: "ResetElectionTicks ((if rc_role c1 = CANDIDATE then c1\<lparr>rc_role := FOLLOWER\<rparr> else c1)
      \<lparr>rc_leader_id := ae_leader_id r\<rparr>) = follower_of c r"
    by (simp add: follower_of_def c1_def Let_def)
  show ?thesis
    unfolding HandleAppendEntries_def Let_def req up then_get.simps if_not_P [OF low] if_not_P [OF role] eq
      take_entries_def success_response_def
    by (simp del: then_get.simps then_do.simps)
qed

lemma append_reply_fields:
  "rc_log (snd (append_reply c t x h i)) = rc_log c" "fst (append_reply c t x h i) = Inr x"
  "rc_hard_state (snd (append_reply c t x h i)) = rc_hard_state c"
  "rc_role (snd (append_reply c t x h i)) = rc_role c"
  "rc_leader_id (snd (append_reply c t x h i)) = rc_leader_id c"
  "rc_persisted_hard_state (snd (append_reply c t x h i)) = rc_persisted_hard_state c"
proof -
  define m where "m = \<lparr>msg_type = APPEND_ENTRIES_RESPONSE, msg_source_node_id = rc_node_id c,
    msg_target_node_id = t, msg_payload = AppendEntriesResponseMsg x\<rparr>"
  have eq: "append_reply c t x h i = (Inr x, snd (StageMessage c m h i))"
    unfolding append_reply_def m_def [symmetric]
    using StageMessage_OK [of c m h i] by (metis prod.collapse then_get.simps)
  show "rc_log (snd (append_reply c t x h i)) = rc_log c" "fst (append_reply c t x h i) = Inr x"
    "rc_hard_state (snd (append_reply c t x h i)) = rc_hard_state c"
    "rc_role (snd (append_reply c t x h i)) = rc_role c"
    "rc_leader_id (snd (append_reply c t x h i)) = rc_leader_id c"
    "rc_persisted_hard_state (snd (append_reply c t x h i)) = rc_persisted_hard_state c"
    by (simp_all add: eq StageMessage_fields)
qed

lemma HandleAppendEntries_rejected:
  assumes c: "rc_initialized c" and f: "\<not> follows c r"
  shows "rc_log (snd (HandleAppendEntries c r out)) = rc_log c \<and>
    (\<forall>x. fst (HandleAppendEntries c r out) = Inr x \<longrightarrow> \<not> aer_success x)"
proof -
  have no: "\<not> aer_success (ResetAppendResponse t)" for t by (simp add: ResetAppendResponse_def)
  consider (invalid) "\<not> ok (ValidateAppendEntriesRequest c r)"
    | (stale) "ok (ValidateAppendEntriesRequest c r)" "ae_term r < current_term c"
    | (leads) "ok (ValidateAppendEntriesRequest c r)" "\<not> ae_term r < current_term c"
        "rc_role c = LEADER" "ae_leader_id r \<noteq> rc_node_id c"
    using f by (auto simp: follows_def not_le)
  then show ?thesis
  proof cases
    case invalid
    then show ?thesis using c by (simp add: HandleAppendEntries_def require_core_def)
  next
    case stale
    then show ?thesis using c no by (auto simp: HandleAppendEntries_def require_core_def append_reply_fields)
  next
    case leads
    then show ?thesis
      using c no
      by (auto simp: HandleAppendEntries_def require_core_def append_reply_fields Let_def
          UpdateCurrentTerm_eq [OF c])
  qed
qed

lemma follower_of_le:
  assumes c: "core_inv c" and f: "follows c r"
  shows "core_le c (follower_of c r)"
proof -
  let ?c1 = "if current_term c < ae_term r
    then c\<lparr>rc_hard_state := (rc_hard_state c)
      \<lparr>hs_current_term := ae_term r, hs_voted_for := kInvalidNodeId\<rparr>\<rparr> else c"
  have l1: "core_le c ?c1" using c term_update_le by simp
  have role: "rc_role ?c1 = rc_role c" "rc_node_id ?c1 = rc_node_id c" by simp_all
  have l2: "core_le ?c1 (?c1\<lparr>rc_role := (if rc_role c = CANDIDATE then FOLLOWER else rc_role c),
      rc_leader_id := ae_leader_id r\<rparr>)"
    using core_le_inv [OF l1] f by (intro role_update_le) (auto simp: follows_def)
  have "follower_of c r = ResetElectionTicks
      (?c1\<lparr>rc_role := (if rc_role c = CANDIDATE then FOLLOWER else rc_role c), rc_leader_id := ae_leader_id r\<rparr>)"
    unfolding follower_of_def Let_def by (rule RaftCore.equality) (simp_all add: ResetElectionTicks_def)
  then show ?thesis
    using core_le_trans [OF l1 core_le_trans [OF l2 ResetElectionTicks_le [OF core_le_inv [OF l2]]]] by simp
qed

lemma follow_commit_eq:
  assumes inv: "log_inv (rc_log c)" and hs: "hs_commit_index (rc_hard_state c) = lg_commit_index (rc_log c)"
  shows "follow_commit c i = (OK, committed_to c (max (lg_commit_index (rc_log c)) (min i (last_index (rc_log c)))))"
proof (cases "lg_commit_index (rc_log c) < min i (last_index (rc_log c))")
  case True
  then have "max (lg_commit_index (rc_log c)) (min i (last_index (rc_log c))) = min i (last_index (rc_log c))"
    by (intro max_absorb2 less_imp_le)
  then show ?thesis
    using True commit_to_eq [OF inv, of "min i (last_index (rc_log c))"] less_imp_le [OF True]
    by (simp only: follow_commit_def Let_def if_True committed_to_def min.cobounded2 simp_thms)
next
  case False
  then have "max (lg_commit_index (rc_log c)) (min i (last_index (rc_log c))) = lg_commit_index (rc_log c)"
    by (intro max_absorb1) (simp only: not_less)
  moreover have "committed_to c (lg_commit_index (rc_log c)) = c"
    unfolding committed_to_def using hs [symmetric] by (intro RaftCore.equality) simp_all
  ultimately show ?thesis using False by (simp only: follow_commit_def Let_def if_False)
qed

text \<open>What the log becomes, and whether the request is stored.\<close>

lemma take_entries_result:
  assumes c: "core_inv c" and last: "last_index (rc_log c) < - 1" and f: "follows c r"
  shows "\<exists>st l. stores (rc_log c) (ae_entries r) (st, l) \<and> fst (take_entries c r) = st \<and>
    (st \<noteq> OK \<longrightarrow> rc_log (snd (take_entries c r)) = rc_log c) \<and>
    (st = OK \<longrightarrow> rc_log (snd (take_entries c r)) =
       l\<lparr>lg_commit_index := max (lg_commit_index l) (min (ae_leader_commit r) (last_index l))\<rparr> \<and>
       rc_hard_state (snd (take_entries c r)) = (rc_hard_state (follower_of c r))
         \<lparr>hs_commit_index := max (lg_commit_index l) (min (ae_leader_commit r) (last_index l))\<rparr>)"
proof -
  let ?d = "follower_of c r"
  note d = core_le_inv [OF follower_of_le [OF c f]]
  obtain st l where s: "store_entries ?d (ae_entries r) = (st, ?d\<lparr>rc_log := l\<rparr>)"
    "stores (rc_log c) (ae_entries r) (st, l)"
    using store_entries_stores [OF core_invD(3) [OF d], of "ae_entries r"] last by auto
  note l = stores_log [OF s(2) core_invD(3) [OF c] last]
  show ?thesis
  proof (cases "st = OK")
    case False
    then have "l = rc_log c" using s(2) by (auto elim: stores.cases)
    then show ?thesis using False s by (auto simp: take_entries_def)
  next
    case True
    let ?i = "max (lg_commit_index l) (min (ae_leader_commit r) (last_index l))"
    have fc: "follow_commit (?d\<lparr>rc_log := l\<rparr>) (ae_leader_commit r) = (OK, committed_to (?d\<lparr>rc_log := l\<rparr>) ?i)"
      using follow_commit_eq [of "?d\<lparr>rc_log := l\<rparr>" "ae_leader_commit r"] l core_invD(4) [OF c] by simp
    have "take_entries c r = SyncLocalPeerProgress (committed_to (?d\<lparr>rc_log := l\<rparr>) ?i)"
      using True by (simp add: take_entries_def s(1) fc)
    then show ?thesis
      using True s(2) by (auto simp: SyncLocalPeerProgress_fields committed_to_def)
  qed
qed

section \<open>Logs with the same entries\<close>

lemma GetTerm_append:
  assumes inv: "log_inv l" and es: "contiguous_from (unat (last_index l)) es" and i: "i \<le> last_index l"
  shows "GetTerm (l\<lparr>lg_entries := lg_entries l @ es\<rparr>) i out = GetTerm l i out"
proof -
  let ?l = "l\<lparr>lg_entries := lg_entries l @ es\<rparr>"
  have "abs_log ?l i = abs_log l i"
  proof (rule option_eqI)
    fix e
    have "le_index e \<noteq> i" if "e \<in> set es" for e
      using contiguous_from_bounds(1) [OF es that] i by (auto simp: idx)
    then show "abs_log ?l i = Some e \<longleftrightarrow> abs_log l i = Some e"
      using abs_log_append [OF inv es] by blast
  qed
  then show ?thesis
    unfolding GetTerm_abs [OF inv] GetTerm_abs [OF log_inv_append(1) [OF inv es]] by simp
qed

lemma GetTerm_truncated:
  assumes inv: "log_inv l" and last: "last_index l < - 1"
    and i: "lg_commit_index l < i" "i \<le> last_index l + 1" and j: "j < i"
  shows "GetTerm (log_truncated l i) j out = GetTerm l j out"
  unfolding GetTerm_abs [OF inv] GetTerm_abs [OF log_inv_truncated [OF inv last i]]
  using abs_log_truncated [OF inv last i] j by (simp add: log_truncated_def)

lemma Matches_appended:
  assumes inv: "log_inv l" and es: "contiguous_from (unat (last_index l)) es" and e: "e \<in> set es"
  shows "Matches (l\<lparr>lg_entries := lg_entries l @ es\<rparr>) (le_index e) (le_term e)"
    and "le_index e \<le> last_index (l\<lparr>lg_entries := lg_entries l @ es\<rparr>)"
    and "GetEntry (l\<lparr>lg_entries := lg_entries l @ es\<rparr>) (le_index e) out = Inr e"
proof -
  let ?l = "l\<lparr>lg_entries := lg_entries l @ es\<rparr>"
  note inv' = log_inv_append(1) [OF inv es]
  have abs: "abs_log ?l (le_index e) = Some e" using abs_log_append [OF inv es] e by blast
  show "GetEntry ?l (le_index e) out = Inr e" by (simp add: GetEntry_abs abs)
  have rng: "lg_snapshot_index ?l < le_index e" "le_index e \<le> last_index ?l"
    using abs dom_abs_log [of ?l "le_index e"] by simp_all
  then show "le_index e \<le> last_index ?l" by simp
  show "Matches ?l (le_index e) (le_term e)"
    using Matches_abs [OF inv' rng(1)] abs by blast
qed

lemma stores_matches:
  assumes st: "stores l es (OK, l')" and inv: "log_inv l" and last: "last_index l < - 1"
    and e: "e \<in> set es"
  shows "Matches l' (le_index e) (le_term e) \<and> le_index e \<le> last_index l'"
  using st
proof cases
  case present
  then show ?thesis using e by simp
next
  case (appended pre post)
  note inv' = log_inv_append(1) [OF inv appended(5)]
  consider "e \<in> set pre" | "e \<in> set post" using e appended(2) by auto
  then show ?thesis
  proof cases
    case 1
    then have "Matches l (le_index e) (le_term e)" "le_index e \<le> last_index l" using appended(4) by auto
    then show ?thesis
      using appended(1) GetTerm_append [OF inv appended(5)] log_inv_append(2) [OF inv appended(5)]
      by (simp add: Matches_iff)
  next
    case 2
    then show ?thesis using Matches_appended(1,2) [OF inv appended(5) 2] appended(1) by simp
  qed
next
  case (replaced pre post i n l1)
  have i: "lg_commit_index l < i" "i \<le> last_index l + 1"
    using replaced unat_inc [OF last] by (auto simp: idx)
  note inv1 = log_inv_truncated [OF inv last i]
  have cont: "contiguous_from (unat (last_index (log_truncated l i))) post"
    unfolding last_index_truncated [OF inv last i] using replaced by blast
  consider "e \<in> set pre" | "e \<in> set post" using e replaced(2) by auto
  then show ?thesis
  proof cases
    case 1
    then have m: "Matches l (le_index e) (le_term e)" using replaced by auto
    have "unat (le_index e) < unat i"
    proof -
      obtain k where k: "k < length pre" "e = pre ! k" using 1 by (auto simp: in_set_conv_nth)
      have cont_all: "contiguous_from n (pre @ post)" using replaced by simp
      have "unat (le_index e) = n + Suc k"
        using cont_all k unfolding contiguous_from_def by (auto simp: nth_append dest: spec [of _ k])
      moreover have "unat i = Suc (n + length pre)"
        using contiguous_hd(1) [OF contiguous_drop [OF cont_all]] replaced by simp
      ultimately show ?thesis using k by simp
    qed
    then have lt: "le_index e < i" by (simp add: word_less_nat_alt)
    have le: "le_index e \<le> last_index (log_truncated l i)"
      unfolding last_index_truncated [OF inv last i]
      using lt unat_dec [of i] by (simp add: word_le_nat_alt word_less_nat_alt)
    have "GetTerm l' (le_index e) out = GetTerm l (le_index e) out"
      using replaced GetTerm_append [OF inv1 cont le] GetTerm_truncated [OF inv last i lt] by simp
    then show ?thesis
      using m le log_inv_append(2) [OF inv1 cont] replaced by (simp add: Matches_iff)
  next
    case 2
    then show ?thesis using Matches_appended(1,2) [OF inv1 cont 2] replaced by simp
  qed
qed (use e in simp_all)

section \<open>Outcomes\<close>

lemma HandleAppendEntries_success:
  assumes c: "core_inv c" and last: "last_index (rc_log c) < - 1"
    and res: "HandleAppendEntries c r out = (Inr x, c')" "aer_success x"
  shows "\<exists>l. follows c r \<and> Matches (rc_log c) (ae_prev_log_index r) (ae_prev_log_term r) \<and>
    stores (rc_log c) (ae_entries r) (OK, l) \<and> x = success_response c r c' \<and>
    rc_log c' = l\<lparr>lg_commit_index := max (lg_commit_index l) (min (ae_leader_commit r) (last_index l))\<rparr> \<and>
    current_term c' = ae_term r"
proof -
  note init = core_invD(1) [OF c]
  have f: "follows c r" using HandleAppendEntries_rejected [OF init, of r] res by auto
  note eq = HandleAppendEntries_follows [OF init f]
  have m: "Matches (rc_log c) (ae_prev_log_index r) (ae_prev_log_term r)"
  proof (rule ccontr)
    assume no: "\<not> ?thesis"
    show False
      using res unfolding eq if_P [OF no]
      by (auto simp: ResetAppendResponse_def prod_eq_iff append_reply_fields split: sum.splits prod.splits)
  qed
  obtain st l where t: "stores (rc_log c) (ae_entries r) (st, l)" "fst (take_entries c r) = st"
    "st = OK \<longrightarrow> rc_log (snd (take_entries c r)) =
       l\<lparr>lg_commit_index := max (lg_commit_index l) (min (ae_leader_commit r) (last_index l))\<rparr> \<and>
       rc_hard_state (snd (take_entries c r)) = (rc_hard_state (follower_of c r))
         \<lparr>hs_commit_index := max (lg_commit_index l) (min (ae_leader_commit r) (last_index l))\<rparr>"
    using take_entries_result [OF c last f] by blast
  obtain c6 where c6: "take_entries c r = (st, c6)" using t(2) by (cases "take_entries c r") auto
  have ok: "st = OK"
    using res unfolding eq using m c6 by (cases "st = OK") (simp_all add: then_get.simps)
  let ?i = "if last_index (rc_log c) < last_index (rc_log c6) then last_index (rc_log c6) else kInvalidLogIndex"
  have run: "HandleAppendEntries c r out = append_reply c6 (ae_leader_id r) (success_response c r c6)
      (\<not> SameHardState (rc_hard_state c) (rc_hard_state c6)) ?i"
    unfolding eq using m c6 ok by simp
  have x: "x = success_response c r c6" "rc_log c' = rc_log c6" "rc_hard_state c' = rc_hard_state c6"
    using res(1) append_reply_fields
      [of c6 "ae_leader_id r" "success_response c r c6" "\<not> SameHardState (rc_hard_state c) (rc_hard_state c6)" ?i]
    unfolding run by simp_all
  moreover have "success_response c r c6 = success_response c r c'"
    by (simp add: success_response_def x(2))
  moreover have "current_term c' = ae_term r"
    using t(3) ok c6 x(3) f current_term_follower_of [of c r]
    by (simp add: current_term_def follows_def max_def split: if_splits)
  ultimately show ?thesis using f m t ok c6 by auto
qed

text \<open>A message is sent at once when nothing it depends on is missing.\<close>

lemma StageMessage_immediate:
  assumes "h \<longrightarrow> \<not> HasDirtyHardState c" "i \<le> lg_stable_index (rc_log c)"
  shows "m \<in> set (rc_immediate_messages (snd (StageMessage c m h i)))"
  using assms by (auto simp: StageMessage_def Let_def not_le [symmetric])

section \<open>Properties\<close>

text \<open>
  C8. What a successful reply to \<open>AppendEntries\<close> means: the previous entry matched, every entry of the
  request is in the log with its term, the node follows the sender in the request's term, and
  its commit index is the larger of its own and the smaller of the leader's and its last index.
  The match index it reports is its last index, whatever the request contained.
\<close>

theorem append_accepted:
  assumes "core_inv c" and "last_index (rc_log c) < - 1"
    and "HandleAppendEntries c r out = (Inr x, c')" and "aer_success x"
  shows "Matches (rc_log c) (ae_prev_log_index r) (ae_prev_log_term r) \<and>
    (\<forall>e \<in> set (ae_entries r). Matches (rc_log c') (le_index e) (le_term e)) \<and>
    current_term c \<le> ae_term r \<and> current_term c' = ae_term r \<and> aer_term x = ae_term r \<and>
    lg_commit_index (rc_log c') =
      max (lg_commit_index (rc_log c)) (min (ae_leader_commit r) (last_index (rc_log c'))) \<and>
    aer_match_index x = last_index (rc_log c')"
proof -
  obtain l where l: "follows c r" "Matches (rc_log c) (ae_prev_log_index r) (ae_prev_log_term r)"
    "stores (rc_log c) (ae_entries r) (OK, l)" "x = success_response c r c'"
    "rc_log c' = l\<lparr>lg_commit_index := max (lg_commit_index l) (min (ae_leader_commit r) (last_index l))\<rparr>"
    "current_term c' = ae_term r"
    using HandleAppendEntries_success [OF assms] by blast
  note inv = core_invD(3) [OF assms(1)]
  have "Matches (rc_log c') (le_index e) (le_term e)" if "e \<in> set (ae_entries r)" for e
    using stores_matches [OF l(3) inv assms(2) that] l(5) by (simp add: Matches_def)
  moreover have "lg_commit_index l = lg_commit_index (rc_log c)"
    using stores_log [OF l(3) inv assms(2)] by simp
  moreover have "aer_term x = ae_term r" "aer_match_index x = last_index (rc_log c')"
    using l(1,4) by (simp_all add: success_response_def follows_def max_absorb2)
  ultimately show ?thesis using l by (simp add: follows_def)
qed

text \<open>Node 2 receives the entries of leader 1 in term 1.\<close>

definition example_append :: "LogIndex \<Rightarrow> LogEntry list \<Rightarrow> AppendEntriesRequest" where
  "example_append prev es =
     \<lparr>ae_term = 1, ae_leader_id = 1, ae_prev_log_index = prev, ae_prev_log_term = (if prev = 0 then 0 else 1),
      ae_entries = es, ae_leader_commit = 1\<rparr>"

definition example_command :: "LogIndex \<Rightarrow> Term \<Rightarrow> LogEntry" where
  "example_command i t = \<lparr>le_index = i, le_term = t, le_type = COMMAND, le_payload = [7]\<rparr>"

lemma example_last: "last_index (rc_log (example_node 2)) < - 1"
  using example_range(2) by (simp add: in_range_def)

theorem append_accepted_witness:
  "lg_commit_index (rc_log (snd (HandleAppendEntries (example_node 2)
       (example_append 0 [example_command 1 1, example_command 2 1]) out))) = 1 \<and>
   Matches (rc_log (snd (HandleAppendEntries (example_node 2)
       (example_append 0 [example_command 1 1, example_command 2 1]) out))) 2 1"
proof -
  let ?es = "[example_command 1 1, example_command 2 1]"
  let ?h = "HandleAppendEntries (example_node 2) (example_append 0 ?es) out"
  define x where "x = \<lparr>aer_term = 1, aer_success = True, aer_match_index = 2, aer_conflict_index = 0,
    aer_conflict_term = 0\<rparr>"
  have h: "fst ?h = Inr x" "lg_commit_index (rc_log (snd ?h)) = 1" unfolding x_def by code_simp+
  have "?h = (Inr x, snd ?h)" using h(1) by (simp add: prod_eq_iff)
  from append_accepted [OF example_inv(2) example_last this] h(2) show ?thesis
    by (simp add: x_def example_append_def example_command_def)
qed

text \<open>
  A request that is not accepted, because it is invalid or stale, because the node leads, because
  the previous entry does not match or because the entries do not fit, leaves the log as it is.
\<close>

theorem append_rejected:
  assumes "core_inv c" and "last_index (rc_log c) < - 1"
    and "HandleAppendEntries c r out = (res, c')"
    and "\<forall>x. res = Inr x \<longrightarrow> \<not> aer_success x"
  shows "rc_log c' = rc_log c"
proof (cases "follows c r")
  case False
  then show ?thesis using HandleAppendEntries_rejected [OF core_invD(1) [OF assms(1)]] assms(3) by (metis snd_conv)
next
  case f: True
  note eq = HandleAppendEntries_follows [OF core_invD(1) [OF assms(1)] f]
  show ?thesis
  proof (cases "Matches (rc_log c) (ae_prev_log_index r) (ae_prev_log_term r)")
    case False
    have "rc_log (snd (HandleAppendEntries c r out)) = rc_log c"
      unfolding eq using False by (auto simp: append_reply_fields split: sum.splits prod.splits)
    then show ?thesis using assms(3) by simp
  next
    case m: True
    obtain st l where t: "fst (take_entries c r) = st"
      "st \<noteq> OK \<longrightarrow> rc_log (snd (take_entries c r)) = rc_log c"
      using take_entries_result [OF assms(1,2) f] by blast
    obtain c6 where c6: "take_entries c r = (st, c6)" using t(1) by (cases "take_entries c r") auto
    have "st \<noteq> OK"
    proof
      assume "st = OK"
      then have "\<exists>x. fst (HandleAppendEntries c r out) = Inr x \<and> aer_success x"
        unfolding eq using m c6 by (simp add: append_reply_fields success_response_def)
      then show False using assms(3,4) by auto
    qed
    then show ?thesis using assms(3) t c6 unfolding eq using m by auto
  qed
qed

theorem append_rejected_witness:
  "rc_log (snd (HandleAppendEntries (example_node 2) (example_append 3 [example_command 4 1]) out)) =
     rc_log (example_node 2)"
proof -
  let ?h = "HandleAppendEntries (example_node 2) (example_append 3 [example_command 4 1]) out"
  define x where "x = \<lparr>aer_term = 1, aer_success = False, aer_match_index = 0, aer_conflict_index = 1,
    aer_conflict_term = 0\<rparr>"
  have "fst ?h = Inr x" unfolding x_def by code_simp
  then have "?h = (Inr x, snd ?h)" by (simp add: prod_eq_iff)
  from append_rejected [OF example_inv(2) example_last this] show ?thesis by (simp add: x_def)
qed

end
