(* ===== verification/Raft_Core_Gate.thy ===== *)
theory Raft_Core_Gate
  imports Raft_Core_Append
begin

text \<open>
  The persistence gate: which replies wait until the state they depend on is on disk, when
  \<open>ConfirmPersistence\<close> releases them, and the replies that pass the gate too early.
\<close>

section \<open>Staging and releasing\<close>

lemma StageMessage_gate:
  "m \<in> set (rc_immediate_messages (snd (StageMessage c m h i))) \<longleftrightarrow>
     (h \<longrightarrow> \<not> HasDirtyHardState c) \<and> i \<le> lg_stable_index (rc_log c)"
  by (auto simp: StageMessage_def Let_def not_le [symmetric])

lemma stage_then_get: "then_get (StageMessage c m h i) f = f (snd (StageMessage c m h i))"
  using StageMessage_OK [of c m h i] by (cases "StageMessage c m h i") simp

lemma HasDirtyHardState_StageMessage [simp]:
  "HasDirtyHardState (snd (StageMessage c m h i)) = HasDirtyHardState c"
  by (simp add: HasDirtyHardState_def StageMessage_fields)

text \<open>The confirmations that are accepted.\<close>

definition confirms :: "RaftCore \<Rightarrow> PersistenceConfirmation \<Rightarrow> bool" where
  "confirms c p \<longleftrightarrow>
     pc_status p = OK \<and> lg_stable_index (rc_log c) \<le> pc_stable_index p \<and>
     pc_stable_index p \<le> last_index (rc_log c) \<and>
     (pc_max_stable_index p = kInvalidLogIndex \<or> pc_stable_index p \<le> pc_max_stable_index p)"

text \<open>The node with the confirmed state recorded as persisted.\<close>

definition persisted_to :: "RaftCore \<Rightarrow> PersistenceConfirmation \<Rightarrow> RaftCore" where
  "persisted_to c p =
     c\<lparr>rc_persisted_hard_state :=
         (if pc_hard_state_persisted p then rc_hard_state c else rc_persisted_hard_state c),
       rc_log := (rc_log c)\<lparr>lg_stable_index := pc_stable_index p\<rparr>\<rparr>"

lemma persisted_to_fields [simp]:
  "rc_hard_state (persisted_to c p) = rc_hard_state c"
  "rc_immediate_messages (persisted_to c p) = rc_immediate_messages c"
  "rc_persisted_messages (persisted_to c p) = rc_persisted_messages c"
  "lg_stable_index (rc_log (persisted_to c p)) = pc_stable_index p"
  by (simp_all add: persisted_to_def)

lemma HasDirtyHardState_persisted_to:
  "HasDirtyHardState (persisted_to c p) \<longleftrightarrow> \<not> pc_hard_state_persisted p \<and> HasDirtyHardState c"
  by (simp add: persisted_to_def HasDirtyHardState_def SameHardState_def)

lemma ConfirmPersistence_accepted:
  assumes c: "core_inv c" and p: "confirms c p"
  shows "ConfirmPersistence c p = ReclassifyBlockedMessages (persisted_to c p)"
proof -
  let ?i = "pc_stable_index p"
  define c1 where "c1 = (if pc_hard_state_persisted p
    then c\<lparr>rc_persisted_hard_state := rc_hard_state c\<rparr> else c)"
  have log: "rc_log c1 = rc_log c" by (simp add: c1_def)
  have eq: "c1\<lparr>rc_log := (rc_log c)\<lparr>lg_stable_index := ?i\<rparr>\<rparr> = persisted_to c p"
    by (simp add: c1_def persisted_to_def)
  have "(if lg_stable_index (rc_log c1) < ?i
      then case AdvanceStableTo (rc_log c1) ?i of (status, l) \<Rightarrow> (status, c1\<lparr>rc_log := l\<rparr>)
      else (OK, c1)) = (OK, persisted_to c p)"
  proof (cases "lg_stable_index (rc_log c) < ?i")
    case True
    then show ?thesis
      using p AdvanceStableTo_eq [OF core_invD(3) [OF c], of ?i] by (simp add: log eq confirms_def)
  next
    case False
    then have "lg_stable_index (rc_log c) = ?i" using p by (simp add: confirms_def)
    then have "(rc_log c)\<lparr>lg_stable_index := ?i\<rparr> = rc_log c" by simp
    then have "c1 = persisted_to c p" unfolding eq [symmetric] by (simp add: log [symmetric])
    then show ?thesis using False by (simp add: log)
  qed
  then show ?thesis
    using p core_invD(1) [OF c] by (auto simp: ConfirmPersistence_def confirms_def Let_def c1_def [symmetric])
qed

lemma ConfirmPersistence_refused:
  assumes "\<not> confirms c p"
  shows "ConfirmPersistence c p = (if rc_initialized c \<and> pc_status p \<noteq> OK then pc_status p else InvalidArgument, c)"
  using assms by (auto simp: ConfirmPersistence_def confirms_def Let_def)

lemma ConfirmPersistence_OK_iff:
  assumes "core_inv c"
  shows "ConfirmPersistence c p = (OK, c') \<longleftrightarrow>
    confirms c p \<and> c' = snd (ReclassifyBlockedMessages (persisted_to c p))"
  using assms ConfirmPersistence_accepted [OF assms] ConfirmPersistence_refused [of c p]
  by (cases "confirms c p") (auto simp: ReclassifyBlockedMessages_def)

text \<open>What a released message had to wait for.\<close>

lemma released:
  assumes "m \<notin> set (rc_immediate_messages c)"
  shows "m \<in> set (rc_immediate_messages (snd (ReclassifyBlockedMessages c))) \<longleftrightarrow>
    (\<exists>p \<in> set (rc_persisted_messages c). pm_message p = m \<and> pending_ready c p)"
  using assms by (auto simp: ReclassifyBlockedMessages_def)

lemma StageMessage_pending:
  assumes "\<not> ((h \<longrightarrow> \<not> HasDirtyHardState c) \<and> i \<le> lg_stable_index (rc_log c))"
    and "p \<in> set (rc_persisted_messages (snd (StageMessage c m h i)))" "pm_message p = m"
  shows "p = \<lparr>pm_message = m, pm_require_hard_state = (h \<and> HasDirtyHardState c),
    pm_required_stable_index = (if lg_stable_index (rc_log c) < i then i else kInvalidLogIndex)\<rparr>"
  using assms by (auto simp: StageMessage_def Let_def not_le split: if_splits)

lemma StageMessage_pending_in:
  assumes "\<not> ((h \<longrightarrow> \<not> HasDirtyHardState c) \<and> i \<le> lg_stable_index (rc_log c))"
  shows "\<lparr>pm_message = m, pm_require_hard_state = (h \<and> HasDirtyHardState c),
      pm_required_stable_index = (if lg_stable_index (rc_log c) < i then i else kInvalidLogIndex)\<rparr>
    \<in> set (rc_persisted_messages (snd (StageMessage c m h i)))"
  using assms by (auto simp: StageMessage_def Let_def not_le)

lemma bex_only:
  assumes "\<And>q. q \<in> S \<and> f q = m \<longleftrightarrow> q = a"
  shows "(\<exists>q \<in> S. f q = m \<and> P q) \<longleftrightarrow> P a"
  using assms by metis

text \<open>A staged message and the confirmation that follows.\<close>

lemma staged_then_confirmed:
  assumes d: "core_inv d" "d = snd (StageMessage c m h i)"
    and wait: "\<not> ((h \<longrightarrow> \<not> HasDirtyHardState c) \<and> i \<le> lg_stable_index (rc_log c))"
    and ok: "ConfirmPersistence d p = (OK, d')"
  shows "m \<in> set (rc_immediate_messages d') \<longleftrightarrow>
    (h \<and> HasDirtyHardState c \<longrightarrow> pc_hard_state_persisted p) \<and> i \<le> pc_stable_index p"
proof -
  let ?pending = "\<lparr>pm_message = m, pm_require_hard_state = (h \<and> HasDirtyHardState c),
      pm_required_stable_index = (if lg_stable_index (rc_log c) < i then i else kInvalidLogIndex)\<rparr>"
  have p: "confirms d p" "d' = snd (ReclassifyBlockedMessages (persisted_to d p))"
    using ok ConfirmPersistence_OK_iff [OF d(1)] by auto
  have only: "q \<in> set (rc_persisted_messages d) \<and> pm_message q = m \<longleftrightarrow> q = ?pending" for q
    unfolding d(2) using StageMessage_pending [OF wait, of q m] StageMessage_pending_in [OF wait, of m]
    by (metis PendingMessage.select_convs(1))
  have "m \<notin> set (rc_immediate_messages (persisted_to d p))" using wait StageMessage_gate d(2) by simp
  then have "m \<in> set (rc_immediate_messages d') \<longleftrightarrow>
      (\<exists>q \<in> set (rc_persisted_messages d). pm_message q = m \<and> pending_ready (persisted_to d p) q)"
    using released p(2) by simp
  also have "\<dots> \<longleftrightarrow> pending_ready (persisted_to d p) ?pending"
    by (rule bex_only) (rule only)
  also have "\<dots> \<longleftrightarrow> (h \<and> HasDirtyHardState c \<longrightarrow> pc_hard_state_persisted p) \<and> i \<le> pc_stable_index p"
    using p(1) d(2)
    by (auto simp: pending_ready_def HasDirtyHardState_persisted_to confirms_def StageMessage_fields)
  finally show ?thesis .
qed

section \<open>The reply to a vote request\<close>

definition vote_message :: "RaftCore \<Rightarrow> RequestVoteRequest \<Rightarrow> RequestVoteResponse \<Rightarrow> RaftMessage" where
  "vote_message c r x =
     \<lparr>msg_type = REQUEST_VOTE_RESPONSE, msg_source_node_id = rc_node_id c,
      msg_target_node_id = rv_candidate_id r, msg_payload = RequestVoteResponseMsg x\<rparr>"

lemma DecideVote_fields:
  assumes "rc_initialized c"
  shows "rc_node_id (snd (DecideVote c r)) = rc_node_id c" "rc_log (snd (DecideVote c r)) = rc_log c"
    "rc_persisted_hard_state (snd (DecideVote c r)) = rc_persisted_hard_state c"
  using assms
  by (simp_all add: DecideVote_def Let_def BecomeFollowerForRemote_eq UpdateCurrentTerm_eq ResetElectionTicks_def)

lemma HandleRequestVote_staged:
  assumes init: "rc_initialized c" and res: "HandleRequestVote c r out = (Inr x, c')"
  shows "\<exists>d. DecideVote c r = (Inr x, d) \<and> c' = snd (StageMessage d (vote_message c r x)
    (\<not> SameHardState (rc_hard_state c) (rc_hard_state c')) kInvalidLogIndex)"
proof -
  obtain a d where d: "DecideVote c r = (a, d)" by force
  have "rc_node_id d = rc_node_id c" using DecideVote_fields(1) [OF init, of r] d by simp
  then show ?thesis
    using res init d
    by (auto simp: HandleRequestVote_def require_core_def vote_message_def StageMessage_fields stage_then_get
        simp del: then_get.simps split: if_splits sum.splits)
qed

lemma granted_again:
  assumes c: "core_inv c" and d: "DecideVote c r = (Inr x, d)" and g: "rvr_vote_granted x"
    and c': "rc_role c' = rc_role d" "rc_hard_state c' = rc_hard_state d" "rc_log c' = rc_log d"
  shows "\<exists>e. DecideVote c' r = (Inr x, e) \<and> rc_hard_state e = rc_hard_state c' \<and>
    rc_persisted_hard_state e = rc_persisted_hard_state c' \<and> rc_log e = rc_log c'"
proof -
  have gr: "grants_vote c r" "rvr_term x = current_term d" "voted_for d = rv_candidate_id r" "rc_role d \<noteq> LEARNER"
    "current_term d = max (current_term c) (rv_term r)"
    using DecideVote_cases [OF c, of r] d g by (auto simp: grants_vote_def)
  have "rvr_reject_reason x = Reject_NONE"
    using d g by (auto simp: DecideVote_def Let_def ResetVoteResponse_def prod_eq_iff
        BecomeFollowerForRemote_eq [OF core_invD(1) [OF c]] split: if_splits)
  then have x: "x = \<lparr>rvr_term = current_term d, rvr_vote_granted = True, rvr_reject_reason = Reject_NONE\<rparr>"
    using g gr by simp
  have same_term: "current_term d = rv_term r" using gr(1,5) by (simp add: grants_vote_def max_absorb2)
  have "IsCandidateLogUpToDate c' (rv_last_log_index r) (rv_last_log_term r)"
    using gr(1) IsCandidateLogUpToDate_cong [of c' c] DecideVote_fields(2) [OF core_invD(1) [OF c], of r] d c'(3)
    by (simp add: grants_vote_def)
  moreover have "current_term c' = rv_term r" "voted_for c' = rv_candidate_id r"
    using c'(2) same_term gr(3) by (simp_all add: current_term_def voted_for_def)
  ultimately show ?thesis
    using c'(1) gr(4) same_term x
    by (simp add: DecideVote_def Let_def ResetVoteResponse_def ResetElectionTicks_def voted_for_def)
qed

section \<open>The reply to new entries\<close>

definition ack_message :: "RaftCore \<Rightarrow> AppendEntriesRequest \<Rightarrow> AppendEntriesResponse \<Rightarrow> RaftMessage" where
  "ack_message c r x =
     \<lparr>msg_type = APPEND_ENTRIES_RESPONSE, msg_source_node_id = rc_node_id c,
      msg_target_node_id = ae_leader_id r, msg_payload = AppendEntriesResponseMsg x\<rparr>"

lemma HandleAppendEntries_staged:
  assumes c: "core_inv c" and last: "last_index (rc_log c) < - 1"
    and res: "HandleAppendEntries c r out = (Inr x, c')" "aer_success x"
  shows "\<exists>d. c' = snd (StageMessage d (ack_message c' r x)
    (\<not> SameHardState (rc_hard_state c) (rc_hard_state c'))
    (if last_index (rc_log c) < last_index (rc_log c') then last_index (rc_log c') else kInvalidLogIndex))"
proof -
  obtain l where f: "follows c r" "Matches (rc_log c) (ae_prev_log_index r) (ae_prev_log_term r)"
    using HandleAppendEntries_success [OF assms] by blast
  note eq = HandleAppendEntries_follows [OF core_invD(1) [OF c] f(1)]
  obtain st d where d: "take_entries c r = (st, d)" by force
  let ?h = "\<not> SameHardState (rc_hard_state c) (rc_hard_state d)"
  let ?i = "if last_index (rc_log c) < last_index (rc_log d) then last_index (rc_log d) else kInvalidLogIndex"
  have run: "HandleAppendEntries c r out = append_reply d (ae_leader_id r) (success_response c r d) ?h ?i"
    using res f(2) d unfolding eq by (cases "st = OK") simp_all
  then have "(Inr x, c') = (Inr (success_response c r d),
      snd (StageMessage d (ack_message d r (success_response c r d)) ?h ?i))"
    using res(1) by (simp add: append_reply_def ack_message_def stage_then_get del: then_get.simps)
  then show ?thesis by (auto simp: StageMessage_fields ack_message_def)
qed

section \<open>Properties\<close>

text \<open>
  \<open>ConfirmPersistence\<close> on every branch: an accepted confirmation records exactly the confirmed state
  and moves exactly the messages whose dependencies are now met, in order; no message is lost or
  sent twice. A refused one changes nothing.
\<close>

theorem ConfirmPersistence_exact:
  assumes "core_inv c"
  shows "if confirms c p
    then \<exists>c'. ConfirmPersistence c p = (OK, c') \<and>
      rc_log c' = (rc_log c)\<lparr>lg_stable_index := pc_stable_index p\<rparr> \<and>
      rc_persisted_hard_state c' =
        (if pc_hard_state_persisted p then rc_hard_state c else rc_persisted_hard_state c) \<and>
      rc_hard_state c' = rc_hard_state c \<and>
      rc_immediate_messages c' = rc_immediate_messages c @
        map pm_message (filter (pending_ready c') (rc_persisted_messages c)) \<and>
      rc_persisted_messages c' = filter (\<lambda>m. \<not> pending_ready c' m) (rc_persisted_messages c) \<and>
      mset (queued c') = mset (queued c)
    else fst (ConfirmPersistence c p) \<noteq> OK \<and> snd (ConfirmPersistence c p) = c"
proof (cases "confirms c p")
  case True
  let ?d = "persisted_to c p"
  let ?c = "?d\<lparr>rc_immediate_messages := rc_immediate_messages ?d @
      map pm_message (filter (pending_ready ?d) (rc_persisted_messages ?d)),
    rc_persisted_messages := filter (\<lambda>m. \<not> pending_ready ?d m) (rc_persisted_messages ?d)\<rparr>"
  have run: "ConfirmPersistence c p = (OK, ?c)"
    by (simp add: ConfirmPersistence_accepted [OF assms True] ReclassifyBlockedMessages_def)
  have ready: "pending_ready ?c = pending_ready ?d"
    by (simp add: fun_eq_iff pending_ready_def HasDirtyHardState_def)
  have "mset (queued ?c) = mset (queued c)"
    by (simp add: queued_def flip: mset_map) (metis (no_types) mset_filter image_mset_union multiset_partition mset_map)
  then show ?thesis using True run ready by (simp add: persisted_to_def)
next
  case False
  then show ?thesis by (simp add: ConfirmPersistence_refused)
qed

text \<open>What storage reports after a write.\<close>

definition example_confirmation :: "bool \<Rightarrow> LogIndex \<Rightarrow> PersistenceConfirmation" where
  "example_confirmation h i =
     \<lparr>pc_status = OK, pc_hard_state_persisted = h, pc_stable_index = i, pc_max_stable_index = i\<rparr>"

text \<open>Node 1 after its vote for node 2, and the granted reply.\<close>

definition example_voter :: RaftCore where
  "example_voter = snd (HandleRequestVote (example_node 1) example_vote_request out)"

definition example_vote :: RequestVoteResponse where
  "example_vote = \<lparr>rvr_term = 1, rvr_vote_granted = True, rvr_reject_reason = Reject_NONE\<rparr>"

lemma example_voter_run: "HandleRequestVote (example_node 1) example_vote_request out = (Inr example_vote, example_voter)"
proof -
  have "fst (HandleRequestVote (example_node 1) example_vote_request out) = Inr example_vote" by code_simp
  then show ?thesis by (simp add: prod_eq_iff example_voter_def)
qed

lemma example_voter_inv: "core_inv example_voter"
  unfolding example_voter_def by (rule core_le_inv [OF HandleRequestVote_le [OF example_inv(1)]])

theorem ConfirmPersistence_exact_witness:
  "\<exists>c'. ConfirmPersistence example_voter (example_confirmation True 0) = (OK, c') \<and>
     rc_persisted_hard_state c' = rc_hard_state example_voter \<and>
     mset (queued c') = mset (queued example_voter)"
proof -
  have "lg_stable_index (rc_log example_voter) = 0" by code_simp
  then have "confirms example_voter (example_confirmation True 0)"
    by (simp add: confirms_def example_confirmation_def)
  then show ?thesis
    using ConfirmPersistence_exact [OF example_voter_inv, of "example_confirmation True 0"]
    by (auto simp: example_confirmation_def)
qed

text \<open>
  C18. A granted vote that changed the hard state is not sent while that state is not on disk, and the
  next confirmation releases it exactly when it confirms the hard state.
\<close>

theorem vote_waits_for_disk:
  assumes "core_inv c" and "HandleRequestVote c r out = (Inr x, c')"
    and "\<not> SameHardState (rc_hard_state c) (rc_hard_state c')" and "HasDirtyHardState c'"
    and "ConfirmPersistence c' p = (OK, c'')"
  shows "vote_message c r x \<notin> set (rc_immediate_messages c') \<and>
    (vote_message c r x \<in> set (rc_immediate_messages c'') \<longleftrightarrow> pc_hard_state_persisted p)"
proof -
  obtain d where d: "c' = snd (StageMessage d (vote_message c r x) True kInvalidLogIndex)"
    using HandleRequestVote_staged [OF core_invD(1) [OF assms(1)] assms(2)] assms(3) by auto
  have wait: "\<not> ((True \<longrightarrow> \<not> HasDirtyHardState d) \<and> kInvalidLogIndex \<le> lg_stable_index (rc_log d))"
    using assms(4) d by simp
  have "core_inv c'" using core_le_inv [OF HandleRequestVote_le [OF assms(1)], of r out] assms(2) by simp
  from staged_then_confirmed [OF this d wait assms(5)] show ?thesis
    using wait d StageMessage_gate by simp
qed

theorem vote_waits_for_disk_witness:
  "vote_message (example_node 1) example_vote_request example_vote
     \<notin> set (rc_immediate_messages example_voter) \<and>
   vote_message (example_node 1) example_vote_request example_vote
     \<in> set (rc_immediate_messages (snd (ConfirmPersistence example_voter (example_confirmation True 0))))"
proof -
  let ?p = "example_confirmation True 0"
  have dirty: "\<not> SameHardState (rc_hard_state (example_node 1)) (rc_hard_state example_voter)"
    "HasDirtyHardState example_voter" by code_simp+
  have "fst (ConfirmPersistence example_voter ?p) = OK" by code_simp
  then have "ConfirmPersistence example_voter ?p = (OK, snd (ConfirmPersistence example_voter ?p))"
    by (simp add: prod_eq_iff)
  from vote_waits_for_disk [OF example_inv(1) example_voter_run dirty this] show ?thesis
    by (simp add: example_confirmation_def)
qed

text \<open>
  When the acknowledgement of an accepted request is sent at once: exactly when the request
  changed nothing in the hard state (or it is on disk already) and did not make the log longer
  (or the new end is stable). Otherwise the next confirmation releases it exactly when it covers
  what is missing.
\<close>

theorem append_ack_gate:
  assumes "core_inv c" and "last_index (rc_log c) < - 1"
    and "HandleAppendEntries c r out = (Inr x, c')" and "aer_success x"
  shows "(ack_message c' r x \<in> set (rc_immediate_messages c') \<longleftrightarrow>
      (SameHardState (rc_hard_state c) (rc_hard_state c') \<or> \<not> HasDirtyHardState c') \<and>
      (last_index (rc_log c') \<le> last_index (rc_log c) \<or>
       last_index (rc_log c') \<le> lg_stable_index (rc_log c'))) \<and>
    (ack_message c' r x \<notin> set (rc_immediate_messages c') \<longrightarrow>
      (\<forall>p c''. ConfirmPersistence c' p = (OK, c'') \<longrightarrow>
        (ack_message c' r x \<in> set (rc_immediate_messages c'') \<longleftrightarrow>
          (SameHardState (rc_hard_state c) (rc_hard_state c') \<or> \<not> HasDirtyHardState c' \<or>
           pc_hard_state_persisted p) \<and>
          (last_index (rc_log c') \<le> last_index (rc_log c) \<or>
           last_index (rc_log c') \<le> pc_stable_index p))))"
proof -
  let ?m = "ack_message c' r x" and ?h = "\<not> SameHardState (rc_hard_state c) (rc_hard_state c')"
    and ?i = "if last_index (rc_log c) < last_index (rc_log c') then last_index (rc_log c') else kInvalidLogIndex"
  obtain d where d: "c' = snd (StageMessage d ?m ?h ?i)"
    using HandleAppendEntries_staged [OF assms] by blast
  then have same: "rc_log d = rc_log c'" "HasDirtyHardState d = HasDirtyHardState c'"
    by (metis StageMessage_fields(1), metis HasDirtyHardState_StageMessage)
  have gate: "?m \<in> set (rc_immediate_messages c') \<longleftrightarrow>
      (?h \<longrightarrow> \<not> HasDirtyHardState c') \<and> ?i \<le> lg_stable_index (rc_log c')"
    using StageMessage_gate [of ?m d ?h ?i] same unfolding d [symmetric] by simp
  have c': "core_inv c'"
    using core_le_inv [OF HandleAppendEntries_le [OF assms(1,2)], of r out] assms(3) by simp
  have release: "?m \<in> set (rc_immediate_messages c'') \<longleftrightarrow>
      (?h \<and> HasDirtyHardState c' \<longrightarrow> pc_hard_state_persisted p) \<and> ?i \<le> pc_stable_index p"
    if "?m \<notin> set (rc_immediate_messages c')" "ConfirmPersistence c' p = (OK, c'')" for p c''
    using staged_then_confirmed [OF c' d _ that(2)] that(1) gate same by simp
  have upto: "?i \<le> j \<longleftrightarrow> last_index (rc_log c') \<le> last_index (rc_log c) \<or> last_index (rc_log c') \<le> j" for j
    by (simp add: not_le [symmetric])
  show ?thesis
    using gate release unfolding upto by blast
qed

theorem append_ack_gate_witness:
  "ack_message (snd (HandleAppendEntries (example_node 2) (example_append 0 [example_command 1 1]) out))
     (example_append 0 [example_command 1 1])
     \<lparr>aer_term = 1, aer_success = True, aer_match_index = 1, aer_conflict_index = 0, aer_conflict_term = 0\<rparr>
   \<notin> set (rc_immediate_messages
       (snd (HandleAppendEntries (example_node 2) (example_append 0 [example_command 1 1]) out)))"
proof -
  let ?h = "HandleAppendEntries (example_node 2) (example_append 0 [example_command 1 1]) out"
  define x where "x = \<lparr>aer_term = 1, aer_success = True, aer_match_index = 1, aer_conflict_index = 0,
    aer_conflict_term = 0\<rparr>"
  have h: "fst ?h = Inr x" unfolding x_def by code_simp
  have facts: "\<not> (last_index (rc_log (snd ?h)) \<le> last_index (rc_log (example_node 2)) \<or>
    last_index (rc_log (snd ?h)) \<le> lg_stable_index (rc_log (snd ?h)))" by code_simp
  have "?h = (Inr x, snd ?h)" using h by (simp add: prod_eq_iff)
  from append_ack_gate [OF example_inv(2) example_last this] facts show ?thesis
    unfolding x_def by simp
qed

text \<open>
  A vote request that arrives twice is answered at once the second time, with the vote granted,
  although nothing was persisted in between: the first, waiting reply is replaced by one that does
  not wait, since the second request no longer changes the hard state.
\<close>

theorem repeated_vote_not_gated:
  assumes "core_inv c" and "HandleRequestVote c r out = (Inr x, c')" and "rvr_vote_granted x"
  shows "\<exists>c''. HandleRequestVote c' r out = (Inr x, c'') \<and>
    vote_message c r x \<in> set (rc_immediate_messages c'') \<and>
    HasDirtyHardState c'' = HasDirtyHardState c'"
proof -
  note init = core_invD(1) [OF assms(1)]
  obtain d where d: "DecideVote c r = (Inr x, d)" "c' = snd (StageMessage d (vote_message c r x)
    (\<not> SameHardState (rc_hard_state c) (rc_hard_state c')) kInvalidLogIndex)"
    using HandleRequestVote_staged [OF init assms(2)] by blast
  have c': "core_inv c'" using core_le_inv [OF HandleRequestVote_le [OF assms(1)], of r out] assms(2) by simp
  note init' = core_invD(1) [OF c']
  have fields: "rc_role c' = rc_role d" "rc_hard_state c' = rc_hard_state d" "rc_log c' = rc_log d"
    "rc_node_id c' = rc_node_id c"
    using DecideVote_fields(1) [OF init, of r] d(1)
    by (subst d(2), simp add: StageMessage_fields)+
  obtain e where e: "DecideVote c' r = (Inr x, e)" "rc_hard_state e = rc_hard_state c'"
    "rc_persisted_hard_state e = rc_persisted_hard_state c'"
    using granted_again [OF assms(1) d(1) assms(3) fields(1-3)] by blast
  have node: "rc_node_id e = rc_node_id c" using DecideVote_fields(1) [OF init', of r] e(1) fields(4) by simp
  let ?e = "snd (StageMessage e (vote_message c r x) False kInvalidLogIndex)"
  have valid: "ok (ValidateRequestVoteRequest c r)"
    using assms(2) init by (auto simp: HandleRequestVote_def require_core_def split: if_splits)
  have "HandleRequestVote c' r out = (Inr x, ?e)"
    using valid init init' e node
    by (simp add: HandleRequestVote_def require_core_def ValidateRequestVoteRequest_def vote_message_def
        SameHardState_def stage_then_get del: then_get.simps split: if_splits)
  moreover have "vote_message c r x \<in> set (rc_immediate_messages ?e)" by (simp add: StageMessage_gate)
  moreover have "HasDirtyHardState ?e = HasDirtyHardState c'" by (simp add: HasDirtyHardState_def StageMessage_fields e)
  ultimately show ?thesis by blast
qed

theorem repeated_vote_not_gated_witness:
  "vote_message (example_node 1) example_vote_request example_vote
     \<in> set (rc_immediate_messages (snd (HandleRequestVote example_voter example_vote_request out))) \<and>
   HasDirtyHardState (snd (HandleRequestVote example_voter example_vote_request out))"
proof -
  have "HasDirtyHardState example_voter" by code_simp
  then show ?thesis
    using repeated_vote_not_gated [OF example_inv(1) example_voter_run] by (auto simp: example_vote_def)
qed

end
