(* ===== verification/Raft_Core_Scenarios.thy ===== *)
theory Raft_Core_Scenarios
  imports Raft_Core_Gate
begin

text \<open>
  Executions of several nodes, message by message, in which the code does not keep a promise of
  Raft: each is a sequence of calls the operations of \<open>RaftCore\<close> accept.
\<close>

section \<open>Messages between the nodes\<close>

text \<open>The value an operation that succeeds hands out: a built request or the reply.\<close>

definition sent :: "('e + 'a) \<times> RaftCore \<Rightarrow> 'a" where
  "sent result = projr (fst result)"

definition vote_request :: "RaftCore \<Rightarrow> RequestVoteRequest" where
  "vote_request c =
     \<lparr>rv_term = current_term c, rv_candidate_id = rc_node_id c, rv_last_log_index = last_index (rc_log c),
      rv_last_log_term = projr (GetLastLogTerm c out)\<rparr>"

section \<open>A leader that meets a newer one\<close>

text \<open>Node 1 leads term 1 with the vote of node 2; node 2 then wins term 2 with the vote of node 3.\<close>

definition leader1 :: RaftCore where
  "leader1 = snd (BecomeLeader (snd (StartElection (example_node 1))))"

definition voter2 :: RaftCore where
  "voter2 = snd (HandleRequestVote (example_node 2) (vote_request (snd (StartElection (example_node 1)))) out)"

definition leader2 :: RaftCore where
  "leader2 = snd (BecomeLeader (snd (StartElection voter2)))"

definition heartbeat2 :: AppendEntriesRequest where
  "heartbeat2 = projr (BuildHeartbeat leader2 out)"


section \<open>A reply that claims too much\<close>













section \<open>Properties\<close>


text \<open>
  The rule behind it: a leader that receives a valid request of a higher term from another node
  adopts the term, stays leader, leaves its log alone, and answers with its old term.
\<close>

theorem stale_leader_keeps_role:
  assumes "rc_initialized c" and "rc_role c = LEADER" and "ok (ValidateAppendEntriesRequest c r)"
    and "current_term c < ae_term r" and "ae_leader_id r \<noteq> rc_node_id c"
  shows "\<exists>c'. HandleAppendEntries c r out = (Inr (ResetAppendResponse (current_term c)), c') \<and>
    rc_role c' = LEADER \<and> current_term c' = ae_term r \<and> voted_for c' = kInvalidNodeId \<and>
    rc_log c' = rc_log c"
proof -
  let ?c = "c\<lparr>rc_hard_state := (rc_hard_state c)\<lparr>hs_current_term := ae_term r, hs_voted_for := kInvalidNodeId\<rparr>\<rparr>"
  let ?h = "\<not> SameHardState (rc_hard_state c) (rc_hard_state ?c)"
  let ?m = "\<lparr>msg_type = APPEND_ENTRIES_RESPONSE, msg_source_node_id = rc_node_id c,
    msg_target_node_id = ae_leader_id r, msg_payload = AppendEntriesResponseMsg (ResetAppendResponse (current_term c))\<rparr>"
  have up: "UpdateCurrentTerm c (ae_term r) = (OK, ?c)"
    using assms(4) by (simp add: UpdateCurrentTerm_eq [OF assms(1)])
  have low: "\<not> ae_term r < current_term c" using assms(4) by simp
  have req: "require_core c out = OK" "ValidateAppendEntriesRequest c r = OK"
    using assms(1,3) by (simp_all add: require_core_def)
  have leads: "rc_role ?c = LEADER \<and> ae_leader_id r \<noteq> rc_node_id ?c" using assms(2,5) by simp
  have "HandleAppendEntries c r out = (Inr (ResetAppendResponse (current_term c)), snd (StageMessage ?c ?m ?h kInvalidLogIndex))"
    unfolding HandleAppendEntries_def Let_def req up if_P [OF assms(4)] if_not_P [OF low] then_get.simps if_P [OF leads]
      append_reply_def
    by (simp add: stage_then_get del: then_get.simps)
  moreover have "current_term (snd (StageMessage ?c ?m ?h kInvalidLogIndex)) = ae_term r"
    "voted_for (snd (StageMessage ?c ?m ?h kInvalidLogIndex)) = kInvalidNodeId"
    by (simp_all add: StageMessage_fields current_term_def voted_for_def)
  ultimately show ?thesis using assms(2) by (auto simp: StageMessage_fields)
qed

theorem stale_leader_keeps_role_witness:
  "rc_role (snd (HandleAppendEntries leader1 heartbeat2 out)) = LEADER \<and>
   current_term (snd (HandleAppendEntries leader1 heartbeat2 out)) = 2"
proof -
  have facts: "rc_initialized leader1" "rc_role leader1 = LEADER" "ok (ValidateAppendEntriesRequest leader1 heartbeat2)"
    "current_term leader1 < ae_term heartbeat2" "ae_leader_id heartbeat2 \<noteq> rc_node_id leader1"
    by code_simp+
  have "ae_term heartbeat2 = 2" by code_simp
  then show ?thesis using stale_leader_keeps_role [OF facts] by auto
qed


text \<open>
  A request that arrives twice is acknowledged at once the second time although none of its
  entries is stable: the second time the log does not grow, so the reply waits for nothing.
\<close>

theorem repeated_append_not_gated:
  "let r = example_append 0 [example_command 1 1];
       once = snd (HandleAppendEntries (example_node 2) r out);
       again = snd (HandleAppendEntries once r out);
       ack = sent (HandleAppendEntries once r out)
   in aer_success ack \<and> aer_match_index ack = 1 \<and>
      ack_message again r ack \<notin> set (rc_immediate_messages once) \<and>
      ack_message again r ack \<in> set (rc_immediate_messages again) \<and>
      lg_stable_index (rc_log again) = 0"
  by code_simp

end
