(* ===== verification/Raft_Storage.thy ===== *)
theory Raft_Storage
  imports Raft_Log
begin

text \<open>
  \<open>raft/raft_storage.h\<close>: the records of the storage interface, and the contract of
  \<open>IRaftStorage\<close> that both implementations keep. Abstractly a storage holds a hard state, a
  snapshot and a log, a map from indexes to entries up to a last index; \<open>storage_spec\<close> says what
  each write does to them, and the locale \<open>raft_storage\<close> what a client may rely on.
\<close>

record RaftStorageLoadResult =
  lr_hard_state :: HardState
  lr_entries :: "LogEntry list"
  lr_snapshot :: "SnapshotData option"
  lr_empty :: bool

record RaftStorageOperationResult =
  or_status :: Status
  or_has_hard_state :: bool
  or_hard_state :: HardState
  or_last_log_index :: LogIndex
  or_has_snapshot :: bool
  or_snapshot :: SnapshotMetadata

section \<open>Contiguous entries\<close>

lemma contiguous_Nil [simp]: "contiguous_from n []"
  by (simp add: contiguous_from_def)

lemma contiguous_Cons [simp]:
  "contiguous_from n (e # es) \<longleftrightarrow>
     unat (le_index e) = Suc n \<and> le_term e \<noteq> kInitialTerm \<and> contiguous_from (Suc n) es"
  by (auto simp: contiguous_from_def All_less_Suc2)

lemma contiguous_append:
  "contiguous_from n (xs @ ys) \<longleftrightarrow> contiguous_from n xs \<and> contiguous_from (n + length xs) ys"
  by (induction xs arbitrary: n) auto

text \<open>The log a vector of entries holds.\<close>

definition stored_log :: "LogEntry list \<Rightarrow> LogIndex \<Rightarrow> LogEntry option" where
  "stored_log es = map_of (map (\<lambda>e. (le_index e, e)) es)"

lemma stored_log_simps [simp]:
  "stored_log [] = Map.empty"
  "stored_log (e # es) = (stored_log es)(le_index e \<mapsto> e)"
  by (simp_all add: stored_log_def)

lemma stored_log_append: "stored_log (xs @ ys) = stored_log ys ++ stored_log xs"
  by (simp add: stored_log_def)

lemma stored_log_index: "stored_log es i = Some e \<Longrightarrow> le_index e = i \<and> e \<in> set es"
  by (induction es) (auto split: if_splits)

lemma stored_log_nth:
  assumes "contiguous_from n es"
  shows "stored_log es i =
    (if n < unat i \<and> unat i \<le> n + length es then Some (es ! (unat i - Suc n)) else None)"
  using assms
proof (induction es arbitrary: n)
  case (Cons e es)
  have eq: "le_index e = i \<longleftrightarrow> unat i = Suc n" using Cons.prems by (auto simp: word_unat_eq_iff)
  have "Suc n < unat i \<Longrightarrow> unat i - Suc n = Suc (unat i - Suc (Suc n))" by simp
  then show ?case using Cons.IH [of "Suc n"] Cons.prems eq by (auto simp: nth_Cons')
qed auto

lemma stored_log_mem: "contiguous_from n es \<Longrightarrow> e \<in> set es \<Longrightarrow> stored_log es (le_index e) = Some e"
proof (induction es arbitrary: n)
  case (Cons a es)
  have "le_index e \<noteq> le_index a" if "e \<in> set es"
    using Cons.IH [of "Suc n"] Cons.prems that stored_log_nth [of "Suc n" es "le_index e"]
    by (auto split: if_splits)
  then show ?case using Cons.IH [of "Suc n"] Cons.prems by auto
qed simp

lemma last_contiguous:
  "contiguous_from n es \<Longrightarrow> es \<noteq> [] \<Longrightarrow> unat (le_index (last es)) = n + length es"
  by (induction es arbitrary: n) auto

lemma contiguous_filter:
  assumes "contiguous_from n es"
  shows "filter (\<lambda>e. le_index e < i) es = take (unat i - Suc n) es"
    and "filter (\<lambda>e. i < le_index e) es = drop (unat i - n) es"
proof -
  have "filter (\<lambda>e. le_index e < i) es = take (unat i - Suc n) es \<and>
      filter (\<lambda>e. i < le_index e) es = drop (unat i - n) es"
    using assms by (induction es arbitrary: n) (auto simp: idx take_Cons' drop_Cons')
  then show "filter (\<lambda>e. le_index e < i) es = take (unat i - Suc n) es"
    "filter (\<lambda>e. i < le_index e) es = drop (unat i - n) es" by simp_all
qed

lemma stored_log_filter: "stored_log (filter (\<lambda>e. P (le_index e)) es) = stored_log es |` {i. P i}"
  by (induction es) (auto simp: restrict_map_def fun_eq_iff)

lemma stored_log_iff:
  "contiguous_from n es \<Longrightarrow> stored_log es i = Some e \<longleftrightarrow> e \<in> set es \<and> le_index e = i"
  using stored_log_index stored_log_mem by blast

text \<open>
  Appending a batch that starts inside or right behind the stored entries and agrees with them is
  appending what lies behind.
\<close>

lemma append_behind:
  assumes old: "contiguous_from s old" and es: "contiguous_from n es" and n: "s \<le> n" "n \<le> s + length old"
    and agree: "\<forall>e \<in> set es. unat (le_index e) \<le> s + length old \<longrightarrow> stored_log old (le_index e) = Some e"
  shows "contiguous_from s (old @ drop (s + length old - n) es)"
    and "stored_log (old @ drop (s + length old - n) es) = stored_log old ++ stored_log es"
proof -
  let ?k = "s + length old - n"
  let ?rest = "drop ?k es"
  have split: "contiguous_from n (take ?k es) \<and> contiguous_from (n + length (take ?k es)) ?rest"
    using es contiguous_append [of n "take ?k es" ?rest] by simp
  then show all: "contiguous_from s (old @ ?rest)"
    using old n by (cases "?k \<le> length es") (simp_all add: contiguous_append)
  have rest: "e \<in> set ?rest" if "e \<in> set es" "s + length old < unat (le_index e)" for e
  proof -
    have "e \<in> set (take ?k es) \<or> e \<in> set ?rest" using that(1) by (metis Un_iff append_take_drop_id set_append)
    moreover have "unat (le_index e) \<le> n + length (take ?k es)" if "e \<in> set (take ?k es)"
      using split that by (auto simp: contiguous_from_def in_set_conv_nth)
    ultimately show ?thesis using that(2) n by fastforce
  qed
  show "stored_log (old @ ?rest) = stored_log old ++ stored_log es"
  proof (intro ext option_eqI)
    fix i e
    have low: "unat i \<le> s + length old" if "stored_log old i = Some x" for x
      using that stored_log_nth [OF old, of i] by (auto split: if_splits)
    have same: "x = y" if "stored_log es i = Some x" "stored_log old i = Some y" for x y
      using stored_log_index [OF that(1)] agree low [OF that(2)] that(2) by auto
    have "stored_log (old @ ?rest) i = Some e \<longleftrightarrow> (e \<in> set old \<or> e \<in> set ?rest) \<and> le_index e = i"
      using stored_log_iff [OF all] by simp
    also have "\<dots> \<longleftrightarrow> (stored_log old ++ stored_log es) i = Some e"
    proof
      assume l: "(e \<in> set old \<or> e \<in> set ?rest) \<and> le_index e = i"
      then show "(stored_log old ++ stored_log es) i = Some e"
        using stored_log_iff [OF old, of i e] stored_log_iff [OF es, of i e] same
        by (cases "stored_log es i") (auto simp: map_add_Some_iff dest: in_set_dropD)
    next
      assume "(stored_log old ++ stored_log es) i = Some e"
      then show "(e \<in> set old \<or> e \<in> set ?rest) \<and> le_index e = i"
        using stored_log_iff [OF old, of i e] stored_log_iff [OF es, of i e] agree rest [of e]
        by (fastforce simp: map_add_Some_iff not_le)
    qed
    finally show "stored_log (old @ ?rest) i = Some e \<longleftrightarrow> (stored_log old ++ stored_log es) i = Some e" .
  qed
qed

section \<open>The contract\<close>

definition snapshot_index :: "SnapshotData option \<Rightarrow> LogIndex" where
  "snapshot_index s = (case s of None \<Rightarrow> kInvalidLogIndex | Some x \<Rightarrow> sm_last_included_index (sd_metadata x))"

definition snapshot_term :: "SnapshotData option \<Rightarrow> Term" where
  "snapshot_term s = (case s of None \<Rightarrow> kInitialTerm | Some x \<Rightarrow> sm_last_included_term (sd_metadata x))"

record Durable =
  du_hard_state :: HardState
  du_log :: "LogIndex \<Rightarrow> LogEntry option"
  du_last :: LogIndex
  du_snapshot :: "SnapshotData option"

definition Durable_new :: Durable where
  "Durable_new = \<lparr>du_hard_state = HardState_default, du_log = Map.empty, du_last = 0, du_snapshot = None\<rparr>"

datatype storage_op =
    Op_SaveHardState HardState
  | Op_AppendEntries "LogEntry list"
  | Op_TruncateSuffix LogIndex
  | Op_SaveSnapshot SnapshotData

text \<open>
  A hard state may not move back nor commit past the log; a batch has to be contiguous, start
  behind the snapshot and at most one index behind the log, and agree with what is stored; a
  committed entry is never cut; a snapshot covers committed entries and agrees with their term.
\<close>

definition batch_fits :: "LogEntry list \<Rightarrow> Durable \<Rightarrow> bool" where
  "batch_fits es d \<longleftrightarrow>
     contiguous_from (unat (le_index (hd es)) - 1) es \<and>
     snapshot_index (du_snapshot d) < le_index (hd es) \<and> le_index (hd es) \<le> du_last d + 1 \<and>
     (\<forall>e \<in> set es. le_index e \<le> du_last d \<longrightarrow> du_log d (le_index e) = Some e)"

definition snapshot_fits :: "SnapshotData \<Rightarrow> Durable \<Rightarrow> bool" where
  "snapshot_fits s d \<longleftrightarrow>
     (let i = snapshot_index (Some s); t = snapshot_term (Some s)
      in i \<noteq> kInvalidLogIndex \<and> t \<noteq> kInitialTerm \<and> snapshot_index (du_snapshot d) \<le> i \<and>
         i \<le> hs_commit_index (du_hard_state d) \<and>
         (if i = snapshot_index (du_snapshot d) then snapshot_term (du_snapshot d) = t
          else map_option le_term (du_log d i) = Some t))"

fun storage_spec :: "storage_op \<Rightarrow> Durable \<Rightarrow> Status \<times> Durable" where
  "storage_spec (Op_SaveHardState h) d =
     (if hs_current_term (du_hard_state d) \<le> hs_current_term h \<and>
         hs_commit_index (du_hard_state d) \<le> hs_commit_index h \<and> hs_commit_index h \<le> du_last d
      then (OK, d\<lparr>du_hard_state := h\<rparr>) else (InvalidArgument, d))"
| "storage_spec (Op_AppendEntries es) d =
     (if es = [] then (OK, d)
      else if batch_fits es d
      then (OK, d\<lparr>du_log := du_log d ++ stored_log es, du_last := max (du_last d) (le_index (last es))\<rparr>)
      else (InvalidArgument, d))"
| "storage_spec (Op_TruncateSuffix i) d =
     (if hs_commit_index (du_hard_state d) < i \<and> i \<le> du_last d + 1
      then (OK, d\<lparr>du_log := du_log d |` {..<i}, du_last := min (du_last d) (i - 1)\<rparr>)
      else (InvalidArgument, d))"
| "storage_spec (Op_SaveSnapshot s) d =
     (if snapshot_fits s d
      then (OK, d\<lparr>du_log := du_log d |` {snapshot_index (Some s)<..}, du_snapshot := Some s\<rparr>)
      else (InvalidArgument, d))"

text \<open>What no write takes back: terms, the commit index, the snapshot, and committed entries.\<close>

definition durable_le :: "Durable \<Rightarrow> Durable \<Rightarrow> bool" where
  "durable_le d d' \<longleftrightarrow>
     hs_current_term (du_hard_state d) \<le> hs_current_term (du_hard_state d') \<and>
     hs_commit_index (du_hard_state d) \<le> hs_commit_index (du_hard_state d') \<and>
     snapshot_index (du_snapshot d) \<le> snapshot_index (du_snapshot d') \<and>
     (\<forall>i e. i \<le> hs_commit_index (du_hard_state d) \<longrightarrow> du_log d i = Some e \<longrightarrow>
        i \<le> snapshot_index (du_snapshot d') \<or> du_log d' i = Some e)"

lemma durable_le_refl [simp]: "durable_le d d"
  by (simp add: durable_le_def)

lemma durable_le_trans: "durable_le a b \<Longrightarrow> durable_le b c \<Longrightarrow> durable_le a c"
  unfolding durable_le_def by (meson order_trans)

definition durable_wf :: "Durable \<Rightarrow> bool" where
  "durable_wf d \<longleftrightarrow>
     snapshot_index (du_snapshot d) \<le> hs_commit_index (du_hard_state d) \<and>
     hs_commit_index (du_hard_state d) \<le> du_last d"

lemma less_le_minus_one: "c < i \<Longrightarrow> c \<le> i - 1" for c i :: u64
  using unat_dec [of i] word_gt_0 [of i] by (auto simp: idx)

lemma storage_spec_le:
  assumes wf: "durable_wf d"
  shows "durable_wf (snd (storage_spec op d)) \<and> durable_le d (snd (storage_spec op d))"
proof (cases op)
  case (Op_AppendEntries es)
  have same: "x = e" if "batch_fits es d" "i \<le> hs_commit_index (du_hard_state d)"
    "stored_log es i = Some x" "du_log d i = Some e" for i e x
    using stored_log_index [OF that(3)] that wf unfolding batch_fits_def durable_wf_def by auto
  show ?thesis
    using wf same unfolding durable_le_def durable_wf_def Op_AppendEntries
    by (auto simp: map_add_def max_def split: option.splits)
next
  case (Op_SaveSnapshot s)
  then show ?thesis
    using wf by (auto simp: durable_wf_def durable_le_def snapshot_fits_def Let_def restrict_map_def)
qed (use wf less_le_minus_one in \<open>auto simp: durable_wf_def durable_le_def restrict_map_def min_def\<close>)

text \<open>The batch a client retries after an answer got lost is accepted again and changes nothing.\<close>

lemma append_again:
  assumes "storage_spec (Op_AppendEntries es) d = (OK, d')" and "du_last d' < - 1"
  shows "storage_spec (Op_AppendEntries es) d' = (OK, d')"
proof (cases "es = []")
  case False
  then have fits: "batch_fits es d" and d': "d' = d\<lparr>du_log := du_log d ++ stored_log es,
      du_last := max (du_last d) (le_index (last es))\<rparr>"
    using assms by (auto split: if_splits)
  have cont: "contiguous_from (unat (le_index (hd es)) - 1) es" using fits by (simp add: batch_fits_def)
  have "unat (le_index (hd es)) \<le> unat (le_index (last es))"
    using cont False last_contiguous [OF cont False] by (cases es) auto
  also have "\<dots> \<le> unat (du_last d')" by (simp add: d' max_def idx)
  also have "\<dots> \<le> unat (du_last d' + 1)" using unat_inc [OF assms(2)] by simp
  finally have "le_index (hd es) \<le> du_last d' + 1" by (simp add: idx)
  then have "batch_fits es d'"
    using fits stored_log_mem [OF cont] by (simp add: batch_fits_def d' map_add_def)
  moreover have "(du_log d ++ stored_log es) ++ stored_log es = du_log d ++ stored_log es"
    by (auto simp: map_add_def fun_eq_iff split: option.splits)
  ultimately show ?thesis using False by (simp add: d' max_def)
qed (use assms in simp)

text \<open>
  The contract of \<open>IRaftStorage\<close>: a write that answers OK did what the specification says, a
  write that answers anything else changed nothing a reader sees.
\<close>

fun storage_run :: "(storage_op \<Rightarrow> 's \<Rightarrow> Status \<times> 's) \<Rightarrow> storage_op list \<Rightarrow> 's \<Rightarrow> 's" where
  "storage_run exec [] s = s"
| "storage_run exec (op # ops) s = storage_run exec ops (snd (exec op s))"

text \<open>The writes that were acknowledged.\<close>

fun acked :: "(storage_op \<Rightarrow> 's \<Rightarrow> Status \<times> 's) \<Rightarrow> storage_op list \<Rightarrow> 's \<Rightarrow> storage_op list" where
  "acked exec [] s = []"
| "acked exec (op # ops) s =
     (if fst (exec op s) = OK then [op] else []) @ acked exec ops (snd (exec op s))"

locale raft_storage =
  fixes exec :: "storage_op \<Rightarrow> 's \<Rightarrow> Status \<times> 's"
    and durable :: "'s \<Rightarrow> Durable"
    and invar :: "'s \<Rightarrow> bool"
  assumes exec_invar: "invar s \<Longrightarrow> exec op s = (st, s') \<Longrightarrow> invar s'"
    and exec_OK: "invar s \<Longrightarrow> exec op s = (OK, s') \<Longrightarrow> storage_spec op (durable s) = (OK, durable s')"
    and exec_fails: "invar s \<Longrightarrow> exec op s = (st, s') \<Longrightarrow> st \<noteq> OK \<Longrightarrow> durable s' = durable s"
    and invar_wf: "invar s \<Longrightarrow> durable_wf (durable s)"
begin

lemma exec_le: "invar s \<Longrightarrow> durable_le (durable s) (durable (snd (exec op s)))"
  using exec_OK [of s op "snd (exec op s)"] exec_fails [of s op "fst (exec op s)" "snd (exec op s)"]
    storage_spec_le [OF invar_wf, of s op] durable_le_refl
  by (cases "fst (exec op s) = OK") (auto simp: prod_eq_iff)

lemma run_le: "invar s \<Longrightarrow> invar (storage_run exec ops s) \<and> durable_le (durable s) (durable (storage_run exec ops s))"
proof (induction ops arbitrary: s)
  case (Cons op ops)
  have i: "invar (snd (exec op s))" using exec_invar [OF Cons.prems, of op] by (metis prod.collapse)
  from Cons.IH [OF this] show ?case using durable_le_trans [OF exec_le [OF Cons.prems]] by auto
qed simp

lemma run_acked:
  "invar s \<Longrightarrow> durable (storage_run exec ops s) = storage_run storage_spec (acked exec ops s) (durable s)"
proof (induction ops arbitrary: s)
  case (Cons op ops)
  let ?r = "exec op s"
  have r: "exec op s = (fst ?r, snd ?r)" by simp
  have eq: "exec op s = (OK, snd ?r)" if "fst ?r = OK" using that by (simp add: prod_eq_iff)
  show ?case
    using Cons.IH [OF exec_invar [OF Cons.prems r]] exec_OK [OF Cons.prems eq] exec_fails [OF Cons.prems r]
    by (cases "fst ?r = OK") auto
qed simp

lemma retry_append:
  assumes "invar s" "exec (Op_AppendEntries es) s = (OK, s1)" "du_last (durable s1) < - 1"
    and "exec (Op_AppendEntries es) s1 = (OK, s2)"
  shows "durable s2 = durable s1"
proof -
  have "storage_spec (Op_AppendEntries es) (durable s1) = (OK, durable s2)"
    using exec_OK [OF exec_invar [OF assms(1,2)] assms(4)] .
  then show ?thesis using append_again [OF exec_OK [OF assms(1,2)] assms(3)] by simp
qed

end

end
