(* ===== verification/Memory_Storage.thy ===== *)
theory Memory_Storage
  imports Raft_Storage
begin

text \<open>
  \<open>raft/memory_raft_storage.cpp\<close>: the storage without a disk. Every member function, and the
  proof that it keeps the contract of \<open>IRaftStorage\<close>, answer by answer.
\<close>

record MemoryRaftStorage =
  mrs_open :: bool
  mrs_hard_state :: HardState
  mrs_entries :: "LogEntry list"
  mrs_snapshot :: "SnapshotData option"

definition MemoryRaftStorage_new :: MemoryRaftStorage where
  "MemoryRaftStorage_new =
     \<lparr>mrs_open = False, mrs_hard_state = HardState_default, mrs_entries = [], mrs_snapshot = None\<rparr>"

section \<open>Helpers\<close>

definition SameEntry :: "LogEntry \<Rightarrow> LogEntry \<Rightarrow> bool" where
  "SameEntry lhs rhs \<longleftrightarrow>
     le_index lhs = le_index rhs \<and> le_term lhs = le_term rhs \<and>
     le_type lhs = le_type rhs \<and> le_payload lhs = le_payload rhs"

definition Memory_RequireOpen :: "MemoryRaftStorage \<Rightarrow> Status" where
  "Memory_RequireOpen m = (if \<not> mrs_open m then InvalidArgument else OK)"

definition Memory_SnapshotIndex :: "MemoryRaftStorage \<Rightarrow> LogIndex" where
  "Memory_SnapshotIndex m =
     (case mrs_snapshot m of Some s \<Rightarrow> sm_last_included_index (sd_metadata s) | None \<Rightarrow> kInvalidLogIndex)"

definition Memory_SnapshotTerm :: "MemoryRaftStorage \<Rightarrow> Term" where
  "Memory_SnapshotTerm m =
     (case mrs_snapshot m of Some s \<Rightarrow> sm_last_included_term (sd_metadata s) | None \<Rightarrow> kInitialTerm)"

definition Memory_LastLogIndex :: "MemoryRaftStorage \<Rightarrow> LogIndex" where
  "Memory_LastLogIndex m =
     (if mrs_entries m = [] then Memory_SnapshotIndex m else le_index (last (mrs_entries m)))"

definition Memory_FirstLogIndex :: "MemoryRaftStorage \<Rightarrow> LogIndex" where
  "Memory_FirstLogIndex m = Memory_SnapshotIndex m + 1"

definition Memory_HasEntry :: "MemoryRaftStorage \<Rightarrow> LogIndex \<Rightarrow> bool" where
  "Memory_HasEntry m index \<longleftrightarrow>
     Memory_FirstLogIndex m \<le> index \<and> index \<le> Memory_LastLogIndex m \<and> mrs_entries m \<noteq> []"

definition Memory_Offset :: "MemoryRaftStorage \<Rightarrow> LogIndex \<Rightarrow> nat" where
  "Memory_Offset m index = unat (index - Memory_FirstLogIndex m)"

definition Memory_GetTerm :: "MemoryRaftStorage \<Rightarrow> LogIndex \<Rightarrow> out_ptr \<Rightarrow> Status + Term" where
  "Memory_GetTerm m index term_ptr =
     (if \<not> ok (require_out term_ptr) then Inl (require_out term_ptr)
      else if index = kInvalidLogIndex then Inr kInitialTerm
      else if mrs_snapshot m \<noteq> None \<and> index = Memory_SnapshotIndex m then Inr (Memory_SnapshotTerm m)
      else if \<not> Memory_HasEntry m index then Inl NotFound
      else Inr (le_term (mrs_entries m ! Memory_Offset m index)))"

fun Memory_ValidateEntryBatch_loop :: "LogIndex \<Rightarrow> LogEntry option \<Rightarrow> LogEntry list \<Rightarrow> Status" where
  "Memory_ValidateEntryBatch_loop snapshot previous [] = OK"
| "Memory_ValidateEntryBatch_loop snapshot previous (entry # entries) =
     (if le_index entry \<le> snapshot then InvalidArgument
      else if le_term entry = kInitialTerm then InvalidArgument
      else if (case previous of None \<Rightarrow> False | Some p \<Rightarrow> le_index entry \<noteq> le_index p + 1) then InvalidArgument
      else Memory_ValidateEntryBatch_loop snapshot (Some entry) entries)"

definition Memory_ValidateEntryBatch :: "MemoryRaftStorage \<Rightarrow> LogEntry list \<Rightarrow> Status" where
  "Memory_ValidateEntryBatch m entries =
     (if entries = [] then OK
      else let status = Memory_ValidateEntryBatch_loop (Memory_SnapshotIndex m) None entries
           in if \<not> ok status then status
              else if Memory_LastLogIndex m + 1 < le_index (hd entries) then InvalidArgument
              else OK)"

section \<open>Operations\<close>

definition Memory_Open :: "MemoryRaftStorage \<Rightarrow> Status \<times> MemoryRaftStorage" where
  "Memory_Open m = (OK, m\<lparr>mrs_open := True\<rparr>)"

definition Memory_Load :: "MemoryRaftStorage \<Rightarrow> out_ptr \<Rightarrow> Status + RaftStorageLoadResult" where
  "Memory_Load m result =
     (if \<not> ok (Memory_RequireOpen m) then Inl (Memory_RequireOpen m)
      else if \<not> ok (require_out result) then Inl (require_out result)
      else Inr
        \<lparr>lr_hard_state = mrs_hard_state m, lr_entries = mrs_entries m, lr_snapshot = mrs_snapshot m,
         lr_empty = (mrs_entries m = [] \<and> mrs_snapshot m = None \<and>
           hs_current_term (mrs_hard_state m) = kInitialTerm \<and>
           hs_voted_for (mrs_hard_state m) = kInvalidNodeId \<and>
           hs_commit_index (mrs_hard_state m) = kInvalidLogIndex \<and>
           hs_membership_configuration_id (mrs_hard_state m) = 0)\<rparr>)"

definition Memory_SaveHardState :: "MemoryRaftStorage \<Rightarrow> HardState \<Rightarrow> Status \<times> MemoryRaftStorage" where
  "Memory_SaveHardState m hard_state =
     (if \<not> ok (Memory_RequireOpen m) then (Memory_RequireOpen m, m)
      else if hs_current_term hard_state < hs_current_term (mrs_hard_state m) then (InvalidArgument, m)
      else if hs_commit_index hard_state < hs_commit_index (mrs_hard_state m) then (InvalidArgument, m)
      else if Memory_LastLogIndex m < hs_commit_index hard_state then (InvalidArgument, m)
      else (OK, m\<lparr>mrs_hard_state := hard_state\<rparr>))"

text \<open>The loop over the entries that are already stored: what is left to append behind them.\<close>

fun Memory_skip_stored :: "MemoryRaftStorage \<Rightarrow> LogIndex \<Rightarrow> LogEntry list \<Rightarrow> Status + LogEntry list" where
  "Memory_skip_stored m last_log_index [] = Inr []"
| "Memory_skip_stored m last_log_index (entry # entries) =
     (if le_index entry \<le> last_log_index
      then if \<not> Memory_HasEntry m (le_index entry) \<or>
              \<not> SameEntry (mrs_entries m ! Memory_Offset m (le_index entry)) entry
           then Inl InvalidArgument
           else Memory_skip_stored m last_log_index entries
      else Inr (entry # entries))"

definition Memory_AppendEntries :: "MemoryRaftStorage \<Rightarrow> LogEntry list \<Rightarrow> Status \<times> MemoryRaftStorage" where
  "Memory_AppendEntries m entries =
     (if \<not> ok (Memory_RequireOpen m) then (Memory_RequireOpen m, m)
      else let status = Memory_ValidateEntryBatch m entries
           in if \<not> ok status \<or> entries = [] then (status, m)
              else let last_log_index = Memory_LastLogIndex m
                   in (case (if le_index (hd entries) \<le> last_log_index
                             then Memory_skip_stored m last_log_index entries else Inr entries) of
                         Inl s \<Rightarrow> (s, m)
                       | Inr appended \<Rightarrow> (OK, m\<lparr>mrs_entries := mrs_entries m @ appended\<rparr>)))"

definition Memory_TruncateSuffix :: "MemoryRaftStorage \<Rightarrow> LogIndex \<Rightarrow> Status \<times> MemoryRaftStorage" where
  "Memory_TruncateSuffix m first =
     (if \<not> ok (Memory_RequireOpen m) then (Memory_RequireOpen m, m)
      else if first \<le> Memory_SnapshotIndex m then (InvalidArgument, m)
      else if first \<le> hs_commit_index (mrs_hard_state m) then (InvalidArgument, m)
      else if Memory_LastLogIndex m + 1 < first then (InvalidArgument, m)
      else if first \<le> Memory_LastLogIndex m
        then (OK, m\<lparr>mrs_entries := take (Memory_Offset m first) (mrs_entries m)\<rparr>)
      else (OK, m))"

definition Memory_SaveSnapshot :: "MemoryRaftStorage \<Rightarrow> SnapshotData \<Rightarrow> Status \<times> MemoryRaftStorage" where
  "Memory_SaveSnapshot m snapshot =
     (let index = sm_last_included_index (sd_metadata snapshot);
          snap_term = sm_last_included_term (sd_metadata snapshot)
      in if \<not> ok (Memory_RequireOpen m) then (Memory_RequireOpen m, m)
         else if index = kInvalidLogIndex then (InvalidArgument, m)
         else if snap_term = kInitialTerm then (InvalidArgument, m)
         else if index < Memory_SnapshotIndex m then (InvalidArgument, m)
         else if hs_commit_index (mrs_hard_state m) < index then (InvalidArgument, m)
         else (case Memory_GetTerm m index out of
                 Inl status \<Rightarrow> (status, m)
               | Inr stored_term \<Rightarrow>
                   if stored_term \<noteq> snap_term then (InvalidArgument, m)
                   else (OK, m\<lparr>mrs_snapshot := Some snapshot,
                               mrs_entries := filter (\<lambda>entry. \<not> le_index entry \<le> index) (mrs_entries m)\<rparr>)))"

section \<open>The invariant\<close>

definition memory_durable :: "MemoryRaftStorage \<Rightarrow> Durable" where
  "memory_durable m =
     \<lparr>du_hard_state = mrs_hard_state m, du_log = stored_log (mrs_entries m),
      du_last = Memory_LastLogIndex m, du_snapshot = mrs_snapshot m\<rparr>"

definition memory_inv :: "MemoryRaftStorage \<Rightarrow> bool" where
  "memory_inv m \<longleftrightarrow>
     mrs_open m \<and> contiguous_from (unat (Memory_SnapshotIndex m)) (mrs_entries m) \<and>
     durable_wf (memory_durable m) \<and> (mrs_snapshot m \<noteq> None \<longrightarrow> Memory_SnapshotIndex m \<noteq> 0)"

lemma snapshot_index_memory:
  "snapshot_index (mrs_snapshot m) = Memory_SnapshotIndex m" "snapshot_term (mrs_snapshot m) = Memory_SnapshotTerm m"
  by (simp_all add: snapshot_index_def snapshot_term_def Memory_SnapshotIndex_def Memory_SnapshotTerm_def split: option.split)

lemma Memory_SnapshotIndex_entries [simp]:
  "Memory_SnapshotIndex (m\<lparr>mrs_entries := es\<rparr>) = Memory_SnapshotIndex m"
  "Memory_SnapshotIndex (m\<lparr>mrs_snapshot := Some s\<rparr>) = sm_last_included_index (sd_metadata s)"
  by (simp_all add: Memory_SnapshotIndex_def)

lemma SameEntry_iff [simp]: "SameEntry x y \<longleftrightarrow> x = y"
  by (auto simp: SameEntry_def intro: LogEntry.equality)

lemma memory_last:
  "contiguous_from (unat (Memory_SnapshotIndex m)) (mrs_entries m) \<Longrightarrow>
     unat (Memory_LastLogIndex m) = unat (Memory_SnapshotIndex m) + length (mrs_entries m)"
  using last_contiguous by (simp add: Memory_LastLogIndex_def)

text \<open>Where an entry stands.\<close>

lemma memory_entry:
  assumes "contiguous_from (unat (Memory_SnapshotIndex m)) (mrs_entries m)"
  shows "Memory_HasEntry m i \<longleftrightarrow> Memory_SnapshotIndex m < i \<and> i \<le> Memory_LastLogIndex m"
    and "Memory_SnapshotIndex m < i \<Longrightarrow> Memory_Offset m i = unat i - Suc (unat (Memory_SnapshotIndex m))"
    and "stored_log (mrs_entries m) i =
      (if Memory_HasEntry m i then Some (mrs_entries m ! Memory_Offset m i) else None)"
proof -
  have bound: "Memory_FirstLogIndex m \<le> j \<and> unat j - unat (Memory_FirstLogIndex m) = unat j - Suc (unat (Memory_SnapshotIndex m))"
    if "Memory_SnapshotIndex m < j" for j
    using unat_inc [OF that] that by (simp add: Memory_FirstLogIndex_def idx)
  have no_first: "\<not> Memory_FirstLogIndex m \<le> i" if "\<not> Memory_SnapshotIndex m < i" "mrs_entries m \<noteq> []"
  proof -
    have "Memory_SnapshotIndex m < Memory_LastLogIndex m" using memory_last [OF assms] that(2) by (simp add: idx)
    from unat_inc [OF this] show ?thesis using that(1) by (simp add: Memory_FirstLogIndex_def idx)
  qed
  show has: "Memory_HasEntry m i \<longleftrightarrow> Memory_SnapshotIndex m < i \<and> i \<le> Memory_LastLogIndex m"
    using bound [of i] no_first by (auto simp: Memory_HasEntry_def Memory_LastLogIndex_def)
  show off: "Memory_Offset m i = unat i - Suc (unat (Memory_SnapshotIndex m))" if "Memory_SnapshotIndex m < i"
    using bound [OF that] by (simp add: Memory_Offset_def unat_sub)
  show "stored_log (mrs_entries m) i = (if Memory_HasEntry m i then Some (mrs_entries m ! Memory_Offset m i) else None)"
    using off memory_last [OF assms] unfolding stored_log_nth [OF assms] has by (auto simp: idx)
qed

lemma memory_GetTerm:
  assumes "contiguous_from (unat (Memory_SnapshotIndex m)) (mrs_entries m)" "i \<noteq> 0"
  shows "Memory_GetTerm m i out =
    (if mrs_snapshot m \<noteq> None \<and> i = Memory_SnapshotIndex m then Inr (Memory_SnapshotTerm m)
     else case stored_log (mrs_entries m) i of None \<Rightarrow> Inl NotFound | Some e \<Rightarrow> Inr (le_term e))"
  using assms(2) memory_entry(3) [OF assms(1)] by (simp add: Memory_GetTerm_def)

section \<open>What the checks accept\<close>

lemma succ_index: "unat j = Suc (unat i) \<longleftrightarrow> j = i + 1 \<and> j \<noteq> 0" for i j :: u64
proof
  assume j: "unat j = Suc (unat i)"
  then have "i < j" by (simp add: idx)
  from unat_inc [OF this] have "j = i + 1" using j by (simp only: word_unat_eq_iff)
  then show "j = i + 1 \<and> j \<noteq> 0" using \<open>i < j\<close> by auto
next
  assume "j = i + 1 \<and> j \<noteq> 0"
  then have "1 + i \<noteq> 0" "j = 1 + i" by (auto simp: add.commute)
  then show "unat j = Suc (unat i)" using unatSuc [of i] by simp
qed

lemma ValidateEntryBatch_loop_eq:
  "snapshot \<le> le_index p \<Longrightarrow>
     Memory_ValidateEntryBatch_loop snapshot (Some p) es =
       (if contiguous_from (unat (le_index p)) es then OK else InvalidArgument)"
proof (induction es arbitrary: p)
  case (Cons e es)
  have "snapshot < le_index e \<and> le_index e = le_index p + 1 \<longleftrightarrow> unat (le_index e) = Suc (unat (le_index p))"
    using Cons.prems succ_index [of "le_index e" "le_index p"] by (auto simp: idx)
  then show ?case using Cons.IH [of e] by (auto simp: not_le)
qed simp

lemma Memory_ValidateEntryBatch_eq:
  "Memory_ValidateEntryBatch m es =
     (if es = [] \<or> contiguous_from (unat (le_index (hd es)) - 1) es \<and>
         Memory_SnapshotIndex m < le_index (hd es) \<and> le_index (hd es) \<le> Memory_LastLogIndex m + 1
      then OK else InvalidArgument)"
proof (cases es)
  case (Cons e es')
  have "0 < unat (le_index e)" if "Memory_SnapshotIndex m < le_index e"
    using that by (simp add: idx)
  then show ?thesis
    using ValidateEntryBatch_loop_eq [of "Memory_SnapshotIndex m" e es']
    by (auto simp: Cons Memory_ValidateEntryBatch_def Let_def)
qed (simp add: Memory_ValidateEntryBatch_def)

lemma Memory_skip_stored_eq:
  assumes st: "contiguous_from (unat (Memory_SnapshotIndex m)) (mrs_entries m)"
    and "contiguous_from n es" "unat (Memory_SnapshotIndex m) \<le> n"
  shows "Memory_skip_stored m (Memory_LastLogIndex m) es =
    (if \<forall>e \<in> set es. le_index e \<le> Memory_LastLogIndex m \<longrightarrow> stored_log (mrs_entries m) (le_index e) = Some e
     then Inr (drop (unat (Memory_LastLogIndex m) - n) es) else Inl InvalidArgument)"
  using assms(2,3)
proof (induction es arbitrary: n)
  case (Cons e es)
  have snap: "Memory_SnapshotIndex m < le_index e" using Cons.prems by (simp add: idx)
  have later: "\<not> le_index x \<le> Memory_LastLogIndex m" if "\<not> le_index e \<le> Memory_LastLogIndex m" "x \<in> set es" for x
  proof -
    have "contiguous_from (unat (le_index e)) es" using Cons.prems by simp
    then have "unat (le_index e) < unat (le_index x)"
      using that(2) by (auto simp: contiguous_from_def in_set_conv_nth)
    then show ?thesis using that(1) by (simp add: idx)
  qed
  show ?case
  proof (cases "le_index e \<le> Memory_LastLogIndex m")
    case True
    then have "Memory_HasEntry m (le_index e)" using snap memory_entry(1) [OF st] by simp
    moreover have "unat (Memory_LastLogIndex m) - n = Suc (unat (Memory_LastLogIndex m) - Suc n)"
      using True Cons.prems by (simp add: idx)
    ultimately show ?thesis
      using True Cons.IH [of "Suc n"] Cons.prems memory_entry(3) [OF st, of "le_index e"] by auto
  next
    case False
    then have "unat (Memory_LastLogIndex m) - n = 0" using Cons.prems by (simp add: idx)
    then show ?thesis using False later by auto
  qed
qed simp

section \<open>Every write does what the contract says\<close>

fun memory_exec :: "storage_op \<Rightarrow> MemoryRaftStorage \<Rightarrow> Status \<times> MemoryRaftStorage" where
  "memory_exec (Op_SaveHardState h) m = Memory_SaveHardState m h"
| "memory_exec (Op_AppendEntries es) m = Memory_AppendEntries m es"
| "memory_exec (Op_TruncateSuffix i) m = Memory_TruncateSuffix m i"
| "memory_exec (Op_SaveSnapshot s) m = Memory_SaveSnapshot m s"

lemma memory_invD:
  assumes "memory_inv m"
  shows "mrs_open m" "contiguous_from (unat (Memory_SnapshotIndex m)) (mrs_entries m)"
    "Memory_SnapshotIndex m \<le> hs_commit_index (mrs_hard_state m)"
    "hs_commit_index (mrs_hard_state m) \<le> Memory_LastLogIndex m"
    "mrs_snapshot m \<noteq> None \<Longrightarrow> Memory_SnapshotIndex m \<noteq> 0"
    "Memory_RequireOpen m = OK"
  using assms by (simp_all add: memory_inv_def memory_durable_def durable_wf_def snapshot_index_memory Memory_RequireOpen_def)

text \<open>What a write has to show: the invariant's structure and the specification's result.\<close>

lemma memory_step:
  assumes inv: "memory_inv m" and spec: "storage_spec op (memory_durable m) = (st, memory_durable m')"
    and "mrs_open m'" "contiguous_from (unat (Memory_SnapshotIndex m')) (mrs_entries m')"
    and "mrs_snapshot m' \<noteq> None \<longrightarrow> Memory_SnapshotIndex m' \<noteq> 0"
  shows "memory_inv m' \<and> storage_spec op (memory_durable m) = (st, memory_durable m')"
  using assms storage_spec_le [of "memory_durable m" op] by (simp add: memory_inv_def)

lemma SaveHardState_refines:
  assumes "memory_inv m" "Memory_SaveHardState m h = (st, m')"
  shows "memory_inv m' \<and> storage_spec (Op_SaveHardState h) (memory_durable m) = (st, memory_durable m')"
proof (rule memory_step [OF assms(1)])
  note m' = assms(2) [unfolded Memory_SaveHardState_def]
  show "storage_spec (Op_SaveHardState h) (memory_durable m) = (st, memory_durable m')"
    using m' memory_invD [OF assms(1)]
    by (auto simp: memory_durable_def Memory_LastLogIndex_def Memory_SnapshotIndex_def split: if_splits)
  show "mrs_open m'" "contiguous_from (unat (Memory_SnapshotIndex m')) (mrs_entries m')"
    "mrs_snapshot m' \<noteq> None \<longrightarrow> Memory_SnapshotIndex m' \<noteq> 0"
    using m' memory_invD [OF assms(1)] by (auto simp: Memory_SnapshotIndex_def split: if_splits)
qed

lemma less_last_inc: "n \<le> last + 1 \<Longrightarrow> 0 < n \<Longrightarrow> unat n - 1 \<le> unat last \<and> unat (last + 1) = Suc (unat last)"
  for n last :: u64
  using unatSuc [of last] by (cases "1 + last = 0") (auto simp: idx add.commute)

lemma AppendEntries_refines:
  assumes inv: "memory_inv m" and "Memory_AppendEntries m es = (st, m')"
  shows "memory_inv m' \<and> storage_spec (Op_AppendEntries es) (memory_durable m) = (st, memory_durable m')"
proof (cases "es = [] \<or> \<not> ok (Memory_ValidateEntryBatch m es)")
  case True
  then show ?thesis
    using assms memory_invD(6) [OF inv] Memory_ValidateEntryBatch_eq [of m es]
    by (auto simp: Memory_AppendEntries_def Let_def batch_fits_def memory_durable_def snapshot_index_memory split: if_splits)
next
  case ne: False
  let ?n = "unat (le_index (hd es)) - 1" and ?s = "unat (Memory_SnapshotIndex m)" and ?last = "Memory_LastLogIndex m"
  let ?agree = "\<forall>e \<in> set es. le_index e \<le> ?last \<longrightarrow> stored_log (mrs_entries m) (le_index e) = Some e"
  let ?rest = "drop (unat ?last - ?n) es"
  note st = memory_invD(2) [OF inv]
  have fits: "contiguous_from ?n es" "Memory_SnapshotIndex m < le_index (hd es)" "le_index (hd es) \<le> ?last + 1"
    using ne by (auto simp: Memory_ValidateEntryBatch_eq split: if_splits)
  have pos: "0 < le_index (hd es)" using fits(2) by (rule order.strict_trans1 [rotated]) simp
  have n: "?s \<le> ?n" "?n \<le> unat ?last" using less_last_inc [OF fits(3) pos] fits(2) by (auto simp: idx)
  have last: "unat ?last = ?s + length (mrs_entries m)" using memory_last [OF st] .
  have skip: "(if le_index (hd es) \<le> ?last then Memory_skip_stored m ?last es else Inr es) =
      (if ?agree then Inr ?rest else Inl InvalidArgument)"
  proof (cases "le_index (hd es) \<le> ?last")
    case False
    then have "unat ?last - ?n = 0" by (simp add: idx)
    moreover have "\<not> le_index e \<le> ?last" if "e \<in> set es" for e
      using that fits(1) False unfolding contiguous_from_def by (fastforce simp: in_set_conv_nth idx)
    ultimately show ?thesis using False by auto
  qed (use Memory_skip_stored_eq [OF st fits(1) n(1)] in simp)
  have spec: "batch_fits es (memory_durable m) \<longleftrightarrow> ?agree"
    using fits by (simp add: batch_fits_def memory_durable_def snapshot_index_memory)
  have eq: "Memory_AppendEntries m es = (if ?agree then (OK, m\<lparr>mrs_entries := mrs_entries m @ ?rest\<rparr>) else (InvalidArgument, m))"
    using ne memory_invD(6) [OF inv] skip by (simp add: Memory_AppendEntries_def Let_def)
  show ?thesis
  proof (cases ?agree)
    case False
    then have "Memory_AppendEntries m es = (InvalidArgument, m)" "\<not> batch_fits es (memory_durable m)"
      using eq [unfolded if_not_P [OF False]] spec False by blast+
    then show ?thesis using assms ne by auto
  next
    case True
    let ?m = "m\<lparr>mrs_entries := mrs_entries m @ ?rest\<rparr>"
    note app = append_behind [OF st fits(1) n(1), unfolded last [symmetric]]
    have agree: "\<forall>e \<in> set es. unat (le_index e) \<le> unat ?last \<longrightarrow> stored_log (mrs_entries m) (le_index e) = Some e"
      using True by (simp add: idx)
    have "unat (Memory_LastLogIndex ?m) = ?s + length (mrs_entries m @ ?rest)"
      using memory_last [of ?m] app(1) [OF n(2) agree] by simp
    then have "unat (Memory_LastLogIndex ?m) = unat (max ?last (le_index (last es)))"
      using last_contiguous [OF fits(1)] ne n last by (auto simp: max_def idx)
    then have "memory_durable ?m = (memory_durable m)\<lparr>du_log := du_log (memory_durable m) ++ stored_log es,
        du_last := max ?last (le_index (last es))\<rparr>"
      using app(2) [OF n(2) agree] by (simp add: memory_durable_def word_unat_eq_iff)
    moreover have "Memory_AppendEntries m es = (OK, ?m)" "batch_fits es (memory_durable m)"
      using eq [unfolded if_P [OF True]] spec True by blast+
    ultimately show ?thesis
      using app(1) [OF n(2) agree] memory_invD [OF inv] assms(2) ne
      by (intro memory_step [OF inv]) (auto simp: memory_durable_def)
  qed
qed

lemma SaveSnapshot_refines:
  assumes inv: "memory_inv m" and "Memory_SaveSnapshot m s = (st, m')"
  shows "memory_inv m' \<and> storage_spec (Op_SaveSnapshot s) (memory_durable m) = (st, memory_durable m')"
proof -
  let ?i = "sm_last_included_index (sd_metadata s)" and ?t = "sm_last_included_term (sd_metadata s)"
  let ?m = "m\<lparr>mrs_snapshot := Some s, mrs_entries := filter (\<lambda>entry. \<not> le_index entry \<le> ?i) (mrs_entries m)\<rparr>"
  note st = memory_invD(2) [OF inv]
  have fits: "snapshot_fits s (memory_durable m) \<longleftrightarrow> ?i \<noteq> 0 \<and> ?t \<noteq> 0 \<and> Memory_SnapshotIndex m \<le> ?i \<and>
      ?i \<le> hs_commit_index (mrs_hard_state m) \<and> Memory_GetTerm m ?i out = Inr ?t"
    using memory_GetTerm [OF st, of ?i] memory_invD(5) [OF inv]
    by (auto simp: snapshot_fits_def memory_durable_def snapshot_index_memory Let_def snapshot_index_def [of "Some s"]
        snapshot_term_def [of "Some s"] Memory_SnapshotIndex_def [of m] split: option.splits)
  have found: "Memory_GetTerm m ?i out \<noteq> Inl e" if "?i \<noteq> 0" "Memory_SnapshotIndex m \<le> ?i" "?i \<le> hs_commit_index (mrs_hard_state m)" for e
  proof (cases "?i = Memory_SnapshotIndex m")
    case True
    then have "mrs_snapshot m \<noteq> None" using that(1) by (cases "mrs_snapshot m") (auto simp: Memory_SnapshotIndex_def)
    then show ?thesis using memory_GetTerm [OF st that(1)] True by simp
  next
    case False
    then have "Memory_HasEntry m ?i" using order.not_eq_order_implies_strict [OF _ that(2)] order_trans [OF that(3) memory_invD(4) [OF inv]]
      unfolding memory_entry(1) [OF st] by simp
    then show ?thesis using memory_GetTerm [OF st that(1)] memory_entry(3) [OF st, of ?i] False by simp
  qed
  have eq: "Memory_SaveSnapshot m s = (if snapshot_fits s (memory_durable m) then (OK, ?m) else (InvalidArgument, m))"
    using found memory_invD(6) [OF inv] unfolding fits
    by (auto simp: Memory_SaveSnapshot_def Let_def not_less split: sum.split)
  show ?thesis
  proof (cases "snapshot_fits s (memory_durable m)")
    case True
    have le: "Memory_SnapshotIndex m \<le> ?i" "?i \<le> Memory_LastLogIndex m" using True memory_invD(4) [OF inv] by (auto simp: fits)
    have es: "filter (\<lambda>entry. \<not> le_index entry \<le> ?i) (mrs_entries m) = drop (unat ?i - unat (Memory_SnapshotIndex m)) (mrs_entries m)"
      using contiguous_filter(2) [OF st, of ?i] by (simp add: not_le)
    have cont: "contiguous_from (unat ?i) (drop (unat ?i - unat (Memory_SnapshotIndex m)) (mrs_entries m))"
    proof -
      let ?k = "unat ?i - unat (Memory_SnapshotIndex m)"
      have "unat (Memory_SnapshotIndex m) + length (take ?k (mrs_entries m)) = unat ?i"
        using le memory_last [OF st] by (simp add: idx)
      then show ?thesis
        using st contiguous_append [of _ "take ?k (mrs_entries m)" "drop ?k (mrs_entries m)"] by simp
    qed
    have "unat (Memory_LastLogIndex ?m) = unat ?i + length (drop (unat ?i - unat (Memory_SnapshotIndex m)) (mrs_entries m))"
      using memory_last [of ?m] cont unfolding es by simp
    then have "unat (Memory_LastLogIndex ?m) = unat (Memory_LastLogIndex m)"
      using memory_last [OF st] le by (simp add: idx)
    then have "memory_durable ?m = (memory_durable m)
        \<lparr>du_log := du_log (memory_durable m) |` {snapshot_index (Some s)<..}, du_snapshot := Some s\<rparr>"
      using stored_log_filter [of "\<lambda>j. \<not> j \<le> ?i" "mrs_entries m"]
      by (simp add: memory_durable_def word_unat_eq_iff snapshot_index_def greaterThan_def not_le)
    then show ?thesis
      using True eq assms(2) memory_invD(1) [OF inv] cont
      by (intro memory_step [OF inv]) (auto simp: es fits)
  qed (use eq assms in simp)
qed

lemma Memory_TruncateSuffix_eq:
  assumes inv: "memory_inv m"
  shows "Memory_TruncateSuffix m i =
    (if hs_commit_index (mrs_hard_state m) < i \<and> i \<le> Memory_LastLogIndex m + 1
     then (OK, m\<lparr>mrs_entries := filter (\<lambda>e. le_index e < i) (mrs_entries m)\<rparr>) else (InvalidArgument, m))"
proof (cases "hs_commit_index (mrs_hard_state m) < i \<and> i \<le> Memory_LastLogIndex m + 1")
  case True
  note st = memory_invD(2) [OF inv]
  have lt: "Memory_SnapshotIndex m < i" using True memory_invD(3) [OF inv] by (auto intro: le_less_trans)
  have pos: "0 < i" using lt by (rule order.strict_trans1 [rotated]) simp
  have "filter (\<lambda>e. le_index e < i) (mrs_entries m) = mrs_entries m" if "\<not> i \<le> Memory_LastLogIndex m"
    unfolding contiguous_filter(1) [OF st] using that less_last_inc [of i "Memory_LastLogIndex m"] True pos memory_last [OF st]
    by (simp add: idx)
  then have "m = m\<lparr>mrs_entries := filter (\<lambda>e. le_index e < i) (mrs_entries m)\<rparr>" if "\<not> i \<le> Memory_LastLogIndex m"
    using that by simp
  then show ?thesis
    using True memory_invD [OF inv] memory_entry(2) [OF st lt] lt contiguous_filter(1) [OF st, of i]
    by (auto simp: Memory_TruncateSuffix_def not_le not_less)
qed (use memory_invD [OF inv] in \<open>auto simp: Memory_TruncateSuffix_def not_le not_less\<close>)

lemma TruncateSuffix_refines:
  assumes inv: "memory_inv m" and "Memory_TruncateSuffix m i = (st, m')"
  shows "memory_inv m' \<and> storage_spec (Op_TruncateSuffix i) (memory_durable m) = (st, memory_durable m')"
proof (cases "hs_commit_index (mrs_hard_state m) < i \<and> i \<le> Memory_LastLogIndex m + 1")
  case True
  let ?m = "m\<lparr>mrs_entries := filter (\<lambda>e. le_index e < i) (mrs_entries m)\<rparr>"
  note st = memory_invD(2) [OF inv]
  note cut = contiguous_filter(1) [OF st]
  have lt: "Memory_SnapshotIndex m < i" using True memory_invD(3) [OF inv] by (auto intro: le_less_trans)
  have pos: "0 < i" using lt by (rule order.strict_trans1 [rotated]) simp
  have cont: "contiguous_from (unat (Memory_SnapshotIndex m)) (filter (\<lambda>e. le_index e < i) (mrs_entries m))"
    unfolding cut using st contiguous_append [of _ "take (unat i - Suc (unat (Memory_SnapshotIndex m))) (mrs_entries m)"
      "drop (unat i - Suc (unat (Memory_SnapshotIndex m))) (mrs_entries m)"] by simp
  have "unat (Memory_LastLogIndex ?m) = unat (Memory_SnapshotIndex m) + length (filter (\<lambda>e. le_index e < i) (mrs_entries m))"
    using memory_last [of ?m] cont by simp
  then have "unat (Memory_LastLogIndex ?m) = unat (min (Memory_LastLogIndex m) (i - 1))"
    using memory_last [OF st] lt unat_dec [OF pos] unfolding cut by (auto simp: idx min_def)
  then have "memory_durable ?m = (memory_durable m)\<lparr>du_log := du_log (memory_durable m) |` {..<i},
      du_last := min (Memory_LastLogIndex m) (i - 1)\<rparr>"
    using stored_log_filter [of "\<lambda>j. j < i" "mrs_entries m"]
    by (simp add: memory_durable_def word_unat_eq_iff lessThan_def)
  then show ?thesis
    using True Memory_TruncateSuffix_eq [OF inv, of i] assms(2) memory_invD [OF inv] cont
    by (intro memory_step [OF inv]) (auto simp: memory_durable_def)
qed (use assms Memory_TruncateSuffix_eq [OF inv, of i] in \<open>auto simp: memory_durable_def\<close>)

lemma memory_exec_refines:
  assumes "memory_inv m" "memory_exec op m = (st, m')"
  shows "memory_inv m' \<and> storage_spec op (memory_durable m) = (st, memory_durable m')"
proof (cases op)
  case (Op_SaveHardState h)
  then show ?thesis using assms SaveHardState_refines [of m h st m'] by (simp only: memory_exec.simps)
next
  case (Op_AppendEntries es)
  then show ?thesis using assms AppendEntries_refines [of m es st m'] by (simp only: memory_exec.simps)
next
  case (Op_TruncateSuffix i)
  then show ?thesis using assms TruncateSuffix_refines [of m i st m'] by (simp only: memory_exec.simps)
next
  case (Op_SaveSnapshot s)
  then show ?thesis using assms SaveSnapshot_refines [of m s st m'] by (simp only: memory_exec.simps)
qed

lemma storage_spec_fails: "storage_spec op d = (st, d') \<Longrightarrow> st \<noteq> OK \<Longrightarrow> d' = d"
  by (cases op) (auto split: if_splits)

interpretation memory_storage: raft_storage memory_exec memory_durable memory_inv
proof
  fix m m' :: MemoryRaftStorage and op st
  assume inv: "memory_inv m"
  show "memory_exec op m = (st, m') \<Longrightarrow> memory_inv m'" using memory_exec_refines [OF inv] by blast
  show "memory_exec op m = (OK, m') \<Longrightarrow> storage_spec op (memory_durable m) = (OK, memory_durable m')"
    using memory_exec_refines [OF inv] by blast
  show "memory_exec op m = (st, m') \<Longrightarrow> st \<noteq> OK \<Longrightarrow> memory_durable m' = memory_durable m"
    using memory_exec_refines [OF inv] storage_spec_fails by blast
  show "durable_wf (memory_durable m)" using inv by (simp add: memory_inv_def)
qed

text \<open>Opening a new storage, and what \<open>Load\<close> says of it.\<close>

lemma memory_inv_open: "memory_inv (snd (Memory_Open MemoryRaftStorage_new))"
  by (simp add: memory_inv_def Memory_Open_def MemoryRaftStorage_new_def memory_durable_def durable_wf_def
      snapshot_index_def Memory_LastLogIndex_def Memory_SnapshotIndex_def HardState_default_def)

section \<open>Properties\<close>

text \<open>The answers of a sequence of writes, with the state behind them.\<close>

fun storage_answers :: "(storage_op \<Rightarrow> 's \<Rightarrow> Status \<times> 's) \<Rightarrow> storage_op list \<Rightarrow> 's \<Rightarrow> Status list" where
  "storage_answers exec [] s = []"
| "storage_answers exec (op # ops) s = fst (exec op s) # storage_answers exec ops (snd (exec op s))"

lemma memory_run_refines:
  "memory_inv m \<Longrightarrow>
     memory_inv (storage_run memory_exec ops m) \<and>
     storage_answers memory_exec ops m = storage_answers storage_spec ops (memory_durable m) \<and>
     memory_durable (storage_run memory_exec ops m) = storage_run storage_spec ops (memory_durable m)"
proof (induction ops arbitrary: m)
  case (Cons op ops)
  have "memory_exec op m = (fst (memory_exec op m), snd (memory_exec op m))" by simp
  from memory_exec_refines [OF Cons.prems this] Cons.IH [of "snd (memory_exec op m)"] show ?case by simp
qed simp

text \<open>
  The memory storage implements the contract of \<open>IRaftStorage\<close>: over any sequence of writes to a
  newly opened storage every answer is the one the contract gives, the entries \<open>Load\<close> returns are
  the log of the contract in the order of their indexes, and it reports empty exactly when nothing
  but the default is stored.
\<close>

theorem MemoryRaftStorage_refines_contract:
  "let m = snd (Memory_Open MemoryRaftStorage_new);
       m' = storage_run memory_exec ops m;
       d' = storage_run storage_spec ops Durable_new
   in storage_answers memory_exec ops m = storage_answers storage_spec ops Durable_new \<and>
      (case Memory_Load m' out of
         Inl _ \<Rightarrow> False
       | Inr r \<Rightarrow>
           lr_hard_state r = du_hard_state d' \<and> lr_snapshot r = du_snapshot d' \<and>
           stored_log (lr_entries r) = du_log d' \<and>
           contiguous_from (unat (snapshot_index (du_snapshot d'))) (lr_entries r) \<and>
           (lr_empty r \<longleftrightarrow> d' = Durable_new))"
proof -
  define m where "m = snd (Memory_Open MemoryRaftStorage_new)"
  let ?m = "storage_run memory_exec ops m"
  have new: "memory_durable m = Durable_new"
    by (simp add: m_def Memory_Open_def MemoryRaftStorage_new_def memory_durable_def Durable_new_def
        Memory_LastLogIndex_def Memory_SnapshotIndex_def)
  have inv: "memory_inv m" unfolding m_def by (rule memory_inv_open)
  note run = memory_run_refines [OF inv, of ops, unfolded new]
  have d: "storage_run storage_spec ops Durable_new = memory_durable ?m" using run by simp
  have "mrs_entries ?m = [] \<longleftrightarrow> stored_log (mrs_entries ?m) = Map.empty" by (cases "mrs_entries ?m") auto
  then have "memory_durable ?m = Durable_new \<longleftrightarrow>
      mrs_entries ?m = [] \<and> mrs_snapshot ?m = None \<and> mrs_hard_state ?m = HardState_default"
    by (auto simp: memory_durable_def Durable_new_def Memory_LastLogIndex_def Memory_SnapshotIndex_def)
  moreover have "h = HardState_default \<longleftrightarrow> hs_current_term h = kInitialTerm \<and> hs_voted_for h = kInvalidNodeId \<and>
      hs_commit_index h = kInvalidLogIndex \<and> hs_membership_configuration_id h = 0" for h :: HardState
    by (cases h) (simp add: HardState_default_def)
  ultimately show ?thesis
    using run memory_invD [of ?m] unfolding Let_def m_def [symmetric] d
    by (simp add: Memory_Load_def, simp add: memory_durable_def snapshot_index_memory)
qed

end
