(* ===== verification/File_Ops.thy ===== *)
theory File_Ops
  imports Status
begin

text \<open>
  The part of \<open>platform/file_ops.cpp\<close> the storage is built on. The operating system is a
  parameter: the outcome of every system call an operation makes, and what a failed attempt leaves
  in a temporary file. What is assumed of it is what its documentation says: a call that succeeds
  has its effect, one that fails has none on other files, and \<open>rename\<close> replaces a file whole.
\<close>

type_synonym path = string
type_synonym disk = "path \<Rightarrow> bytes option"

datatype io_call =
    Io_CreateDirectories path
  | Io_Exists path
  | Io_OpenExisting path
  | Io_OpenOrCreate path
  | Io_ReadAll path
  | Io_WriteAll path
  | Io_Flush path
  | Io_Close path
  | Io_Rename path path

record io =
  io_status :: "io_call \<Rightarrow> Status"
  io_left :: "path \<Rightarrow> bytes option"

definition io_fine :: io where
  "io_fine = \<lparr>io_status = (\<lambda>_. OK), io_left = Map.empty\<rparr>"

definition MakeAtomicReplaceTempPath :: "path \<Rightarrow> path" where
  "MakeAtomicReplaceTempPath target = target @ ''.tmp.replace''"

definition OpenOrCreate :: "io \<Rightarrow> disk \<Rightarrow> path \<Rightarrow> Status \<times> disk" where
  "OpenOrCreate io d p =
     (let status = io_status io (Io_OpenOrCreate p)
      in if \<not> ok status then (status, d)
         else (OK, d(p := (case d p of None \<Rightarrow> Some [] | Some data \<Rightarrow> Some data))))"

definition ReadAll :: "io \<Rightarrow> disk \<Rightarrow> path \<Rightarrow> Status + bytes" where
  "ReadAll io d p =
     (let status = io_status io (Io_ReadAll p)
      in if \<not> ok status then Inl status else Inr (case d p of None \<Rightarrow> [] | Some data \<Rightarrow> data))"

definition Exists :: "io \<Rightarrow> disk \<Rightarrow> path \<Rightarrow> Status + bool" where
  "Exists io d p =
     (let status = io_status io (Io_Exists p) in if \<not> ok status then Inl status else Inr (d p \<noteq> None))"

text \<open>
  The data goes to a temporary file next to the target, which is flushed, closed and renamed. On
  any failure before the rename the temporary file is removed, as far as that works.
\<close>

definition AtomicReplace :: "io \<Rightarrow> disk \<Rightarrow> path \<Rightarrow> bytes \<Rightarrow> Status \<times> disk" where
  "AtomicReplace io d target data =
     (let temp_path = MakeAtomicReplaceTempPath target;
          removed = (\<lambda>d. d(temp_path := io_left io temp_path))
      in case OpenOrCreate io d temp_path of (status, d1) \<Rightarrow>
         if \<not> ok status then (status, d1)
         else if \<not> ok (io_status io (Io_WriteAll temp_path))
           then (io_status io (Io_WriteAll temp_path), removed d1)
         else let d2 = d1(temp_path := Some data)
              in if \<not> ok (io_status io (Io_Flush temp_path))
                 then (io_status io (Io_Flush temp_path), removed d2)
                 else if \<not> ok (io_status io (Io_Close temp_path))
                 then (io_status io (Io_Close temp_path), removed d2)
                 else if \<not> ok (io_status io (Io_Rename temp_path target))
                 then (io_status io (Io_Rename temp_path target), removed d2)
                 else (OK, d2(target := d2 temp_path, temp_path := None)))"

lemma temp_path_neq [simp]:
  "MakeAtomicReplaceTempPath p \<noteq> p" "p \<noteq> MakeAtomicReplaceTempPath p"
  by (simp_all add: MakeAtomicReplaceTempPath_def)

text \<open>All or nothing: the target has the new data if the answer is OK, and the old data otherwise.\<close>

lemma AtomicReplace_target:
  assumes "AtomicReplace io d target data = (st, d')"
  shows "d' target = (if ok st then Some data else d target)"
    and "p \<noteq> target \<Longrightarrow> p \<noteq> MakeAtomicReplaceTempPath target \<Longrightarrow> d' p = d p"
  using assms
  by (auto simp: AtomicReplace_def OpenOrCreate_def Let_def split: if_splits)

lemma AtomicReplace_fine:
  "fst (AtomicReplace io_fine d target data) = OK"
  by (simp add: AtomicReplace_def OpenOrCreate_def io_fine_def)

end
