(* ===== verification/Record_Codec.thy ===== *)
theory Record_Codec
  imports Byte_Codec Checksum Raft_Storage
begin

text \<open>
  The record format of \<open>raft/file_raft_storage.cpp\<close>: a header of forty bytes with version, type,
  index, term, payload length and checksum, then the payload; little-endian throughout. The
  helpers are called with addresses of local variables only, so their null checks have no
  counterpart.
\<close>

definition kFormatVersion :: u32 where "kFormatVersion = 1"
definition kHardStateRecord :: u32 where "kHardStateRecord = 1"
definition kLogEntryRecord :: u32 where "kLogEntryRecord = 2"
definition kMaxPayloadLength :: nat where "kMaxPayloadLength = 64 * 1024 * 1024"
definition kRecordHeaderSize :: nat where "kRecordHeaderSize = 40"

section \<open>Writers\<close>

definition File_PutU32 :: "bytes \<Rightarrow> u32 \<Rightarrow> bytes" where
  "File_PutU32 data value = data @ put_le 4 value"

definition File_PutU64 :: "bytes \<Rightarrow> u64 \<Rightarrow> bytes" where
  "File_PutU64 data value = data @ put_le 8 value"

definition ChecksumInput :: "u32 \<Rightarrow> LogIndex \<Rightarrow> Term \<Rightarrow> bytes \<Rightarrow> bytes" where
  "ChecksumInput record_type index rterm payload =
     (let data1 = File_PutU32 [] kFormatVersion;
          data2 = File_PutU32 data1 record_type;
          data3 = File_PutU64 data2 index;
          data4 = File_PutU64 data3 rterm;
          data5 = File_PutU64 data4 (word_of_nat (length payload))
      in data5 @ payload)"

definition AppendRecord :: "bytes \<Rightarrow> u32 \<Rightarrow> LogIndex \<Rightarrow> Term \<Rightarrow> bytes \<Rightarrow> bytes" where
  "AppendRecord data record_type index rterm payload =
     (let checksum = Compute (ChecksumInput record_type index rterm payload);
          data1 = File_PutU32 data kFormatVersion;
          data2 = File_PutU32 data1 record_type;
          data3 = File_PutU64 data2 index;
          data4 = File_PutU64 data3 rterm;
          data5 = File_PutU64 data4 (word_of_nat (length payload));
          data6 = File_PutU64 data5 checksum
      in data6 @ payload)"

definition EncodeHardStatePayload :: "HardState \<Rightarrow> bytes" where
  "EncodeHardStatePayload h =
     File_PutU64 (File_PutU64 (File_PutU64 [] (hs_voted_for h)) (hs_commit_index h))
       (hs_membership_configuration_id h)"

text \<open>\<open>static_cast<std::uint32_t>\<close> of the enumeration, and back.\<close>

fun LogEntryType_code :: "LogEntryType \<Rightarrow> u32" where
  "LogEntryType_code NO_OP = 0"
| "LogEntryType_code COMMAND = 1"
| "LogEntryType_code MEMBERSHIP_CHANGE = 2"

definition LogEntryType_of_code :: "u32 \<Rightarrow> LogEntryType" where
  "LogEntryType_of_code c = (if c = 0 then NO_OP else if c = 1 then COMMAND else MEMBERSHIP_CHANGE)"

definition EncodeLogEntryPayload :: "LogEntry \<Rightarrow> bytes" where
  "EncodeLogEntryPayload entry = File_PutU32 [] (LogEntryType_code (le_type entry)) @ le_payload entry"

definition EncodeHardStateFile :: "HardState \<Rightarrow> bytes" where
  "EncodeHardStateFile h =
     AppendRecord [] kHardStateRecord (hs_commit_index h) (hs_current_term h) (EncodeHardStatePayload h)"

definition EncodeLogFile :: "LogEntry list \<Rightarrow> bytes" where
  "EncodeLogFile entries =
     fold (\<lambda>entry data. AppendRecord data kLogEntryRecord (le_index entry) (le_term entry)
                          (EncodeLogEntryPayload entry)) entries []"

section \<open>Readers\<close>

definition File_ReadU32 :: "u32 reader" where
  "File_ReadU32 data offset =
     (if size_sub (length data) offset < 4 then Inl Corruption else Inr (get_le 4 data offset, offset + 4))"

definition File_ReadU64 :: "u64 reader" where
  "File_ReadU64 data offset =
     (if size_sub (length data) offset < 8 then Inl Corruption else Inr (get_le 8 data offset, offset + 8))"

definition DecodeHardStatePayload :: "bytes \<Rightarrow> Term \<Rightarrow> Status + HardState" where
  "DecodeHardStatePayload payload rterm =
     (if length payload \<noteq> 24 then Inl Corruption
      else and_then (File_ReadU64 payload 0) (\<lambda>(voted_for, offset1).
           and_then (File_ReadU64 payload offset1) (\<lambda>(commit_index, offset2).
           and_then (File_ReadU64 payload offset2) (\<lambda>(membership_configuration_id, offset3).
             Inr \<lparr>hs_current_term = rterm, hs_voted_for = voted_for, hs_commit_index = commit_index,
                  hs_membership_configuration_id = membership_configuration_id\<rparr>))))"

definition DecodeLogEntryPayload :: "bytes \<Rightarrow> LogIndex \<Rightarrow> Term \<Rightarrow> Status + LogEntry" where
  "DecodeLogEntryPayload payload index rterm =
     (if length payload < 4 then Inl Corruption
      else and_then (File_ReadU32 payload 0) (\<lambda>(type, offset).
        if LogEntryType_code MEMBERSHIP_CHANGE < type then Inl Corruption
        else Inr \<lparr>le_index = index, le_term = rterm, le_type = LogEntryType_of_code type,
                  le_payload = drop offset payload\<rparr>))"

record DecodedRecord =
  dr_type :: u32
  dr_index :: LogIndex
  dr_term :: Term
  dr_payload :: bytes

text \<open>
  One round of the loop of \<open>DecodeRecords\<close>, behind the check of the header size: a record with the
  offset behind it, or nothing when the payload is not all there and an incomplete tail is allowed.
\<close>

definition decode_record :: "bool \<Rightarrow> bytes \<Rightarrow> nat \<Rightarrow> Status + (DecodedRecord \<times> nat) option" where
  "decode_record allow_incomplete_tail data offset =
     and_then (File_ReadU32 data offset) (\<lambda>(version, offset1).
     and_then (File_ReadU32 data offset1) (\<lambda>(record_type, offset2).
     and_then (File_ReadU64 data offset2) (\<lambda>(index, offset3).
     and_then (File_ReadU64 data offset3) (\<lambda>(rterm, offset4).
     and_then (File_ReadU64 data offset4) (\<lambda>(payload_length, offset5).
     and_then (File_ReadU64 data offset5) (\<lambda>(checksum, offset6).
       if version \<noteq> kFormatVersion then Inl Corruption
       else if record_type \<noteq> kHardStateRecord \<and> record_type \<noteq> kLogEntryRecord then Inl Corruption
       else if kMaxPayloadLength < unat payload_length then Inl Corruption
       else if size_sub (length data) offset6 < unat payload_length
         then (if allow_incomplete_tail then Inr None else Inl Corruption)
       else let payload = take (unat payload_length) (drop offset6 data)
            in if Compute (ChecksumInput record_type index rterm payload) \<noteq> checksum then Inl Corruption
               else Inr (Some (\<lparr>dr_type = record_type, dr_index = index, dr_term = rterm,
                                dr_payload = payload\<rparr>, offset6 + unat payload_length))))))))"

lemma decode_record_progress:
  "decode_record allow data offset = Inr (Some (r, offset')) \<Longrightarrow> offset < offset'"
  by (auto simp: decode_record_def and_then_Inr_iff File_ReadU32_def File_ReadU64_def Let_def split: if_splits)

function DecodeRecords_loop :: "bool \<Rightarrow> bytes \<Rightarrow> nat \<Rightarrow> Status + DecodedRecord list \<times> bool" where
  "DecodeRecords_loop allow_incomplete_tail data offset =
     (if \<not> offset < length data then Inr ([], False)
      else if length data - offset < kRecordHeaderSize
      then (if allow_incomplete_tail then Inr ([], True) else Inl Corruption)
      else (case decode_record allow_incomplete_tail data offset of
              Inl status \<Rightarrow> Inl status
            | Inr None \<Rightarrow> Inr ([], True)
            | Inr (Some (r, offset')) \<Rightarrow>
                and_then (DecodeRecords_loop allow_incomplete_tail data offset') (\<lambda>(rs, tail).
                  Inr (r # rs, tail))))"
  by pat_completeness auto
termination
  by (relation "measure (\<lambda>(_, data, offset). length data - offset)")
    (auto dest!: decode_record_progress)

declare DecodeRecords_loop.simps [simp del]

definition DecodeRecords :: "bool \<Rightarrow> bytes \<Rightarrow> Status + DecodedRecord list \<times> bool" where
  "DecodeRecords allow_incomplete_tail data = DecodeRecords_loop allow_incomplete_tail data 0"

section \<open>Round trips\<close>

interpretation fu32: safe_codec "put_le 4" File_ReadU32 "\<lambda>_. True"
  by unfold_locales (auto simp: File_ReadU32_def size_sub_def get_put_le split: if_splits)

interpretation fu64: safe_codec "put_le 8" File_ReadU64 "\<lambda>_. True"
  by unfold_locales (auto simp: File_ReadU64_def size_sub_def get_put_le split: if_splits)

text \<open>The bytes of one record.\<close>

definition header_bytes :: "DecodedRecord \<Rightarrow> u64 \<Rightarrow> u64 \<Rightarrow> bytes" where
  "header_bytes r payload_length checksum =
     put_le 4 kFormatVersion @ put_le 4 (dr_type r) @ put_le 8 (dr_index r) @ put_le 8 (dr_term r) @
     put_le 8 payload_length @ put_le 8 checksum"

definition record_bytes :: "DecodedRecord \<Rightarrow> bytes" where
  "record_bytes r =
     header_bytes r (word_of_nat (length (dr_payload r)))
       (Compute (ChecksumInput (dr_type r) (dr_index r) (dr_term r) (dr_payload r))) @ dr_payload r"

definition record_ok :: "DecodedRecord \<Rightarrow> bool" where
  "record_ok r \<longleftrightarrow> (dr_type r = kHardStateRecord \<or> dr_type r = kLogEntryRecord) \<and> length (dr_payload r) \<le> kMaxPayloadLength"

lemma length_header [simp]: "length (header_bytes r n c) = kRecordHeaderSize"
  by (simp add: header_bytes_def kRecordHeaderSize_def)

lemma AppendRecord_bytes:
  "AppendRecord data t i u payload =
     data @ record_bytes \<lparr>dr_type = t, dr_index = i, dr_term = u, dr_payload = payload\<rparr>"
  by (simp add: AppendRecord_def record_bytes_def header_bytes_def File_PutU32_def File_PutU64_def Let_def)

text \<open>What reading a header yields, whatever its length and checksum fields say.\<close>

lemma decode_record_header:
  assumes "offset \<le> length data" "drop offset data = header_bytes r n c @ rest"
    "dr_type r = kHardStateRecord \<or> dr_type r = kLogEntryRecord"
  shows "decode_record allow data offset =
    (if kMaxPayloadLength < unat n then Inl Corruption
     else if length rest < unat n then (if allow then Inr None else Inl Corruption)
     else if Compute (ChecksumInput (dr_type r) (dr_index r) (dr_term r) (take (unat n) rest)) \<noteq> c then Inl Corruption
     else Inr (Some (r\<lparr>dr_payload := take (unat n) rest\<rparr>, offset + kRecordHeaderSize + unat n)))"
proof -
  note d0 = assms(2) [unfolded header_bytes_def append_assoc]
  note r1 = fu32.read_rest [OF TrueI d0 assms(1)]
  note r2 = fu32.read_rest [OF TrueI r1(2,3)]
  note r3 = fu64.read_rest [OF TrueI r2(2,3)]
  note r4 = fu64.read_rest [OF TrueI r3(2,3)]
  note r5 = fu64.read_rest [OF TrueI r4(2,3)]
  note r6 = fu64.read_rest [OF TrueI r5(2,3)]
  let ?o = "offset + 4 + 4 + 8 + 8 + 8 + 8"
  have o: "drop ?o data = rest" "?o \<le> length data" using r6(2,3) by (simp_all add: add.assoc)
  then have len: "size_sub (length data) ?o = length rest" by (metis length_drop size_sub_le)
  have upd: "\<lparr>dr_type = dr_type r, dr_index = dr_index r, dr_term = dr_term r, dr_payload = p\<rparr> = r\<lparr>dr_payload := p\<rparr>" for p
    by (cases r) simp
  define bad where "bad \<longleftrightarrow> dr_type r \<noteq> kHardStateRecord \<and> dr_type r \<noteq> kLogEntryRecord"
  have t: "\<not> bad" using assms(3) by (auto simp: bad_def)
  show ?thesis
    unfolding decode_record_def
    using r1(1) r2(1) r3(1) r4(1) r5(1) r6(1) o len t
    by (simp add: kRecordHeaderSize_def upd add.assoc Let_def bad_def [symmetric])
qed

lemma decode_record_bytes:
  assumes "offset \<le> length data" "drop offset data = record_bytes r @ rest" "record_ok r"
  shows "decode_record allow data offset = Inr (Some (r, offset + length (record_bytes r)))"
proof -
  let ?n = "word_of_nat (length (dr_payload r)) :: u64"
  have n: "unat ?n = length (dr_payload r)"
    using assms(3) by (simp add: record_ok_def kMaxPayloadLength_def unat_of_nat)
  have "drop offset data = header_bytes r ?n (Compute (ChecksumInput (dr_type r) (dr_index r) (dr_term r) (dr_payload r))) @ dr_payload r @ rest"
    using assms(2) by (simp add: record_bytes_def)
  from decode_record_header [OF assms(1) this] show ?thesis
    using assms(3) by (simp add: record_ok_def n record_bytes_def)
qed

text \<open>Reading a sequence of complete records, followed by anything.\<close>

lemma DecodeRecords_records:
  assumes "offset \<le> length data" "drop offset data = concat (map record_bytes rs) @ rest" "\<forall>r \<in> set rs. record_ok r"
  shows "DecodeRecords_loop allow data offset =
    and_then (DecodeRecords_loop allow data (offset + length (concat (map record_bytes rs)))) (\<lambda>(rs', tail). Inr (rs @ rs', tail))"
  using assms
proof (induction rs arbitrary: offset)
  case Nil
  then show ?case by (cases "DecodeRecords_loop allow data offset") auto
next
  case (Cons r rs)
  let ?rest = "concat (map record_bytes rs) @ rest"
  have d: "drop offset data = record_bytes r @ ?rest" using Cons.prems by simp
  have len: "length data = offset + length (record_bytes r) + length ?rest"
    using arg_cong [OF d, of length] Cons.prems(1) by simp
  have hdr: "kRecordHeaderSize \<le> length (record_bytes r)" "record_bytes r \<noteq> []"
    by (simp_all add: record_bytes_def header_bytes_def kRecordHeaderSize_def put_le_def)
  have "DecodeRecords_loop allow data offset =
      and_then (DecodeRecords_loop allow data (offset + length (record_bytes r))) (\<lambda>(rs, tail). Inr (r # rs, tail))"
    using hdr len decode_record_bytes [OF Cons.prems(1) d, of allow] Cons.prems(3)
    by (subst DecodeRecords_loop.simps) simp
  moreover have "drop (offset + length (record_bytes r)) data = ?rest"
    using d by (metis add.commute append_eq_conv_conj drop_drop)
  ultimately show ?case
    using Cons.IH [of "offset + length (record_bytes r)"] Cons.prems(3) len
    by (cases "DecodeRecords_loop allow data (offset + length (record_bytes r) + length (concat (map record_bytes rs)))")
      (auto simp: add.assoc)
qed

lemma DecodeRecords_bytes:
  assumes "\<forall>r \<in> set rs. record_ok r"
  shows "DecodeRecords allow (concat (map record_bytes rs)) = Inr (rs, False)"
  using DecodeRecords_records [of 0 "concat (map record_bytes rs)" rs "[]" allow] assms
  by (simp add: DecodeRecords_def DecodeRecords_loop.simps [of _ _ "length _"])

text \<open>The payloads.\<close>

definition entry_record :: "LogEntry \<Rightarrow> DecodedRecord" where
  "entry_record e = \<lparr>dr_type = kLogEntryRecord, dr_index = le_index e, dr_term = le_term e, dr_payload = EncodeLogEntryPayload e\<rparr>"

definition hard_state_record :: "HardState \<Rightarrow> DecodedRecord" where
  "hard_state_record h = \<lparr>dr_type = kHardStateRecord, dr_index = hs_commit_index h, dr_term = hs_current_term h,
     dr_payload = EncodeHardStatePayload h\<rparr>"

lemma EncodeLogFile_bytes: "EncodeLogFile es = concat (map (record_bytes \<circ> entry_record) es)"
proof -
  have "fold (\<lambda>e data. AppendRecord data kLogEntryRecord (le_index e) (le_term e) (EncodeLogEntryPayload e)) es d =
      d @ concat (map (record_bytes \<circ> entry_record) es)" for d
    by (induction es arbitrary: d) (simp_all add: AppendRecord_bytes entry_record_def)
  then show ?thesis by (simp add: EncodeLogFile_def)
qed

lemma EncodeHardStateFile_bytes: "EncodeHardStateFile h = record_bytes (hard_state_record h)"
  by (simp add: EncodeHardStateFile_def AppendRecord_bytes hard_state_record_def)

lemma LogEntryType_code_inverse [simp]: "LogEntryType_of_code (LogEntryType_code t) = t"
  by (cases t) (simp_all add: LogEntryType_of_code_def)

lemma LogEntryType_code_le [simp]: "\<not> 2 < LogEntryType_code t"
  by (cases t) simp_all

lemma DecodeLogEntryPayload_put: "DecodeLogEntryPayload (EncodeLogEntryPayload e) (le_index e) (le_term e) = Inr e"
  using fu32.read_put [OF TrueI, of "[]" "LogEntryType_code (le_type e)" "le_payload e"]
  by (cases e) (simp add: DecodeLogEntryPayload_def EncodeLogEntryPayload_def File_PutU32_def)

lemma DecodeHardStatePayload_put: "DecodeHardStatePayload (EncodeHardStatePayload h) (hs_current_term h) = Inr h"
proof -
  let ?d = "EncodeHardStatePayload h"
  have d: "drop 0 ?d = put_le 8 (hs_voted_for h) @ put_le 8 (hs_commit_index h) @ put_le 8 (hs_membership_configuration_id h) @ []"
    by (simp add: EncodeHardStatePayload_def File_PutU64_def)
  note r1 = fu64.read_rest [OF TrueI d]
  note r2 = fu64.read_rest [OF TrueI r1(2,3)]
  note r3 = fu64.read_rest [OF TrueI r2(2,3)]
  have len: "length ?d = 24" using arg_cong [OF d, of length] by simp
  show ?thesis
    unfolding DecodeHardStatePayload_def using len r1(1) r2(1) r3(1) by (cases h) simp
qed

lemma length_EncodeHardStatePayload [simp]: "length (EncodeHardStatePayload h) = 24"
  by (simp add: EncodeHardStatePayload_def File_PutU64_def)

lemma length_EncodeLogEntryPayload [simp]: "length (EncodeLogEntryPayload e) = length (le_payload e) + 4"
  by (simp add: EncodeLogEntryPayload_def File_PutU32_def)

end
