(* ===== verification/File_Storage.thy ===== *)
theory File_Storage
  imports File_Ops Record_Codec Memory_Storage Raft_Snapshot
begin

text \<open>
  \<open>raft/file_raft_storage.cpp\<close>: the storage on disk. Every operation takes the outcomes of its
  system calls and the disk, and returns its status, the new object and the new disk. Each
  operation makes a given system call on a given path at most once, so a function from calls to
  outcomes covers every way an operation can fail, and a disk that a failed call leaves behind is
  one a crash at that call leaves behind.
\<close>

record FileRaftStorage =
  frs_open :: bool
  frs_hard_state_path :: path
  frs_log_path :: path
  frs_snapshot_path :: path
  frs_hard_state :: HardState
  frs_entries :: "LogEntry list"
  frs_snapshot :: "SnapshotData option"

definition FileRaftStorage_new :: FileRaftStorage where
  "FileRaftStorage_new =
     \<lparr>frs_open = False, frs_hard_state_path = [], frs_log_path = [], frs_snapshot_path = [],
      frs_hard_state = HardState_default, frs_entries = [], frs_snapshot = None\<rparr>"

definition kHardStateFileName :: string where "kHardStateFileName = ''hard_state.bin''"
definition kLogFileName :: string where "kLogFileName = ''log.bin''"
definition kSnapshotFileName :: string where "kSnapshotFileName = ''snapshot.bin''"

text \<open>\<open>operator/\<close> of \<open>std::filesystem::path\<close>, for a relative name.\<close>

definition path_join :: "path \<Rightarrow> string \<Rightarrow> path" where
  "path_join p name = (if p = [] \<or> last p = CHR ''/'' then p @ name else p @ ''/'' @ name)"

section \<open>Helpers\<close>

definition File_SameEntry :: "LogEntry \<Rightarrow> LogEntry \<Rightarrow> bool" where
  "File_SameEntry lhs rhs \<longleftrightarrow>
     le_index lhs = le_index rhs \<and> le_term lhs = le_term rhs \<and>
     le_type lhs = le_type rhs \<and> le_payload lhs = le_payload rhs"

definition File_RequireOpen :: "FileRaftStorage \<Rightarrow> Status" where
  "File_RequireOpen f = (if \<not> frs_open f then InvalidArgument else OK)"

definition File_SnapshotIndex :: "FileRaftStorage \<Rightarrow> LogIndex" where
  "File_SnapshotIndex f =
     (case frs_snapshot f of Some s \<Rightarrow> sm_last_included_index (sd_metadata s) | None \<Rightarrow> kInvalidLogIndex)"

definition File_SnapshotTerm :: "FileRaftStorage \<Rightarrow> Term" where
  "File_SnapshotTerm f =
     (case frs_snapshot f of Some s \<Rightarrow> sm_last_included_term (sd_metadata s) | None \<Rightarrow> kInitialTerm)"

definition File_FirstLogIndex :: "FileRaftStorage \<Rightarrow> LogIndex" where
  "File_FirstLogIndex f = File_SnapshotIndex f + 1"

definition File_LastLogIndex :: "FileRaftStorage \<Rightarrow> LogIndex" where
  "File_LastLogIndex f =
     (if frs_entries f = [] then File_SnapshotIndex f else le_index (last (frs_entries f)))"

definition File_HasEntry :: "FileRaftStorage \<Rightarrow> LogIndex \<Rightarrow> bool" where
  "File_HasEntry f index \<longleftrightarrow>
     frs_entries f \<noteq> [] \<and> File_FirstLogIndex f \<le> index \<and> index \<le> le_index (last (frs_entries f))"

definition File_Offset :: "FileRaftStorage \<Rightarrow> LogIndex \<Rightarrow> nat" where
  "File_Offset f index = unat (index - File_FirstLogIndex f)"

definition File_GetTerm :: "FileRaftStorage \<Rightarrow> LogIndex \<Rightarrow> out_ptr \<Rightarrow> Status + Term" where
  "File_GetTerm f index term_ptr =
     (if \<not> ok (require_out term_ptr) then Inl (require_out term_ptr)
      else if index = kInvalidLogIndex then Inr kInitialTerm
      else if frs_snapshot f \<noteq> None \<and> index = File_SnapshotIndex f then Inr (File_SnapshotTerm f)
      else if \<not> File_HasEntry f index then Inl NotFound
      else Inr (le_term (frs_entries f ! File_Offset f index)))"

definition LastIndex :: "SnapshotData option \<Rightarrow> LogEntry list \<Rightarrow> LogIndex" where
  "LastIndex snapshot entries =
     (if entries \<noteq> [] then le_index (last entries)
      else case snapshot of Some s \<Rightarrow> sm_last_included_index (sd_metadata s) | None \<Rightarrow> kInvalidLogIndex)"

definition ValidateHardState :: "FileRaftStorage \<Rightarrow> HardState \<Rightarrow> Status" where
  "ValidateHardState f hard_state =
     (if hs_current_term hard_state < hs_current_term (frs_hard_state f) then InvalidArgument
      else if hs_commit_index hard_state < hs_commit_index (frs_hard_state f) then InvalidArgument
      else if File_LastLogIndex f < hs_commit_index hard_state then InvalidArgument
      else OK)"

fun File_ValidateEntryBatch_loop :: "LogIndex \<Rightarrow> LogEntry option \<Rightarrow> LogEntry list \<Rightarrow> Status" where
  "File_ValidateEntryBatch_loop snapshot previous [] = OK"
| "File_ValidateEntryBatch_loop snapshot previous (entry # entries) =
     (if le_index entry \<le> snapshot then InvalidArgument
      else if le_term entry = kInitialTerm then InvalidArgument
      else if kMaxPayloadLength < length (le_payload entry) + 4 then InvalidArgument
      else if (case previous of None \<Rightarrow> False | Some p \<Rightarrow> le_index entry \<noteq> le_index p + 1) then InvalidArgument
      else File_ValidateEntryBatch_loop snapshot (Some entry) entries)"

definition File_ValidateEntryBatch :: "FileRaftStorage \<Rightarrow> LogEntry list \<Rightarrow> Status" where
  "File_ValidateEntryBatch f entries =
     (if entries = [] then OK
      else let status = File_ValidateEntryBatch_loop (File_SnapshotIndex f) None entries
           in if \<not> ok status then status
              else if File_LastLogIndex f + 1 < le_index (hd entries) then InvalidArgument
              else OK)"

definition ValidateSnapshot :: "FileRaftStorage \<Rightarrow> SnapshotData \<Rightarrow> Status" where
  "ValidateSnapshot f snapshot =
     (let index = sm_last_included_index (sd_metadata snapshot);
          snap_term = sm_last_included_term (sd_metadata snapshot)
      in if index = kInvalidLogIndex then InvalidArgument
         else if snap_term = kInitialTerm then InvalidArgument
         else if index < File_SnapshotIndex f then InvalidArgument
         else if hs_commit_index (frs_hard_state f) < index then InvalidArgument
         else (case File_GetTerm f index out of
                 Inl status \<Rightarrow> status
               | Inr stored_term \<Rightarrow> if stored_term \<noteq> snap_term then InvalidArgument else OK))"

section \<open>Reading the files\<close>

definition ReadFileIfPresent :: "io \<Rightarrow> disk \<Rightarrow> path \<Rightarrow> Status + bytes \<times> bool" where
  "ReadFileIfPresent io d p =
     and_then (Exists io d p) (\<lambda>exists.
       if \<not> exists then Inr ([], False)
       else if \<not> ok (io_status io (Io_OpenExisting p)) then Inl (io_status io (Io_OpenExisting p))
       else and_then (ReadAll io d p) (\<lambda>data. Inr (data, True)))"

definition load_snapshot :: "io \<Rightarrow> disk \<Rightarrow> path \<Rightarrow> Status + SnapshotData option" where
  "load_snapshot io d p =
     and_then (ReadFileIfPresent io d p) (\<lambda>(data, exists).
       if exists then and_then (DecodeSnapshotData data out) (\<lambda>s. Inr (Some s)) else Inr None)"

definition load_hard_state :: "io \<Rightarrow> disk \<Rightarrow> path \<Rightarrow> Status + HardState" where
  "load_hard_state io d p =
     and_then (ReadFileIfPresent io d p) (\<lambda>(data, _).
       if data = [] then Inr HardState_default
       else and_then (DecodeRecords False data) (\<lambda>(records, _).
         if length records \<noteq> 1 \<or> dr_type (hd records) \<noteq> kHardStateRecord then Inl Corruption
         else and_then (DecodeHardStatePayload (dr_payload (hd records)) (dr_term (hd records))) (\<lambda>hard_state.
           if dr_index (hd records) \<noteq> hs_commit_index hard_state then Inl Corruption else Inr hard_state)))"

text \<open>The loop over the records of the log file.\<close>

fun load_entries :: "LogIndex \<Rightarrow> DecodedRecord list \<Rightarrow> LogEntry list \<Rightarrow> Status + LogEntry list" where
  "load_entries snapshot [] entries = Inr entries"
| "load_entries snapshot (r # records) entries =
     (if dr_type r \<noteq> kLogEntryRecord then Inl Corruption
      else if dr_index r = kInvalidLogIndex \<or> dr_term r = kInitialTerm then Inl Corruption
      else and_then (DecodeLogEntryPayload (dr_payload r) (dr_index r) (dr_term r)) (\<lambda>entry.
        if le_index entry \<le> snapshot then load_entries snapshot records entries
        else if entries \<noteq> [] \<and> le_index entry \<noteq> le_index (last entries) + 1 then Inl Corruption
        else if entries = [] \<and> le_index entry \<noteq> snapshot + 1 then Inl Corruption
        else load_entries snapshot records (entries @ [entry])))"

definition load_log :: "io \<Rightarrow> disk \<Rightarrow> path \<Rightarrow> LogIndex \<Rightarrow> Status + LogEntry list \<times> bool" where
  "load_log io d p snapshot =
     and_then (ReadFileIfPresent io d p) (\<lambda>(data, _).
       if data = [] then Inr ([], False)
       else and_then (DecodeRecords True data) (\<lambda>(records, had_incomplete_tail).
         and_then (load_entries snapshot records []) (\<lambda>entries. Inr (entries, had_incomplete_tail))))"

text \<open>A log with an incomplete tail is rewritten without it before the last checks.\<close>

definition LoadFromDisk ::
  "io \<Rightarrow> FileRaftStorage \<Rightarrow> disk \<Rightarrow> (Status + HardState \<times> LogEntry list \<times> SnapshotData option) \<times> disk" where
  "LoadFromDisk io f d =
     (case load_snapshot io d (frs_snapshot_path f) of
        Inl status \<Rightarrow> (Inl status, d)
      | Inr snapshot \<Rightarrow>
     (case load_hard_state io d (frs_hard_state_path f) of
        Inl status \<Rightarrow> (Inl status, d)
      | Inr hard_state \<Rightarrow>
     (case load_log io d (frs_log_path f)
             (case snapshot of Some s \<Rightarrow> sm_last_included_index (sd_metadata s) | None \<Rightarrow> kInvalidLogIndex) of
        Inl status \<Rightarrow> (Inl status, d)
      | Inr (entries, had_incomplete_tail) \<Rightarrow>
     (case (if had_incomplete_tail then AtomicReplace io d (frs_log_path f) (EncodeLogFile entries)
            else (OK, d)) of
        (status, d1) \<Rightarrow>
          if \<not> ok status then (Inl status, d1)
          else if LastIndex snapshot entries < hs_commit_index hard_state then (Inl Corruption, d1)
          else if (case snapshot of
                     Some s \<Rightarrow> hs_commit_index hard_state < sm_last_included_index (sd_metadata s)
                   | None \<Rightarrow> False) then (Inl Corruption, d1)
          else (Inr (hard_state, entries, snapshot), d1)))))"

section \<open>Operations\<close>

definition File_Open :: "io \<Rightarrow> FileRaftStorage \<Rightarrow> path \<Rightarrow> disk \<Rightarrow> Status \<times> FileRaftStorage \<times> disk" where
  "File_Open io f storage_path d =
     (if storage_path = [] then (InvalidArgument, f, d)
      else if \<not> ok (io_status io (Io_CreateDirectories storage_path))
        then (io_status io (Io_CreateDirectories storage_path), f, d)
      else let f1 = f\<lparr>frs_hard_state_path := path_join storage_path kHardStateFileName,
                      frs_log_path := path_join storage_path kLogFileName,
                      frs_snapshot_path := path_join storage_path kSnapshotFileName\<rparr>
           in (case OpenOrCreate io d (frs_hard_state_path f1) of (status, d1) \<Rightarrow>
             if \<not> ok status then (status, f1, d1)
             else if \<not> ok (io_status io (Io_Close (frs_hard_state_path f1)))
               then (io_status io (Io_Close (frs_hard_state_path f1)), f1, d1)
             else (case OpenOrCreate io d1 (frs_log_path f1) of (status, d2) \<Rightarrow>
             if \<not> ok status then (status, f1, d2)
             else if \<not> ok (io_status io (Io_Close (frs_log_path f1)))
               then (io_status io (Io_Close (frs_log_path f1)), f1, d2)
             else (case LoadFromDisk io f1 d2 of
                     (Inl status, d3) \<Rightarrow> (status, f1\<lparr>frs_open := False\<rparr>, d3)
                   | (Inr (hard_state, entries, snapshot), d3) \<Rightarrow>
                       (OK, f1\<lparr>frs_hard_state := hard_state, frs_entries := entries,
                               frs_snapshot := snapshot, frs_open := True\<rparr>, d3)))))"

definition File_Load :: "io \<Rightarrow> FileRaftStorage \<Rightarrow> out_ptr \<Rightarrow> disk \<Rightarrow> (Status + RaftStorageLoadResult) \<times> disk" where
  "File_Load io f result d =
     (if \<not> ok (File_RequireOpen f) then (Inl (File_RequireOpen f), d)
      else if \<not> ok (require_out result) then (Inl (require_out result), d)
      else (case LoadFromDisk io f d of
              (Inl status, d1) \<Rightarrow> (Inl status, d1)
            | (Inr (hard_state, entries, snapshot), d1) \<Rightarrow>
                (Inr \<lparr>lr_hard_state = hard_state, lr_entries = entries, lr_snapshot = snapshot,
                      lr_empty = (entries = [] \<and> snapshot = None \<and>
                        hs_current_term hard_state = kInitialTerm \<and>
                        hs_voted_for hard_state = kInvalidNodeId \<and>
                        hs_commit_index hard_state = kInvalidLogIndex \<and>
                        hs_membership_configuration_id hard_state = 0)\<rparr>, d1)))"

definition File_SaveHardState ::
  "io \<Rightarrow> FileRaftStorage \<Rightarrow> HardState \<Rightarrow> disk \<Rightarrow> Status \<times> FileRaftStorage \<times> disk" where
  "File_SaveHardState io f hard_state d =
     (if \<not> ok (File_RequireOpen f) then (File_RequireOpen f, f, d)
      else if \<not> ok (ValidateHardState f hard_state) then (ValidateHardState f hard_state, f, d)
      else (case AtomicReplace io d (frs_hard_state_path f) (EncodeHardStateFile hard_state) of
              (status, d1) \<Rightarrow> if \<not> ok status then (status, f, d1)
                              else (OK, f\<lparr>frs_hard_state := hard_state\<rparr>, d1)))"

fun File_skip_stored :: "FileRaftStorage \<Rightarrow> LogIndex \<Rightarrow> LogEntry list \<Rightarrow> Status + LogEntry list" where
  "File_skip_stored f last_log_index [] = Inr []"
| "File_skip_stored f last_log_index (entry # entries) =
     (if le_index entry \<le> last_log_index
      then if \<not> File_HasEntry f (le_index entry) \<or>
              \<not> File_SameEntry (frs_entries f ! File_Offset f (le_index entry)) entry
           then Inl InvalidArgument
           else File_skip_stored f last_log_index entries
      else Inr (entry # entries))"

definition File_AppendEntries ::
  "io \<Rightarrow> FileRaftStorage \<Rightarrow> LogEntry list \<Rightarrow> disk \<Rightarrow> Status \<times> FileRaftStorage \<times> disk" where
  "File_AppendEntries io f entries d =
     (if \<not> ok (File_RequireOpen f) then (File_RequireOpen f, f, d)
      else let status = File_ValidateEntryBatch f entries
           in if \<not> ok status \<or> entries = [] then (status, f, d)
              else let last_log_index = File_LastLogIndex f
                   in (case (if le_index (hd entries) \<le> last_log_index
                             then File_skip_stored f last_log_index entries else Inr entries) of
                         Inl s \<Rightarrow> (s, f, d)
                       | Inr appended \<Rightarrow>
                           if appended = [] then (OK, f, d)
                           else let next_entries = frs_entries f @ appended
                                in (case AtomicReplace io d (frs_log_path f) (EncodeLogFile next_entries) of
                                      (status, d1) \<Rightarrow>
                                        if \<not> ok status then (status, f, d1)
                                        else (OK, f\<lparr>frs_entries := next_entries\<rparr>, d1))))"

definition File_TruncateSuffix ::
  "io \<Rightarrow> FileRaftStorage \<Rightarrow> LogIndex \<Rightarrow> disk \<Rightarrow> Status \<times> FileRaftStorage \<times> disk" where
  "File_TruncateSuffix io f first d =
     (if \<not> ok (File_RequireOpen f) then (File_RequireOpen f, f, d)
      else if first \<le> hs_commit_index (frs_hard_state f) then (InvalidArgument, f, d)
      else if File_LastLogIndex f + 1 < first then (InvalidArgument, f, d)
      else if File_LastLogIndex f < first then (OK, f, d)
      else let next_entries = filter (\<lambda>entry. le_index entry < first) (frs_entries f)
           in (case AtomicReplace io d (frs_log_path f) (EncodeLogFile next_entries) of
                 (status, d1) \<Rightarrow> if \<not> ok status then (status, f, d1)
                                 else (OK, f\<lparr>frs_entries := next_entries\<rparr>, d1)))"

definition File_SaveSnapshot ::
  "io \<Rightarrow> FileRaftStorage \<Rightarrow> SnapshotData \<Rightarrow> disk \<Rightarrow> Status \<times> FileRaftStorage \<times> disk" where
  "File_SaveSnapshot io f snapshot d =
     (if \<not> ok (File_RequireOpen f) then (File_RequireOpen f, f, d)
      else if \<not> ok (ValidateSnapshot f snapshot) then (ValidateSnapshot f snapshot, f, d)
      else (case EncodeSnapshotData snapshot out of
              Inl status \<Rightarrow> (status, f, d)
            | Inr snapshot_bytes \<Rightarrow>
                let next_entries = filter (\<lambda>entry. sm_last_included_index (sd_metadata snapshot) < le_index entry)
                      (frs_entries f)
                in (case AtomicReplace io d (frs_snapshot_path f) snapshot_bytes of
                      (status, d1) \<Rightarrow>
                        if \<not> ok status then (status, f, d1)
                        else (case AtomicReplace io d1 (frs_log_path f) (EncodeLogFile next_entries) of
                                (status, d2) \<Rightarrow>
                                  if \<not> ok status then (status, f, d2)
                                  else (OK, f\<lparr>frs_snapshot := Some snapshot, frs_entries := next_entries\<rparr>, d2)))))"

end
