(* ===== verification/File_Recovery.thy ===== *)
theory File_Recovery
  imports File_Storage
begin

text \<open>
  The file storage keeps the contract of \<open>IRaftStorage\<close> whatever system calls fail, and what is on
  disk at any moment, in the middle of an operation too, can be opened again without losing
  anything that was acknowledged.
\<close>

section \<open>The file storage behaves like the memory storage\<close>

definition mem_of :: "FileRaftStorage \<Rightarrow> MemoryRaftStorage" where
  "mem_of f =
     \<lparr>mrs_open = frs_open f, mrs_hard_state = frs_hard_state f, mrs_entries = frs_entries f,
      mrs_snapshot = frs_snapshot f\<rparr>"

lemma mem_of_sel [simp]:
  "mrs_open (mem_of f) = frs_open f" "mrs_hard_state (mem_of f) = frs_hard_state f"
  "mrs_entries (mem_of f) = frs_entries f" "mrs_snapshot (mem_of f) = frs_snapshot f"
  by (simp_all add: mem_of_def)

lemma mem_of_upd [simp]:
  "mem_of (f\<lparr>frs_hard_state := h\<rparr>) = (mem_of f)\<lparr>mrs_hard_state := h\<rparr>"
  "mem_of (f\<lparr>frs_entries := es\<rparr>) = (mem_of f)\<lparr>mrs_entries := es\<rparr>"
  "mem_of (f\<lparr>frs_snapshot := s\<rparr>) = (mem_of f)\<lparr>mrs_snapshot := s\<rparr>"
  by (simp_all add: mem_of_def)

lemma helpers_eq:
  "File_RequireOpen f = Memory_RequireOpen (mem_of f)"
  "File_SnapshotIndex f = Memory_SnapshotIndex (mem_of f)"
  "File_SnapshotTerm f = Memory_SnapshotTerm (mem_of f)"
  "File_FirstLogIndex f = Memory_FirstLogIndex (mem_of f)"
  "File_LastLogIndex f = Memory_LastLogIndex (mem_of f)"
  "File_HasEntry f i = Memory_HasEntry (mem_of f) i"
  "File_Offset f i = Memory_Offset (mem_of f) i"
  "File_GetTerm f i p = Memory_GetTerm (mem_of f) i p"
  "File_SameEntry x y = SameEntry x y"
  "File_skip_stored f n es = Memory_skip_stored (mem_of f) n es"
proof -
  show 1: "File_RequireOpen f = Memory_RequireOpen (mem_of f)" by (simp add: File_RequireOpen_def Memory_RequireOpen_def)
  show 2: "File_SnapshotIndex f = Memory_SnapshotIndex (mem_of f)" by (simp add: File_SnapshotIndex_def Memory_SnapshotIndex_def)
  show 3: "File_SnapshotTerm f = Memory_SnapshotTerm (mem_of f)" by (simp add: File_SnapshotTerm_def Memory_SnapshotTerm_def)
  show 4: "File_FirstLogIndex f = Memory_FirstLogIndex (mem_of f)" by (simp add: File_FirstLogIndex_def Memory_FirstLogIndex_def 2)
  show 5: "File_LastLogIndex f = Memory_LastLogIndex (mem_of f)" by (simp add: File_LastLogIndex_def Memory_LastLogIndex_def 2)
  show 6: "File_HasEntry f i = Memory_HasEntry (mem_of f) i" for i
    by (auto simp: File_HasEntry_def Memory_HasEntry_def 4 Memory_LastLogIndex_def)
  show 7: "File_Offset f i = Memory_Offset (mem_of f) i" for i by (simp add: File_Offset_def Memory_Offset_def 4)
  show "File_GetTerm f i p = Memory_GetTerm (mem_of f) i p" by (simp add: File_GetTerm_def Memory_GetTerm_def 2 3 6 7)
  show 8: "File_SameEntry x y = SameEntry x y" for x y by (simp only: File_SameEntry_def SameEntry_def)
  show "File_skip_stored f n es = Memory_skip_stored (mem_of f) n es"
    by (induction es) (simp_all add: 6 7 8)
qed

text \<open>The batch check is that of the memory storage, with a limit on the payloads.\<close>

definition small_entries :: "LogEntry list \<Rightarrow> bool" where
  "small_entries es \<longleftrightarrow> (\<forall>e \<in> set es. length (le_payload e) + 4 \<le> kMaxPayloadLength)"

lemma File_ValidateEntryBatch_loop_eq:
  "File_ValidateEntryBatch_loop s p es = OK \<longleftrightarrow> Memory_ValidateEntryBatch_loop s p es = OK \<and> small_entries es"
  by (induction es arbitrary: p) (auto simp: small_entries_def)

lemma File_ValidateEntryBatch_OK:
  "File_ValidateEntryBatch f es = OK \<longleftrightarrow> Memory_ValidateEntryBatch (mem_of f) es = OK \<and> small_entries es"
  by (auto simp: File_ValidateEntryBatch_def Memory_ValidateEntryBatch_def Let_def helpers_eq
      File_ValidateEntryBatch_loop_eq small_entries_def)

section \<open>What is on disk\<close>

text \<open>
  The disk holds the hard state and the entries of the object, maybe behind some that its snapshot
  already covers, and its snapshot or a newer one that fits: the one of a call that failed, or
  crashed, between the two files.
\<close>

definition snapshot_file :: "SnapshotData \<Rightarrow> bytes" where
  "snapshot_file s = snapshot_body s @ put_le 8 (Compute (snapshot_body s))"

definition file_paths :: "path \<Rightarrow> FileRaftStorage \<Rightarrow> bool" where
  "file_paths dir f \<longleftrightarrow>
     frs_hard_state_path f = path_join dir kHardStateFileName \<and> frs_log_path f = path_join dir kLogFileName \<and>
     frs_snapshot_path f = path_join dir kSnapshotFileName"

lemma paths_distinct [simp]:
  "path_join dir kHardStateFileName \<noteq> path_join dir kLogFileName"
  "path_join dir kLogFileName \<noteq> path_join dir kHardStateFileName"
  "path_join dir kHardStateFileName \<noteq> path_join dir kSnapshotFileName"
  "path_join dir kSnapshotFileName \<noteq> path_join dir kHardStateFileName"
  "path_join dir kLogFileName \<noteq> path_join dir kSnapshotFileName"
  "path_join dir kSnapshotFileName \<noteq> path_join dir kLogFileName"
  "path_join dir kHardStateFileName \<noteq> MakeAtomicReplaceTempPath (path_join dir kLogFileName)"
  "path_join dir kHardStateFileName \<noteq> MakeAtomicReplaceTempPath (path_join dir kSnapshotFileName)"
  "path_join dir kLogFileName \<noteq> MakeAtomicReplaceTempPath (path_join dir kHardStateFileName)"
  "path_join dir kLogFileName \<noteq> MakeAtomicReplaceTempPath (path_join dir kSnapshotFileName)"
  "path_join dir kSnapshotFileName \<noteq> MakeAtomicReplaceTempPath (path_join dir kLogFileName)"
  "path_join dir kSnapshotFileName \<noteq> MakeAtomicReplaceTempPath (path_join dir kHardStateFileName)"
  by (simp_all add: path_join_def kHardStateFileName_def kLogFileName_def kSnapshotFileName_def
      MakeAtomicReplaceTempPath_def)

definition disk_holds :: "path \<Rightarrow> disk \<Rightarrow> HardState \<Rightarrow> LogEntry list \<Rightarrow> SnapshotData option \<Rightarrow> bool" where
  "disk_holds dir d h es s \<longleftrightarrow>
     (d (path_join dir kHardStateFileName) = Some (EncodeHardStateFile h) \<or>
      d (path_join dir kHardStateFileName) = Some [] \<and> h = HardState_default) \<and>
     d (path_join dir kLogFileName) = Some (EncodeLogFile es) \<and>
     d (path_join dir kSnapshotFileName) = map_option snapshot_file s"

definition log_on_disk :: "LogIndex \<Rightarrow> LogEntry list \<Rightarrow> LogEntry list \<Rightarrow> bool" where
  "log_on_disk snap les es \<longleftrightarrow>
     (\<exists>n. contiguous_from n les \<and> n \<le> unat snap \<and> unat snap \<le> n + length les) \<and>
     small_entries les \<and> es = filter (\<lambda>e. snap < le_index e) les"

definition file_rel :: "path \<Rightarrow> SnapshotData option \<Rightarrow> FileRaftStorage \<Rightarrow> disk \<Rightarrow> bool" where
  "file_rel dir ds f d \<longleftrightarrow>
     memory_inv (mem_of f) \<and> file_paths dir f \<and>
     (\<exists>les. disk_holds dir d (frs_hard_state f) les ds \<and> log_on_disk (File_SnapshotIndex f) les (frs_entries f)) \<and>
     (ds = frs_snapshot f \<or> (\<exists>s. ds = Some s \<and> snapshot_fits s (memory_durable (mem_of f)))) \<and>
     (\<forall>s. ds = Some s \<longrightarrow> snapshot_encodable s)"

text \<open>One write, with the outcomes of its system calls.\<close>

fun file_op :: "io \<Rightarrow> storage_op \<Rightarrow> FileRaftStorage \<Rightarrow> disk \<Rightarrow> Status \<times> FileRaftStorage \<times> disk" where
  "file_op io (Op_SaveHardState h) f d = File_SaveHardState io f h d"
| "file_op io (Op_AppendEntries es) f d = File_AppendEntries io f es d"
| "file_op io (Op_TruncateSuffix i) f d = File_TruncateSuffix io f i d"
| "file_op io (Op_SaveSnapshot s) f d = File_SaveSnapshot io f s d"

definition file_step_ok :: "path \<Rightarrow> SnapshotData option \<Rightarrow> storage_op \<Rightarrow> FileRaftStorage \<Rightarrow> Status \<times> FileRaftStorage \<times> disk \<Rightarrow> bool" where
  "file_step_ok dir ds op f r \<longleftrightarrow>
     (case r of (st, f', d') \<Rightarrow>
        (\<exists>ds'. file_rel dir ds' f' d' \<and> (ds' = ds \<or> (\<exists>s. op = Op_SaveSnapshot s \<and> ds' = Some s))) \<and>
        (if st = OK then memory_exec op (mem_of f) = (OK, mem_of f') else f' = f))"

lemma file_relD:
  assumes "file_rel dir ds f d"
  shows "memory_inv (mem_of f)" "file_paths dir f" "small_entries (frs_entries f)"
    "\<exists>les. disk_holds dir d (frs_hard_state f) les ds \<and> log_on_disk (File_SnapshotIndex f) les (frs_entries f)"
    "ds = frs_snapshot f \<or> (\<exists>s. ds = Some s \<and> snapshot_fits s (memory_durable (mem_of f)))"
    "ds = Some s \<Longrightarrow> snapshot_encodable s"
  using assms by (auto simp: file_rel_def log_on_disk_def small_entries_def)

lemma log_on_disk_self:
  "contiguous_from (unat snap) es \<Longrightarrow> small_entries es \<Longrightarrow> log_on_disk snap es es"
  using contiguous_filter(2) [of "unat snap" es snap] by (auto simp: log_on_disk_def)

text \<open>A newer snapshot keeps fitting while the object goes on without it.\<close>

lemma snapshot_fits_mono:
  assumes "durable_le d d'" "du_snapshot d' = du_snapshot d" "snapshot_fits s d"
  shows "snapshot_fits s d'"
  using assms unfolding snapshot_fits_def durable_le_def Let_def
  by (auto split: if_splits)

lemma disk_holds_replace:
  assumes "disk_holds dir d h es s"
  shows "AtomicReplace io d (path_join dir kHardStateFileName) (EncodeHardStateFile h') = (st, d') \<Longrightarrow>
      disk_holds dir d' (if st = OK then h' else h) es s"
    and "AtomicReplace io d (path_join dir kLogFileName) (EncodeLogFile es') = (st, d') \<Longrightarrow>
      disk_holds dir d' h (if st = OK then es' else es) s"
    and "AtomicReplace io d (path_join dir kSnapshotFileName) (snapshot_file s') = (st, d') \<Longrightarrow>
      disk_holds dir d' h es (if st = OK then Some s' else s)"
proof -
  show "disk_holds dir d' (if st = OK then h' else h) es s"
    if "AtomicReplace io d (path_join dir kHardStateFileName) (EncodeHardStateFile h') = (st, d')"
    using assms AtomicReplace_target [OF that] by (simp add: disk_holds_def)
  show "disk_holds dir d' h (if st = OK then es' else es) s"
    if "AtomicReplace io d (path_join dir kLogFileName) (EncodeLogFile es') = (st, d')"
    using assms AtomicReplace_target [OF that] by (simp add: disk_holds_def)
  show "disk_holds dir d' h es (if st = OK then Some s' else s)"
    if "AtomicReplace io d (path_join dir kSnapshotFileName) (snapshot_file s') = (st, d')"
    using assms AtomicReplace_target [OF that] by (simp add: disk_holds_def)
qed

lemma file_step_fail:
  "file_rel dir ds f d \<Longrightarrow> st \<noteq> OK \<Longrightarrow> disk_holds dir d' (frs_hard_state f) les ds \<Longrightarrow>
     log_on_disk (File_SnapshotIndex f) les (frs_entries f) \<Longrightarrow> file_step_ok dir ds op f (st, f, d')"
  by (auto simp: file_step_ok_def file_rel_def)

lemma memory_exec_le:
  assumes "memory_inv m" "memory_exec op m = (OK, m')"
  shows "memory_inv m'" "durable_le (memory_durable m) (memory_durable m')"
  using memory_exec_refines [OF assms] storage_spec_le [of "memory_durable m" op] assms(1)
  by (auto simp: memory_inv_def)

lemma File_SnapshotIndex_upd [simp]:
  "File_SnapshotIndex (f\<lparr>frs_entries := es\<rparr>) = File_SnapshotIndex f"
  "File_SnapshotIndex (f\<lparr>frs_hard_state := h\<rparr>) = File_SnapshotIndex f"
  by (simp_all add: File_SnapshotIndex_def)

lemma fresh_log:
  assumes "memory_inv (mem_of f)" "memory_exec op (mem_of f) = (OK, mem_of f')" "small_entries (frs_entries f')"
  shows "log_on_disk (File_SnapshotIndex f') (frs_entries f') (frs_entries f')"
  using memory_invD(2) [OF memory_exec_le(1) [OF assms(1,2)]] assms(3)
  by (intro log_on_disk_self) (simp_all add: helpers_eq)

lemma file_step_keep:
  assumes "file_rel dir ds f d" "memory_exec op (mem_of f) = (OK, mem_of f')" "file_paths dir f'"
    and "disk_holds dir d' (frs_hard_state f') les ds" "log_on_disk (File_SnapshotIndex f') les (frs_entries f')"
    and "frs_snapshot f' = frs_snapshot f"
  shows "file_step_ok dir ds op f (OK, f', d')"
proof -
  note r = file_relD [OF assms(1)] and m = memory_exec_le [OF file_relD(1) [OF assms(1)] assms(2)]
  have "snapshot_fits s (memory_durable (mem_of f'))" if "snapshot_fits s (memory_durable (mem_of f))" for s
    using snapshot_fits_mono [OF m(2) _ that] assms(6) by (simp add: memory_durable_def)
  then have "file_rel dir ds f' d'"
    using r m(1) assms(3-) unfolding file_rel_def by auto
  then show ?thesis using assms(2) by (auto simp: file_step_ok_def)
qed

lemma SaveHardState_step:
  assumes r: "file_rel dir ds f d"
  shows "file_step_ok dir ds (Op_SaveHardState h) f (File_SaveHardState io f h d)"
proof -
  note R = file_relD [OF r] and inv = memory_invD [OF file_relD(1) [OF r]]
  obtain les where H: "disk_holds dir d (frs_hard_state f) les ds" and L: "log_on_disk (File_SnapshotIndex f) les (frs_entries f)"
    using R(4) by blast
  have opn: "File_RequireOpen f = OK" using inv(6) by (simp add: helpers_eq)
  show ?thesis
  proof (cases "ok (ValidateHardState f h)")
    case False
    then show ?thesis using file_step_fail [OF r False H L] opn by (simp add: File_SaveHardState_def)
  next
    case True
    obtain st d1 where a: "AtomicReplace io d (frs_hard_state_path f) (EncodeHardStateFile h) = (st, d1)"
      by fastforce
    have holds: "disk_holds dir d1 (if st = OK then h else frs_hard_state f) les ds"
      using disk_holds_replace(1) [OF H] a R(2) by (simp add: file_paths_def)
    have "Memory_SaveHardState (mem_of f) h = (OK, mem_of (f\<lparr>frs_hard_state := h\<rparr>))"
      using True inv(6) by (auto simp: Memory_SaveHardState_def ValidateHardState_def helpers_eq split: if_splits)
    then have "file_step_ok dir ds (Op_SaveHardState h) f (OK, f\<lparr>frs_hard_state := h\<rparr>, d1)" if "st = OK"
      using holds R(2) L that by (intro file_step_keep [OF r]) (simp_all add: file_paths_def)
    then show ?thesis
      using file_step_fail [OF r _ _ L, of st d1] holds opn True a by (auto simp: File_SaveHardState_def)
  qed
qed

lemma TruncateSuffix_step:
  assumes r: "file_rel dir ds f d"
  shows "file_step_ok dir ds (Op_TruncateSuffix i) f (File_TruncateSuffix io f i d)"
proof -
  note R = file_relD [OF r] and inv = memory_invD [OF file_relD(1) [OF r]]
  obtain les where H: "disk_holds dir d (frs_hard_state f) les ds" and L: "log_on_disk (File_SnapshotIndex f) les (frs_entries f)"
    using R(4) by blast
  have opn: "File_RequireOpen f = OK" using inv(6) by (simp add: helpers_eq)
  let ?f = "f\<lparr>frs_entries := filter (\<lambda>e. le_index e < i) (frs_entries f)\<rparr>"
  note mem = Memory_TruncateSuffix_eq [OF R(1), of i, folded helpers_eq]
  show ?thesis
  proof (cases "hs_commit_index (frs_hard_state f) < i \<and> i \<le> File_LastLogIndex f + 1")
    case False
    then show ?thesis
      using file_step_fail [OF r _ H L, of InvalidArgument] opn by (auto simp: File_TruncateSuffix_def not_le not_less)
  next
    case True
    obtain st d1 where a: "AtomicReplace io d (frs_log_path f) (EncodeLogFile (frs_entries ?f)) = (st, d1)"
      by fastforce
    have holds: "disk_holds dir d1 (frs_hard_state f) (if st = OK then frs_entries ?f else les) ds"
      using disk_holds_replace(2) [OF H] a R(2) by (simp add: file_paths_def)
    have m: "memory_exec (Op_TruncateSuffix i) (mem_of f) = (OK, mem_of ?f)" using True mem by simp
    have small: "small_entries (frs_entries ?f)" using R(3) by (simp add: small_entries_def)
    have OK: "file_step_ok dir ds (Op_TruncateSuffix i) f (OK, ?f, d1)" if "st = OK"
      using holds R(2) fresh_log [OF R(1) m small] that by (intro file_step_keep [OF r m]) (simp_all add: file_paths_def)
    have "frs_entries ?f = frs_entries f" if "File_LastLogIndex f < i"
    proof -
      have "le_index e < i" if "e \<in> set (frs_entries f)" for e
      proof -
        have "le_index e \<le> File_LastLogIndex f"
          using stored_log_mem [OF inv(2)] memory_entry(3) [OF inv(2), of "le_index e"] memory_entry(1) [OF inv(2), of "le_index e"] that
          by (auto simp: helpers_eq split: if_splits)
        then show ?thesis using \<open>File_LastLogIndex f < i\<close> by simp
      qed
      then show ?thesis by simp
    qed
    then have same: "file_step_ok dir ds (Op_TruncateSuffix i) f (OK, f, d)" if "File_LastLogIndex f < i"
      using that m R(2) by (intro file_step_keep [OF r _ _ H L]) (simp_all add: mem_of_def)
    show ?thesis
      using file_step_fail [OF r _ _ L, of st d1] holds opn True a OK same
      by (auto simp: File_TruncateSuffix_def Let_def not_less)
  qed
qed

lemma skip_stored_result:
  "Memory_skip_stored m n es = Inl st \<Longrightarrow> st \<noteq> OK"
  "Memory_skip_stored m n es = Inr app \<Longrightarrow> set app \<subseteq> set es"
  by (induction es) (auto split: if_splits)

lemma AppendEntries_step:
  assumes r: "file_rel dir ds f d"
  shows "file_step_ok dir ds (Op_AppendEntries es) f (File_AppendEntries io f es d)"
proof -
  note R = file_relD [OF r] and inv = memory_invD [OF file_relD(1) [OF r]]
  obtain les where H: "disk_holds dir d (frs_hard_state f) les ds" and L: "log_on_disk (File_SnapshotIndex f) les (frs_entries f)"
    using R(4) by blast
  have opn: "File_RequireOpen f = OK" using inv(6) by (simp add: helpers_eq)
  show ?thesis
  proof (cases "es = [] \<or> \<not> ok (File_ValidateEntryBatch f es)")
    case True
    then show ?thesis
    proof (cases "es = []")
      case True
      have "file_step_ok dir ds (Op_AppendEntries []) f (OK, f, d)"
        using R(2) inv(6) by (intro file_step_keep [OF r _ _ H L]) (simp_all add: Memory_AppendEntries_def Memory_ValidateEntryBatch_def)
      then show ?thesis using True opn by (simp add: File_AppendEntries_def File_ValidateEntryBatch_def)
    next
      case False
      then have bad: "File_ValidateEntryBatch f es \<noteq> OK" using True by simp
      show ?thesis using file_step_fail [OF r bad H L] bad opn by (simp add: File_AppendEntries_def Let_def)
    qed
  next
    case False
    then have ok: "es \<noteq> []" "Memory_ValidateEntryBatch (mem_of f) es = OK" "small_entries es" "File_ValidateEntryBatch f es = OK"
      using File_ValidateEntryBatch_OK by auto
    let ?skip = "if le_index (hd es) \<le> Memory_LastLogIndex (mem_of f)
      then Memory_skip_stored (mem_of f) (Memory_LastLogIndex (mem_of f)) es else Inr es"
    show ?thesis
    proof (cases ?skip)
      case (Inl st)
      then have "st \<noteq> OK" using skip_stored_result(1) by (auto split: if_splits)
      then show ?thesis
        using file_step_fail [OF r _ H L] Inl ok opn
        by (auto simp: File_AppendEntries_def Let_def helpers_eq split: if_splits)
    next
      case (Inr app)
      let ?f = "f\<lparr>frs_entries := frs_entries f @ app\<rparr>"
      have sub: "set app \<subseteq> set es" using Inr skip_stored_result(2) by (auto split: if_splits)
      have small: "small_entries (frs_entries f @ app)" using sub ok(3) R(3) by (auto simp: small_entries_def)
      have m: "memory_exec (Op_AppendEntries es) (mem_of f) = (OK, mem_of ?f)"
        using Inr ok inv(6) by (simp add: Memory_AppendEntries_def Let_def helpers_eq)
      obtain st d1 where a: "AtomicReplace io d (frs_log_path f) (EncodeLogFile (frs_entries f @ app)) = (st, d1)"
        by fastforce
      have holds: "disk_holds dir d1 (frs_hard_state f) (if st = OK then frs_entries f @ app else les) ds"
        using disk_holds_replace(2) [OF H] a R(2) by (simp add: file_paths_def)
      have OK: "file_step_ok dir ds (Op_AppendEntries es) f (OK, ?f, d1)" if "st = OK"
        using holds R(2) fresh_log [OF R(1) m] small that by (intro file_step_keep [OF r m]) (simp_all add: file_paths_def)
      have same: "file_step_ok dir ds (Op_AppendEntries es) f (OK, f, d)" if "app = []"
        using m R(2) that by (intro file_step_keep [OF r _ _ H L]) simp_all
      show ?thesis
        using file_step_fail [OF r _ _ L, of st d1] holds opn ok Inr a OK same
        by (auto simp: File_AppendEntries_def Let_def helpers_eq)
    qed
  qed
qed

lemma snapshot_file_eq:
  "EncodeSnapshotData s out = Inr bytes \<longleftrightarrow> snapshot_encodable s \<and> bytes = snapshot_file s"
  by (auto simp: EncodeSnapshotData_eq snapshot_file_def split: if_splits)

text \<open>The check of a snapshot accepts what the contract accepts.\<close>

lemma ValidateSnapshot_OK:
  assumes "memory_inv (mem_of f)"
  shows "ValidateSnapshot f s = OK \<longleftrightarrow> snapshot_fits s (memory_durable (mem_of f))"
proof -
  let ?m' = "snd (Memory_SaveSnapshot (mem_of f) s)"
  have "Memory_SaveSnapshot (mem_of f) s = (fst (Memory_SaveSnapshot (mem_of f) s), ?m')" by simp
  from SaveSnapshot_refines [OF assms this]
  have "fst (Memory_SaveSnapshot (mem_of f) s) = OK \<longleftrightarrow> snapshot_fits s (memory_durable (mem_of f))"
    by (auto split: if_splits)
  moreover have "Memory_RequireOpen (mem_of f) = OK" using memory_invD(6) [OF assms] .
  then have "fst (Memory_SaveSnapshot (mem_of f) s) = ValidateSnapshot f s"
    by (simp add: Memory_SaveSnapshot_def ValidateSnapshot_def Let_def helpers_eq split: sum.split)
  ultimately show ?thesis by simp
qed

lemma File_GetTerm_not_OK: "Memory_GetTerm m i p \<noteq> Inl OK"
  by (simp add: Memory_GetTerm_def)

lemma SaveSnapshot_step:
  assumes r: "file_rel dir ds f d"
  shows "file_step_ok dir ds (Op_SaveSnapshot s) f (File_SaveSnapshot io f s d)"
proof -
  note R = file_relD [OF r] and inv = memory_invD [OF file_relD(1) [OF r]]
  obtain les where H: "disk_holds dir d (frs_hard_state f) les ds" and L: "log_on_disk (File_SnapshotIndex f) les (frs_entries f)"
    using R(4) by blast
  have opn: "File_RequireOpen f = OK" using inv(6) by (simp add: helpers_eq)
  let ?es = "filter (\<lambda>e. sm_last_included_index (sd_metadata s) < le_index e) (frs_entries f)"
  let ?f = "f\<lparr>frs_snapshot := Some s, frs_entries := ?es\<rparr>"
  show ?thesis
  proof (cases "ok (ValidateSnapshot f s) \<and> snapshot_encodable s")
    case False
    then show ?thesis
      using file_step_fail [OF r _ H L] opn by (auto simp: File_SaveSnapshot_def EncodeSnapshotData_eq)
  next
    case True
    then have fits: "snapshot_fits s (memory_durable (mem_of f))" and enc: "snapshot_encodable s"
      using ValidateSnapshot_OK [OF R(1)] by auto
    have e: "EncodeSnapshotData s out = Inr (snapshot_file s)" using enc by (simp add: snapshot_file_eq)
    obtain st1 d1 where a1: "AtomicReplace io d (frs_snapshot_path f) (snapshot_file s) = (st1, d1)" by fastforce
    obtain st2 d2 where a2: "AtomicReplace io d1 (frs_log_path f) (EncodeLogFile ?es) = (st2, d2)" by fastforce
    have h1: "disk_holds dir d1 (frs_hard_state f) les (if st1 = OK then Some s else ds)"
      using disk_holds_replace(3) [OF H] a1 R(2) by (simp add: file_paths_def)
    have h2: "disk_holds dir d2 (frs_hard_state f) (if st2 = OK then ?es else les) (if st1 = OK then Some s else ds)"
      using disk_holds_replace(2) [OF h1] a2 R(2) by (simp add: file_paths_def)
    have "Memory_SaveSnapshot (mem_of f) s = (OK, mem_of ?f)"
      using True inv(6) by (auto simp: Memory_SaveSnapshot_def ValidateSnapshot_def Let_def helpers_eq not_le File_GetTerm_not_OK
          split: if_splits sum.splits)
    then have m: "memory_exec (Op_SaveSnapshot s) (mem_of f) = (OK, mem_of ?f)" by simp
    have part: "file_rel dir (Some s) f d2" if "st1 = OK" "st2 \<noteq> OK"
      using h2 that R(1,2) L fits enc by (auto simp: file_rel_def)
    have full: "file_rel dir (Some s) ?f d2" if "st1 = OK" "st2 = OK"
      using h2 that R(2) enc memory_exec_le(1) [OF R(1) m] fresh_log [OF R(1) m] R(3)
      by (auto simp: file_rel_def file_paths_def small_entries_def)
    show ?thesis
    proof (cases "st1 = OK")
      case False
      then show ?thesis
        using file_step_fail [OF r False _ L] h1 opn True e a1 by (simp add: File_SaveSnapshot_def Let_def)
    next
      case True
      then show ?thesis
        using \<open>ok (ValidateSnapshot f s) \<and> _\<close> opn e a1 a2 part full m
        by (auto simp: File_SaveSnapshot_def file_step_ok_def Let_def)
    qed
  qed
qed

lemma file_op_step: "file_rel dir ds f d \<Longrightarrow> file_step_ok dir ds op f (file_op io op f d)"
  by (cases op) (simp_all add: SaveHardState_step AppendEntries_step TruncateSuffix_step SaveSnapshot_step)

section \<open>Any sequence of writes\<close>

text \<open>
  The state of the world: the object, the disk, and the outcomes of the system calls of every
  operation to come.
\<close>

type_synonym file_world = "FileRaftStorage \<times> disk \<times> (nat \<Rightarrow> io)"

fun file_exec :: "storage_op \<Rightarrow> file_world \<Rightarrow> Status \<times> file_world" where
  "file_exec op (f, d, ios) =
     (case file_op (ios 0) op f d of (st, f', d') \<Rightarrow> (st, f', d', \<lambda>n. ios (Suc n)))"

definition file_inv :: "path \<Rightarrow> (SnapshotData \<Rightarrow> bool) \<Rightarrow> file_world \<Rightarrow> bool" where
  "file_inv dir P w \<longleftrightarrow> (\<exists>ds. file_rel dir ds (fst w) (fst (snd w)) \<and> (\<forall>s. ds = Some s \<longrightarrow> P s))"

definition file_durable :: "file_world \<Rightarrow> Durable" where
  "file_durable w = memory_durable (mem_of (fst w))"

lemma file_exec_step:
  assumes "file_inv dir P w" "file_exec op w = (st, w')" "\<And>s. op = Op_SaveSnapshot s \<Longrightarrow> P s"
  shows "file_inv dir P w'"
    and "st = OK \<Longrightarrow> storage_spec op (file_durable w) = (OK, file_durable w')"
    and "st \<noteq> OK \<Longrightarrow> file_durable w' = file_durable w"
proof -
  obtain f d ios where w: "w = (f, d, ios)" by (cases w)
  obtain ds where ds: "file_rel dir ds f d" "\<forall>s. ds = Some s \<longrightarrow> P s"
    using assms(1) by (auto simp: file_inv_def w)
  obtain f' d' where e: "file_op (ios 0) op f d = (st, f', d')" "w' = (f', d', \<lambda>n. ios (Suc n))"
    using assms(2) by (auto simp: w split: prod.splits)
  note step = file_op_step [OF ds(1), of op "ios 0", unfolded e(1) file_step_ok_def prod.case]
  obtain ds' where ds': "file_rel dir ds' f' d'" "ds' = ds \<or> (\<exists>s. op = Op_SaveSnapshot s \<and> ds' = Some s)"
    using step by blast
  have "P s" if "ds' = Some s" for s using ds'(2) ds(2) assms(3) that by auto
  then show "file_inv dir P w'" using ds'(1) by (auto simp: file_inv_def e(2))
  show "storage_spec op (file_durable w) = (OK, file_durable w')" if "st = OK"
    using memory_exec_refines [OF file_relD(1) [OF ds(1)]] step that by (simp add: file_durable_def w e(2))
  show "file_durable w' = file_durable w" if "st \<noteq> OK"
    using step that by (simp add: file_durable_def w e(2))
qed

interpretation file_storage: raft_storage file_exec file_durable "file_inv dir (\<lambda>_. True)" for dir
proof
  fix w w' :: file_world and op st
  assume inv: "file_inv dir (\<lambda>_. True) w"
  show "file_exec op w = (st, w') \<Longrightarrow> file_inv dir (\<lambda>_. True) w'"
    using file_exec_step(1) [OF inv] by simp
  show "file_exec op w = (OK, w') \<Longrightarrow> storage_spec op (file_durable w) = (OK, file_durable w')"
    using file_exec_step(2) [OF inv] by simp
  show "file_exec op w = (st, w') \<Longrightarrow> st \<noteq> OK \<Longrightarrow> file_durable w' = file_durable w"
    using file_exec_step(3) [OF inv] by simp
  show "durable_wf (file_durable w)"
    using inv by (auto simp: file_inv_def file_durable_def file_rel_def memory_inv_def)
qed


section \<open>Reading it back\<close>

lemma entry_record_sel [simp]:
  "dr_type (entry_record e) = kLogEntryRecord" "dr_index (entry_record e) = le_index e"
  "dr_term (entry_record e) = le_term e" "dr_payload (entry_record e) = EncodeLogEntryPayload e"
  by (simp_all add: entry_record_def)

lemma load_entries_behind:
  assumes "contiguous_from (unat (le_index (last acc))) es" "acc \<noteq> []" "snap \<le> le_index (last acc)"
  shows "load_entries snap (map entry_record es) acc = Inr (acc @ es)"
  using assms
proof (induction es arbitrary: acc)
  case (Cons e es)
  have e: "le_index e = le_index (last acc) + 1" "le_index e \<noteq> 0" "\<not> le_index e \<le> snap"
    using Cons.prems succ_index [of "le_index e" "le_index (last acc)"] by (auto simp: idx)
  then show ?case
    using Cons.IH [of "acc @ [e]"] Cons.prems DecodeLogEntryPayload_put [of e] by simp
qed simp

lemma load_entries_records:
  assumes "contiguous_from n es" "n \<le> unat snap" "unat snap \<le> n + length es"
  shows "load_entries snap (map entry_record es) [] = Inr (filter (\<lambda>e. snap < le_index e) es)"
  using assms
proof (induction es arbitrary: n)
  case (Cons e es)
  have d: "DecodeLogEntryPayload (EncodeLogEntryPayload e) (le_index e) (le_term e) = Inr e"
    by (rule DecodeLogEntryPayload_put)
  have nz: "le_index e \<noteq> 0" using Cons.prems by auto
  show ?case
  proof (cases "le_index e \<le> snap")
    case True
    then show ?thesis
      using Cons.IH [of "Suc n"] Cons.prems d nz by (simp add: idx not_less)
  next
    case False
    then have n: "unat snap = n" using Cons.prems by (simp add: idx)
    have e: "le_index e = snap + 1" using Cons.prems n succ_index [of "le_index e" snap] by simp
    have es: "filter (\<lambda>e. snap < le_index e) (e # es) = e # es"
      using contiguous_filter(2) [OF Cons.prems(1), of snap] n by simp
    have "load_entries snap (map entry_record es) [e] = Inr ([e] @ es)"
      using Cons.prems False n by (intro load_entries_behind) (simp_all add: idx)
    then show ?thesis using e False d nz Cons.prems unfolding es by simp
  qed
qed simp

lemma ReadFile_fine: "ReadFileIfPresent io_fine d p = Inr (case d p of None \<Rightarrow> ([], False) | Some b \<Rightarrow> (b, True))"
  by (auto simp: ReadFileIfPresent_def Exists_def ReadAll_def io_fine_def Let_def split: option.split)

definition few_members :: "SnapshotData \<Rightarrow> bool" where
  "few_members s \<longleftrightarrow>
     length (mv_voters (sm_membership (sd_metadata s))) \<le> kMaxMembers \<and>
     length (mv_learners (sm_membership (sd_metadata s))) \<le> kMaxMembers"

lemma snapshot_file_decodes:
  "snapshot_encodable s \<Longrightarrow> few_members s \<Longrightarrow> DecodeSnapshotData (snapshot_file s) out = Inr (forget_targets s)"
  using DecodeSnapshotData_body [of s] by (simp add: snapshot_file_def few_members_def)

lemma entry_records_ok: "small_entries es \<Longrightarrow> \<forall>r \<in> set (map entry_record es). record_ok r"
  by (auto simp: small_entries_def record_ok_def)

lemma EncodeLogFile_map: "EncodeLogFile es = concat (map record_bytes (map entry_record es))"
  by (simp add: EncodeLogFile_bytes)

lemma load_log_fine:
  assumes "d p = Some (EncodeLogFile es)" "small_entries es"
    and "contiguous_from n es" "n \<le> unat snap" "unat snap \<le> n + length es"
  shows "load_log io_fine d p snap = Inr (filter (\<lambda>e. snap < le_index e) es, False)"
proof (cases "EncodeLogFile es = []")
  case True
  then have "es = []" by (cases es) (auto simp: EncodeLogFile_bytes record_bytes_def header_bytes_def put_le_def)
  then show ?thesis using assms(1) True by (simp add: load_log_def ReadFile_fine)
next
  case False
  moreover have "DecodeRecords True (EncodeLogFile es) = Inr (map entry_record es, False)"
    using DecodeRecords_bytes [OF entry_records_ok [OF assms(2)], of True] by (simp only: EncodeLogFile_map)
  ultimately show ?thesis
    using assms(1) load_entries_records [OF assms(3-)] by (simp add: load_log_def ReadFile_fine)
qed

lemma load_hard_state_fine:
  assumes "d p = Some (EncodeHardStateFile h) \<or> d p = Some [] \<and> h = HardState_default"
  shows "load_hard_state io_fine d p = Inr h"
proof -
  have r: "\<forall>r \<in> set [hard_state_record h]. record_ok r"
    by (simp add: record_ok_def hard_state_record_def kMaxPayloadLength_def)
  have "DecodeRecords False (record_bytes (hard_state_record h)) = Inr ([hard_state_record h], False)"
    using DecodeRecords_bytes [OF r, of False] by simp
  moreover have "record_bytes (hard_state_record h) \<noteq> []"
    by (simp add: record_bytes_def header_bytes_def put_le_def)
  ultimately show ?thesis
    using assms DecodeHardStatePayload_put [of h]
    by (auto simp: load_hard_state_def ReadFile_fine EncodeHardStateFile_bytes, simp_all add: hard_state_record_def)
qed

lemma forget_targets_simps [simp]:
  "snapshot_file (forget_targets s) = snapshot_file s" "snapshot_encodable (forget_targets s) = snapshot_encodable s"
  "few_members (forget_targets s) = few_members s"
  "sm_last_included_index (sd_metadata (forget_targets s)) = sm_last_included_index (sd_metadata s)"
  "sm_last_included_term (sd_metadata (forget_targets s)) = sm_last_included_term (sd_metadata s)"
  by (simp_all add: forget_targets_def snapshot_file_def snapshot_body_def snapshot_encodable_def few_members_def Let_def)

lemma snapshot_index_forget [simp]: "snapshot_index (map_option forget_targets ds) = snapshot_index ds"
  by (simp add: snapshot_index_def option.map_comp split: option.split)

text \<open>What a reader finds when the storage is opened again.\<close>

definition reopened_from :: "Durable \<Rightarrow> Durable \<Rightarrow> bool" where
  "reopened_from d r \<longleftrightarrow>
     du_hard_state r = du_hard_state d \<and> du_last r = du_last d \<and>
     du_log r = du_log d |` {snapshot_index (du_snapshot r)<..} \<and>
     snapshot_index (du_snapshot d) \<le> snapshot_index (du_snapshot r) \<and>
     (du_snapshot r = map_option forget_targets (du_snapshot d) \<or>
      (\<exists>s. du_snapshot r = Some (forget_targets s) \<and> snapshot_fits s d))"

lemma reopened_le: "reopened_from d r \<Longrightarrow> durable_le d r"
  by (auto simp: reopened_from_def durable_le_def restrict_map_def not_less)

lemma OpenOrCreate_fine: "d p = Some b \<Longrightarrow> OpenOrCreate io_fine d p = (OK, d)"
  by (simp add: OpenOrCreate_def io_fine_def fun_upd_idem)

lemma LoadFromDisk_fine:
  assumes r: "file_rel dir ds f d" and g: "file_paths dir g" and few: "\<forall>s. ds = Some s \<longrightarrow> few_members s"
  shows "LoadFromDisk io_fine g d =
    (Inr (frs_hard_state f, filter (\<lambda>e. snapshot_index ds < le_index e) (frs_entries f), map_option forget_targets ds), d)"
    and "\<exists>les. disk_holds dir d (frs_hard_state f) les ds \<and>
      log_on_disk (snapshot_index ds) les (filter (\<lambda>e. snapshot_index ds < le_index e) (frs_entries f))"
    and "snapshot_index (frs_snapshot f) \<le> snapshot_index ds \<and> snapshot_index ds \<le> hs_commit_index (frs_hard_state f)"
    and "LastIndex ds (filter (\<lambda>e. snapshot_index ds < le_index e) (frs_entries f)) = File_LastLogIndex f"
proof -
  note R = file_relD [OF r] and inv = memory_invD [OF file_relD(1) [OF r]]
  let ?i = "snapshot_index ds"
  let ?es = "filter (\<lambda>e. ?i < le_index e) (frs_entries f)"
  obtain les where H: "disk_holds dir d (frs_hard_state f) les ds" and L: "log_on_disk (File_SnapshotIndex f) les (frs_entries f)"
    using R(4) by blast
  obtain n where n: "contiguous_from n les" "n \<le> unat (File_SnapshotIndex f)" "unat (File_SnapshotIndex f) \<le> n + length les"
    and small: "small_entries les" and les: "frs_entries f = filter (\<lambda>e. File_SnapshotIndex f < le_index e) les"
    using L by (auto simp: log_on_disk_def)
  have snap: "snapshot_index (frs_snapshot f) = File_SnapshotIndex f"
    using snapshot_index_memory(1) [of "mem_of f"] by (simp add: helpers_eq)
  show i: "snapshot_index (frs_snapshot f) \<le> ?i \<and> ?i \<le> hs_commit_index (frs_hard_state f)"
    using R(5) inv(3) snap by (auto simp: snapshot_fits_def memory_durable_def Let_def helpers_eq)
  have last: "unat (File_LastLogIndex f) = unat (File_SnapshotIndex f) + length (frs_entries f)"
    using memory_last [OF inv(2)] by (simp add: helpers_eq)
  have le: "unat (File_SnapshotIndex f) \<le> unat ?i" "unat ?i \<le> unat (File_LastLogIndex f)"
    using i inv(4) snap by (auto simp: helpers_eq idx)
  have len: "n + length les = unat (File_LastLogIndex f)"
    using n last contiguous_filter(2) [OF n(1), of "File_SnapshotIndex f"] les by simp
  have es: "filter (\<lambda>e. ?i < le_index e) les = ?es"
    unfolding les using i snap by (auto intro!: filter_cong)
  show L': "\<exists>les. disk_holds dir d (frs_hard_state f) les ds \<and> log_on_disk ?i les ?es"
    using H n small le len es by (intro exI [of _ les]) (auto simp: log_on_disk_def)
  have lg: "load_log io_fine d (frs_log_path g) ?i = Inr (?es, False)"
    using load_log_fine [of d _ les n ?i] H g small n le len es by (simp add: disk_holds_def file_paths_def)
  have hs: "load_hard_state io_fine d (frs_hard_state_path g) = Inr (frs_hard_state f)"
    using H g by (intro load_hard_state_fine) (simp add: disk_holds_def file_paths_def)
  have sn: "load_snapshot io_fine d (frs_snapshot_path g) = Inr (map_option forget_targets ds)"
    using H g few R(6) snapshot_file_decodes
    by (cases ds) (simp_all add: load_snapshot_def ReadFile_fine disk_holds_def file_paths_def)
  have "unat (LastIndex ds ?es) = unat (File_LastLogIndex f)"
  proof (cases "?es = []")
    case True
    then have "length les \<le> unat ?i - n" using contiguous_filter(2) [OF n(1), of ?i] es by simp
    moreover have "LastIndex ds ?es = ?i" using True by (simp add: LastIndex_def snapshot_index_def)
    ultimately show ?thesis using len le n by simp
  next
    case False
    have eq: "?es = drop (unat ?i - unat (File_SnapshotIndex f)) (frs_entries f)"
      using contiguous_filter(2) [OF inv(2), of ?i] by (simp add: helpers_eq)
    then have "last ?es = last (frs_entries f)" using False by simp
    then show ?thesis using False eq by (auto simp: LastIndex_def File_LastLogIndex_def)
  qed
  then show la: "LastIndex ds ?es = File_LastLogIndex f" by (simp add: word_unat_eq_iff)
  have "(case map_option forget_targets ds of Some s \<Rightarrow> sm_last_included_index (sd_metadata s) | None \<Rightarrow> 0) = ?i"
    by (cases ds) (simp_all add: snapshot_index_def)
  moreover have "LastIndex (map_option forget_targets ds) ?es = LastIndex ds ?es"
    by (cases ds) (simp_all add: LastIndex_def)
  moreover have "\<not> hs_commit_index (frs_hard_state f) < ?i" "\<not> File_LastLogIndex f < hs_commit_index (frs_hard_state f)"
    using i inv(4) by (auto simp: helpers_eq)
  ultimately show "LoadFromDisk io_fine g d = (Inr (frs_hard_state f, ?es, map_option forget_targets ds), d)"
    using sn hs lg la by (cases ds) (simp_all add: LoadFromDisk_def)
qed

lemma File_Open_fine:
  assumes r: "file_rel dir ds f d" and dir: "dir \<noteq> []" and few: "\<forall>s. ds = Some s \<longrightarrow> few_members s"
  obtains f' where "File_Open io_fine g dir d = (OK, f', d)" "file_rel dir (map_option forget_targets ds) f' d"
    "reopened_from (memory_durable (mem_of f)) (memory_durable (mem_of f'))"
    "frs_entries f' = filter (\<lambda>e. snapshot_index ds < le_index e) (frs_entries f)"
proof -
  let ?es = "filter (\<lambda>e. snapshot_index ds < le_index e) (frs_entries f)"
  let ?g = "g\<lparr>frs_hard_state_path := path_join dir kHardStateFileName, frs_log_path := path_join dir kLogFileName,
    frs_snapshot_path := path_join dir kSnapshotFileName\<rparr>"
  let ?f = "?g\<lparr>frs_hard_state := frs_hard_state f, frs_entries := ?es, frs_snapshot := map_option forget_targets ds, frs_open := True\<rparr>"
  note R = file_relD [OF r] and inv = memory_invD [OF file_relD(1) [OF r]]
  have g: "file_paths dir ?g" by (simp add: file_paths_def)
  note load = LoadFromDisk_fine [OF r g few]
  obtain les where H: "disk_holds dir d (frs_hard_state f) les ds" and L: "log_on_disk (snapshot_index ds) les ?es"
    using load(2) by blast
  have files: "d (path_join dir kHardStateFileName) \<noteq> None" "d (path_join dir kLogFileName) \<noteq> None"
    using H by (auto simp: disk_holds_def)
  have opened: "OpenOrCreate io_fine d (path_join dir kHardStateFileName) = (OK, d)"
    "OpenOrCreate io_fine d (path_join dir kLogFileName) = (OK, d)"
    using files OpenOrCreate_fine by auto
  have eq: "File_Open io_fine g dir d = (OK, ?f, d)"
    using dir opened load(1) by (simp add: File_Open_def Let_def io_fine_def)
  have snap: "snapshot_index (frs_snapshot f) = File_SnapshotIndex f" "File_SnapshotIndex ?f = snapshot_index ds"
    using snapshot_index_memory(1) [of "mem_of f"] snapshot_index_memory(1) [of "mem_of ?f"] by (simp_all add: helpers_eq)
  have last: "File_LastLogIndex ?f = File_LastLogIndex f"
    using load(4) by (cases ds) (auto simp: File_LastLogIndex_def File_SnapshotIndex_def LastIndex_def)
  have i: "File_SnapshotIndex f \<le> snapshot_index ds" "snapshot_index ds \<le> hs_commit_index (frs_hard_state f)"
    using load(3) snap by auto
  have dur: "memory_durable (mem_of ?f) =
      \<lparr>du_hard_state = frs_hard_state f, du_log = stored_log (frs_entries f) |` {snapshot_index ds<..},
       du_last = File_LastLogIndex f, du_snapshot = map_option forget_targets ds\<rparr>"
    using last stored_log_filter [of "\<lambda>j. snapshot_index ds < j" "frs_entries f"]
    by (simp add: memory_durable_def helpers_eq greaterThan_def)
  have "contiguous_from (unat (snapshot_index ds)) ?es"
  proof -
    have le: "unat (snapshot_index ds) \<le> unat (File_SnapshotIndex f) + length (frs_entries f)"
      using i inv(4) memory_last [OF inv(2)] by (simp add: helpers_eq idx)
    have eq: "?es = drop (unat (snapshot_index ds) - unat (File_SnapshotIndex f)) (frs_entries f)"
      using contiguous_filter(2) [OF inv(2), of "snapshot_index ds"] by (simp add: helpers_eq)
    have "contiguous_from (unat (File_SnapshotIndex f)) (take (unat (snapshot_index ds) - unat (File_SnapshotIndex f)) (frs_entries f) @ ?es)"
      using inv(2) by (simp add: eq helpers_eq)
    then show ?thesis using le i by (simp add: contiguous_append idx)
  qed
  moreover have "snapshot_index ds \<noteq> 0" if "ds \<noteq> None"
    using R(5)
  proof (elim disjE exE conjE)
    assume "ds = frs_snapshot f"
    then show ?thesis using that inv(5) snap(1) by (simp add: helpers_eq)
  qed (simp add: snapshot_fits_def Let_def)
  moreover have "durable_wf (memory_durable (mem_of ?f))"
    using i inv(4) unfolding dur by (simp add: durable_wf_def helpers_eq)
  ultimately have m: "memory_inv (mem_of ?f)"
    using snap(2) by (auto simp: memory_inv_def helpers_eq)
  have "disk_holds dir d (frs_hard_state f) les (map_option forget_targets ds)"
    using H by (cases ds) (simp_all add: disk_holds_def)
  then have rel: "file_rel dir (map_option forget_targets ds) ?f d"
    using m R(6) L snap(2) unfolding file_rel_def by (auto simp: file_paths_def)
  have re: "reopened_from (memory_durable (mem_of f)) (memory_durable (mem_of ?f))"
    using R(5) i snap unfolding dur
    by (auto simp: reopened_from_def memory_durable_def helpers_eq snapshot_index_memory)
  show thesis using that [OF eq rel re] by simp
qed

text \<open>Histories: writes whose system calls may fail, and crashes followed by opening the storage again.\<close>

datatype history_event = Write storage_op | Reopen

fun history :: "path \<Rightarrow> history_event list \<Rightarrow> file_world \<Rightarrow> file_world" where
  "history dir [] w = w"
| "history dir (Write op # evs) w = history dir evs (snd (file_exec op w))"
| "history dir (Reopen # evs) (f, d, ios) =
     (case File_Open io_fine FileRaftStorage_new dir d of (_, f', d') \<Rightarrow> history dir evs (f', d', ios))"

definition few_members_in :: "history_event list \<Rightarrow> bool" where
  "few_members_in evs \<longleftrightarrow> (\<forall>s. Write (Op_SaveSnapshot s) \<in> set evs \<longrightarrow> few_members s)"

lemma history_inv:
  assumes "file_inv dir few_members w" "dir \<noteq> []" "few_members_in evs"
  shows "file_inv dir few_members (history dir evs w) \<and> durable_le (file_durable w) (file_durable (history dir evs w))"
  using assms
proof (induction dir evs w rule: history.induct)
  case (2 dir op evs w)
  have "file_inv dir few_members (snd (file_exec op w))"
    using file_exec_step(1) [OF "2.prems"(1), of op "fst (file_exec op w)"] "2.prems"(3)
    by (auto simp: few_members_in_def)
  moreover have inv: "file_inv dir (\<lambda>_. True) w" using "2.prems"(1) by (auto simp: file_inv_def)
  ultimately show ?case
    using "2.IH" "2.prems"(2,3) durable_le_trans [OF file_storage.exec_le [OF inv, of op]]
    by (auto simp: few_members_in_def simp del: file_exec.simps)
next
  case (3 dir evs f d ios)
  obtain ds where ds: "file_rel dir ds f d" "\<forall>s. ds = Some s \<longrightarrow> few_members s"
    using "3.prems"(1) by (auto simp: file_inv_def)
  obtain f' where f': "File_Open io_fine FileRaftStorage_new dir d = (OK, f', d)" "file_rel dir (map_option forget_targets ds) f' d"
    "reopened_from (memory_durable (mem_of f)) (memory_durable (mem_of f'))"
    using File_Open_fine [OF ds(1) "3.prems"(2) ds(2), of FileRaftStorage_new] by blast
  have inv: "file_inv dir few_members (f', d, ios)" using f'(2) ds(2) by (auto simp: file_inv_def)
  show ?case
    using "3.IH" [OF _ _ inv "3.prems"(2)] "3.prems"(3) f'(1) durable_le_trans [OF reopened_le [OF f'(3)]]
    by (auto simp: few_members_in_def file_durable_def)
qed simp

text \<open>The first time: a directory without the three files.\<close>

lemma File_Open_first:
  assumes "dir \<noteq> []" "d (path_join dir kHardStateFileName) = None" "d (path_join dir kLogFileName) = None"
    "d (path_join dir kSnapshotFileName) = None"
  obtains f' d' where "File_Open io_fine g dir d = (OK, f', d')" "file_rel dir None f' d'"
    "memory_durable (mem_of f') = Durable_new"
proof -
  let ?d = "d(path_join dir kHardStateFileName := Some [], path_join dir kLogFileName := Some [])"
  let ?g = "g\<lparr>frs_hard_state_path := path_join dir kHardStateFileName, frs_log_path := path_join dir kLogFileName,
    frs_snapshot_path := path_join dir kSnapshotFileName\<rparr>"
  let ?f = "?g\<lparr>frs_hard_state := HardState_default, frs_entries := [], frs_snapshot := None, frs_open := True\<rparr>"
  have files: "?d (path_join dir kHardStateFileName) = Some []" "?d (path_join dir kLogFileName) = Some []"
    "?d (path_join dir kSnapshotFileName) = None" using assms by simp_all
  have "LoadFromDisk io_fine ?g ?d = (Inr (HardState_default, [], None), ?d)"
    using files by (simp add: LoadFromDisk_def load_snapshot_def load_hard_state_def load_log_def ReadFile_fine LastIndex_def HardState_default_def)
  then have "File_Open io_fine g dir d = (OK, ?f, ?d)"
    using assms by (simp add: File_Open_def Let_def io_fine_def OpenOrCreate_def)
  moreover have dur: "memory_durable (mem_of ?f) = Durable_new"
    by (simp add: memory_durable_def Durable_new_def Memory_LastLogIndex_def Memory_SnapshotIndex_def)
  moreover have "memory_inv (mem_of ?f)"
    unfolding memory_inv_def dur by (simp add: Durable_new_def durable_wf_def snapshot_index_def HardState_default_def)
  then have "file_rel dir None ?f ?d"
    using files by (auto simp: file_rel_def file_paths_def disk_holds_def EncodeLogFile_def intro!: exI [of _ "[]"])
      (simp add: log_on_disk_def small_entries_def File_SnapshotIndex_def)
  ultimately show thesis using that by blast
qed

section \<open>Properties\<close>

text \<open>A new storage, opened in a directory that has none of its files.\<close>

definition no_files :: "path \<Rightarrow> disk \<Rightarrow> bool" where
  "no_files dir d \<longleftrightarrow> d (path_join dir kHardStateFileName) = None \<and> d (path_join dir kLogFileName) = None \<and>
     d (path_join dir kSnapshotFileName) = None"

definition first_world :: "path \<Rightarrow> disk \<Rightarrow> (nat \<Rightarrow> io) \<Rightarrow> file_world" where
  "first_world dir d ios = (case File_Open io_fine FileRaftStorage_new dir d of (_, f, d') \<Rightarrow> (f, d', ios))"

lemma first_world_inv:
  assumes "dir \<noteq> []" "no_files dir d"
  shows "file_inv dir P (first_world dir d ios)" "file_durable (first_world dir d ios) = Durable_new"
proof -
  obtain f d' where "File_Open io_fine FileRaftStorage_new dir d = (OK, f, d')" "file_rel dir None f d'"
    "memory_durable (mem_of f) = Durable_new"
    using File_Open_first [OF assms(1), of d FileRaftStorage_new] assms(2) unfolding no_files_def by blast
  then show "file_inv dir P (first_world dir d ios)" "file_durable (first_world dir d ios) = Durable_new"
    by (auto simp: first_world_def file_inv_def file_durable_def)
qed

lemma reopen_inv:
  assumes "file_inv dir few_members w" "dir \<noteq> []"
  shows "case File_Open io_fine g dir (fst (snd w)) of (st, f, d) \<Rightarrow>
    st = OK \<and> d = fst (snd w) \<and> reopened_from (file_durable w) (memory_durable (mem_of f))"
proof -
  obtain ds where ds: "file_rel dir ds (fst w) (fst (snd w))" "\<forall>s. ds = Some s \<longrightarrow> few_members s"
    using assms(1) by (auto simp: file_inv_def)
  obtain f' where "File_Open io_fine g dir (fst (snd w)) = (OK, f', fst (snd w))"
    "reopened_from (memory_durable (mem_of (fst w))) (memory_durable (mem_of f'))"
    using File_Open_fine [OF ds(1) assms(2) ds(2), of g] by blast
  then show ?thesis by (simp add: file_durable_def)
qed


text \<open>
  C33. Crashes lose nothing. Through any history of writes, whose system calls may fail, and crashes
  after which the storage is opened again, the term, the commit index and the snapshot never go
  back and no committed entry changes or disappears except under a snapshot; at the end the files
  can be opened again.
\<close>

theorem file_storage_survives_crashes:
  assumes "dir \<noteq> []" and "no_files dir d" and "few_members_in (evs @ evs')"
  shows "let w = history dir evs (first_world dir d ios); w' = history dir evs' w
    in durable_le (file_durable w) (file_durable w') \<and>
       (case File_Open io_fine g dir (fst (snd w')) of (st, f, d') \<Rightarrow>
          st = OK \<and> d' = fst (snd w') \<and> reopened_from (file_durable w') (memory_durable (mem_of f)))"
proof -
  have few: "few_members_in evs" "few_members_in evs'" using assms(3) by (auto simp: few_members_in_def)
  note inv = history_inv [OF first_world_inv(1) [OF assms(1,2), where ios = ios] assms(1) few(1), THEN conjunct1]
  note inv' = history_inv [OF inv assms(1) few(2)]
  show ?thesis unfolding Let_def
    by (rule conjI [OF inv'[THEN conjunct2] reopen_inv [OF inv'[THEN conjunct1] assms(1)]])
qed

text \<open>
  An example: two entries are stored and committed, a snapshot of the first one fails after its own
  file was replaced, and the storage is opened again.
\<close>

definition stored_entry :: "LogIndex \<Rightarrow> LogEntry" where
  "stored_entry i = \<lparr>le_index = i, le_term = 1, le_type = COMMAND, le_payload = [7, 8]\<rparr>"

definition example_ops :: "storage_op list" where
  "example_ops =
     [Op_AppendEntries [stored_entry 1, stored_entry 2],
      Op_SaveHardState (HardState_default\<lparr>hs_current_term := 1, hs_commit_index := 2\<rparr>),
      Op_SaveSnapshot \<lparr>sd_metadata = \<lparr>sm_last_included_index = 1, sm_last_included_term = 1,
        sm_membership = MembershipView_default\<rparr>, sd_payload = [1, 2, 3]\<rparr>]"

definition rename_log_fails :: io where
  "rename_log_fails = io_fine\<lparr>io_status := (\<lambda>c. case c of
     Io_Rename _ p \<Rightarrow> if p = path_join ''d'' kLogFileName then kIoError else OK | _ \<Rightarrow> OK)\<rparr>"

definition example_ios :: "nat \<Rightarrow> io" where
  "example_ios n = (if n = 2 then rename_log_fails else io_fine)"

lemma example_few: "few_members_in (map Write example_ops)"
  by (simp add: few_members_in_def example_ops_def few_members_def MembershipView_default_def kMaxMembers_def)


theorem file_storage_survives_crashes_witness:
  "let w = history ''d'' (map Write example_ops) (first_world ''d'' Map.empty example_ios); w' = history ''d'' [Reopen, Reopen] w
   in durable_le (file_durable w) (file_durable w') \<and>
      (case File_Open io_fine FileRaftStorage_new ''d'' (fst (snd w')) of (st, f, d') \<Rightarrow>
         st = OK \<and> d' = fst (snd w') \<and> reopened_from (file_durable w') (memory_durable (mem_of f)))"
  by (rule file_storage_survives_crashes) (use example_few in \<open>simp_all add: no_files_def few_members_in_def\<close>)

section \<open>A damaged length field\<close>

text \<open>
  The log file with the length field of one record replaced: its header, its payload and the records
  behind it are as they were written.
\<close>

definition damaged_log :: "LogEntry list \<Rightarrow> LogEntry \<Rightarrow> u64 \<Rightarrow> LogEntry list \<Rightarrow> bytes" where
  "damaged_log pre e n post =
     EncodeLogFile pre @
     header_bytes (entry_record e) n
       (Compute (ChecksumInput kLogEntryRecord (le_index e) (le_term e) (EncodeLogEntryPayload e))) @
     EncodeLogEntryPayload e @ EncodeLogFile post"

lemma damaged_log_decodes:
  assumes small: "small_entries pre"
    and n: "length (EncodeLogEntryPayload e) + length (EncodeLogFile post) < unat n" "unat n \<le> kMaxPayloadLength"
  shows "DecodeRecords True (damaged_log pre e n post) = Inr (map entry_record pre, True)"
proof -
  let ?data = "damaged_log pre e n post" and ?o = "length (EncodeLogFile pre)"
  let ?c = "Compute (ChecksumInput kLogEntryRecord (le_index e) (le_term e) (EncodeLogEntryPayload e))"
  let ?rest = "EncodeLogEntryPayload e @ EncodeLogFile post"
  have at: "drop ?o ?data = header_bytes (entry_record e) n ?c @ ?rest" "?o \<le> length ?data"
    by (simp_all add: damaged_log_def)
  have len: "\<not> length ?data - ?o < kRecordHeaderSize" "?o < length ?data"
    by (simp_all add: damaged_log_def)
  have "decode_record True ?data ?o = Inr None"
    using decode_record_header [OF at(2,1), of True] n by simp
  then have stop: "DecodeRecords_loop True ?data ?o = Inr ([], True)"
    using len by (subst DecodeRecords_loop.simps) simp
  have "drop 0 ?data = concat (map record_bytes (map entry_record pre)) @ header_bytes (entry_record e) n ?c @ ?rest"
    by (simp add: damaged_log_def EncodeLogFile_map)
  from DecodeRecords_records [OF _ this entry_records_ok [OF small], of True] show ?thesis
    using stop by (simp add: DecodeRecords_def EncodeLogFile_map)
qed

text \<open>
  C34. A damaged length field costs the rest of the log. If the length field of one record is too
  large for the file, opening the storage takes everything from that record on for an incomplete
  tail and rewrites the log file without it, although the records behind it are intact; if some of
  them are committed it answers Corruption, but the entries are gone from the disk all the same.
\<close>

theorem damaged_length_cuts_log:
  assumes "dir \<noteq> []" and "disk_holds dir d h (pre @ e # post) None"
    and "contiguous_from 0 (pre @ e # post)" and "small_entries (pre @ e # post)"
    and "length (EncodeLogEntryPayload e) + length (EncodeLogFile post) < unat n" and "unat n \<le> kMaxPayloadLength"
  shows "case File_Open io_fine g dir (d(path_join dir kLogFileName \<mapsto> damaged_log pre e n post)) of
    (st, f, d') \<Rightarrow>
      d' (path_join dir kLogFileName) = Some (EncodeLogFile pre) \<and>
      st = (if length pre < unat (hs_commit_index h) then Corruption else OK)"
proof -
  let ?d = "d(path_join dir kLogFileName \<mapsto> damaged_log pre e n post)"
  let ?g = "g\<lparr>frs_hard_state_path := path_join dir kHardStateFileName, frs_log_path := path_join dir kLogFileName,
    frs_snapshot_path := path_join dir kSnapshotFileName\<rparr>"
  have pre: "contiguous_from 0 pre" "small_entries pre"
    using assms(3,4) by (auto simp: contiguous_append small_entries_def)
  have files: "?d (path_join dir kHardStateFileName) \<noteq> None" "?d (path_join dir kLogFileName) = Some (damaged_log pre e n post)"
    using assms(2) by (auto simp: disk_holds_def)
  have opened: "OpenOrCreate io_fine ?d (path_join dir kHardStateFileName) = (OK, ?d)"
    "OpenOrCreate io_fine ?d (path_join dir kLogFileName) = (OK, ?d)"
    using files OpenOrCreate_fine [of ?d] by blast+
  have sn: "load_snapshot io_fine ?d (path_join dir kSnapshotFileName) = Inr None"
    using assms(2) by (simp add: load_snapshot_def ReadFile_fine disk_holds_def)
  have hs: "load_hard_state io_fine ?d (path_join dir kHardStateFileName) = Inr h"
    using assms(2) by (intro load_hard_state_fine) (simp add: disk_holds_def)
  have all: "filter (\<lambda>e. 0 < le_index e) pre = pre" using contiguous_filter(2) [OF pre(1), of 0] by simp
  have "damaged_log pre e n post \<noteq> []" by (simp add: damaged_log_def header_bytes_def put_le_def)
  then have lg: "load_log io_fine ?d (path_join dir kLogFileName) 0 = Inr (pre, True)"
    using damaged_log_decodes [OF pre(2) assms(5,6)] load_entries_records [OF pre(1), of 0] all
    by (simp add: load_log_def ReadFile_fine)
  obtain d' where cut: "AtomicReplace io_fine ?d (path_join dir kLogFileName) (EncodeLogFile pre) = (OK, d')"
    using AtomicReplace_fine [of ?d] by (metis prod.collapse)
  have d': "d' (path_join dir kLogFileName) = Some (EncodeLogFile pre)" using AtomicReplace_target(1) [OF cut] by simp
  have "unat (LastIndex None pre) = length pre"
    using last_contiguous [OF pre(1)] by (simp add: LastIndex_def)
  then have "LastIndex None pre < hs_commit_index h \<longleftrightarrow> length pre < unat (hs_commit_index h)" by (simp add: idx)
  then have "LoadFromDisk io_fine ?g ?d =
      (if length pre < unat (hs_commit_index h) then Inl Corruption else Inr (h, pre, None), d')"
    using sn hs lg cut by (simp add: LoadFromDisk_def)
  then show ?thesis
    using assms(1) opened d' by (simp add: File_Open_def Let_def io_fine_def)
qed

text \<open>Two committed entries; the length of the second one says 1000.\<close>

theorem damaged_length_cuts_log_witness:
  "\<exists>d. d (path_join ''d'' kLogFileName) = Some (EncodeLogFile [stored_entry 1, stored_entry 2]) \<and>
     (case File_Open io_fine FileRaftStorage_new ''d'' (d(path_join ''d'' kLogFileName \<mapsto> damaged_log [stored_entry 1] (stored_entry 2) 1000 [])) of
        (st, f, d') \<Rightarrow> d' (path_join ''d'' kLogFileName) = Some (EncodeLogFile [stored_entry 1]) \<and> st = Corruption)"
proof -
  let ?h = "HardState_default\<lparr>hs_current_term := 1, hs_commit_index := 2\<rparr>"
  let ?d = "Map.empty(path_join ''d'' kHardStateFileName \<mapsto> EncodeHardStateFile ?h,
    path_join ''d'' kLogFileName \<mapsto> EncodeLogFile ([stored_entry 1] @ stored_entry 2 # []))"
  have holds: "disk_holds ''d'' ?d ?h ([stored_entry 1] @ stored_entry 2 # []) None"
    by (simp add: disk_holds_def)
  show ?thesis
    using damaged_length_cuts_log [OF _ holds, of 1000 FileRaftStorage_new]
    by (intro exI [of _ ?d]) (simp add: stored_entry_def small_entries_def kMaxPayloadLength_def EncodeLogFile_def)
qed

end
