(* ===== verification/Text_Format.thy ===== *)
theory Text_Format
  imports Prelude
begin

text \<open>
  The conversions between numbers and text of the C++ standard library that the sources
  use: \<open>to_string\<close> is \<open>operator<<\<close> and \<open>std::to_string\<close> on an unsigned integer,
  \<open>strtoull\<close> is the C function in base ten, with its leading white space, its sign and
  its saturation, and \<open>c_str\<close> cuts a string at the first NUL byte, which is how a C
  function sees it.
\<close>

section \<open>Printing\<close>

definition digit_char :: "nat \<Rightarrow> char" where
  "digit_char d = char_of (48 + d)"

fun to_string :: "nat \<Rightarrow> string" where
  "to_string n = (if n < 10 then [digit_char n] else to_string (n div 10) @ [digit_char (n mod 10)])"

declare to_string.simps [simp del]

section \<open>Reading\<close>

definition is_digit :: "char \<Rightarrow> bool" where
  "is_digit c \<longleftrightarrow> 48 \<le> (of_char c :: nat) \<and> (of_char c :: nat) \<le> 57"

definition digit_value :: "char \<Rightarrow> nat" where
  "digit_value c = of_char c - 48"

definition digits_value :: "string \<Rightarrow> nat" where
  "digits_value ds = foldl (\<lambda>v c. 10 * v + digit_value c) 0 ds"

definition is_space :: "char \<Rightarrow> bool" where
  "is_space c \<longleftrightarrow> of_char c = (32 :: nat) \<or> (9 \<le> (of_char c :: nat) \<and> (of_char c :: nat) \<le> 13)"

definition c_str :: "string \<Rightarrow> string" where
  "c_str s = takeWhile (\<lambda>c. c \<noteq> CHR 0x00) s"

text \<open>
  The result is the value with the text that follows the number. \<open>None\<close> means that no digit
  was found and \<open>end\<close> is left at the beginning. A number that does not fit becomes
  \<open>ULLONG_MAX\<close>, a minus sign negates modulo \<open>2 ^ 64\<close>.
\<close>

definition strtoull :: "string \<Rightarrow> (u64 \<times> string) option" where
  "strtoull s =
     (let t = dropWhile is_space s;
          negative = (t \<noteq> [] \<and> hd t = CHR ''-'');
          t = (if t \<noteq> [] \<and> (hd t = CHR ''-'' \<or> hd t = CHR ''+'') then tl t else t);
          ds = takeWhile is_digit t;
          v = digits_value ds
      in if ds = [] then None
         else Some (if 2 ^ 64 \<le> v then - 1
                    else if negative then - word_of_nat v else word_of_nat v,
                    dropWhile is_digit t))"

section \<open>Facts\<close>

lemma of_char_digit: "d < 10 \<Longrightarrow> of_char (digit_char d) = 48 + d"
  by (simp add: digit_char_def)

lemma is_digit_char [simp]: "d < 10 \<Longrightarrow> is_digit (digit_char d)"
  by (simp add: is_digit_def of_char_digit)

lemma digit_value_char [simp]: "d < 10 \<Longrightarrow> digit_value (digit_char d) = d"
  by (simp add: digit_value_def of_char_digit)

lemma to_string_digits: "\<forall>c \<in> set (to_string n). is_digit c"
proof (induction n rule: to_string.induct)
  case (1 n)
  then show ?case by (subst to_string.simps) auto
qed

lemma to_string_not_Nil [simp]: "to_string n \<noteq> []" "[] \<noteq> to_string n"
  by (simp_all add: to_string.simps [of n])

lemma digits_value_snoc: "digits_value (ds @ [c]) = 10 * digits_value ds + digit_value c"
  by (simp add: digits_value_def)

lemma digits_value_to_string [simp]: "digits_value (to_string n) = n"
proof (induction n rule: to_string.induct)
  case (1 n)
  show ?case
  proof (cases "n < 10")
    case True
    then show ?thesis by (subst to_string.simps) (simp add: digits_value_def)
  next
    case False
    then show ?thesis using "1" by (subst to_string.simps) (simp add: digits_value_snoc)
  qed
qed

lemma to_string_inject [simp]: "to_string m = to_string n \<longleftrightarrow> m = n"
  by (metis digits_value_to_string)

lemma not_digit_in_to_string: "\<not> is_digit c \<Longrightarrow> c \<notin> set (to_string n)"
  using to_string_digits by blast

lemma no_colon_in_to_string: "CHR '':'' \<notin> set (to_string n)"
  by (rule not_digit_in_to_string) (simp add: is_digit_def)

lemma digit_not_space: "is_digit c \<Longrightarrow> \<not> is_space c"
  by (auto simp: is_digit_def is_space_def)

lemma digit_not_nul: "is_digit c \<Longrightarrow> c \<noteq> CHR 0x00"
  by (auto simp: is_digit_def)

lemma digit_not_sign: "is_digit c \<Longrightarrow> c \<noteq> CHR ''-'' \<and> c \<noteq> CHR ''+''"
  by (auto simp: is_digit_def)

lemma c_str_to_string [simp]: "c_str (to_string n) = to_string n"
  unfolding c_str_def using to_string_digits digit_not_nul by (simp add: takeWhile_eq_all_conv)

text \<open>What is printed is read back.\<close>

lemma strtoull_to_string: "strtoull (to_string n) = Some (word_of_nat n, [])" if "n < 2 ^ 64"
proof -
  obtain c cs where d: "to_string n = c # cs" by (cases "to_string n") auto
  have "is_digit c" using to_string_digits [of n] d by simp
  then have c: "\<not> is_space c" "c \<noteq> CHR ''-''" "c \<noteq> CHR ''+''"
    using digit_not_space digit_not_sign by blast+
  have t: "takeWhile is_digit (to_string n) = to_string n" "dropWhile is_digit (to_string n) = []"
    using to_string_digits [of n] by (simp_all add: takeWhile_eq_all_conv dropWhile_eq_Nil_conv)
  have s: "dropWhile is_space (to_string n) = to_string n" using c d by simp
  show ?thesis
    unfolding strtoull_def Let_def s using that t c d by (auto simp: digits_value_to_string [of n, unfolded d])
qed

text \<open>
  A suffix that begins with a separator and contains no other is determined by the whole
  text: addresses that are printed with separators can be told apart.
\<close>

lemma separated_suffix:
  assumes "xs @ c # ds = ys @ c # es" and "c \<notin> set ds" and "c \<notin> set es"
  shows "xs = ys \<and> ds = es"
proof -
  have "takeWhile (\<lambda>x. x \<noteq> c) (rev (xs @ c # ds)) = rev ds"
    using assms(2) by (auto intro: takeWhile_tail simp: takeWhile_append)
  moreover have "takeWhile (\<lambda>x. x \<noteq> c) (rev (ys @ c # es)) = rev es"
    using assms(3) by (auto simp: takeWhile_append)
  ultimately have "ds = es" using assms(1) by simp
  with assms(1) show ?thesis by simp
qed

end
