(* ===== verification/Store_Types.thy ===== *)
theory Store_Types
  imports Std_Map Status Text_Format
begin

text \<open>
  \<open>store/store_types.h\<close> and \<open>store/task_types.h\<close>: the records the store registry, the
  placement policy, the task manager and the metadata commands exchange. A \<open>std::int64_t\<close>
  time is a 64-bit word read with \<open>sint\<close>.
\<close>

section \<open>Stores\<close>

type_synonym StoreId = u64
type_synonym i64 = "64 word"

text \<open>
  The enumerations have \<open>std::uint8_t\<close> as their type, so a cast from a byte can yield a value they
  do not name: the last constructor, for the codes the others do not have.
\<close>

datatype StoreState = Store_RUNNING | Store_STOPPED | Store_FAILED | Store_other u8

record StoreAddress =
  sa_host :: string
  sa_port :: u16

record StoreInfo =
  si_id :: StoreId
  si_address :: StoreAddress
  si_capacity_bytes :: u64
  si_used_bytes :: u64
  si_state :: StoreState
  si_generation :: u64
  si_last_heartbeat_ms :: i64

record PersistentStoreInfo =
  ps_id :: StoreId
  ps_address :: StoreAddress
  ps_capacity_bytes :: u64
  ps_used_bytes :: u64
  ps_state :: StoreState
  ps_generation :: u64

record StoreUpdate =
  su_id :: StoreId
  su_expected_generation :: "u64 option"
  su_capacity_bytes :: "u64 option"
  su_used_bytes :: "u64 option"
  su_state :: "StoreState option"

section \<open>Tasks\<close>

type_synonym TaskId = string
type_synonym TaskPayload = bytes

datatype TaskType = Task_CREATE | Task_DELETE | Task_COPY | Task_CUSTOM | TaskType_other u8

datatype TaskState = Task_WAITING | Task_RUNNING | Task_SUCCESS | Task_FAILED | TaskState_other u8

record TaskRecord =
  tr_task_id :: TaskId
  tr_type :: TaskType
  tr_state :: TaskState
  tr_target_payload :: TaskPayload
  tr_assigned_store :: StoreId
  tr_result_payload :: TaskPayload
  tr_generation :: u64
  tr_sequence :: u64

record TaskCreateRequest =
  tc_task_id :: TaskId
  tc_type :: TaskType
  tc_target_payload :: TaskPayload

record TaskResultReport =
  rr_store_id :: StoreId
  rr_task_id :: TaskId
  rr_final_state :: TaskState
  rr_result_payload :: TaskPayload
  rr_expected_generation :: "u64 option"

section \<open>Counters\<close>

lemma counter_inc: "x + 1 \<noteq> 0" "x < x + 1" if "x \<noteq> - 1" for x :: u64
proof -
  show "x + 1 \<noteq> 0" using that by (metis add_eq_0_iff2)
  have "x < - 1" using that by (simp add: word_order.not_eq_extremum)
  then have "unat (x + 1) = Suc (unat x)" by (rule unat_inc)
  then show "x < x + 1" by (simp add: word_less_nat_alt)
qed

section \<open>Address keys\<close>

definition AddressKey :: "StoreAddress \<Rightarrow> string" where
  "AddressKey address = sa_host address @ '':'' @ to_string (unat (sa_port address))"

text \<open>
  Different addresses have different keys, whatever the host contains: the port is the part
  behind the last colon.
\<close>

lemma AddressKey_inj: "AddressKey a = AddressKey b \<longleftrightarrow> a = b"
proof
  assume "AddressKey a = AddressKey b"
  then have "sa_host a @ CHR '':'' # to_string (unat (sa_port a)) = sa_host b @ CHR '':'' # to_string (unat (sa_port b))"
    by (simp add: AddressKey_def)
  from separated_suffix [OF this no_colon_in_to_string no_colon_in_to_string]
  have "sa_host a = sa_host b" "to_string (unat (sa_port a)) = to_string (unat (sa_port b))" by simp_all
  then show "a = b" by (intro StoreAddress.equality) (auto simp: word_unat_eq_iff)
qed simp

end
