(* ===== verification/Store_Registry.thy ===== *)
theory Store_Registry
  imports Store_Types
begin

text \<open>
  \<open>store/store_registry.h\<close> and \<open>store/store_registry.cpp\<close>: the registry of block stores,
  an ordered map by store id. Each member function runs under
  the mutex and is one step. An optional output pointer receives what the function returns.
\<close>

section \<open>State\<close>

record StoreRegistry =
  sr_stores :: "(StoreId, StoreInfo) std_map"
  sr_address_index :: "(string, StoreId) std_map"

definition StoreRegistry_new :: StoreRegistry where
  "StoreRegistry_new = \<lparr>sr_stores = [], sr_address_index = []\<rparr>"

definition kInitialStoreGeneration :: u64 where
  "kInitialStoreGeneration = 1"

definition kMaxStoreHostBytes :: nat where
  "kMaxStoreHostBytes = 4 * 1024"

section \<open>Validation\<close>

definition IsKnownState :: "StoreState \<Rightarrow> bool" where
  "IsKnownState state \<longleftrightarrow> state = Store_RUNNING \<or> state = Store_STOPPED \<or> state = Store_FAILED"

definition Registry_ValidateStoreId :: "StoreId \<Rightarrow> Status" where
  "Registry_ValidateStoreId store_id = (if store_id = 0 then InvalidArgument else OK)"

definition Registry_ValidateAddress :: "StoreAddress \<Rightarrow> Status" where
  "Registry_ValidateAddress address =
     (if sa_host address = [] then InvalidArgument
      else if kMaxStoreHostBytes < length (sa_host address) then InvalidArgument
      else if sa_port address = 0 then InvalidArgument
      else OK)"

definition ValidateStoreFields :: "StoreInfo \<Rightarrow> Status" where
  "ValidateStoreFields store =
     (if \<not> ok (Registry_ValidateStoreId (si_id store)) then Registry_ValidateStoreId (si_id store)
      else if \<not> ok (Registry_ValidateAddress (si_address store))
        then Registry_ValidateAddress (si_address store)
      else if si_capacity_bytes store = 0 then InvalidArgument
      else if si_capacity_bytes store < si_used_bytes store then InvalidArgument
      else if \<not> IsKnownState (si_state store) then InvalidArgument
      else if si_generation store = 0 then InvalidArgument
      else OK)"

definition ToPersistent :: "StoreInfo \<Rightarrow> PersistentStoreInfo" where
  "ToPersistent store =
     \<lparr>ps_id = si_id store, ps_address = si_address store, ps_capacity_bytes = si_capacity_bytes store,
      ps_used_bytes = si_used_bytes store, ps_state = si_state store,
      ps_generation = si_generation store\<rparr>"

definition FromPersistent :: "PersistentStoreInfo \<Rightarrow> StoreInfo" where
  "FromPersistent store =
     \<lparr>si_id = ps_id store, si_address = ps_address store, si_capacity_bytes = ps_capacity_bytes store,
      si_used_bytes = ps_used_bytes store, si_state = ps_state store,
      si_generation = ps_generation store, si_last_heartbeat_ms = 0\<rparr>"

definition ValidatePersistentFields :: "PersistentStoreInfo \<Rightarrow> Status" where
  "ValidatePersistentFields store = ValidateStoreFields (FromPersistent store)"

section \<open>Operations\<close>

definition RegisterStore :: "StoreRegistry \<Rightarrow> StoreInfo \<Rightarrow> (Status + StoreInfo) \<times> StoreRegistry" where
  "RegisterStore r store =
     (let candidate = store\<lparr>si_state := Store_RUNNING, si_generation := kInitialStoreGeneration\<rparr>;
          key = AddressKey (si_address candidate)
      in if \<not> ok (ValidateStoreFields candidate) then (Inl (ValidateStoreFields candidate), r)
         else if sint (si_last_heartbeat_ms candidate) < 0 then (Inl InvalidArgument, r)
         else if map_find (sr_stores r) (si_id candidate) \<noteq> None then (Inl Busy, r)
         else if map_find (sr_address_index r) key \<noteq> None then (Inl Busy, r)
         else (Inr candidate,
               r\<lparr>sr_stores := map_emplace (si_id candidate) candidate (sr_stores r),
                 sr_address_index := map_emplace key (si_id candidate) (sr_address_index r)\<rparr>))"

definition apply_update :: "StoreUpdate \<Rightarrow> StoreInfo \<Rightarrow> StoreInfo" where
  "apply_update update current =
     (let c1 = (case su_capacity_bytes update of None \<Rightarrow> current
                | Some v \<Rightarrow> current\<lparr>si_capacity_bytes := v\<rparr>);
          c2 = (case su_used_bytes update of None \<Rightarrow> c1 | Some v \<Rightarrow> c1\<lparr>si_used_bytes := v\<rparr>)
      in case su_state update of None \<Rightarrow> c2 | Some v \<Rightarrow> c2\<lparr>si_state := v\<rparr>)"

definition UpdateStore :: "StoreRegistry \<Rightarrow> StoreUpdate \<Rightarrow> (Status + StoreInfo) \<times> StoreRegistry" where
  "UpdateStore r update =
     (if \<not> ok (Registry_ValidateStoreId (su_id update)) then (Inl (Registry_ValidateStoreId (su_id update)), r)
      else (case map_find (sr_stores r) (su_id update) of
              None \<Rightarrow> (Inl NotFound, r)
            | Some current \<Rightarrow>
                if su_capacity_bytes update = None \<and> su_used_bytes update = None \<and> su_state update = None
                  then (Inl InvalidArgument, r)
                else if su_expected_generation update \<noteq> None \<and>
                        su_expected_generation update \<noteq> Some (si_generation current) then (Inl Busy, r)
                else let updated = apply_update update current
                     in if si_generation updated = - 1 then (Inl Busy, r)
                        else let candidate = updated\<lparr>si_generation := si_generation updated + 1\<rparr>
                             in if \<not> ok (ValidateStoreFields candidate)
                                then (Inl (ValidateStoreFields candidate), r)
                                else (Inr candidate,
                                      r\<lparr>sr_stores := map_set (su_id update) candidate (sr_stores r)\<rparr>)))"

definition UpdateHeartbeat ::
  "StoreRegistry \<Rightarrow> StoreId \<Rightarrow> i64 \<Rightarrow> (Status + StoreInfo) \<times> StoreRegistry" where
  "UpdateHeartbeat r store_id heartbeat_ms =
     (if \<not> ok (Registry_ValidateStoreId store_id) then (Inl (Registry_ValidateStoreId store_id), r)
      else if sint heartbeat_ms < 0 then (Inl InvalidArgument, r)
      else (case map_find (sr_stores r) store_id of
              None \<Rightarrow> (Inl NotFound, r)
            | Some store \<Rightarrow>
                let updated = store\<lparr>si_last_heartbeat_ms := heartbeat_ms\<rparr>
                in (Inr updated, r\<lparr>sr_stores := map_set store_id updated (sr_stores r)\<rparr>)))"

definition RemoveStore :: "StoreRegistry \<Rightarrow> StoreId \<Rightarrow> Status \<times> StoreRegistry" where
  "RemoveStore r store_id =
     (if \<not> ok (Registry_ValidateStoreId store_id) then (Registry_ValidateStoreId store_id, r)
      else (case map_find (sr_stores r) store_id of
              None \<Rightarrow> (NotFound, r)
            | Some store \<Rightarrow>
                (OK, r\<lparr>sr_address_index := map_erase (AddressKey (si_address store)) (sr_address_index r),
                       sr_stores := map_erase store_id (sr_stores r)\<rparr>)))"

definition Registry_GetStore :: "StoreRegistry \<Rightarrow> StoreId \<Rightarrow> out_ptr \<Rightarrow> Status + StoreInfo" where
  "Registry_GetStore r store_id p =
     (if \<not> ok (require_out p) then Inl (require_out p)
      else if \<not> ok (Registry_ValidateStoreId store_id) then Inl (Registry_ValidateStoreId store_id)
      else (case map_find (sr_stores r) store_id of None \<Rightarrow> Inl NotFound | Some store \<Rightarrow> Inr store))"

definition GetStoreByAddress :: "StoreRegistry \<Rightarrow> StoreAddress \<Rightarrow> out_ptr \<Rightarrow> Status + StoreInfo" where
  "GetStoreByAddress r address p =
     (if \<not> ok (require_out p) then Inl (require_out p)
      else if \<not> ok (Registry_ValidateAddress address) then Inl (Registry_ValidateAddress address)
      else (case map_find (sr_address_index r) (AddressKey address) of
              None \<Rightarrow> Inl NotFound
            | Some store_id \<Rightarrow> (case map_find (sr_stores r) store_id of
                            None \<Rightarrow> Inl InternalError
                          | Some store \<Rightarrow> Inr store)))"

definition Registry_ListStores :: "StoreRegistry \<Rightarrow> out_ptr \<Rightarrow> Status + StoreInfo list" where
  "Registry_ListStores r p =
     (if \<not> ok (require_out p) then Inl (require_out p) else Inr (map snd (sr_stores r)))"

definition ListRunningStores :: "StoreRegistry \<Rightarrow> out_ptr \<Rightarrow> Status + StoreInfo list" where
  "ListRunningStores r p =
     (if \<not> ok (require_out p) then Inl (require_out p)
      else Inr (filter (\<lambda>store. si_state store = Store_RUNNING) (map snd (sr_stores r))))"

definition Registry_ExportPersistent :: "StoreRegistry \<Rightarrow> out_ptr \<Rightarrow> Status + PersistentStoreInfo list" where
  "Registry_ExportPersistent r p =
     (if \<not> ok (require_out p) then Inl (require_out p)
      else Inr (map (\<lambda>item. ToPersistent (snd item)) (sr_stores r)))"

fun restore_stores :: "PersistentStoreInfo list \<Rightarrow> StoreRegistry \<Rightarrow> Status + StoreRegistry" where
  "restore_stores [] r = Inr r"
| "restore_stores (store # stores) r =
     (let key = AddressKey (ps_address store)
      in if \<not> ok (ValidatePersistentFields store) then Inl (ValidatePersistentFields store)
         else if map_find (sr_stores r) (ps_id store) \<noteq> None then Inl Busy
         else if map_find (sr_address_index r) key \<noteq> None then Inl Busy
         else restore_stores stores
                (r\<lparr>sr_stores := map_emplace (ps_id store) (FromPersistent store) (sr_stores r),
                   sr_address_index := map_emplace key (ps_id store) (sr_address_index r)\<rparr>))"

definition Registry_RestorePersistent ::
  "StoreRegistry \<Rightarrow> PersistentStoreInfo list \<Rightarrow> Status \<times> StoreRegistry" where
  "Registry_RestorePersistent r stores =
     (case restore_stores stores StoreRegistry_new of
        Inl status \<Rightarrow> (status, r)
      | Inr restored \<Rightarrow> (OK, restored))"

section \<open>Invariant\<close>

definition registry_inv :: "StoreRegistry \<Rightarrow> bool" where
  "registry_inv r \<longleftrightarrow>
     map_wf (sr_stores r) \<and> map_wf (sr_address_index r) \<and>
     (\<forall>i s. map_find (sr_stores r) i = Some s \<longrightarrow> si_id s = i \<and> ValidateStoreFields s = OK) \<and>
     (\<forall>k i. map_find (sr_address_index r) k = Some i \<longleftrightarrow>
        (\<exists>s. map_find (sr_stores r) i = Some s \<and> AddressKey (si_address s) = k))"

text \<open>What the registry stands for: the stores by id. No two of them share an address.\<close>

definition abs_registry :: "StoreRegistry \<Rightarrow> (StoreId \<rightharpoonup> StoreInfo)" where
  "abs_registry r = map_find (sr_stores r)"


lemma registry_invD:
  assumes "registry_inv r"
  shows "map_wf (sr_stores r)" "map_wf (sr_address_index r)"
    "map_find (sr_stores r) i = Some s \<Longrightarrow> si_id s = i"
    "map_find (sr_stores r) i = Some s \<Longrightarrow> ValidateStoreFields s = OK"
    "map_find (sr_address_index r) k = Some i \<longleftrightarrow>
       (\<exists>s. map_find (sr_stores r) i = Some s \<and> AddressKey (si_address s) = k)"
  using assms by (auto simp: registry_inv_def)

lemma registry_inv_new [simp]: "registry_inv StoreRegistry_new"
  by (simp add: registry_inv_def StoreRegistry_new_def)

lemma registry_keys:
  assumes "registry_inv r" "map_find (sr_stores r) i = Some s" "map_find (sr_stores r) j = Some t"
    and "AddressKey (si_address s) = AddressKey (si_address t)"
  shows "i = j"
proof -
  have "map_find (sr_address_index r) (AddressKey (si_address s)) = Some i"
    "map_find (sr_address_index r) (AddressKey (si_address s)) = Some j"
    unfolding registry_invD(5) [OF assms(1)] using assms(2-4) by auto
  then show ?thesis by simp
qed


text \<open>The index has an address exactly when some store has it.\<close>

lemma index_free:
  assumes "registry_inv r"
  shows "map_find (sr_address_index r) (AddressKey a) = None \<longleftrightarrow>
     (\<forall>i s. abs_registry r i = Some s \<longrightarrow> si_address s \<noteq> a)"
proof -
  have "map_find (sr_address_index r) (AddressKey a) = None \<longleftrightarrow>
      (\<forall>i. map_find (sr_address_index r) (AddressKey a) \<noteq> Some i)"
    by (simp only: not_Some_eq)
  then show ?thesis unfolding registry_invD(5) [OF assms] by (auto simp: abs_registry_def AddressKey_inj)
qed

lemma registry_inv_insert [inv_intro]:
  assumes r: "registry_inv r" and fields: "ValidateStoreFields s = OK" "si_id s = i"
    and new: "map_find (sr_stores r) i = None" "map_find (sr_address_index r) (AddressKey (si_address s)) = None"
  shows "registry_inv (r\<lparr>sr_stores := map_emplace i s (sr_stores r),
    sr_address_index := map_emplace (AddressKey (si_address s)) i (sr_address_index r)\<rparr>)"
proof -
  have free: "AddressKey (si_address t) \<noteq> AddressKey (si_address s)" if "map_find (sr_stores r) j = Some t" for j t
    using new(2) that registry_invD(5) [OF r, of "AddressKey (si_address s)" j] by auto
  show ?thesis
    using r fields new free unfolding registry_inv_def by auto
qed

lemma registry_inv_change [inv_intro]:
  assumes r: "registry_inv r" and old: "map_find (sr_stores r) i = Some s"
    and new: "ValidateStoreFields t = OK" "si_id t = i" "si_address t = si_address s"
  shows "registry_inv (r\<lparr>sr_stores := map_set i t (sr_stores r)\<rparr>)"
  using r old new unfolding registry_inv_def by auto

lemma registry_inv_remove [inv_intro]:
  assumes r: "registry_inv r" and old: "map_find (sr_stores r) i = Some s"
  shows "registry_inv (r\<lparr>sr_address_index := map_erase (AddressKey (si_address s)) (sr_address_index r),
    sr_stores := map_erase i (sr_stores r)\<rparr>)"
proof -
  have "j \<noteq> i \<longleftrightarrow> AddressKey (si_address t) \<noteq> AddressKey (si_address s)" if "map_find (sr_stores r) j = Some t" for j t
    using registry_keys [OF r that old] old that by auto
  moreover have "map_find (map_erase (AddressKey (si_address s)) (sr_address_index r)) k = Some j \<longleftrightarrow>
      k \<noteq> AddressKey (si_address s) \<and>
      (\<exists>t. map_find (sr_stores r) j = Some t \<and> AddressKey (si_address t) = k)" for k j
    unfolding smap.find_remove using registry_invD(5) [OF r] by auto
  ultimately show ?thesis
    using r unfolding registry_inv_def by (auto simp: smap.find_remove smap.invar_remove)
qed

lemma apply_update_fields [simp]:
  "si_id (apply_update u s) = si_id s" "si_address (apply_update u s) = si_address s"
  "si_generation (apply_update u s) = si_generation s"
  by (simp_all add: apply_update_def Let_def split: option.splits)

section \<open>Abstract specification\<close>

datatype registry_op =
    Op_RegisterStore StoreInfo
  | Op_UpdateStore StoreUpdate
  | Op_UpdateHeartbeat StoreId i64
  | Op_RemoveStore StoreId

fun registry_exec :: "registry_op \<Rightarrow> StoreRegistry \<Rightarrow> (Status + unit) \<times> StoreRegistry" where
  "registry_exec (Op_RegisterStore s) r = map_prod (map_sum (\<lambda>e. e) (\<lambda>_. ())) (\<lambda>r. r) (RegisterStore r s)"
| "registry_exec (Op_UpdateStore u) r = map_prod (map_sum (\<lambda>e. e) (\<lambda>_. ())) (\<lambda>r. r) (UpdateStore r u)"
| "registry_exec (Op_UpdateHeartbeat i h) r =
     map_prod (map_sum (\<lambda>e. e) (\<lambda>_. ())) (\<lambda>r. r) (UpdateHeartbeat r i h)"
| "registry_exec (Op_RemoveStore i) r =
     (case RemoveStore r i of (status, r') \<Rightarrow> (if ok status then Inr () else Inl status, r'))"

text \<open>
  The specification has no index: a registry is a finite map from ids to stores in which ids
  and addresses are unique.
\<close>

fun registry_spec :: "registry_op \<Rightarrow> (StoreId \<rightharpoonup> StoreInfo) \<Rightarrow> (Status + unit) \<times> (StoreId \<rightharpoonup> StoreInfo)" where
  "registry_spec (Op_RegisterStore s) m =
     (let new = s\<lparr>si_state := Store_RUNNING, si_generation := 1\<rparr>
      in if ValidateStoreFields new \<noteq> OK \<or> sint (si_last_heartbeat_ms s) < 0 then (Inl InvalidArgument, m)
         else if si_id s \<in> dom m \<or> (\<exists>t \<in> ran m. si_address t = si_address s) then (Inl Busy, m)
         else (Inr (), m(si_id s \<mapsto> new)))"
| "registry_spec (Op_UpdateStore u) m =
     (if su_id u = 0 then (Inl InvalidArgument, m)
      else case m (su_id u) of
             None \<Rightarrow> (Inl NotFound, m)
           | Some s \<Rightarrow>
               if su_capacity_bytes u = None \<and> su_used_bytes u = None \<and> su_state u = None
                 then (Inl InvalidArgument, m)
               else if su_expected_generation u \<notin> {None, Some (si_generation s)} \<or> si_generation s = - 1
                 then (Inl Busy, m)
               else let new = apply_update u (s\<lparr>si_generation := si_generation s + 1\<rparr>)
                    in if si_capacity_bytes new = 0 \<or> si_capacity_bytes new < si_used_bytes new \<or>
                           \<not> IsKnownState (si_state new)
                       then (Inl InvalidArgument, m)
                       else (Inr (), m(su_id u \<mapsto> new)))"
| "registry_spec (Op_UpdateHeartbeat i h) m =
     (if i = 0 \<or> sint h < 0 then (Inl InvalidArgument, m)
      else case m i of None \<Rightarrow> (Inl NotFound, m)
                     | Some s \<Rightarrow> (Inr (), m(i \<mapsto> s\<lparr>si_last_heartbeat_ms := h\<rparr>)))"
| "registry_spec (Op_RemoveStore i) m =
     (if i = 0 then (Inl InvalidArgument, m)
      else if i \<in> dom m then (Inr (), m(i := None)) else (Inl NotFound, m))"

lemma ValidateStoreFields_cases: "ValidateStoreFields s = OK \<or> ValidateStoreFields s = InvalidArgument"
  by (simp add: ValidateStoreFields_def Registry_ValidateStoreId_def Registry_ValidateAddress_def)

lemma ValidateStoreFields_heartbeat [simp]: "ValidateStoreFields (s\<lparr>si_last_heartbeat_ms := h\<rparr>) = ValidateStoreFields s"
  by (simp add: ValidateStoreFields_def)

lemma From_ToPersistent [simp]: "FromPersistent (ToPersistent s) = s\<lparr>si_last_heartbeat_ms := 0\<rparr>"
  by (simp add: FromPersistent_def ToPersistent_def)

lemma ToPersistent_fields [simp]: "ps_id (ToPersistent s) = si_id s" "ps_address (ToPersistent s) = si_address s"
  by (simp_all add: ToPersistent_def)

lemma case_option_same: "(case x of None \<Rightarrow> None | Some s \<Rightarrow> Some s) = x"
  by (cases x) simp_all

lemma apply_update_commute:
  "apply_update u (s\<lparr>si_generation := g\<rparr>) = (apply_update u s)\<lparr>si_generation := g\<rparr>"
  by (simp add: apply_update_def Let_def split: option.splits)

lemma ValidateStoreFields_update:
  assumes "ValidateStoreFields s = OK" "si_id t = si_id s" "si_address t = si_address s" "si_generation t \<noteq> 0"
  shows "ValidateStoreFields t =
    (if si_capacity_bytes t = 0 \<or> si_capacity_bytes t < si_used_bytes t \<or> \<not> IsKnownState (si_state t)
     then InvalidArgument else OK)"
  using assms by (cases "si_state t") (auto simp: ValidateStoreFields_def IsKnownState_def split: if_splits)

lemma RegisterStore_refines:
  assumes r: "registry_inv r"
  shows "registry_inv (snd (RegisterStore r s))"
    and "map_prod (\<lambda>x. x) abs_registry (registry_exec (Op_RegisterStore s) r) =
      registry_spec (Op_RegisterStore s) (abs_registry r)"
proof -
  let ?s = "s\<lparr>si_state := Store_RUNNING, si_generation := 1\<rparr>"
  have "map_find (sr_address_index r) (AddressKey (si_address s)) = None \<longleftrightarrow>
      \<not> (\<exists>t \<in> ran (abs_registry r). si_address t = si_address s)"
    unfolding index_free [OF r] by (auto simp: ran_def)
  moreover have "map_find (sr_stores r) (si_id s) = None \<longleftrightarrow> si_id s \<notin> dom (abs_registry r)"
    by (auto simp: abs_registry_def)
  moreover note ValidateStoreFields_cases [of ?s] registry_inv_insert [OF r, of ?s "si_id s"]
  ultimately show "registry_inv (snd (RegisterStore r s))"
    and "map_prod (\<lambda>x. x) abs_registry (registry_exec (Op_RegisterStore s) r) =
      registry_spec (Op_RegisterStore s) (abs_registry r)"
    using r by (auto simp: RegisterStore_def Let_def kInitialStoreGeneration_def abs_registry_def fun_eq_iff)
qed

lemma UpdateStore_refines:
  assumes r: "registry_inv r"
  shows "registry_inv (snd (UpdateStore r u))"
    and "map_prod (\<lambda>x. x) abs_registry (registry_exec (Op_UpdateStore u) r) =
      registry_spec (Op_UpdateStore u) (abs_registry r)"
proof -
  have valid: "ValidateStoreFields (apply_update u (s\<lparr>si_generation := si_generation s + 1\<rparr>)) =
      (if si_capacity_bytes (apply_update u s) = 0 \<or>
          si_capacity_bytes (apply_update u s) < si_used_bytes (apply_update u s) \<or>
          \<not> IsKnownState (si_state (apply_update u s))
       then InvalidArgument else OK)"
    if "map_find (sr_stores r) (su_id u) = Some s" "si_generation s \<noteq> - 1" for s
    using ValidateStoreFields_update [OF registry_invD(4) [OF r that(1)],
        of "apply_update u (s\<lparr>si_generation := si_generation s + 1\<rparr>)"] counter_inc(1) [OF that(2)]
    by (simp add: apply_update_commute)
  have inv: "registry_inv (r\<lparr>sr_stores := map_set (su_id u) t (sr_stores r)\<rparr>)"
    if "map_find (sr_stores r) (su_id u) = Some s" "ValidateStoreFields t = OK" "si_id t = si_id s"
      "si_address t = si_address s" for s t
    using registry_inv_change [OF r that(1,2) _ that(4)] registry_invD(3) [OF r that(1)] that(3) by simp
  show "registry_inv (snd (UpdateStore r u))"
    using r by (auto simp: UpdateStore_def Let_def intro!: inv split: option.splits)
  show "map_prod (\<lambda>x. x) abs_registry (registry_exec (Op_UpdateStore u) r) =
      registry_spec (Op_UpdateStore u) (abs_registry r)"
    using valid
    by (auto simp: UpdateStore_def Registry_ValidateStoreId_def Let_def abs_registry_def fun_eq_iff
        apply_update_commute split: option.splits)
qed

lemma UpdateHeartbeat_refines:
  assumes r: "registry_inv r"
  shows "registry_inv (snd (UpdateHeartbeat r i h))"
    and "map_prod (\<lambda>x. x) abs_registry (registry_exec (Op_UpdateHeartbeat i h) r) =
      registry_spec (Op_UpdateHeartbeat i h) (abs_registry r)"
proof -
  have "registry_inv (r\<lparr>sr_stores := map_set i (s\<lparr>si_last_heartbeat_ms := h\<rparr>) (sr_stores r)\<rparr>)"
    if "map_find (sr_stores r) i = Some s" for s
    using registry_invD(3,4) [OF r that]
    by (intro registry_inv_change [OF r that]) simp_all
  then show "registry_inv (snd (UpdateHeartbeat r i h))"
    using r by (auto simp: UpdateHeartbeat_def Let_def split: option.splits)
  show "map_prod (\<lambda>x. x) abs_registry (registry_exec (Op_UpdateHeartbeat i h) r) =
      registry_spec (Op_UpdateHeartbeat i h) (abs_registry r)"
    by (auto simp: UpdateHeartbeat_def Registry_ValidateStoreId_def Let_def abs_registry_def fun_eq_iff
        split: option.splits)
qed

lemma RemoveStore_refines:
  assumes r: "registry_inv r"
  shows "registry_inv (snd (RemoveStore r i))"
    and "map_prod (\<lambda>x. x) abs_registry (registry_exec (Op_RemoveStore i) r) =
      registry_spec (Op_RemoveStore i) (abs_registry r)"
  using r registry_inv_remove [OF r]
  by (auto simp: RemoveStore_def Registry_ValidateStoreId_def abs_registry_def fun_eq_iff smap.find_remove
      split: option.splits)

lemma registry_exec_refines:
  assumes "registry_inv r"
  shows "registry_inv (snd (registry_exec op r)) \<and>
    map_prod (\<lambda>x. x) abs_registry (registry_exec op r) = registry_spec op (abs_registry r)"
  using RegisterStore_refines [OF assms] UpdateStore_refines [OF assms] UpdateHeartbeat_refines [OF assms]
    RemoveStore_refines [OF assms]
  by (cases op) (auto simp del: registry_spec.simps simp: case_prod_beta)

text \<open>A sequence of operations on the registry, and on the specification.\<close>

definition registry_run :: "registry_op list \<Rightarrow> StoreRegistry \<Rightarrow> StoreRegistry" where
  "registry_run ops r = fold (\<lambda>op r. snd (registry_exec op r)) ops r"

definition registry_spec_run :: "registry_op list \<Rightarrow> (StoreId \<rightharpoonup> StoreInfo) \<Rightarrow> (StoreId \<rightharpoonup> StoreInfo)" where
  "registry_spec_run ops m = fold (\<lambda>op m. snd (registry_spec op m)) ops m"

lemma registry_run_refines:
  "registry_inv r \<Longrightarrow> registry_inv (registry_run ops r) \<and>
     abs_registry (registry_run ops r) = registry_spec_run ops (abs_registry r)"
proof (induction ops arbitrary: r)
  case (Cons op ops)
  have "abs_registry (snd (registry_exec op r)) = snd (registry_spec op (abs_registry r))"
    using registry_exec_refines [OF Cons.prems, of op] by (metis snd_map_prod)
  then show ?case
    using Cons.IH [of "snd (registry_exec op r)"] registry_exec_refines [OF Cons.prems, of op]
    by (simp add: registry_run_def registry_spec_run_def)
qed (simp add: registry_run_def registry_spec_run_def)

section \<open>Persistence\<close>

lemma restore_stores_append:
  assumes "registry_inv r" "\<forall>s \<in> set ss. ValidatePersistentFields s = OK"
    and "distinct (map ps_id ss)" "distinct (map ps_address ss)"
    and "\<forall>s \<in> set ss. map_find (sr_stores r) (ps_id s) = None"
    and "\<forall>s \<in> set ss. map_find (sr_address_index r) (AddressKey (ps_address s)) = None"
  shows "\<exists>r'. restore_stores ss r = Inr r' \<and> registry_inv r' \<and>
    (\<forall>i. map_find (sr_stores r') i =
      (case map_of (map (\<lambda>s. (ps_id s, FromPersistent s)) ss) i of
         Some s \<Rightarrow> Some s | None \<Rightarrow> map_find (sr_stores r) i))"
  using assms
proof (induction ss arbitrary: r)
  case (Cons s ss)
  let ?r = "r\<lparr>sr_stores := map_emplace (ps_id s) (FromPersistent s) (sr_stores r),
    sr_address_index := map_emplace (AddressKey (ps_address s)) (ps_id s) (sr_address_index r)\<rparr>"
  have "registry_inv ?r"
    using registry_inv_insert [OF Cons.prems(1), of "FromPersistent s" "ps_id s"] Cons.prems
    by (simp add: ValidatePersistentFields_def) (simp add: FromPersistent_def)
  moreover have "map_of (map (\<lambda>s. (ps_id s, FromPersistent s)) ss) (ps_id s) = None"
    using Cons.prems(3) by (auto simp: map_of_eq_None_iff)
  moreover have "\<forall>t \<in> set ss. map_find (sr_stores ?r) (ps_id t) = None"
    "\<forall>t \<in> set ss. map_find (sr_address_index ?r) (AddressKey (ps_address t)) = None"
    using Cons.prems(3-6) by (auto simp: AddressKey_inj image_iff)
  ultimately obtain r' where "restore_stores ss ?r = Inr r'" "registry_inv r'"
    "\<forall>i. map_find (sr_stores r') i = (case map_of (map (\<lambda>s. (ps_id s, FromPersistent s)) ss) i of
       Some s \<Rightarrow> Some s | None \<Rightarrow> map_find (sr_stores ?r) i)"
    using Cons.IH [of ?r] Cons.prems(2-4) by auto
  moreover have "restore_stores (s # ss) r = restore_stores ss ?r"
    using Cons.prems by (simp add: Let_def)
  ultimately show ?case using Cons.prems(5)
    by (intro exI [of _ r']) (auto simp: \<open>map_of _ (ps_id s) = None\<close> split: option.splits)
qed simp

lemma map_of_exported:
  assumes "registry_inv r"
  shows "map_of (map (\<lambda>s. (ps_id s, FromPersistent s)) (map (\<lambda>item. ToPersistent (snd item)) (sr_stores r))) i =
    map_option (\<lambda>s. s\<lparr>si_last_heartbeat_ms := 0\<rparr>) (abs_registry r i)"
proof -
  have ids: "si_id (snd item) = fst item" if "item \<in> set (sr_stores r)" for item
    using registry_invD(3) [OF assms] map_find_mem [OF registry_invD(1) [OF assms]] that
    by (metis prod.collapse)
  have "map (\<lambda>s. (ps_id s, FromPersistent s)) (map (\<lambda>item. ToPersistent (snd item)) (sr_stores r)) =
      map (\<lambda>(i, s). (i, s\<lparr>si_last_heartbeat_ms := 0\<rparr>)) (sr_stores r)"
    using ids by auto
  then show ?thesis
    using map_find_map_values [of "\<lambda>_ s. s\<lparr>si_last_heartbeat_ms := 0\<rparr>" "sr_stores r" i]
    by (simp only: map_find_def abs_registry_def)
qed

lemma exported_distinct:
  assumes "registry_inv r"
  shows "distinct (map ps_id (map (\<lambda>item. ToPersistent (snd item)) (sr_stores r)))"
    and "distinct (map ps_address (map (\<lambda>item. ToPersistent (snd item)) (sr_stores r)))"
proof -
  let ?m = "sr_stores r"
  have mem: "(i, s) \<in> set ?m \<longleftrightarrow> map_find ?m i = Some s" for i s
    using map_find_mem [OF registry_invD(1) [OF assms]] by simp
  have "distinct (map fst ?m)"
    using registry_invD(1) [OF assms] by (simp add: map_wf_def strict_sorted_iff)
  moreover have "inj_on (\<lambda>item. si_id (snd item)) (set ?m)"
  proof (rule inj_onI)
    fix x y assume xy: "x \<in> set ?m" "y \<in> set ?m" "si_id (snd x) = si_id (snd y)"
    then have f: "map_find ?m (fst x) = Some (snd x)" "map_find ?m (fst y) = Some (snd y)"
      using mem [of "fst x" "snd x"] mem [of "fst y" "snd y"] by simp_all
    then have "fst x = fst y" using registry_invD(3) [OF assms f(1)] registry_invD(3) [OF assms f(2)] xy(3) by simp
    then show "x = y" using f by (simp add: prod_eq_iff)
  qed
  moreover have "inj_on (\<lambda>item. si_address (snd item)) (set ?m)"
  proof (rule inj_onI)
    fix x y assume xy: "x \<in> set ?m" "y \<in> set ?m" "si_address (snd x) = si_address (snd y)"
    then have f: "map_find ?m (fst x) = Some (snd x)" "map_find ?m (fst y) = Some (snd y)"
      using mem [of "fst x" "snd x"] mem [of "fst y" "snd y"] by simp_all
    have "fst x = fst y" by (rule registry_keys [OF assms f]) (simp add: xy(3))
    then show "x = y" using f by (simp add: prod_eq_iff)
  qed
  ultimately have d: "distinct (map (\<lambda>item. si_id (snd item)) ?m)" "distinct (map (\<lambda>item. si_address (snd item)) ?m)"
    unfolding distinct_map by blast+
  have eq: "map ps_id (map (\<lambda>item. ToPersistent (snd item)) ?m) = map (\<lambda>item. si_id (snd item)) ?m"
    "map ps_address (map (\<lambda>item. ToPersistent (snd item)) ?m) = map (\<lambda>item. si_address (snd item)) ?m"
    by simp_all
  show "distinct (map ps_id (map (\<lambda>item. ToPersistent (snd item)) ?m))"
    "distinct (map ps_address (map (\<lambda>item. ToPersistent (snd item)) ?m))"
    unfolding eq using d by blast+
qed

lemma registry_roundtrip:
  assumes "registry_inv r"
  shows "\<exists>ps r'. Registry_ExportPersistent r out = Inr ps \<and> Registry_RestorePersistent any ps = (OK, r') \<and>
    registry_inv r' \<and> sr_address_index r' = sr_address_index r \<and>
    abs_registry r' = (\<lambda>i. map_option (\<lambda>s. s\<lparr>si_last_heartbeat_ms := 0\<rparr>) (abs_registry r i))"
proof -
  let ?ps = "map (\<lambda>item. ToPersistent (snd item)) (sr_stores r)"
  have valid: "\<forall>p \<in> set ?ps. ValidatePersistentFields p = OK"
  proof
    fix p assume "p \<in> set ?ps"
    then obtain i s where "map_find (sr_stores r) i = Some s" "p = ToPersistent s"
      using map_find_mem [OF registry_invD(1) [OF assms]] by fastforce
    then show "ValidatePersistentFields p = OK"
      using registry_invD(4) [OF assms] by (simp add: ValidatePersistentFields_def)
  qed
  obtain r' where r': "restore_stores ?ps StoreRegistry_new = Inr r'" "registry_inv r'"
    "\<forall>i. map_find (sr_stores r') i = map_option (\<lambda>s. s\<lparr>si_last_heartbeat_ms := 0\<rparr>) (abs_registry r i)"
    using restore_stores_append [OF registry_inv_new valid exported_distinct [OF assms]]
    unfolding map_of_exported [OF assms] StoreRegistry_new_def
    by (auto simp: option.case_eq_if map_option_case)
  have "sr_address_index r' = sr_address_index r"
  proof (rule map_wf_ext [OF registry_invD(2) [OF r'(2)] registry_invD(2) [OF assms]], rule option_eqI)
    fix k i
    show "map_find (sr_address_index r') k = Some i \<longleftrightarrow> map_find (sr_address_index r) k = Some i"
      unfolding registry_invD(5) [OF r'(2)] registry_invD(5) [OF assms] r'(3) [rule_format]
      by (auto simp: abs_registry_def)
  qed
  then show ?thesis
    using r' by (auto simp: Registry_ExportPersistent_def Registry_RestorePersistent_def abs_registry_def fun_eq_iff)
qed

lemma GetStoreByAddress_cases:
  assumes r: "registry_inv r"
  shows "(GetStoreByAddress r a out = Inr s \<longleftrightarrow>
      Registry_ValidateAddress a = OK \<and> (\<exists>i. abs_registry r i = Some s) \<and> si_address s = a) \<and>
    GetStoreByAddress r a out \<noteq> Inl InternalError"
proof -
  let ?v = "Registry_ValidateAddress a"
  have valid: "?v \<noteq> InternalError" by (simp add: Registry_ValidateAddress_def)
  show ?thesis
  proof (cases "map_find (sr_address_index r) (AddressKey a)")
    case None
    then have none: "\<not> ((\<exists>i. abs_registry r i = Some s) \<and> si_address s = a)"
      using index_free [OF r] by blast
    have "GetStoreByAddress r a out = (if ?v \<noteq> OK then Inl ?v else Inl NotFound)"
      by (simp add: GetStoreByAddress_def None)
    then show ?thesis using none valid by (cases "?v = OK") simp_all
  next
    case (Some i)
    then obtain t where t: "map_find (sr_stores r) i = Some t" "si_address t = a"
      using registry_invD(5) [OF r] AddressKey_inj by auto
    have "u = t" if "map_find (sr_stores r) j = Some u" "si_address u = a" for j u
    proof -
      have "i = j" by (rule registry_keys [OF r t(1) that(1)]) (simp add: t(2) that(2))
      then show ?thesis using t(1) that(1) by simp
    qed
    then have one: "(\<exists>j. abs_registry r j = Some s) \<and> si_address s = a \<longleftrightarrow> t = s"
      using t unfolding abs_registry_def by blast
    have "GetStoreByAddress r a out = (if ?v \<noteq> OK then Inl ?v else Inr t)"
      by (simp add: GetStoreByAddress_def Some t)
    then show ?thesis using valid unfolding one by (cases "?v = OK") simp_all
  qed
qed

section \<open>Properties\<close>


text \<open>
  The lookup by address finds the store with that address when there is one, and never reports an
  inconsistent index.
\<close>

theorem GetStoreByAddress_exact:
  "let r = registry_run ops StoreRegistry_new
   in (GetStoreByAddress r a out = Inr s \<longleftrightarrow>
        Registry_ValidateAddress a = OK \<and> (\<exists>i. abs_registry r i = Some s) \<and> si_address s = a) \<and>
      GetStoreByAddress r a out \<noteq> Inl InternalError"
proof -
  define r where "r = registry_run ops StoreRegistry_new"
  have r: "registry_inv r" unfolding r_def using registry_run_refines [OF registry_inv_new] by blast
  then show ?thesis unfolding r_def [symmetric] Let_def by (rule GetStoreByAddress_cases)
qed

text \<open>
  What the registry exports can be restored, into any registry, and gives back the same stores
  and the same index, with every heartbeat reset.
\<close>

theorem registry_persistent_roundtrip:
  "let r = registry_run ops StoreRegistry_new
   in \<exists>ps r'. Registry_ExportPersistent r out = Inr ps \<and> Registry_RestorePersistent any ps = (OK, r') \<and>
        registry_inv r' \<and> sr_address_index r' = sr_address_index r \<and>
        abs_registry r' = (\<lambda>i. map_option (\<lambda>s. s\<lparr>si_last_heartbeat_ms := 0\<rparr>) (abs_registry r i))"
  unfolding Let_def by (rule registry_roundtrip) (use registry_run_refines [OF registry_inv_new] in blast)

end
