(* ===== verification/Placement.thy ===== *)
theory Placement
  imports Store_Types "HOL-Library.Product_Lexorder"
begin

text \<open>
  \<open>store/placement_policy.h\<close> and \<open>store/placement_policy.cpp\<close>: \<open>SimplePlacementPolicy\<close> picks
  the stores with the most free capacity. \<open>IPlacementPolicy\<close> is the locale \<open>placement_policy\<close>,
  which the model of the simple policy interprets.
\<close>

section \<open>Types\<close>

record PlacementRequest =
  plr_replica_count :: u32
  plr_required_capacity_bytes :: u64

record PlacementResult =
  selected_store_ids :: "StoreId list"

datatype EligibleStore = EligibleStore (es_id: StoreId) (es_remaining_capacity: u64)

text \<open>The comparison \<open>std::sort\<close> is called with: most free capacity first, then the smaller id.\<close>

instantiation EligibleStore :: linorder
begin

definition less_eq_EligibleStore :: "EligibleStore \<Rightarrow> EligibleStore \<Rightarrow> bool" where
  "lhs \<le> rhs \<longleftrightarrow> lhs = rhs \<or>
     (if es_remaining_capacity lhs \<noteq> es_remaining_capacity rhs
      then es_remaining_capacity rhs < es_remaining_capacity lhs else es_id lhs < es_id rhs)"

definition less_EligibleStore :: "EligibleStore \<Rightarrow> EligibleStore \<Rightarrow> bool" where
  "lhs < rhs \<longleftrightarrow>
     (if es_remaining_capacity lhs \<noteq> es_remaining_capacity rhs
      then es_remaining_capacity rhs < es_remaining_capacity lhs else es_id lhs < es_id rhs)"

instance
proof
  fix x y z :: EligibleStore
  show "x < y \<longleftrightarrow> x \<le> y \<and> \<not> y \<le> x"
    by (cases x; cases y) (auto simp: less_eq_EligibleStore_def less_EligibleStore_def)
  show "x \<le> x" by (simp add: less_eq_EligibleStore_def)
  show "x \<le> y \<Longrightarrow> y \<le> z \<Longrightarrow> x \<le> z"
    by (cases x; cases y; cases z) (auto simp: less_eq_EligibleStore_def split: if_splits)
  show "x \<le> y \<Longrightarrow> y \<le> x \<Longrightarrow> x = y"
    by (cases x; cases y) (auto simp: less_eq_EligibleStore_def split: if_splits)
  show "x \<le> y \<or> y \<le> x"
    by (cases x; cases y) (auto simp: less_eq_EligibleStore_def)
qed

end

section \<open>Validation\<close>

definition Placement_IsKnownState :: "StoreState \<Rightarrow> bool" where
  "Placement_IsKnownState state \<longleftrightarrow> state = Store_RUNNING \<or> state = Store_STOPPED \<or> state = Store_FAILED"

definition ValidateRequest :: "PlacementRequest \<Rightarrow> Status" where
  "ValidateRequest request =
     (if plr_replica_count request = 0 then InvalidArgument
      else if plr_required_capacity_bytes request = 0 then InvalidArgument
      else OK)"

definition ValidateCandidate :: "StoreInfo \<Rightarrow> Status" where
  "ValidateCandidate store =
     (if si_id store = 0 then InvalidArgument
      else if sa_host (si_address store) = [] then InvalidArgument
      else if sa_port (si_address store) = 0 then InvalidArgument
      else if \<not> Placement_IsKnownState (si_state store) then InvalidArgument
      else if si_generation store = 0 then InvalidArgument
      else if si_capacity_bytes store < si_used_bytes store then InvalidArgument
      else OK)"

section \<open>Selection\<close>

fun collect_candidates ::
  "StoreInfo list \<Rightarrow> (StoreId, StoreInfo) std_map \<Rightarrow> (string, StoreId) std_map \<Rightarrow>
     Status + (StoreId, StoreInfo) std_map" where
  "collect_candidates [] by_id by_address = Inr by_id"
| "collect_candidates (candidate # candidates) by_id by_address =
     (if \<not> ok (ValidateCandidate candidate) then Inl (ValidateCandidate candidate)
      else if map_find by_id (si_id candidate) \<noteq> None then Inl InvalidArgument
      else if map_find by_address (AddressKey (si_address candidate)) \<noteq> None then Inl InvalidArgument
      else collect_candidates candidates
             (map_emplace (si_id candidate) candidate by_id)
             (map_emplace (AddressKey (si_address candidate)) (si_id candidate) by_address))"

definition remaining_capacity :: "StoreInfo \<Rightarrow> u64" where
  "remaining_capacity store = si_capacity_bytes store - si_used_bytes store"

text \<open>The loop over \<open>by_id\<close>: a 32-bit counter of running stores, and the eligible ones.\<close>

fun scan_stores :: "u64 \<Rightarrow> StoreInfo list \<Rightarrow> u32 \<times> EligibleStore list \<Rightarrow> u32 \<times> EligibleStore list" where
  "scan_stores required [] acc = acc"
| "scan_stores required (store # stores) (running_count, eligible) =
     (if si_state store \<noteq> Store_RUNNING then scan_stores required stores (running_count, eligible)
      else scan_stores required stores
             (running_count + 1,
              if required \<le> remaining_capacity store
              then eligible @ [EligibleStore (si_id store) (remaining_capacity store)] else eligible))"

definition SelectStores :: "PlacementRequest \<Rightarrow> StoreInfo list \<Rightarrow> out_ptr \<Rightarrow> Status + PlacementResult" where
  "SelectStores request candidates p =
     (if \<not> ok (require_out p) then Inl (require_out p)
      else if \<not> ok (ValidateRequest request) then Inl (ValidateRequest request)
      else and_then (collect_candidates candidates [] []) (\<lambda>by_id.
        let (running_count, eligible) =
              scan_stores (plr_required_capacity_bytes request) (map snd by_id) (0, [])
        in if running_count < plr_replica_count request then Inl ResourceExhausted
           else if length eligible < unat (plr_replica_count request) then Inl ResourceExhausted
           else Inr \<lparr>selected_store_ids =
                       map es_id (take (unat (plr_replica_count request)) (sort eligible))\<rparr>))"

section \<open>What the loops compute\<close>

definition eligible_for :: "PlacementRequest \<Rightarrow> StoreInfo \<Rightarrow> bool" where
  "eligible_for request s \<longleftrightarrow>
     si_state s = Store_RUNNING \<and> plr_required_capacity_bytes request \<le> remaining_capacity s"

definition candidates_ok :: "StoreInfo list \<Rightarrow> bool" where
  "candidates_ok cs \<longleftrightarrow>
     (\<forall>s \<in> set cs. ValidateCandidate s = OK) \<and> distinct (map si_id cs) \<and> distinct (map si_address cs)"

definition as_eligible :: "StoreInfo \<Rightarrow> EligibleStore" where
  "as_eligible s = EligibleStore (si_id s) (remaining_capacity s)"

lemma as_eligible_sel [simp]:
  "es_id (as_eligible s) = si_id s" "es_remaining_capacity (as_eligible s) = remaining_capacity s"
  by (simp_all add: as_eligible_def)

lemma as_eligible_less:
  "as_eligible s < as_eligible t \<longleftrightarrow> remaining_capacity t < remaining_capacity s \<or>
     (remaining_capacity t = remaining_capacity s \<and> si_id s < si_id t)"
  by (auto simp: less_EligibleStore_def)

lemma ValidateCandidate_cases: "ValidateCandidate s = OK \<or> ValidateCandidate s = InvalidArgument"
  by (simp add: ValidateCandidate_def)

lemma mset_map_set_new: "map_find m k = None \<Longrightarrow> mset (map_set k v m) = add_mset (k, v) (mset m)"
  by (induction k v m rule: map_set.induct) (auto simp: map_find_def)

text \<open>None of the candidates has an id or an address that is already taken.\<close>

definition not_taken ::
  "(StoreId, StoreInfo) std_map \<Rightarrow> (string, StoreId) std_map \<Rightarrow> StoreInfo list \<Rightarrow> bool" where
  "not_taken by_id by_address cs \<longleftrightarrow>
     (\<forall>s \<in> set cs. map_find by_id (si_id s) = None \<and> map_find by_address (AddressKey (si_address s)) = None)"

lemma not_taken_emplace:
  assumes "map_find by_id (si_id c) = None" "map_find by_address (AddressKey (si_address c)) = None"
  shows "not_taken (map_emplace (si_id c) c by_id) (map_emplace (AddressKey (si_address c)) i by_address) cs \<longleftrightarrow>
    si_id c \<notin> si_id ` set cs \<and> si_address c \<notin> si_address ` set cs \<and> not_taken by_id by_address cs"
  using assms by (auto simp: not_taken_def AddressKey_inj image_iff eq_commute [of "si_id c"] eq_commute [of "si_address c"])

lemma collect_candidates_result:
  "case collect_candidates cs by_id by_address of
      Inl e \<Rightarrow> e = InvalidArgument \<and> \<not> (candidates_ok cs \<and> not_taken by_id by_address cs)
    | Inr m \<Rightarrow> candidates_ok cs \<and> not_taken by_id by_address cs \<and>
        mset (map snd m) = mset (map snd by_id) + mset cs"
proof (induction cs by_id by_address rule: collect_candidates.induct)
  case (1 by_id by_address)
  then show ?case by (simp add: candidates_ok_def not_taken_def)
next
  case (2 c cs by_id by_address)
  show ?case
  proof (cases "ValidateCandidate c = OK \<and> map_find by_id (si_id c) = None \<and>
      map_find by_address (AddressKey (si_address c)) = None")
    case False
    then show ?thesis using ValidateCandidate_cases [of c] by (auto simp: candidates_ok_def not_taken_def)
  next
    case True
    let ?m = "map_emplace (si_id c) c by_id"
    let ?a = "map_emplace (AddressKey (si_address c)) (si_id c) by_address"
    have run: "collect_candidates (c # cs) by_id by_address = collect_candidates cs ?m ?a" using True by simp
    have ms: "mset (map snd ?m) + mset cs = mset (map snd by_id) + mset (c # cs)"
      using mset_map_set_new [of by_id "si_id c" c] True by (simp add: map_emplace_def)
    have "candidates_ok (c # cs) \<and> not_taken by_id by_address (c # cs) \<longleftrightarrow> candidates_ok cs \<and> not_taken ?m ?a cs"
      using True not_taken_emplace [of by_id c by_address "si_id c" cs]
      by (auto simp: candidates_ok_def not_taken_def [of _ _ "c # cs"] not_taken_def [of by_id])
    then show ?thesis
      using "2.IH" True ms unfolding run by (auto split: sum.splits)
  qed
qed

lemma scan_stores_result:
  "scan_stores req ss (n, es) =
     (n + word_of_nat (length (filter (\<lambda>s. si_state s = Store_RUNNING) ss)),
      es @ map as_eligible (filter (\<lambda>s. si_state s = Store_RUNNING \<and> req \<le> remaining_capacity s) ss))"
  by (induction ss arbitrary: n es) (simp_all add: as_eligible_def ac_simps)

lemma SelectStores_eq:
  assumes len: "length cs < 2 ^ 32"
  shows "SelectStores request cs out =
    (if ValidateRequest request \<noteq> OK \<or> \<not> candidates_ok cs then Inl InvalidArgument
     else if length (filter (eligible_for request) cs) < unat (plr_replica_count request)
       then Inl ResourceExhausted
     else Inr \<lparr>selected_store_ids = map es_id (take (unat (plr_replica_count request))
                 (sort (map as_eligible (filter (eligible_for request) cs))))\<rparr>)"
proof (cases "ValidateRequest request = OK \<and> candidates_ok cs")
  case False
  then show ?thesis
    using collect_candidates_result [of cs "[]" "[]"]
    by (auto simp: not_taken_def SelectStores_def ValidateRequest_def split: sum.splits if_splits)
next
  case True
  let ?running = "\<lambda>s. si_state s = Store_RUNNING"
  obtain m where m: "collect_candidates cs [] [] = Inr m" "mset (map snd m) = mset cs"
    using collect_candidates_result [of cs "[]" "[]"] True by (auto simp: not_taken_def split: sum.splits)
  have el: "(\<lambda>s. ?running s \<and> plr_required_capacity_bytes request \<le> remaining_capacity s) = eligible_for request"
    by (simp add: fun_eq_iff eligible_for_def)
  have run: "length (filter ?running (map snd m)) = length (filter ?running cs)"
    using m(2) by (metis mset_filter size_mset)
  have elig: "mset (map as_eligible (filter (eligible_for request) (map snd m))) =
      mset (map as_eligible (filter (eligible_for request) cs))"
    using m(2) by (metis mset_filter mset_map)
  have le: "length (filter (eligible_for request) cs) \<le> length (filter ?running cs)"
    by (induction cs) (auto simp: eligible_for_def)
  have "length (filter ?running cs) < 2 ^ 32" using len length_filter_le le_less_trans by blast
  then have count: "unat (word_of_nat (length (filter ?running cs)) :: u32) = length (filter ?running cs)"
    by (simp add: unat_of_nat)
  have sorts: "sort (map as_eligible (filter (eligible_for request) (map snd m))) =
      sort (map as_eligible (filter (eligible_for request) cs))"
    by (rule properties_for_sort) (simp_all only: elig mset_sort sorted_sort)
  have len_eq: "length (map as_eligible (filter (eligible_for request) (map snd m))) =
      length (filter (eligible_for request) cs)"
    using elig by (metis length_map size_mset)
  have scan: "scan_stores (plr_required_capacity_bytes request) (map snd m) (0, []) =
      (word_of_nat (length (filter ?running cs)), map as_eligible (filter (eligible_for request) (map snd m)))"
    by (simp only: scan_stores_result el run add_0 append_Nil)
  show ?thesis
    using True le count
    by (simp only: SelectStores_def m(1) scan sorts len_eq word_less_nat_alt and_then.simps Let_def prod.case)
      (auto simp: require_out_def)
qed

section \<open>The interface\<close>

text \<open>
  What a caller of \<open>IPlacementPolicy\<close> relies on: the selected stores are different candidates
  that can take the data.
\<close>

locale placement_policy =
  fixes select :: "PlacementRequest \<Rightarrow> StoreInfo list \<Rightarrow> Status + StoreId list"
    and suits :: "PlacementRequest \<Rightarrow> StoreInfo \<Rightarrow> bool"
  assumes count: "select request cs = Inr ids \<Longrightarrow> length ids = unat (plr_replica_count request)"
    and different: "select request cs = Inr ids \<Longrightarrow> distinct ids"
    and suitable: "select request cs = Inr ids \<Longrightarrow> i \<in> set ids \<Longrightarrow>
      \<exists>s \<in> set cs. si_id s = i \<and> suits request s"
begin

text \<open>Losing fewer stores than there are replicas leaves a replica.\<close>

lemma replica_survives:
  assumes "select request cs = Inr ids" "finite lost" "card lost < unat (plr_replica_count request)"
  shows "\<exists>i \<in> set ids. i \<notin> lost"
proof (rule ccontr)
  assume "\<not> ?thesis"
  then have "card (set ids) \<le> card lost" using assms(2) by (intro card_mono) auto
  then show False using assms(3) count [OF assms(1)] distinct_card [OF different [OF assms(1)]] by simp
qed

end

definition simple_select :: "PlacementRequest \<Rightarrow> StoreInfo list \<Rightarrow> Status + StoreId list" where
  "simple_select request cs =
     (if 2 ^ 32 \<le> length cs then Inl InternalError
      else map_sum (\<lambda>e. e) selected_store_ids (SelectStores request cs out))"

lemma sorted_ids_distinct:
  assumes "candidates_ok cs"
  shows "distinct (map es_id (sort (map as_eligible (filter P cs))))"
proof -
  have "distinct (map es_id (map as_eligible (filter P cs)))"
    using assms by (simp add: candidates_ok_def o_def distinct_map_filter)
  then show ?thesis by (metis mset_eq_imp_distinct_iff mset_map mset_sort)
qed

lemma SelectStores_Inr:
  assumes "length cs < 2 ^ 32" "SelectStores request cs out = Inr result"
  shows "length (selected_store_ids result) = unat (plr_replica_count request)"
    and "distinct (selected_store_ids result)"
    and "i \<in> set (selected_store_ids result) \<Longrightarrow> \<exists>s \<in> set cs. si_id s = i \<and> eligible_for request s"
    and "candidates_ok cs"
proof -
  let ?n = "unat (plr_replica_count request)"
  let ?es = "sort (map as_eligible (filter (eligible_for request) cs))"
  have r: "candidates_ok cs" "?n \<le> length (filter (eligible_for request) cs)"
    "selected_store_ids result = map es_id (take ?n ?es)"
    using assms(2) unfolding SelectStores_eq [OF assms(1)] by (auto split: if_splits)
  show "candidates_ok cs" by (rule r)
  show "length (selected_store_ids result) = ?n" using r(2) by (simp add: r(3))
  show "distinct (selected_store_ids result)"
    using distinct_take [OF sorted_ids_distinct [OF r(1)]] by (simp only: r(3) take_map)
  show "\<exists>s \<in> set cs. si_id s = i \<and> eligible_for request s" if i: "i \<in> set (selected_store_ids result)"
  proof -
    obtain e where e: "e \<in> set (take ?n ?es)" "i = es_id e" using i unfolding r(3) set_map by blast
    then obtain s where "s \<in> set cs" "eligible_for request s" "e = as_eligible s"
      using in_set_takeD [OF e(1)] by auto
    then show ?thesis using e(2) by (intro bexI [of _ s]) simp_all
  qed
qed

interpretation simple_policy: placement_policy simple_select eligible_for
proof
  fix request cs ids
  assume "simple_select request cs = Inr ids"
  then obtain result where r: "length cs < 2 ^ 32" "SelectStores request cs out = Inr result"
    "ids = selected_store_ids result"
    by (cases "SelectStores request cs out") (auto simp: simple_select_def split: if_splits)
  show "length ids = unat (plr_replica_count request)" "distinct ids"
    using SelectStores_Inr(1,2) [OF r(1,2)] r(3) by simp_all
  show "\<exists>s \<in> set cs. si_id s = i \<and> eligible_for request s" if "i \<in> set ids" for i
    using SelectStores_Inr(3) [OF r(1,2)] that r(3) by blast
qed

section \<open>Properties\<close>

text \<open>
  \<open>SelectStores\<close> on every branch. With valid and distinct candidates it returns exactly as many
  stores as replicas were asked for, all different, running and with room, such that no store
  left out has more free capacity (or the same and a smaller id) than a selected one; when there
  are not enough it reports \<open>ResourceExhausted\<close>; with invalid input \<open>InvalidArgument\<close>. (The running
  stores are counted in 32 bits, hence the bound on the number of candidates.)
\<close>

theorem SelectStores_best:
  assumes "length cs < 2 ^ 32"
  shows "case SelectStores request cs out of
      Inl e \<Rightarrow>
        if ValidateRequest request = OK \<and> candidates_ok cs
        then e = ResourceExhausted \<and>
          length (filter (eligible_for request) cs) < unat (plr_replica_count request)
        else e = InvalidArgument
    | Inr result \<Rightarrow>
        length (selected_store_ids result) = unat (plr_replica_count request) \<and>
        distinct (selected_store_ids result) \<and>
        (\<forall>s \<in> set cs. si_id s \<in> set (selected_store_ids result) \<longrightarrow>
           eligible_for request s \<and>
           (\<forall>t \<in> set cs. eligible_for request t \<and> si_id t \<notin> set (selected_store_ids result) \<longrightarrow>
              remaining_capacity t < remaining_capacity s \<or>
              (remaining_capacity t = remaining_capacity s \<and> si_id s < si_id t)))"
proof (cases "SelectStores request cs out")
  case (Inl e)
  then show ?thesis unfolding SelectStores_eq [OF assms] by (auto split: if_splits)
next
  case (Inr result)
  note sel = SelectStores_Inr [OF assms Inr]
  let ?n = "unat (plr_replica_count request)"
  let ?es = "sort (map as_eligible (filter (eligible_for request) cs))"
  have ids: "selected_store_ids result = map es_id (take ?n ?es)"
    using Inr unfolding SelectStores_eq [OF assms] by (auto split: if_splits)
  have inj: "s = t" if "s \<in> set cs" "t \<in> set cs" "si_id s = si_id t" for s t
    using sel(4) that by (auto simp: candidates_ok_def distinct_map inj_on_def)
  have best: "as_eligible s \<le> as_eligible t \<and> as_eligible s \<noteq> as_eligible t"
    if st: "s \<in> set cs" "t \<in> set cs" "si_id s \<in> set (selected_store_ids result)"
      "eligible_for request t" "si_id t \<notin> set (selected_store_ids result)" for s t
  proof -
    obtain e where e: "e \<in> set (take ?n ?es)" "es_id e = si_id s" using st(3) by (auto simp: ids)
    then obtain u where u: "u \<in> set cs" "e = as_eligible u" using in_set_takeD [OF e(1)] by auto
    then have es: "as_eligible s \<in> set (take ?n ?es)" using inj [OF st(1) u(1)] e by simp
    have "as_eligible t \<in> set (take ?n ?es @ drop ?n ?es)" using st by simp
    moreover have "as_eligible t \<notin> set (take ?n ?es)" using st(5) by (force simp: ids)
    ultimately have "as_eligible t \<in> set (drop ?n ?es)" by (simp only: set_append Un_iff simp_thms)
    moreover have "sorted (take ?n ?es @ drop ?n ?es)" by simp
    ultimately have "as_eligible s \<le> as_eligible t" using es unfolding sorted_append by blast
    then show ?thesis using es \<open>as_eligible t \<notin> _\<close> by auto
  qed
  have elig: "eligible_for request s" if "s \<in> set cs" "si_id s \<in> set (selected_store_ids result)" for s
    using sel(3) [OF that(2)] inj that(1) by blast
  show ?thesis
    using Inr sel(1,2) elig best [folded less_le, unfolded as_eligible_less] by auto
qed

text \<open>Three running stores; two replicas go to the two with the most room.\<close>

definition example_candidate :: "StoreId \<Rightarrow> u64 \<Rightarrow> StoreInfo" where
  "example_candidate i used =
     \<lparr>si_id = i, si_address = \<lparr>sa_host = ''h'', sa_port = ucast i\<rparr>, si_capacity_bytes = 100,
      si_used_bytes = used, si_state = Store_RUNNING, si_generation = 1, si_last_heartbeat_ms = 0\<rparr>"

theorem SelectStores_best_witness:
  "length (selected_store_ids (projr (SelectStores \<lparr>plr_replica_count = 2, plr_required_capacity_bytes = 10\<rparr>
     [example_candidate 1 50, example_candidate 2 20, example_candidate 3 80] out))) = 2"
proof -
  let ?r = "\<lparr>plr_replica_count = 2, plr_required_capacity_bytes = 10\<rparr>"
  let ?cs = "[example_candidate 1 50, example_candidate 2 20, example_candidate 3 80]"
  have "length ?cs < 2 ^ 32" by simp
  from SelectStores_best [OF this, of ?r] show ?thesis
  proof (cases "SelectStores ?r ?cs out")
    case (Inl e)
    have "isl (SelectStores ?r ?cs out) = False" by code_simp
    then show ?thesis by (simp add: Inl)
  qed simp
qed

end
