(* ===== verification/Task_Manager.thy ===== *)
theory Task_Manager
  imports Store_Types "HOL-Library.Product_Lexorder"
begin

text \<open>
  \<open>store/task_manager.h\<close> and \<open>store/task_manager.cpp\<close>: the tasks of the block stores, from
  creation through assignment to a store to their final result. Each member function runs under
  the mutex and is one step.
\<close>

section \<open>State\<close>

record TaskManager =
  tm_tasks :: "(TaskId, TaskRecord) std_map"
  tm_next_sequence :: u64

definition TaskManager_new :: TaskManager where
  "TaskManager_new = \<lparr>tm_tasks = [], tm_next_sequence = 1\<rparr>"

definition kMaxTaskIdBytes :: nat where
  "kMaxTaskIdBytes = 4 * 1024"

definition kMaxTaskPayloadBytes :: nat where
  "kMaxTaskPayloadBytes = 4 * 1024 * 1024"

definition kInitialTaskGeneration :: u64 where
  "kInitialTaskGeneration = 1"

section \<open>Validation\<close>

definition ValidateTaskId :: "TaskId \<Rightarrow> Status" where
  "ValidateTaskId task_id =
     (if task_id = [] then InvalidArgument
      else if kMaxTaskIdBytes < length task_id then InvalidArgument
      else OK)"

definition Task_ValidateStoreId :: "StoreId \<Rightarrow> Status" where
  "Task_ValidateStoreId store_id = (if store_id = 0 then InvalidArgument else OK)"

definition ValidateTaskType :: "TaskType \<Rightarrow> Status" where
  "ValidateTaskType type =
     (if type \<noteq> Task_CREATE \<and> type \<noteq> Task_DELETE \<and> type \<noteq> Task_COPY \<and> type \<noteq> Task_CUSTOM
      then InvalidArgument else OK)"

definition ValidateTaskState :: "TaskState \<Rightarrow> Status" where
  "ValidateTaskState state =
     (if state \<noteq> Task_WAITING \<and> state \<noteq> Task_RUNNING \<and> state \<noteq> Task_SUCCESS \<and> state \<noteq> Task_FAILED
      then InvalidArgument else OK)"

definition IsTerminal :: "TaskState \<Rightarrow> bool" where
  "IsTerminal state \<longleftrightarrow> state = Task_SUCCESS \<or> state = Task_FAILED"

definition ValidateTaskRecord :: "TaskRecord \<Rightarrow> Status" where
  "ValidateTaskRecord task =
     (if \<not> ok (ValidateTaskId (tr_task_id task)) then ValidateTaskId (tr_task_id task)
      else if \<not> ok (ValidateTaskType (tr_type task)) then ValidateTaskType (tr_type task)
      else if \<not> ok (ValidateTaskState (tr_state task)) then ValidateTaskState (tr_state task)
      else if kMaxTaskPayloadBytes < length (tr_target_payload task) \<or>
              kMaxTaskPayloadBytes < length (tr_result_payload task) then InvalidArgument
      else if tr_generation task = 0 then InvalidArgument
      else if tr_sequence task = 0 then InvalidArgument
      else if tr_state task = Task_WAITING \<and> tr_assigned_store task \<noteq> 0 then InvalidArgument
      else if tr_state task = Task_RUNNING \<and> \<not> ok (Task_ValidateStoreId (tr_assigned_store task))
        then Task_ValidateStoreId (tr_assigned_store task)
      else if tr_state task = Task_RUNNING \<and> tr_result_payload task \<noteq> [] then InvalidArgument
      else if IsTerminal (tr_state task) \<and> \<not> ok (Task_ValidateStoreId (tr_assigned_store task))
        then Task_ValidateStoreId (tr_assigned_store task)
      else OK)"

definition SameCreateRequest :: "TaskRecord \<Rightarrow> TaskCreateRequest \<Rightarrow> bool" where
  "SameCreateRequest existing request \<longleftrightarrow>
     tr_type existing = tc_type request \<and> tr_target_payload existing = tc_target_payload request"

definition SameResult :: "TaskRecord \<Rightarrow> TaskResultReport \<Rightarrow> bool" where
  "SameResult existing report \<longleftrightarrow>
     tr_assigned_store existing = rr_store_id report \<and> tr_state existing = rr_final_state report \<and>
     tr_result_payload existing = rr_result_payload report"

text \<open>\<open>LessByFifo\<close>: by sequence, then by id.\<close>

definition fifo_key :: "TaskRecord \<Rightarrow> u64 \<times> TaskId" where
  "fifo_key task = (tr_sequence task, tr_task_id task)"

definition SortedTasks :: "(TaskId, TaskRecord) std_map \<Rightarrow> TaskRecord list" where
  "SortedTasks tasks = sort_key fifo_key (map snd tasks)"

section \<open>Operations\<close>

definition CreateTask :: "TaskManager \<Rightarrow> TaskCreateRequest \<Rightarrow> (Status + TaskRecord) \<times> TaskManager" where
  "CreateTask t request =
     (if \<not> ok (ValidateTaskId (tc_task_id request)) then (Inl (ValidateTaskId (tc_task_id request)), t)
      else if \<not> ok (ValidateTaskType (tc_type request)) then (Inl (ValidateTaskType (tc_type request)), t)
      else if kMaxTaskPayloadBytes < length (tc_target_payload request) then (Inl InvalidArgument, t)
      else (case map_find (tm_tasks t) (tc_task_id request) of
              Some existing \<Rightarrow>
                if \<not> SameCreateRequest existing request then (Inl Busy, t) else (Inr existing, t)
            | None \<Rightarrow>
                if tm_next_sequence t = - 1 then (Inl Busy, t)
                else let record =
                       \<lparr>tr_task_id = tc_task_id request, tr_type = tc_type request,
                        tr_state = Task_WAITING, tr_target_payload = tc_target_payload request,
                        tr_assigned_store = 0, tr_result_payload = [],
                        tr_generation = kInitialTaskGeneration, tr_sequence = tm_next_sequence t\<rparr>
                     in (Inr record,
                         t\<lparr>tm_tasks := map_emplace (tr_task_id record) record (tm_tasks t),
                           tm_next_sequence := tm_next_sequence t + 1\<rparr>)))"

definition Tasks_GetTask :: "TaskManager \<Rightarrow> TaskId \<Rightarrow> out_ptr \<Rightarrow> Status + TaskRecord" where
  "Tasks_GetTask t task_id p =
     (if \<not> ok (require_out p) then Inl (require_out p)
      else if \<not> ok (ValidateTaskId task_id) then Inl (ValidateTaskId task_id)
      else (case map_find (tm_tasks t) task_id of None \<Rightarrow> Inl NotFound | Some task \<Rightarrow> Inr task))"

definition Tasks_ListTasks :: "TaskManager \<Rightarrow> out_ptr \<Rightarrow> Status + TaskRecord list" where
  "Tasks_ListTasks t p =
     (if \<not> ok (require_out p) then Inl (require_out p) else Inr (SortedTasks (tm_tasks t)))"

definition AssignTask ::
  "TaskManager \<Rightarrow> TaskId \<Rightarrow> StoreId \<Rightarrow> u64 option \<Rightarrow> (Status + TaskRecord) \<times> TaskManager" where
  "AssignTask t task_id store_id expected_generation =
     (if \<not> ok (ValidateTaskId task_id) then (Inl (ValidateTaskId task_id), t)
      else if \<not> ok (Task_ValidateStoreId store_id) then (Inl (Task_ValidateStoreId store_id), t)
      else (case map_find (tm_tasks t) task_id of
              None \<Rightarrow> (Inl NotFound, t)
            | Some task \<Rightarrow>
                if expected_generation \<noteq> None \<and> expected_generation \<noteq> Some (tr_generation task)
                  then (Inl Busy, t)
                else if tr_state task = Task_RUNNING \<and> tr_assigned_store task = store_id
                  then (Inr task, t)
                else if tr_state task \<noteq> Task_WAITING then (Inl Busy, t)
                else if tr_generation task = - 1 then (Inl Busy, t)
                else let candidate = task\<lparr>tr_state := Task_RUNNING, tr_assigned_store := store_id,
                                          tr_generation := tr_generation task + 1\<rparr>
                     in (Inr candidate, t\<lparr>tm_tasks := map_set task_id candidate (tm_tasks t)\<rparr>)))"

fun assign_all :: "StoreId \<Rightarrow> TaskRecord list \<Rightarrow> Status + TaskRecord list" where
  "assign_all store_id [] = Inr []"
| "assign_all store_id (task # tasks) =
     (if tr_generation task = - 1 then Inl Busy
      else and_then (assign_all store_id tasks) (\<lambda>result.
        Inr (task\<lparr>tr_state := Task_RUNNING, tr_assigned_store := store_id,
                  tr_generation := tr_generation task + 1\<rparr> # result)))"

definition AssignNextWaitingTasks ::
  "TaskManager \<Rightarrow> StoreId \<Rightarrow> u32 \<Rightarrow> out_ptr \<Rightarrow> (Status + TaskRecord list) \<times> TaskManager" where
  "AssignNextWaitingTasks t store_id max_tasks p =
     (if \<not> ok (require_out p) then (Inl (require_out p), t)
      else if \<not> ok (Task_ValidateStoreId store_id) then (Inl (Task_ValidateStoreId store_id), t)
      else if max_tasks = 0 then (Inl InvalidArgument, t)
      else let waiting = sort_key fifo_key
                 (filter (\<lambda>task. tr_state task = Task_WAITING) (map snd (tm_tasks t)));
               count = min (length waiting) (unat max_tasks)
           in case assign_all store_id (take count waiting) of
                Inl status \<Rightarrow> (Inl status, t)
              | Inr result \<Rightarrow>
                  (Inr result,
                   t\<lparr>tm_tasks := fold (\<lambda>task. map_set (tr_task_id task) task) result (tm_tasks t)\<rparr>))"

definition CompleteTask ::
  "TaskManager \<Rightarrow> TaskResultReport \<Rightarrow> (Status + TaskRecord) \<times> TaskManager" where
  "CompleteTask t report =
     (if \<not> ok (Task_ValidateStoreId (rr_store_id report))
        then (Inl (Task_ValidateStoreId (rr_store_id report)), t)
      else if \<not> ok (ValidateTaskId (rr_task_id report)) then (Inl (ValidateTaskId (rr_task_id report)), t)
      else if rr_final_state report \<noteq> Task_SUCCESS \<and> rr_final_state report \<noteq> Task_FAILED
        then (Inl InvalidArgument, t)
      else if kMaxTaskPayloadBytes < length (rr_result_payload report) then (Inl InvalidArgument, t)
      else (case map_find (tm_tasks t) (rr_task_id report) of
              None \<Rightarrow> (Inl NotFound, t)
            | Some task \<Rightarrow>
                if rr_expected_generation report \<noteq> None \<and>
                   rr_expected_generation report \<noteq> Some (tr_generation task) then (Inl Busy, t)
                else if IsTerminal (tr_state task)
                  then (if SameResult task report then (Inr task, t) else (Inl Busy, t))
                else if tr_state task \<noteq> Task_RUNNING then (Inl Busy, t)
                else if tr_assigned_store task \<noteq> rr_store_id report then (Inl Busy, t)
                else if tr_generation task = - 1 then (Inl Busy, t)
                else let candidate = task\<lparr>tr_state := rr_final_state report,
                                          tr_result_payload := rr_result_payload report,
                                          tr_generation := tr_generation task + 1\<rparr>
                     in (Inr candidate,
                         t\<lparr>tm_tasks := map_set (rr_task_id report) candidate (tm_tasks t)\<rparr>)))"

definition Tasks_ExportPersistent :: "TaskManager \<Rightarrow> out_ptr \<Rightarrow> Status + TaskRecord list" where
  "Tasks_ExportPersistent t p = Tasks_ListTasks t p"

fun restore_tasks :: "TaskRecord list \<Rightarrow> TaskManager \<Rightarrow> Status + TaskManager" where
  "restore_tasks [] t = Inr t"
| "restore_tasks (task # tasks) t =
     (if \<not> ok (ValidateTaskRecord task) then Inl (ValidateTaskRecord task)
      else if map_find (tm_tasks t) (tr_task_id task) \<noteq> None then Inl Busy
      else if tm_next_sequence t \<le> tr_sequence task \<and> tr_sequence task = - 1 then Inl Busy
      else restore_tasks tasks
             \<lparr>tm_tasks = map_emplace (tr_task_id task) task (tm_tasks t),
              tm_next_sequence =
                (if tm_next_sequence t \<le> tr_sequence task then tr_sequence task + 1
                 else tm_next_sequence t)\<rparr>)"

definition Tasks_RestorePersistent :: "TaskManager \<Rightarrow> TaskRecord list \<Rightarrow> Status \<times> TaskManager" where
  "Tasks_RestorePersistent t tasks =
     (case restore_tasks tasks TaskManager_new of
        Inl status \<Rightarrow> (status, t)
      | Inr restored \<Rightarrow> (OK, restored))"

section \<open>Invariant\<close>

definition record_inv :: "TaskId \<Rightarrow> TaskRecord \<Rightarrow> bool" where
  "record_inv i task \<longleftrightarrow>
     tr_task_id task = i \<and> ValidateTaskRecord task = OK \<and>
     (tr_state task = Task_WAITING \<longrightarrow> tr_result_payload task = [])"

definition tasks_inv :: "TaskManager \<Rightarrow> bool" where
  "tasks_inv t \<longleftrightarrow>
     map_wf (tm_tasks t) \<and> tm_next_sequence t \<noteq> 0 \<and>
     (\<forall>i task. map_find (tm_tasks t) i = Some task \<longrightarrow>
        record_inv i task \<and> tr_sequence task < tm_next_sequence t) \<and>
     (\<forall>i j x y. map_find (tm_tasks t) i = Some x \<and> map_find (tm_tasks t) j = Some y \<and>
        tr_sequence x = tr_sequence y \<longrightarrow> i = j) \<and>
     (tm_next_sequence t = 1 \<or>
      (\<exists>i task. map_find (tm_tasks t) i = Some task \<and> tr_sequence task + 1 = tm_next_sequence t))"

lemma tasks_invD:
  assumes "tasks_inv t"
  shows "map_wf (tm_tasks t)" "tm_next_sequence t \<noteq> 0"
    "map_find (tm_tasks t) i = Some task \<Longrightarrow> record_inv i task"
    "map_find (tm_tasks t) i = Some task \<Longrightarrow> tr_sequence task < tm_next_sequence t"
    "map_find (tm_tasks t) i = Some x \<Longrightarrow> map_find (tm_tasks t) j = Some y \<Longrightarrow>
       tr_sequence x = tr_sequence y \<Longrightarrow> i = j"
  using assms unfolding tasks_inv_def by blast+

lemma tasks_invI:
  assumes "map_wf (tm_tasks t)" "tm_next_sequence t \<noteq> 0"
    and "\<And>i x. map_find (tm_tasks t) i = Some x \<Longrightarrow> record_inv i x"
    and "\<And>i x. map_find (tm_tasks t) i = Some x \<Longrightarrow> tr_sequence x < tm_next_sequence t"
    and "\<And>i j x y. map_find (tm_tasks t) i = Some x \<Longrightarrow> map_find (tm_tasks t) j = Some y \<Longrightarrow>
      tr_sequence x = tr_sequence y \<Longrightarrow> i = j"
    and "tm_next_sequence t = 1 \<or>
      (\<exists>i x. map_find (tm_tasks t) i = Some x \<and> tr_sequence x + 1 = tm_next_sequence t)"
  shows "tasks_inv t"
  unfolding tasks_inv_def using assms by (intro conjI allI impI) blast+

lemma tasks_inv_new [simp]: "tasks_inv TaskManager_new"
  by (simp add: tasks_inv_def TaskManager_new_def)

text \<open>A task with the same identity, whose state has moved on.\<close>

definition same_task :: "TaskRecord \<Rightarrow> TaskRecord \<Rightarrow> bool" where
  "same_task x y \<longleftrightarrow>
     tr_task_id x = tr_task_id y \<and> tr_type x = tr_type y \<and>
     tr_target_payload x = tr_target_payload y \<and> tr_sequence x = tr_sequence y"

lemma tasks_inv_change [inv_intro]:
  assumes t: "tasks_inv t" and old: "map_find (tm_tasks t) i = Some x"
    and new: "record_inv i y" "same_task x y"
  shows "tasks_inv (t\<lparr>tm_tasks := map_set i y (tm_tasks t)\<rparr>)"
proof -
  let ?t = "t\<lparr>tm_tasks := map_set i y (tm_tasks t)\<rparr>"
  have seq: "tr_sequence y = tr_sequence x" using new(2) by (simp add: same_task_def)
  have find: "map_find (tm_tasks ?t) j = (if j = i then Some y else map_find (tm_tasks t) j)" for j by simp
  have prior: "\<exists>z'. map_find (tm_tasks t) j = Some z' \<and> tr_sequence z' = tr_sequence z"
    if "map_find (tm_tasks ?t) j = Some z" for j z
    using that old seq unfolding find by (cases "j = i") auto
  show ?thesis
  proof (rule tasks_invI)
    show "map_wf (tm_tasks ?t)" "tm_next_sequence ?t \<noteq> 0" using tasks_invD(1,2) [OF t] by simp_all
    show "record_inv j z" if "map_find (tm_tasks ?t) j = Some z" for j z
      using that new(1) tasks_invD(3) [OF t] unfolding find by (cases "j = i") auto
    show "tr_sequence z < tm_next_sequence ?t" if "map_find (tm_tasks ?t) j = Some z" for j z
      using prior [OF that] tasks_invD(4) [OF t, of j] by auto
    show "j = k" if "map_find (tm_tasks ?t) j = Some z" "map_find (tm_tasks ?t) k = Some w"
      "tr_sequence z = tr_sequence w" for j k z w
      using prior [OF that(1)] prior [OF that(2)] that(3) tasks_invD(5) [OF t, of j _ k] by auto
    show "tm_next_sequence ?t = 1 \<or>
      (\<exists>j z. map_find (tm_tasks ?t) j = Some z \<and> tr_sequence z + 1 = tm_next_sequence ?t)"
    proof (cases "tm_next_sequence t = 1")
      case False
      then obtain j z where jz: "map_find (tm_tasks t) j = Some z" "tr_sequence z + 1 = tm_next_sequence t"
        using t unfolding tasks_inv_def by blast
      then have "\<exists>z'. map_find (tm_tasks ?t) j = Some z' \<and> tr_sequence z' + 1 = tm_next_sequence t"
        using old seq by (cases "j = i") auto
      moreover have "tm_next_sequence ?t = tm_next_sequence t" by simp
      ultimately show ?thesis by metis
    qed simp
  qed
qed

lemma record_inv_fields:
  "record_inv i x \<longleftrightarrow>
     tr_task_id x = i \<and> ValidateTaskId i = OK \<and> ValidateTaskType (tr_type x) = OK \<and>
     ValidateTaskState (tr_state x) = OK \<and> length (tr_target_payload x) \<le> kMaxTaskPayloadBytes \<and> length (tr_result_payload x) \<le> kMaxTaskPayloadBytes \<and>
     tr_generation x \<noteq> 0 \<and> tr_sequence x \<noteq> 0 \<and>
     (tr_assigned_store x = 0 \<longleftrightarrow> tr_state x = Task_WAITING) \<and>
     (IsTerminal (tr_state x) \<or> tr_result_payload x = [])"
  by (cases "tr_state x") (auto simp: record_inv_def ValidateTaskRecord_def ValidateTaskState_def IsTerminal_def
      Task_ValidateStoreId_def not_less)

lemma record_inv_running:
  assumes "record_inv i x" "tr_state x = Task_WAITING" "store_id \<noteq> 0" "tr_generation x \<noteq> - 1"
  shows "record_inv i (x\<lparr>tr_state := Task_RUNNING, tr_assigned_store := store_id,
    tr_generation := tr_generation x + 1\<rparr>)"
  using assms counter_inc(1) [OF assms(4)] by (auto simp: record_inv_fields IsTerminal_def ValidateTaskState_def)

lemma record_inv_final:
  assumes "record_inv i x" "tr_state x = Task_RUNNING" "final \<in> {Task_SUCCESS, Task_FAILED}"
    "length p \<le> kMaxTaskPayloadBytes" "tr_generation x \<noteq> - 1"
  shows "record_inv i (x\<lparr>tr_state := final, tr_result_payload := p, tr_generation := tr_generation x + 1\<rparr>)"
  using assms counter_inc(1) [OF assms(5)] by (auto simp: record_inv_fields IsTerminal_def ValidateTaskState_def)

section \<open>How tasks evolve\<close>

text \<open>
  One task before and after: its identity stays, a running task keeps its store, and a final
  task stays as it is.
\<close>

definition task_le :: "TaskRecord \<Rightarrow> TaskRecord \<Rightarrow> bool" where
  "task_le x y \<longleftrightarrow>
     same_task x y \<and>
     (tr_state x \<noteq> Task_WAITING \<longrightarrow> tr_state y \<noteq> Task_WAITING \<and> tr_assigned_store y = tr_assigned_store x) \<and>
     (IsTerminal (tr_state x) \<longrightarrow> y = x)"

definition tasks_le :: "TaskManager \<Rightarrow> TaskManager \<Rightarrow> bool" where
  "tasks_le t u \<longleftrightarrow>
     tasks_inv u \<and>
     (\<forall>i x. map_find (tm_tasks t) i = Some x \<longrightarrow> (\<exists>y. map_find (tm_tasks u) i = Some y \<and> task_le x y))"

lemma same_task_refl [simp]: "same_task x x"
  by (simp add: same_task_def)

lemma task_le_refl [simp]: "task_le x x"
  by (simp add: task_le_def)

lemma task_le_trans: "task_le x y \<Longrightarrow> task_le y z \<Longrightarrow> task_le x z"
  by (auto simp: task_le_def same_task_def)

lemma tasks_le_refl [simp]: "tasks_inv t \<Longrightarrow> tasks_le t t"
  by (simp add: tasks_le_def)

lemma tasks_le_trans: "tasks_le t u \<Longrightarrow> tasks_le u v \<Longrightarrow> tasks_le t v"
  unfolding tasks_le_def using task_le_trans by metis

lemma tasks_le_change:
  assumes "tasks_inv t" "map_find (tm_tasks t) i = Some x" "record_inv i y" "task_le x y"
  shows "tasks_le t (t\<lparr>tm_tasks := map_set i y (tm_tasks t)\<rparr>)"
  using tasks_inv_change [OF assms(1-3)] assms by (auto simp: tasks_le_def) (simp add: task_le_def)

lemma CreateTask_le: "tasks_inv t \<Longrightarrow> tasks_le t (snd (CreateTask t request))"
proof -
  assume t: "tasks_inv t"
  let ?n = "tm_next_sequence t"
  let ?r = "\<lparr>tr_task_id = tc_task_id request, tr_type = tc_type request, tr_state = Task_WAITING,
    tr_target_payload = tc_target_payload request, tr_assigned_store = 0, tr_result_payload = [],
    tr_generation = kInitialTaskGeneration, tr_sequence = ?n\<rparr>"
  let ?u = "t\<lparr>tm_tasks := map_emplace (tc_task_id request) ?r (tm_tasks t), tm_next_sequence := ?n + 1\<rparr>"
  have "tasks_le t ?u"
    if v: "ValidateTaskId (tc_task_id request) = OK" "length (tc_target_payload request) \<le> kMaxTaskPayloadBytes"
      "map_find (tm_tasks t) (tc_task_id request) = None" "?n \<noteq> - 1" "ValidateTaskType (tc_type request) = OK"
  proof -
    have n: "?n < ?n + 1" "?n + 1 \<noteq> 0" using counter_inc [OF v(4)] by blast+
    have "record_inv (tc_task_id request) ?r"
      using v tasks_invD(2) [OF t]
      by (simp add: record_inv_fields ValidateTaskState_def kInitialTaskGeneration_def)
    moreover have seq: "tr_sequence x < ?n + 1 \<and> tr_sequence x \<noteq> ?n" if "map_find (tm_tasks t) i = Some x" for i x
      using tasks_invD(4) [OF t that] n(1) by force
    moreover have find: "map_find (tm_tasks ?u) j =
        (if j = tc_task_id request then Some ?r else map_find (tm_tasks t) j)" for j
      using v(3) by simp
    ultimately have "tasks_inv ?u"
    proof (intro tasks_invI)
      show "map_wf (tm_tasks ?u)" "tm_next_sequence ?u \<noteq> 0" using tasks_invD(1) [OF t] n by simp_all
      show "record_inv j x" if "map_find (tm_tasks ?u) j = Some x" for j x
        using that \<open>record_inv _ ?r\<close> tasks_invD(3) [OF t] unfolding find by (cases "j = tc_task_id request") auto
      show "tr_sequence x < tm_next_sequence ?u" if "map_find (tm_tasks ?u) j = Some x" for j x
        using that seq n unfolding find by (cases "j = tc_task_id request") auto
      show "j = k" if "map_find (tm_tasks ?u) j = Some x" "map_find (tm_tasks ?u) k = Some y"
        "tr_sequence x = tr_sequence y" for j k x y
        using that seq [of j x] seq [of k y] tasks_invD(5) [OF t, of j x k y] unfolding find
        by (cases "j = tc_task_id request"; cases "k = tc_task_id request") auto
      show "tm_next_sequence ?u = 1 \<or>
        (\<exists>j x. map_find (tm_tasks ?u) j = Some x \<and> tr_sequence x + 1 = tm_next_sequence ?u)"
        by (intro disjI2 exI [of _ "tc_task_id request"] exI [of _ ?r] conjI) (use v(3) in simp_all)
    qed
    then show ?thesis using v(3) by (auto simp: tasks_le_def)
  qed
  then show ?thesis using t by (auto simp: CreateTask_def Let_def split: option.splits)
qed

lemma AssignTask_le: "tasks_inv t \<Longrightarrow> tasks_le t (snd (AssignTask t task_id store_id g))"
proof -
  assume t: "tasks_inv t"
  have "tasks_le t (t\<lparr>tm_tasks := map_set task_id (x\<lparr>tr_state := Task_RUNNING, tr_assigned_store := store_id,
      tr_generation := tr_generation x + 1\<rparr>) (tm_tasks t)\<rparr>)"
    if "map_find (tm_tasks t) task_id = Some x" "tr_state x = Task_WAITING" "store_id \<noteq> 0" "tr_generation x \<noteq> - 1" for x
    using that tasks_invD(3) [OF t that(1)]
    by (intro tasks_le_change [OF t that(1)] record_inv_running) (simp_all add: task_le_def same_task_def IsTerminal_def)
  then show ?thesis
    using t by (auto simp: AssignTask_def Let_def Task_ValidateStoreId_def split: option.splits)
qed

lemma CompleteTask_le: "tasks_inv t \<Longrightarrow> tasks_le t (snd (CompleteTask t report))"
proof -
  assume t: "tasks_inv t"
  have "tasks_le t (t\<lparr>tm_tasks := map_set (rr_task_id report) (x\<lparr>tr_state := rr_final_state report,
      tr_result_payload := rr_result_payload report, tr_generation := tr_generation x + 1\<rparr>) (tm_tasks t)\<rparr>)"
    if "map_find (tm_tasks t) (rr_task_id report) = Some x" "tr_state x = Task_RUNNING"
      "rr_final_state report \<in> {Task_SUCCESS, Task_FAILED}" "tr_generation x \<noteq> - 1"
      "length (rr_result_payload report) \<le> kMaxTaskPayloadBytes" for x
    using that tasks_invD(3) [OF t that(1)]
    by (intro tasks_le_change [OF t that(1)] record_inv_final) (auto simp: task_le_def same_task_def IsTerminal_def)
  then show ?thesis
    using t by (auto simp: CompleteTask_def Let_def not_less split: option.splits)
qed

text \<open>The waiting tasks in the order they were created, and what assigning a prefix of them does.\<close>

definition waiting_tasks :: "TaskManager \<Rightarrow> TaskRecord list" where
  "waiting_tasks t = sort_key fifo_key (filter (\<lambda>task. tr_state task = Task_WAITING) (map snd (tm_tasks t)))"

definition run_on :: "StoreId \<Rightarrow> TaskRecord \<Rightarrow> TaskRecord" where
  "run_on store_id task =
     task\<lparr>tr_state := Task_RUNNING, tr_assigned_store := store_id, tr_generation := tr_generation task + 1\<rparr>"

lemma run_on_sel [simp]:
  "tr_task_id (run_on i x) = tr_task_id x" "tr_state (run_on i x) = Task_RUNNING"
  "tr_assigned_store (run_on i x) = i" "tr_sequence (run_on i x) = tr_sequence x"
  by (simp_all add: run_on_def)

lemma assign_all_eq:
  "assign_all i ts = (if \<exists>x \<in> set ts. tr_generation x = - 1 then Inl Busy else Inr (map (run_on i) ts))"
  by (induction ts) (auto simp: run_on_def)

lemma all_tasks_set:
  assumes "tasks_inv t"
  shows "x \<in> set (map snd (tm_tasks t)) \<longleftrightarrow> map_find (tm_tasks t) (tr_task_id x) = Some x"
proof -
  have mem: "(i, y) \<in> set (tm_tasks t) \<longleftrightarrow> map_find (tm_tasks t) i = Some y" for i y
    using map_find_mem [OF tasks_invD(1) [OF assms]] by simp
  have "map_find (tm_tasks t) i = Some x \<Longrightarrow> i = tr_task_id x" for i
    using tasks_invD(3) [OF assms] by (simp add: record_inv_def)
  then show ?thesis
    unfolding set_map image_iff Bex_def mem [symmetric] by (metis prod.collapse snd_conv)
qed

lemma all_tasks_distinct:
  assumes "tasks_inv t"
  shows "distinct (map tr_task_id (map snd (tm_tasks t)))"
proof -
  have "map tr_task_id (map snd (tm_tasks t)) = map fst (tm_tasks t)"
    using map_find_mem [OF tasks_invD(1) [OF assms]] tasks_invD(3) [OF assms]
    by (auto simp: record_inv_def)
  then show ?thesis using tasks_invD(1) [OF assms] by (simp only: map_wf_def strict_sorted_iff)
qed

lemma waiting_tasks_set:
  "tasks_inv t \<Longrightarrow> x \<in> set (waiting_tasks t) \<longleftrightarrow>
     map_find (tm_tasks t) (tr_task_id x) = Some x \<and> tr_state x = Task_WAITING"
  using all_tasks_set [of t x] by (auto simp: waiting_tasks_def)

lemma waiting_tasks_distinct:
  assumes "tasks_inv t"
  shows "distinct (map tr_task_id (waiting_tasks t))"
proof -
  have "distinct (map tr_task_id (filter (\<lambda>task. tr_state task = Task_WAITING) (map snd (tm_tasks t))))"
    using all_tasks_distinct [OF assms] by (rule distinct_map_filter)
  then show ?thesis unfolding waiting_tasks_def by (metis mset_eq_imp_distinct_iff mset_map mset_sort)
qed

lemma assign_fold_le:
  assumes "tasks_inv t" "distinct (map tr_task_id ts)" "store_id \<noteq> 0"
    and "\<forall>x \<in> set ts. map_find (tm_tasks t) (tr_task_id x) = Some x \<and> tr_state x = Task_WAITING \<and>
      tr_generation x \<noteq> - 1"
  shows "tasks_le t (t\<lparr>tm_tasks := fold (\<lambda>task. map_set (tr_task_id task) task) (map (run_on store_id) ts) (tm_tasks t)\<rparr>)"
  using assms
proof (induction ts arbitrary: t)
  case (Cons x ts)
  let ?u = "t\<lparr>tm_tasks := map_set (tr_task_id x) (run_on store_id x) (tm_tasks t)\<rparr>"
  have x: "map_find (tm_tasks t) (tr_task_id x) = Some x" "tr_state x = Task_WAITING" "tr_generation x \<noteq> - 1"
    using Cons.prems(4) by auto
  have le: "tasks_le t ?u"
    using record_inv_running [OF tasks_invD(3) [OF Cons.prems(1) x(1)] x(2) Cons.prems(3) x(3)] x(2)
    by (intro tasks_le_change [OF Cons.prems(1) x(1)])
      (auto simp: run_on_def task_le_def same_task_def IsTerminal_def)
  have "tasks_le ?u (?u\<lparr>tm_tasks := fold (\<lambda>task. map_set (tr_task_id task) task) (map (run_on store_id) ts)
      (tm_tasks ?u)\<rparr>)"
  proof (rule Cons.IH)
    show "tasks_inv ?u" using le by (simp add: tasks_le_def)
    show "distinct (map tr_task_id ts)" using Cons.prems(2) by simp
    show "\<forall>y \<in> set ts. map_find (tm_tasks ?u) (tr_task_id y) = Some y \<and> tr_state y = Task_WAITING \<and>
        tr_generation y \<noteq> - 1"
      using Cons.prems(2,4) by (auto simp: image_iff)
  qed (rule Cons.prems(3))
  then show ?case using tasks_le_trans [OF le] by simp
qed simp

text \<open>The result of a poll, on every branch.\<close>

lemma AssignNextWaitingTasks_eq:
  assumes "store_id \<noteq> 0" "max_tasks \<noteq> 0"
  shows "AssignNextWaitingTasks t store_id max_tasks out =
    (let ts = take (unat max_tasks) (waiting_tasks t)
     in if \<exists>x \<in> set ts. tr_generation x = - 1 then (Inl Busy, t)
        else (Inr (map (run_on store_id) ts),
              t\<lparr>tm_tasks := fold (\<lambda>task. map_set (tr_task_id task) task) (map (run_on store_id) ts) (tm_tasks t)\<rparr>))"
proof -
  have "take (min (length (waiting_tasks t)) (unat max_tasks)) (waiting_tasks t) =
      take (unat max_tasks) (waiting_tasks t)"
    by (simp add: min_def)
  then show ?thesis
    using assms unfolding AssignNextWaitingTasks_def waiting_tasks_def [symmetric]
    by (simp add: Task_ValidateStoreId_def assign_all_eq Let_def)
qed

lemma AssignNextWaitingTasks_le:
  assumes t: "tasks_inv t"
  shows "tasks_le t (snd (AssignNextWaitingTasks t store_id max_tasks p))"
proof (cases "p = out \<and> store_id \<noteq> 0 \<and> max_tasks \<noteq> 0")
  case False
  then show ?thesis using t by (cases p) (auto simp: AssignNextWaitingTasks_def Task_ValidateStoreId_def)
next
  case True
  let ?ts = "take (unat max_tasks) (waiting_tasks t)"
  have "distinct (map tr_task_id ?ts)"
    using waiting_tasks_distinct [OF t] by (simp add: take_map [symmetric])
  moreover have "\<forall>x \<in> set ?ts. map_find (tm_tasks t) (tr_task_id x) = Some x \<and> tr_state x = Task_WAITING"
    using waiting_tasks_set [OF t] in_set_takeD by metis
  ultimately show ?thesis
    using True t assign_fold_le [OF t, of ?ts store_id] by (auto simp: AssignNextWaitingTasks_eq Let_def)
qed

section \<open>Runs\<close>

datatype task_op =
    Op_CreateTask TaskCreateRequest
  | Op_AssignTask TaskId StoreId "u64 option"
  | Op_AssignNextWaitingTasks StoreId u32
  | Op_CompleteTask TaskResultReport

text \<open>One operation: the new state, and the ids of the tasks a poll handed out.\<close>

fun task_exec :: "task_op \<Rightarrow> TaskManager \<Rightarrow> TaskManager \<times> TaskId list" where
  "task_exec (Op_CreateTask request) t = (snd (CreateTask t request), [])"
| "task_exec (Op_AssignTask i store_id g) t = (snd (AssignTask t i store_id g), [])"
| "task_exec (Op_AssignNextWaitingTasks store_id n) t =
     (snd (AssignNextWaitingTasks t store_id n out),
      (case fst (AssignNextWaitingTasks t store_id n out) of
         Inl _ \<Rightarrow> [] | Inr tasks \<Rightarrow> map tr_task_id tasks))"
| "task_exec (Op_CompleteTask report) t = (snd (CompleteTask t report), [])"

fun task_run :: "task_op list \<Rightarrow> TaskManager \<Rightarrow> TaskManager \<times> TaskId list" where
  "task_run [] t = (t, [])"
| "task_run (op # ops) t =
     (case task_exec op t of (u, polled) \<Rightarrow> (case task_run ops u of (v, later) \<Rightarrow> (v, polled @ later)))"

lemma task_exec_le: "tasks_inv t \<Longrightarrow> tasks_le t (fst (task_exec op t))"
  using CreateTask_le AssignTask_le AssignNextWaitingTasks_le CompleteTask_le by (cases op) simp_all

lemma task_run_le: "tasks_inv t \<Longrightarrow> tasks_le t (fst (task_run ops t))"
proof (induction ops arbitrary: t)
  case (Cons op ops)
  note le = task_exec_le [OF Cons.prems, of op]
  have "tasks_le (fst (task_exec op t)) (fst (task_run ops (fst (task_exec op t))))"
    using le by (intro Cons.IH) (simp add: tasks_le_def)
  then show ?case using tasks_le_trans [OF le] by (simp add: case_prod_beta)
qed simp

text \<open>A task that was handed out is in the store and no longer waiting.\<close>

definition handed_out :: "TaskManager \<Rightarrow> TaskId \<Rightarrow> bool" where
  "handed_out t i \<longleftrightarrow> (\<exists>x. map_find (tm_tasks t) i = Some x \<and> tr_state x \<noteq> Task_WAITING)"

lemma handed_out_le: "tasks_le t u \<Longrightarrow> handed_out t i \<Longrightarrow> handed_out u i"
  unfolding tasks_le_def handed_out_def task_le_def by metis

lemma fold_set_keep:
  "i \<notin> tr_task_id ` set ts \<Longrightarrow> map_find (fold (\<lambda>task. map_set (tr_task_id task) task) ts m) i = map_find m i"
  by (induction ts arbitrary: m) auto

lemma fold_set_find:
  assumes "distinct (map tr_task_id ts)" "x \<in> set ts"
  shows "map_find (fold (\<lambda>task. map_set (tr_task_id task) task) ts m) (tr_task_id x) = Some x"
  using assms
proof (induction ts arbitrary: m)
  case (Cons y ts)
  show ?case
  proof (cases "x = y")
    case True
    then show ?thesis
      using Cons.prems(1) fold_set_keep [of "tr_task_id y" ts "map_set (tr_task_id y) y m"] by simp
  next
    case False
    then show ?thesis using Cons by simp
  qed
qed simp

lemma polled_facts:
  assumes t: "tasks_inv t"
  shows "distinct (snd (task_exec op t))"
    and "i \<in> set (snd (task_exec op t)) \<Longrightarrow> \<not> handed_out t i \<and> handed_out (fst (task_exec op t)) i"
proof -
  have "distinct (snd (task_exec op t)) \<and> (\<forall>i \<in> set (snd (task_exec op t)).
      \<not> handed_out t i \<and> handed_out (fst (task_exec op t)) i)"
  proof (cases op)
    case (Op_AssignNextWaitingTasks store_id n)
    let ?ts = "take (unat n) (waiting_tasks t)"
    have d: "distinct (map tr_task_id ?ts)"
      using waiting_tasks_distinct [OF t] by (simp add: take_map [symmetric])
    show ?thesis
    proof (cases "fst (AssignNextWaitingTasks t store_id n out)")
      case (Inl e)
      then show ?thesis using Op_AssignNextWaitingTasks by simp
    next
      case (Inr r)
      have ok: "store_id \<noteq> 0" "n \<noteq> 0"
        using Inr by (auto simp: AssignNextWaitingTasks_def Task_ValidateStoreId_def split: if_splits)
      have r: "r = map (run_on store_id) ?ts" "snd (AssignNextWaitingTasks t store_id n out) =
          t\<lparr>tm_tasks := fold (\<lambda>task. map_set (tr_task_id task) task) r (tm_tasks t)\<rparr>"
        using Inr by (auto simp: AssignNextWaitingTasks_eq [OF ok] Let_def split: if_splits)
      have dr: "distinct (map tr_task_id r)" using d by (simp add: r(1) o_def)
      have "\<not> handed_out t (tr_task_id x) \<and>
          handed_out (snd (AssignNextWaitingTasks t store_id n out)) (tr_task_id x)" if x: "x \<in> set r" for x
      proof -
        obtain y where y: "x = run_on store_id y" "y \<in> set (waiting_tasks t)"
          using x in_set_takeD unfolding r(1) by (metis imageE set_map)
        then have "\<not> handed_out t (tr_task_id x)"
          using waiting_tasks_set [OF t] by (auto simp: handed_out_def)
        moreover have "map_find (tm_tasks (snd (AssignNextWaitingTasks t store_id n out))) (tr_task_id x) = Some x"
          using fold_set_find [OF dr x] by (simp add: r(2))
        ultimately show ?thesis using y(1) by (auto simp: handed_out_def)
      qed
      then show ?thesis using dr by (simp add: Op_AssignNextWaitingTasks Inr)
    qed
  qed simp_all
  then show "distinct (snd (task_exec op t))"
    "i \<in> set (snd (task_exec op t)) \<Longrightarrow> \<not> handed_out t i \<and> handed_out (fst (task_exec op t)) i" by blast+
qed

lemma task_run_polled:
  assumes "tasks_inv t"
  shows "distinct (snd (task_run ops t)) \<and> (\<forall>i \<in> set (snd (task_run ops t)).
    \<not> handed_out t i \<and> handed_out (fst (task_run ops t)) i)"
  using assms
proof (induction ops arbitrary: t)
  case (Cons op ops)
  let ?u = "fst (task_exec op t)"
  note le = task_exec_le [OF Cons.prems, of op]
  have u: "tasks_inv ?u" using le by (simp add: tasks_le_def)
  note IH = Cons.IH [OF u] and polled = polled_facts [OF Cons.prems, where op = op] and le' = task_run_le [OF u, of ops]
  have "set (snd (task_exec op t)) \<inter> set (snd (task_run ops ?u)) = {}"
    using IH polled(2) by blast
  moreover have "\<not> handed_out t i \<and> handed_out (fst (task_run ops ?u)) i"
    if "i \<in> set (snd (task_exec op t)) \<union> set (snd (task_run ops ?u))" for i
    using that IH polled(2) handed_out_le [OF le'] handed_out_le [OF le] by blast
  ultimately show ?case using IH polled(1) by (simp add: case_prod_beta)
qed simp

text \<open>The tasks a poll hands out come before those that keep waiting.\<close>

lemma waiting_tasks_sorted:
  assumes "tasks_inv t"
  shows "sorted_wrt (\<lambda>x y. tr_sequence x < tr_sequence y) (waiting_tasks t)"
proof -
  have "distinct (map snd (map fifo_key (waiting_tasks t)))"
    using waiting_tasks_distinct [OF assms] by (simp add: fifo_key_def o_def)
  then have "distinct (map fifo_key (waiting_tasks t))" unfolding distinct_map [of snd] by blast
  then have "sorted_wrt (<) (map fifo_key (waiting_tasks t))"
    unfolding waiting_tasks_def strict_sorted_iff by simp
  then have "sorted_wrt (\<lambda>x y. fifo_key x < fifo_key y) (waiting_tasks t)" by (simp only: sorted_wrt_map)
  then show ?thesis
  proof (rule sorted_wrt_mono_rel [rotated])
    fix x y assume xy: "x \<in> set (waiting_tasks t)" "y \<in> set (waiting_tasks t)" "fifo_key x < fifo_key y"
    then have "map_find (tm_tasks t) (tr_task_id x) = Some x" "map_find (tm_tasks t) (tr_task_id y) = Some y"
      using waiting_tasks_set [OF assms] by blast+
    from tasks_invD(5) [OF assms this] xy(3) show "tr_sequence x < tr_sequence y"
      by (cases "tr_sequence x = tr_sequence y") (auto simp: fifo_key_def)
  qed
qed

lemma poll_leaves:
  assumes t: "tasks_inv t" and d: "distinct (map tr_task_id ts)" and ts: "set ts \<subseteq> set (waiting_tasks t)"
    and u: "u = t\<lparr>tm_tasks := fold (\<lambda>task. map_set (tr_task_id task) task) (map (run_on store_id) ts) (tm_tasks t)\<rparr>"
    and inv: "tasks_inv u" and y: "y \<in> set (waiting_tasks u)"
  shows "y \<in> set (waiting_tasks t) \<and> y \<notin> set ts"
proof -
  let ?r = "map (run_on store_id) ts"
  have dr: "distinct (map tr_task_id ?r)" using d by (simp add: o_def)
  have f: "map_find (tm_tasks u) (tr_task_id y) = Some y" "tr_state y = Task_WAITING"
    using y waiting_tasks_set [OF inv] by blast+
  have other: "tr_task_id y \<noteq> tr_task_id x" if "x \<in> set ts" for x
  proof
    assume eq: "tr_task_id y = tr_task_id x"
    have "run_on store_id x \<in> set ?r" using that by simp
    from fold_set_find [OF dr this] have "map_find (tm_tasks u) (tr_task_id x) = Some (run_on store_id x)"
      by (simp add: u)
    then show False using f eq by (metis TaskState.distinct(1) option.inject run_on_sel(2))
  qed
  have "y \<notin> set ts" using other by blast
  moreover have "tr_task_id y \<notin> tr_task_id ` set ?r"
  proof
    assume "tr_task_id y \<in> tr_task_id ` set ?r"
    then obtain x where "x \<in> set ts" "tr_task_id y = tr_task_id x" by auto
    then show False using other by blast
  qed
  moreover from this have "map_find (tm_tasks t) (tr_task_id y) = Some y"
    using f(1) by (simp add: u fold_set_keep del: set_map)
  ultimately show ?thesis using waiting_tasks_set [OF t] f(2) by blast
qed

lemma AssignNextWaitingTasks_cases:
  assumes t: "tasks_inv t"
  shows "let t' = snd (AssignNextWaitingTasks t store_id n out)
   in case fst (AssignNextWaitingTasks t store_id n out) of
        Inl e \<Rightarrow> t' = t \<and>
          (e = InvalidArgument \<and> (store_id = 0 \<or> n = 0) \<or>
           e = Busy \<and> (\<exists>x \<in> set (waiting_tasks t). tr_generation x = - 1))
      | Inr tasks \<Rightarrow>
          length tasks = min (unat n) (length (waiting_tasks t)) \<and>
          sorted_wrt (<) (map tr_sequence tasks) \<and>
          list_all (\<lambda>x. tr_state x = Task_RUNNING \<and> tr_assigned_store x = store_id \<and>
            map_find (tm_tasks t') (tr_task_id x) = Some x \<and>
            list_all (\<lambda>y. tr_sequence x < tr_sequence y) (waiting_tasks t')) tasks"
proof (cases "store_id = 0 \<or> n = 0")
  case True
  then show ?thesis by (auto simp: AssignNextWaitingTasks_def Task_ValidateStoreId_def Let_def)
next
  case False
  then have ok: "store_id \<noteq> 0" "n \<noteq> 0" by auto
  let ?ts = "take (unat n) (waiting_tasks t)"
  show ?thesis
  proof (cases "\<exists>x \<in> set ?ts. tr_generation x = - 1")
    case True
    then have "AssignNextWaitingTasks t store_id n out = (Inl Busy, t)"
      by (simp only: AssignNextWaitingTasks_eq [OF ok] Let_def if_True)
    moreover have "\<exists>x \<in> set (waiting_tasks t). tr_generation x = - 1" using True in_set_takeD by metis
    ultimately show ?thesis by (simp add: Let_def)
  next
    case gen: False
    let ?r = "map (run_on store_id) ?ts"
    let ?u = "t\<lparr>tm_tasks := fold (\<lambda>task. map_set (tr_task_id task) task) ?r (tm_tasks t)\<rparr>"
    have run: "AssignNextWaitingTasks t store_id n out = (Inr ?r, ?u)"
      using gen by (simp only: AssignNextWaitingTasks_eq [OF ok] Let_def if_False)
    have le: "tasks_le t ?u" using AssignNextWaitingTasks_le [OF t, of store_id n out] by (simp only: run snd_conv)
    have u: "tasks_inv ?u" using le by (simp only: tasks_le_def)
    have d: "distinct (map tr_task_id ?ts)" "distinct (map tr_task_id ?r)"
      using waiting_tasks_distinct [OF t] by (simp_all add: take_map [symmetric] o_def)
    have order: "sorted_wrt (\<lambda>x y. tr_sequence x < tr_sequence y) (?ts @ drop (unat n) (waiting_tasks t))"
      using waiting_tasks_sorted [OF t] by simp
    have younger: "tr_sequence x < tr_sequence y" if xr: "x \<in> set ?r" and yu: "y \<in> set (waiting_tasks ?u)" for x y
    proof -
      have "y \<in> set (waiting_tasks t) \<and> y \<notin> set ?ts"
        by (rule poll_leaves [OF t d(1) _ refl u yu]) (rule set_take_subset)
      then have "y \<in> set (drop (unat n) (waiting_tasks t))"
        by (metis Un_iff append_take_drop_id set_append)
      moreover obtain z where "z \<in> set ?ts" "x = run_on store_id z" using xr by auto
      ultimately show ?thesis using order unfolding sorted_wrt_append by simp
    qed
    have "sorted_wrt (<) (map tr_sequence ?r)"
      using order by (simp add: sorted_wrt_append sorted_wrt_map)
    then show ?thesis
      using younger fold_set_find [OF d(2)] unfolding run Let_def fst_conv snd_conv sum.case list_all_iff
      by (auto simp: min.commute)
  qed
qed

section \<open>Persistence\<close>

lemma restore_tasks_result:
  assumes "map_wf (tm_tasks u)" "distinct (map tr_task_id ts)"
    and "\<forall>x \<in> set ts. ValidateTaskRecord x = OK \<and> tr_sequence x \<noteq> - 1 \<and> map_find (tm_tasks u) (tr_task_id x) = None"
  shows "\<exists>v. restore_tasks ts u = Inr v \<and> map_wf (tm_tasks v) \<and>
    (\<forall>i. map_find (tm_tasks v) i = (case map_find (tm_tasks u) i of Some y \<Rightarrow> Some y
       | None \<Rightarrow> map_of (map (\<lambda>x. (tr_task_id x, x)) ts) i)) \<and>
    tm_next_sequence u \<le> tm_next_sequence v \<and> (\<forall>x \<in> set ts. tr_sequence x < tm_next_sequence v) \<and>
    (tm_next_sequence v = tm_next_sequence u \<or> (\<exists>x \<in> set ts. tm_next_sequence v = tr_sequence x + 1))"
  using assms
proof (induction ts arbitrary: u)
  case (Cons x ts)
  let ?n = "if tm_next_sequence u \<le> tr_sequence x then tr_sequence x + 1 else tm_next_sequence u"
  let ?u = "\<lparr>tm_tasks = map_emplace (tr_task_id x) x (tm_tasks u), tm_next_sequence = ?n\<rparr>"
  have n: "tm_next_sequence u \<le> ?n" "tr_sequence x < ?n"
    using counter_inc(2) [of "tr_sequence x"] Cons.prems(3) by (auto intro: order.trans less_imp_le)
  have pre: "\<forall>y \<in> set ts. ValidateTaskRecord y = OK \<and> tr_sequence y \<noteq> - 1 \<and>
      map_find (tm_tasks ?u) (tr_task_id y) = None"
    using Cons.prems(2,3) by (auto simp: image_iff)
  obtain v where v: "restore_tasks ts ?u = Inr v" "map_wf (tm_tasks v)"
    "\<forall>i. map_find (tm_tasks v) i = (case map_find (tm_tasks ?u) i of Some y \<Rightarrow> Some y
       | None \<Rightarrow> map_of (map (\<lambda>x. (tr_task_id x, x)) ts) i)"
    "?n \<le> tm_next_sequence v" "\<forall>x \<in> set ts. tr_sequence x < tm_next_sequence v"
    "tm_next_sequence v = ?n \<or> (\<exists>x \<in> set ts. tm_next_sequence v = tr_sequence x + 1)"
    using Cons.IH [OF _ _ pre] Cons.prems(1,2) by auto
  moreover have "restore_tasks (x # ts) u = restore_tasks ts ?u" using Cons.prems by auto
  moreover have "tm_next_sequence u \<le> tm_next_sequence v" "tr_sequence x < tm_next_sequence v"
    using n v(4) by (auto intro: order.trans less_le_trans)
  moreover have "map_find (tm_tasks v) i = (case map_find (tm_tasks u) i of Some y \<Rightarrow> Some y
       | None \<Rightarrow> map_of (map (\<lambda>x. (tr_task_id x, x)) (x # ts)) i)" for i
    using v(3) Cons.prems(3) by (auto split: option.splits)
  ultimately show ?case by (intro exI [of _ v]) auto
qed (auto split: option.splits)

lemma tasks_roundtrip:
  assumes t: "tasks_inv t"
  shows "Tasks_ExportPersistent t out = Inr (SortedTasks (tm_tasks t)) \<and>
    Tasks_RestorePersistent any (SortedTasks (tm_tasks t)) = (OK, t)"
proof -
  let ?ts = "SortedTasks (tm_tasks t)"
  have mem: "x \<in> set ?ts \<longleftrightarrow> map_find (tm_tasks t) (tr_task_id x) = Some x" for x
    using all_tasks_set [OF t, of x] by (simp add: SortedTasks_def)
  have d: "distinct (map tr_task_id ?ts)"
    using all_tasks_distinct [OF t] unfolding SortedTasks_def by (metis mset_eq_imp_distinct_iff mset_map mset_sort)
  have seq: "tr_sequence x < tm_next_sequence t" "ValidateTaskRecord x = OK" if "x \<in> set ?ts" for x
    using that tasks_invD(3,4) [OF t] by (simp_all add: mem record_inv_def)
  have pre: "\<forall>x \<in> set ?ts. ValidateTaskRecord x = OK \<and> tr_sequence x \<noteq> - 1 \<and>
      map_find (tm_tasks TaskManager_new) (tr_task_id x) = None"
    using seq word_order.extremum_strict by (fastforce simp: TaskManager_new_def)
  obtain v where v: "restore_tasks ?ts TaskManager_new = Inr v" "map_wf (tm_tasks v)"
    "\<forall>i. map_find (tm_tasks v) i = map_of (map (\<lambda>x. (tr_task_id x, x)) ?ts) i"
    "\<forall>x \<in> set ?ts. tr_sequence x < tm_next_sequence v"
    "tm_next_sequence v = 1 \<or> (\<exists>x \<in> set ?ts. tm_next_sequence v = tr_sequence x + 1)"
    using restore_tasks_result [OF _ d pre] by (auto simp: TaskManager_new_def)
  have "map_find (tm_tasks v) i = Some x \<longleftrightarrow> map_find (tm_tasks t) i = Some x" for i x
  proof -
    have "map_of (map (\<lambda>x. (tr_task_id x, x)) ?ts) i = Some x \<longleftrightarrow> x \<in> set ?ts \<and> tr_task_id x = i"
      using d by (subst map_of_eq_Some_iff) (auto simp: o_def)
    moreover have "map_find (tm_tasks t) i = Some x \<Longrightarrow> tr_task_id x = i"
      using tasks_invD(3) [OF t] by (simp add: record_inv_def)
    ultimately show ?thesis unfolding v(3) [rule_format] mem by blast
  qed
  then have tasks: "tm_tasks v = tm_tasks t"
    by (intro map_wf_ext [OF v(2) tasks_invD(1) [OF t]] option_eqI)
  have "tm_next_sequence v = tm_next_sequence t"
  proof (cases "tm_next_sequence t = 1")
    case True
    have "tr_sequence x \<noteq> 0" if "x \<in> set ?ts" for x
      using that tasks_invD(3) [OF t] by (simp add: mem record_inv_fields)
    then have none: "x \<notin> set ?ts" for x using seq(1) [of x] True by auto
    have "set ?ts = {}" by (rule equals0I) (erule notE [OF none])
    then show ?thesis using v(5) True by simp
  next
    case False
    then obtain x where x: "x \<in> set ?ts" "tr_sequence x + 1 = tm_next_sequence t"
      using t mem tasks_invD(3) [OF t] by (auto simp: tasks_inv_def record_inv_def)
    then obtain y where y: "y \<in> set ?ts" "tm_next_sequence v = tr_sequence y + 1"
      using v(4,5) tasks_invD(3) [OF t] by (auto simp: mem record_inv_fields)
    have "unat (tr_sequence x + 1) = Suc (unat (tr_sequence x))" "unat (tr_sequence y + 1) = Suc (unat (tr_sequence y))"
      using unat_inc seq(1) x(1) y(1) by blast+
    moreover have "unat (tr_sequence x) < unat (tm_next_sequence v)" "unat (tr_sequence y) < unat (tm_next_sequence t)"
      using v(4) x(1) seq(1) [OF y(1)] by (auto simp: word_less_nat_alt)
    ultimately show ?thesis using x(2) y(2) by (metis less_Suc_eq_le order_antisym word_unat_eq_iff)
  qed
  then show ?thesis
    using v(1) tasks by (simp add: Tasks_ExportPersistent_def Tasks_ListTasks_def Tasks_RestorePersistent_def)
qed

section \<open>Retries\<close>

lemma CreateTask_again:
  assumes "CreateTask t request = (Inr x, t')"
  shows "CreateTask t' request = (Inr x, t')"
  using assms by (auto simp: CreateTask_def Let_def SameCreateRequest_def split: if_splits option.splits)

lemma CompleteTask_again:
  assumes "CompleteTask t report = (Inr x, t')"
  shows "CompleteTask t' report =
    (if t' = t \<or> rr_expected_generation report = None then (Inr x, t') else (Inl Busy, t'))"
proof (cases "t' = t")
  case True
  then show ?thesis using assms by simp
next
  case False
  then obtain y where y: "map_find (tm_tasks t) (rr_task_id report) = Some y" "tr_assigned_store y = rr_store_id report"
    "rr_expected_generation report = None \<or> rr_expected_generation report = Some (tr_generation y)"
    "x = y\<lparr>tr_state := rr_final_state report, tr_result_payload := rr_result_payload report,
      tr_generation := tr_generation y + 1\<rparr>"
    "t' = t\<lparr>tm_tasks := map_set (rr_task_id report) x (tm_tasks t)\<rparr>"
    "rr_final_state report = Task_SUCCESS \<or> rr_final_state report = Task_FAILED"
    "Task_ValidateStoreId (rr_store_id report) = OK" "ValidateTaskId (rr_task_id report) = OK"
    "\<not> kMaxTaskPayloadBytes < length (rr_result_payload report)"
    using assms by (auto simp: CompleteTask_def Let_def split: if_splits option.splits)
  have "tr_generation y \<noteq> tr_generation y + 1" by simp
  then show ?thesis
    using False y by (auto simp: CompleteTask_def IsTerminal_def SameResult_def)
qed

section \<open>Properties\<close>

text \<open>
  A task keeps its identity, is never handed back, and is executed by one store: over any runs its
  type, its payload and its place in the queue stay, a running task stays with its store, and a
  task with a final result never changes again. No operation removes a task.
\<close>

theorem tasks_evolve:
  "tasks_inv (fst (task_run ops TaskManager_new)) \<and>
   tasks_le (fst (task_run ops TaskManager_new)) (fst (task_run ops' (fst (task_run ops TaskManager_new))))"
  using task_run_le [of TaskManager_new ops] task_run_le [of "fst (task_run ops TaskManager_new)" ops']
  by (simp add: tasks_le_def)

text \<open>Polling hands out every task at most once, however many stores poll and in whatever order.\<close>

theorem task_polled_once: "distinct (snd (task_run ops TaskManager_new))"
  using task_run_polled [OF tasks_inv_new] by blast

text \<open>
  A poll hands out the oldest waiting tasks: as many as were asked for if there are enough, in the
  order of their creation, each now running on the polling store; every task that still waits is
  younger. It fails only for an invalid store or limit, or when a generation cannot advance.
\<close>

theorem poll_takes_oldest:
  "let t = fst (task_run ops TaskManager_new);
       t' = snd (AssignNextWaitingTasks t store_id n out)
   in case fst (AssignNextWaitingTasks t store_id n out) of
        Inl e \<Rightarrow> t' = t \<and>
          (e = InvalidArgument \<and> (store_id = 0 \<or> n = 0) \<or>
           e = Busy \<and> (\<exists>x \<in> set (waiting_tasks t). tr_generation x = - 1))
      | Inr tasks \<Rightarrow>
          length tasks = min (unat n) (length (waiting_tasks t)) \<and>
          sorted_wrt (<) (map tr_sequence tasks) \<and>
          list_all (\<lambda>x. tr_state x = Task_RUNNING \<and> tr_assigned_store x = store_id \<and>
            map_find (tm_tasks t') (tr_task_id x) = Some x \<and>
            list_all (\<lambda>y. tr_sequence x < tr_sequence y) (waiting_tasks t')) tasks"
proof -
  define t where "t = fst (task_run ops TaskManager_new)"
  have "tasks_inv t" unfolding t_def using task_run_le [OF tasks_inv_new] by (simp add: tasks_le_def)
  then show ?thesis unfolding t_def [symmetric] using AssignNextWaitingTasks_cases by (simp only: Let_def)
qed

text \<open>
  What the task manager exports can be restored, into any task manager, and gives back exactly the
  same tasks and the same next sequence number.
\<close>

theorem task_persistent_roundtrip:
  "let t = fst (task_run ops TaskManager_new)
   in \<exists>tasks. Tasks_ExportPersistent t out = Inr tasks \<and> Tasks_RestorePersistent any tasks = (OK, t)"
proof -
  define t where "t = fst (task_run ops TaskManager_new)"
  have "tasks_inv t" unfolding t_def using task_run_le [OF tasks_inv_new] by (simp add: tasks_le_def)
  then show ?thesis unfolding t_def [symmetric] using tasks_roundtrip by (auto simp: Let_def)
qed

text \<open>
  Retries: a create request that succeeded succeeds again with the same record and no change. A
  result report that succeeded succeeds again unless it names the generation it expects; then the
  retry of a report that changed the task is refused as busy, since the generation has advanced.
\<close>

theorem task_retries:
  assumes "CreateTask t request = (Inr x, t1)" and "CompleteTask u report = (Inr y, u1)"
  shows "CreateTask t1 request = (Inr x, t1) \<and>
    CompleteTask u1 report =
      (if u1 = u \<or> rr_expected_generation report = None then (Inr y, u1) else (Inl Busy, u1))"
  using CreateTask_again [OF assms(1)] CompleteTask_again [OF assms(2)] by blast

text \<open>A task is created, polled by store 7 and completed.\<close>

definition example_create :: TaskCreateRequest where
  "example_create = \<lparr>tc_task_id = ''t'', tc_type = Task_COPY, tc_target_payload = [1, 2]\<rparr>"

definition example_polled :: TaskManager where
  "example_polled = fst (task_run [Op_CreateTask example_create, Op_AssignNextWaitingTasks 7 5] TaskManager_new)"

definition example_report :: TaskResultReport where
  "example_report =
     \<lparr>rr_store_id = 7, rr_task_id = ''t'', rr_final_state = Task_SUCCESS, rr_result_payload = [3],
      rr_expected_generation = Some 2\<rparr>"

lemmas task_defs = CreateTask_def AssignNextWaitingTasks_def CompleteTask_def ValidateTaskId_def ValidateTaskType_def
  Task_ValidateStoreId_def kMaxTaskIdBytes_def kMaxTaskPayloadBytes_def kInitialTaskGeneration_def TaskManager_new_def
  IsTerminal_def Let_def map_find_def map_emplace_def

lemma example_create_result: "\<exists>x. fst (CreateTask TaskManager_new example_create) = Inr x"
  by (simp add: task_defs example_create_def)

lemma example_polled_eq:
  "example_polled = \<lparr>tm_tasks = [(''t'', \<lparr>tr_task_id = ''t'', tr_type = Task_COPY, tr_state = Task_RUNNING,
     tr_target_payload = [1, 2], tr_assigned_store = 7, tr_result_payload = [], tr_generation = 2,
     tr_sequence = 1\<rparr>)], tm_next_sequence = 2\<rparr>"
  by (simp add: example_polled_def task_defs example_create_def)

lemma example_report_result:
  "\<exists>x. fst (CompleteTask example_polled example_report) = Inr x"
  "snd (CompleteTask example_polled example_report) \<noteq> example_polled"
  by (simp_all add: example_polled_eq task_defs example_report_def)

theorem task_retries_witness:
  "fst (CreateTask (snd (CreateTask TaskManager_new example_create)) example_create) =
     fst (CreateTask TaskManager_new example_create) \<and>
   fst (CompleteTask (snd (CompleteTask example_polled example_report)) example_report) = Inl Busy"
proof -
  let ?c = "CreateTask TaskManager_new example_create" and ?r = "CompleteTask example_polled example_report"
  obtain x y where x: "fst ?c = Inr x" and y: "fst ?r = Inr y"
    using example_create_result example_report_result(1) by blast
  have "?c = (Inr x, snd ?c)" "?r = (Inr y, snd ?r)" using x y by (simp_all add: prod_eq_iff)
  from task_retries [OF this] show ?thesis
    using x example_report_result(2) by (auto simp: example_report_def)
qed

end
