(* ===== verification/Task_Dispatcher.thy ===== *)
theory Task_Dispatcher
  imports Task_Manager
begin

text \<open>
  \<open>store/task_dispatcher.h\<close> and \<open>store/simple_task_dispatcher.cpp\<close>: the stores poll for work and
  report results through \<open>ITaskDispatcher\<close>, which is the locale \<open>task_dispatcher\<close>; the simple
  dispatcher caps the number of tasks of a poll and forwards to the task manager it points to.
\<close>

section \<open>The simple dispatcher\<close>

record PollTasksRequest =
  pt_store_id :: StoreId
  pt_max_tasks :: u32

record PollTasksResult =
  pt_tasks :: "TaskRecord list"

text \<open>The task manager is shared: it is passed in and returned, unless the pointer is null.\<close>

record SimpleTaskDispatcher =
  td_tasks :: out_ptr
  td_max_poll_tasks :: u32

definition PollTasks ::
  "SimpleTaskDispatcher \<Rightarrow> PollTasksRequest \<Rightarrow> out_ptr \<Rightarrow> TaskManager \<Rightarrow>
     (Status + PollTasksResult) \<times> TaskManager" where
  "PollTasks d request result t =
     (if result = nullptr then (Inl InvalidArgument, t)
      else if td_tasks d = nullptr then (Inl InvalidArgument, t)
      else if pt_store_id request = 0 then (Inl InvalidArgument, t)
      else if pt_max_tasks request = 0 then (Inl InvalidArgument, t)
      else if td_max_poll_tasks d = 0 then (Inl InvalidArgument, t)
      else (case AssignNextWaitingTasks t (pt_store_id request)
                   (min (pt_max_tasks request) (td_max_poll_tasks d)) out of
              (Inl status, t') \<Rightarrow> (Inl status, t')
            | (Inr tasks, t') \<Rightarrow> (Inr \<lparr>pt_tasks = tasks\<rparr>, t')))"

definition ReportTaskResult ::
  "SimpleTaskDispatcher \<Rightarrow> TaskResultReport \<Rightarrow> TaskManager \<Rightarrow> (Status + TaskRecord) \<times> TaskManager" where
  "ReportTaskResult d report t =
     (if td_tasks d = nullptr then (Inl InvalidArgument, t) else CompleteTask t report)"

text \<open>Any number of polls and reports, by any stores: the tasks the polls gave out.\<close>

fun serve ::
  "(PollTasksRequest \<Rightarrow> 's \<Rightarrow> (Status + PollTasksResult) \<times> 's) \<Rightarrow>
   (TaskResultReport \<Rightarrow> 's \<Rightarrow> (Status + TaskRecord) \<times> 's) \<Rightarrow>
   (PollTasksRequest + TaskResultReport) list \<Rightarrow> 's \<Rightarrow> TaskId list" where
  "serve poll report [] s = []"
| "serve poll report (Inl request # calls) s =
     (case fst (poll request s) of Inl _ \<Rightarrow> [] | Inr result \<Rightarrow> map tr_task_id (pt_tasks result)) @
     serve poll report calls (snd (poll request s))"
| "serve poll report (Inr r # calls) s = serve poll report calls (snd (report r s))"

section \<open>The interface\<close>

text \<open>
  What a store relies on: a poll gives it at most as many tasks as it asked for, all of them
  different, running and assigned to it, none of which was handed out before; and a result it
  reported is what the dispatcher keeps.
\<close>

locale task_dispatcher =
  fixes poll :: "PollTasksRequest \<Rightarrow> 's \<Rightarrow> (Status + PollTasksResult) \<times> 's"
    and report_result :: "TaskResultReport \<Rightarrow> 's \<Rightarrow> (Status + TaskRecord) \<times> 's"
    and invar :: "'s \<Rightarrow> bool"
    and handed :: "'s \<Rightarrow> TaskId \<Rightarrow> bool"
  assumes poll_invar: "invar s \<Longrightarrow> invar (snd (poll request s))"
    and report_invar: "invar s \<Longrightarrow> invar (snd (report_result report s))"
    and poll_keeps: "invar s \<Longrightarrow> handed s i \<Longrightarrow> handed (snd (poll request s)) i"
    and report_keeps: "invar s \<Longrightarrow> handed s i \<Longrightarrow> handed (snd (report_result report s)) i"
    and poll_result: "invar s \<Longrightarrow> poll request s = (Inr result, s') \<Longrightarrow>
      length (pt_tasks result) \<le> unat (pt_max_tasks request) \<and> distinct (map tr_task_id (pt_tasks result)) \<and>
      (\<forall>x \<in> set (pt_tasks result). tr_state x = Task_RUNNING \<and> tr_assigned_store x = pt_store_id request \<and>
         \<not> handed s (tr_task_id x) \<and> handed s' (tr_task_id x))"
begin

lemma serve_fresh:
  "invar s \<Longrightarrow> i \<in> set (serve poll report_result calls s) \<Longrightarrow> \<not> handed s i"
proof (induction calls arbitrary: s)
  case (Cons c calls)
  show ?case
  proof (cases c)
    case (Inl request)
    have "\<not> handed s i" if "fst (poll request s) = Inr result" "i \<in> tr_task_id ` set (pt_tasks result)" for result
    proof -
      have "poll request s = (Inr result, snd (poll request s))" using that(1) by (simp add: prod_eq_iff)
      from poll_result [OF Cons.prems(1) this] show ?thesis using that(2) by blast
    qed
    moreover have "\<not> handed s i" if "i \<in> set (serve poll report_result calls (snd (poll request s)))"
      using Cons.IH [OF poll_invar [OF Cons.prems(1)] that] poll_keeps [OF Cons.prems(1)] by blast
    ultimately show ?thesis using Cons.prems(2) Inl by (cases "fst (poll request s)") auto
  next
    case (Inr r)
    then have "\<not> handed (snd (report_result r s)) i"
      using Cons.IH [OF report_invar [OF Cons.prems(1)]] Cons.prems(2) by simp
    then show ?thesis using report_keeps [OF Cons.prems(1)] by blast
  qed
qed simp

lemma serve_once: "invar s \<Longrightarrow> distinct (serve poll report_result calls s)"
proof (induction calls arbitrary: s)
  case (Cons c calls)
  show ?case
  proof (cases c)
    case (Inl request)
    note IH = Cons.IH [OF poll_invar [OF Cons.prems(1)], of request]
    show ?thesis
    proof (cases "fst (poll request s)")
      case (Inr result)
      then have "poll request s = (Inr result, snd (poll request s))" by (simp add: prod_eq_iff)
      from poll_result [OF Cons.prems(1) this] show ?thesis
        using IH serve_fresh [OF poll_invar [OF Cons.prems(1)]] by (auto simp: Inr Inl)
    qed (use IH Inl in simp)
  next
    case (Inr r)
    then show ?thesis using Cons.IH [OF report_invar [OF Cons.prems(1)]] by simp
  qed
qed simp

end

lemma AssignNext_InrD:
  assumes "tasks_inv t" "AssignNextWaitingTasks t store_id n out = (Inr tasks, t')"
  shows "length tasks \<le> unat n" "distinct (map tr_task_id tasks)"
    "x \<in> set tasks \<Longrightarrow> tr_state x = Task_RUNNING \<and> tr_assigned_store x = store_id \<and>
       \<not> handed_out t (tr_task_id x) \<and> handed_out t' (tr_task_id x)"
proof -
  note cases = AssignNextWaitingTasks_cases [OF assms(1), of store_id n, unfolded assms(2) Let_def, simplified]
  show "length tasks \<le> unat n" using cases by simp
  show "distinct (map tr_task_id tasks)"
    using polled_facts(1) [OF assms(1), of "Op_AssignNextWaitingTasks store_id n"] by (simp add: assms(2))
  show "x \<in> set tasks \<Longrightarrow> tr_state x = Task_RUNNING \<and> tr_assigned_store x = store_id \<and>
       \<not> handed_out t (tr_task_id x) \<and> handed_out t' (tr_task_id x)"
    using polled_facts(2) [OF assms(1), of "tr_task_id x" "Op_AssignNextWaitingTasks store_id n"] cases
    by (simp add: assms(2) list_all_iff)
qed

lemma PollTasks_cases:
  "(\<exists>e. PollTasks d request p t = (Inl e, t)) \<or>
   PollTasks d request p t = map_prod (map_sum (\<lambda>e. e) PollTasksResult.make) (\<lambda>t. t)
     (AssignNextWaitingTasks t (pt_store_id request) (min (pt_max_tasks request) (td_max_poll_tasks d)) out)"
  by (auto simp: PollTasks_def PollTasksResult.make_def split: prod.splits sum.splits)

interpretation simple_dispatcher: task_dispatcher
  "\<lambda>request t. PollTasks d request out t" "\<lambda>report t. ReportTaskResult d report t" tasks_inv handed_out
  for d
proof
  fix t :: TaskManager and request report i result t'
  assume t: "tasks_inv t"
  have poll: "tasks_le t (snd (PollTasks d request out t))"
    using PollTasks_cases [of d request out t] t AssignNextWaitingTasks_le [OF t] by auto
  have rep: "tasks_le t (snd (ReportTaskResult d report t))"
    using t CompleteTask_le [OF t] by (simp add: ReportTaskResult_def)
  show "tasks_inv (snd (PollTasks d request out t))" using poll by (simp add: tasks_le_def)
  show "tasks_inv (snd (ReportTaskResult d report t))" using rep by (simp add: tasks_le_def)
  show "handed_out (snd (PollTasks d request out t)) i" if "handed_out t i" using handed_out_le [OF poll that] .
  show "handed_out (snd (ReportTaskResult d report t)) i" if "handed_out t i" using handed_out_le [OF rep that] .
  let ?n = "min (pt_max_tasks request) (td_max_poll_tasks d)"
  assume "PollTasks d request out t = (Inr result, t')"
  then have a: "AssignNextWaitingTasks t (pt_store_id request) ?n out = (Inr (pt_tasks result), t')"
    using PollTasks_cases [of d request out t]
    by (cases "AssignNextWaitingTasks t (pt_store_id request) ?n out")
      (auto simp: PollTasksResult.make_def map_sum_def split: sum.splits)
  have "unat ?n \<le> unat (pt_max_tasks request)" by (simp add: min_def word_le_nat_alt)
  then show "length (pt_tasks result) \<le> unat (pt_max_tasks request) \<and> distinct (map tr_task_id (pt_tasks result)) \<and>
      (\<forall>x \<in> set (pt_tasks result). tr_state x = Task_RUNNING \<and> tr_assigned_store x = pt_store_id request \<and>
         \<not> handed_out t (tr_task_id x) \<and> handed_out t' (tr_task_id x))"
    using AssignNext_InrD [OF t a] by (meson order.trans)
qed

section \<open>What the stores get\<close>

text \<open>
  C30. Starting from an empty task manager, through any sequence of task manager calls and then any
  sequence of polls and reports of any stores to a simple dispatcher, no task id is handed out twice,
  neither by the dispatcher nor by the task manager before it.
\<close>

theorem dispatcher_serves_once:
  "distinct (snd (task_run ops TaskManager_new) @
     serve (\<lambda>request t. PollTasks d request out t) (\<lambda>report t. ReportTaskResult d report t) calls
       (fst (task_run ops TaskManager_new)))"
proof -
  let ?t = "fst (task_run ops TaskManager_new)"
  have t: "tasks_inv ?t" using task_run_le [OF tasks_inv_new] by (simp add: tasks_le_def)
  show ?thesis
    using task_run_polled [OF tasks_inv_new, of ops] simple_dispatcher.serve_once [OF t, of d calls]
      simple_dispatcher.serve_fresh [OF t, of _ d calls] by auto
qed

end
