(* ===== verification/Byte_Decoder.thy ===== *)
theory Byte_Decoder
  imports Byte_Codec
begin

text \<open>
  What the two \<open>Decoder\<close> classes of \<open>metadata_command.cpp\<close> and
  \<open>metadata_state_machine.cpp\<close> share. A \<open>Decoder\<close> keeps a payload and an offset into it;
  every read looks only at the bytes behind the offset and moves the offset behind what it
  read, and the offset never exceeds the size. So a decoder is modelled by the bytes it has not
  read yet: \<open>remaining()\<close> is their number, and a read returns the value with the bytes behind
  it. Integers are big-endian. The locale \<open>parser\<close> is the law of such a read in one
  equivalence: it succeeds exactly on the bytes the writer produces, followed by anything.
\<close>

section \<open>Big-endian integers\<close>

definition be :: "nat \<Rightarrow> 'a::len word \<Rightarrow> bytes" where
  "be n v = rev (put_le n v)"

definition from_be :: "nat \<Rightarrow> bytes \<Rightarrow> 'a::len word" where
  "from_be n bs = get_le n (rev (take n bs)) 0"

lemma length_be [simp]: "length (be n v) = n"
  by (simp add: be_def)

lemma put_get_le:
  assumes "LENGTH('a) = 8 * n" "length bs = n"
  shows "put_le n (get_le n bs 0 :: 'a::len word) = bs"
proof (rule nth_equalityI)
  fix k assume "k < length (put_le n (get_le n bs 0 :: 'a word))"
  then have k: "k < n" by simp
  show "put_le n (get_le n bs 0 :: 'a word) ! k = bs ! k"
  proof (rule bit_word_eqI)
    fix j :: nat assume "j < LENGTH(8)"
    then have "8 * k + j < 8 * n" "(8 * k + j) div 8 = k" "(8 * k + j) mod 8 = j" "j < 8" using k by simp_all
    then show "bit (put_le n (get_le n bs 0 :: 'a word) ! k) j = bit (bs ! k) j"
      using k assms(1) by (simp add: bit_put_le bit_get_le)
  qed
qed (simp add: assms)

lemma from_be_iff:
  assumes "LENGTH('a) = 8 * n"
  shows "n \<le> length bs \<and> x = (from_be n bs :: 'a::len word) \<and> rest = drop n bs \<longleftrightarrow> bs = be n x @ rest"
proof
  assume a: "n \<le> length bs \<and> x = from_be n bs \<and> rest = drop n bs"
  then have "be n x = take n bs"
    using put_get_le [OF assms, of "rev (take n bs)"] by (simp add: be_def from_be_def)
  then show "bs = be n x @ rest" using a by simp
next
  assume a: "bs = be n x @ rest"
  then have "from_be n bs = x"
    using get_put_le [OF assms, of "[]" x "[]"] by (simp add: from_be_def be_def)
  then show "n \<le> length bs \<and> x = from_be n bs \<and> rest = drop n bs" using a by simp
qed

text \<open>The ways the sources write the bytes of an integer.\<close>

lemma be_2: "be 2 (v :: 'a::len word) = [ucast (drop_bit 8 v AND 0xFF), ucast (v AND 0xFF)]"
  by (simp add: be_def put_le_def upt_rec)

lemma be_4:
  "be 4 (v :: 'a::len word) =
     [ucast (drop_bit 24 v AND 0xFF), ucast (drop_bit 16 v AND 0xFF), ucast (drop_bit 8 v AND 0xFF), ucast (v AND 0xFF)]"
  by (simp add: be_def put_le_def upt_rec)

lemma be_8:
  "be 8 (v :: 'a::len word) = map (\<lambda>shift. ucast (drop_bit shift v AND 0xFF)) [56, 48, 40, 32, 24, 16, 8, 0]"
  by (simp add: be_def put_le_def upt_rec)

text \<open>The ways the sources read them.\<close>

lemma from_be_2:
  "from_be 2 bs = (push_bit 8 (ucast (bs ! 0)) OR ucast (bs ! 1) :: 'a::len word)" if "2 \<le> length bs"
  using that by (simp add: from_be_def get_le_def upt_rec rev_nth or.commute)

lemma from_be_4:
  "from_be 4 bs = (push_bit 24 (ucast (bs ! 0)) OR push_bit 16 (ucast (bs ! 1)) OR
     push_bit 8 (ucast (bs ! 2)) OR ucast (bs ! 3) :: 'a::len word)" if "4 \<le> length bs"
  using that by (simp add: from_be_def get_le_def upt_rec rev_nth ac_simps)

lemma from_be_8:
  "from_be 8 bs = (fold (\<lambda>i result. push_bit 8 result OR ucast (bs ! i)) [0 ..< 8] 0 :: 'a::len word)"
  if "8 \<le> length bs"
proof -
  have u: "[0 ..< 8] = [0, 1, 2, 3, 4, 5, 6, 7 :: nat]" by (simp add: upt_rec)
  show ?thesis using that by (simp add: from_be_def get_le_def u rev_nth ac_simps)
qed

section \<open>Parsers\<close>

type_synonym 'a parse = "bytes \<Rightarrow> Status + ('a \<times> bytes)"

fun parse_many :: "'a parse \<Rightarrow> nat \<Rightarrow> 'a list parse" where
  "parse_many p 0 bs = Inr ([], bs)"
| "parse_many p (Suc n) bs =
     and_then (p bs) (\<lambda>(x, bs1). and_then (parse_many p n bs1) (\<lambda>(xs, bs2). Inr (x # xs, bs2)))"

locale parser =
  fixes put :: "'a \<Rightarrow> bytes"
    and parse :: "'a parse"
    and encodable :: "'a \<Rightarrow> bool"
  assumes parse_iff: "parse bs = Inr (x, rest) \<longleftrightarrow> encodable x \<and> bs = put x @ rest"
begin

lemma parse_put: "encodable x \<Longrightarrow> parse (put x @ rest) = Inr (x, rest)"
  by (simp add: parse_iff)

lemma parse_many_iff:
  "parse_many parse n bs = Inr (xs, rest) \<longleftrightarrow>
     length xs = n \<and> (\<forall>x \<in> set xs. encodable x) \<and> bs = concat (map put xs) @ rest"
proof (induction n arbitrary: bs xs)
  case 0
  then show ?case by auto
next
  case (Suc n)
  have "parse_many parse (Suc n) bs = Inr (xs, rest) \<longleftrightarrow>
      (\<exists>x ys bs1. parse bs = Inr (x, bs1) \<and> parse_many parse n bs1 = Inr (ys, rest) \<and> xs = x # ys)"
    by (auto simp: and_then_Inr_iff)
  also have "\<dots> \<longleftrightarrow> (\<exists>x ys. xs = x # ys \<and> length ys = n \<and> encodable x \<and> (\<forall>y \<in> set ys. encodable y) \<and>
      bs = put x @ concat (map put ys) @ rest)"
    unfolding Suc.IH parse_iff by blast
  also have "\<dots> \<longleftrightarrow> length xs = Suc n \<and> (\<forall>x \<in> set xs. encodable x) \<and> bs = concat (map put xs) @ rest"
    by (auto simp: length_Suc_conv)
  finally show ?case .
qed

text \<open>What a function that goes on with the value of a read yields.\<close>

lemma and_then_iff:
  "and_then (parse bs) f = Inr y \<longleftrightarrow> (\<exists>x rest. encodable x \<and> bs = put x @ rest \<and> f (x, rest) = Inr y)"
  by (auto simp: and_then_Inr_iff parse_iff)

lemma and_then_put: "encodable x \<Longrightarrow> and_then (parse (put x @ rest)) f = f (x, rest)"
  by (simp add: parse_put)

end

end
