(* ===== verification/Metadata_Command.thy ===== *)
theory Metadata_Command
  imports Byte_Decoder Raft_Types Store_Registry Task_Manager
begin

text \<open>
  \<open>metadata/metadata_command.{h,cpp}\<close>: the commands that go through the Raft log, their
  validation and their byte formats. A metadata command carries an opaque payload; for a store
  operation the payload is a store business command, and the answer that is kept in the state
  machine is a store business result. A \<open>Decoder\<close> is the bytes it has not read yet
  (\<open>Byte_Decoder\<close>). An enumeration read from a byte can have a value its declaration does not
  name, the last constructor of each.
\<close>

section \<open>Data\<close>

datatype MetadataCommandType = OPAQUE_OPERATION | STORE_OPERATION | CommandType_other u8

datatype StoreBusinessCommandKind =
    REGISTER_STORE
  | UPDATE_STORE_STATE
  | REMOVE_STORE
  | CREATE_TASK
  | POLL_TASKS
  | REPORT_TASK_RESULT
  | CommandKind_other u8

record StoreBusinessCommand =
  sb_kind :: StoreBusinessCommandKind
  sb_store :: StoreInfo
  sb_update :: StoreUpdate
  sb_task_create :: TaskCreateRequest
  sb_task_result :: TaskResultReport
  sb_store_id :: StoreId
  sb_max_tasks :: u32

record StoreBusinessResult =
  br_store :: StoreInfo
  br_tasks :: "TaskRecord list"
  br_duplicate_result :: bool

record MetadataCommand =
  mc_type :: MetadataCommandType
  mc_command_id :: string
  mc_target_id :: string
  mc_expected_generation :: "u64 option"
  mc_payload :: OpaquePayload

definition kMetadataCommandFormatVersion :: u8 where "kMetadataCommandFormatVersion = 1"
definition kMaxMetadataCommandIdBytes :: nat where "kMaxMetadataCommandIdBytes = 4 * 1024"
definition kMaxMetadataCommandTargetBytes :: nat where "kMaxMetadataCommandTargetBytes = 4 * 1024"
definition kMaxMetadataCommandPayloadBytes :: nat where "kMaxMetadataCommandPayloadBytes = 4 * 1024 * 1024"
definition kFlagHasExpectedGeneration :: u16 where "kFlagHasExpectedGeneration = 1"
definition kStoreBusinessCommandVersion :: u8 where "kStoreBusinessCommandVersion = 1"
definition kStoreBusinessResultVersion :: u8 where "kStoreBusinessResultVersion = 1"
definition kMaxStoreBusinessItems :: nat where "kMaxStoreBusinessItems = 4096"

lemmas command_limits = kMaxMetadataCommandIdBytes_def kMaxMetadataCommandTargetBytes_def
  kMaxMetadataCommandPayloadBytes_def

section \<open>Enumerations as bytes\<close>

text \<open>The \<open>static_cast\<close>s between an enumeration and its underlying \<open>std::uint8_t\<close>.\<close>

fun command_type_code :: "MetadataCommandType \<Rightarrow> u8" where
  "command_type_code OPAQUE_OPERATION = 1"
| "command_type_code STORE_OPERATION = 2"
| "command_type_code (CommandType_other c) = c"

definition command_type_of_code :: "u8 \<Rightarrow> MetadataCommandType" where
  "command_type_of_code c =
     (if c = 1 then OPAQUE_OPERATION else if c = 2 then STORE_OPERATION else CommandType_other c)"

fun command_kind_code :: "StoreBusinessCommandKind \<Rightarrow> u8" where
  "command_kind_code REGISTER_STORE = 1"
| "command_kind_code UPDATE_STORE_STATE = 2"
| "command_kind_code REMOVE_STORE = 3"
| "command_kind_code CREATE_TASK = 4"
| "command_kind_code POLL_TASKS = 5"
| "command_kind_code REPORT_TASK_RESULT = 6"
| "command_kind_code (CommandKind_other c) = c"

definition command_kind_of_code :: "u8 \<Rightarrow> StoreBusinessCommandKind" where
  "command_kind_of_code c =
     (if c = 1 then REGISTER_STORE else if c = 2 then UPDATE_STORE_STATE
      else if c = 3 then REMOVE_STORE else if c = 4 then CREATE_TASK
      else if c = 5 then POLL_TASKS else if c = 6 then REPORT_TASK_RESULT else CommandKind_other c)"

fun EncodeStoreState :: "StoreState \<Rightarrow> u8" where
  "EncodeStoreState Store_RUNNING = 0"
| "EncodeStoreState Store_STOPPED = 1"
| "EncodeStoreState Store_FAILED = 2"
| "EncodeStoreState (Store_other c) = c"

definition DecodeStoreState :: "u8 \<Rightarrow> StoreState" where
  "DecodeStoreState c =
     (if c = 0 then Store_RUNNING else if c = 1 then Store_STOPPED
      else if c = 2 then Store_FAILED else Store_other c)"

fun EncodeTaskType :: "TaskType \<Rightarrow> u8" where
  "EncodeTaskType Task_CREATE = 0"
| "EncodeTaskType Task_DELETE = 1"
| "EncodeTaskType Task_COPY = 2"
| "EncodeTaskType Task_CUSTOM = 3"
| "EncodeTaskType (TaskType_other c) = c"

definition DecodeTaskType :: "u8 \<Rightarrow> TaskType" where
  "DecodeTaskType c =
     (if c = 0 then Task_CREATE else if c = 1 then Task_DELETE else if c = 2 then Task_COPY
      else if c = 3 then Task_CUSTOM else TaskType_other c)"

fun EncodeTaskState :: "TaskState \<Rightarrow> u8" where
  "EncodeTaskState Task_WAITING = 0"
| "EncodeTaskState Task_RUNNING = 1"
| "EncodeTaskState Task_SUCCESS = 2"
| "EncodeTaskState Task_FAILED = 3"
| "EncodeTaskState (TaskState_other c) = c"

definition DecodeTaskState :: "u8 \<Rightarrow> TaskState" where
  "DecodeTaskState c =
     (if c = 0 then Task_WAITING else if c = 1 then Task_RUNNING else if c = 2 then Task_SUCCESS
      else if c = 3 then Task_FAILED else TaskState_other c)"

definition IsKnownType :: "MetadataCommandType \<Rightarrow> bool" where
  "IsKnownType type \<longleftrightarrow> type = OPAQUE_OPERATION \<or> type = STORE_OPERATION"

definition IsKnownStoreCommandKind :: "StoreBusinessCommandKind \<Rightarrow> bool" where
  "IsKnownStoreCommandKind kind \<longleftrightarrow>
     kind = REGISTER_STORE \<or> kind = UPDATE_STORE_STATE \<or> kind = REMOVE_STORE \<or>
     kind = CREATE_TASK \<or> kind = POLL_TASKS \<or> kind = REPORT_TASK_RESULT"

section \<open>Writers\<close>

definition ValidateLength :: "nat \<Rightarrow> nat \<Rightarrow> Status" where
  "ValidateLength len max_len =
     (if max_len < len then InvalidArgument
      else if 2 ^ 32 - 1 < len then InvalidArgument else OK)"

definition AppendU8 :: "u8 \<Rightarrow> bytes \<Rightarrow> bytes" where
  "AppendU8 value payload = payload @ [value]"

definition AppendU16 :: "u16 \<Rightarrow> bytes \<Rightarrow> bytes" where
  "AppendU16 value payload = payload @ [ucast (drop_bit 8 value AND 0xFF), ucast (value AND 0xFF)]"

definition AppendU32 :: "u32 \<Rightarrow> bytes \<Rightarrow> bytes" where
  "AppendU32 value payload =
     payload @ [ucast (drop_bit 24 value AND 0xFF), ucast (drop_bit 16 value AND 0xFF),
                ucast (drop_bit 8 value AND 0xFF), ucast (value AND 0xFF)]"

definition AppendU64 :: "u64 \<Rightarrow> bytes \<Rightarrow> bytes" where
  "AppendU64 value payload =
     payload @ map (\<lambda>shift. ucast (drop_bit shift value AND 0xFF)) [56, 48, 40, 32, 24, 16, 8, 0]"

definition AppendString :: "string \<Rightarrow> bytes \<Rightarrow> bytes" where
  "AppendString value payload = payload @ map byte_of_char value"

definition AppendBytes :: "OpaquePayload \<Rightarrow> bytes \<Rightarrow> bytes" where
  "AppendBytes value payload = payload @ value"

definition AppendStringField :: "string \<Rightarrow> bytes \<Rightarrow> Status + bytes" where
  "AppendStringField value payload =
     (let status = ValidateLength (length value) kMaxMetadataCommandTargetBytes
      in if \<not> ok status then Inl status
         else Inr (AppendString value (AppendU32 (word_of_nat (length value)) payload)))"

definition AppendPayloadField :: "OpaquePayload \<Rightarrow> bytes \<Rightarrow> Status + bytes" where
  "AppendPayloadField value payload =
     (let status = ValidateLength (length value) kMaxMetadataCommandPayloadBytes
      in if \<not> ok status then Inl status
         else Inr (AppendBytes value (AppendU32 (word_of_nat (length value)) payload)))"

definition AppendStoreInfo :: "StoreInfo \<Rightarrow> bytes \<Rightarrow> bytes" where
  "AppendStoreInfo store payload =
     AppendU16 (sa_port (si_address store)) (AppendU64 (si_generation store)
      (AppendU8 (EncodeStoreState (si_state store)) (AppendU64 (si_used_bytes store)
       (AppendU64 (si_capacity_bytes store) (AppendU64 (si_id store) payload)))))"

definition AppendStoreInfoWithHost :: "StoreInfo \<Rightarrow> bytes \<Rightarrow> Status + bytes" where
  "AppendStoreInfoWithHost store payload =
     AppendStringField (sa_host (si_address store)) (AppendStoreInfo store payload)"

definition AppendTaskRecord :: "TaskRecord \<Rightarrow> bytes \<Rightarrow> Status + bytes" where
  "AppendTaskRecord task payload =
     (let payload1 = AppendU8 (EncodeTaskType (tr_type task)) payload;
          payload2 = AppendU8 (EncodeTaskState (tr_state task)) payload1;
          payload3 = AppendU64 (tr_assigned_store task) payload2;
          payload4 = AppendU64 (tr_generation task) payload3;
          payload5 = AppendU64 (tr_sequence task) payload4
      in and_then (AppendStringField (tr_task_id task) payload5) (\<lambda>payload6.
         and_then (AppendPayloadField (tr_target_payload task) payload6) (\<lambda>payload7.
         AppendPayloadField (tr_result_payload task) payload7)))"

section \<open>Readers\<close>

definition Cmd_ReadU8 :: "u8 parse" where
  "Cmd_ReadU8 d = (if length d < 1 then Inl Corruption else Inr (d ! 0, drop 1 d))"

definition Cmd_ReadU16 :: "u16 parse" where
  "Cmd_ReadU16 d =
     (if length d < 2 then Inl Corruption
      else Inr (push_bit 8 (ucast (d ! 0)) OR ucast (d ! 1), drop 2 d))"

definition Cmd_ReadU32 :: "u32 parse" where
  "Cmd_ReadU32 d =
     (if length d < 4 then Inl Corruption
      else Inr (push_bit 24 (ucast (d ! 0)) OR push_bit 16 (ucast (d ! 1)) OR
                push_bit 8 (ucast (d ! 2)) OR ucast (d ! 3), drop 4 d))"

definition Cmd_ReadU64 :: "u64 parse" where
  "Cmd_ReadU64 d =
     (if length d < 8 then Inl Corruption
      else Inr (fold (\<lambda>i result. push_bit 8 result OR ucast (d ! i)) [0 ..< 8] 0, drop 8 d))"

definition Cmd_ReadString :: "nat \<Rightarrow> nat \<Rightarrow> string parse" where
  "Cmd_ReadString len max_length d =
     (if max_length < len then Inl Corruption
      else if length d < len then Inl Corruption
      else Inr (map char_of_byte (take len d), drop len d))"

definition Cmd_ReadPayload :: "nat \<Rightarrow> nat \<Rightarrow> OpaquePayload parse" where
  "Cmd_ReadPayload len max_length d =
     (if max_length < len then Inl Corruption
      else if length d < len then Inl Corruption
      else Inr (take len d, drop len d))"

definition ReadStringField :: "nat \<Rightarrow> string parse" where
  "ReadStringField max_length d =
     and_then (Cmd_ReadU32 d) (\<lambda>(len, d1). Cmd_ReadString (unat len) max_length d1)"

definition ReadPayloadField :: "OpaquePayload parse" where
  "ReadPayloadField d =
     and_then (Cmd_ReadU32 d) (\<lambda>(len, d1). Cmd_ReadPayload (unat len) kMaxMetadataCommandPayloadBytes d1)"

definition ReadStoreInfo :: "StoreInfo parse" where
  "ReadStoreInfo d =
     and_then (Cmd_ReadU64 d) (\<lambda>(id, d1).
     and_then (Cmd_ReadU64 d1) (\<lambda>(capacity_bytes, d2).
     and_then (Cmd_ReadU64 d2) (\<lambda>(used_bytes, d3).
     and_then (Cmd_ReadU8 d3) (\<lambda>(state, d4).
     and_then (Cmd_ReadU64 d4) (\<lambda>(generation, d5).
     and_then (Cmd_ReadU16 d5) (\<lambda>(port, d6).
     and_then (ReadStringField kMaxMetadataCommandTargetBytes d6) (\<lambda>(host, d7).
       Inr (\<lparr>si_id = id, si_address = \<lparr>sa_host = host, sa_port = port\<rparr>,
             si_capacity_bytes = capacity_bytes, si_used_bytes = used_bytes,
             si_state = DecodeStoreState state, si_generation = generation,
             si_last_heartbeat_ms = 0\<rparr>, d7))))))))"

definition ReadTaskRecord :: "TaskRecord parse" where
  "ReadTaskRecord d =
     and_then (Cmd_ReadU8 d) (\<lambda>(type, d1).
     and_then (Cmd_ReadU8 d1) (\<lambda>(state, d2).
     and_then (Cmd_ReadU64 d2) (\<lambda>(assigned_store, d3).
     and_then (Cmd_ReadU64 d3) (\<lambda>(generation, d4).
     and_then (Cmd_ReadU64 d4) (\<lambda>(sequence, d5).
     and_then (ReadStringField kMaxMetadataCommandIdBytes d5) (\<lambda>(task_id, d6).
     and_then (ReadPayloadField d6) (\<lambda>(target_payload, d7).
     and_then (ReadPayloadField d7) (\<lambda>(result_payload, d8).
       Inr (\<lparr>tr_task_id = task_id, tr_type = DecodeTaskType type, tr_state = DecodeTaskState state,
             tr_target_payload = target_payload, tr_assigned_store = assigned_store,
             tr_result_payload = result_payload, tr_generation = generation,
             tr_sequence = sequence\<rparr>, d8)))))))))"

section \<open>Validation\<close>

definition ValidateMetadataCommand :: "MetadataCommand \<Rightarrow> Status" where
  "ValidateMetadataCommand command =
     (if \<not> IsKnownType (mc_type command) then InvalidArgument
      else if mc_command_id command = [] then InvalidArgument
      else if mc_target_id command = [] then InvalidArgument
      else if \<not> ok (ValidateLength (length (mc_command_id command)) kMaxMetadataCommandIdBytes)
        then ValidateLength (length (mc_command_id command)) kMaxMetadataCommandIdBytes
      else if \<not> ok (ValidateLength (length (mc_target_id command)) kMaxMetadataCommandTargetBytes)
        then ValidateLength (length (mc_target_id command)) kMaxMetadataCommandTargetBytes
      else if \<not> ok (ValidateLength (length (mc_payload command)) kMaxMetadataCommandPayloadBytes)
        then ValidateLength (length (mc_payload command)) kMaxMetadataCommandPayloadBytes
      else if mc_expected_generation command = Some 0 then InvalidArgument
      else OK)"

definition ValidateStoreBusinessCommand :: "StoreBusinessCommand \<Rightarrow> Status" where
  "ValidateStoreBusinessCommand command =
     (if \<not> IsKnownStoreCommandKind (sb_kind command) then InvalidArgument
      else case sb_kind command of
        REGISTER_STORE \<Rightarrow>
          let store = sb_store command
          in if si_id store = 0 \<or> sa_host (si_address store) = [] \<or> sa_port (si_address store) = 0 \<or>
                si_capacity_bytes store = 0 \<or> si_capacity_bytes store < si_used_bytes store
             then InvalidArgument
             else ValidateLength (length (sa_host (si_address store))) kMaxMetadataCommandTargetBytes
      | UPDATE_STORE_STATE \<Rightarrow>
          if su_id (sb_update command) = 0 \<or> su_expected_generation (sb_update command) = None \<or>
             su_state (sb_update command) = None
          then InvalidArgument else OK
      | REMOVE_STORE \<Rightarrow>
          if sb_store_id command = 0 \<or> su_expected_generation (sb_update command) = None
          then InvalidArgument else OK
      | CREATE_TASK \<Rightarrow>
          if tc_task_id (sb_task_create command) = [] then InvalidArgument
          else if kMaxMetadataCommandPayloadBytes < length (tc_target_payload (sb_task_create command))
            then InvalidArgument
          else ValidateLength (length (tc_task_id (sb_task_create command))) kMaxMetadataCommandIdBytes
      | POLL_TASKS \<Rightarrow>
          if sb_store_id command = 0 \<or> sb_max_tasks command = 0 then InvalidArgument else OK
      | REPORT_TASK_RESULT \<Rightarrow>
          let report = sb_task_result command
          in if rr_store_id report = 0 \<or> rr_task_id report = [] \<or>
                rr_final_state report \<noteq> Task_SUCCESS \<and> rr_final_state report \<noteq> Task_FAILED
             then InvalidArgument
             else if kMaxMetadataCommandPayloadBytes < length (rr_result_payload report) then InvalidArgument
             else ValidateLength (length (rr_task_id report)) kMaxMetadataCommandIdBytes
      | CommandKind_other _ \<Rightarrow> InvalidArgument)"

section \<open>Metadata commands\<close>

definition EncodeMetadataCommand :: "MetadataCommand \<Rightarrow> out_ptr \<Rightarrow> Status + OpaquePayload" where
  "EncodeMetadataCommand command payload =
     (if \<not> ok (require_out payload) then Inl (require_out payload)
      else if \<not> ok (ValidateMetadataCommand command) then Inl (ValidateMetadataCommand command)
      else let flags = (if mc_expected_generation command \<noteq> None then 0 OR kFlagHasExpectedGeneration else 0);
               encoded1 = AppendU8 kMetadataCommandFormatVersion [];
               encoded2 = AppendU8 (command_type_code (mc_type command)) encoded1;
               encoded3 = AppendU16 flags encoded2;
               encoded4 = AppendU32 (word_of_nat (length (mc_command_id command))) encoded3;
               encoded5 = AppendU32 (word_of_nat (length (mc_target_id command))) encoded4;
               encoded6 = AppendU32 (word_of_nat (length (mc_payload command))) encoded5;
               encoded7 = (case mc_expected_generation command of
                             Some generation \<Rightarrow> AppendU64 generation encoded6 | None \<Rightarrow> encoded6);
               encoded8 = AppendString (mc_command_id command) encoded7;
               encoded9 = AppendString (mc_target_id command) encoded8
           in Inr (AppendBytes (mc_payload command) encoded9))"

definition DecodeMetadataCommand :: "OpaquePayload \<Rightarrow> out_ptr \<Rightarrow> Status + MetadataCommand" where
  "DecodeMetadataCommand payload command =
     (if \<not> ok (require_out command) then Inl (require_out command)
      else and_then (Cmd_ReadU8 payload) (\<lambda>(version, d1).
      if version \<noteq> kMetadataCommandFormatVersion then Inl Corruption
      else and_then (Cmd_ReadU8 d1) (\<lambda>(type_value, d2).
      and_then (Cmd_ReadU16 d2) (\<lambda>(flags, d3).
      if flags AND NOT kFlagHasExpectedGeneration \<noteq> 0 then Inl Corruption
      else and_then (Cmd_ReadU32 d3) (\<lambda>(command_id_length, d4).
      and_then (Cmd_ReadU32 d4) (\<lambda>(target_id_length, d5).
      and_then (Cmd_ReadU32 d5) (\<lambda>(payload_length, d6).
      if \<not> IsKnownType (command_type_of_code type_value) then Inl Corruption
      else and_then (if flags AND kFlagHasExpectedGeneration \<noteq> 0
                     then and_then (Cmd_ReadU64 d6) (\<lambda>(generation, d7). Inr (Some generation, d7))
                     else Inr (None, d6)) (\<lambda>(expected_generation, d7).
      and_then (Cmd_ReadString (unat command_id_length) kMaxMetadataCommandIdBytes d7) (\<lambda>(command_id, d8).
      and_then (Cmd_ReadString (unat target_id_length) kMaxMetadataCommandTargetBytes d8) (\<lambda>(target_id, d9).
      and_then (Cmd_ReadPayload (unat payload_length) kMaxMetadataCommandPayloadBytes d9) (\<lambda>(body, d10).
      if d10 \<noteq> [] then Inl Corruption
      else let decoded = \<lparr>mc_type = command_type_of_code type_value, mc_command_id = command_id,
                          mc_target_id = target_id, mc_expected_generation = expected_generation,
                          mc_payload = body\<rparr>
           in if \<not> ok (ValidateMetadataCommand decoded) then Inl (ValidateMetadataCommand decoded)
              else Inr decoded)))))))))))"

section \<open>Store business commands\<close>

definition value_or :: "u64 option \<Rightarrow> u64 \<Rightarrow> u64" where
  "value_or x fallback = (case x of Some v \<Rightarrow> v | None \<Rightarrow> fallback)"

definition EncodeStoreBusinessCommand :: "StoreBusinessCommand \<Rightarrow> out_ptr \<Rightarrow> Status + OpaquePayload" where
  "EncodeStoreBusinessCommand command payload =
     (if \<not> ok (require_out payload) then Inl (require_out payload)
      else if \<not> ok (ValidateStoreBusinessCommand command) then Inl (ValidateStoreBusinessCommand command)
      else let encoded1 = AppendU8 kStoreBusinessCommandVersion [];
               encoded2 = AppendU8 (command_kind_code (sb_kind command)) encoded1;
               encoded3 = AppendU64 (sb_store_id command) encoded2;
               encoded4 = AppendU32 (sb_max_tasks command) encoded3
           in and_then (AppendStoreInfoWithHost (sb_store command) encoded4) (\<lambda>encoded5.
              let update = sb_update command;
                  encoded6 = AppendU64 (su_id update) encoded5;
                  encoded7 = AppendU64 (value_or (su_expected_generation update) 0) encoded6;
                  encoded8 = AppendU64 (value_or (su_capacity_bytes update) 0) encoded7;
                  encoded9 = AppendU64 (value_or (su_used_bytes update) 0) encoded8;
                  encoded10 = AppendU8 (case su_state update of Some s \<Rightarrow> EncodeStoreState s | None \<Rightarrow> 0xFF) encoded9;
                  encoded11 = AppendU8 (EncodeTaskType (tc_type (sb_task_create command))) encoded10
              in and_then (AppendStringField (tc_task_id (sb_task_create command)) encoded11) (\<lambda>encoded12.
                 and_then (AppendPayloadField (tc_target_payload (sb_task_create command)) encoded12) (\<lambda>encoded13.
                 let report = sb_task_result command;
                     encoded14 = AppendU64 (rr_store_id report) encoded13;
                     encoded15 = AppendU8 (EncodeTaskState (rr_final_state report)) encoded14;
                     encoded16 = AppendU64 (value_or (rr_expected_generation report) 0) encoded15
                 in and_then (AppendStringField (rr_task_id report) encoded16) (\<lambda>encoded17.
                    AppendPayloadField (rr_result_payload report) encoded17)))))"

text \<open>A zero stands for an absent generation or size, \<open>0xFF\<close> for an absent state.\<close>

definition nonzero :: "u64 \<Rightarrow> u64 option" where
  "nonzero x = (if x \<noteq> 0 then Some x else None)"

definition DecodeStoreBusinessCommand :: "OpaquePayload \<Rightarrow> out_ptr \<Rightarrow> Status + StoreBusinessCommand" where
  "DecodeStoreBusinessCommand payload command =
     (if \<not> ok (require_out command) then Inl (require_out command)
      else and_then (Cmd_ReadU8 payload) (\<lambda>(version, d1).
      if version \<noteq> kStoreBusinessCommandVersion then Inl Corruption
      else and_then (Cmd_ReadU8 d1) (\<lambda>(kind, d2).
      and_then (Cmd_ReadU64 d2) (\<lambda>(store_id, d3).
      and_then (Cmd_ReadU32 d3) (\<lambda>(max_tasks, d4).
      and_then (ReadStoreInfo d4) (\<lambda>(store, d5).
      and_then (Cmd_ReadU64 d5) (\<lambda>(update_id, d6).
      and_then (Cmd_ReadU64 d6) (\<lambda>(expected_generation, d7).
      and_then (Cmd_ReadU64 d7) (\<lambda>(capacity, d8).
      and_then (Cmd_ReadU64 d8) (\<lambda>(used, d9).
      and_then (Cmd_ReadU8 d9) (\<lambda>(state, d10).
      and_then (Cmd_ReadU8 d10) (\<lambda>(task_type, d11).
      and_then (ReadStringField kMaxMetadataCommandIdBytes d11) (\<lambda>(create_task_id, d12).
      and_then (ReadPayloadField d12) (\<lambda>(target_payload, d13).
      and_then (Cmd_ReadU64 d13) (\<lambda>(result_store_id, d14).
      and_then (Cmd_ReadU8 d14) (\<lambda>(final_state, d15).
      and_then (Cmd_ReadU64 d15) (\<lambda>(task_generation, d16).
      and_then (ReadStringField kMaxMetadataCommandIdBytes d16) (\<lambda>(result_task_id, d17).
      and_then (ReadPayloadField d17) (\<lambda>(result_payload, d18).
      if d18 \<noteq> [] then Inl Corruption
      else let decoded =
             \<lparr>sb_kind = command_kind_of_code kind, sb_store = store,
              sb_update = \<lparr>su_id = update_id, su_expected_generation = nonzero expected_generation,
                su_capacity_bytes = nonzero capacity, su_used_bytes = nonzero used,
                su_state = (if state \<noteq> 0xFF then Some (DecodeStoreState state) else None)\<rparr>,
              sb_task_create = \<lparr>tc_task_id = create_task_id, tc_type = DecodeTaskType task_type,
                tc_target_payload = target_payload\<rparr>,
              sb_task_result = \<lparr>rr_store_id = result_store_id, rr_task_id = result_task_id,
                rr_final_state = DecodeTaskState final_state, rr_result_payload = result_payload,
                rr_expected_generation = nonzero task_generation\<rparr>,
              sb_store_id = store_id, sb_max_tasks = max_tasks\<rparr>;
             status = ValidateStoreBusinessCommand decoded
           in if \<not> ok status then Inl (if status = InvalidArgument then Corruption else status)
              else Inr decoded)))))))))))))))))))"

section \<open>Store business results\<close>

fun AppendTaskRecords :: "TaskRecord list \<Rightarrow> bytes \<Rightarrow> Status + bytes" where
  "AppendTaskRecords [] payload = Inr payload"
| "AppendTaskRecords (task # tasks) payload = and_then (AppendTaskRecord task payload) (AppendTaskRecords tasks)"

definition EncodeStoreBusinessResult :: "StoreBusinessResult \<Rightarrow> out_ptr \<Rightarrow> Status + OpaquePayload" where
  "EncodeStoreBusinessResult result payload =
     (if \<not> ok (require_out payload) then Inl (require_out payload)
      else if kMaxStoreBusinessItems < length (br_tasks result) then Inl InvalidArgument
      else let encoded1 = AppendU8 kStoreBusinessResultVersion [];
               encoded2 = AppendU8 (if br_duplicate_result result then 1 else 0) encoded1
           in and_then (AppendStoreInfoWithHost (br_store result) encoded2) (\<lambda>encoded3.
              AppendTaskRecords (br_tasks result) (AppendU32 (word_of_nat (length (br_tasks result))) encoded3)))"

definition DecodeStoreBusinessResult :: "OpaquePayload \<Rightarrow> out_ptr \<Rightarrow> Status + StoreBusinessResult" where
  "DecodeStoreBusinessResult payload result =
     (if \<not> ok (require_out result) then Inl (require_out result)
      else and_then (Cmd_ReadU8 payload) (\<lambda>(version, d1).
      if version \<noteq> kStoreBusinessResultVersion then Inl Corruption
      else and_then (Cmd_ReadU8 d1) (\<lambda>(duplicate, d2).
      if 1 < duplicate then Inl Corruption
      else and_then (ReadStoreInfo d2) (\<lambda>(store, d3).
      and_then (Cmd_ReadU32 d3) (\<lambda>(task_count, d4).
      if kMaxStoreBusinessItems < unat task_count then Inl Corruption
      else and_then (parse_many ReadTaskRecord (unat task_count) d4) (\<lambda>(tasks, d5).
      if d5 \<noteq> [] then Inl Corruption
      else Inr \<lparr>br_store = store, br_tasks = tasks, br_duplicate_result = (duplicate = 1)\<rparr>))))))"

end
