(* ===== verification/Metadata_Codec.thy ===== *)
theory Metadata_Codec
  imports Metadata_Command
begin

text \<open>
  The formats of \<open>metadata_command.cpp\<close> are canonical: decoding and encoding are inverse to
  each other, so a log entry and the command in it determine each other. Each reader is an
  interpretation of the locale \<open>parser\<close>; a decoder is then the equivalence of its success with
  the shape of the bytes.
\<close>

section \<open>Enumerations\<close>

lemma code_of_code [simp]:
  "command_type_code (command_type_of_code c) = c"
  "command_kind_code (command_kind_of_code c) = c"
  "EncodeStoreState (DecodeStoreState c) = c"
  "EncodeTaskType (DecodeTaskType c) = c"
  "EncodeTaskState (DecodeTaskState c) = c"
  by (simp_all add: command_type_of_code_def command_kind_of_code_def DecodeStoreState_def
      DecodeTaskType_def DecodeTaskState_def)

lemma known_code [simp]:
  "IsKnownType t \<Longrightarrow> command_type_of_code (command_type_code t) = t"
  "IsKnownStoreCommandKind k \<Longrightarrow> command_kind_of_code (command_kind_code k) = k"
  by (auto simp: IsKnownType_def IsKnownStoreCommandKind_def command_type_of_code_def command_kind_of_code_def)

section \<open>Writers\<close>

lemma append_be [simp]:
  "AppendU8 v p = p @ [v]" "AppendU16 w p = p @ be 2 w" "AppendU32 x p = p @ be 4 x" "AppendU64 y p = p @ be 8 y"
  by (simp_all only: AppendU8_def AppendU16_def AppendU32_def AppendU64_def be_2 be_4 be_8)

lemma append_bytes [simp]: "AppendString s p = p @ map byte_of_char s" "AppendBytes b p = p @ b"
  by (simp_all add: AppendString_def AppendBytes_def)

lemma ValidateLength_OK: "m \<le> 2 ^ 32 - 1 \<Longrightarrow> ValidateLength n m = (if n \<le> m then OK else InvalidArgument)"
  by (simp add: ValidateLength_def)

lemma ValidateLength_eq [simp]:
  "ValidateLength n kMaxMetadataCommandIdBytes = (if n \<le> kMaxMetadataCommandIdBytes then OK else InvalidArgument)"
  "ValidateLength n kMaxMetadataCommandTargetBytes = (if n \<le> kMaxMetadataCommandTargetBytes then OK else InvalidArgument)"
  "ValidateLength n kMaxMetadataCommandPayloadBytes = (if n \<le> kMaxMetadataCommandPayloadBytes then OK else InvalidArgument)"
  by (rule ValidateLength_OK, simp add: command_limits)+

definition length_bytes :: "nat \<Rightarrow> bytes" where
  "length_bytes n = be 4 (word_of_nat n :: u32)"

definition string_bytes :: "string \<Rightarrow> bytes" where
  "string_bytes s = length_bytes (length s) @ map byte_of_char s"

definition payload_bytes :: "OpaquePayload \<Rightarrow> bytes" where
  "payload_bytes b = length_bytes (length b) @ b"

lemma AppendStringField_eq:
  "AppendStringField s p =
     (if length s \<le> kMaxMetadataCommandTargetBytes then Inr (p @ string_bytes s) else Inl InvalidArgument)"
  by (simp add: AppendStringField_def string_bytes_def length_bytes_def)

lemma AppendPayloadField_eq:
  "AppendPayloadField b p =
     (if length b \<le> kMaxMetadataCommandPayloadBytes then Inr (p @ payload_bytes b) else Inl InvalidArgument)"
  by (simp add: AppendPayloadField_def payload_bytes_def length_bytes_def)

section \<open>Readers\<close>

lemma if_Inr [simp]:
  "(if b then Inl e else m) = Inr y \<longleftrightarrow> \<not> b \<and> m = Inr y"
  "(if b then m else Inl e) = Inr y \<longleftrightarrow> b \<and> m = Inr y"
  by auto

lemma from_be_Inr:
  assumes "LENGTH('a) = 8 * n"
  shows "(if length bs < n then Inl Corruption else Inr (from_be n bs, drop n bs)) = Inr (x :: 'a::len word, rest) \<longleftrightarrow>
    True \<and> bs = be n x @ rest"
  using from_be_iff [OF assms, of bs x rest] by (auto simp: not_less)

interpretation cu8: parser "\<lambda>x. [x]" Cmd_ReadU8 "\<lambda>_. True"
proof
  show "Cmd_ReadU8 bs = Inr (x, rest) \<longleftrightarrow> True \<and> bs = [x] @ rest" for bs x rest
    by (cases bs) (auto simp: Cmd_ReadU8_def)
qed

lemma Cmd_ReadU8_Cons [simp]: "Cmd_ReadU8 (x # rest) = Inr (x, rest)"
  using cu8.parse_put [of x rest] by simp

interpretation cu16: parser "be 2" Cmd_ReadU16 "\<lambda>_. True"
proof
  have "Cmd_ReadU16 bs = (if length bs < 2 then Inl Corruption else Inr (from_be 2 bs, drop 2 bs))" for bs
    by (simp add: Cmd_ReadU16_def from_be_2)
  then show "Cmd_ReadU16 bs = Inr (x, rest) \<longleftrightarrow> True \<and> bs = be 2 x @ rest" for bs x rest
    by (simp only: from_be_Inr) (subst from_be_Inr, simp_all)
qed

interpretation cu32: parser "be 4" Cmd_ReadU32 "\<lambda>_. True"
proof
  have "Cmd_ReadU32 bs = (if length bs < 4 then Inl Corruption else Inr (from_be 4 bs, drop 4 bs))" for bs
    by (simp add: Cmd_ReadU32_def from_be_4)
  then show "Cmd_ReadU32 bs = Inr (x, rest) \<longleftrightarrow> True \<and> bs = be 4 x @ rest" for bs x rest
    by (simp only:) (subst from_be_Inr, simp_all)
qed

interpretation cu64: parser "be 8" Cmd_ReadU64 "\<lambda>_. True"
proof
  have "Cmd_ReadU64 bs = (if length bs < 8 then Inl Corruption else Inr (from_be 8 bs, drop 8 bs))" for bs
    unfolding Cmd_ReadU64_def using from_be_8 [of bs, where ?'a = 64] by (simp add: not_less)
  then show "Cmd_ReadU64 bs = Inr (x, rest) \<longleftrightarrow> True \<and> bs = be 8 x @ rest" for bs x rest
    by (simp only:) (subst from_be_Inr, simp_all)
qed

lemmas read_iff = cu8.parse_iff cu16.parse_iff cu32.parse_iff cu64.parse_iff

lemma byte_of_char_of_byte [simp]: "byte_of_char (char_of_byte b) = b"
proof -
  have "unat b < 256" using unsigned_less [of b, where ?'a = nat] by simp
  then show ?thesis by (simp add: byte_of_char_def char_of_byte_def take_bit_eq_mod)
qed

lemma char_bytes_inverse: "map char_of_byte bs = s \<longleftrightarrow> bs = map byte_of_char s"
proof
  assume "map char_of_byte bs = s"
  then have "map byte_of_char s = map (\<lambda>b. byte_of_char (char_of_byte b)) bs" by (auto simp: o_def)
  then show "bs = map byte_of_char s" by simp
qed (simp add: o_def)

lemma Cmd_ReadString_iff:
  "Cmd_ReadString n m d = Inr (s, rest) \<longleftrightarrow> n \<le> m \<and> length s = n \<and> d = map byte_of_char s @ rest"
proof -
  have "Cmd_ReadString n m d = Inr (s, rest) \<longleftrightarrow>
      n \<le> m \<and> n \<le> length d \<and> take n d = map byte_of_char s \<and> rest = drop n d"
    by (auto simp: Cmd_ReadString_def char_bytes_inverse not_less)
  also have "\<dots> \<longleftrightarrow> n \<le> m \<and> length s = n \<and> d = map byte_of_char s @ rest"
    by (metis append_eq_conv_conj append_take_drop_id length_map length_take min.absorb2 le_add1 length_append)
  finally show ?thesis .
qed

lemma Cmd_ReadPayload_iff:
  "Cmd_ReadPayload n m d = Inr (b, rest) \<longleftrightarrow> n \<le> m \<and> length b = n \<and> d = b @ rest"
  by (auto simp: Cmd_ReadPayload_def append_eq_conv_conj not_less)

lemma unat_length: "n \<le> 2 ^ 32 - 1 \<Longrightarrow> unat (word_of_nat n :: u32) = n"
  by (simp add: unat_of_nat)

lemma length_field:
  assumes "m \<le> 2 ^ 32 - 1"
  shows "(\<exists>len :: u32. d = be 4 len @ r \<and> unat len \<le> m \<and> n = unat len) \<longleftrightarrow> n \<le> m \<and> d = length_bytes n @ r"
proof
  assume "\<exists>len :: u32. d = be 4 len @ r \<and> unat len \<le> m \<and> n = unat len"
  then show "n \<le> m \<and> d = length_bytes n @ r" by (auto simp: length_bytes_def)
next
  assume "n \<le> m \<and> d = length_bytes n @ r"
  then show "\<exists>len :: u32. d = be 4 len @ r \<and> unat len \<le> m \<and> n = unat len"
    using assms unat_length [of n] by (intro exI [of _ "word_of_nat n"]) (simp add: length_bytes_def)
qed

lemma ReadStringField_iff:
  assumes "m \<le> 2 ^ 32 - 1"
  shows "ReadStringField m d = Inr (s, rest) \<longleftrightarrow> length s \<le> m \<and> d = string_bytes s @ rest"
proof -
  have "ReadStringField m d = Inr (s, rest) \<longleftrightarrow>
      (\<exists>len :: u32. d = be 4 len @ map byte_of_char s @ rest \<and> unat len \<le> m \<and> length s = unat len)"
    by (auto simp: ReadStringField_def cu32.and_then_iff Cmd_ReadString_iff)
  then show ?thesis using length_field [OF assms] by (simp add: string_bytes_def)
qed

lemma ReadPayloadField_iff:
  "ReadPayloadField d = Inr (b, rest) \<longleftrightarrow> length b \<le> kMaxMetadataCommandPayloadBytes \<and> d = payload_bytes b @ rest"
proof -
  have m: "kMaxMetadataCommandPayloadBytes \<le> 2 ^ 32 - 1" by (simp add: command_limits)
  have "ReadPayloadField d = Inr (b, rest) \<longleftrightarrow>
      (\<exists>len :: u32. d = be 4 len @ b @ rest \<and> unat len \<le> kMaxMetadataCommandPayloadBytes \<and> length b = unat len)"
    by (auto simp: ReadPayloadField_def cu32.and_then_iff Cmd_ReadPayload_iff)
  then show ?thesis using length_field [OF m] by (simp add: payload_bytes_def)
qed

interpretation cid: parser string_bytes "ReadStringField kMaxMetadataCommandIdBytes"
  "\<lambda>s. length s \<le> kMaxMetadataCommandIdBytes"
  by unfold_locales (rule ReadStringField_iff, simp add: command_limits)

interpretation ctarget: parser string_bytes "ReadStringField kMaxMetadataCommandTargetBytes"
  "\<lambda>s. length s \<le> kMaxMetadataCommandTargetBytes"
  by unfold_locales (rule ReadStringField_iff, simp add: command_limits)

interpretation cpayload: parser payload_bytes ReadPayloadField "\<lambda>b. length b \<le> kMaxMetadataCommandPayloadBytes"
  by unfold_locales (rule ReadPayloadField_iff)

lemmas then_iff = cu8.and_then_iff cu16.and_then_iff cu32.and_then_iff cu64.and_then_iff
  cid.and_then_iff ctarget.and_then_iff cpayload.and_then_iff

section \<open>Stores and tasks\<close>

definition store_info_bytes :: "StoreInfo \<Rightarrow> bytes" where
  "store_info_bytes s =
     be 8 (si_id s) @ be 8 (si_capacity_bytes s) @ be 8 (si_used_bytes s) @ [EncodeStoreState (si_state s)] @
     be 8 (si_generation s) @ be 2 (sa_port (si_address s)) @ string_bytes (sa_host (si_address s))"

text \<open>What reading gives back: a heartbeat is not written, and a state is one a byte can have.\<close>

definition store_info_normal :: "StoreInfo \<Rightarrow> bool" where
  "store_info_normal s \<longleftrightarrow>
     length (sa_host (si_address s)) \<le> kMaxMetadataCommandTargetBytes \<and>
     DecodeStoreState (EncodeStoreState (si_state s)) = si_state s \<and> si_last_heartbeat_ms s = 0"

definition task_bytes :: "TaskRecord \<Rightarrow> bytes" where
  "task_bytes t =
     [EncodeTaskType (tr_type t)] @ [EncodeTaskState (tr_state t)] @ be 8 (tr_assigned_store t) @
     be 8 (tr_generation t) @ be 8 (tr_sequence t) @ string_bytes (tr_task_id t) @
     payload_bytes (tr_target_payload t) @ payload_bytes (tr_result_payload t)"

definition task_writable :: "TaskRecord \<Rightarrow> bool" where
  "task_writable t \<longleftrightarrow>
     length (tr_task_id t) \<le> kMaxMetadataCommandIdBytes \<and>
     length (tr_target_payload t) \<le> kMaxMetadataCommandPayloadBytes \<and>
     length (tr_result_payload t) \<le> kMaxMetadataCommandPayloadBytes"

definition task_normal :: "TaskRecord \<Rightarrow> bool" where
  "task_normal t \<longleftrightarrow>
     task_writable t \<and> DecodeTaskType (EncodeTaskType (tr_type t)) = tr_type t \<and>
     DecodeTaskState (EncodeTaskState (tr_state t)) = tr_state t"

lemma AppendStoreInfoWithHost_eq:
  "AppendStoreInfoWithHost s p =
     (if length (sa_host (si_address s)) \<le> kMaxMetadataCommandTargetBytes then Inr (p @ store_info_bytes s)
      else Inl InvalidArgument)"
  by (simp add: AppendStoreInfoWithHost_def AppendStoreInfo_def AppendStringField_eq store_info_bytes_def)

lemma id_limit: "kMaxMetadataCommandIdBytes = kMaxMetadataCommandTargetBytes"
  by (simp add: command_limits)

lemma AppendTaskRecord_eq:
  "AppendTaskRecord t p = (if task_writable t then Inr (p @ task_bytes t) else Inl InvalidArgument)"
  by (simp add: AppendTaskRecord_def Let_def AppendStringField_eq AppendPayloadField_eq task_writable_def
      task_bytes_def id_limit)

lemma AppendTaskRecords_eq:
  "AppendTaskRecords ts p =
     (if \<forall>t \<in> set ts. task_writable t then Inr (p @ concat (map task_bytes ts)) else Inl InvalidArgument)"
  by (induction ts arbitrary: p) (auto simp: AppendTaskRecord_eq)

interpretation cstore: parser store_info_bytes ReadStoreInfo store_info_normal
proof
  show "ReadStoreInfo d = Inr (s, rest) \<longleftrightarrow> store_info_normal s \<and> d = store_info_bytes s @ rest" for d s rest
  proof
    assume "ReadStoreInfo d = Inr (s, rest)"
    then show "store_info_normal s \<and> d = store_info_bytes s @ rest"
      by (auto simp: ReadStoreInfo_def then_iff store_info_normal_def store_info_bytes_def)
  next
    assume "store_info_normal s \<and> d = store_info_bytes s @ rest"
    then show "ReadStoreInfo d = Inr (s, rest)"
      by (simp add: ReadStoreInfo_def store_info_normal_def store_info_bytes_def cu16.parse_put
          cu32.parse_put cu64.parse_put ctarget.parse_put)
  qed
qed

interpretation ctask: parser task_bytes ReadTaskRecord task_normal
proof
  show "ReadTaskRecord d = Inr (t, rest) \<longleftrightarrow> task_normal t \<and> d = task_bytes t @ rest" for d t rest
  proof
    assume "ReadTaskRecord d = Inr (t, rest)"
    then show "task_normal t \<and> d = task_bytes t @ rest"
      by (auto simp: ReadTaskRecord_def then_iff task_normal_def task_writable_def task_bytes_def)
  next
    assume "task_normal t \<and> d = task_bytes t @ rest"
    then show "ReadTaskRecord d = Inr (t, rest)"
      by (simp add: ReadTaskRecord_def task_normal_def task_writable_def task_bytes_def cu64.parse_put cid.parse_put cpayload.parse_put)
  qed
qed

lemmas put_simps = cu16.parse_put [OF TrueI] cu32.parse_put [OF TrueI] cu64.parse_put [OF TrueI]
  cid.parse_put ctarget.parse_put cpayload.parse_put cstore.parse_put

section \<open>Metadata commands\<close>

definition metadata_command_bytes :: "MetadataCommand \<Rightarrow> bytes" where
  "metadata_command_bytes c =
     [kMetadataCommandFormatVersion, command_type_code (mc_type c)] @
     be 2 (if mc_expected_generation c = None then 0 else kFlagHasExpectedGeneration) @
     length_bytes (length (mc_command_id c)) @ length_bytes (length (mc_target_id c)) @
     length_bytes (length (mc_payload c)) @
     (case mc_expected_generation c of Some g \<Rightarrow> be 8 g | None \<Rightarrow> []) @
     map byte_of_char (mc_command_id c) @ map byte_of_char (mc_target_id c) @ mc_payload c"

lemma EncodeMetadataCommand_eq:
  "EncodeMetadataCommand c out =
     (if ok (ValidateMetadataCommand c) then Inr (metadata_command_bytes c) else Inl (ValidateMetadataCommand c))"
  by (cases "mc_expected_generation c")
    (simp_all add: EncodeMetadataCommand_def Let_def metadata_command_bytes_def length_bytes_def)

lemma flags_known: "flags AND NOT kFlagHasExpectedGeneration = 0 \<longleftrightarrow> flags = 0 \<or> flags = (1 :: u16)"
proof
  assume a: "flags AND NOT kFlagHasExpectedGeneration = 0"
  have "bit flags n \<longrightarrow> n = 0" for n
    using arg_cong [OF a, of "\<lambda>w. bit w n"] bit_imp_le_length [of flags n]
    by (auto simp: kFlagHasExpectedGeneration_def bit_and_iff bit_not_iff bit_1_iff)
  then have "flags = (if bit flags 0 then 1 else 0)"
    by (intro bit_word_eqI) (auto simp: bit_1_iff)
  then show "flags = 0 \<or> flags = 1" by presburger
qed (auto simp: kFlagHasExpectedGeneration_def)

lemma ValidateMetadataCommand_OK:
  "ValidateMetadataCommand c = OK \<longleftrightarrow>
     IsKnownType (mc_type c) \<and> mc_command_id c \<noteq> [] \<and> mc_target_id c \<noteq> [] \<and>
     length (mc_command_id c) \<le> kMaxMetadataCommandIdBytes \<and>
     length (mc_target_id c) \<le> kMaxMetadataCommandTargetBytes \<and>
     length (mc_payload c) \<le> kMaxMetadataCommandPayloadBytes \<and> mc_expected_generation c \<noteq> Some 0"
  by (simp add: ValidateMetadataCommand_def)

lemma limits_u32:
  "n \<le> kMaxMetadataCommandIdBytes \<Longrightarrow> unat (word_of_nat n :: u32) = n"
  "n \<le> kMaxMetadataCommandTargetBytes \<Longrightarrow> unat (word_of_nat n :: u32) = n"
  "n \<le> kMaxMetadataCommandPayloadBytes \<Longrightarrow> unat (word_of_nat n :: u32) = n"
  by (rule unat_length, simp add: command_limits)+

lemma string_put: "length s \<le> m \<Longrightarrow> Cmd_ReadString (length s) m (map byte_of_char s @ rest) = Inr (s, rest)"
  by (simp add: Cmd_ReadString_iff)

lemma payload_put: "length b \<le> m \<Longrightarrow> Cmd_ReadPayload (length b) m (b @ rest) = Inr (b, rest)"
  by (simp add: Cmd_ReadPayload_iff)

lemma DecodeMetadataCommand_bytes:
  assumes "ValidateMetadataCommand c = OK"
  shows "DecodeMetadataCommand (metadata_command_bytes c) out = Inr c"
proof (cases "mc_expected_generation c")
  case None
  then show ?thesis
    using assms payload_put [of "mc_payload c" kMaxMetadataCommandPayloadBytes "[]"]
    by (simp add: DecodeMetadataCommand_def metadata_command_bytes_def length_bytes_def put_simps limits_u32
        string_put ValidateMetadataCommand_OK)
next
  case (Some g)
  then show ?thesis
    using assms payload_put [of "mc_payload c" kMaxMetadataCommandPayloadBytes "[]"]
    by (simp add: DecodeMetadataCommand_def metadata_command_bytes_def length_bytes_def put_simps limits_u32
        string_put ValidateMetadataCommand_OK kFlagHasExpectedGeneration_def)
qed

lemma DecodeMetadataCommand_sound:
  assumes "DecodeMetadataCommand b out = Inr c"
  shows "ValidateMetadataCommand c = OK \<and> b = metadata_command_bytes c"
proof -
  have len: "length xs = unat n \<Longrightarrow> word_of_nat (length xs) = n" for xs :: "'z list" and n :: u32 by simp
  have flag: "flags = kFlagHasExpectedGeneration"
    if "flags AND NOT kFlagHasExpectedGeneration = 0" "flags AND kFlagHasExpectedGeneration \<noteq> 0" for flags
    using that unfolding flags_known by (auto simp: kFlagHasExpectedGeneration_def)
  have no_flag: "flags = 0"
    if "flags AND NOT kFlagHasExpectedGeneration = 0" "flags AND kFlagHasExpectedGeneration = 0" for flags
    using that unfolding flags_known by (auto simp: kFlagHasExpectedGeneration_def)
  show ?thesis
    using assms
    by (auto simp: DecodeMetadataCommand_def then_iff and_then_Inr_iff [of "Cmd_ReadString _ _ _"]
        and_then_Inr_iff [of "Cmd_ReadPayload _ _ _"] and_then_Inr_iff [of "if _ then _ else _"]
        Cmd_ReadString_iff Cmd_ReadPayload_iff Let_def metadata_command_bytes_def length_bytes_def
        dest: flag no_flag split: if_splits)
qed

text \<open>
  The format of metadata commands is canonical. A payload decodes to a command exactly when it is
  the encoding of that command: what is encoded is decoded again, and there is no second payload for
  the same command.
\<close>

theorem metadata_command_canonical:
  "DecodeMetadataCommand b out = Inr c \<longleftrightarrow> EncodeMetadataCommand c out = Inr b"
  using DecodeMetadataCommand_sound [of b c] DecodeMetadataCommand_bytes [of c]
  by (auto simp: EncodeMetadataCommand_eq)

section \<open>Store business commands\<close>

definition store_command_bytes :: "StoreBusinessCommand \<Rightarrow> bytes" where
  "store_command_bytes c =
     [kStoreBusinessCommandVersion, command_kind_code (sb_kind c)] @ be 8 (sb_store_id c) @ be 4 (sb_max_tasks c) @
     store_info_bytes (sb_store c) @ be 8 (su_id (sb_update c)) @
     be 8 (value_or (su_expected_generation (sb_update c)) 0) @ be 8 (value_or (su_capacity_bytes (sb_update c)) 0) @
     be 8 (value_or (su_used_bytes (sb_update c)) 0) @
     [case su_state (sb_update c) of Some s \<Rightarrow> EncodeStoreState s | None \<Rightarrow> 0xFF,
      EncodeTaskType (tc_type (sb_task_create c))] @
     string_bytes (tc_task_id (sb_task_create c)) @ payload_bytes (tc_target_payload (sb_task_create c)) @
     be 8 (rr_store_id (sb_task_result c)) @ [EncodeTaskState (rr_final_state (sb_task_result c))] @
     be 8 (value_or (rr_expected_generation (sb_task_result c)) 0) @
     string_bytes (rr_task_id (sb_task_result c)) @ payload_bytes (rr_result_payload (sb_task_result c))"

definition store_command_writable :: "StoreBusinessCommand \<Rightarrow> bool" where
  "store_command_writable c \<longleftrightarrow>
     length (sa_host (si_address (sb_store c))) \<le> kMaxMetadataCommandTargetBytes \<and>
     length (tc_task_id (sb_task_create c)) \<le> kMaxMetadataCommandIdBytes \<and>
     length (tc_target_payload (sb_task_create c)) \<le> kMaxMetadataCommandPayloadBytes \<and>
     length (rr_task_id (sb_task_result c)) \<le> kMaxMetadataCommandIdBytes \<and>
     length (rr_result_payload (sb_task_result c)) \<le> kMaxMetadataCommandPayloadBytes"

text \<open>
  The commands that survive the format: a zero generation or size and a state with the code
  \<open>0xFF\<close> read as absent, and the heartbeat is not written.
\<close>

definition store_command_normal :: "StoreBusinessCommand \<Rightarrow> bool" where
  "store_command_normal c \<longleftrightarrow>
     store_info_normal (sb_store c) \<and>
     su_expected_generation (sb_update c) \<noteq> Some 0 \<and> su_capacity_bytes (sb_update c) \<noteq> Some 0 \<and>
     su_used_bytes (sb_update c) \<noteq> Some 0 \<and> rr_expected_generation (sb_task_result c) \<noteq> Some 0 \<and>
     (\<forall>s. su_state (sb_update c) = Some s \<longrightarrow> EncodeStoreState s \<noteq> 0xFF \<and> DecodeStoreState (EncodeStoreState s) = s) \<and>
     DecodeTaskType (EncodeTaskType (tc_type (sb_task_create c))) = tc_type (sb_task_create c) \<and>
     DecodeTaskState (EncodeTaskState (rr_final_state (sb_task_result c))) = rr_final_state (sb_task_result c)"

lemma EncodeStoreBusinessCommand_eq:
  "EncodeStoreBusinessCommand c out =
     (if ValidateStoreBusinessCommand c \<noteq> OK then Inl (ValidateStoreBusinessCommand c)
      else if store_command_writable c then Inr (store_command_bytes c) else Inl InvalidArgument)"
  by (simp add: EncodeStoreBusinessCommand_def Let_def AppendStoreInfoWithHost_eq AppendStringField_eq
      AppendPayloadField_eq store_command_writable_def store_command_bytes_def id_limit)

lemma nonzero_value [simp]: "x \<noteq> Some 0 \<Longrightarrow> nonzero (value_or x 0) = x" "value_or (nonzero y) 0 = y"
  "nonzero y \<noteq> Some 0"
  by (auto simp: nonzero_def value_or_def split: option.splits)

lemma ValidateStoreBusinessCommand_known:
  "ValidateStoreBusinessCommand c = OK \<Longrightarrow> IsKnownStoreCommandKind (sb_kind c)"
  by (simp add: ValidateStoreBusinessCommand_def split: if_splits)

lemma record_eta [simp]:
  "\<lparr>su_id = su_id u, su_expected_generation = su_expected_generation u, su_capacity_bytes = su_capacity_bytes u,
    su_used_bytes = su_used_bytes u, su_state = su_state u\<rparr> = u"
  "\<lparr>tc_task_id = tc_task_id t, tc_type = tc_type t, tc_target_payload = tc_target_payload t\<rparr> = t"
  "\<lparr>rr_store_id = rr_store_id r, rr_task_id = rr_task_id r, rr_final_state = rr_final_state r,
    rr_result_payload = rr_result_payload r, rr_expected_generation = rr_expected_generation r\<rparr> = r"
  "\<lparr>sb_kind = sb_kind c, sb_store = sb_store c, sb_update = sb_update c, sb_task_create = sb_task_create c,
    sb_task_result = sb_task_result c, sb_store_id = sb_store_id c, sb_max_tasks = sb_max_tasks c\<rparr> = c"
  by (cases u, simp) (cases t, simp, cases r, simp, cases c, simp)

lemma DecodeStoreBusinessCommand_bytes:
  assumes "ValidateStoreBusinessCommand c = OK" "store_command_writable c" "store_command_normal c"
  shows "DecodeStoreBusinessCommand (store_command_bytes c) out = Inr c"
proof -
  have last: "ReadPayloadField (payload_bytes b) = Inr (b, [])" if "length b \<le> kMaxMetadataCommandPayloadBytes" for b
    using cpayload.parse_put [OF that, of "[]"] by simp
  have state: "(if (case x of Some s \<Rightarrow> EncodeStoreState s | None \<Rightarrow> 0xFF) \<noteq> 0xFF
      then Some (DecodeStoreState (case x of Some s \<Rightarrow> EncodeStoreState s | None \<Rightarrow> 0xFF)) else None) = x"
    if "\<forall>s. x = Some s \<longrightarrow> EncodeStoreState s \<noteq> 0xFF \<and> DecodeStoreState (EncodeStoreState s) = s" for x
    using that by (cases x) auto
  show ?thesis
    using assms ValidateStoreBusinessCommand_known [OF assms(1)]
    by (simp add: DecodeStoreBusinessCommand_def store_command_bytes_def store_command_writable_def
        store_command_normal_def put_simps last state Let_def)
qed

lemma DecodeStoreBusinessCommand_sound:
  assumes "DecodeStoreBusinessCommand b out = Inr c"
  shows "ValidateStoreBusinessCommand c = OK \<and> store_command_writable c \<and> store_command_normal c \<and>
    b = store_command_bytes c"
  using assms
  by (auto simp: DecodeStoreBusinessCommand_def then_iff cstore.and_then_iff Let_def store_command_bytes_def
      store_command_writable_def store_command_normal_def store_info_normal_def split: if_splits)

text \<open>
  C40. The format of store business commands is canonical on the commands it can express. A payload decodes
  to a command exactly when it is the encoding of that command and the command is in normal form; a
  command outside the normal form is encoded, but reads back differently or not at all.
\<close>

theorem store_command_canonical:
  "DecodeStoreBusinessCommand b out = Inr c \<longleftrightarrow>
     EncodeStoreBusinessCommand c out = Inr b \<and> store_command_normal c"
proof
  assume "DecodeStoreBusinessCommand b out = Inr c"
  from DecodeStoreBusinessCommand_sound [OF this]
  show "EncodeStoreBusinessCommand c out = Inr b \<and> store_command_normal c"
    by (simp add: EncodeStoreBusinessCommand_eq)
next
  assume "EncodeStoreBusinessCommand c out = Inr b \<and> store_command_normal c"
  then show "DecodeStoreBusinessCommand b out = Inr c"
    using DecodeStoreBusinessCommand_bytes [of c]
    by (auto simp: EncodeStoreBusinessCommand_eq split: if_splits)
qed

section \<open>Store business results\<close>

definition store_result_bytes :: "StoreBusinessResult \<Rightarrow> bytes" where
  "store_result_bytes r =
     [kStoreBusinessResultVersion, if br_duplicate_result r then 1 else 0] @ store_info_bytes (br_store r) @
     length_bytes (length (br_tasks r)) @ concat (map task_bytes (br_tasks r))"

definition store_result_writable :: "StoreBusinessResult \<Rightarrow> bool" where
  "store_result_writable r \<longleftrightarrow>
     length (br_tasks r) \<le> kMaxStoreBusinessItems \<and>
     length (sa_host (si_address (br_store r))) \<le> kMaxMetadataCommandTargetBytes \<and>
     (\<forall>t \<in> set (br_tasks r). task_writable t)"

definition store_result_normal :: "StoreBusinessResult \<Rightarrow> bool" where
  "store_result_normal r \<longleftrightarrow> store_info_normal (br_store r) \<and> (\<forall>t \<in> set (br_tasks r). task_normal t)"

lemma EncodeStoreBusinessResult_eq:
  "EncodeStoreBusinessResult r out =
     (if store_result_writable r then Inr (store_result_bytes r) else Inl InvalidArgument)"
  by (simp add: EncodeStoreBusinessResult_def Let_def AppendStoreInfoWithHost_eq AppendTaskRecords_eq
      store_result_writable_def store_result_bytes_def length_bytes_def)

lemma DecodeStoreBusinessResult_bytes:
  assumes "store_result_writable r" "store_result_normal r"
  shows "DecodeStoreBusinessResult (store_result_bytes r) out = Inr r"
proof -
  have n: "unat (word_of_nat (length (br_tasks r)) :: u32) = length (br_tasks r)"
    using assms(1) by (intro unat_length) (simp add: store_result_writable_def kMaxStoreBusinessItems_def)
  have "parse_many ReadTaskRecord (length (br_tasks r)) (concat (map task_bytes (br_tasks r))) = Inr (br_tasks r, [])"
    using assms(2) by (simp add: ctask.parse_many_iff store_result_normal_def)
  then show ?thesis
    using assms n
    by (simp add: DecodeStoreBusinessResult_def store_result_bytes_def length_bytes_def store_result_writable_def
        store_result_normal_def put_simps)
qed

lemma duplicate_flag: "\<not> 1 < d \<Longrightarrow> d = (if d = 1 then 1 else 0)" for d :: u8
  by (simp add: not_less word_le_nat_alt unat_arith_simps) 

lemma DecodeStoreBusinessResult_sound:
  assumes "DecodeStoreBusinessResult b out = Inr r"
  shows "store_result_writable r \<and> store_result_normal r \<and> b = store_result_bytes r"
  using assms
  by (auto simp: DecodeStoreBusinessResult_def then_iff cstore.and_then_iff ctask.parse_many_iff Let_def
      and_then_Inr_iff [of "parse_many _ _ _"] store_result_bytes_def length_bytes_def store_result_writable_def
      store_result_normal_def store_info_normal_def task_normal_def split: if_splits dest: duplicate_flag)

text \<open>
  The format of store business results is canonical in the same sense: a payload decodes to a result
  exactly when it is the encoding of that result and the result can be expressed.
\<close>

theorem store_result_canonical:
  "DecodeStoreBusinessResult b out = Inr r \<longleftrightarrow>
     EncodeStoreBusinessResult r out = Inr b \<and> store_result_normal r"
proof
  assume "DecodeStoreBusinessResult b out = Inr r"
  from DecodeStoreBusinessResult_sound [OF this]
  show "EncodeStoreBusinessResult r out = Inr b \<and> store_result_normal r"
    by (simp add: EncodeStoreBusinessResult_eq)
next
  assume "EncodeStoreBusinessResult r out = Inr b \<and> store_result_normal r"
  then show "DecodeStoreBusinessResult b out = Inr r"
    using DecodeStoreBusinessResult_bytes [of r]
    by (auto simp: EncodeStoreBusinessResult_eq split: if_splits)
qed

section \<open>Errors\<close>

text \<open>A decoder that fails says so: \<open>OK\<close> is never the status of a failure.\<close>

lemma read_not_OK [simp]:
  "Cmd_ReadU8 d \<noteq> Inl OK" "Cmd_ReadU16 d \<noteq> Inl OK" "Cmd_ReadU32 d \<noteq> Inl OK" "Cmd_ReadU64 d \<noteq> Inl OK"
  "Cmd_ReadString n l d \<noteq> Inl OK" "Cmd_ReadPayload n l d \<noteq> Inl OK"
  by (simp_all add: Cmd_ReadU8_def Cmd_ReadU16_def Cmd_ReadU32_def Cmd_ReadU64_def Cmd_ReadString_def Cmd_ReadPayload_def)

lemma field_not_OK [simp]: "ReadStringField l d \<noteq> Inl OK" "ReadPayloadField d \<noteq> Inl OK"
  by (simp_all add: ReadStringField_def ReadPayloadField_def and_then_Inl_iff case_prod_beta)

lemma ReadStoreInfo_not_OK [simp]: "ReadStoreInfo d \<noteq> Inl OK"
  by (simp add: ReadStoreInfo_def and_then_Inl_iff case_prod_beta)

lemma DecodeMetadataCommand_not_OK [simp]: "DecodeMetadataCommand b p \<noteq> Inl OK"
  by (simp add: DecodeMetadataCommand_def and_then_Inl_iff case_prod_beta Let_def)

lemma DecodeStoreBusinessCommand_not_OK [simp]: "DecodeStoreBusinessCommand b p \<noteq> Inl OK"
  by (simp add: DecodeStoreBusinessCommand_def and_then_Inl_iff case_prod_beta Let_def)

end
