(* ===== verification/Metadata_State.thy ===== *)
theory Metadata_State
  imports Metadata_Command
begin

text \<open>
  \<open>metadata/metadata_state_machine.{h,cpp}\<close>: the business state every replica builds from the
  committed commands, its snapshots, and the function through which \<open>server.cpp\<close> hands it the
  committed entries. Every member function runs under the mutex and is one operation here. The
  \<open>Decoder\<close> of this file is modelled as in \<open>Byte_Decoder\<close>.

  A \<open>StoreBusinessResult\<close> is default-initialised, and \<open>StoreInfo::id\<close> has no initialiser: for
  the commands on tasks the result holds whatever that memory held. This value is the argument
  \<open>uninit\<close> of the operations that build a result.
\<close>

section \<open>State\<close>

record MetadataStateRecord =
  sr_target_id :: string
  sr_payload :: OpaquePayload
  sr_generation :: u64
  sr_last_command_id :: string
  sr_last_update_index :: LogIndex
  sr_last_update_term :: Term

type_synonym RecordMap = "(string, MetadataStateRecord) std_map"

record MetadataStateMachine =
  msm_records :: RecordMap
  msm_last_applied_index :: LogIndex
  msm_last_applied_term :: Term
  msm_stores :: StoreRegistry
  msm_tasks :: TaskManager

definition MetadataStateMachine_new :: MetadataStateMachine where
  "MetadataStateMachine_new =
     \<lparr>msm_records = [], msm_last_applied_index = kInvalidLogIndex, msm_last_applied_term = kInitialTerm,
      msm_stores = StoreRegistry_new, msm_tasks = TaskManager_new\<rparr>"

definition kMetadataSnapshotFormatVersion :: u8 where "kMetadataSnapshotFormatVersion = 2"
definition kLegacyMetadataSnapshotFormatVersion :: u8 where "kLegacyMetadataSnapshotFormatVersion = 1"
definition kMaxMetadataSnapshotRecords :: nat where "kMaxMetadataSnapshotRecords = 4096"
definition kMaxMetadataSnapshotStores :: nat where "kMaxMetadataSnapshotStores = 4096"
definition kMaxMetadataSnapshotTasks :: nat where "kMaxMetadataSnapshotTasks = 4096"

lemmas snapshot_limits = kMaxMetadataSnapshotRecords_def kMaxMetadataSnapshotStores_def
  kMaxMetadataSnapshotTasks_def

section \<open>Applying commands\<close>

definition StoreInfo_default :: "StoreId \<Rightarrow> StoreInfo" where
  "StoreInfo_default uninit =
     \<lparr>si_id = uninit, si_address = \<lparr>sa_host = [], sa_port = 0\<rparr>, si_capacity_bytes = 0, si_used_bytes = 0,
      si_state = Store_RUNNING, si_generation = 0, si_last_heartbeat_ms = 0\<rparr>"

definition StoreBusinessResult_default :: "StoreId \<Rightarrow> StoreBusinessResult" where
  "StoreBusinessResult_default uninit =
     \<lparr>br_store = StoreInfo_default uninit, br_tasks = [], br_duplicate_result = False\<rparr>"

definition ApplyOpaqueCommand ::
  "MetadataStateMachine \<Rightarrow> LogIndex \<Rightarrow> Term \<Rightarrow> MetadataCommand \<Rightarrow> Status \<times> MetadataStateMachine" where
  "ApplyOpaqueCommand m index uterm command =
     (let found = map_find (msm_records m) (mc_target_id command);
          generation = (case found of Some r \<Rightarrow> sr_generation r | None \<Rightarrow> 0)
      in if mc_expected_generation command \<noteq> None \<and> found = None then (NotFound, m)
         else if mc_expected_generation command \<noteq> None \<and> mc_expected_generation command \<noteq> Some generation
           then (Busy, m)
         else let candidate = \<lparr>sr_target_id = (case found of Some r \<Rightarrow> sr_target_id r | None \<Rightarrow> mc_target_id command),
                sr_payload = mc_payload command,
                sr_generation = (if found \<noteq> None then generation + 1 else 1),
                sr_last_command_id = mc_command_id command,
                sr_last_update_index = index, sr_last_update_term = uterm\<rparr>
              in (OK, m\<lparr>msm_records := map_set (sr_target_id candidate) candidate (msm_records m)\<rparr>))"

text \<open>The \<open>switch\<close> of \<open>ApplyStoreCommand\<close>: the status, the result and the stores and tasks after it.\<close>

definition run_store_command ::
  "StoreId \<Rightarrow> MetadataStateMachine \<Rightarrow> StoreBusinessCommand \<Rightarrow> (Status + StoreBusinessResult) \<times> MetadataStateMachine" where
  "run_store_command uninit m command =
     (let result = StoreBusinessResult_default uninit
      in case sb_kind command of
        REGISTER_STORE \<Rightarrow>
          (case RegisterStore (msm_stores m) (sb_store command) of
             (outcome, stores) \<Rightarrow> (map_sum (\<lambda>s. s) (\<lambda>store. result\<lparr>br_store := store\<rparr>) outcome, m\<lparr>msm_stores := stores\<rparr>))
      | UPDATE_STORE_STATE \<Rightarrow>
          (case UpdateStore (msm_stores m) (sb_update command) of
             (outcome, stores) \<Rightarrow> (map_sum (\<lambda>s. s) (\<lambda>store. result\<lparr>br_store := store\<rparr>) outcome, m\<lparr>msm_stores := stores\<rparr>))
      | REMOVE_STORE \<Rightarrow>
          (case Registry_GetStore (msm_stores m) (sb_store_id command) out of
             Inl status \<Rightarrow> (Inl status, m)
           | Inr store \<Rightarrow>
               if su_expected_generation (sb_update command) \<noteq> None \<and>
                  su_expected_generation (sb_update command) \<noteq> Some (si_generation store) then (Inl Busy, m)
               else (case RemoveStore (msm_stores m) (sb_store_id command) of
                       (status, stores) \<Rightarrow>
                         (if \<not> ok status then Inl status else Inr (result\<lparr>br_store := store\<rparr>),
                          m\<lparr>msm_stores := stores\<rparr>)))
      | CREATE_TASK \<Rightarrow>
          (case CreateTask (msm_tasks m) (sb_task_create command) of
             (outcome, tasks) \<Rightarrow> (map_sum (\<lambda>s. s) (\<lambda>task. result\<lparr>br_tasks := [task]\<rparr>) outcome, m\<lparr>msm_tasks := tasks\<rparr>))
      | POLL_TASKS \<Rightarrow>
          (case AssignNextWaitingTasks (msm_tasks m) (sb_store_id command) (sb_max_tasks command) out of
             (outcome, tasks) \<Rightarrow> (map_sum (\<lambda>s. s) (\<lambda>ts. result\<lparr>br_tasks := ts\<rparr>) outcome, m\<lparr>msm_tasks := tasks\<rparr>))
      | REPORT_TASK_RESULT \<Rightarrow>
          (let report = sb_task_result command;
               before = Tasks_GetTask (msm_tasks m) (rr_task_id report) out
           in case CompleteTask (msm_tasks m) report of
             (Inl status, tasks) \<Rightarrow> (Inl status, m\<lparr>msm_tasks := tasks\<rparr>)
           | (Inr after, tasks) \<Rightarrow>
               (Inr (result\<lparr>br_duplicate_result :=
                       (case before of
                          Inl _ \<Rightarrow> False
                        | Inr b \<Rightarrow> tr_state b = tr_state after \<and> tr_result_payload b = tr_result_payload after \<and>
                                   tr_generation b = tr_generation after),
                      br_tasks := [after]\<rparr>),
                m\<lparr>msm_tasks := tasks\<rparr>))
      | CommandKind_other _ \<Rightarrow> (Inr result, m))"

definition ApplyStoreCommand ::
  "StoreId \<Rightarrow> MetadataStateMachine \<Rightarrow> LogIndex \<Rightarrow> Term \<Rightarrow> MetadataCommand \<Rightarrow> Status \<times> MetadataStateMachine" where
  "ApplyStoreCommand uninit m index uterm command =
     (case DecodeStoreBusinessCommand (mc_payload command) out of
        Inl status \<Rightarrow> (status, m)
      | Inr store_command \<Rightarrow>
     (case run_store_command uninit m store_command of
        (Inl status, m1) \<Rightarrow> (status, m1)
      | (Inr result, m1) \<Rightarrow>
     (case EncodeStoreBusinessResult result out of
        Inl status \<Rightarrow> (status, m1)
      | Inr result_payload \<Rightarrow>
          let found = map_find (msm_records m1) (mc_target_id command);
              state_record = \<lparr>sr_target_id = (case found of Some r \<Rightarrow> sr_target_id r | None \<Rightarrow> mc_target_id command),
                sr_payload = result_payload,
                sr_generation = (case found of Some r \<Rightarrow> sr_generation r + 1 | None \<Rightarrow> 1),
                sr_last_command_id = mc_command_id command,
                sr_last_update_index = index, sr_last_update_term = uterm\<rparr>
          in (OK, m1\<lparr>msm_records := map_set (sr_target_id state_record) state_record (msm_records m1)\<rparr>))))"

definition Apply ::
  "StoreId \<Rightarrow> MetadataStateMachine \<Rightarrow> LogIndex \<Rightarrow> Term \<Rightarrow> OpaquePayload \<Rightarrow> Status \<times> MetadataStateMachine" where
  "Apply uninit m index uterm command_payload =
     (if index = kInvalidLogIndex then (InvalidArgument, m)
      else if uterm = kInitialTerm then (InvalidArgument, m)
      else (case DecodeMetadataCommand command_payload out of
              Inl status \<Rightarrow> (status, m)
            | Inr command \<Rightarrow>
                let expected_index = msm_last_applied_index m + 1
                in if index = msm_last_applied_index m then (Busy, m)
                   else if index < expected_index then (Busy, m)
                   else if expected_index < index then (Busy, m)
                   else (case (if mc_type command = STORE_OPERATION
                               then ApplyStoreCommand uninit m index uterm command
                               else ApplyOpaqueCommand m index uterm command) of
                           (status, m1) \<Rightarrow>
                             if \<not> ok status then (status, m1)
                             else (OK, m1\<lparr>msm_last_applied_index := index, msm_last_applied_term := uterm\<rparr>))))"

text \<open>The function \<open>server.cpp\<close> gives the Raft runtime to apply a committed entry with.\<close>

definition server_apply :: "StoreId \<Rightarrow> MetadataStateMachine \<Rightarrow> LogEntry \<Rightarrow> Status \<times> MetadataStateMachine" where
  "server_apply uninit m entry =
     (if le_type entry \<noteq> COMMAND then (OK, m)
      else Apply uninit m (le_index entry) (le_term entry) (le_payload entry))"

section \<open>Queries\<close>

definition GetRecord :: "MetadataStateMachine \<Rightarrow> string \<Rightarrow> out_ptr \<Rightarrow> Status + MetadataStateRecord" where
  "GetRecord m target_id p =
     (if \<not> ok (require_out p) then Inl (require_out p)
      else if target_id = [] then Inl InvalidArgument
      else (case map_find (msm_records m) target_id of None \<Rightarrow> Inl NotFound | Some r \<Rightarrow> Inr r))"

definition GetLastApplied :: "MetadataStateMachine \<Rightarrow> out_ptr \<Rightarrow> out_ptr \<Rightarrow> Status + LogIndex \<times> Term" where
  "GetLastApplied m index uterm =
     (if index = nullptr \<or> uterm = nullptr then Inl InvalidArgument
      else Inr (msm_last_applied_index m, msm_last_applied_term m))"

definition Machine_GetStore :: "MetadataStateMachine \<Rightarrow> StoreId \<Rightarrow> out_ptr \<Rightarrow> Status + StoreInfo" where
  "Machine_GetStore m store_id p = Registry_GetStore (msm_stores m) store_id p"

definition Machine_ListStores :: "MetadataStateMachine \<Rightarrow> out_ptr \<Rightarrow> Status + StoreInfo list" where
  "Machine_ListStores m p = Registry_ListStores (msm_stores m) p"

definition UpdateStoreHeartbeat ::
  "MetadataStateMachine \<Rightarrow> StoreId \<Rightarrow> i64 \<Rightarrow> (Status + StoreInfo) \<times> MetadataStateMachine" where
  "UpdateStoreHeartbeat m store_id heartbeat_ms =
     (case UpdateHeartbeat (msm_stores m) store_id heartbeat_ms of
        (outcome, stores) \<Rightarrow> (outcome, m\<lparr>msm_stores := stores\<rparr>))"

definition Machine_GetTask :: "MetadataStateMachine \<Rightarrow> TaskId \<Rightarrow> out_ptr \<Rightarrow> Status + TaskRecord" where
  "Machine_GetTask m task_id p = Tasks_GetTask (msm_tasks m) task_id p"

definition Machine_ListTasks :: "MetadataStateMachine \<Rightarrow> out_ptr \<Rightarrow> Status + TaskRecord list" where
  "Machine_ListTasks m p = Tasks_ListTasks (msm_tasks m) p"

end
