(* ===== verification/Metadata_Snapshot.thy ===== *)
theory Metadata_Snapshot
  imports Metadata_State Metadata_Codec
begin

text \<open>
  The snapshots of \<open>metadata_state_machine.cpp\<close>: the second copy of the big-endian helpers this file
  has, the validation of records, \<open>CreateSnapshot\<close> and \<open>RestoreSnapshot\<close>, and the round trip.
\<close>

section \<open>Validation\<close>

definition ValidateSnapshotLength :: "nat \<Rightarrow> nat \<Rightarrow> Status" where
  "ValidateSnapshotLength len max_len = (if max_len < len then Corruption else OK)"

definition ValidateSnapshotRecord :: "MetadataStateRecord \<Rightarrow> LogIndex \<Rightarrow> Term \<Rightarrow> Status" where
  "ValidateSnapshotRecord r last_applied_index last_applied_term =
     (if sr_target_id r = [] then Corruption
      else if sr_generation r = 0 then Corruption
      else if sr_last_command_id r = [] then Corruption
      else if sr_last_update_index r = kInvalidLogIndex \<or> sr_last_update_term r = kInitialTerm then Corruption
      else if last_applied_index < sr_last_update_index r then Corruption
      else if last_applied_term < sr_last_update_term r then Corruption
      else if \<not> ok (ValidateSnapshotLength (length (sr_target_id r)) kMaxMetadataCommandTargetBytes)
        then ValidateSnapshotLength (length (sr_target_id r)) kMaxMetadataCommandTargetBytes
      else if \<not> ok (ValidateSnapshotLength (length (sr_last_command_id r)) kMaxMetadataCommandIdBytes)
        then ValidateSnapshotLength (length (sr_last_command_id r)) kMaxMetadataCommandIdBytes
      else if \<not> ok (ValidateSnapshotLength (length (sr_payload r)) kMaxMetadataCommandPayloadBytes)
        then ValidateSnapshotLength (length (sr_payload r)) kMaxMetadataCommandPayloadBytes
      else OK)"

definition ValidateProgress :: "LogIndex \<Rightarrow> Term \<Rightarrow> Status" where
  "ValidateProgress index uterm =
     (if index = kInvalidLogIndex then (if uterm \<noteq> kInitialTerm then Corruption else OK)
      else if uterm = kInitialTerm then Corruption else OK)"

section \<open>Writers\<close>

definition Meta_AppendU8 :: "u8 \<Rightarrow> bytes \<Rightarrow> bytes" where
  "Meta_AppendU8 value payload = payload @ [value]"

definition Meta_AppendU16 :: "u16 \<Rightarrow> bytes \<Rightarrow> bytes" where
  "Meta_AppendU16 value payload = payload @ [ucast (drop_bit 8 value AND 0xFF), ucast (value AND 0xFF)]"

definition Meta_AppendU32 :: "u32 \<Rightarrow> bytes \<Rightarrow> bytes" where
  "Meta_AppendU32 value payload =
     payload @ [ucast (drop_bit 24 value AND 0xFF), ucast (drop_bit 16 value AND 0xFF),
                ucast (drop_bit 8 value AND 0xFF), ucast (value AND 0xFF)]"

definition Meta_AppendU64 :: "u64 \<Rightarrow> bytes \<Rightarrow> bytes" where
  "Meta_AppendU64 value payload =
     payload @ map (\<lambda>shift. ucast (drop_bit shift value AND 0xFF)) [56, 48, 40, 32, 24, 16, 8, 0]"

definition Meta_AppendString :: "string \<Rightarrow> bytes \<Rightarrow> bytes" where
  "Meta_AppendString value payload = payload @ map byte_of_char value"

definition Meta_AppendBytes :: "OpaquePayload \<Rightarrow> bytes \<Rightarrow> bytes" where
  "Meta_AppendBytes value payload = payload @ value"

definition AppendStoreState :: "StoreState \<Rightarrow> bytes \<Rightarrow> bytes" where
  "AppendStoreState state payload = Meta_AppendU8 (EncodeStoreState state) payload"

definition AppendTaskType :: "TaskType \<Rightarrow> bytes \<Rightarrow> bytes" where
  "AppendTaskType type payload = Meta_AppendU8 (EncodeTaskType type) payload"

definition AppendTaskState :: "TaskState \<Rightarrow> bytes \<Rightarrow> bytes" where
  "AppendTaskState state payload = Meta_AppendU8 (EncodeTaskState state) payload"

definition AppendSnapshotString :: "string \<Rightarrow> bytes \<Rightarrow> Status + bytes" where
  "AppendSnapshotString value payload =
     (let status = ValidateSnapshotLength (length value) kMaxMetadataCommandTargetBytes
      in if \<not> ok status then Inl status
         else Inr (Meta_AppendString value (Meta_AppendU32 (word_of_nat (length value)) payload)))"

definition AppendSnapshotPayload :: "OpaquePayload \<Rightarrow> bytes \<Rightarrow> Status + bytes" where
  "AppendSnapshotPayload value payload =
     (let status = ValidateSnapshotLength (length value) kMaxMetadataCommandPayloadBytes
      in if \<not> ok status then Inl status
         else Inr (Meta_AppendBytes value (Meta_AppendU32 (word_of_nat (length value)) payload)))"

definition AppendPersistentStore :: "PersistentStoreInfo \<Rightarrow> bytes \<Rightarrow> Status + bytes" where
  "AppendPersistentStore store payload =
     (let payload1 = Meta_AppendU64 (ps_id store) payload;
          payload2 = Meta_AppendU64 (ps_capacity_bytes store) payload1;
          payload3 = Meta_AppendU64 (ps_used_bytes store) payload2;
          payload4 = AppendStoreState (ps_state store) payload3;
          payload5 = Meta_AppendU64 (ps_generation store) payload4;
          payload6 = Meta_AppendU16 (sa_port (ps_address store)) payload5
      in AppendSnapshotString (sa_host (ps_address store)) payload6)"

definition Meta_AppendTaskRecord :: "TaskRecord \<Rightarrow> bytes \<Rightarrow> Status + bytes" where
  "Meta_AppendTaskRecord task payload =
     (let payload1 = AppendTaskType (tr_type task) payload;
          payload2 = AppendTaskState (tr_state task) payload1;
          payload3 = Meta_AppendU64 (tr_assigned_store task) payload2;
          payload4 = Meta_AppendU64 (tr_generation task) payload3;
          payload5 = Meta_AppendU64 (tr_sequence task) payload4
      in and_then (AppendSnapshotString (tr_task_id task) payload5) (\<lambda>payload6.
         and_then (AppendSnapshotPayload (tr_target_payload task) payload6) (\<lambda>payload7.
         AppendSnapshotPayload (tr_result_payload task) payload7)))"

text \<open>The loops of \<open>CreateSnapshot\<close> over the records, the stores and the tasks.\<close>

fun append_records :: "MetadataStateRecord list \<Rightarrow> LogIndex \<Rightarrow> Term \<Rightarrow> bytes \<Rightarrow> Status + bytes" where
  "append_records [] index uterm encoded = Inr encoded"
| "append_records (r # rs) index uterm encoded =
     (let status = ValidateSnapshotRecord r index uterm
      in if \<not> ok status then Inl status
         else let encoded1 = Meta_AppendU32 (word_of_nat (length (sr_target_id r))) encoded;
                  encoded2 = Meta_AppendU32 (word_of_nat (length (sr_payload r))) encoded1;
                  encoded3 = Meta_AppendU32 (word_of_nat (length (sr_last_command_id r))) encoded2;
                  encoded4 = Meta_AppendU64 (sr_generation r) encoded3;
                  encoded5 = Meta_AppendU64 (sr_last_update_index r) encoded4;
                  encoded6 = Meta_AppendU64 (sr_last_update_term r) encoded5;
                  encoded7 = Meta_AppendString (sr_target_id r) encoded6;
                  encoded8 = Meta_AppendBytes (sr_payload r) encoded7
              in append_records rs index uterm (Meta_AppendString (sr_last_command_id r) encoded8))"

fun append_all :: "('a \<Rightarrow> bytes \<Rightarrow> Status + bytes) \<Rightarrow> 'a list \<Rightarrow> bytes \<Rightarrow> Status + bytes" where
  "append_all put [] encoded = Inr encoded"
| "append_all put (x # xs) encoded = and_then (put x encoded) (append_all put xs)"

definition CreateSnapshot ::
  "MetadataStateMachine \<Rightarrow> LogIndex \<Rightarrow> Term \<Rightarrow> out_ptr \<Rightarrow> Status + OpaquePayload" where
  "CreateSnapshot m last_applied_index last_applied_term snapshot_payload =
     (if \<not> ok (require_out snapshot_payload) then Inl (require_out snapshot_payload)
      else and_then (Registry_ExportPersistent (msm_stores m) out) (\<lambda>stores_copy.
           and_then (Tasks_ExportPersistent (msm_tasks m) out) (\<lambda>tasks_copy.
      if last_applied_index \<noteq> msm_last_applied_index m \<or> last_applied_term \<noteq> msm_last_applied_term m
        then Inl Busy
      else let encoded1 = Meta_AppendU8 kMetadataSnapshotFormatVersion [];
               encoded2 = Meta_AppendU32 (word_of_nat (length (msm_records m))) encoded1;
               encoded3 = Meta_AppendU64 (msm_last_applied_index m) encoded2;
               encoded4 = Meta_AppendU64 (msm_last_applied_term m) encoded3
           in and_then (append_records (map snd (msm_records m)) (msm_last_applied_index m)
                          (msm_last_applied_term m) encoded4) (\<lambda>encoded5.
              if kMaxMetadataSnapshotStores < length stores_copy \<or>
                 kMaxMetadataSnapshotTasks < length tasks_copy then Inl Busy
              else and_then (append_all AppendPersistentStore stores_copy
                               (Meta_AppendU32 (word_of_nat (length stores_copy)) encoded5)) (\<lambda>encoded6.
                   append_all Meta_AppendTaskRecord tasks_copy
                     (Meta_AppendU32 (word_of_nat (length tasks_copy)) encoded6))))))"

section \<open>Readers\<close>

definition Meta_ReadU8 :: "u8 parse" where
  "Meta_ReadU8 d = (if length d < 1 then Inl Corruption else Inr (d ! 0, drop 1 d))"

definition Meta_ReadU16 :: "u16 parse" where
  "Meta_ReadU16 d =
     (if length d < 2 then Inl Corruption
      else Inr (push_bit 8 (ucast (d ! 0)) OR ucast (d ! 1), drop 2 d))"

definition Meta_ReadU32 :: "u32 parse" where
  "Meta_ReadU32 d =
     (if length d < 4 then Inl Corruption
      else Inr (push_bit 24 (ucast (d ! 0)) OR push_bit 16 (ucast (d ! 1)) OR
                push_bit 8 (ucast (d ! 2)) OR ucast (d ! 3), drop 4 d))"

definition Meta_ReadU64 :: "u64 parse" where
  "Meta_ReadU64 d =
     (if length d < 8 then Inl Corruption
      else Inr (fold (\<lambda>i result. push_bit 8 result OR ucast (d ! i)) [0 ..< 8] 0, drop 8 d))"

definition Meta_ReadString :: "nat \<Rightarrow> nat \<Rightarrow> string parse" where
  "Meta_ReadString len max_length d =
     (if max_length < len then Inl Corruption
      else if length d < len then Inl Corruption
      else Inr (map char_of_byte (take len d), drop len d))"

definition Meta_ReadPayload :: "nat \<Rightarrow> nat \<Rightarrow> OpaquePayload parse" where
  "Meta_ReadPayload len max_length d =
     (if max_length < len then Inl Corruption
      else if length d < len then Inl Corruption
      else Inr (take len d, drop len d))"

definition ReadPersistentStore :: "PersistentStoreInfo parse" where
  "ReadPersistentStore d =
     and_then (Meta_ReadU64 d) (\<lambda>(id, d1).
     and_then (Meta_ReadU64 d1) (\<lambda>(capacity_bytes, d2).
     and_then (Meta_ReadU64 d2) (\<lambda>(used_bytes, d3).
     and_then (Meta_ReadU8 d3) (\<lambda>(state, d4).
     and_then (Meta_ReadU64 d4) (\<lambda>(generation, d5).
     and_then (Meta_ReadU16 d5) (\<lambda>(port, d6).
     and_then (Meta_ReadU32 d6) (\<lambda>(host_length, d7).
     and_then (Meta_ReadString (unat host_length) kMaxMetadataCommandTargetBytes d7) (\<lambda>(host, d8).
       Inr (\<lparr>ps_id = id, ps_address = \<lparr>sa_host = host, sa_port = port\<rparr>,
             ps_capacity_bytes = capacity_bytes, ps_used_bytes = used_bytes,
             ps_state = DecodeStoreState state, ps_generation = generation\<rparr>, d8)))))))))"

definition Meta_ReadTaskRecord :: "TaskRecord parse" where
  "Meta_ReadTaskRecord d =
     and_then (Meta_ReadU8 d) (\<lambda>(type, d1).
     and_then (Meta_ReadU8 d1) (\<lambda>(state, d2).
     and_then (Meta_ReadU64 d2) (\<lambda>(assigned_store, d3).
     and_then (Meta_ReadU64 d3) (\<lambda>(generation, d4).
     and_then (Meta_ReadU64 d4) (\<lambda>(sequence, d5).
     and_then (Meta_ReadU32 d5) (\<lambda>(id_length, d6).
     and_then (Meta_ReadString (unat id_length) kMaxMetadataCommandIdBytes d6) (\<lambda>(task_id, d7).
     and_then (Meta_ReadU32 d7) (\<lambda>(target_length, d8).
     and_then (Meta_ReadPayload (unat target_length) kMaxMetadataCommandPayloadBytes d8) (\<lambda>(target_payload, d9).
     and_then (Meta_ReadU32 d9) (\<lambda>(result_length, d10).
     and_then (Meta_ReadPayload (unat result_length) kMaxMetadataCommandPayloadBytes d10) (\<lambda>(result_payload, d11).
       Inr (\<lparr>tr_task_id = task_id, tr_type = DecodeTaskType type, tr_state = DecodeTaskState state,
             tr_target_payload = target_payload, tr_assigned_store = assigned_store,
             tr_result_payload = result_payload, tr_generation = generation,
             tr_sequence = sequence\<rparr>, d11))))))))))))"

text \<open>One round of the loop of \<open>RestoreSnapshot\<close> over the records, up to the insertion.\<close>

definition read_record :: "LogIndex \<Rightarrow> Term \<Rightarrow> MetadataStateRecord parse" where
  "read_record last_applied_index last_applied_term d =
     and_then (Meta_ReadU32 d) (\<lambda>(target_length, d1).
     and_then (Meta_ReadU32 d1) (\<lambda>(payload_length, d2).
     and_then (Meta_ReadU32 d2) (\<lambda>(command_id_length, d3).
     and_then (Meta_ReadU64 d3) (\<lambda>(generation, d4).
     and_then (Meta_ReadU64 d4) (\<lambda>(last_update_index, d5).
     and_then (Meta_ReadU64 d5) (\<lambda>(last_update_term, d6).
     and_then (Meta_ReadString (unat target_length) kMaxMetadataCommandTargetBytes d6) (\<lambda>(target_id, d7).
     and_then (Meta_ReadPayload (unat payload_length) kMaxMetadataCommandPayloadBytes d7) (\<lambda>(payload, d8).
     and_then (Meta_ReadString (unat command_id_length) kMaxMetadataCommandIdBytes d8) (\<lambda>(last_command_id, d9).
       let r = \<lparr>sr_target_id = target_id, sr_payload = payload, sr_generation = generation,
                sr_last_command_id = last_command_id, sr_last_update_index = last_update_index,
                sr_last_update_term = last_update_term\<rparr>;
           status = ValidateSnapshotRecord r last_applied_index last_applied_term
       in if \<not> ok status then Inl status else Inr (r, d9))))))))))"

fun read_records :: "LogIndex \<Rightarrow> Term \<Rightarrow> nat \<Rightarrow> RecordMap \<Rightarrow> RecordMap parse" where
  "read_records index uterm 0 restored d = Inr (restored, d)"
| "read_records index uterm (Suc n) restored d =
     and_then (read_record index uterm d) (\<lambda>(r, d1).
       if map_find restored (sr_target_id r) \<noteq> None then Inl Corruption
       else read_records index uterm n (map_emplace (sr_target_id r) r restored) d1)"

text \<open>What \<open>RestoreSnapshot\<close> reads before it looks at the state machine.\<close>

definition read_snapshot ::
  "OpaquePayload \<Rightarrow> Status + RecordMap \<times> LogIndex \<times> Term \<times> PersistentStoreInfo list \<times> TaskRecord list" where
  "read_snapshot snapshot_payload =
     and_then (Meta_ReadU8 snapshot_payload) (\<lambda>(version, d1).
     if version \<noteq> kMetadataSnapshotFormatVersion \<and> version \<noteq> kLegacyMetadataSnapshotFormatVersion
       then Inl Corruption
     else and_then (Meta_ReadU32 d1) (\<lambda>(record_count, d2).
     if kMaxMetadataSnapshotRecords < unat record_count then Inl Corruption
     else and_then (Meta_ReadU64 d2) (\<lambda>(last_applied_index, d3).
     and_then (Meta_ReadU64 d3) (\<lambda>(last_applied_term, d4).
     if \<not> ok (ValidateProgress last_applied_index last_applied_term)
       then Inl (ValidateProgress last_applied_index last_applied_term)
     else and_then (read_records last_applied_index last_applied_term (unat record_count) [] d4) (\<lambda>(records, d5).
     and_then (if version = kMetadataSnapshotFormatVersion
               then and_then (Meta_ReadU32 d5) (\<lambda>(store_count, d6).
                    if kMaxMetadataSnapshotStores < unat store_count then Inl Corruption
                    else and_then (parse_many ReadPersistentStore (unat store_count) d6) (\<lambda>(stores, d7).
                    and_then (Meta_ReadU32 d7) (\<lambda>(task_count, d8).
                    if kMaxMetadataSnapshotTasks < unat task_count then Inl Corruption
                    else and_then (parse_many Meta_ReadTaskRecord (unat task_count) d8) (\<lambda>(tasks, d9).
                    Inr (stores, tasks, d9)))))
               else Inr ([], [], d5)) (\<lambda>(stores, tasks, d10).
     if d10 \<noteq> [] then Inl Corruption
     else Inr (records, last_applied_index, last_applied_term, stores, tasks)))))))"

definition RestoreSnapshot :: "MetadataStateMachine \<Rightarrow> OpaquePayload \<Rightarrow> Status \<times> MetadataStateMachine" where
  "RestoreSnapshot m snapshot_payload =
     (case read_snapshot snapshot_payload of
        Inl status \<Rightarrow> (status, m)
      | Inr (records, last_applied_index, last_applied_term, stores, tasks) \<Rightarrow>
     (case Registry_RestorePersistent StoreRegistry_new stores of (status1, _) \<Rightarrow>
        if \<not> ok status1 then (status1, m)
        else (case Tasks_RestorePersistent TaskManager_new tasks of (status2, _) \<Rightarrow>
        if \<not> ok status2 then (status2, m)
        else (case Registry_RestorePersistent (msm_stores m) stores of (status3, stores_) \<Rightarrow>
          let m1 = m\<lparr>msm_stores := stores_\<rparr>
          in if \<not> ok status3 then (status3, m1)
             else (case Tasks_RestorePersistent (msm_tasks m) tasks of (status4, tasks_) \<Rightarrow>
               let m2 = m1\<lparr>msm_tasks := tasks_\<rparr>
               in if \<not> ok status4 then (status4, m2)
                  else (OK, m2\<lparr>msm_records := records, msm_last_applied_index := last_applied_index,
                              msm_last_applied_term := last_applied_term\<rparr>))))))"

end
