(* ===== verification/Metadata_Machine.thy ===== *)
theory Metadata_Machine
  imports Metadata_State Metadata_Codec
begin

text \<open>
  What every operation of the metadata state machine keeps, when an apply that fails leaves traces,
  and what a failed apply means for the commands behind it.
\<close>

section \<open>Invariant\<close>

definition state_record_ok :: "LogIndex \<Rightarrow> Term \<Rightarrow> string \<Rightarrow> MetadataStateRecord \<Rightarrow> bool" where
  "state_record_ok index uterm k r \<longleftrightarrow>
     sr_target_id r = k \<and> k \<noteq> [] \<and> length k \<le> kMaxMetadataCommandTargetBytes \<and>
     sr_last_command_id r \<noteq> [] \<and> length (sr_last_command_id r) \<le> kMaxMetadataCommandIdBytes \<and>
     sr_generation r \<noteq> 0 \<and> sr_generation r \<le> sr_last_update_index r \<and>
     sr_last_update_index r \<le> index \<and> sr_last_update_term r \<noteq> kInitialTerm \<and> sr_last_update_term r \<le> uterm"

definition machine_inv :: "MetadataStateMachine \<Rightarrow> bool" where
  "machine_inv m \<longleftrightarrow>
     map_wf (msm_records m) \<and>
     (\<forall>k r. map_find (msm_records m) k = Some r \<longrightarrow>
        state_record_ok (msm_last_applied_index m) (msm_last_applied_term m) k r) \<and>
     registry_inv (msm_stores m) \<and> tasks_inv (msm_tasks m) \<and>
     (msm_last_applied_index m = kInvalidLogIndex \<longleftrightarrow> msm_last_applied_term m = kInitialTerm)"

lemma machine_inv_new [simp]: "machine_inv MetadataStateMachine_new"
  by (simp add: machine_inv_def MetadataStateMachine_new_def)

lemma machine_invD:
  assumes "machine_inv m"
  shows "map_wf (msm_records m)" "registry_inv (msm_stores m)" "tasks_inv (msm_tasks m)"
    "map_find (msm_records m) k = Some r \<Longrightarrow>
       state_record_ok (msm_last_applied_index m) (msm_last_applied_term m) k r"
    "msm_last_applied_index m = kInvalidLogIndex \<longleftrightarrow> msm_last_applied_term m = kInitialTerm"
  using assms by (auto simp: machine_inv_def)

text \<open>The stores and tasks of a machine, without the records.\<close>

definition business_inv :: "MetadataStateMachine \<Rightarrow> bool" where
  "business_inv m \<longleftrightarrow> registry_inv (msm_stores m) \<and> tasks_inv (msm_tasks m)"

lemma machine_biz: "machine_inv m \<Longrightarrow> business_inv m"
  using machine_invD by (simp add: business_inv_def)

definition same_log :: "MetadataStateMachine \<Rightarrow> MetadataStateMachine \<Rightarrow> bool" where
  "same_log m n \<longleftrightarrow>
     msm_records n = msm_records m \<and> msm_last_applied_index n = msm_last_applied_index m \<and>
     msm_last_applied_term n = msm_last_applied_term m"

lemma registry_ops_inv:
  assumes "registry_inv r"
  shows "registry_inv (snd (RegisterStore r s))" "registry_inv (snd (UpdateStore r u))"
    "registry_inv (snd (RemoveStore r i))" "registry_inv (snd (UpdateHeartbeat r i h))"
  using RegisterStore_refines(1) UpdateStore_refines(1) RemoveStore_refines(1) UpdateHeartbeat_refines(1) assms
  by blast+

lemma task_ops_inv:
  assumes "tasks_inv t"
  shows "tasks_inv (snd (CreateTask t c))" "tasks_inv (snd (CompleteTask t e))"
    "tasks_inv (snd (AssignNextWaitingTasks t i n p))"
  using CreateTask_le [OF assms] CompleteTask_le [OF assms] AssignNextWaitingTasks_le [OF assms]
  by (simp_all add: tasks_le_def)

lemma run_store_command_state:
  "snd (run_store_command u m c) =
     (case sb_kind c of
        REGISTER_STORE \<Rightarrow> m\<lparr>msm_stores := snd (RegisterStore (msm_stores m) (sb_store c))\<rparr>
      | UPDATE_STORE_STATE \<Rightarrow> m\<lparr>msm_stores := snd (UpdateStore (msm_stores m) (sb_update c))\<rparr>
      | REMOVE_STORE \<Rightarrow>
          (case Registry_GetStore (msm_stores m) (sb_store_id c) out of
             Inl _ \<Rightarrow> m
           | Inr s \<Rightarrow> if su_expected_generation (sb_update c) \<notin> {None, Some (si_generation s)} then m
                    else m\<lparr>msm_stores := snd (RemoveStore (msm_stores m) (sb_store_id c))\<rparr>)
      | CREATE_TASK \<Rightarrow> m\<lparr>msm_tasks := snd (CreateTask (msm_tasks m) (sb_task_create c))\<rparr>
      | POLL_TASKS \<Rightarrow>
          m\<lparr>msm_tasks := snd (AssignNextWaitingTasks (msm_tasks m) (sb_store_id c) (sb_max_tasks c) out)\<rparr>
      | REPORT_TASK_RESULT \<Rightarrow> m\<lparr>msm_tasks := snd (CompleteTask (msm_tasks m) (sb_task_result c))\<rparr>
      | CommandKind_other _ \<Rightarrow> m)"
  by (cases "sb_kind c")
    (auto simp: run_store_command_def Let_def case_prod_beta split: sum.split)

lemma run_store_command_keeps:
  assumes "business_inv m"
  shows "business_inv (snd (run_store_command u m c)) \<and> same_log m (snd (run_store_command u m c))"
  using assms registry_ops_inv task_ops_inv
  by (cases "sb_kind c") (simp_all add: run_store_command_state business_inv_def same_log_def split: sum.split)

text \<open>An operation that fails changes nothing.\<close>

lemma registry_ops_fail:
  "RegisterStore r s = (Inl e, r') \<Longrightarrow> r' = r" "UpdateStore r p = (Inl e, r') \<Longrightarrow> r' = r"
  "RemoveStore r i = (st, r') \<Longrightarrow> st \<noteq> OK \<Longrightarrow> r' = r"
  by (auto simp: RegisterStore_def UpdateStore_def RemoveStore_def Let_def split: if_splits option.splits)

lemma task_ops_fail:
  "CreateTask t c = (Inl e, t') \<Longrightarrow> t' = t" "CompleteTask t q = (Inl e, t') \<Longrightarrow> t' = t"
  "AssignNextWaitingTasks t i n p = (Inl e, t') \<Longrightarrow> t' = t"
  by (auto simp: CreateTask_def CompleteTask_def AssignNextWaitingTasks_def Let_def
      split: if_splits option.splits sum.splits)

lemma map_sum_Inl: "map_sum (\<lambda>s. s) f x = Inl e \<longleftrightarrow> x = Inl e"
  by (cases x) auto

lemma map_sum_Inr: "map_sum (\<lambda>s. s) f x = Inr y \<longleftrightarrow> (\<exists>z. x = Inr z \<and> y = f z)"
  by (cases x) auto

lemma run_store_command_fail:
  assumes "run_store_command u m c = (Inl e, n)"
  shows "n = m"
  using assms registry_ops_fail task_ops_fail
  by (cases "sb_kind c")
    (auto simp: run_store_command_def Let_def map_sum_Inl split: prod.splits sum.splits if_splits)

section \<open>Results\<close>

lemma known_type_writable: "ValidateTaskType t = OK \<Longrightarrow> DecodeTaskType (EncodeTaskType t) = t"
  by (cases t) (simp_all add: ValidateTaskType_def DecodeTaskType_def)

lemma known_task_state_writable: "ValidateTaskState t = OK \<Longrightarrow> DecodeTaskState (EncodeTaskState t) = t"
  by (cases t) (simp_all add: ValidateTaskState_def DecodeTaskState_def)

lemma record_inv_writable:
  assumes "record_inv i x"
  shows "task_normal x"
proof -
  have type: "ValidateTaskType (tr_type x) = OK" and state: "ValidateTaskState (tr_state x) = OK"
    and id: "ValidateTaskId i = OK" "tr_task_id x = i"
    and payloads: "length (tr_target_payload x) \<le> kMaxTaskPayloadBytes"
      "length (tr_result_payload x) \<le> kMaxTaskPayloadBytes"
    using assms by (simp_all add: record_inv_fields)
  have "tr_task_id x \<noteq> []" "length (tr_task_id x) \<le> 4096"
    using id by (auto simp: ValidateTaskId_def kMaxTaskIdBytes_def split: if_splits)
  with payloads show ?thesis
    by (simp add: task_normal_def task_writable_def kMaxTaskPayloadBytes_def command_limits
        known_type_writable [OF type] known_task_state_writable [OF state])
qed

lemma store_fields_writable:
  assumes "ValidateStoreFields s = OK"
  shows "length (sa_host (si_address s)) \<le> kMaxMetadataCommandTargetBytes"
    "DecodeStoreState (EncodeStoreState (si_state s)) = si_state s"
  using assms
  by (auto simp: ValidateStoreFields_def Registry_ValidateAddress_def kMaxStoreHostBytes_def command_limits
      IsKnownState_def DecodeStoreState_def split: if_splits)

lemma registry_ops_result:
  "RegisterStore r s = (Inr x, r') \<Longrightarrow> ValidateStoreFields x = OK"
  "UpdateStore r u = (Inr x, r') \<Longrightarrow> ValidateStoreFields x = OK"
  by (auto simp: RegisterStore_def UpdateStore_def Let_def split: if_splits option.splits)

lemma task_ops_result:
  "CreateTask t c = (Inr x, t') \<Longrightarrow> map_find (tm_tasks t') (tc_task_id c) = Some x"
  "CompleteTask t q = (Inr x, t') \<Longrightarrow> map_find (tm_tasks t') (rr_task_id q) = Some x"
  by (auto simp: CreateTask_def CompleteTask_def Let_def split: if_splits option.splits)

lemma poll_result:
  assumes "tasks_inv t" "AssignNextWaitingTasks t i n out = (Inr ts, t')"
  shows "length ts = min (unat n) (length (waiting_tasks t))" "\<forall>x \<in> set ts. task_normal x"
proof -
  have t': "tasks_inv t'" using task_ops_inv(3) [OF assms(1), of i n out] assms(2) by simp
  have "length ts = min (unat n) (length (waiting_tasks t)) \<and>
      list_all (\<lambda>x. map_find (tm_tasks t') (tr_task_id x) = Some x) ts"
    using AssignNextWaitingTasks_cases [OF assms(1), of i n] assms(2) by (auto simp: list_all_iff)
  then show "length ts = min (unat n) (length (waiting_tasks t))" "\<forall>x \<in> set ts. task_normal x"
    using tasks_invD(3) [OF t'] record_inv_writable unfolding list_all_iff by blast+
qed

lemma run_store_command_result:
  assumes m: "business_inv m" and r: "run_store_command u m c = (Inr r, n)"
  shows "length (sa_host (si_address (br_store r))) \<le> kMaxMetadataCommandTargetBytes"
    and "\<forall>x \<in> set (br_tasks r). task_normal x"
    and "length (br_tasks r) \<le> 1 \<or>
      sb_kind c = POLL_TASKS \<and> length (br_tasks r) = min (unat (sb_max_tasks c)) (length (waiting_tasks (msm_tasks m)))"
proof -
  have reg: "registry_inv (msm_stores m)" and tasks: "tasks_inv (msm_tasks m)"
    using m by (simp_all add: business_inv_def)
  have def_ok: "length (sa_host (si_address (StoreInfo_default v))) \<le> kMaxMetadataCommandTargetBytes" for v
    by (simp add: StoreInfo_default_def)
  have get: "length (sa_host (si_address s)) \<le> kMaxMetadataCommandTargetBytes"
    if "Registry_GetStore (msm_stores m) i out = Inr s" for i s
    using that registry_invD(4) [OF reg] store_fields_writable(1)
    by (auto simp: Registry_GetStore_def split: if_splits option.splits)
  have task: "task_normal x" if "tasks_inv t'" "map_find (tm_tasks t') i = Some x" for t' i x
    using that tasks_invD(3) record_inv_writable by blast
  have created: "task_normal x" if "CreateTask (msm_tasks m) q = (Inr x, t')" for q x t'
    using task_ops_inv(1) [OF tasks, of q] task_ops_result(1) [OF that] that task by simp
  have completed: "task_normal x" if "CompleteTask (msm_tasks m) q = (Inr x, t')" for q x t'
    using task_ops_inv(2) [OF tasks, of q] task_ops_result(2) [OF that] that task by simp
  have "length (sa_host (si_address (br_store r))) \<le> kMaxMetadataCommandTargetBytes \<and>
    (\<forall>x \<in> set (br_tasks r). task_normal x) \<and> (length (br_tasks r) \<le> 1 \<or>
      sb_kind c = POLL_TASKS \<and> length (br_tasks r) = min (unat (sb_max_tasks c)) (length (waiting_tasks (msm_tasks m))))"
  proof (cases "sb_kind c")
    case POLL_TASKS
    then show ?thesis
      using r def_ok poll_result [OF tasks]
      by (auto simp: run_store_command_def Let_def map_sum_Inr StoreBusinessResult_default_def split: prod.splits)
  qed (use r def_ok get created completed registry_ops_result store_fields_writable(1) in
      \<open>auto simp: run_store_command_def Let_def map_sum_Inr StoreBusinessResult_default_def
        split: prod.splits sum.splits if_splits\<close>)
  then show "length (sa_host (si_address (br_store r))) \<le> kMaxMetadataCommandTargetBytes"
    "\<forall>x \<in> set (br_tasks r). task_normal x"
    "length (br_tasks r) \<le> 1 \<or>
      sb_kind c = POLL_TASKS \<and> length (br_tasks r) = min (unat (sb_max_tasks c)) (length (waiting_tasks (msm_tasks m)))"
    by blast+
qed

lemma result_encodes:
  assumes "business_inv m" "run_store_command u m c = (Inr r, n)"
  shows "EncodeStoreBusinessResult r out =
    (if kMaxStoreBusinessItems < length (br_tasks r) then Inl InvalidArgument else Inr (store_result_bytes r))"
  using run_store_command_result [OF assms]
  by (auto simp: EncodeStoreBusinessResult_eq store_result_writable_def task_normal_def)

section \<open>One apply\<close>

lemma run_store_command_not_OK: "fst (run_store_command u m c) \<noteq> Inl OK"
proof -
  have reg: "fst (RegisterStore r s) \<noteq> Inl OK" "fst (UpdateStore r p) \<noteq> Inl OK" "Registry_GetStore r i out \<noteq> Inl OK" for r s p i
    by (auto simp: RegisterStore_def UpdateStore_def Registry_GetStore_def Let_def split: option.splits)
  have task: "fst (CreateTask t q) \<noteq> Inl OK" "fst (CompleteTask t e) \<noteq> Inl OK"
    "fst (AssignNextWaitingTasks t i n out) \<noteq> Inl OK" for t q e i n
    by (auto simp: CreateTask_def CompleteTask_def AssignNextWaitingTasks_def Let_def assign_all_eq
        split: option.splits sum.splits if_splits)
  have get: "Registry_GetStore r i out = Inl e \<Longrightarrow> e \<noteq> OK" for r i e using reg(3) by metis
  have complete: "CompleteTask t q = (Inl e, t') \<Longrightarrow> e \<noteq> OK" for t q e t' using task(2) [of t q] by auto
  show ?thesis
    using reg(1,2) task get complete
    by (cases "sb_kind c")
      (auto simp: run_store_command_def Let_def map_sum_Inl case_prod_beta split: sum.splits prod.splits)
qed

text \<open>The record an applied command leaves.\<close>

definition new_record ::
  "MetadataStateMachine \<Rightarrow> LogIndex \<Rightarrow> Term \<Rightarrow> MetadataCommand \<Rightarrow> OpaquePayload \<Rightarrow> MetadataStateRecord" where
  "new_record m index uterm c payload =
     \<lparr>sr_target_id = (case map_find (msm_records m) (mc_target_id c) of Some r \<Rightarrow> sr_target_id r | None \<Rightarrow> mc_target_id c),
      sr_payload = payload,
      sr_generation = (case map_find (msm_records m) (mc_target_id c) of Some r \<Rightarrow> sr_generation r + 1 | None \<Rightarrow> 1),
      sr_last_command_id = mc_command_id c, sr_last_update_index = index, sr_last_update_term = uterm\<rparr>"

definition put_record :: "MetadataStateRecord \<Rightarrow> MetadataStateMachine \<Rightarrow> MetadataStateMachine" where
  "put_record r m =
     m\<lparr>msm_records := map_set (sr_target_id r) r (msm_records m),
       msm_last_applied_index := sr_last_update_index r, msm_last_applied_term := sr_last_update_term r\<rparr>"

lemma Apply_refused:
  assumes "index \<noteq> msm_last_applied_index m + 1"
  shows "snd (Apply u m index uterm p) = m \<and> fst (Apply u m index uterm p) \<noteq> OK"
proof (cases "DecodeMetadataCommand p out")
  case (Inl e)
  then show ?thesis using DecodeMetadataCommand_not_OK by (auto simp: Apply_def)
next
  case (Inr c)
  then show ?thesis using assms linorder_cases by (auto simp: Apply_def Let_def)
qed

lemma Apply_next:
  assumes "index = msm_last_applied_index m + 1" "index \<noteq> 0" "uterm \<noteq> 0" "DecodeMetadataCommand p out = Inr c"
  shows "Apply u m index uterm p =
    (if mc_type c = STORE_OPERATION
     then (case DecodeStoreBusinessCommand (mc_payload c) out of
             Inl e \<Rightarrow> (e, m)
           | Inr b \<Rightarrow> (case run_store_command u m b of
               (Inl e, m1) \<Rightarrow> (e, m1)
             | (Inr r, m1) \<Rightarrow> (case EncodeStoreBusinessResult r out of
                 Inl e \<Rightarrow> (e, m1)
               | Inr q \<Rightarrow> (OK, put_record (new_record m1 index uterm c q) m1))))
     else if mc_expected_generation c \<noteq> None \<and>
             mc_expected_generation c \<noteq> map_option sr_generation (map_find (msm_records m) (mc_target_id c))
     then ((if map_find (msm_records m) (mc_target_id c) = None then NotFound else Busy), m)
     else (OK, put_record (new_record m index uterm c (mc_payload c)) m))"
proof -
  have "index \<noteq> msm_last_applied_index m" using assms(1) by simp
  then have a: "Apply u m index uterm p =
      (case (if mc_type c = STORE_OPERATION then ApplyStoreCommand u m index uterm c
             else ApplyOpaqueCommand m index uterm c) of
         (st, m1) \<Rightarrow> if st \<noteq> OK then (st, m1)
                   else (OK, m1\<lparr>msm_last_applied_index := index, msm_last_applied_term := uterm\<rparr>))"
    using assms(2-4) unfolding assms(1) by (simp add: Apply_def Let_def)
  show ?thesis
  proof (cases "mc_type c = STORE_OPERATION")
    case True
    have fail: "run_store_command u m b = (Inl e, m1) \<Longrightarrow> e \<noteq> OK" for b e m1
      using run_store_command_not_OK [of u m b] by auto
    have "DecodeStoreBusinessCommand (mc_payload c) out = Inl e \<Longrightarrow> e \<noteq> OK" for e
      using DecodeStoreBusinessCommand_not_OK by metis
    with True show ?thesis
      by (auto simp: a ApplyStoreCommand_def new_record_def put_record_def Let_def EncodeStoreBusinessResult_eq
          fail split: sum.splits prod.splits option.splits)
  next
    case False
    then show ?thesis
      by (auto simp: a ApplyOpaqueCommand_def new_record_def put_record_def Let_def split: option.splits)
  qed
qed


text \<open>An apply that fails: what it may leave behind.\<close>

definition poll_too_large :: "MetadataStateMachine \<Rightarrow> OpaquePayload \<Rightarrow> StoreBusinessCommand \<Rightarrow> bool" where
  "poll_too_large m p b \<longleftrightarrow>
     (\<exists>c. DecodeMetadataCommand p out = Inr c \<and> DecodeStoreBusinessCommand (mc_payload c) out = Inr b) \<and>
     sb_kind b = POLL_TASKS \<and>
     kMaxStoreBusinessItems < min (unat (sb_max_tasks b)) (length (waiting_tasks (msm_tasks m)))"

lemma Apply_zero: "index = 0 \<or> uterm = 0 \<Longrightarrow> Apply u m index uterm p = (InvalidArgument, m)"
  by (auto simp: Apply_def)

lemma Apply_undecodable:
  assumes "DecodeMetadataCommand p out = Inl e"
  shows "snd (Apply u m index uterm p) = m \<and> fst (Apply u m index uterm p) \<noteq> OK"
  using assms DecodeMetadataCommand_not_OK [of p out] by (auto simp: Apply_def)

lemma Apply_reaches:
  assumes "snd (Apply u m index uterm p) \<noteq> m \<or> fst (Apply u m index uterm p) = OK"
  obtains c where "index = msm_last_applied_index m + 1" "index \<noteq> 0" "uterm \<noteq> 0"
    "DecodeMetadataCommand p out = Inr c"
proof -
  have "index = msm_last_applied_index m + 1" using assms Apply_refused by blast
  moreover have "index \<noteq> 0 \<and> uterm \<noteq> 0" using assms Apply_zero by fastforce
  moreover obtain c where "DecodeMetadataCommand p out = Inr c"
    using assms Apply_undecodable by (cases "DecodeMetadataCommand p out") blast+
  ultimately show ?thesis using that by blast
qed

lemma Apply_fails:
  assumes biz: "business_inv m" and a: "Apply u m index uterm p = (st, n)" "st \<noteq> OK"
  shows "n = m \<or> (st = InvalidArgument \<and> (\<exists>b. poll_too_large m p b \<and> n = m\<lparr>msm_tasks :=
    snd (AssignNextWaitingTasks (msm_tasks m) (sb_store_id b) (sb_max_tasks b) out)\<rparr>))"
proof (rule ccontr)
  assume no: "\<not> ?thesis"
  obtain c where c: "index = msm_last_applied_index m + 1" "index \<noteq> 0" "uterm \<noteq> 0"
      "DecodeMetadataCommand p out = Inr c"
    using Apply_reaches [of u m index uterm p] a no by auto
  note eq = Apply_next [OF c, of u]
  show False
  proof (cases "mc_type c = STORE_OPERATION")
    case False
    then show False using a no by (auto simp: eq split: if_splits)
  next
    case True
    then obtain b where b: "DecodeStoreBusinessCommand (mc_payload c) out = Inr b"
      using a no by (cases "DecodeStoreBusinessCommand (mc_payload c) out") (auto simp: eq)
    obtain out1 m1 where r: "run_store_command u m b = (out1, m1)" by fastforce
    show False
    proof (cases out1)
      case (Inl e)
      then show False using a no True b r run_store_command_fail by (auto simp: eq)
    next
      case (Inr res)
      note res = run_store_command_result [OF biz r [unfolded Inr]]
      have big: "kMaxStoreBusinessItems < length (br_tasks res)"
        using a True b r Inr result_encodes [OF biz r [unfolded Inr]] by (auto simp: eq split: if_splits)
      then have poll: "sb_kind b = POLL_TASKS" "poll_too_large m p b"
        using res(3) c(4) b by (auto simp: poll_too_large_def kMaxStoreBusinessItems_def)
      then have "m1 = m\<lparr>msm_tasks := snd (AssignNextWaitingTasks (msm_tasks m) (sb_store_id b) (sb_max_tasks b) out)\<rparr>"
        using run_store_command_state [of u m b] r by simp
      moreover have "st = InvalidArgument" "n = m1"
        using a True b r Inr big result_encodes [OF biz r [unfolded Inr]] by (auto simp: eq)
      ultimately show False using no poll by blast
    qed
  qed
qed

text \<open>An apply that succeeds: one record for the target, and the progress.\<close>

lemma Apply_succeeds:
  assumes biz: "business_inv m" and a: "Apply u m index uterm p = (OK, n)"
  obtains c q m1 where "index = msm_last_applied_index m + 1" "index \<noteq> 0" "uterm \<noteq> 0"
    "DecodeMetadataCommand p out = Inr c" "business_inv m1" "same_log m m1"
    "n = put_record (new_record m index uterm c q) m1"
proof -
  obtain c where c: "index = msm_last_applied_index m + 1" "index \<noteq> 0" "uterm \<noteq> 0"
      "DecodeMetadataCommand p out = Inr c"
    using Apply_reaches [of u m index uterm p] a by auto
  note eq = Apply_next [OF c, of u]
  have same: "same_log m m" by (simp add: same_log_def)
  show ?thesis
  proof (cases "mc_type c = STORE_OPERATION")
    case False
    then have "n = put_record (new_record m index uterm c (mc_payload c)) m"
      using a by (auto simp: eq split: if_splits)
    then show ?thesis using that c biz same by blast
  next
    case True
    then obtain b where b: "DecodeStoreBusinessCommand (mc_payload c) out = Inr b"
      using a DecodeStoreBusinessCommand_not_OK by (cases "DecodeStoreBusinessCommand (mc_payload c) out") (auto simp: eq)
    obtain out1 m1 where r: "run_store_command u m b = (out1, m1)" by fastforce
    then obtain res where res: "out1 = Inr res"
      using a True b run_store_command_not_OK [of u m b] by (cases out1) (auto simp: eq)
    have keep: "business_inv m1" "same_log m m1" using run_store_command_keeps [OF biz, of u b] r by auto
    have "n = put_record (new_record m1 index uterm c (store_result_bytes res)) m1"
      using a True b r res result_encodes [OF biz, of u b res m1] by (auto simp: eq split: if_splits)
    moreover have "new_record m1 = new_record m" using keep(2) by (simp add: new_record_def same_log_def fun_eq_iff)
    ultimately show ?thesis using that c keep by metis
  qed
qed

lemma next_index: "index = x + 1 \<Longrightarrow> index \<noteq> 0 \<Longrightarrow> x < (index :: u64)"
  using counter_inc(2) [of x] by (cases "x = - 1") simp_all

lemma next_le:
  assumes "x < (y :: u64)"
  shows "x + 1 \<le> y" "x + 1 \<noteq> 0"
proof -
  have "x \<noteq> - 1" using assms word_n1_ge [of y] by auto
  then show "x + 1 \<noteq> 0" by (rule counter_inc(1))
  show "x + 1 \<le> y" using assms by (rule inc_le)
qed

lemma new_record_ok:
  assumes m: "machine_inv m" and c: "index = msm_last_applied_index m + 1" "index \<noteq> 0" "uterm \<noteq> 0"
    "DecodeMetadataCommand p out = Inr c" and t: "msm_last_applied_term m \<le> uterm"
  shows "state_record_ok index uterm (mc_target_id c) (new_record m index uterm c q)"
proof -
  have v: "ValidateMetadataCommand c = OK"
    using DecodeMetadataCommand_sound [OF c(4)] by (simp add: EncodeMetadataCommand_eq split: if_splits)
  have inc: "msm_last_applied_index m < index" using next_index [OF c(1,2)] .
  show ?thesis
  proof (cases "map_find (msm_records m) (mc_target_id c)")
    case None
    have "1 \<le> index" using c(2) by (simp add: word_le_nat_alt Suc_le_eq unat_gt_0)
    then show ?thesis using v c(3) None by (simp add: state_record_ok_def new_record_def ValidateMetadataCommand_OK)
  next
    case (Some r)
    have r: "state_record_ok (msm_last_applied_index m) (msm_last_applied_term m) (mc_target_id c) r"
      using machine_invD(4) [OF m Some] .
    have "sr_generation r < index" using r inc by (auto simp: state_record_ok_def)
    then have "sr_generation r + 1 \<le> index" "sr_generation r + 1 \<noteq> 0"
      using next_le by blast+
    then show ?thesis using v c(3) Some r by (simp add: state_record_ok_def new_record_def ValidateMetadataCommand_OK)
  qed
qed

lemma state_record_ok_mono:
  "state_record_ok i t k r \<Longrightarrow> i \<le> j \<Longrightarrow> t \<le> s \<Longrightarrow> state_record_ok j s k r"
  by (auto simp: state_record_ok_def)

lemma machine_inv_apply:
  assumes m: "machine_inv m" and t: "msm_last_applied_term m \<le> uterm"
  shows "machine_inv (snd (Apply u m index uterm p))"
proof (cases "fst (Apply u m index uterm p) = OK")
  case False
  have "snd (Apply u m index uterm p) = m \<or> (\<exists>i k. snd (Apply u m index uterm p) =
      m\<lparr>msm_tasks := snd (AssignNextWaitingTasks (msm_tasks m) i k out)\<rparr>)"
    using Apply_fails [OF machine_biz [OF m], of u index uterm p] False by (metis prod.collapse)
  then show ?thesis using m task_ops_inv(3) [OF machine_invD(3) [OF m]] by (auto simp: machine_inv_def)
next
  case True
  then obtain c q m1 where c: "index = msm_last_applied_index m + 1" "index \<noteq> 0" "uterm \<noteq> 0"
      "DecodeMetadataCommand p out = Inr c" and m1: "business_inv m1" "same_log m m1"
      and n: "snd (Apply u m index uterm p) = put_record (new_record m index uterm c q) m1"
    using Apply_succeeds [OF machine_biz [OF m], of u index uterm p] by (metis prod.collapse)
  let ?r = "new_record m index uterm c q"
  have ok: "state_record_ok index uterm (mc_target_id c) ?r" using new_record_ok [OF m c t] .
  then have key: "sr_target_id ?r = mc_target_id c" by (simp add: state_record_ok_def)
  have inc: "msm_last_applied_index m \<le> index" using next_index [OF c(1,2)] by simp
  have prog: "sr_last_update_index ?r = index" "sr_last_update_term ?r = uterm" by (simp_all add: new_record_def)
  have "state_record_ok index uterm k r" if "map_find (msm_records m) k = Some r" for k r
    using machine_invD(4) [OF m that] state_record_ok_mono inc t by blast
  then show ?thesis
    using m1 ok key c(2,3) machine_invD(1) [OF m] unfolding n machine_inv_def
    by (auto simp: put_record_def business_inv_def same_log_def prog)
qed


lemma business_inv_apply:
  assumes m: "business_inv m"
  shows "business_inv (snd (Apply u m index uterm p))"
proof (cases "fst (Apply u m index uterm p) = OK")
  case False
  have "snd (Apply u m index uterm p) = m \<or> (\<exists>i k. snd (Apply u m index uterm p) =
      m\<lparr>msm_tasks := snd (AssignNextWaitingTasks (msm_tasks m) i k out)\<rparr>)"
    using Apply_fails [OF m, of u index uterm p] False by (metis prod.collapse)
  then show ?thesis using m task_ops_inv(3) by (auto simp: business_inv_def)
next
  case True
  then obtain r m1 where "business_inv m1" "snd (Apply u m index uterm p) = put_record r m1"
    using Apply_succeeds [OF m, of u index uterm p] by (metis prod.collapse)
  then show ?thesis by (simp add: business_inv_def put_record_def)
qed

section \<open>Runs\<close>

text \<open>Any calls of \<open>Apply\<close> on a new machine.\<close>

definition apply_run :: "StoreId \<Rightarrow> (LogIndex \<times> Term \<times> OpaquePayload) list \<Rightarrow> MetadataStateMachine" where
  "apply_run u calls = fold (\<lambda>(index, uterm, p) m. snd (Apply u m index uterm p)) calls MetadataStateMachine_new"

lemma apply_run_inv: "business_inv (apply_run u calls)"
proof -
  have "business_inv m \<Longrightarrow> business_inv (fold (\<lambda>(index, uterm, p) m. snd (Apply u m index uterm p)) calls m)" for m
    by (induction calls arbitrary: m) (auto intro: business_inv_apply)
  then show ?thesis by (simp add: apply_run_def machine_biz)
qed

text \<open>The entries of the log in the order in which the runtime applies them.\<close>

fun apply_log :: "StoreId \<Rightarrow> MetadataStateMachine \<Rightarrow> LogEntry list \<Rightarrow> Status list \<times> MetadataStateMachine" where
  "apply_log u m [] = ([], m)"
| "apply_log u m (e # es) =
     (case server_apply u m e of (st, n) \<Rightarrow> (case apply_log u n es of (sts, final) \<Rightarrow> (st # sts, final)))"

lemma apply_log_behind:
  assumes "\<forall>e \<in> set es. le_index e \<noteq> msm_last_applied_index m + 1"
  shows "snd (apply_log u m es) = m \<and> list_all2 (\<lambda>e st. (st = OK) = (le_type e \<noteq> COMMAND)) es (fst (apply_log u m es))"
  using assms
proof (induction es)
  case (Cons e es)
  have "snd (server_apply u m e) = m" "(fst (server_apply u m e) = OK) = (le_type e \<noteq> COMMAND)"
    using Cons.prems Apply_refused [of "le_index e" m u] by (auto simp: server_apply_def)
  then show ?case using Cons by (simp add: case_prod_beta)
qed simp

lemma server_apply_stuck:
  assumes "business_inv m" "le_type e \<noteq> COMMAND \<or> fst (server_apply u m e) \<noteq> OK"
  shows "msm_last_applied_index (snd (server_apply u m e)) = msm_last_applied_index m"
proof (cases "le_type e = COMMAND")
  case True
  then have "server_apply u m e = Apply u m (le_index e) (le_term e) (le_payload e)" by (simp add: server_apply_def)
  then show ?thesis
    using Apply_fails [OF assms(1), of u "le_index e" "le_term e" "le_payload e" "fst (server_apply u m e)"
        "snd (server_apply u m e)"] assms(2) True by auto
qed (simp add: server_apply_def)

text \<open>
  C39. An apply that fails changes nothing, with one exception: a poll whose answer would hold more
  than 4096 tasks. It reports InvalidArgument, and all these tasks are already running on the store,
  which never learns of them.
\<close>

theorem apply_failure_atomic:
  "let m = apply_run u calls
   in case Apply u m index uterm p of (st, n) \<Rightarrow>
        st = OK \<or> n = m \<or>
        st = InvalidArgument \<and> (\<exists>b. poll_too_large m p b \<and> n = m\<lparr>msm_tasks :=
          snd (AssignNextWaitingTasks (msm_tasks m) (sb_store_id b) (sb_max_tasks b) out)\<rparr>)"
  using Apply_fails [OF apply_run_inv [of u calls], where u = u and index = index and uterm = uterm and p = p]
  unfolding Let_def by (cases "Apply u (apply_run u calls) index uterm p") force

text \<open>
  C36. The machine takes the command behind the last one it applied and no other. So an entry that
  fails, or that is not a command (the server does not show the machine a membership change), is the
  last that it sees: every later command is refused, and the state stays as it is.
\<close>

theorem failed_apply_blocks:
  assumes "m = apply_run u calls"
    and "map le_index (e # es) = map (\<lambda>k. msm_last_applied_index m + 1 + word_of_nat k) [0 ..< Suc (length es)]"
    and "Suc (length es) < 2 ^ 64"
    and "le_type e \<noteq> COMMAND \<or> fst (server_apply u m e) \<noteq> OK"
  shows "let n = snd (server_apply u m e)
    in msm_last_applied_index n = msm_last_applied_index m \<and> snd (apply_log u n es) = n \<and>
       list_all2 (\<lambda>e st. (st = OK) = (le_type e \<noteq> COMMAND)) es (fst (apply_log u n es))"
proof -
  let ?n = "snd (server_apply u m e)"
  have n: "msm_last_applied_index ?n = msm_last_applied_index m"
    using server_apply_stuck [OF apply_run_inv] assms(1,4) by blast
  have "le_index (es ! k) \<noteq> msm_last_applied_index ?n + 1" if "k < length es" for k
  proof -
    have "le_index (es ! k) = map le_index (e # es) ! Suc k" using that by simp
    also have "\<dots> = msm_last_applied_index m + 1 + word_of_nat (Suc k)"
      unfolding assms(2) using that by (simp del: upt_Suc)
    finally have i: "le_index (es ! k) = msm_last_applied_index m + 1 + word_of_nat (Suc k)" .
    have "unat (word_of_nat (Suc k) :: u64) = Suc k" using that assms(3) by (simp add: unat_of_nat del: of_nat_Suc)
    then have "(word_of_nat (Suc k) :: u64) \<noteq> 0" by (metis unat_0 Zero_not_Suc)
    then show ?thesis unfolding i n by simp
  qed
  then have "\<forall>e \<in> set es. le_index e \<noteq> msm_last_applied_index ?n + 1" by (auto simp: in_set_conv_nth)
  then show ?thesis using apply_log_behind [of es ?n u] n by (simp add: Let_def)
qed

text \<open>A membership change at the first index: the command behind it is refused.\<close>

definition example_change :: LogEntry where
  "example_change = \<lparr>le_index = 1, le_term = 1, le_type = MEMBERSHIP_CHANGE, le_payload = []\<rparr>"

definition example_command :: LogEntry where
  "example_command = \<lparr>le_index = 2, le_term = 1, le_type = COMMAND, le_payload = [1]\<rparr>"

lemma failed_apply_blocks_witness:
  "snd (apply_log 0 MetadataStateMachine_new [example_change, example_command]) = MetadataStateMachine_new \<and>
   list_all2 (\<lambda>e st. (st = OK) = (le_type e \<noteq> COMMAND)) [example_change, example_command]
     (fst (apply_log 0 MetadataStateMachine_new [example_change, example_command]))"
  using failed_apply_blocks [of MetadataStateMachine_new 0 "[]" example_change "[example_command]"]
  by (simp add: apply_run_def example_change_def example_command_def MetadataStateMachine_new_def
      server_apply_def Let_def case_prod_beta)

end
