(* ===== verification/Metadata_Replica.thy ===== *)
theory Metadata_Replica
  imports Metadata_Machine Metadata_Snapshot
begin

text \<open>
  What two replicas of the metadata state machine have in common. They may differ in the heartbeats,
  which only the leader learns and no snapshot holds, and in the payloads of the records, into which
  uninitialised memory gets; everything that decides how a command is answered they share, whether a
  replica applied the log itself or started from a snapshot.
\<close>

section \<open>Replicas\<close>

definition map_values :: "('v \<Rightarrow> 'v) \<Rightarrow> ('k, 'v) std_map \<Rightarrow> ('k, 'v) std_map" where
  "map_values f m = map (\<lambda>(k, v). (k, f v)) m"

definition no_heartbeat :: "StoreInfo \<Rightarrow> StoreInfo" where
  "no_heartbeat s = s\<lparr>si_last_heartbeat_ms := 0\<rparr>"

definition forget_heartbeats :: "StoreRegistry \<Rightarrow> StoreRegistry" where
  "forget_heartbeats r = r\<lparr>sr_stores := map_values no_heartbeat (sr_stores r)\<rparr>"

definition forget_payloads :: "RecordMap \<Rightarrow> RecordMap" where
  "forget_payloads m = map_values (\<lambda>r. r\<lparr>sr_payload := []\<rparr>) m"

definition replica_view :: "MetadataStateMachine \<Rightarrow> MetadataStateMachine" where
  "replica_view m =
     m\<lparr>msm_records := forget_payloads (msm_records m), msm_stores := forget_heartbeats (msm_stores m)\<rparr>"

definition same_replica :: "MetadataStateMachine \<Rightarrow> MetadataStateMachine \<Rightarrow> bool" where
  "same_replica m n \<longleftrightarrow> replica_view m = replica_view n"

lemma same_replica_fields:
  "same_replica m n \<longleftrightarrow>
     forget_payloads (msm_records m) = forget_payloads (msm_records n) \<and>
     msm_last_applied_index m = msm_last_applied_index n \<and> msm_last_applied_term m = msm_last_applied_term n \<and>
     forget_heartbeats (msm_stores m) = forget_heartbeats (msm_stores n) \<and> msm_tasks m = msm_tasks n"
  by (cases m; cases n) (auto simp: same_replica_def replica_view_def)

lemma same_replica_trans: "same_replica m n \<Longrightarrow> same_replica n k \<Longrightarrow> same_replica m k"
  by (simp add: same_replica_def)

lemma map_values_set [simp]: "map_values f (map_set i x m) = map_set i (f x) (map_values f m)"
  by (induction i x m rule: map_set.induct) (auto simp: map_values_def)

lemma map_values_erase [simp]: "map_values f (map_erase i m) = map_erase i (map_values f m)"
  by (induction m) (auto simp: map_values_def map_erase_def map_erase_if_def)

lemma map_values_find [simp]: "map_find (map_values f m) i = map_option f (map_find m i)"
  by (induction m) (auto simp: map_values_def map_find_def)

lemma map_values_emplace [simp]: "map_values f (map_emplace i x m) = map_emplace i (f x) (map_values f m)"
  by (auto simp: map_emplace_def split: option.split)

lemma map_values_twice [simp]: "map_values f (map_values g m) = map_values (\<lambda>x. f (g x)) m"
  by (simp add: map_values_def o_def case_prod_beta')

section \<open>The registry without heartbeats\<close>

lemma no_heartbeat_sel [simp]:
  "si_id (no_heartbeat s) = si_id s" "si_address (no_heartbeat s) = si_address s"
  "si_state (no_heartbeat s) = si_state s" "si_capacity_bytes (no_heartbeat s) = si_capacity_bytes s"
  "si_used_bytes (no_heartbeat s) = si_used_bytes s" "si_generation (no_heartbeat s) = si_generation s"
  "ValidateStoreFields (no_heartbeat s) = ValidateStoreFields s" "no_heartbeat (no_heartbeat s) = no_heartbeat s"
  by (simp_all add: no_heartbeat_def)

lemma forget_heartbeats_sel [simp]:
  "sr_address_index (forget_heartbeats r) = sr_address_index r"
  "map_find (sr_stores (forget_heartbeats r)) i = map_option no_heartbeat (map_find (sr_stores r) i)"
  "forget_heartbeats (forget_heartbeats r) = forget_heartbeats r"
  by (simp_all add: forget_heartbeats_def)

lemma apply_update_no_heartbeat: "apply_update u (no_heartbeat s) = no_heartbeat (apply_update u s)"
  by (simp add: apply_update_def no_heartbeat_def Let_def split: option.split)

lemma generation_no_heartbeat: "(no_heartbeat s)\<lparr>si_generation := g\<rparr> = no_heartbeat (s\<lparr>si_generation := g\<rparr>)"
  by (simp add: no_heartbeat_def)

text \<open>The outcome of an operation, up to the heartbeat in the store it returns.\<close>

abbreviation quiet :: "(Status + StoreInfo) \<times> StoreRegistry \<Rightarrow> (Status + StoreInfo) \<times> StoreRegistry" where
  "quiet \<equiv> map_prod (map_sum (\<lambda>e. e) no_heartbeat) forget_heartbeats"

lemma RegisterStore_quiet: "quiet (RegisterStore (forget_heartbeats r) s) = quiet (RegisterStore r s)"
  by (cases r) (simp add: RegisterStore_def Let_def forget_heartbeats_def)

lemma UpdateStore_quiet: "quiet (UpdateStore (forget_heartbeats r) u) = quiet (UpdateStore r u)"
  by (cases "map_find (sr_stores r) (su_id u)")
    (simp_all add: UpdateStore_def Let_def forget_heartbeats_def apply_update_no_heartbeat generation_no_heartbeat)

lemma RemoveStore_quiet:
  "map_prod (\<lambda>s. s) forget_heartbeats (RemoveStore (forget_heartbeats r) i) =
   map_prod (\<lambda>s. s) forget_heartbeats (RemoveStore r i)"
  by (cases "map_find (sr_stores r) i") (simp_all add: RemoveStore_def forget_heartbeats_def)

lemma GetStore_quiet:
  "map_sum (\<lambda>e. e) no_heartbeat (Registry_GetStore (forget_heartbeats r) i p) =
   map_sum (\<lambda>e. e) no_heartbeat (Registry_GetStore r i p)"
  by (auto simp: Registry_GetStore_def split: option.split)


lemma fst_snd_eq: "map_prod f g p = map_prod f g q \<Longrightarrow> f (fst p) = f (fst q) \<and> g (snd p) = g (snd q)"
  by (cases p; cases q) simp

lemma registry_agree:
  assumes "forget_heartbeats r = forget_heartbeats q"
  shows "quiet (RegisterStore r s) = quiet (RegisterStore q s)" "quiet (UpdateStore r u) = quiet (UpdateStore q u)"
    "map_prod (\<lambda>s. s) forget_heartbeats (RemoveStore r i) = map_prod (\<lambda>s. s) forget_heartbeats (RemoveStore q i)"
    "map_sum (\<lambda>e. e) no_heartbeat (Registry_GetStore r i p) = map_sum (\<lambda>e. e) no_heartbeat (Registry_GetStore q i p)"
  using RegisterStore_quiet UpdateStore_quiet RemoveStore_quiet GetStore_quiet assms by metis+

section \<open>Commands\<close>

text \<open>What decides whether a result can be encoded does not depend on uninitialised memory.\<close>

lemma run_store_command_tasks:
  "map_sum (\<lambda>e. e) br_tasks (fst (run_store_command u m c)) =
     (case sb_kind c of
        REGISTER_STORE \<Rightarrow> map_sum (\<lambda>e. e) (\<lambda>_. []) (fst (RegisterStore (msm_stores m) (sb_store c)))
      | UPDATE_STORE_STATE \<Rightarrow> map_sum (\<lambda>e. e) (\<lambda>_. []) (fst (UpdateStore (msm_stores m) (sb_update c)))
      | REMOVE_STORE \<Rightarrow>
          (case Registry_GetStore (msm_stores m) (sb_store_id c) out of
             Inl e \<Rightarrow> Inl e
           | Inr s \<Rightarrow> if su_expected_generation (sb_update c) \<notin> {None, Some (si_generation s)} then Inl Busy
                    else if fst (RemoveStore (msm_stores m) (sb_store_id c)) \<noteq> OK
                      then Inl (fst (RemoveStore (msm_stores m) (sb_store_id c)))
                    else Inr [])
      | CREATE_TASK \<Rightarrow> map_sum (\<lambda>e. e) (\<lambda>t. [t]) (fst (CreateTask (msm_tasks m) (sb_task_create c)))
      | POLL_TASKS \<Rightarrow> fst (AssignNextWaitingTasks (msm_tasks m) (sb_store_id c) (sb_max_tasks c) out)
      | REPORT_TASK_RESULT \<Rightarrow> map_sum (\<lambda>e. e) (\<lambda>t. [t]) (fst (CompleteTask (msm_tasks m) (sb_task_result c)))
      | CommandKind_other _ \<Rightarrow> Inr [])"
  by (cases "sb_kind c")
    (simp_all add: run_store_command_def Let_def case_prod_beta StoreBusinessResult_default_def sum.map_comp o_def
      sum.map_ident split: sum.split)

lemma sum_unit_view:
  "map_sum (\<lambda>e. e) f x = map_sum (\<lambda>e. e) f y \<Longrightarrow> map_sum (\<lambda>e. e) (\<lambda>_. c) x = map_sum (\<lambda>e. e) (\<lambda>_. c) y"
  by (cases x; cases y) simp_all

lemma run_store_command_agree:
  assumes same: "same_replica m n"
  shows "map_sum (\<lambda>e. e) br_tasks (fst (run_store_command u m c)) = map_sum (\<lambda>e. e) br_tasks (fst (run_store_command v n c))"
    and "same_replica (snd (run_store_command u m c)) (snd (run_store_command v n c))"
proof -
  have f: "forget_heartbeats (msm_stores m) = forget_heartbeats (msm_stores n)" and t: "msm_tasks m = msm_tasks n"
    using same by (simp_all add: same_replica_fields)
  note reg = registry_agree(1) [OF f, THEN fst_snd_eq] registry_agree(2) [OF f, THEN fst_snd_eq]
    registry_agree(3) [OF f, THEN fst_snd_eq]
  have get: "(\<exists>e. Registry_GetStore (msm_stores m) i out = Inl e \<and> Registry_GetStore (msm_stores n) i out = Inl e) \<or>
      (\<exists>s s'. Registry_GetStore (msm_stores m) i out = Inr s \<and> Registry_GetStore (msm_stores n) i out = Inr s' \<and>
        si_generation s = si_generation s')" for i
    using registry_agree(4) [OF f, of i out]
    by (cases "Registry_GetStore (msm_stores m) i out"; cases "Registry_GetStore (msm_stores n) i out")
      (auto dest: arg_cong [of _ _ si_generation])
  have remove: "fst (RemoveStore (msm_stores m) i) = fst (RemoveStore (msm_stores n) i)" for i
    using reg(3) by blast
  show "map_sum (\<lambda>e. e) br_tasks (fst (run_store_command u m c)) = map_sum (\<lambda>e. e) br_tasks (fst (run_store_command v n c))"
  proof (cases "sb_kind c")
    case REGISTER_STORE
    then show ?thesis by (simp add: run_store_command_tasks sum_unit_view [OF conjunct1 [OF reg(1)]])
  next
    case UPDATE_STORE_STATE
    then show ?thesis by (simp add: run_store_command_tasks sum_unit_view [OF conjunct1 [OF reg(2)]])
  next
    case REMOVE_STORE
    then show ?thesis unfolding run_store_command_tasks using get [of "sb_store_id c"] remove by auto
  qed (simp_all add: run_store_command_tasks t)
  show "same_replica (snd (run_store_command u m c)) (snd (run_store_command v n c))"
  proof (cases "sb_kind c")
    case REMOVE_STORE
    then show ?thesis
      using get [of "sb_store_id c"] same reg(3) [of "sb_store_id c"]
      by (auto simp: run_store_command_state same_replica_fields)
  qed (use same reg(1,2) t in \<open>simp_all add: run_store_command_state same_replica_fields\<close>)
qed

section \<open>Applying the log\<close>

lemma find_without_payload:
  assumes "forget_payloads a = forget_payloads b"
  shows "map_option sr_generation (map_find a k) = map_option sr_generation (map_find b k)"
    "map_option sr_target_id (map_find a k) = map_option sr_target_id (map_find b k)"
proof -
  have "map_option (\<lambda>r. r\<lparr>sr_payload := []\<rparr>) (map_find a k) = map_option (\<lambda>r. r\<lparr>sr_payload := []\<rparr>) (map_find b k)"
    using arg_cong [OF assms, of "\<lambda>m. map_find m k"] by (simp add: forget_payloads_def)
  then show "map_option sr_generation (map_find a k) = map_option sr_generation (map_find b k)"
    "map_option sr_target_id (map_find a k) = map_option sr_target_id (map_find b k)"
    by (cases "map_find a k"; cases "map_find b k"; auto dest: arg_cong [of _ _ sr_generation] arg_cong [of _ _ sr_target_id])+
qed

lemma put_record_agree:
  assumes "same_replica m n" "sr_target_id r = sr_target_id s" "r\<lparr>sr_payload := []\<rparr> = s\<lparr>sr_payload := []\<rparr>"
  shows "same_replica (put_record r m) (put_record s n)"
  using assms by (cases r; cases s) (simp add: same_replica_fields put_record_def forget_payloads_def)

lemma new_record_agree:
  assumes "same_replica m n"
  shows "(new_record m index uterm c p)\<lparr>sr_payload := []\<rparr> = (new_record n index uterm c q)\<lparr>sr_payload := []\<rparr>"
    "sr_target_id (new_record m index uterm c p) = sr_target_id (new_record n index uterm c q)"
  using find_without_payload [of "msm_records m" "msm_records n" "mc_target_id c"] assms
  by (cases "map_find (msm_records m) (mc_target_id c)"; cases "map_find (msm_records n) (mc_target_id c)";
      simp add: new_record_def same_replica_fields)+


lemma Apply_agree:
  assumes same: "same_replica m n" and inv: "business_inv m" "business_inv n"
  shows "fst (Apply u m index uterm p) = fst (Apply v n index uterm p)"
    and "same_replica (snd (Apply u m index uterm p)) (snd (Apply v n index uterm p))"
proof -
  have i: "msm_last_applied_index m = msm_last_applied_index n" using same by (simp add: same_replica_fields)
  have "fst (Apply u m index uterm p) = fst (Apply v n index uterm p) \<and>
    same_replica (snd (Apply u m index uterm p)) (snd (Apply v n index uterm p))"
  proof (cases "\<exists>c. index = msm_last_applied_index m + 1 \<and> index \<noteq> 0 \<and> uterm \<noteq> 0 \<and> DecodeMetadataCommand p out = Inr c")
    case False
    then have "fst (Apply u m index uterm p) = fst (Apply v n index uterm p) \<and>
        snd (Apply u m index uterm p) = m \<and> snd (Apply v n index uterm p) = n"
      using i by (cases "DecodeMetadataCommand p out") (auto simp: Apply_def Let_def)
    then show ?thesis using same by simp
  next
    case True
    then obtain c where c: "index = msm_last_applied_index m + 1" "index \<noteq> 0" "uterm \<noteq> 0"
      "DecodeMetadataCommand p out = Inr c" by blast
    note m = Apply_next [OF c, of u]
    note n = Apply_next [OF c(1) [unfolded i] c(2-4), of v]
    note put = put_record_agree [OF _ new_record_agree(2) new_record_agree(1)]
    show ?thesis
    proof (cases "mc_type c = STORE_OPERATION")
      case False
      let ?g = "\<lambda>k. mc_expected_generation c \<noteq> None \<and>
        mc_expected_generation c \<noteq> map_option sr_generation (map_find (msm_records k) (mc_target_id c))"
      have gen: "map_option sr_generation (map_find (msm_records m) (mc_target_id c)) =
          map_option sr_generation (map_find (msm_records n) (mc_target_id c))"
        by (rule find_without_payload(1)) (use same in \<open>simp add: same_replica_fields\<close>)
      then have none: "map_find (msm_records m) (mc_target_id c) = None \<longleftrightarrow> map_find (msm_records n) (mc_target_id c) = None"
        by (metis option.map_disc_iff)
      have am: "Apply u m index uterm p = (if ?g m then ((if map_find (msm_records m) (mc_target_id c) = None then NotFound else Busy), m)
          else (OK, put_record (new_record m index uterm c (mc_payload c)) m))"
        using False by (simp only: m if_False)
      have an: "Apply v n index uterm p = (if ?g m then ((if map_find (msm_records m) (mc_target_id c) = None then NotFound else Busy), n)
          else (OK, put_record (new_record n index uterm c (mc_payload c)) n))"
        using False by (simp only: n if_False gen none)
      show ?thesis
        unfolding am an using put [OF same same same, of index uterm c "mc_payload c" "mc_payload c"] same
        by (cases "?g m") (simp_all only: if_True if_False fst_conv snd_conv simp_thms)
    next
      case True
      show ?thesis
      proof (cases "DecodeStoreBusinessCommand (mc_payload c) out")
        case (Inl e)
        then show ?thesis using True same by (simp add: m n)
      next
        case (Inr b)
        obtain o1 m1 where r1: "run_store_command u m b = (o1, m1)" by fastforce
        obtain o2 n1 where r2: "run_store_command v n b = (o2, n1)" by fastforce
        have tasks: "map_sum (\<lambda>e. e) br_tasks o1 = map_sum (\<lambda>e. e) br_tasks o2" and after: "same_replica m1 n1"
          using run_store_command_agree [OF same, of u b v] r1 r2 by simp_all
        show ?thesis
        proof (cases o1)
          case (Inl e)
          then have "o2 = Inl e" using tasks by (cases o2) auto
          then show ?thesis using True Inl \<open>DecodeStoreBusinessCommand (mc_payload c) out = Inr b\<close> r1 r2 after by (simp add: m n)
        next
          case (Inr res)
          then obtain res2 where res2: "o2 = Inr res2" "br_tasks res = br_tasks res2" using tasks by (cases o2) auto
          show ?thesis
            using True Inr res2 \<open>DecodeStoreBusinessCommand (mc_payload c) out = Inr b\<close> r1 r2 after put
              result_encodes [OF inv(1), of u b res m1] result_encodes [OF inv(2), of v b res2 n1]
            by (simp add: m n)
        qed
      qed
    qed
  qed
  then show "fst (Apply u m index uterm p) = fst (Apply v n index uterm p)"
    "same_replica (snd (Apply u m index uterm p)) (snd (Apply v n index uterm p))" by blast+
qed

lemma server_apply_agree:
  assumes "same_replica m n" "business_inv m" "business_inv n"
  shows "fst (server_apply u m e) = fst (server_apply v n e)"
    and "same_replica (snd (server_apply u m e)) (snd (server_apply v n e))"
  using Apply_agree [OF assms] assms(1) by (simp_all add: server_apply_def)

lemma apply_log_agree:
  assumes "same_replica m n" "business_inv m" "business_inv n"
  shows "fst (apply_log u m es) = fst (apply_log v n es) \<and>
    same_replica (snd (apply_log u m es)) (snd (apply_log v n es))"
  using assms
proof (induction es arbitrary: m n)
  case (Cons e es)
  have "business_inv (snd (server_apply u m e))" "business_inv (snd (server_apply v n e))"
    using Cons.prems(2,3) business_inv_apply by (simp_all add: server_apply_def)
  then show ?case
    using Cons.IH server_apply_agree [OF Cons.prems, of u e v] by (simp add: case_prod_beta)
qed simp

end
