(* ===== verification/Metadata_Restore.thy ===== *)
theory Metadata_Restore
  imports Metadata_Replica
begin

text \<open>
  Snapshots of the metadata state machine: what \<open>CreateSnapshot\<close> writes, that \<open>RestoreSnapshot\<close>
  gives it back, and that a replica that starts from a snapshot answers like the one that wrote it.
\<close>

section \<open>The second copy of the byte helpers\<close>

lemma meta_append [simp]:
  "Meta_AppendU8 v p = p @ [v]" "Meta_AppendU16 w p = p @ be 2 w" "Meta_AppendU32 x p = p @ be 4 x"
  "Meta_AppendU64 y p = p @ be 8 y" "Meta_AppendString s p = p @ map byte_of_char s" "Meta_AppendBytes b p = p @ b"
  by (simp_all only: Meta_AppendU8_def Meta_AppendU16_def Meta_AppendU32_def Meta_AppendU64_def
      Meta_AppendString_def Meta_AppendBytes_def be_2 be_4 be_8)

lemma meta_read:
  "Meta_ReadU8 = Cmd_ReadU8" "Meta_ReadU16 = Cmd_ReadU16" "Meta_ReadU32 = Cmd_ReadU32"
  "Meta_ReadU64 = Cmd_ReadU64" "Meta_ReadString = Cmd_ReadString" "Meta_ReadPayload = Cmd_ReadPayload"
  by (simp_all add: fun_eq_iff Meta_ReadU8_def Meta_ReadU16_def Meta_ReadU32_def Meta_ReadU64_def
      Meta_ReadString_def Meta_ReadPayload_def Cmd_ReadU8_def Cmd_ReadU16_def Cmd_ReadU32_def Cmd_ReadU64_def
      Cmd_ReadString_def Cmd_ReadPayload_def)

lemma string_field:
  "and_then (Cmd_ReadU32 d) (\<lambda>(len, d1). and_then (Cmd_ReadString (unat len) m d1) f) = and_then (ReadStringField m d) f"
  by (cases "Cmd_ReadU32 d") (auto simp: ReadStringField_def)

lemma payload_field:
  "and_then (Cmd_ReadU32 d) (\<lambda>(len, d1). and_then (Cmd_ReadPayload (unat len) kMaxMetadataCommandPayloadBytes d1) f) =
   and_then (ReadPayloadField d) f"
  by (cases "Cmd_ReadU32 d") (auto simp: ReadPayloadField_def)

section \<open>Stores and tasks\<close>

lemma AppendSnapshotString_eq:
  "AppendSnapshotString s p =
     (if length s \<le> kMaxMetadataCommandTargetBytes then Inr (p @ string_bytes s) else Inl Corruption)"
  by (simp add: AppendSnapshotString_def ValidateSnapshotLength_def string_bytes_def length_bytes_def)

lemma AppendSnapshotPayload_eq:
  "AppendSnapshotPayload b p =
     (if length b \<le> kMaxMetadataCommandPayloadBytes then Inr (p @ payload_bytes b) else Inl Corruption)"
  by (simp add: AppendSnapshotPayload_def ValidateSnapshotLength_def payload_bytes_def length_bytes_def)

definition persistent_bytes :: "PersistentStoreInfo \<Rightarrow> bytes" where
  "persistent_bytes s =
     be 8 (ps_id s) @ be 8 (ps_capacity_bytes s) @ be 8 (ps_used_bytes s) @ [EncodeStoreState (ps_state s)] @
     be 8 (ps_generation s) @ be 2 (sa_port (ps_address s)) @ string_bytes (sa_host (ps_address s))"

definition persistent_normal :: "PersistentStoreInfo \<Rightarrow> bool" where
  "persistent_normal s \<longleftrightarrow>
     length (sa_host (ps_address s)) \<le> kMaxMetadataCommandTargetBytes \<and>
     DecodeStoreState (EncodeStoreState (ps_state s)) = ps_state s"

interpretation mstore: parser persistent_bytes ReadPersistentStore persistent_normal
proof
  show "ReadPersistentStore d = Inr (s, rest) \<longleftrightarrow> persistent_normal s \<and> d = persistent_bytes s @ rest" for d s rest
  proof
    assume "ReadPersistentStore d = Inr (s, rest)"
    then show "persistent_normal s \<and> d = persistent_bytes s @ rest"
      by (auto simp: ReadPersistentStore_def meta_read string_field then_iff persistent_normal_def persistent_bytes_def)
  next
    assume "persistent_normal s \<and> d = persistent_bytes s @ rest"
    then show "ReadPersistentStore d = Inr (s, rest)"
      by (simp add: ReadPersistentStore_def meta_read string_field persistent_normal_def persistent_bytes_def put_simps)
  qed
qed

lemma Meta_ReadTaskRecord_eq: "Meta_ReadTaskRecord = ReadTaskRecord"
  by (simp add: fun_eq_iff Meta_ReadTaskRecord_def ReadTaskRecord_def meta_read string_field payload_field)

lemma AppendPersistentStore_eq:
  "persistent_normal s \<Longrightarrow> AppendPersistentStore s p = Inr (p @ persistent_bytes s)"
  by (simp add: AppendPersistentStore_def AppendStoreState_def AppendSnapshotString_eq persistent_normal_def
      persistent_bytes_def)

lemma Meta_AppendTaskRecord_eq: "task_normal t \<Longrightarrow> Meta_AppendTaskRecord t p = Inr (p @ task_bytes t)"
  by (simp add: Meta_AppendTaskRecord_def AppendTaskType_def AppendTaskState_def AppendSnapshotString_eq
      AppendSnapshotPayload_eq task_normal_def task_writable_def task_bytes_def id_limit)

lemma append_all_eq:
  assumes "\<forall>x \<in> set xs. \<forall>p. put x p = Inr (p @ f x)"
  shows "append_all put xs p = Inr (p @ concat (map f xs))"
  using assms by (induction xs arbitrary: p) auto

section \<open>Records\<close>

definition record_bytes :: "MetadataStateRecord \<Rightarrow> bytes" where
  "record_bytes r =
     length_bytes (length (sr_target_id r)) @ length_bytes (length (sr_payload r)) @
     length_bytes (length (sr_last_command_id r)) @ be 8 (sr_generation r) @ be 8 (sr_last_update_index r) @
     be 8 (sr_last_update_term r) @ map byte_of_char (sr_target_id r) @ sr_payload r @
     map byte_of_char (sr_last_command_id r)"

lemma append_records_eq:
  "append_records rs index uterm p =
     (if \<forall>r \<in> set rs. ValidateSnapshotRecord r index uterm = OK then Inr (p @ concat (map record_bytes rs))
      else Inl Corruption)"
proof (induction rs arbitrary: p)
  case (Cons r rs)
  have "ValidateSnapshotRecord r index uterm = OK \<or> ValidateSnapshotRecord r index uterm = Corruption"
    by (simp add: ValidateSnapshotRecord_def ValidateSnapshotLength_def)
  then show ?case by (auto simp: Cons record_bytes_def [of r] length_bytes_def)
qed simp

lemma snapshot_record_lengths:
  assumes "ValidateSnapshotRecord r index uterm = OK"
  shows "length (sr_target_id r) \<le> kMaxMetadataCommandTargetBytes"
    "length (sr_payload r) \<le> kMaxMetadataCommandPayloadBytes"
    "length (sr_last_command_id r) \<le> kMaxMetadataCommandIdBytes"
  using assms by (simp_all add: ValidateSnapshotRecord_def ValidateSnapshotLength_def split: if_splits)

lemma read_record_bytes:
  assumes "ValidateSnapshotRecord r index uterm = OK"
  shows "read_record index uterm (record_bytes r @ rest) = Inr (r, rest)"
proof -
  note len = snapshot_record_lengths [OF assms]
  have "unat (word_of_nat (length (sr_target_id r)) :: u32) = length (sr_target_id r)"
    "unat (word_of_nat (length (sr_payload r)) :: u32) = length (sr_payload r)"
    "unat (word_of_nat (length (sr_last_command_id r)) :: u32) = length (sr_last_command_id r)"
    using len by (auto intro!: unat_length simp: command_limits)
  then show ?thesis
    using assms len
    by (cases r) (simp add: read_record_def record_bytes_def length_bytes_def meta_read put_simps string_put payload_put Let_def)
qed

lemma read_records_bytes:
  assumes "\<forall>r \<in> set rs. ValidateSnapshotRecord r index uterm = OK"
    and "distinct (map sr_target_id rs)" "\<forall>r \<in> set rs. map_find restored (sr_target_id r) = None"
  shows "read_records index uterm (length rs) restored (concat (map record_bytes rs) @ rest) =
    Inr (fold (\<lambda>r. map_emplace (sr_target_id r) r) rs restored, rest)"
  using assms
proof (induction rs arbitrary: restored)
  case (Cons r rs)
  then have "map_find (map_emplace (sr_target_id r) r restored) (sr_target_id s) = None" if "s \<in> set rs" for s
    using that by (auto simp: image_iff)
  then show ?case using Cons by (simp add: read_record_bytes)
qed simp


section \<open>Snapshots\<close>

definition snapshot_bytes :: "MetadataStateMachine \<Rightarrow> bytes" where
  "snapshot_bytes m =
     [kMetadataSnapshotFormatVersion] @ length_bytes (length (msm_records m)) @
     be 8 (msm_last_applied_index m) @ be 8 (msm_last_applied_term m) @
     concat (map record_bytes (map snd (msm_records m))) @
     length_bytes (length (sr_stores (msm_stores m))) @
     concat (map persistent_bytes (map (\<lambda>item. ToPersistent (snd item)) (sr_stores (msm_stores m)))) @
     length_bytes (length (tm_tasks (msm_tasks m))) @
     concat (map task_bytes (SortedTasks (tm_tasks (msm_tasks m))))"

text \<open>When a snapshot can be taken.\<close>

definition snapshot_fits :: "MetadataStateMachine \<Rightarrow> bool" where
  "snapshot_fits m \<longleftrightarrow>
     (\<forall>r \<in> set (map snd (msm_records m)). length (sr_payload r) \<le> kMaxMetadataCommandPayloadBytes) \<and>
     length (sr_stores (msm_stores m)) \<le> kMaxMetadataSnapshotStores \<and>
     length (tm_tasks (msm_tasks m)) \<le> kMaxMetadataSnapshotTasks"

lemma map_values_mem: "map_wf m \<Longrightarrow> v \<in> set (map snd m) \<longleftrightarrow> (\<exists>k. map_find m k = Some v)"
  using map_find_mem [of m] by auto (metis snd_conv image_eqI)

lemma record_valid:
  assumes m: "machine_inv m" and r: "r \<in> set (map snd (msm_records m))"
  shows "ValidateSnapshotRecord r (msm_last_applied_index m) (msm_last_applied_term m) =
    (if length (sr_payload r) \<le> kMaxMetadataCommandPayloadBytes then OK else Corruption)"
proof -
  obtain k where "map_find (msm_records m) k = Some r"
    using r map_values_mem [OF machine_invD(1) [OF m]] by blast
  from machine_invD(4) [OF m this] show ?thesis
    by (auto simp: state_record_ok_def ValidateSnapshotRecord_def ValidateSnapshotLength_def)
qed

lemma store_persistent_normal:
  assumes r: "registry_inv r" and s: "s \<in> set (map (\<lambda>item. ToPersistent (snd item)) (sr_stores r))"
  shows "persistent_normal s"
proof -
  obtain t where t: "t \<in> set (map snd (sr_stores r))" "s = ToPersistent t" using s by auto
  then obtain i where "map_find (sr_stores r) i = Some t" using map_values_mem [OF registry_invD(1) [OF r]] by blast
  then show ?thesis
    using store_fields_writable registry_invD(4) [OF r] t(2) by (simp add: persistent_normal_def ToPersistent_def)
qed

lemma sorted_task_normal:
  assumes t: "tasks_inv t" and x: "x \<in> set (SortedTasks (tm_tasks t))"
  shows "task_normal x"
  using x all_tasks_set [OF t, of x] tasks_invD(3) [OF t] record_inv_writable by (auto simp: SortedTasks_def)

lemma length_SortedTasks [simp]: "length (SortedTasks ts) = length ts"
  by (simp add: SortedTasks_def)

lemma CreateSnapshot_eq:
  assumes m: "machine_inv m"
  shows "CreateSnapshot m (msm_last_applied_index m) (msm_last_applied_term m) out =
    (if snapshot_fits m then Inr (snapshot_bytes m)
     else if \<forall>r \<in> set (map snd (msm_records m)). length (sr_payload r) \<le> kMaxMetadataCommandPayloadBytes
       then Inl Busy else Inl Corruption)"
proof -
  have r: "(\<forall>r \<in> set (map snd (msm_records m)).
        ValidateSnapshotRecord r (msm_last_applied_index m) (msm_last_applied_term m) = OK) \<longleftrightarrow>
      (\<forall>r \<in> set (map snd (msm_records m)). length (sr_payload r) \<le> kMaxMetadataCommandPayloadBytes)"
    by (rule ball_cong [OF refl]) (simp add: record_valid [OF m])
  have s: "append_all AppendPersistentStore (map (\<lambda>item. ToPersistent (snd item)) (sr_stores (msm_stores m))) p =
      Inr (p @ concat (map persistent_bytes (map (\<lambda>item. ToPersistent (snd item)) (sr_stores (msm_stores m)))))" for p
    using store_persistent_normal [OF machine_invD(2) [OF m]] AppendPersistentStore_eq by (intro append_all_eq) blast
  have t: "append_all Meta_AppendTaskRecord (SortedTasks (tm_tasks (msm_tasks m))) p =
      Inr (p @ concat (map task_bytes (SortedTasks (tm_tasks (msm_tasks m)))))" for p
    using sorted_task_normal [OF machine_invD(3) [OF m]] Meta_AppendTaskRecord_eq by (intro append_all_eq) blast
  show ?thesis
    unfolding CreateSnapshot_def Registry_ExportPersistent_def Tasks_ExportPersistent_def Tasks_ListTasks_def
      append_records_eq r
    by (simp add: s t snapshot_fits_def snapshot_bytes_def length_bytes_def del: map_map set_map)
qed


lemma records_fold_wf: "map_wf m \<Longrightarrow> map_wf (fold (\<lambda>r. map_emplace (f r) r) rs m)"
  by (induction rs arbitrary: m) auto

lemma records_fold_find:
  "map_find (fold (\<lambda>r. map_emplace (f r) r) rs m) k =
     (case map_find m k of Some x \<Rightarrow> Some x | None \<Rightarrow> map_of (map (\<lambda>r. (f r, r)) rs) k)"
  by (induction rs arbitrary: m) (auto split: option.split)

lemma keyed_records:
  assumes "\<And>k r. map_find m k = Some r \<Longrightarrow> f r = k" "map_wf m"
  shows "map (\<lambda>r. (f r, r)) (map snd m) = m"
  using assms(1) map_find_mem [OF assms(2)] by (auto intro!: map_idI)

lemma rebuild_records:
  assumes m: "machine_inv m"
  shows "fold (\<lambda>r. map_emplace (sr_target_id r) r) (map snd (msm_records m)) [] = msm_records m"
    and "distinct (map sr_target_id (map snd (msm_records m)))"
proof -
  have keyed: "map (\<lambda>r. (sr_target_id r, r)) (map snd (msm_records m)) = msm_records m"
    using machine_invD(4) [OF m] by (intro keyed_records machine_invD(1) [OF m]) (auto simp: state_record_ok_def)
  show "fold (\<lambda>r. map_emplace (sr_target_id r) r) (map snd (msm_records m)) [] = msm_records m"
    by (rule map_wf_ext [OF records_fold_wf machine_invD(1) [OF m]])
      (simp_all only: map_wf_Nil records_fold_find keyed map_find_Nil option.case map_find_def [symmetric])
  have "map sr_target_id (map snd (msm_records m)) = map fst (msm_records m)"
    using arg_cong [OF keyed, of "map fst"] by (simp add: o_def)
  then show "distinct (map sr_target_id (map snd (msm_records m)))"
    using machine_invD(1) [OF m] by (simp only: map_wf_def strict_sorted_iff)
qed

lemma unat_count: "n < 2 ^ 32 \<Longrightarrow> unat (word_of_nat n :: u32) = n"
  by (simp add: unat_of_nat)

lemma read_snapshot_bytes:
  assumes m: "machine_inv m" and fits: "snapshot_fits m" and n: "length (msm_records m) < 2 ^ 32"
  shows "read_snapshot (snapshot_bytes m) =
    (if length (msm_records m) \<le> kMaxMetadataSnapshotRecords
     then Inr (msm_records m, msm_last_applied_index m, msm_last_applied_term m,
       map (\<lambda>item. ToPersistent (snd item)) (sr_stores (msm_stores m)), SortedTasks (tm_tasks (msm_tasks m)))
     else Inl Corruption)"
proof -
  have progress: "ValidateProgress (msm_last_applied_index m) (msm_last_applied_term m) = OK"
    using machine_invD(5) [OF m] by (simp add: ValidateProgress_def)
  have valid: "\<forall>r \<in> set (map snd (msm_records m)).
      ValidateSnapshotRecord r (msm_last_applied_index m) (msm_last_applied_term m) = OK"
    using record_valid [OF m] fits by (simp add: snapshot_fits_def)
  note records = read_records_bytes [OF valid rebuild_records(2) [OF m], of "[]", simplified map_find_Nil length_map rebuild_records(1) [OF m], OF ballI [OF refl]]
  have stores: "parse_many ReadPersistentStore (length (sr_stores (msm_stores m)))
      (concat (map persistent_bytes (map (\<lambda>item. ToPersistent (snd item)) (sr_stores (msm_stores m)))) @ rest) =
      Inr (map (\<lambda>item. ToPersistent (snd item)) (sr_stores (msm_stores m)), rest)" for rest
    using store_persistent_normal [OF machine_invD(2) [OF m]] unfolding mstore.parse_many_iff by simp
  have tasks: "parse_many Meta_ReadTaskRecord (length (tm_tasks (msm_tasks m)))
      (concat (map task_bytes (SortedTasks (tm_tasks (msm_tasks m)))) @ rest) =
      Inr (SortedTasks (tm_tasks (msm_tasks m)), rest)" for rest
    using sorted_task_normal [OF machine_invD(3) [OF m]]
    unfolding Meta_ReadTaskRecord_eq ctask.parse_many_iff by simp
  have counts: "length (sr_stores (msm_stores m)) \<le> kMaxMetadataSnapshotStores"
    "length (tm_tasks (msm_tasks m)) \<le> kMaxMetadataSnapshotTasks"
    using fits by (simp_all add: snapshot_fits_def)
  then have "length (sr_stores (msm_stores m)) < 2 ^ 32" "length (tm_tasks (msm_tasks m)) < 2 ^ 32"
    by (simp_all add: snapshot_limits)
  note u = unat_count [OF n] unat_count [OF this(1)] unat_count [OF this(2)]
  show ?thesis
    using counts tasks [of "[]"]
    by (simp add: read_snapshot_def snapshot_bytes_def length_bytes_def meta_read put_simps progress u records stores
        del: map_map)
qed


lemma restored_registry:
  assumes r: "registry_inv r"
  shows "Registry_RestorePersistent any (map (\<lambda>item. ToPersistent (snd item)) (sr_stores r)) = (OK, forget_heartbeats r)"
    and "registry_inv (forget_heartbeats r)"
proof -
  obtain r' where r': "Registry_RestorePersistent any (map (\<lambda>item. ToPersistent (snd item)) (sr_stores r)) = (OK, r')"
    "registry_inv r'" "sr_address_index r' = sr_address_index r"
    "abs_registry r' = (\<lambda>i. map_option (\<lambda>s. s\<lparr>si_last_heartbeat_ms := 0\<rparr>) (abs_registry r i))"
    using registry_roundtrip [OF r, of any] by (auto simp: Registry_ExportPersistent_def)
  have "map_wf (map_values no_heartbeat (sr_stores r))"
    using registry_invD(1) [OF r] by (simp add: map_values_def map_wf_map_values)
  moreover have "(\<lambda>s. s\<lparr>si_last_heartbeat_ms := 0\<rparr>) = no_heartbeat" by (simp add: fun_eq_iff no_heartbeat_def)
  ultimately have "sr_stores r' = map_values no_heartbeat (sr_stores r)"
    using r'(4) by (intro map_wf_ext registry_invD(1) [OF r'(2)]) (simp_all add: abs_registry_def fun_eq_iff)
  then have "r' = forget_heartbeats r" using r'(3) by (cases r'; cases r) (simp add: forget_heartbeats_def)
  then show "Registry_RestorePersistent any (map (\<lambda>item. ToPersistent (snd item)) (sr_stores r)) = (OK, forget_heartbeats r)"
    "registry_inv (forget_heartbeats r)" using r'(1,2) by simp_all
qed

lemma RestoreSnapshot_bytes:
  assumes "machine_inv m" "snapshot_fits m" "length (msm_records m) < 2 ^ 32"
  shows "RestoreSnapshot any (snapshot_bytes m) =
    (if length (msm_records m) \<le> kMaxMetadataSnapshotRecords
     then (OK, m\<lparr>msm_stores := forget_heartbeats (msm_stores m)\<rparr>) else (Corruption, any))"
proof (cases "length (msm_records m) \<le> kMaxMetadataSnapshotRecords")
  case True
  have tasks: "Tasks_RestorePersistent any (SortedTasks (tm_tasks (msm_tasks m))) = (OK, msm_tasks m)" for any
    using tasks_roundtrip [OF machine_invD(3) [OF assms(1)]] by blast
  show ?thesis
    using True restored_registry(1) [OF machine_invD(2) [OF assms(1)]] tasks
    by (cases any) (simp add: RestoreSnapshot_def read_snapshot_bytes [OF assms] Let_def del: map_map)
next
  case False
  then show ?thesis by (simp add: RestoreSnapshot_def read_snapshot_bytes [OF assms])
qed

text \<open>A restore changes everything or nothing.\<close>

lemma RestorePersistent_any:
  "fst (Registry_RestorePersistent r stores) = fst (Registry_RestorePersistent q stores)"
  "fst (Tasks_RestorePersistent t tasks) = fst (Tasks_RestorePersistent s tasks)"
  by (simp_all add: Registry_RestorePersistent_def Tasks_RestorePersistent_def split: sum.split)

lemma RestoreSnapshot_fails:
  assumes "fst (RestoreSnapshot m p) \<noteq> OK"
  shows "snd (RestoreSnapshot m p) = m"
proof (cases "read_snapshot p")
  case (Inl e)
  then show ?thesis by (simp add: RestoreSnapshot_def)
next
  case (Inr x)
  obtain records index uterm stores tasks where x: "x = (records, index, uterm, stores, tasks)" by (cases x) auto
  show ?thesis
    using assms RestorePersistent_any(1) [of StoreRegistry_new stores "msm_stores m"]
      RestorePersistent_any(2) [of TaskManager_new tasks "msm_tasks m"]
    by (auto simp: RestoreSnapshot_def Inr x Let_def split: prod.splits if_splits)
qed

section \<open>Properties\<close>

text \<open>The progress after an apply.\<close>

lemma Apply_progress:
  assumes "business_inv m"
  shows "msm_last_applied_term (snd (Apply u m index uterm p)) =
    (if fst (Apply u m index uterm p) = OK then uterm else msm_last_applied_term m)"
proof (cases "fst (Apply u m index uterm p) = OK")
  case True
  obtain c q m1 where "snd (Apply u m index uterm p) = put_record (new_record m index uterm c q) m1"
    using Apply_succeeds [OF assms, of u index uterm p "snd (Apply u m index uterm p)"] True by (metis prod.collapse)
  then show ?thesis using True by (simp add: put_record_def new_record_def)
next
  case False
  then show ?thesis
    using Apply_fails [OF assms, of u index uterm p "fst (Apply u m index uterm p)" "snd (Apply u m index uterm p)"]
    by auto
qed

text \<open>The terms of a log do not decrease.\<close>

definition terms_ordered :: "Term \<Rightarrow> LogEntry list \<Rightarrow> bool" where
  "terms_ordered t es \<longleftrightarrow> sorted (t # map le_term es)"

lemma apply_log_inv:
  assumes "machine_inv m" "terms_ordered (msm_last_applied_term m) es"
  shows "machine_inv (snd (apply_log u m es))"
  using assms
proof (induction es arbitrary: m)
  case (Cons e es)
  let ?n = "snd (server_apply u m e)"
  have "machine_inv ?n"
    using Cons.prems machine_inv_apply by (auto simp: server_apply_def terms_ordered_def)
  moreover have "msm_last_applied_term ?n \<in> {msm_last_applied_term m, le_term e}"
    using Apply_progress [OF machine_biz [OF Cons.prems(1)]] by (simp add: server_apply_def)
  then have "terms_ordered (msm_last_applied_term ?n) es"
    using Cons.prems(2) by (auto simp: terms_ordered_def)
  ultimately show ?case using Cons.IH by (simp add: case_prod_beta)
qed simp

lemma apply_log_new_inv:
  assumes "terms_ordered kInitialTerm es"
  shows "machine_inv (snd (apply_log u MetadataStateMachine_new es))"
  using assms by (intro apply_log_inv machine_inv_new) (simp add: MetadataStateMachine_new_def)

text \<open>
  C35. Replicas that apply the same log give every entry the same status and reach the same state,
  except for the payloads of the records: this holds whatever the uninitialised memory of each held.
\<close>

theorem replicas_agree:
  "fst (apply_log u MetadataStateMachine_new es) = fst (apply_log v MetadataStateMachine_new es) \<and>
   same_replica (snd (apply_log u MetadataStateMachine_new es)) (snd (apply_log v MetadataStateMachine_new es))"
  by (rule apply_log_agree) (simp_all add: same_replica_def machine_biz)

text \<open>
  C38. A snapshot of a machine that has applied a log can be taken unless a record is too large or there
  are too many stores or tasks, and restoring it gives the machine back, without its heartbeats;
  but \<open>RestoreSnapshot\<close> rejects more than 4096 records, of which \<open>CreateSnapshot\<close> accepts any number.
\<close>

theorem metadata_snapshot_roundtrip:
  assumes "m = snd (apply_log u MetadataStateMachine_new es)" "terms_ordered kInitialTerm es"
    and "length (msm_records m) < 2 ^ 32"
  shows "case CreateSnapshot m (msm_last_applied_index m) (msm_last_applied_term m) out of
      Inl e \<Rightarrow> \<not> snapshot_fits m
    | Inr b \<Rightarrow> snapshot_fits m \<and> RestoreSnapshot any b =
        (if length (msm_records m) \<le> kMaxMetadataSnapshotRecords
         then (OK, m\<lparr>msm_stores := forget_heartbeats (msm_stores m)\<rparr>) else (Corruption, any))"
proof -
  have m: "machine_inv m" using apply_log_new_inv assms(1,2) by blast
  then show ?thesis
    using RestoreSnapshot_bytes [OF m _ assms(3)] by (simp add: CreateSnapshot_eq)
qed

lemma metadata_snapshot_roundtrip_witness:
  "case CreateSnapshot MetadataStateMachine_new 0 0 out of
      Inl e \<Rightarrow> False
    | Inr b \<Rightarrow> RestoreSnapshot MetadataStateMachine_new b = (OK, MetadataStateMachine_new)"
proof -
  have "snapshot_fits MetadataStateMachine_new"
    by (simp add: snapshot_fits_def MetadataStateMachine_new_def StoreRegistry_new_def TaskManager_new_def)
  then show ?thesis
    using metadata_snapshot_roundtrip [of MetadataStateMachine_new 0 "[]" MetadataStateMachine_new]
    by (auto simp: terms_ordered_def MetadataStateMachine_new_def forget_heartbeats_def map_values_def
        StoreRegistry_new_def kMaxMetadataSnapshotRecords_def split: sum.splits)
qed

text \<open>
  C37. A replica that starts from a snapshot answers every further command like the machine that wrote
  the snapshot, and stays the same replica.
\<close>

theorem snapshot_catch_up:
  assumes "m = snd (apply_log u MetadataStateMachine_new es)" "terms_ordered kInitialTerm es"
    and "CreateSnapshot m (msm_last_applied_index m) (msm_last_applied_term m) out = Inr b"
    and "length (msm_records m) \<le> kMaxMetadataSnapshotRecords"
  shows "\<exists>n. RestoreSnapshot any b = (OK, n) \<and>
    fst (apply_log v n es') = fst (apply_log w m es') \<and>
    same_replica (snd (apply_log v n es')) (snd (apply_log w m es'))"
proof -
  let ?n = "m\<lparr>msm_stores := forget_heartbeats (msm_stores m)\<rparr>"
  have m: "machine_inv m" using apply_log_new_inv assms(1,2) by blast
  then have "snapshot_fits m \<and> b = snapshot_bytes m" using assms(3) by (simp add: CreateSnapshot_eq split: if_splits)
  then have "RestoreSnapshot any b = (OK, ?n)"
    using RestoreSnapshot_bytes [OF m] assms(4) by (simp add: kMaxMetadataSnapshotRecords_def)
  moreover have "business_inv ?n"
    using m restored_registry(2) [OF machine_invD(2) [OF m]] by (simp add: business_inv_def machine_inv_def)
  moreover have "same_replica ?n m" by (simp add: same_replica_fields)
  ultimately show ?thesis using apply_log_agree machine_biz [OF m] by blast
qed

lemma snapshot_catch_up_witness:
  "\<exists>b n. CreateSnapshot MetadataStateMachine_new 0 0 out = Inr b \<and>
    RestoreSnapshot MetadataStateMachine_new b = (OK, n) \<and>
    fst (apply_log 1 n [example_change, example_command]) =
      fst (apply_log 2 MetadataStateMachine_new [example_change, example_command])"
proof -
  have new: "MetadataStateMachine_new = snd (apply_log 0 MetadataStateMachine_new [])"
    "terms_ordered kInitialTerm []" by (simp_all add: terms_ordered_def)
  have fits: "snapshot_fits MetadataStateMachine_new"
    by (simp add: snapshot_fits_def MetadataStateMachine_new_def StoreRegistry_new_def TaskManager_new_def)
  have zero: "msm_last_applied_index MetadataStateMachine_new = 0" "msm_last_applied_term MetadataStateMachine_new = 0"
    "length (msm_records MetadataStateMachine_new) \<le> kMaxMetadataSnapshotRecords"
    by (simp_all add: MetadataStateMachine_new_def)
  have b: "CreateSnapshot MetadataStateMachine_new 0 0 out = Inr (snapshot_bytes MetadataStateMachine_new)"
    using CreateSnapshot_eq [OF machine_inv_new] fits zero by simp
  show ?thesis
    using snapshot_catch_up [OF new _ zero(3), unfolded zero(1,2), OF b, of MetadataStateMachine_new 1
        "[example_change, example_command]" 2] b by blast
qed

text \<open>A restore that fails, for whatever bytes, leaves the machine as it was.\<close>

theorem failed_restore_unchanged: "fst (RestoreSnapshot m p) = OK \<or> snd (RestoreSnapshot m p) = m"
  using RestoreSnapshot_fails by blast


section \<open>Uninitialised memory\<close>

lemma task_result_store:
  assumes "run_store_command u m b = (Inr r, n)" "sb_kind b \<in> {CREATE_TASK, POLL_TASKS, REPORT_TASK_RESULT}"
  shows "si_id (br_store r) = u"
proof -
  have "case fst (run_store_command u m b) of Inl _ \<Rightarrow> True | Inr r \<Rightarrow> si_id (br_store r) = u"
    using assms(2)
    by (elim insertE emptyE)
      (auto simp: run_store_command_def Let_def case_prod_beta StoreBusinessResult_default_def
        StoreInfo_default_def map_sum_Inr split: sum.split)
  then show ?thesis using assms(1) by simp
qed

lemma be_8_inject: "be 8 x = be 8 y \<Longrightarrow> x = (y :: u64)"
  using cu64.parse_put [OF TrueI, of x "[]"] cu64.parse_put [OF TrueI, of y "[]"] by simp

lemma store_result_prefix: "store_result_bytes r = store_result_bytes s \<Longrightarrow> si_id (br_store r) = si_id (br_store s)"
  by (rule be_8_inject) (simp add: store_result_bytes_def store_info_bytes_def)

text \<open>
  The answer to a command on tasks holds a store that nobody has set, whose id the code does not
  initialise: two replicas end in the same state after such a command only if their memory held the
  same value.
\<close>

theorem uninitialised_id_diverges:
  assumes m: "business_inv m"
    and p: "DecodeMetadataCommand p out = Inr c" "mc_type c = STORE_OPERATION"
      "DecodeStoreBusinessCommand (mc_payload c) out = Inr b" "sb_kind b \<in> {CREATE_TASK, POLL_TASKS, REPORT_TASK_RESULT}"
    and a: "fst (Apply u m index uterm p) = OK"
  shows "snd (Apply u m index uterm p) = snd (Apply v m index uterm p) \<longleftrightarrow> u = v"
proof
  assume same: "snd (Apply u m index uterm p) = snd (Apply v m index uterm p)"
  have payload: "\<exists>r. sr_payload (the (map_find (msm_records (snd (Apply w m index uterm p)))
      (sr_target_id (new_record m index uterm c [])))) = store_result_bytes r \<and> si_id (br_store r) = w"
    if w: "fst (Apply w m index uterm p) = OK" for w
  proof -
    obtain c' where i: "index = msm_last_applied_index m + 1" "index \<noteq> 0" "uterm \<noteq> 0"
      using Apply_reaches [OF disjI2 [OF w]] by metis
    note eq = Apply_next [OF i p(1), of w]
    obtain o1 m1 where r: "run_store_command w m b = (o1, m1)" by fastforce
    have run: "Apply w m index uterm p = (case o1 of Inl e \<Rightarrow> (e, m1)
       | Inr r \<Rightarrow> (case EncodeStoreBusinessResult r out of Inl e \<Rightarrow> (e, m1)
         | Inr q \<Rightarrow> (OK, put_record (new_record m1 index uterm c q) m1)))"
      using p(2,3) r by (simp only: eq if_True sum.case prod.case simp_thms)
    have "o1 \<noteq> Inl e" for e
    proof
      assume "o1 = Inl e"
      then show False using w run r run_store_command_not_OK [of w m b] by simp
    qed
    then obtain res where res: "o1 = Inr res" by (cases o1) blast+
    note r = r [unfolded res] and run = run [unfolded res]
    have "snd (Apply w m index uterm p) = put_record (new_record m1 index uterm c (store_result_bytes res)) m1"
      using w run result_encodes [OF m r] by (simp split: if_splits)
    moreover have "sr_target_id (new_record m1 index uterm c q) = sr_target_id (new_record m index uterm c [])" for q
      using run_store_command_keeps [OF m, of w b] r by (simp add: new_record_def same_log_def)
    ultimately have "map_find (msm_records (snd (Apply w m index uterm p))) (sr_target_id (new_record m index uterm c [])) =
        Some (new_record m1 index uterm c (store_result_bytes res))"
      by (simp add: put_record_def)
    moreover have "si_id (br_store res) = w" using task_result_store [OF r p(4)] .
    ultimately show ?thesis by (auto simp: new_record_def)
  qed
  have "same_replica m m" by (simp add: same_replica_def)
  from Apply_agree(1) [OF this m m, of v index uterm p u] a have "fst (Apply v m index uterm p) = OK" by simp
  from payload [OF this] payload [OF a] show "u = v" unfolding same using store_result_prefix by metis
qed simp

text \<open>Two replicas create the same task; their memory held 1 and 2.\<close>

definition example_create_command :: StoreBusinessCommand where
  "example_create_command = \<lparr>sb_kind = CREATE_TASK, sb_store = StoreInfo_default 0,
     sb_update = \<lparr>su_id = 0, su_expected_generation = None, su_capacity_bytes = None, su_used_bytes = None, su_state = None\<rparr>,
     sb_task_create = \<lparr>tc_task_id = ''t'', tc_type = Task_COPY, tc_target_payload = []\<rparr>,
     sb_task_result = \<lparr>rr_store_id = 0, rr_task_id = [], rr_final_state = Task_SUCCESS, rr_result_payload = [], rr_expected_generation = None\<rparr>,
     sb_store_id = 0, sb_max_tasks = 0\<rparr>"

definition example_create_entry :: MetadataCommand where
  "example_create_entry = \<lparr>mc_type = STORE_OPERATION, mc_command_id = ''c'', mc_target_id = ''t'',
     mc_expected_generation = None, mc_payload = store_command_bytes example_create_command\<rparr>"


lemma example_create_decodes:
  "DecodeMetadataCommand (metadata_command_bytes example_create_entry) out = Inr example_create_entry"
  "DecodeStoreBusinessCommand (mc_payload example_create_entry) out = Inr example_create_command"
proof -
  have "length (store_command_bytes example_create_command) \<le> 4194304"
    by (simp add: store_command_bytes_def example_create_command_def StoreInfo_default_def store_info_bytes_def
        string_bytes_def payload_bytes_def length_bytes_def)
  then show "DecodeMetadataCommand (metadata_command_bytes example_create_entry) out = Inr example_create_entry"
    by (intro DecodeMetadataCommand_bytes)
      (simp add: ValidateMetadataCommand_OK example_create_entry_def IsKnownType_def command_limits)
  show "DecodeStoreBusinessCommand (mc_payload example_create_entry) out = Inr example_create_command"
    unfolding example_create_entry_def MetadataCommand.select_convs
    by (rule DecodeStoreBusinessCommand_bytes)
      (simp_all add: ValidateStoreBusinessCommand_def store_command_writable_def store_command_normal_def
        store_info_normal_def example_create_command_def StoreInfo_default_def IsKnownStoreCommandKind_def
        command_limits ValidateLength_def DecodeStoreState_def DecodeTaskType_def DecodeTaskState_def)
qed

lemma example_create_applies: "fst (Apply u MetadataStateMachine_new 1 1 (metadata_command_bytes example_create_entry)) = OK"
proof -
  have i: "1 = msm_last_applied_index MetadataStateMachine_new + 1" by (simp add: MetadataStateMachine_new_def)
  obtain r n where r: "run_store_command u MetadataStateMachine_new example_create_command = (Inr r, n)" "length (br_tasks r) = 1"
    by (simp add: run_store_command_def example_create_command_def CreateTask_def Let_def MetadataStateMachine_new_def
        TaskManager_new_def ValidateTaskId_def kMaxTaskIdBytes_def ValidateTaskType_def kMaxTaskPayloadBytes_def)
  have "EncodeStoreBusinessResult r out = Inr (store_result_bytes r)"
    using result_encodes [OF machine_biz [OF machine_inv_new] r(1)] r(2) by (simp add: kMaxStoreBusinessItems_def)
  then show ?thesis
    using Apply_next [OF i _ _ example_create_decodes(1), of 1 u] example_create_decodes(2) r
    by (simp add: example_create_entry_def)
qed

lemma uninitialised_id_diverges_witness:
  "snd (Apply 1 MetadataStateMachine_new 1 1 (metadata_command_bytes example_create_entry)) \<noteq>
   snd (Apply 2 MetadataStateMachine_new 1 1 (metadata_command_bytes example_create_entry))"
  using uninitialised_id_diverges [OF machine_biz [OF machine_inv_new] example_create_decodes(1) _
      example_create_decodes(2) _ example_create_applies, of 1 2]
  by (simp add: example_create_entry_def example_create_command_def)

end
