(* ===== verification/Raft_Runtime.thy ===== *)
theory Raft_Runtime
  imports Raft_Core Bounded_Queue
begin

text \<open>
  \<open>raft/raft_runtime.{h,cpp}\<close>: the threads around \<open>RaftCore\<close>. The protocol thread takes events
  from a bounded queue and drives the core, the persistence thread writes to the storage, the apply
  thread hands committed entries to the state machine; both report back through the event queue.
  Outgoing messages wait in one bounded queue per peer.

  A member function is a function of the record of the fields. \<open>core_\<close> and \<open>storage_\<close> are
  pointers that \<open>Initialize\<close> sets together: \<open>rt_bound\<close> says that they are set, \<open>rt_core\<close> is the
  core they point to. The storage and the state machine behind \<open>apply_fn\<close> are interfaces, so the
  functions that call them take them as arguments. \<open>peer_queues_\<close> is an unordered map, of which
  the code uses no order.
\<close>

section \<open>Types\<close>

datatype RuntimeState = Runtime_CREATED | Runtime_INITIALIZED | Runtime_RUNNING | Runtime_STOPPING | Runtime_STOPPED

datatype NodeState = Node_RUNNING | Node_STOPPED | Node_FAILED

datatype MembershipChangeKind = ADD_LEARNER | PROMOTE_LEARNER | REMOVE_MEMBER

record MessageEvent =
  me_source_node_id :: NodeId
  me_message :: RaftMessage

record ProposalEvent =
  pe_proposal_id :: u64
  pe_payload :: OpaquePayload

record MembershipChangeEvent =
  mce_kind :: MembershipChangeKind
  mce_request_id :: string
  mce_member :: RaftMember
  mce_target_node_id :: NodeId

record PersistenceCompletionEvent =
  pce_status :: Status
  pce_has_hard_state :: bool
  pce_hard_state :: HardState
  pce_last_log_index :: LogIndex

record ApplyCompletionEvent =
  ace_applied_index :: LogIndex
  ace_status :: Status
  ace_proposal_id :: u64

datatype RuntimeEvent =
    Tick_event
  | Message_event MessageEvent
  | Proposal_event ProposalEvent
  | MembershipChange_event MembershipChangeEvent
  | PersistenceCompletion_event PersistenceCompletionEvent
  | ApplyCompletion_event ApplyCompletionEvent
  | Shutdown_event

record PersistenceWork =
  pw_has_hard_state :: bool
  pw_hard_state :: HardState
  pw_entries :: "LogEntry list"
  pw_max_stable_index :: LogIndex

record ApplyWork =
  aw_index :: LogIndex
  aw_term :: Term
  aw_type :: LogEntryType
  aw_payload :: OpaquePayload
  aw_proposal_id :: u64

record ProposalResult =
  prs_proposal_id :: u64
  prs_log_index :: LogIndex
  prs_status :: Status
  prs_leader_id :: NodeId
  prs_leader_address :: NodeAddress
  prs_final_result :: bool

record MembershipChangeResult =
  mcr_request_id :: string
  mcr_log_index :: LogIndex
  mcr_term :: Term
  mcr_status :: Status
  mcr_leader_id :: NodeId
  mcr_leader_address :: NodeAddress
  mcr_final_result :: bool

record RuntimeStatusSnapshot =
  rss_node_id :: NodeId
  rss_role :: RaftRole
  rss_state :: NodeState
  rss_current_term :: Term
  rss_voted_for :: NodeId
  rss_commit_index :: LogIndex
  rss_leader_id :: NodeId
  rss_leader_address :: NodeAddress
  rss_membership :: MembershipView
  rss_peers :: "PeerProgress list"

record RuntimeOptions =
  ropt_event_queue_capacity :: nat
  ropt_persistence_queue_capacity :: nat
  ropt_apply_queue_capacity :: nat
  ropt_proposal_result_queue_capacity :: nat
  ropt_peer_queue_capacity :: nat

record PeerMessageQueue =
  pq_messages :: "RaftMessage list"
  pq_max_capacity :: nat
  pq_closed :: bool

record ResultQueue =
  rq_items :: "ProposalResult list"
  rq_max_capacity :: nat
  rq_overflow :: bool

record PendingMembershipChange =
  pmc_kind :: MembershipChangeKind
  pmc_request_id :: string
  pmc_current_log_index :: LogIndex
  pmc_awaiting_finalization :: bool
  pmc_final_phase_started :: bool

record RaftRuntime =
  rt_bound :: bool
  rt_core :: RaftCore
  rt_state :: RuntimeState
  rt_event_queue :: "RuntimeEvent BoundedQueue"
  rt_persistence_queue :: "PersistenceWork BoundedQueue"
  rt_apply_queue :: "ApplyWork BoundedQueue"
  rt_peer_queues :: "(NodeId, PeerMessageQueue) std_map"
  rt_peer_queue_capacity :: nat
  rt_proposal_results :: ResultQueue
  rt_membership_results :: "MembershipChangeResult list"
  rt_pending_proposals :: "(u64, LogIndex) std_map"
  rt_pending_membership_changes :: "(LogIndex, PendingMembershipChange) std_map"
  rt_next_apply_schedule :: LogIndex

definition RaftRuntime_new :: "RuntimeOptions \<Rightarrow> RaftRuntime" where
  "RaftRuntime_new options =
     \<lparr>rt_bound = False, rt_core = RaftCore_new, rt_state = Runtime_CREATED,
      rt_event_queue = BoundedQueue_new (ropt_event_queue_capacity options),
      rt_persistence_queue = BoundedQueue_new (ropt_persistence_queue_capacity options),
      rt_apply_queue = BoundedQueue_new (ropt_apply_queue_capacity options),
      rt_peer_queues = [], rt_peer_queue_capacity = ropt_peer_queue_capacity options,
      rt_proposal_results = \<lparr>rq_items = [],
        rq_max_capacity = ropt_proposal_result_queue_capacity options, rq_overflow = False\<rparr>,
      rt_membership_results = [], rt_pending_proposals = [], rt_pending_membership_changes = [],
      rt_next_apply_schedule = kInvalidLogIndex\<rparr>"

section \<open>Lifecycle\<close>

definition all_peers :: "RaftCore \<Rightarrow> NodeId list" where
  "all_peers core =
     remdups_adj (sort (filter (\<lambda>n. n \<noteq> rc_node_id core) (rc_voter_ids core) @
                        filter (\<lambda>n. n \<noteq> rc_node_id core) (rc_learner_ids core)))"

text \<open>\<open>core = None\<close> and \<open>storage = False\<close> are null pointers.\<close>

definition Runtime_Initialize :: "RaftRuntime \<Rightarrow> RaftCore option \<Rightarrow> bool \<Rightarrow> Status \<times> RaftRuntime" where
  "Runtime_Initialize r core storage =
     (if rt_state r \<noteq> Runtime_CREATED then (Busy, r)
      else if core = None \<or> \<not> storage then (InvalidArgument, r)
      else if rt_peer_queue_capacity r = 0 then (InvalidArgument, r)
      else let peers = all_peers (the core);
               queue = \<lparr>pq_messages = [], pq_max_capacity = rt_peer_queue_capacity r, pq_closed = False\<rparr>
           in (OK, r\<lparr>rt_bound := True, rt_core := the core,
                     rt_peer_queues := fold (\<lambda>peer_id. map_emplace peer_id queue) peers (rt_peer_queues r),
                     rt_state := Runtime_INITIALIZED\<rparr>))"

definition Runtime_Start :: "RaftRuntime \<Rightarrow> Status \<times> RaftRuntime" where
  "Runtime_Start r =
     (if rt_state r \<noteq> Runtime_INITIALIZED then (Busy, r) else (OK, r\<lparr>rt_state := Runtime_RUNNING\<rparr>))"

definition CloseAllPeerQueues :: "RaftRuntime \<Rightarrow> RaftRuntime" where
  "CloseAllPeerQueues r =
     r\<lparr>rt_peer_queues := map (\<lambda>(id, q). (id, q\<lparr>pq_closed := True\<rparr>)) (rt_peer_queues r)\<rparr>"

definition RequestShutdown :: "RaftRuntime \<Rightarrow> Status \<times> RaftRuntime" where
  "RequestShutdown r =
     (if rt_state r = Runtime_STOPPED \<or> rt_state r = Runtime_STOPPING then (Busy, r)
      else if rt_state r \<noteq> Runtime_RUNNING then (Busy, r)
      else (OK, CloseAllPeerQueues
                  (r\<lparr>rt_state := Runtime_STOPPING,
                     rt_event_queue := BoundedQueue_Close (rt_event_queue r),
                     rt_persistence_queue := BoundedQueue_Close (rt_persistence_queue r),
                     rt_apply_queue := BoundedQueue_Close (rt_apply_queue r)\<rparr>)))"

section \<open>Queues\<close>

definition Enqueue :: "RaftRuntime \<Rightarrow> RuntimeEvent \<Rightarrow> Status \<times> RaftRuntime" where
  "Enqueue r event =
     (if rt_state r \<noteq> Runtime_RUNNING then (Busy, r)
      else (case BoundedQueue_Push event (rt_event_queue r) of (status, q) \<Rightarrow> (status, r\<lparr>rt_event_queue := q\<rparr>)))"

definition EnqueueTick :: "RaftRuntime \<Rightarrow> Status \<times> RaftRuntime" where
  "EnqueueTick r = Enqueue r Tick_event"

definition EnqueueMessage :: "RaftRuntime \<Rightarrow> NodeId \<Rightarrow> RaftMessage \<Rightarrow> Status \<times> RaftRuntime" where
  "EnqueueMessage r source_node_id message =
     Enqueue r (Message_event \<lparr>me_source_node_id = source_node_id, me_message = message\<rparr>)"

definition EnqueueProposal :: "RaftRuntime \<Rightarrow> ProposalEvent \<Rightarrow> Status \<times> RaftRuntime" where
  "EnqueueProposal r event = Enqueue r (Proposal_event event)"

definition EnqueueMembershipChange :: "RaftRuntime \<Rightarrow> MembershipChangeEvent \<Rightarrow> Status \<times> RaftRuntime" where
  "EnqueueMembershipChange r event = Enqueue r (MembershipChange_event event)"

definition EnqueuePersistenceCompletion :: "RaftRuntime \<Rightarrow> PersistenceCompletionEvent \<Rightarrow> Status \<times> RaftRuntime" where
  "EnqueuePersistenceCompletion r event = Enqueue r (PersistenceCompletion_event event)"

definition EnqueueApplyCompletion :: "RaftRuntime \<Rightarrow> ApplyCompletionEvent \<Rightarrow> Status \<times> RaftRuntime" where
  "EnqueueApplyCompletion r event = Enqueue r (ApplyCompletion_event event)"

definition TryDequeuePeerMessage :: "RaftRuntime \<Rightarrow> NodeId \<Rightarrow> out_ptr \<Rightarrow> (Status + RaftMessage) \<times> RaftRuntime" where
  "TryDequeuePeerMessage r peer_id message =
     (if \<not> ok (require_out message) then (Inl (require_out message), r)
      else (case map_find (rt_peer_queues r) peer_id of
              None \<Rightarrow> (Inl NotFound, r)
            | Some q \<Rightarrow>
                (case pq_messages q of
                   [] \<Rightarrow> (Inl NotFound, r)
                 | m # rest \<Rightarrow>
                     (Inr m, r\<lparr>rt_peer_queues :=
                        map_set peer_id (q\<lparr>pq_messages := rest\<rparr>) (rt_peer_queues r)\<rparr>))))"

definition IsPeerRegistered :: "RaftRuntime \<Rightarrow> NodeId \<Rightarrow> bool" where
  "IsPeerRegistered r peer_id \<longleftrightarrow> map_find (rt_peer_queues r) peer_id \<noteq> None"

definition PeerQueueSize :: "RaftRuntime \<Rightarrow> NodeId \<Rightarrow> nat" where
  "PeerQueueSize r peer_id =
     (case map_find (rt_peer_queues r) peer_id of None \<Rightarrow> 0 | Some q \<Rightarrow> length (pq_messages q))"

definition CollectProposalResults :: "RaftRuntime \<Rightarrow> nat \<Rightarrow> ProposalResult list \<times> RaftRuntime" where
  "CollectProposalResults r max_count =
     (let items = rq_items (rt_proposal_results r)
      in (take max_count items,
          r\<lparr>rt_proposal_results := (rt_proposal_results r)\<lparr>rq_items := drop max_count items\<rparr>\<rparr>))"

definition HasProposalResultOverflow :: "RaftRuntime \<Rightarrow> bool" where
  "HasProposalResultOverflow r = rq_overflow (rt_proposal_results r)"

definition ClearProposalResultOverflow :: "RaftRuntime \<Rightarrow> RaftRuntime" where
  "ClearProposalResultOverflow r =
     r\<lparr>rt_proposal_results := (rt_proposal_results r)\<lparr>rq_overflow := False\<rparr>\<rparr>"

fun take_result :: "string \<Rightarrow> MembershipChangeResult list \<Rightarrow> (MembershipChangeResult \<times> MembershipChangeResult list) option" where
  "take_result request_id [] = None"
| "take_result request_id (x # xs) =
     (if mcr_request_id x = request_id then Some (x, xs)
      else (case take_result request_id xs of None \<Rightarrow> None | Some (y, ys) \<Rightarrow> Some (y, x # ys)))"

definition TryTakeMembershipChangeResult ::
  "RaftRuntime \<Rightarrow> string \<Rightarrow> out_ptr \<Rightarrow> MembershipChangeResult option \<times> RaftRuntime" where
  "TryTakeMembershipChangeResult r request_id result =
     (if result = nullptr then (None, r)
      else (case take_result request_id (rt_membership_results r) of
              None \<Rightarrow> (None, r)
            | Some (x, rest) \<Rightarrow> (Some x, r\<lparr>rt_membership_results := rest\<rparr>)))"

definition event_queue_size :: "RaftRuntime \<Rightarrow> nat" where
  "event_queue_size r = BoundedQueue_size (rt_event_queue r)"

definition persistence_queue_size :: "RaftRuntime \<Rightarrow> nat" where
  "persistence_queue_size r = BoundedQueue_size (rt_persistence_queue r)"

definition apply_queue_size :: "RaftRuntime \<Rightarrow> nat" where
  "apply_queue_size r = BoundedQueue_size (rt_apply_queue r)"

definition peer_count :: "RaftRuntime \<Rightarrow> nat" where
  "peer_count r = length (rt_peer_queues r)"

definition shutdown_requested :: "RaftRuntime \<Rightarrow> bool" where
  "shutdown_requested r \<longleftrightarrow> rt_state r = Runtime_STOPPING \<or> rt_state r = Runtime_STOPPED"

definition accepting_events :: "RaftRuntime \<Rightarrow> bool" where
  "accepting_events r \<longleftrightarrow> rt_state r = Runtime_RUNNING"

section \<open>Leader hint and results\<close>

definition NodeAddress_default :: NodeAddress where
  "NodeAddress_default = \<lparr>na_host = [], na_port = 0\<rparr>"

definition find_member :: "NodeId \<Rightarrow> RaftMember list \<Rightarrow> NodeAddress option" where
  "find_member leader_id members =
     map_option mb_address (find (\<lambda>m. mb_node_id m = leader_id) members)"

text \<open>The status, and what the two output pointers hold afterwards.\<close>

definition ResolveLeaderHint :: "RaftCore \<Rightarrow> Status \<times> NodeId \<times> NodeAddress" where
  "ResolveLeaderHint core =
     (let leader_id = rc_leader_id core
      in if leader_id = kInvalidNodeId then (NotFound, leader_id, NodeAddress_default)
         else (case GetMembershipView core out MembershipView_default of
                 Inl status \<Rightarrow> (status, leader_id, NodeAddress_default)
               | Inr membership \<Rightarrow>
                   (case find_member leader_id (mv_voters membership) of
                      Some a \<Rightarrow> (OK, leader_id, a)
                    | None \<Rightarrow> (case find_member leader_id (mv_learners membership) of
                      Some a \<Rightarrow> (OK, leader_id, a)
                    | None \<Rightarrow> (case find_member leader_id (mv_next_voters membership) of
                      Some a \<Rightarrow> (OK, leader_id, a)
                    | None \<Rightarrow> (case find_member leader_id (mv_next_learners membership) of
                      Some a \<Rightarrow> (OK, leader_id, a)
                    | None \<Rightarrow> (NotFound, leader_id, NodeAddress_default)))))))"

definition EmitProposalResult :: "u64 \<Rightarrow> LogIndex \<Rightarrow> Status \<Rightarrow> bool \<Rightarrow> RaftRuntime \<Rightarrow> RaftRuntime" where
  "EmitProposalResult proposal_id log_index status final_result r =
     (case ResolveLeaderHint (rt_core r) of (_, leader_id, leader_address) \<Rightarrow>
        let result = \<lparr>prs_proposal_id = proposal_id, prs_log_index = log_index, prs_status = status,
                      prs_leader_id = leader_id, prs_leader_address = leader_address,
                      prs_final_result = final_result\<rparr>;
            q = rt_proposal_results r
        in if length (rq_items q) < rq_max_capacity q
           then r\<lparr>rt_proposal_results := q\<lparr>rq_items := rq_items q @ [result]\<rparr>\<rparr>
           else r\<lparr>rt_proposal_results := q\<lparr>rq_overflow := True\<rparr>\<rparr>)"

definition EmitMembershipChangeResult :: "MembershipChangeResult \<Rightarrow> RaftRuntime \<Rightarrow> RaftRuntime" where
  "EmitMembershipChangeResult result r = r\<lparr>rt_membership_results := rt_membership_results r @ [result]\<rparr>"

text \<open>The final result of a membership change, with the leader hint of the moment.\<close>

definition membership_result :: "RaftRuntime \<Rightarrow> string \<Rightarrow> LogIndex \<Rightarrow> Status \<Rightarrow> MembershipChangeResult" where
  "membership_result r request_id log_index status =
     (case ResolveLeaderHint (rt_core r) of (_, leader_id, leader_address) \<Rightarrow>
        \<lparr>mcr_request_id = request_id, mcr_log_index = log_index, mcr_term = current_term (rt_core r),
         mcr_status = status, mcr_leader_id = leader_id, mcr_leader_address = leader_address,
         mcr_final_result = True\<rparr>)"

fun peer_progresses :: "RaftCore \<Rightarrow> NodeId list \<Rightarrow> Status + PeerProgress list" where
  "peer_progresses core [] = Inr []"
| "peer_progresses core (n # ns) =
     and_then (GetPeerProgress core n out) (\<lambda>p. and_then (peer_progresses core ns) (\<lambda>ps. Inr (p # ps)))"

definition GetStatusSnapshot :: "RaftRuntime \<Rightarrow> bool \<Rightarrow> bool \<Rightarrow> out_ptr \<Rightarrow> Status + RuntimeStatusSnapshot" where
  "GetStatusSnapshot r include_membership include_peer_progress snapshot =
     (if snapshot = nullptr then Inl InvalidArgument
      else if \<not> rt_bound r then Inl InvalidArgument
      else let core = rt_core r
           in case ResolveLeaderHint core of (status, leader_id, leader_address) \<Rightarrow>
                if \<not> ok status then Inl status
                else and_then (if include_membership then GetMembershipView core out MembershipView_default
                               else Inr MembershipView_default) (\<lambda>membership.
                     and_then (if include_peer_progress
                               then peer_progresses core (rc_voter_ids core @ rc_learner_ids core)
                               else Inr []) (\<lambda>peers.
                     Inr \<lparr>rss_node_id = rc_node_id core, rss_role = rc_role core,
                          rss_state = (if rt_state r = Runtime_RUNNING then Node_RUNNING
                                       else if rt_state r = Runtime_STOPPED then Node_STOPPED else Node_FAILED),
                          rss_current_term = current_term core, rss_voted_for = voted_for core,
                          rss_commit_index = hs_commit_index (rc_hard_state core),
                          rss_leader_id = leader_id, rss_leader_address = leader_address,
                          rss_membership = membership, rss_peers = peers\<rparr>)))"

section \<open>Output of the core\<close>

fun DistributeOutputMessages :: "RaftMessage list \<Rightarrow> RaftRuntime \<Rightarrow> Status \<times> RaftRuntime" where
  "DistributeOutputMessages [] r = (OK, r)"
| "DistributeOutputMessages (msg # messages) r =
     (if msg_target_node_id msg = rc_node_id (rt_core r) then DistributeOutputMessages messages r
      else (case map_find (rt_peer_queues r) (msg_target_node_id msg) of
              None \<Rightarrow> (NotFound, r)
            | Some q \<Rightarrow>
                if pq_closed q then (Busy, r)
                else if pq_max_capacity q \<le> length (pq_messages q) then (ResourceExhausted, r)
                else DistributeOutputMessages messages
                       (r\<lparr>rt_peer_queues := map_set (msg_target_node_id msg)
                            (q\<lparr>pq_messages := pq_messages q @ [msg]\<rparr>) (rt_peer_queues r)\<rparr>)))"

text \<open>The proposal that waits for a log index: the first one in the order of the ids.\<close>

definition proposal_at :: "LogIndex \<Rightarrow> (u64, LogIndex) std_map \<Rightarrow> u64" where
  "proposal_at index pending =
     (case find (\<lambda>(pid, i). i = index) pending of Some (pid, _) \<Rightarrow> pid | None \<Rightarrow> 0)"

lemma GetEntry_zero: "GetEntry l 0 out = Inl NotFound"
  by (simp add: GetEntry_def)

text \<open>The loop ends even at the largest index: the index wraps to zero, where there is no entry.\<close>

function schedule_loop :: "LogIndex \<Rightarrow> LogIndex \<Rightarrow> RaftRuntime \<Rightarrow> Status \<times> RaftRuntime" where
  "schedule_loop index range_end r =
     (if range_end < index then (OK, r)
      else (case GetEntry (rc_log (rt_core r)) index out of
              Inl status \<Rightarrow> (status, r)
            | Inr entry \<Rightarrow>
                (case BoundedQueue_Push
                        \<lparr>aw_index = le_index entry, aw_term = le_term entry, aw_type = le_type entry,
                         aw_payload = le_payload entry,
                         aw_proposal_id = proposal_at index (rt_pending_proposals r)\<rparr>
                        (rt_apply_queue r) of
                   (status, q) \<Rightarrow>
                     if \<not> ok status then (status, r)
                     else schedule_loop (index + 1) range_end
                            (r\<lparr>rt_apply_queue := q, rt_next_apply_schedule := index\<rparr>))))"
  by pat_completeness auto

termination
proof (relation "measure (\<lambda>(index, _, _). if index = 0 then 0 else 2 ^ 64 - unat index)")
  fix index range_end :: LogIndex and r r' :: RaftRuntime and entry
  assume "GetEntry (rc_log (rt_core r)) index out = Inr entry"
  then have i: "index \<noteq> 0" using GetEntry_zero by auto
  have less: "unat index < 2 ^ 64" by (rule unat_u64_lt)
  show "((index + 1, range_end, r'), index, range_end, r)
      \<in> measure (\<lambda>(index, _, _). if index = 0 then 0 else 2 ^ 64 - unat index)"
  proof (cases "index = - 1")
    case True
    then show ?thesis using i less by simp
  next
    case False
    then have "unat (index + 1) = Suc (unat index)"
      by (intro unat_inc [of _ "- 1"]) (simp add: word_order.not_eq_extremum [symmetric])
    then show ?thesis using i less by auto
  qed
qed simp


declare schedule_loop.simps [simp del]

definition ApplyRange_empty :: "ApplyRange \<Rightarrow> bool" where
  "ApplyRange_empty ready \<longleftrightarrow> ar_end ready < ar_begin ready"

definition has_log_entries :: "PersistenceRequirement \<Rightarrow> bool" where
  "has_log_entries p \<longleftrightarrow>
     pr_first_log_index p \<noteq> kInvalidLogIndex \<and> pr_first_log_index p \<le> pr_last_log_index p"

definition ScheduleApplyWork :: "RaftRuntime \<Rightarrow> Status \<times> RaftRuntime" where
  "ScheduleApplyWork r =
     (case GetApplyReadyRange (rt_core r) out of
        Inl status \<Rightarrow> (status, r)
      | Inr ready \<Rightarrow>
          if ApplyRange_empty ready then (OK, r)
          else let stable_index = lg_stable_index (rc_log (rt_core r))
               in if stable_index < ar_begin ready then (OK, r)
                  else let range_end = (if stable_index < ar_end ready then stable_index else ar_end ready);
                           schedule_start =
                             (if rt_next_apply_schedule r \<noteq> kInvalidLogIndex \<and>
                                 ar_begin ready \<le> rt_next_apply_schedule r
                              then rt_next_apply_schedule r + 1 else ar_begin ready)
                       in if range_end < schedule_start then (OK, r)
                          else schedule_loop schedule_start range_end r)"

definition DrainCoreOutput :: "RaftRuntime \<Rightarrow> Status \<times> RaftRuntime" where
  "DrainCoreOutput r =
     (case GetOutput (rt_core r) out of
        Inl status \<Rightarrow> (status, r)
      | Inr output \<Rightarrow>
          let persistence = ro_persistence output
          in then_do (if pr_has_hard_state persistence \<or> has_log_entries persistence
                      then (case BoundedQueue_Push
                                   \<lparr>pw_has_hard_state = pr_has_hard_state persistence,
                                    pw_hard_state = pr_hard_state persistence,
                                    pw_entries = ro_unstable_entries output,
                                    pw_max_stable_index = pr_last_log_index persistence\<rparr>
                                   (rt_persistence_queue r) of
                              (status, q) \<Rightarrow> (status, r\<lparr>rt_persistence_queue := q\<rparr>))
                      else (OK, r)) (\<lambda>r1.
             then_do (DistributeOutputMessages (ro_immediate_messages output) r1) (\<lambda>r2.
             then_do (DistributeOutputMessages (ro_persisted_messages output) r2)
             ScheduleApplyWork)))"

section \<open>Event handlers\<close>

text \<open>The runtime with another core, and the handlers that ignore the status of the drain.\<close>

definition drain :: "RaftRuntime \<Rightarrow> RaftRuntime" where
  "drain r = snd (DrainCoreOutput r)"

definition ProcessTick :: "RaftRuntime \<Rightarrow> RaftRuntime" where
  "ProcessTick r =
     (case Tick (rt_core r) out of
        (Inl _, core) \<Rightarrow> r\<lparr>rt_core := core\<rparr>
      | (Inr _, core) \<Rightarrow> drain (r\<lparr>rt_core := core\<rparr>))"

definition BuildInstallSnapshotResponseMessage ::
  "NodeId \<Rightarrow> NodeId \<Rightarrow> InstallSnapshotResponse \<Rightarrow> RaftMessage" where
  "BuildInstallSnapshotResponseMessage local_node_id leader_id response =
     \<lparr>msg_type = INSTALL_SNAPSHOT_RESPONSE, msg_source_node_id = local_node_id,
      msg_target_node_id = leader_id, msg_payload = InstallSnapshotResponseMsg response\<rparr>"

text \<open>The core part of \<open>ProcessMessage\<close>: the status of a handler, and the drain behind it.\<close>

fun drain_after :: "(Status + 'a) \<times> RaftCore \<Rightarrow> RaftRuntime \<Rightarrow> RaftRuntime" where
  "drain_after (Inl _, core) r = r\<lparr>rt_core := core\<rparr>"
| "drain_after (Inr _, core) r = drain (r\<lparr>rt_core := core\<rparr>)"

definition ProcessInstallSnapshot ::
  "('s \<Rightarrow> SnapshotData \<Rightarrow> Status \<times> 's) \<Rightarrow> InstallSnapshotRequest \<Rightarrow> RaftRuntime \<Rightarrow> 's \<Rightarrow> RaftRuntime \<times> 's" where
  "ProcessInstallSnapshot save_snapshot req r storage =
     (case (if current_term (rt_core r) \<le> is_term req \<and> rc_role (rt_core r) \<noteq> LEARNER
            then BecomeFollower (rt_core r) (is_term req) (is_leader_id req)
            else (OK, rt_core r)) of
        (status, core) \<Rightarrow>
          let r1 = r\<lparr>rt_core := core\<rparr>;
              reply = (\<lambda>success index.
                snd (DistributeOutputMessages
                  [BuildInstallSnapshotResponseMessage (rc_node_id core) (is_leader_id req)
                     \<lparr>isr_term = (if current_term (rt_core r) \<le> is_term req \<and> rc_role (rt_core r) \<noteq> LEARNER
                                 then current_term core else current_term (rt_core r)),
                      isr_success = success, isr_last_included_index = index\<rparr>] r1))
          in if \<not> ok status then (r1, storage)
             else if is_term req < (if current_term (rt_core r) \<le> is_term req \<and> rc_role (rt_core r) \<noteq> LEARNER
                                    then current_term core else current_term (rt_core r))
               then (reply False kInvalidLogIndex, storage)
             else (case save_snapshot storage \<lparr>sd_metadata = is_metadata req, sd_payload = is_payload req\<rparr> of
                     (status, storage1) \<Rightarrow>
                       (if ok status then reply True (sm_last_included_index (is_metadata req))
                        else reply False kInvalidLogIndex, storage1)))"

definition ProcessMessage ::
  "('s \<Rightarrow> SnapshotData \<Rightarrow> Status \<times> 's) \<Rightarrow> MessageEvent \<Rightarrow> RaftRuntime \<Rightarrow> 's \<Rightarrow> RaftRuntime \<times> 's" where
  "ProcessMessage save_snapshot event r storage =
     (let msg = me_message event;
          source = me_source_node_id event;
          core = rt_core r
      in case (msg_type msg, msg_payload msg) of
           (REQUEST_VOTE_REQUEST, RequestVoteRequestMsg req) \<Rightarrow>
             (drain_after (HandleRequestVote core req out) r, storage)
         | (REQUEST_VOTE_RESPONSE, RequestVoteResponseMsg resp) \<Rightarrow>
             (drain_after (HandleRequestVoteResponse core source resp out) r, storage)
         | (APPEND_ENTRIES_REQUEST, AppendEntriesRequestMsg req) \<Rightarrow>
             (drain_after (HandleAppendEntries core req out) r, storage)
         | (APPEND_ENTRIES_RESPONSE, AppendEntriesResponseMsg resp) \<Rightarrow>
             (drain_after (HandleAppendEntriesResponse core source resp out) r, storage)
         | (INSTALL_SNAPSHOT_REQUEST, InstallSnapshotRequestMsg req) \<Rightarrow>
             ProcessInstallSnapshot save_snapshot req r storage
         | _ \<Rightarrow> (r, storage))"

definition ProcessProposal :: "ProposalEvent \<Rightarrow> RaftRuntime \<Rightarrow> RaftRuntime" where
  "ProcessProposal event r =
     (case Propose (rt_core r) (pe_payload event) of
        (status, core) \<Rightarrow>
          let r1 = r\<lparr>rt_core := core\<rparr>
          in if \<not> ok status then EmitProposalResult (pe_proposal_id event) kInvalidLogIndex status True r1
             else drain (r1\<lparr>rt_pending_proposals :=
                    map_set (pe_proposal_id event) (last_index (rc_log core)) (rt_pending_proposals r1)\<rparr>))"

text \<open>The loop over the pending proposals when the persistence failed.\<close>

definition fail_pending :: "LogIndex \<Rightarrow> Status \<Rightarrow> RaftRuntime \<Rightarrow> RaftRuntime" where
  "fail_pending last_log_index status r =
     fold (\<lambda>(pid, index) r1.
             if last_log_index \<noteq> kInvalidLogIndex \<and> index \<le> last_log_index
             then (EmitProposalResult pid index status True r1)
                    \<lparr>rt_pending_proposals := map_erase pid (rt_pending_proposals r1)\<rparr>
             else r1)
       (rt_pending_proposals r) r"

definition ProcessPersistenceCompletion :: "PersistenceCompletionEvent \<Rightarrow> RaftRuntime \<Rightarrow> RaftRuntime" where
  "ProcessPersistenceCompletion event r =
     (case ConfirmPersistence (rt_core r)
             \<lparr>pc_status = pce_status event,
              pc_hard_state_persisted = (ok (pce_status event) \<and> pce_has_hard_state event),
              pc_stable_index = pce_last_log_index event,
              pc_max_stable_index = pce_last_log_index event\<rparr> of
        (confirm_status, core) \<Rightarrow>
          let r1 = r\<lparr>rt_core := core\<rparr>
          in if \<not> ok confirm_status then fail_pending (pce_last_log_index event) confirm_status r1
             else drain r1)"

definition ProcessMembershipChange :: "MembershipChangeEvent \<Rightarrow> RaftRuntime \<Rightarrow> RaftRuntime" where
  "ProcessMembershipChange event r =
     (let (_, leader_id, leader_address) = ResolveLeaderHint (rt_core r);
          reject = (\<lambda>status r1. EmitMembershipChangeResult
            \<lparr>mcr_request_id = mce_request_id event, mcr_log_index = kInvalidLogIndex,
             mcr_term = current_term (rt_core r1), mcr_status = status, mcr_leader_id = leader_id,
             mcr_leader_address = leader_address, mcr_final_result = True\<rparr> r1)
      in if mce_request_id event = [] then reject InvalidArgument r
         else if rc_role (rt_core r) \<noteq> LEADER then reject NotFound r
         else if rt_pending_membership_changes r \<noteq> [] then reject Busy r
         else (case (case mce_kind event of
                       ADD_LEARNER \<Rightarrow> AddLearner (rt_core r) (mce_member event)
                     | PROMOTE_LEARNER \<Rightarrow> PromoteLearner (rt_core r) (mce_target_node_id event)
                     | REMOVE_MEMBER \<Rightarrow> RemoveMember (rt_core r) (mce_target_node_id event)) of
                 (Inl status, core) \<Rightarrow> reject status (r\<lparr>rt_core := core\<rparr>)
               | (Inr log_index, core) \<Rightarrow>
                   drain (r\<lparr>rt_core := core,
                            rt_pending_membership_changes :=
                              map_emplace log_index
                                \<lparr>pmc_kind = mce_kind event, pmc_request_id = mce_request_id event,
                                 pmc_current_log_index = log_index,
                                 pmc_awaiting_finalization = (mce_kind event \<noteq> ADD_LEARNER),
                                 pmc_final_phase_started = False\<rparr>
                                (rt_pending_membership_changes r)\<rparr>)))"

text \<open>Reporting and forgetting what waits for an applied index.\<close>

definition finish_membership :: "LogIndex \<Rightarrow> Status \<Rightarrow> RaftRuntime \<Rightarrow> RaftRuntime" where
  "finish_membership index status r =
     (case map_find (rt_pending_membership_changes r) index of
        None \<Rightarrow> r
      | Some p \<Rightarrow>
          (EmitMembershipChangeResult (membership_result r (pmc_request_id p) index status) r)
            \<lparr>rt_pending_membership_changes := map_erase index (rt_pending_membership_changes r)\<rparr>)"

definition finish_proposal :: "u64 \<Rightarrow> LogIndex \<Rightarrow> Status \<Rightarrow> RaftRuntime \<Rightarrow> RaftRuntime" where
  "finish_proposal proposal_id index status r =
     (if proposal_id \<noteq> 0
      then (let r1 = EmitProposalResult proposal_id index status True r
            in r1\<lparr>rt_pending_proposals := map_erase proposal_id (rt_pending_proposals r1)\<rparr>)
      else r)"

text \<open>What becomes of a membership change whose entry has been applied.\<close>

definition continue_membership :: "LogIndex \<Rightarrow> RaftRuntime \<Rightarrow> RaftRuntime" where
  "continue_membership index r =
     (case map_find (rt_pending_membership_changes r) index of
        None \<Rightarrow> r
      | Some p \<Rightarrow>
          if pmc_awaiting_finalization p \<and> rc_role (rt_core r) = LEADER \<and>
             index \<le> hs_commit_index (rc_hard_state (rt_core r))
          then (case FinalizeMembershipChange (rt_core r) of
                  (Inr final_log_index, core) \<Rightarrow>
                    drain (r\<lparr>rt_core := core,
                             rt_pending_membership_changes :=
                               map_emplace final_log_index
                                 (p\<lparr>pmc_current_log_index := final_log_index,
                                    pmc_awaiting_finalization := False,
                                    pmc_final_phase_started := True\<rparr>)
                                 (map_erase index (rt_pending_membership_changes r))\<rparr>)
                | (Inl status, core) \<Rightarrow> finish_membership index status (r\<lparr>rt_core := core\<rparr>))
          else finish_membership index OK r)"

definition ProcessApplyCompletion :: "ApplyCompletionEvent \<Rightarrow> RaftRuntime \<Rightarrow> RaftRuntime" where
  "ProcessApplyCompletion event r =
     (let index = ace_applied_index event
      in case GetEntry (rc_log (rt_core r)) index out of
           Inl _ \<Rightarrow> r
         | Inr applied_entry \<Rightarrow>
             if \<not> ok (ace_status event)
             then finish_proposal (ace_proposal_id event) index (ace_status event)
                    (finish_membership index (ace_status event) r)
             else if index \<noteq> lg_applied_index (rc_log (rt_core r)) + 1 then r
             else (case (if le_type applied_entry = MEMBERSHIP_CHANGE
                         then ApplyCommittedMembershipEntry (rt_core r) applied_entry
                         else (OK, rt_core r)) of
                     (membership_status, core1) \<Rightarrow>
                       if \<not> ok membership_status
                       then finish_membership index membership_status (r\<lparr>rt_core := core1\<rparr>)
                       else (case ConfirmApplied core1 index of
                               (confirm_status, core2) \<Rightarrow>
                                 let r2 = r\<lparr>rt_core := core2\<rparr>
                                 in if \<not> ok confirm_status then r2
                                    else finish_proposal (ace_proposal_id event) index OK
                                           (continue_membership index r2))))"

text \<open>One event of the protocol loop; a shutdown event ends the thread instead.\<close>

definition ProcessEvent ::
  "('s \<Rightarrow> SnapshotData \<Rightarrow> Status \<times> 's) \<Rightarrow> RuntimeEvent \<Rightarrow> RaftRuntime \<Rightarrow> 's \<Rightarrow> RaftRuntime \<times> 's" where
  "ProcessEvent save_snapshot event r storage =
     (case event of
        Tick_event \<Rightarrow> (ProcessTick r, storage)
      | Message_event e \<Rightarrow> ProcessMessage save_snapshot e r storage
      | Proposal_event e \<Rightarrow> (ProcessProposal e r, storage)
      | PersistenceCompletion_event e \<Rightarrow> (ProcessPersistenceCompletion e r, storage)
      | ApplyCompletion_event e \<Rightarrow> (ProcessApplyCompletion e r, storage)
      | MembershipChange_event e \<Rightarrow> (ProcessMembershipChange e r, storage)
      | Shutdown_event \<Rightarrow> (r, storage))"

end
