(* ===== verification/Runtime_System.thy ===== *)
theory Runtime_System
  imports Raft_Runtime Raft_Core_Run
begin

text \<open>
  The three threads of \<open>raft_runtime.cpp\<close> and the callers around them as one transition system. A
  step of the protocol thread is one round of its loop, which holds the mutex of the core; the other
  two threads take a step for each call they make to a queue, to the storage or to the state machine,
  so that every interleaving of these calls is a run. A thread that waits in \<open>Pop\<close> has no step.
\<close>

section \<open>Threads\<close>

datatype ProtocolThread = Protocol_waiting | Protocol_ended

datatype PersistenceThread =
    Persistence_waiting
  | Persistence_writing PersistenceWork
  | Persistence_hard_state PersistenceWork PersistenceCompletionEvent
  | Persistence_reporting PersistenceCompletionEvent
  | Persistence_ended

datatype ApplyThread =
    Apply_waiting
  | Apply_running ApplyWork
  | Apply_reporting ApplyCompletionEvent
  | Apply_ended

text \<open>
  The storage and the state machine behind the runtime; \<open>env_apply = None\<close> is an empty
  \<open>std::function\<close>.
\<close>

record ('s, 'a) Environment =
  env_append_entries :: "'s \<Rightarrow> LogEntry list \<Rightarrow> Status \<times> 's"
  env_save_hard_state :: "'s \<Rightarrow> HardState \<Rightarrow> Status \<times> 's"
  env_save_snapshot :: "'s \<Rightarrow> SnapshotData \<Rightarrow> Status \<times> 's"
  env_apply :: "('a \<Rightarrow> LogEntry \<Rightarrow> Status \<times> 'a) option"

text \<open>\<open>sys_applied\<close> records the entries that have been handed to the state machine.\<close>

record ('s, 'a) System =
  sys_runtime :: RaftRuntime
  sys_storage :: 's
  sys_machine :: 'a
  sys_protocol :: ProtocolThread
  sys_persistence :: PersistenceThread
  sys_apply :: ApplyThread
  sys_applied :: "LogEntry list"

definition ProtocolLoop :: "('s, 'a) Environment \<Rightarrow> ('s, 'a) System \<Rightarrow> ('s, 'a) System option" where
  "ProtocolLoop env s =
     (case sys_protocol s of
        Protocol_ended \<Rightarrow> None
      | Protocol_waiting \<Rightarrow>
          (case BoundedQueue_Pop out (rt_event_queue (sys_runtime s)) of
             None \<Rightarrow> None
           | Some (Inl status, q) \<Rightarrow>
               Some (if status = RetryLater
                     then s\<lparr>sys_runtime := (sys_runtime s)\<lparr>rt_event_queue := q\<rparr>, sys_protocol := Protocol_ended\<rparr>
                     else s\<lparr>sys_runtime := (sys_runtime s)\<lparr>rt_event_queue := q\<rparr>\<rparr>)
           | Some (Inr event, q) \<Rightarrow>
               let r = (sys_runtime s)\<lparr>rt_event_queue := q\<rparr>
               in Some (if event = Shutdown_event then s\<lparr>sys_runtime := r, sys_protocol := Protocol_ended\<rparr>
                        else (case ProcessEvent (env_save_snapshot env) event r (sys_storage s) of
                                (r1, storage) \<Rightarrow> s\<lparr>sys_runtime := r1, sys_storage := storage\<rparr>))))"

definition EmitPersistenceCompletion :: "PersistenceCompletionEvent \<Rightarrow> RaftRuntime \<Rightarrow> bool \<times> RaftRuntime" where
  "EmitPersistenceCompletion event r =
     (case BoundedQueue_Push (PersistenceCompletion_event event) (rt_event_queue r) of
        (status, q) \<Rightarrow> (ok status, r\<lparr>rt_event_queue := q\<rparr>))"

definition EmitApplyCompletion :: "ApplyCompletionEvent \<Rightarrow> RaftRuntime \<Rightarrow> bool \<times> RaftRuntime" where
  "EmitApplyCompletion event r =
     (case BoundedQueue_Push (ApplyCompletion_event event) (rt_event_queue r) of
        (status, q) \<Rightarrow> (ok status, r\<lparr>rt_event_queue := q\<rparr>))"

definition PersistenceLoop :: "('s, 'a) Environment \<Rightarrow> ('s, 'a) System \<Rightarrow> ('s, 'a) System option" where
  "PersistenceLoop env s =
     (case sys_persistence s of
        Persistence_ended \<Rightarrow> None
      | Persistence_waiting \<Rightarrow>
          (case BoundedQueue_Pop out (rt_persistence_queue (sys_runtime s)) of
             None \<Rightarrow> None
           | Some (Inl status, q) \<Rightarrow>
               Some (if status = RetryLater
                     then s\<lparr>sys_runtime := (sys_runtime s)\<lparr>rt_persistence_queue := q\<rparr>, sys_persistence := Persistence_ended\<rparr>
                     else s\<lparr>sys_runtime := (sys_runtime s)\<lparr>rt_persistence_queue := q\<rparr>\<rparr>)
           | Some (Inr work, q) \<Rightarrow>
               Some (s\<lparr>sys_runtime := (sys_runtime s)\<lparr>rt_persistence_queue := q\<rparr>,
                       sys_persistence := Persistence_writing work\<rparr>))
      | Persistence_writing work \<Rightarrow>
          let completion = \<lparr>pce_status = OK, pce_has_hard_state = False, pce_hard_state = HardState_default,
                            pce_last_log_index = pw_max_stable_index work\<rparr>
          in if pw_entries work = [] then Some (s\<lparr>sys_persistence := Persistence_hard_state work completion\<rparr>)
             else (case env_append_entries env (sys_storage s) (pw_entries work) of
                     (status, storage) \<Rightarrow>
                       Some (if \<not> ok status
                             then s\<lparr>sys_storage := storage,
                                    sys_persistence := Persistence_reporting (completion\<lparr>pce_status := status\<rparr>)\<rparr>
                             else s\<lparr>sys_storage := storage,
                                    sys_persistence := Persistence_hard_state work completion\<rparr>))
      | Persistence_hard_state work completion \<Rightarrow>
          if \<not> pw_has_hard_state work then Some (s\<lparr>sys_persistence := Persistence_reporting completion\<rparr>)
          else (case env_save_hard_state env (sys_storage s) (pw_hard_state work) of
                  (status, storage) \<Rightarrow>
                    let completion1 = completion\<lparr>pce_has_hard_state := True, pce_hard_state := pw_hard_state work\<rparr>
                    in Some (s\<lparr>sys_storage := storage,
                               sys_persistence := Persistence_reporting
                                 (if \<not> ok status then completion1\<lparr>pce_status := status\<rparr> else completion1)\<rparr>))
      | Persistence_reporting completion \<Rightarrow>
          (case EmitPersistenceCompletion completion (sys_runtime s) of
             (sent, r) \<Rightarrow>
               Some (s\<lparr>sys_runtime := r,
                       sys_persistence := (if sent then Persistence_waiting else Persistence_ended)\<rparr>)))"

definition ApplyLoop :: "('s, 'a) Environment \<Rightarrow> ('s, 'a) System \<Rightarrow> ('s, 'a) System option" where
  "ApplyLoop env s =
     (case sys_apply s of
        Apply_ended \<Rightarrow> None
      | Apply_waiting \<Rightarrow>
          (case BoundedQueue_Pop out (rt_apply_queue (sys_runtime s)) of
             None \<Rightarrow> None
           | Some (Inl status, q) \<Rightarrow>
               Some (if status = RetryLater
                     then s\<lparr>sys_runtime := (sys_runtime s)\<lparr>rt_apply_queue := q\<rparr>, sys_apply := Apply_ended\<rparr>
                     else s\<lparr>sys_runtime := (sys_runtime s)\<lparr>rt_apply_queue := q\<rparr>\<rparr>)
           | Some (Inr work, q) \<Rightarrow>
               Some (s\<lparr>sys_runtime := (sys_runtime s)\<lparr>rt_apply_queue := q\<rparr>, sys_apply := Apply_running work\<rparr>))
      | Apply_running work \<Rightarrow>
          let entry = \<lparr>le_index = aw_index work, le_term = aw_term work, le_type = aw_type work,
                       le_payload = aw_payload work\<rparr>;
              (status, machine) = (case env_apply env of None \<Rightarrow> (OK, sys_machine s)
                                   | Some apply_fn \<Rightarrow> apply_fn (sys_machine s) entry)
          in Some (s\<lparr>sys_machine := machine, sys_applied := sys_applied s @ [entry],
                     sys_apply := Apply_reporting
                       \<lparr>ace_applied_index = aw_index work, ace_status = status, ace_proposal_id = aw_proposal_id work\<rparr>\<rparr>)
      | Apply_reporting completion \<Rightarrow>
          (case EmitApplyCompletion completion (sys_runtime s) of
             (sent, r) \<Rightarrow>
               Some (s\<lparr>sys_runtime := r, sys_apply := (if sent then Apply_waiting else Apply_ended)\<rparr>)))"

section \<open>Callers\<close>

text \<open>What the server, the RPC services and the transport call while the runtime runs.\<close>

datatype runtime_call =
    Call_EnqueueTick
  | Call_EnqueueMessage NodeId RaftMessage
  | Call_EnqueueProposal ProposalEvent
  | Call_EnqueueMembershipChange MembershipChangeEvent
  | Call_TryDequeuePeerMessage NodeId
  | Call_CollectProposalResults nat
  | Call_ClearProposalResultOverflow
  | Call_TryTakeMembershipChangeResult string
  | Call_RequestShutdown

fun run_call :: "runtime_call \<Rightarrow> RaftRuntime \<Rightarrow> RaftRuntime" where
  "run_call Call_EnqueueTick r = snd (EnqueueTick r)"
| "run_call (Call_EnqueueMessage n m) r = snd (EnqueueMessage r n m)"
| "run_call (Call_EnqueueProposal e) r = snd (EnqueueProposal r e)"
| "run_call (Call_EnqueueMembershipChange e) r = snd (EnqueueMembershipChange r e)"
| "run_call (Call_TryDequeuePeerMessage n) r = snd (TryDequeuePeerMessage r n out)"
| "run_call (Call_CollectProposalResults n) r = snd (CollectProposalResults r n)"
| "run_call Call_ClearProposalResultOverflow r = ClearProposalResultOverflow r"
| "run_call (Call_TryTakeMembershipChangeResult i) r = snd (TryTakeMembershipChangeResult r i out)"
| "run_call Call_RequestShutdown r = snd (RequestShutdown r)"

definition all_ended :: "('s, 'a) System \<Rightarrow> bool" where
  "all_ended s \<longleftrightarrow>
     sys_protocol s = Protocol_ended \<and> sys_persistence s = Persistence_ended \<and> sys_apply s = Apply_ended"

text \<open>The three joins of \<open>WaitForShutdown\<close>: it returns when every thread has ended.\<close>

definition WaitForShutdown :: "('s, 'a) System \<Rightarrow> ('s, 'a) System option" where
  "WaitForShutdown s =
     (if all_ended s then Some (s\<lparr>sys_runtime := (sys_runtime s)\<lparr>rt_state := Runtime_STOPPED\<rparr>\<rparr>) else None)"

text \<open>A schedule names who takes the next step.\<close>

datatype actor = Protocol | Persistence | Apply_thread | Caller runtime_call | Waiter

fun actor_step :: "('s, 'a) Environment \<Rightarrow> actor \<Rightarrow> ('s, 'a) System \<Rightarrow> ('s, 'a) System option" where
  "actor_step env Protocol s = ProtocolLoop env s"
| "actor_step env Persistence s = PersistenceLoop env s"
| "actor_step env Apply_thread s = ApplyLoop env s"
| "actor_step env (Caller c) s = Some (s\<lparr>sys_runtime := run_call c (sys_runtime s)\<rparr>)"
| "actor_step env Waiter s = WaitForShutdown s"

fun run_schedule :: "('s, 'a) Environment \<Rightarrow> actor list \<Rightarrow> ('s, 'a) System \<Rightarrow> ('s, 'a) System option" where
  "run_schedule env [] s = Some s"
| "run_schedule env (a # actors) s =
     (case actor_step env a s of None \<Rightarrow> None | Some s' \<Rightarrow> run_schedule env actors s')"

text \<open>The system when \<open>Start\<close> has created the threads.\<close>

definition system_started ::
  "RuntimeOptions \<Rightarrow> RaftCore \<Rightarrow> 's \<Rightarrow> 'a \<Rightarrow> ('s, 'a) System" where
  "system_started options core storage machine =
     \<lparr>sys_runtime = snd (Runtime_Start (snd (Runtime_Initialize (RaftRuntime_new options) (Some core) True))),
      sys_storage = storage, sys_machine = machine, sys_protocol = Protocol_waiting,
      sys_persistence = Persistence_waiting, sys_apply = Apply_waiting, sys_applied = []\<rparr>"

section \<open>Runs\<close>

inductive runtime_step :: "('s, 'a) Environment \<Rightarrow> ('s, 'a) System \<Rightarrow> ('s, 'a) System \<Rightarrow> bool" for env where
  protocol: "ProtocolLoop env s = Some s' \<Longrightarrow> runtime_step env s s'"
| persistence: "PersistenceLoop env s = Some s' \<Longrightarrow> runtime_step env s s'"
| apply_entry: "ApplyLoop env s = Some s' \<Longrightarrow> runtime_step env s s'"
| caller: "runtime_step env s (s\<lparr>sys_runtime := run_call c (sys_runtime s)\<rparr>)"
| waiter: "WaitForShutdown s = Some s' \<Longrightarrow> runtime_step env s s'"

lemma runtime_step_actor: "runtime_step env s s' \<longleftrightarrow> (\<exists>a. actor_step env a s = Some s')"
proof
  assume "runtime_step env s s'"
  then show "\<exists>a. actor_step env a s = Some s'"
    by cases (metis actor_step.simps)+
next
  assume "\<exists>a. actor_step env a s = Some s'"
  then obtain a where "actor_step env a s = Some s'" by blast
  then show "runtime_step env s s'" by (cases a) (auto intro: runtime_step.intros)
qed

text \<open>The states of a run whose 64-bit counters have room for the next step.\<close>

inductive reachable :: "('s, 'a) Environment \<Rightarrow> ('s, 'a) System \<Rightarrow> ('s, 'a) System \<Rightarrow> bool" for env s0 where
  start: "reachable env s0 s0"
| step: "reachable env s0 s \<Longrightarrow> in_range (rt_core (sys_runtime s)) \<Longrightarrow> runtime_step env s s' \<Longrightarrow> reachable env s0 s'"

end
