(* ===== verification/Runtime_Core.thy ===== *)
theory Runtime_Core
  imports Raft_Core_Run
begin

text \<open>
  What the operations of the core that the runtime calls leave alone: they never make a node the
  leader, stage no request, keep a message for every node that has one staged, and only
  \<open>ConfirmApplied\<close> moves the applied index.
\<close>

section \<open>Quiet operations\<close>

fun is_reply :: "RaftMessageType \<Rightarrow> bool" where
  "is_reply REQUEST_VOTE_RESPONSE = True"
| "is_reply APPEND_ENTRIES_RESPONSE = True"
| "is_reply INSTALL_SNAPSHOT_RESPONSE = True"
| "is_reply _ = False"

definition quiet :: "RaftCore \<Rightarrow> RaftCore \<Rightarrow> bool" where
  "quiet c c' \<longleftrightarrow>
     (rc_role c' = LEADER \<longrightarrow> rc_role c = LEADER) \<and>
     (\<forall>m \<in> set (queued c'). m \<in> set (queued c) \<or> is_reply (msg_type m)) \<and>
     lg_applied_index (rc_log c') = lg_applied_index (rc_log c) \<and>
     rc_node_id c' = rc_node_id c \<and>
     msg_target_node_id ` set (queued c) \<subseteq> msg_target_node_id ` set (queued c')"

named_theorems quiet_step

lemma quiet_refl [simp]: "quiet c c"
  by (simp add: quiet_def)

lemma quiet_trans:
  assumes ab: "quiet a b" and bc: "quiet b c"
  shows "quiet a c"
proof -
  have "msg_target_node_id ` set (queued a) \<subseteq> msg_target_node_id ` set (queued c)"
    by (rule order_trans [of _ "msg_target_node_id ` set (queued b)"]) (use ab bc in \<open>simp_all only: quiet_def\<close>)
  moreover have "\<forall>m \<in> set (queued c). m \<in> set (queued a) \<or> is_reply (msg_type m)"
    using ab bc unfolding quiet_def by fast
  ultimately show ?thesis using ab bc by (simp add: quiet_def)
qed

lemma quiet_do:
  assumes "quiet c (snd x)" "\<And>c1. x = (OK, c1) \<Longrightarrow> quiet c1 (snd (f c1))"
  shows "quiet c (snd (then_do x f))"
  using assms quiet_trans by (cases x) auto

lemma quiet_get:
  assumes "quiet c (snd x)" "\<And>c1. x = (OK, c1) \<Longrightarrow> quiet c1 (snd (f c1))"
  shows "quiet c (snd (then_get x f))"
  using assms quiet_trans by (cases x) auto

lemma quiet_if:
  assumes "b \<Longrightarrow> quiet c (snd x)" "\<not> b \<Longrightarrow> quiet c (snd y)"
  shows "quiet c (snd (if b then x else y))"
  using assms by simp

lemma quiet_log:
  assumes "lg_applied_index l = lg_applied_index (rc_log c)"
  shows "quiet c (c\<lparr>rc_log := l\<rparr>)"
  using assms by (simp add: quiet_def queued_def)

lemma log_applied [simp]:
  "lg_applied_index (snd (Append_batch l entries)) = lg_applied_index l"
  "lg_applied_index (snd (Append l entry)) = lg_applied_index l"
  "lg_applied_index (snd (TruncateSuffix l i)) = lg_applied_index l"
  "lg_applied_index (snd (AdvanceStableTo l i)) = lg_applied_index l"
  "lg_applied_index (snd (AdvanceCommitTo l i)) = lg_applied_index l"
  by (simp_all add: Append_batch_def Append_def TruncateSuffix_def AdvanceStableTo_def AdvanceCommitTo_def Let_def)

lemma quiet_fields [quiet_step]:
  "quiet c (ResetElectionTicks c)"
  "quiet c (put_progress n p c)"
  "quiet c (snd (SyncLocalPeerProgress c))"
  "quiet c (snd (UpdateCurrentTerm c t))"
  "quiet c (snd (BecomeFollowerForRemote c t n))"
  by (auto simp: quiet_def queued_def ResetElectionTicks_def put_progress_def SyncLocalPeerProgress_def
      UpdateCurrentTerm_def BecomeFollowerForRemote_def Let_def split: option.splits sum.splits)

lemma quiet_StageMessage [quiet_step]:
  "is_reply (msg_type m) \<Longrightarrow> quiet c (snd (StageMessage c m h i))"
  by (auto simp: quiet_def queued_def StageMessage_def Let_def)

lemma quiet_ReclassifyBlockedMessages [quiet_step]: "quiet c (snd (ReclassifyBlockedMessages c))"
  by (auto simp: quiet_def queued_def ReclassifyBlockedMessages_def)

lemma quiet_commit_to [quiet_step]: "quiet c (snd (commit_to c i))"
  using log_applied(5) [of "rc_log c" i]
  by (cases "AdvanceCommitTo (rc_log c) i") (auto simp: quiet_def queued_def commit_to_def)

lemma quiet_TryAdvanceCommitIndex [quiet_step]: "quiet c (snd (TryAdvanceCommitIndex c))"
proof -
  have "quiet c (snd (TryAdvanceCommitIndex_loop c i))" for i
    by (induction c i rule: TryAdvanceCommitIndex_loop.induct)
      (subst TryAdvanceCommitIndex_loop.simps, auto simp: quiet_step split: sum.split bool.split)
  then show ?thesis by (simp add: TryAdvanceCommitIndex_def)
qed

lemma quiet_append_own [quiet_step]: "quiet c (snd (append_own c type payload))"
  using log_applied(2) [of "rc_log c" "own_entry c type payload"]
  by (cases "Append (rc_log c) (own_entry c type payload)")
    (auto simp: quiet_def queued_def append_own_def put_progress_def Let_def split: option.split)


lemma quiet_Tick [quiet_step]: "quiet c (snd (Tick c out))"
  by (auto simp: quiet_def queued_def Tick_def StartElection_def ResetElectionTicks_def Let_def)

lemma quiet_BecomeFollower [quiet_step]: "quiet c (snd (BecomeFollower c t n))"
  by (simp add: BecomeFollower_def Let_def quiet_step)

lemma quiet_DecideVote: "quiet c (snd (DecideVote c request))"
proof -
  have "quiet c (ResetElectionTicks (c\<lparr>rc_hard_state := h\<rparr>))" for c h
    by (simp add: quiet_def queued_def ResetElectionTicks_def)
  then show ?thesis
    unfolding DecideVote_def Let_def by (auto intro!: quiet_get simp: quiet_step)
qed

lemma quiet_HandleRequestVote [quiet_step]: "quiet c (snd (HandleRequestVote c request out))"
proof (cases "DecideVote c request")
  case (Pair response c1)
  then have "quiet c c1" using quiet_DecideVote [of c request] by simp
  then show ?thesis
    by (cases response) (auto simp: HandleRequestVote_def Pair quiet_step intro!: quiet_get quiet_trans [of c c1])
qed

lemma quiet_HandleRequestVoteResponse [quiet_step]: "quiet c (snd (HandleRequestVoteResponse c n response out))"
  unfolding HandleRequestVoteResponse_def by (auto intro!: quiet_get simp: quiet_step)

lemma quiet_append_reply [quiet_step]: "quiet c (snd (append_reply c n response h i))"
  unfolding append_reply_def by (auto intro!: quiet_get simp: quiet_step)

lemma quiet_store_entries [quiet_step]: "quiet c (snd (store_entries c entries))"
proof (cases "FindConflict (rc_log c) entries out")
  case (Inr conflict)
  have log: "quiet c (snd (case x of (status, l) \<Rightarrow> (status, c\<lparr>rc_log := l\<rparr>)))"
    if "lg_applied_index (snd x) = lg_applied_index (rc_log c)" for c x
    using that by (cases x) (simp add: quiet_log)
  show ?thesis
    by (auto simp: store_entries_def Inr intro!: quiet_do log)
qed (simp add: store_entries_def)

lemma quiet_follow_commit [quiet_step]: "quiet c (snd (follow_commit c i))"
  by (simp add: follow_commit_def Let_def quiet_step)

lemma quiet_HandleAppendEntries [quiet_step]: "quiet c (snd (HandleAppendEntries c request out))"
proof -
  let ?c3 = "\<lambda>c. ResetElectionTicks ((if rc_role c = CANDIDATE then c\<lparr>rc_role := FOLLOWER\<rparr> else c)
    \<lparr>rc_leader_id := ae_leader_id request\<rparr>)"
  have c3: "quiet c y" if "quiet (?c3 c) y" for c y
  proof -
    have "quiet c (?c3 c)" by (auto simp: quiet_def queued_def ResetElectionTicks_def)
    then show ?thesis using that by (rule quiet_trans)
  qed
  have hint: "quiet c (snd (case h of Inl status \<Rightarrow> (Inl status, c) | Inr (i, t) \<Rightarrow> append_reply c n (f i t) d j))"
    for c h n f d j by (simp add: quiet_step split: sum.split prod.split)
  show ?thesis
    unfolding HandleAppendEntries_def Let_def
    by (intro quiet_if quiet_get) (simp_all only: quiet_step quiet_refl snd_conv, (rule c3, intro quiet_if hint quiet_do quiet_step)+)
qed

lemma quiet_HandleAppendEntriesResponse [quiet_step]:
  "quiet c (snd (HandleAppendEntriesResponse c n response out))"
proof -
  have "quiet c (snd (TryAdvanceCommitIndex (put_progress n p c)))" for c p
    using quiet_trans quiet_fields(2) quiet_TryAdvanceCommitIndex by metis
  then show ?thesis
    unfolding HandleAppendEntriesResponse_def Let_def
    by (auto intro!: quiet_get simp: quiet_step split: sum.split)
qed

lemma quiet_Propose [quiet_step]: "quiet c (snd (Propose c payload))"
  unfolding Propose_def by (auto intro!: quiet_do simp: quiet_step)

lemma quiet_AppendMembershipChangeProposal [quiet_step]:
  "quiet c (snd (AppendMembershipChangeProposal c e))"
  unfolding AppendMembershipChangeProposal_def by (auto intro!: quiet_get simp: quiet_step split: sum.split)

lemma quiet_membership_changes [quiet_step]:
  "quiet c (snd (AddLearner c m))"
  "quiet c (snd (PromoteLearner c n))"
  "quiet c (snd (RemoveMember c n))"
  "quiet c (snd (FinalizeMembershipChange c))"
  by (auto simp: AddLearner_def PromoteLearner_def RemoveMember_def FinalizeMembershipChange_def quiet_step split: sum.split)

lemma quiet_ConfirmPersistence [quiet_step]: "quiet c (snd (ConfirmPersistence c p))"
proof -
  have log: "quiet c (snd (case AdvanceStableTo (rc_log c) i of (status, l) \<Rightarrow> (status, c\<lparr>rc_log := l\<rparr>)))" for c i
    using log_applied(4) [of "rc_log c" i] by (cases "AdvanceStableTo (rc_log c) i") (simp add: quiet_log)
  have hs: "quiet c y" if "quiet (if pc_hard_state_persisted p then c\<lparr>rc_persisted_hard_state := rc_hard_state c\<rparr> else c) y" for y
    using that by (cases "pc_hard_state_persisted p") (auto simp: quiet_def queued_def)
  show ?thesis
    unfolding ConfirmPersistence_def Let_def
    by (intro quiet_if) (simp_all only: quiet_refl snd_conv, rule hs, intro quiet_do quiet_if log quiet_step, simp)
qed

lemma quiet_ApplyCommittedMembershipEntry [quiet_step]:
  "quiet c (snd (ApplyCommittedMembershipEntry c e))"
  "last_index (rc_log (snd (ApplyCommittedMembershipEntry c e))) = last_index (rc_log c)"
  "current_term (snd (ApplyCommittedMembershipEntry c e)) = current_term c"
  by (auto simp: quiet_def queued_def current_term_def ApplyCommittedMembershipEntry_def Let_def
      SyncLocalPeerProgress_def put_progress_def step_aside_def ResetElectionTicks_def
      split: prod.split sum.split)

section \<open>The applied index\<close>

lemma ConfirmApplied_quiet:
  "rc_role (snd (ConfirmApplied c i)) = rc_role c"
  "rc_node_id (snd (ConfirmApplied c i)) = rc_node_id c"
  "queued (snd (ConfirmApplied c i)) = queued c"
  "last_index (rc_log (snd (ConfirmApplied c i))) = last_index (rc_log c)"
  "current_term (snd (ConfirmApplied c i)) = current_term c"
  by (auto simp: ConfirmApplied_def AdvanceAppliedTo_def queued_def current_term_def last_index_def Let_def)

end
