(* ===== verification/Runtime_Invariant.thy ===== *)
theory Runtime_Invariant
  imports Runtime_System Runtime_Core
begin

text \<open>
  Invariants of the runtime. The handlers of the protocol thread change the runtime through a few
  primitive steps: an operation of the core, an entry pushed to a queue, a result. The locale
  \<open>handler_invariant\<close> asks of a predicate that these steps keep it and shows that then every handler
  does; its interpretations are the invariants of the queues, of the messages and of the order in
  which entries are applied. \<open>ready\<close> is what a step needs of the core beside the invariant.
\<close>

lemma word_next_less: "x < x + 1" if "x + 1 \<noteq> 0" for x :: u64
proof -
  have "x \<noteq> - 1" using that by auto
  then have "unat (x + 1) = Suc (unat x)"
    by (intro unat_inc [of _ "- 1"]) (simp add: word_order.not_eq_extremum [symmetric])
  then show ?thesis by (simp add: word_less_nat_alt)
qed

section \<open>The operations of the core the runtime uses\<close>

text \<open>
  \<open>confirmable\<close> restricts the indexes of the apply completions; the rest of a run decides it.
\<close>

fun runtime_op :: "(LogIndex \<Rightarrow> bool) \<Rightarrow> core_op \<Rightarrow> bool" where
  "runtime_op confirmable Do_Tick = True"
| "runtime_op confirmable (Do_BecomeFollower t n) = True"
| "runtime_op confirmable (Do_HandleRequestVote r) = True"
| "runtime_op confirmable (Do_HandleRequestVoteResponse n r) = True"
| "runtime_op confirmable (Do_HandleAppendEntries r) = True"
| "runtime_op confirmable (Do_HandleAppendEntriesResponse n r) = True"
| "runtime_op confirmable (Do_Propose p) = True"
| "runtime_op confirmable (Do_AddLearner m) = True"
| "runtime_op confirmable (Do_PromoteLearner n) = True"
| "runtime_op confirmable (Do_RemoveMember n) = True"
| "runtime_op confirmable Do_FinalizeMembershipChange = True"
| "runtime_op confirmable (Do_ApplyCommittedMembershipEntry e) = True"
| "runtime_op confirmable (Do_ConfirmApplied i) = confirmable i"
| "runtime_op confirmable (Do_ConfirmPersistence c) = True"
| "runtime_op confirmable _ = False"

fun event_ok :: "(LogIndex \<Rightarrow> bool) \<Rightarrow> RuntimeEvent \<Rightarrow> bool" where
  "event_ok confirmable (ApplyCompletion_event e) = confirmable (ace_applied_index e)"
| "event_ok confirmable _ = True"

lemma any_event: "event_ok (\<lambda>_. True) event"
  by (cases event) simp_all

text \<open>
  The index \<open>ScheduleApplyWork\<close> goes on with, and what it knows of the entry there: a drain schedules
  entries only when it has found a queue for every staged message.
\<close>

definition known :: "RaftRuntime \<Rightarrow> RaftMessage \<Rightarrow> bool" where
  "known r m \<longleftrightarrow>
     msg_target_node_id m = rc_node_id (rt_core r) \<or> map_find (rt_peer_queues r) (msg_target_node_id m) \<noteq> None"

definition next_to_schedule :: "RaftRuntime \<Rightarrow> LogIndex" where
  "next_to_schedule r =
     (if rt_next_apply_schedule r \<noteq> kInvalidLogIndex \<and>
         lg_applied_index (rc_log (rt_core r)) + 1 \<le> rt_next_apply_schedule r
      then rt_next_apply_schedule r + 1 else lg_applied_index (rc_log (rt_core r)) + 1)"

definition schedulable :: "RaftRuntime \<Rightarrow> LogIndex \<Rightarrow> LogEntry \<Rightarrow> bool" where
  "schedulable r index entry \<longleftrightarrow>
     index = next_to_schedule r \<and> GetEntry (rc_log (rt_core r)) index out = Inr entry \<and>
     index \<le> lg_commit_index (rc_log (rt_core r)) \<and> index \<le> lg_stable_index (rc_log (rt_core r)) \<and>
     lg_applied_index (rc_log (rt_core r)) + 1 \<le> index \<and>
     (\<forall>m \<in> set (queued (rt_core r)). known r m)"

lemma then_do_keeps:
  assumes "P (snd x)" "fst x = OK \<Longrightarrow> P (snd (f (snd x)))"
  shows "P (snd (then_do x f))"
  using assms by (cases x) auto

lemma known_distributed: "known (snd (DistributeOutputMessages ms r)) m \<longleftrightarrow> known r m"
proof (induction ms r rule: DistributeOutputMessages.induct)
  case (2 msg messages r)
  show ?case
  proof (cases "map_find (rt_peer_queues r) (msg_target_node_id msg)")
    case (Some q)
    have "known (r\<lparr>rt_peer_queues := map_set (msg_target_node_id msg) (q\<lparr>pq_messages := pq_messages q @ [msg]\<rparr>)
        (rt_peer_queues r)\<rparr>) m \<longleftrightarrow> known r m"
      using Some by (simp add: known_def)
    then show ?thesis using 2 Some by simp
  qed (use 2 in simp)
qed simp

lemma distributed_known:
  assumes "fst (DistributeOutputMessages ms r) = OK" "m \<in> set ms"
  shows "known r m"
  using assms
proof (induction ms r rule: DistributeOutputMessages.induct)
  case (2 msg messages r)
  show ?case
  proof (cases "msg_target_node_id msg = rc_node_id (rt_core r)")
    case True
    then show ?thesis using 2 by (auto simp: known_def)
  next
    case False
    then obtain q where q: "map_find (rt_peer_queues r) (msg_target_node_id msg) = Some q" "\<not> pq_closed q"
      "length (pq_messages q) < pq_max_capacity q"
      using 2(3) by (fastforce split: option.splits if_splits)
    show ?thesis
    proof (cases "m = msg")
      case True
      then show ?thesis using q(1) by (simp add: known_def)
    next
      case not_head: False
      let ?r = "r\<lparr>rt_peer_queues := map_set (msg_target_node_id msg) (q\<lparr>pq_messages := pq_messages q @ [msg]\<rparr>)
        (rt_peer_queues r)\<rparr>"
      have "known ?r m"
        by (rule 2(2) [OF False q(1)]) (use 2(3,4) False q not_head in auto)
      then show ?thesis using q(1) by (simp add: known_def split: if_splits)
    qed
  qed
qed simp

locale handler_invariant =
  fixes inv :: "RaftRuntime \<Rightarrow> bool"
    and ready :: "RaftCore \<Rightarrow> bool"
    and confirmable :: "LogIndex \<Rightarrow> bool"
  assumes ready_cong: "ready c \<Longrightarrow> last_index (rc_log c') = last_index (rc_log c) \<Longrightarrow>
      current_term c' = current_term c \<Longrightarrow> ready c'"
    and core_op: "inv r \<Longrightarrow> ready (rt_core r) \<Longrightarrow> runtime_op confirmable op \<Longrightarrow>
      inv (r\<lparr>rt_core := core_exec op (rt_core r)\<rparr>)"
    and push_work: "inv r \<Longrightarrow> BoundedQueue_Push w (rt_persistence_queue r) = (status, wq) \<Longrightarrow>
      inv (r\<lparr>rt_persistence_queue := wq\<rparr>)"
    and push_message: "inv r \<Longrightarrow>
      m \<in> set (queued (rt_core r)) \<or> msg_type m = INSTALL_SNAPSHOT_RESPONSE \<Longrightarrow>
      map_find (rt_peer_queues r) (msg_target_node_id m) = Some q \<Longrightarrow> \<not> pq_closed q \<Longrightarrow>
      length (pq_messages q) < pq_max_capacity q \<Longrightarrow>
      inv (r\<lparr>rt_peer_queues := map_set (msg_target_node_id m) (q\<lparr>pq_messages := pq_messages q @ [m]\<rparr>)
        (rt_peer_queues r)\<rparr>)"
    and push_apply: "inv r \<Longrightarrow> schedulable r index entry \<Longrightarrow>
      BoundedQueue_Push \<lparr>aw_index = le_index entry, aw_term = le_term entry, aw_type = le_type entry,
        aw_payload = le_payload entry, aw_proposal_id = pid\<rparr> (rt_apply_queue r) = (OK, aq) \<Longrightarrow>
      inv (r\<lparr>rt_apply_queue := aq, rt_next_apply_schedule := index\<rparr>)"
    and result: "inv r \<Longrightarrow> inv (EmitProposalResult pid i status final r)"
    and membership_result: "inv r \<Longrightarrow> inv (r\<lparr>rt_membership_results := mrs\<rparr>)"
    and pending: "inv r \<Longrightarrow> inv (r\<lparr>rt_pending_proposals := pp\<rparr>)"
    and pending_membership: "inv r \<Longrightarrow> inv (r\<lparr>rt_pending_membership_changes := pm\<rparr>)"
begin

lemma distribute:
  assumes "inv r" "\<forall>m \<in> set ms. m \<in> set (queued (rt_core r)) \<or> msg_type m = INSTALL_SNAPSHOT_RESPONSE"
  shows "inv (snd (DistributeOutputMessages ms r)) \<and> rt_core (snd (DistributeOutputMessages ms r)) = rt_core r"
  using assms
proof (induction ms r rule: DistributeOutputMessages.induct)
  case (2 msg messages r)
  show ?case
  proof (cases "msg_target_node_id msg = rc_node_id (rt_core r)")
    case True
    then show ?thesis using 2 by simp
  next
    case False
    show ?thesis
    proof (cases "map_find (rt_peer_queues r) (msg_target_node_id msg)")
      case None
      then show ?thesis using False 2 by simp
    next
      case (Some q)
      show ?thesis
      proof (cases "pq_closed q \<or> pq_max_capacity q \<le> length (pq_messages q)")
        case True
        then show ?thesis using False Some 2 by auto
      next
        case room: False
        have "inv (r\<lparr>rt_peer_queues := map_set (msg_target_node_id msg) (q\<lparr>pq_messages := pq_messages q @ [msg]\<rparr>)
            (rt_peer_queues r)\<rparr>)"
          using 2 Some room by (intro push_message) auto
        then show ?thesis using 2(2) [OF False Some] 2(4) False Some room by simp
      qed
    qed
  qed
qed simp

lemma schedule:
  assumes "inv r" "index = next_to_schedule r"
    and "range_end \<le> lg_commit_index (rc_log (rt_core r))" "range_end \<le> lg_stable_index (rc_log (rt_core r))"
    and "index \<noteq> 0 \<longrightarrow> lg_applied_index (rc_log (rt_core r)) + 1 \<le> index"
    and "\<forall>m \<in> set (queued (rt_core r)). known r m"
  shows "inv (snd (schedule_loop index range_end r)) \<and> rt_core (snd (schedule_loop index range_end r)) = rt_core r"
  using assms
proof (induction index range_end r rule: schedule_loop.induct)
  case (1 index range_end r)
  show ?case
  proof (cases "range_end < index")
    case True
    then show ?thesis using 1 by (simp add: schedule_loop.simps)
  next
    case False
    show ?thesis
    proof (cases "GetEntry (rc_log (rt_core r)) index out")
      case (Inl e)
      then show ?thesis using False 1 by (simp add: schedule_loop.simps)
    next
      case (Inr entry)
      let ?w = "\<lparr>aw_index = le_index entry, aw_term = le_term entry, aw_type = le_type entry,
        aw_payload = le_payload entry, aw_proposal_id = proposal_at index (rt_pending_proposals r)\<rparr>"
      obtain status q where push: "BoundedQueue_Push ?w (rt_apply_queue r) = (status, q)" by fastforce
      have i: "index \<noteq> 0" using Inr GetEntry_zero by auto
      show ?thesis
      proof (cases "status = OK")
        case False
        then show ?thesis using \<open>\<not> range_end < index\<close> Inr push 1 by (simp add: schedule_loop.simps)
      next
        case True
        let ?r = "r\<lparr>rt_apply_queue := q, rt_next_apply_schedule := index\<rparr>"
        have "schedulable r index entry"
          using 1 False Inr i by (auto simp: schedulable_def)
        then have inv: "inv ?r" using push_apply push True 1(2) by blast
        have next_index: "index + 1 = next_to_schedule ?r" using i 1(6) by (simp add: next_to_schedule_def)
        have later: "index + 1 \<noteq> 0 \<longrightarrow> lg_applied_index (rc_log (rt_core ?r)) + 1 \<le> index + 1"
        proof
          assume n: "index + 1 \<noteq> 0"
          then have "index < index + 1" by (rule word_next_less)
          then show "lg_applied_index (rc_log (rt_core ?r)) + 1 \<le> index + 1" using i 1(6) by auto
        qed
        have step: "schedule_loop index range_end r = schedule_loop (index + 1) range_end ?r"
          using False Inr push True by (subst schedule_loop.simps) simp
        show ?thesis
          using 1(1) [OF False Inr push [symmetric] _ inv next_index _ _ later] True 1(4,5,7) unfolding step
          by (simp add: known_def)
      qed
    qed
  qed
qed

lemma schedule_apply_work:
  assumes "inv r" "\<forall>m \<in> set (queued (rt_core r)). known r m"
  shows "inv (snd (ScheduleApplyWork r)) \<and> rt_core (snd (ScheduleApplyWork r)) = rt_core r"
proof (cases "GetApplyReadyRange (rt_core r) out")
  case (Inl e)
  then show ?thesis using assms by (simp add: ScheduleApplyWork_def)
next
  case (Inr ready)
  have range: "ar_begin ready = lg_applied_index (rc_log (rt_core r)) + 1" "ar_end ready = lg_commit_index (rc_log (rt_core r))"
    using Inr by (auto simp: GetApplyReadyRange_def split: if_splits)
  let ?start = "if rt_next_apply_schedule r \<noteq> kInvalidLogIndex \<and> ar_begin ready \<le> rt_next_apply_schedule r
    then rt_next_apply_schedule r + 1 else ar_begin ready"
  let ?stop = "if lg_stable_index (rc_log (rt_core r)) < ar_end ready
    then lg_stable_index (rc_log (rt_core r)) else ar_end ready"
  have "?start = next_to_schedule r" by (simp add: next_to_schedule_def range)
  moreover have "?stop \<le> lg_commit_index (rc_log (rt_core r))" "?stop \<le> lg_stable_index (rc_log (rt_core r))"
    by (auto simp: range)
  moreover have "?start \<noteq> 0 \<longrightarrow> lg_applied_index (rc_log (rt_core r)) + 1 \<le> ?start"
    using word_next_less [of "rt_next_apply_schedule r"] by (auto simp: range)
  ultimately have "inv (snd (schedule_loop ?start ?stop r)) \<and> rt_core (snd (schedule_loop ?start ?stop r)) = rt_core r"
    using assms by (intro schedule) simp_all
  then show ?thesis using assms by (simp add: ScheduleApplyWork_def Inr Let_def)
qed

lemma drained:
  assumes "inv r"
  shows "inv (drain r) \<and> rt_core (drain r) = rt_core r"
proof (cases "GetOutput (rt_core r) out")
  case (Inl e)
  then show ?thesis using assms by (simp add: drain_def DrainCoreOutput_def)
next
  case (Inr o1)
  let ?P = "\<lambda>r1. inv r1 \<and> rt_core r1 = rt_core r"
  have "ro_immediate_messages o1 = rc_immediate_messages (rt_core r)"
    "ro_persisted_messages o1 = map pm_message (rc_persisted_messages (rt_core r))"
    using Inr by (auto simp: GetOutput_def and_then_Inr_iff split: if_splits)
  then have queued: "set (queued (rt_core r)) = set (ro_immediate_messages o1) \<union> set (ro_persisted_messages o1)"
    by (auto simp: queued_def)
  have send: "?P (snd (DistributeOutputMessages ms r1))"
    if "?P r1" "set ms \<subseteq> set (queued (rt_core r))" for r1 ms
    using distribute [of r1 ms] that by auto
  have work: "?P (snd (case BoundedQueue_Push w (rt_persistence_queue r) of (status, q) \<Rightarrow> (status, r\<lparr>rt_persistence_queue := q\<rparr>)))" for w
    using push_work [OF assms] by (cases "BoundedQueue_Push w (rt_persistence_queue r)") simp
  have all: "?P (snd (then_do (DistributeOutputMessages (ro_immediate_messages o1) r1) (\<lambda>r2.
      then_do (DistributeOutputMessages (ro_persisted_messages o1) r2) ScheduleApplyWork)))" if "?P r1" for r1
  proof -
    let ?r2 = "snd (DistributeOutputMessages (ro_immediate_messages o1) r1)"
    let ?r3 = "snd (DistributeOutputMessages (ro_persisted_messages o1) ?r2)"
    have r2: "?P ?r2" using send that queued by simp
    have r3: "?P ?r3" using send r2 queued by simp
    have "?P (snd (ScheduleApplyWork ?r3))"
      if "fst (DistributeOutputMessages (ro_immediate_messages o1) r1) = OK"
        "fst (DistributeOutputMessages (ro_persisted_messages o1) ?r2) = OK"
    proof -
      have "\<forall>m \<in> set (queued (rt_core ?r3)). known ?r3 m"
        using distributed_known [OF that(1)] distributed_known [OF that(2)] r3 queued by (auto simp: known_distributed)
      then show ?thesis using schedule_apply_work r3 by metis
    qed
    then show ?thesis using r2 r3 by (intro then_do_keeps [of ?P]) simp_all
  qed
  show ?thesis
    unfolding drain_def DrainCoreOutput_def Inr sum.case Let_def
    by (intro then_do_keeps [of ?P] all) (use assms work in auto)
qed

lemma drain_after_core:
  assumes "inv (r\<lparr>rt_core := snd x\<rparr>)"
  shows "inv (drain_after x r)"
  using assms drained by (cases "fst x"; cases x) auto

section \<open>Handlers\<close>

lemma tick: "inv r \<Longrightarrow> ready (rt_core r) \<Longrightarrow> inv (ProcessTick r)"
  using core_op [of r Do_Tick] drained unfolding ProcessTick_def by (auto split: prod.split sum.split)

lemma install_snapshot:
  assumes "inv r" "ready (rt_core r)"
  shows "inv (fst (ProcessInstallSnapshot save req r storage))"
proof -
  let ?x = "if current_term (rt_core r) \<le> is_term req \<and> rc_role (rt_core r) \<noteq> LEARNER
    then BecomeFollower (rt_core r) (is_term req) (is_leader_id req) else (OK, rt_core r)"
  have r1: "inv (r\<lparr>rt_core := snd ?x\<rparr>)"
    using core_op [OF assms, of "Do_BecomeFollower (is_term req) (is_leader_id req)"] assms(1) by auto
  have reply: "inv (snd (DistributeOutputMessages
      [BuildInstallSnapshotResponseMessage i j resp] (r\<lparr>rt_core := snd ?x\<rparr>)))" for i j resp
  proof -
    have "\<forall>m \<in> set [BuildInstallSnapshotResponseMessage i j resp].
        m \<in> set (queued (rt_core (r\<lparr>rt_core := snd ?x\<rparr>))) \<or> msg_type m = INSTALL_SNAPSHOT_RESPONSE"
      by (simp add: BuildInstallSnapshotResponseMessage_def)
    from distribute [OF r1 this] show ?thesis by blast
  qed
  show ?thesis
    unfolding ProcessInstallSnapshot_def Let_def
    using r1 reply by (cases ?x; cases "save storage \<lparr>sd_metadata = is_metadata req, sd_payload = is_payload req\<rparr>") (simp del: DistributeOutputMessages.simps)
qed

lemma message:
  assumes "inv r" "ready (rt_core r)"
  shows "inv (fst (ProcessMessage save e r storage))"
proof -
  have "inv (drain_after x r)" if "runtime_op confirmable op" "snd x = core_exec op (rt_core r)" for op and x :: "(Status + 'z) \<times> RaftCore"
    using core_op [OF assms that(1)] that(2) by (intro drain_after_core) simp
  note vote = this [of "Do_HandleRequestVote q" "HandleRequestVote (rt_core r) q out" for q]
    and vote_reply = this [of "Do_HandleRequestVoteResponse n q" "HandleRequestVoteResponse (rt_core r) n q out" for n q]
    and append = this [of "Do_HandleAppendEntries q" "HandleAppendEntries (rt_core r) q out" for q]
    and append_reply = this [of "Do_HandleAppendEntriesResponse n q" "HandleAppendEntriesResponse (rt_core r) n q out" for n q]
  show ?thesis
    using assms(1) install_snapshot [OF assms] vote vote_reply append append_reply
    unfolding ProcessMessage_def Let_def by (auto split: RaftMessageType.split RaftMessagePayload.split)
qed

lemma proposal:
  assumes "inv r" "ready (rt_core r)"
  shows "inv (ProcessProposal e r)"
proof -
  have "inv (r\<lparr>rt_core := snd (Propose (rt_core r) (pe_payload e))\<rparr>)"
    using core_op [OF assms, of "Do_Propose (pe_payload e)"] by simp
  then show ?thesis
    by (cases "Propose (rt_core r) (pe_payload e)")
      (auto simp: ProcessProposal_def Let_def intro!: result drained [THEN conjunct1] pending)
qed

lemma fail:
  assumes "inv r"
  shows "inv (fail_pending i status r)"
proof -
  have "inv (fold (\<lambda>(pid, index) r1.
      if i \<noteq> kInvalidLogIndex \<and> index \<le> i
      then (EmitProposalResult pid index status True r1)\<lparr>rt_pending_proposals := map_erase pid (rt_pending_proposals r1)\<rparr>
      else r1) ps r)" for ps
    using assms
  proof (induction ps arbitrary: r)
    case (Cons p ps)
    have "inv ((EmitProposalResult pid index status True r)\<lparr>rt_pending_proposals := pp\<rparr>)" for pid index pp
      using Cons.prems by (intro pending result)
    then show ?case using Cons by (cases p) (simp only: fold.simps o_apply prod.case split: if_split, blast)
  qed simp
  then show ?thesis by (simp add: fail_pending_def)
qed

lemma persistence_completion:
  assumes "inv r" "ready (rt_core r)"
  shows "inv (ProcessPersistenceCompletion e r)"
proof -
  let ?p = "\<lparr>pc_status = pce_status e, pc_hard_state_persisted = (ok (pce_status e) \<and> pce_has_hard_state e),
    pc_stable_index = pce_last_log_index e, pc_max_stable_index = pce_last_log_index e\<rparr>"
  have "inv (r\<lparr>rt_core := snd (ConfirmPersistence (rt_core r) ?p)\<rparr>)"
    using core_op [OF assms, of "Do_ConfirmPersistence ?p"] by simp
  then show ?thesis
    by (cases "ConfirmPersistence (rt_core r) ?p")
      (auto simp: ProcessPersistenceCompletion_def Let_def intro!: fail drained [THEN conjunct1])
qed

lemma report: "inv r \<Longrightarrow> inv (EmitMembershipChangeResult x r)"
  unfolding EmitMembershipChangeResult_def by (rule membership_result)

lemma membership_change:
  assumes "inv r" "ready (rt_core r)"
  shows "inv (ProcessMembershipChange e r)"
proof -
  let ?x = "case mce_kind e of
      ADD_LEARNER \<Rightarrow> AddLearner (rt_core r) (mce_member e)
    | PROMOTE_LEARNER \<Rightarrow> PromoteLearner (rt_core r) (mce_target_node_id e)
    | REMOVE_MEMBER \<Rightarrow> RemoveMember (rt_core r) (mce_target_node_id e)"
  have "inv (r\<lparr>rt_core := snd ?x\<rparr>)"
    using core_op [OF assms, of "Do_AddLearner (mce_member e)"]
      core_op [OF assms, of "Do_PromoteLearner (mce_target_node_id e)"]
      core_op [OF assms, of "Do_RemoveMember (mce_target_node_id e)"] by (cases "mce_kind e") simp_all
  then have core: "inv (r\<lparr>rt_core := snd ?x, rt_pending_membership_changes := pm\<rparr>)" "inv (r\<lparr>rt_core := snd ?x\<rparr>)" for pm
    using pending_membership by blast+
  obtain i a b where hint: "ResolveLeaderHint (rt_core r) = (i, a, b)" by (cases "ResolveLeaderHint (rt_core r)") auto
  obtain y core where x: "?x = (y, core)" by fastforce
  show ?thesis
    using core assms(1) unfolding ProcessMembershipChange_def Let_def hint x
    by (cases y) (auto intro!: report drained [THEN conjunct1])
qed

lemma finished_membership:
  assumes "inv r"
  shows "inv (finish_membership i status r)"
  using assms unfolding finish_membership_def by (auto intro!: pending_membership report split: option.split)

lemma finished_proposal:
  assumes "inv r"
  shows "inv (finish_proposal pid i status r)"
  using assms unfolding finish_proposal_def by (auto simp: Let_def intro!: pending result)

lemma continued:
  assumes "inv r" "ready (rt_core r)"
  shows "inv (continue_membership i r)"
proof (cases "map_find (rt_pending_membership_changes r) i")
  case (Some p)
  obtain y core where x: "FinalizeMembershipChange (rt_core r) = (y, core)" by fastforce
  have "inv (r\<lparr>rt_core := core\<rparr>)"
    using core_op [OF assms, of Do_FinalizeMembershipChange] x by simp
  then have "inv (r\<lparr>rt_core := core, rt_pending_membership_changes := pm\<rparr>)" "inv (r\<lparr>rt_core := core\<rparr>)" for pm
    using pending_membership by blast+
  then show ?thesis
    using assms(1) unfolding continue_membership_def Some x
    by (cases y) (auto intro!: finished_membership drained [THEN conjunct1])
qed (simp add: continue_membership_def assms)

lemma apply_completion:
  assumes "inv r" "ready (rt_core r)" "confirmable (ace_applied_index e)"
  shows "inv (ProcessApplyCompletion e r)"
proof (cases "GetEntry (rc_log (rt_core r)) (ace_applied_index e) out")
  case (Inr entry)
  let ?x = "if le_type entry = MEMBERSHIP_CHANGE then ApplyCommittedMembershipEntry (rt_core r) entry else (OK, rt_core r)"
  obtain status core1 where x: "?x = (status, core1)" by fastforce
  obtain confirm core2 where y: "ConfirmApplied core1 (ace_applied_index e) = (confirm, core2)" by fastforce
  have 1: "inv (r\<lparr>rt_core := core1\<rparr>)" "ready core1"
    using core_op [OF assms(1,2), of "Do_ApplyCommittedMembershipEntry entry"] assms(1,2) x
      quiet_ApplyCommittedMembershipEntry(2,3) [of "rt_core r" entry]
    by (auto intro: ready_cong split: if_splits)
  have 2: "inv (r\<lparr>rt_core := core2\<rparr>)" "ready core2"
    using core_op [OF 1(1), of "Do_ConfirmApplied (ace_applied_index e)"] 1(2) assms(3) y
      ConfirmApplied_quiet(4,5) [of core1 "ace_applied_index e"]
    by (auto intro: ready_cong)
  show ?thesis
    using 1 2 assms(1) unfolding ProcessApplyCompletion_def Let_def Inr sum.case x prod.case y
    by (auto intro!: finished_proposal finished_membership continued)
qed (simp add: ProcessApplyCompletion_def assms)

theorem process_event:
  assumes "inv r" "ready (rt_core r)" "event_ok confirmable event"
  shows "inv (fst (ProcessEvent save event r storage))"
  using assms unfolding ProcessEvent_def
  by (cases event) (simp_all add: tick message proposal membership_change persistence_completion apply_completion)

end

section \<open>Invariants of every run\<close>

text \<open>
  The other threads and the callers take from the queues, report to the event queue and call the
  operations of \<open>runtime_call\<close>. A predicate that these steps keep too holds in every reachable state.
\<close>

locale runtime_invariant = handler_invariant inv in_range "\<lambda>_. True" for inv :: "RaftRuntime \<Rightarrow> bool" +
  assumes pop_event: "inv r \<Longrightarrow> BoundedQueue_Pop out (rt_event_queue r) = Some (x, eq) \<Longrightarrow>
      inv (r\<lparr>rt_event_queue := eq\<rparr>)"
    and pop_work: "inv r \<Longrightarrow> BoundedQueue_Pop out (rt_persistence_queue r) = Some (y, wq) \<Longrightarrow>
      inv (r\<lparr>rt_persistence_queue := wq\<rparr>)"
    and pop_apply: "inv r \<Longrightarrow> BoundedQueue_Pop out (rt_apply_queue r) = Some (z, aq) \<Longrightarrow>
      inv (r\<lparr>rt_apply_queue := aq\<rparr>)"
    and push_event: "inv r \<Longrightarrow> BoundedQueue_Push event (rt_event_queue r) = (status, eq) \<Longrightarrow>
      inv (r\<lparr>rt_event_queue := eq\<rparr>)"
    and call: "inv r \<Longrightarrow> inv (run_call c r)"
    and stopped: "inv r \<Longrightarrow> inv (r\<lparr>rt_state := Runtime_STOPPED\<rparr>)"
begin

lemma protocol_step:
  assumes "inv (sys_runtime s)" "in_range (rt_core (sys_runtime s))" "ProtocolLoop env s = Some s'"
  shows "inv (sys_runtime s')"
proof -
  obtain x q where pop: "BoundedQueue_Pop out (rt_event_queue (sys_runtime s)) = Some (x, q)" "sys_protocol s = Protocol_waiting"
    using assms(3) by (auto simp: ProtocolLoop_def split: ProtocolThread.splits option.splits)
  let ?r = "(sys_runtime s)\<lparr>rt_event_queue := q\<rparr>"
  have r: "inv ?r" using pop_event assms(1) pop(1) by blast
  have event: "inv (fst (ProcessEvent save event ?r (sys_storage s)))" for save event
    using r assms(2) any_event by (intro process_event) simp_all
  show ?thesis
  proof (cases x)
    case (Inl status)
    then show ?thesis using assms(3) pop r by (auto simp: ProtocolLoop_def split: if_splits)
  next
    case (Inr ev)
    then show ?thesis using assms(3) pop r event [of "env_save_snapshot env" ev]
      by (cases "ProcessEvent (env_save_snapshot env) ev ?r (sys_storage s)")
        (auto simp: ProtocolLoop_def Let_def split: if_splits)
  qed
qed

lemma persistence_step:
  assumes "inv (sys_runtime s)" "PersistenceLoop env s = Some s'"
  shows "inv (sys_runtime s')"
proof -
  have report: "inv (snd (EmitPersistenceCompletion e (sys_runtime s)))" for e
    using assms(1) by (auto simp: EmitPersistenceCompletion_def intro: push_event split: prod.split)
  show ?thesis
  proof (cases "sys_persistence s")
    case Persistence_waiting
    then show ?thesis using assms
      by (auto simp: PersistenceLoop_def dest!: pop_work [OF assms(1)] split: option.splits sum.splits if_splits)
  next
    case (Persistence_reporting e)
    then show ?thesis using assms report [of e] by (auto simp: PersistenceLoop_def split: prod.splits)
  qed (use assms in \<open>auto simp: PersistenceLoop_def Let_def split: prod.splits if_splits\<close>)
qed

lemma apply_step:
  assumes "inv (sys_runtime s)" "ApplyLoop env s = Some s'"
  shows "inv (sys_runtime s')"
proof -
  have report: "inv (snd (EmitApplyCompletion e (sys_runtime s)))" for e
    using assms(1) by (auto simp: EmitApplyCompletion_def intro: push_event split: prod.split)
  show ?thesis
  proof (cases "sys_apply s")
    case Apply_waiting
    then show ?thesis using assms
      by (auto simp: ApplyLoop_def dest!: pop_apply [OF assms(1)] split: option.splits sum.splits if_splits)
  next
    case (Apply_reporting e)
    then show ?thesis using assms report [of e] by (auto simp: ApplyLoop_def split: prod.splits)
  qed (use assms in \<open>auto simp: ApplyLoop_def Let_def split: prod.splits\<close>)
qed

theorem reachable_inv:
  assumes "reachable env s0 s" "inv (sys_runtime s0)"
  shows "inv (sys_runtime s)"
  using assms
proof induction
  case (step s s')
  from step.hyps(3) show ?case
  proof cases
    case protocol
    then show ?thesis using protocol_step step by blast
  next
    case persistence
    then show ?thesis using persistence_step step by blast
  next
    case apply_entry
    then show ?thesis using apply_step step by blast
  next
    case (caller c)
    then show ?thesis using call step by simp
  next
    case waiter
    then show ?thesis using stopped step by (auto simp: WaitForShutdown_def split: if_splits)
  qed
qed simp

end

end
