(* ===== verification/Runtime_Bounds.thy ===== *)
theory Runtime_Bounds
  imports Runtime_Invariant
begin

text \<open>
  Two invariants of every run of the runtime: no queue outgrows the capacity it was created with,
  and the queues to the peers hold nothing but replies.
\<close>

section \<open>Example runs\<close>

fun ranged :: "('s, 'a) Environment \<Rightarrow> actor list \<Rightarrow> ('s, 'a) System \<Rightarrow> bool" where
  "ranged env [] s = True"
| "ranged env (a # actors) s =
     (in_range (rt_core (sys_runtime s)) \<and>
      (case actor_step env a s of None \<Rightarrow> False | Some s' \<Rightarrow> ranged env actors s'))"

lemma ranged_reachable:
  assumes "ranged env actors s"
  shows "reachable env s (the (run_schedule env actors s))"
proof -
  have "reachable env s0 (the (run_schedule env actors s))" if "reachable env s0 s" for s0
    using assms that
  proof (induction actors arbitrary: s)
    case (Cons a actors)
    then obtain s' where s': "actor_step env a s = Some s'" "ranged env actors s'" "in_range (rt_core (sys_runtime s))"
      by (auto split: option.splits)
    then have "reachable env s0 s'"
      using Cons.prems(2) runtime_step_actor by (blast intro: reachable.step)
    then show ?case using Cons.IH [of s'] s' by simp
  qed simp
  then show ?thesis using reachable.start by blast
qed

text \<open>A voter of three behind queues of two, with a storage and a state machine that accept everything.\<close>

definition example_runtime_options :: RuntimeOptions where
  "example_runtime_options =
     \<lparr>ropt_event_queue_capacity = 2, ropt_persistence_queue_capacity = 2, ropt_apply_queue_capacity = 2,
      ropt_proposal_result_queue_capacity = 2, ropt_peer_queue_capacity = 2\<rparr>"

definition example_environment :: "(unit, unit) Environment" where
  "example_environment =
     \<lparr>env_append_entries = \<lambda>s _. (OK, s), env_save_hard_state = \<lambda>s _. (OK, s),
      env_save_snapshot = \<lambda>s _. (OK, s), env_apply = None\<rparr>"

definition example_system :: "(unit, unit) System" where
  "example_system = system_started example_runtime_options (example_node 1) () ()"

text \<open>The voter receives the vote request of node 2 and answers it.\<close>

definition example_actors :: "actor list" where
  "example_actors =
     [Caller (Call_EnqueueMessage 2
        \<lparr>msg_type = REQUEST_VOTE_REQUEST, msg_source_node_id = 2, msg_target_node_id = 1,
         msg_payload = RequestVoteRequestMsg example_vote_request\<rparr>), Protocol]"

definition example_answered :: "(unit, unit) System" where
  "example_answered = the (run_schedule example_environment example_actors example_system)"

lemma example_reachable:
  "reachable example_environment (system_started example_runtime_options (example_node 1) () ()) example_answered"
proof -
  have "ranged example_environment example_actors example_system" by code_simp
  then show ?thesis
    using ranged_reachable unfolding example_answered_def example_system_def by blast
qed

lemma example_answer: "PeerQueueSize (sys_runtime example_answered) 2 = 1"
  by code_simp

section \<open>Changes to the peer queues\<close>

lemma map_find_fold_emplace:
  "map_find (fold (\<lambda>k. map_emplace k v) ks m) k = Some w \<Longrightarrow> map_find m k = Some w \<or> w = v"
proof (induction ks arbitrary: m)
  case (Cons a ks)
  from Cons.prems have "map_find (map_emplace a v m) k = Some w \<or> w = v"
    by (intro Cons.IH) simp
  then show ?case by (auto simp: map_emplace_def split: option.splits if_splits)
qed simp

section \<open>Capacities\<close>

definition within :: "nat \<Rightarrow> 'a BoundedQueue \<Rightarrow> bool" where
  "within capacity q \<longleftrightarrow> bq_capacity q = capacity \<and> length (bq_queue q) \<le> capacity"

lemma within_steps:
  assumes "within n q"
  shows "within n (snd (BoundedQueue_Push x q))"
    and "BoundedQueue_Pop out q = Some (y, q') \<Longrightarrow> within n q'"
    and "within n (BoundedQueue_Close q)"
  using assms
  by (auto simp: within_def BoundedQueue_Push_def BoundedQueue_Pop_def BoundedQueue_Close_def
      split: list.splits if_splits)

lemma within_push: "within n q \<Longrightarrow> BoundedQueue_Push x q = (status, q') \<Longrightarrow> within n q'"
  using within_steps(1) [of n q x] by simp

definition bounded :: "RuntimeOptions \<Rightarrow> RaftRuntime \<Rightarrow> bool" where
  "bounded options r \<longleftrightarrow>
     within (ropt_event_queue_capacity options) (rt_event_queue r) \<and>
     within (ropt_persistence_queue_capacity options) (rt_persistence_queue r) \<and>
     within (ropt_apply_queue_capacity options) (rt_apply_queue r) \<and>
     rq_max_capacity (rt_proposal_results r) = ropt_proposal_result_queue_capacity options \<and>
     length (rq_items (rt_proposal_results r)) \<le> ropt_proposal_result_queue_capacity options \<and>
     (\<forall>n q. map_find (rt_peer_queues r) n = Some q \<longrightarrow>
        pq_max_capacity q = ropt_peer_queue_capacity options \<and>
        length (pq_messages q) \<le> ropt_peer_queue_capacity options)"

lemma bounded_call:
  assumes "bounded options r"
  shows "bounded options (run_call c r)"
proof -
  have enqueue: "bounded options (snd (Enqueue r e))" for e
    using assms within_steps(1) [of _ "rt_event_queue r" e]
    by (cases "BoundedQueue_Push e (rt_event_queue r)") (auto simp: Enqueue_def bounded_def)
  show ?thesis
  proof (cases c)
    case (Call_TryDequeuePeerMessage n)
    show ?thesis
      using assms unfolding Call_TryDequeuePeerMessage
      by (fastforce simp: TryDequeuePeerMessage_def bounded_def split: option.split list.split)
  next
    case Call_RequestShutdown
    show ?thesis
      using assms unfolding Call_RequestShutdown
      by (auto simp: RequestShutdown_def CloseAllPeerQueues_def bounded_def within_steps map_find_map_values)
  next
    case (Call_TryTakeMembershipChangeResult i)
    show ?thesis
      using assms unfolding Call_TryTakeMembershipChangeResult
      by (auto simp: TryTakeMembershipChangeResult_def bounded_def split: option.split)
  qed (use assms enqueue in \<open>auto simp: EnqueueTick_def EnqueueMessage_def EnqueueProposal_def
      EnqueueMembershipChange_def CollectProposalResults_def ClearProposalResultOverflow_def bounded_def Let_def\<close>)
qed

interpretation bounds: runtime_invariant "bounded options" for options
proof unfold_locales
  show "bounded options (run_call c r)" if "bounded options r" for c r
    using that by (rule bounded_call)
next
  fix r pid i status final
  show "bounded options (EmitProposalResult pid i status final r)" if "bounded options r"
    using that by (auto simp: EmitProposalResult_def bounded_def Let_def split: prod.split)
qed (auto simp: bounded_def in_range_def within_steps(2) dest: within_push)


lemma bounded_started: "bounded options (sys_runtime (system_started options core storage machine))"
  by (auto simp: bounded_def system_started_def Runtime_Start_def Runtime_Initialize_def Let_def
      RaftRuntime_new_def within_def BoundedQueue_new_def map_find_def [of "[]"]
      dest!: map_find_fold_emplace)

text \<open>
  C17. Bounded memory: from the start on, whatever events, calls and thread steps happen, the event,
  persistence and apply queues, the queue of every peer and the result queue never hold more than
  their configured capacities.
\<close>

theorem queues_bounded:
  assumes "reachable env (system_started options core storage machine) s"
  shows "event_queue_size (sys_runtime s) \<le> ropt_event_queue_capacity options \<and>
    persistence_queue_size (sys_runtime s) \<le> ropt_persistence_queue_capacity options \<and>
    apply_queue_size (sys_runtime s) \<le> ropt_apply_queue_capacity options \<and>
    PeerQueueSize (sys_runtime s) peer_id \<le> ropt_peer_queue_capacity options \<and>
    length (rq_items (rt_proposal_results (sys_runtime s))) \<le> ropt_proposal_result_queue_capacity options"
  using bounds.reachable_inv [OF assms bounded_started]
  by (auto simp: bounded_def within_def event_queue_size_def persistence_queue_size_def apply_queue_size_def
      BoundedQueue_size_def PeerQueueSize_def split: option.split)

theorem queues_bounded_witness:
  "PeerQueueSize (sys_runtime example_answered) 2 = 1 \<and> PeerQueueSize (sys_runtime example_answered) 2 \<le> 2"
  using queues_bounded [OF example_reachable, of 2] example_answer by (simp add: example_runtime_options_def)

section \<open>Nothing but replies\<close>

definition replies_only :: "RaftRuntime \<Rightarrow> bool" where
  "replies_only r \<longleftrightarrow>
     rc_role (rt_core r) \<noteq> LEADER \<and>
     (\<forall>m \<in> set (queued (rt_core r)). is_reply (msg_type m)) \<and>
     (\<forall>n q. map_find (rt_peer_queues r) n = Some q \<longrightarrow> (\<forall>m \<in> set (pq_messages q). is_reply (msg_type m)))"

lemma quiet_core_exec:
  assumes "runtime_op (\<lambda>_. True) op"
  shows "(rc_role (core_exec op c) = LEADER \<longrightarrow> rc_role c = LEADER) \<and>
    (\<forall>m \<in> set (queued (core_exec op c)). m \<in> set (queued c) \<or> is_reply (msg_type m))"
proof -
  have "quiet c (core_exec op c) \<or> (\<exists>i. op = Do_ConfirmApplied i)"
    using assms by (cases op) (simp_all add: quiet_step)
  then show ?thesis by (auto simp: quiet_def ConfirmApplied_quiet)
qed

lemma replies_only_call:
  assumes "replies_only r"
  shows "replies_only (run_call c r)"
proof -
  have enqueue: "replies_only (snd (Enqueue r e))" for e
    using assms by (cases "BoundedQueue_Push e (rt_event_queue r)") (auto simp: Enqueue_def replies_only_def)
  show ?thesis
  proof (cases c)
    case (Call_TryDequeuePeerMessage n)
    show ?thesis
      using assms unfolding Call_TryDequeuePeerMessage
      by (fastforce simp: TryDequeuePeerMessage_def replies_only_def split: option.split list.split)
  next
    case Call_RequestShutdown
    show ?thesis
      using assms unfolding Call_RequestShutdown
      by (auto simp: RequestShutdown_def CloseAllPeerQueues_def replies_only_def map_find_map_values)
  next
    case (Call_TryTakeMembershipChangeResult i)
    show ?thesis
      using assms unfolding Call_TryTakeMembershipChangeResult
      by (auto simp: TryTakeMembershipChangeResult_def replies_only_def split: option.split)
  qed (use assms enqueue in \<open>auto simp: EnqueueTick_def EnqueueMessage_def EnqueueProposal_def
      EnqueueMembershipChange_def CollectProposalResults_def ClearProposalResultOverflow_def replies_only_def Let_def\<close>)
qed

interpretation replies: runtime_invariant replies_only
proof unfold_locales
  show "replies_only (run_call c r)" if "replies_only r" for c r
    using that by (rule replies_only_call)
next
  fix r op
  assume "replies_only r" "runtime_op (\<lambda>_. True) op"
  then show "replies_only (r\<lparr>rt_core := core_exec op (rt_core r)\<rparr>)"
    using quiet_core_exec [of op "rt_core r"] unfolding replies_only_def by auto
next
  fix r pid i status final
  show "replies_only (EmitProposalResult pid i status final r)" if "replies_only r"
    using that by (auto simp: EmitProposalResult_def replies_only_def Let_def split: prod.split)
qed (auto simp: replies_only_def in_range_def split: if_splits)

lemma replies_only_started:
  assumes "rc_role core \<noteq> LEADER" "queued core = []" "ropt_peer_queue_capacity options \<noteq> 0"
  shows "replies_only (sys_runtime (system_started options core storage machine))"
  using assms
  by (auto simp: replies_only_def system_started_def Runtime_Start_def Runtime_Initialize_def Let_def
      RaftRuntime_new_def map_find_def [of "[]"] dest!: map_find_fold_emplace)

text \<open>
  C13. A node that does not start as the leader never becomes one and only answers: in every run its
  role is never LEADER, and every message in the queue of a peer is a reply. The runtime calls neither
  \<open>BecomeLeader\<close> nor any of the functions that build vote, append and snapshot requests: it ignores
  the action \<open>START_ELECTION\<close> of a tick and the action \<open>RECORDED_GRANT\<close> of a vote.
\<close>

theorem runtime_only_replies:
  assumes "rc_role core \<noteq> LEADER" "queued core = []" "ropt_peer_queue_capacity options \<noteq> 0"
    and "reachable env (system_started options core storage machine) s"
  shows "rc_role (rt_core (sys_runtime s)) \<noteq> LEADER \<and>
    (\<forall>n q. map_find (rt_peer_queues (sys_runtime s)) n = Some q \<longrightarrow>
       (\<forall>m \<in> set (pq_messages q). is_reply (msg_type m)))"
  using replies.reachable_inv [OF assms(4) replies_only_started [OF assms(1-3)]]
  by (simp add: replies_only_def)

theorem runtime_only_replies_witness:
  "\<exists>q m. map_find (rt_peer_queues (sys_runtime example_answered)) 2 = Some q \<and> m \<in> set (pq_messages q) \<and>
     is_reply (msg_type m)"
proof -
  have "rc_role (example_node 1) \<noteq> LEADER" "queued (example_node 1) = []" "ropt_peer_queue_capacity example_runtime_options \<noteq> 0"
    by code_simp+
  note only = runtime_only_replies [OF this example_reachable]
  obtain q where q: "map_find (rt_peer_queues (sys_runtime example_answered)) 2 = Some q" "length (pq_messages q) = 1"
    using example_answer by (auto simp: PeerQueueSize_def split: option.splits)
  then obtain m where "m \<in> set (pq_messages q)" by (cases "pq_messages q") auto
  then show ?thesis using q only by blast
qed

end
