(* ===== verification/Runtime_Order.thy ===== *)
theory Runtime_Order
  imports Runtime_Bounds
begin

text \<open>
  The order in which committed entries reach the state machine. What has been applied, what the apply
  thread holds and what waits in the apply queue is one gapless sequence of the committed entries of
  the log, which goes on where the log's applied index stood at the start.
\<close>

section \<open>The sequence of scheduled entries\<close>

definition work_entry :: "ApplyWork \<Rightarrow> LogEntry" where
  "work_entry w = \<lparr>le_index = aw_index w, le_term = aw_term w, le_type = aw_type w, le_payload = aw_payload w\<rparr>"

definition consecutive :: "nat \<Rightarrow> LogEntry list \<Rightarrow> bool" where
  "consecutive a es \<longleftrightarrow> map (\<lambda>e. unat (le_index e)) es = [Suc a ..< Suc a + length es]"

lemma consecutive_snoc: "consecutive a es \<Longrightarrow> unat (le_index e) = Suc (a + length es) \<Longrightarrow> consecutive a (es @ [e])"
  by (simp add: consecutive_def)

lemma consecutive_prefix:
  assumes "consecutive a (xs @ ys)"
  shows "consecutive a xs"
proof -
  let ?f = "\<lambda>e. unat (le_index e)"
  have "map ?f xs = take (length xs) (map ?f (xs @ ys))" by simp
  also have "\<dots> = take (length xs) [Suc a ..< Suc a + length (xs @ ys)]"
    using assms by (simp only: consecutive_def)
  also have "\<dots> = [Suc a ..< Suc a + length xs]" by (subst take_upt) simp_all
  finally show ?thesis by (simp only: consecutive_def)
qed

lemma consecutive_last: "consecutive a (es @ [e]) \<Longrightarrow> unat (le_index e) = Suc (a + length es)"
  by (simp add: consecutive_def)

text \<open>An entry of a log that later states of the log keep: committed, and stored unless compacted.\<close>

definition committed_entry :: "RaftLog \<Rightarrow> LogEntry \<Rightarrow> bool" where
  "committed_entry l e \<longleftrightarrow>
     le_index e \<le> lg_commit_index l \<and>
     (lg_snapshot_index l < le_index e \<longrightarrow> abs_log l (le_index e) = Some e)"

lemma committed_entry_le: "committed_entry l e \<Longrightarrow> log_le l l' \<Longrightarrow> committed_entry l' e"
  unfolding committed_entry_def log_le_def by (metis le_less_trans order.trans)

definition scheduled :: "nat \<Rightarrow> LogEntry list \<Rightarrow> RaftRuntime \<Rightarrow> bool" where
  "scheduled a before r \<longleftrightarrow>
     (let es = before @ map work_entry (bq_queue (rt_apply_queue r));
          l = rc_log (rt_core r)
      in core_inv (rt_core r) \<and> consecutive a es \<and> (\<forall>e \<in> set es. committed_entry l e) \<and>
         a \<le> unat (lg_applied_index l) \<and> unat (lg_applied_index l) \<le> a + length es \<and>
         unat (rt_next_apply_schedule r) = (if es = [] then 0 else a + length es))"

lemma scheduled_core:
  assumes "scheduled a before r" "core_le (rt_core r) c"
    and "unat (lg_applied_index (rc_log c)) \<le> a + length before \<or>
      lg_applied_index (rc_log c) = lg_applied_index (rc_log (rt_core r))"
  shows "scheduled a before (r\<lparr>rt_core := c\<rparr>)"
proof -
  have "lg_applied_index (rc_log (rt_core r)) \<le> lg_applied_index (rc_log c)" "log_le (rc_log (rt_core r)) (rc_log c)" "core_inv c"
    using assms(2) by (simp_all add: core_le_def log_le_def)
  moreover from this have "\<forall>e \<in> set (before @ map work_entry (bq_queue (rt_apply_queue r))). committed_entry (rc_log c) e"
    using assms(1) committed_entry_le by (metis scheduled_def)
  ultimately show ?thesis
    using assms(1,3) unfolding scheduled_def Let_def word_le_nat_alt by (auto split: if_splits)
qed

lemma applied_index_step:
  assumes "runtime_op confirmable op"
  shows "lg_applied_index (rc_log (core_exec op c)) = lg_applied_index (rc_log c) \<or>
    confirmable (lg_applied_index (rc_log (core_exec op c)))"
proof -
  have confirm: "lg_applied_index (rc_log (snd (ConfirmApplied c i))) \<in> {lg_applied_index (rc_log c), i}" for i
    by (simp add: ConfirmApplied_def AdvanceAppliedTo_def Let_def)
  have "quiet c (core_exec op c) \<or> (\<exists>i. op = Do_ConfirmApplied i)"
    using assms by (cases op) (simp_all add: quiet_step)
  then show ?thesis
  proof
    assume "\<exists>i. op = Do_ConfirmApplied i"
    then obtain i where "op = Do_ConfirmApplied i" by blast
    then show ?thesis using assms confirm [of i] by auto
  qed (simp add: quiet_def)
qed

lemma unat_next: "unat (i + 1) = Suc (unat i)" if "i + 1 \<noteq> 0" for i :: u64
proof -
  have "i \<noteq> - 1" using that by auto
  then show ?thesis
    by (intro unat_inc [of _ "- 1"]) (simp add: word_order.not_eq_extremum [symmetric])
qed

lemma schedulable_next:
  assumes "scheduled a before r" "schedulable r index entry"
  shows "unat index = Suc (a + length before + length (bq_queue (rt_apply_queue r)))"
    and "le_index entry = index" and "committed_entry (rc_log (rt_core r)) entry"
proof -
  let ?l = "rc_log (rt_core r)"
  have l: "log_inv ?l" using assms(1) by (simp add: scheduled_def Let_def core_invD)
  have e: "abs_log ?l index = Some entry" "index \<le> lg_commit_index ?l" "index = next_to_schedule r"
    using assms(2) by (auto simp: schedulable_def GetEntry_abs split: option.splits)
  then show "le_index entry = index" using abs_log_index [OF l] by blast
  then show "committed_entry ?l entry" using e by (simp add: committed_entry_def)
  have i: "index \<noteq> 0" using assms(2) GetEntry_zero by (auto simp: schedulable_def)
  show "unat index = Suc (a + length before + length (bq_queue (rt_apply_queue r)))"
  proof (cases "rt_next_apply_schedule r \<noteq> kInvalidLogIndex \<and> lg_applied_index ?l + 1 \<le> rt_next_apply_schedule r")
    case True
    then have "unat index = Suc (unat (rt_next_apply_schedule r))"
      using e(3) i unat_next by (simp add: next_to_schedule_def)
    moreover have "unat (rt_next_apply_schedule r) \<noteq> 0" using True by (simp add: unat_eq_zero)
    ultimately show ?thesis using assms(1) by (auto simp: scheduled_def Let_def split: if_splits)
  next
    case False
    then have index: "unat index = Suc (unat (lg_applied_index ?l))"
      using e(3) i unat_next by (auto simp: next_to_schedule_def)
    have "rt_next_apply_schedule r = kInvalidLogIndex \<or> unat (rt_next_apply_schedule r) \<le> unat (lg_applied_index ?l)"
      using False index e(3) by (auto simp: word_le_nat_alt next_to_schedule_def split: if_splits)
    then show ?thesis using assms(1) index by (auto simp: scheduled_def Let_def split: if_splits)
  qed
qed

lemma scheduled_bound:
  assumes "scheduled a before r" "e \<in> set before"
  shows "unat (le_index e) \<le> unat (rt_next_apply_schedule r)"
proof -
  let ?es = "before @ map work_entry (bq_queue (rt_apply_queue r))"
  have es: "consecutive a ?es" "unat (rt_next_apply_schedule r) = a + length ?es" "e \<in> set ?es"
    using assms by (auto simp: scheduled_def Let_def split: if_splits)
  then have "unat (le_index e) \<in> set (map (\<lambda>e. unat (le_index e)) ?es)" by (metis image_eqI list.set_map)
  then have "unat (le_index e) \<in> set [Suc a ..< Suc a + length ?es]" using es(1) by (simp only: consecutive_def)
  then show ?thesis using es(2) by (simp del: upt_Suc)
qed

interpretation order: handler_invariant "scheduled a before" in_range "\<lambda>i. unat i \<le> a + length before" for a before
proof unfold_locales
  fix r op
  assume r: "scheduled a before r" "in_range (rt_core r)" "runtime_op (\<lambda>i. unat i \<le> a + length before) op"
  have "core_le (rt_core r) (core_exec op (rt_core r))"
    using r(1,2) by (intro core_exec_le) (simp_all add: scheduled_def Let_def)
  then show "scheduled a before (r\<lparr>rt_core := core_exec op (rt_core r)\<rparr>)"
    using r(1) applied_index_step [OF r(3), of "rt_core r"] by (intro scheduled_core) auto
next
  fix r index entry pid aq
  assume r: "scheduled a before r" "schedulable r index entry"
    and push: "BoundedQueue_Push \<lparr>aw_index = le_index entry, aw_term = le_term entry, aw_type = le_type entry,
      aw_payload = le_payload entry, aw_proposal_id = pid\<rparr> (rt_apply_queue r) = (OK, aq)"
  have "map work_entry (bq_queue aq) = map work_entry (bq_queue (rt_apply_queue r)) @ [entry]"
    using push by (auto simp: BoundedQueue_Push_def work_entry_def split: if_splits)
  then show "scheduled a before (r\<lparr>rt_apply_queue := aq, rt_next_apply_schedule := index\<rparr>)"
    using r(1) schedulable_next [OF r]
      consecutive_snoc [of a "before @ map work_entry (bq_queue (rt_apply_queue r))" entry]
    by (auto simp: scheduled_def Let_def)
next
  show "scheduled a before (EmitProposalResult pid i status final r)" if "scheduled a before r" for r pid i status final
    using that by (auto simp: EmitProposalResult_def scheduled_def Let_def split: prod.split)
qed (auto simp: scheduled_def in_range_def Let_def)

text \<open>The handlers leave the event queue to the other threads.\<close>

interpretation events: handler_invariant "\<lambda>r. rt_event_queue r = eq" "\<lambda>_. True" "\<lambda>_. True" for eq
  by unfold_locales (auto simp: EmitProposalResult_def Let_def split: prod.split)


section \<open>Every run\<close>

fun in_flight :: "ApplyThread \<Rightarrow> LogEntry list" where
  "in_flight (Apply_running w) = [work_entry w]"
| "in_flight _ = []"

definition in_order :: "nat \<Rightarrow> ('s, 'a) System \<Rightarrow> bool" where
  "in_order a s \<longleftrightarrow>
     scheduled a (sys_applied s @ in_flight (sys_apply s)) (sys_runtime s) \<and>
     (\<forall>e. ApplyCompletion_event e \<in> set (bq_queue (rt_event_queue (sys_runtime s))) \<or> sys_apply s = Apply_reporting e \<longrightarrow>
        unat (ace_applied_index e) \<le> a + length (sys_applied s))"

lemma scheduled_cong:
  assumes "scheduled a before r" "rt_core r' = rt_core r" "rt_apply_queue r' = rt_apply_queue r"
    "rt_next_apply_schedule r' = rt_next_apply_schedule r"
  shows "scheduled a before r'"
  using assms unfolding scheduled_def by simp

lemma run_call_frame:
  "rt_core (run_call c r) = rt_core r \<and> bq_queue (rt_apply_queue (run_call c r)) = bq_queue (rt_apply_queue r) \<and>
   rt_next_apply_schedule (run_call c r) = rt_next_apply_schedule r \<and>
   (\<forall>e. ApplyCompletion_event e \<in> set (bq_queue (rt_event_queue (run_call c r))) \<longrightarrow>
      ApplyCompletion_event e \<in> set (bq_queue (rt_event_queue r)))"
proof -
  have enqueue: "rt_core (snd (Enqueue r ev)) = rt_core r \<and>
      bq_queue (rt_apply_queue (snd (Enqueue r ev))) = bq_queue (rt_apply_queue r) \<and>
      rt_next_apply_schedule (snd (Enqueue r ev)) = rt_next_apply_schedule r \<and>
      set (bq_queue (rt_event_queue (snd (Enqueue r ev)))) \<subseteq> insert ev (set (bq_queue (rt_event_queue r)))" for ev
    by (auto simp: Enqueue_def BoundedQueue_Push_def)
  show ?thesis
  proof (cases c)
    case (Call_TryDequeuePeerMessage n)
    show ?thesis unfolding Call_TryDequeuePeerMessage
      by (auto simp: TryDequeuePeerMessage_def split: option.split list.split)
  next
    case Call_RequestShutdown
    show ?thesis unfolding Call_RequestShutdown
      by (auto simp: RequestShutdown_def CloseAllPeerQueues_def BoundedQueue_Close_def)
  next
    case (Call_TryTakeMembershipChangeResult i)
    show ?thesis unfolding Call_TryTakeMembershipChangeResult
      by (auto simp: TryTakeMembershipChangeResult_def split: option.split)
  next
    case Call_EnqueueTick
    show ?thesis unfolding Call_EnqueueTick using enqueue [of Tick_event] by (auto simp: EnqueueTick_def)
  next
    case (Call_EnqueueMessage n m)
    show ?thesis unfolding Call_EnqueueMessage
      using enqueue [of "Message_event \<lparr>me_source_node_id = n, me_message = m\<rparr>"] by (auto simp: EnqueueMessage_def)
  next
    case (Call_EnqueueProposal e)
    show ?thesis unfolding Call_EnqueueProposal using enqueue [of "Proposal_event e"] by (auto simp: EnqueueProposal_def)
  next
    case (Call_EnqueueMembershipChange e)
    show ?thesis unfolding Call_EnqueueMembershipChange
      using enqueue [of "MembershipChange_event e"] by (auto simp: EnqueueMembershipChange_def)
  qed (auto simp: CollectProposalResults_def ClearProposalResultOverflow_def Let_def)
qed

lemma scheduled_queue_cong:
  assumes "scheduled a before r" "rt_core r' = rt_core r"
    "bq_queue (rt_apply_queue r') = bq_queue (rt_apply_queue r)"
    "rt_next_apply_schedule r' = rt_next_apply_schedule r"
  shows "scheduled a before r'"
  using assms unfolding scheduled_def by simp

lemma pop_facts:
  assumes "BoundedQueue_Pop out q = Some (x, q')"
  shows "set (bq_queue q') \<subseteq> set (bq_queue q)"
    and "x = Inr v \<Longrightarrow> bq_queue q = v # bq_queue q'"
    and "x = Inl status \<Longrightarrow> q' = q"
  using assms by (auto simp: BoundedQueue_Pop_def split: list.splits if_splits)

lemma protocol_in_order:
  assumes s: "in_order a s" "in_range (rt_core (sys_runtime s))" "ProtocolLoop env s = Some s'"
  shows "in_order a s'"
proof -
  obtain x q where pop: "BoundedQueue_Pop out (rt_event_queue (sys_runtime s)) = Some (x, q)" "sys_protocol s = Protocol_waiting"
    using s(3) by (auto simp: ProtocolLoop_def split: ProtocolThread.splits option.splits)
  let ?r = "(sys_runtime s)\<lparr>rt_event_queue := q\<rparr>"
  let ?before = "sys_applied s @ in_flight (sys_apply s)"
  have r: "scheduled a ?before ?r" using s(1) by (auto simp: in_order_def intro: scheduled_cong)
  show ?thesis
  proof (cases x)
    case (Inl status)
    then have "q = rt_event_queue (sys_runtime s)" using pop_facts(3) [OF pop(1)] by blast
    then show ?thesis using s(1,3) pop r Inl by (auto simp: ProtocolLoop_def in_order_def split: if_splits)
  next
    case (Inr ev)
    have q: "bq_queue (rt_event_queue (sys_runtime s)) = ev # bq_queue q" using pop_facts(2) [OF pop(1) Inr] .
    have ok: "event_ok (\<lambda>i. unat i \<le> a + length ?before) ev"
    proof (cases ev)
      case (ApplyCompletion_event e)
      then have "unat (ace_applied_index e) \<le> a + length (sys_applied s)"
        using s(1) q by (auto simp: in_order_def)
      then show ?thesis using ApplyCompletion_event by simp
    qed simp_all
    let ?p = "ProcessEvent (env_save_snapshot env) ev ?r (sys_storage s)"
    have p: "scheduled a ?before (fst ?p)" using r s(2) ok by (intro order.process_event) simp_all
    have e: "rt_event_queue (fst ?p) = q" by (intro events.process_event any_event) simp_all
    show ?thesis
    proof (cases "ev = Shutdown_event")
      case True
      then show ?thesis using s(1,3) pop r q Inr by (auto simp: ProtocolLoop_def in_order_def)
    next
      case False
      then have "s' = s\<lparr>sys_runtime := fst ?p, sys_storage := snd ?p\<rparr>"
        using s(3) pop Inr by (cases ?p) (auto simp: ProtocolLoop_def Let_def)
      then show ?thesis using s(1) p e q by (auto simp: in_order_def)
    qed
  qed
qed

lemma persistence_in_order:
  assumes "in_order a s" "PersistenceLoop env s = Some s'"
  shows "in_order a s'"
proof -
  have "sys_applied s' = sys_applied s \<and> sys_apply s' = sys_apply s \<and> rt_core (sys_runtime s') = rt_core (sys_runtime s) \<and>
    rt_apply_queue (sys_runtime s') = rt_apply_queue (sys_runtime s) \<and>
    rt_next_apply_schedule (sys_runtime s') = rt_next_apply_schedule (sys_runtime s) \<and>
    (\<forall>e. ApplyCompletion_event e \<in> set (bq_queue (rt_event_queue (sys_runtime s'))) \<longrightarrow>
       ApplyCompletion_event e \<in> set (bq_queue (rt_event_queue (sys_runtime s))))"
    using assms(2)
    by (auto simp: PersistenceLoop_def EmitPersistenceCompletion_def BoundedQueue_Push_def Let_def
        split: PersistenceThread.splits option.splits sum.splits prod.splits if_splits)
  then show ?thesis using assms(1) scheduled_cong unfolding in_order_def by metis
qed

lemma apply_in_order:
  assumes "in_order a s" "ApplyLoop env s = Some s'"
  shows "in_order a s'"
proof (cases "sys_apply s")
  case Apply_waiting
  then obtain x q where pop: "BoundedQueue_Pop out (rt_apply_queue (sys_runtime s)) = Some (x, q)"
    using assms(2) by (auto simp: ApplyLoop_def split: option.splits)
  show ?thesis
  proof (cases x)
    case (Inl status)
    then have "q = rt_apply_queue (sys_runtime s)" using pop_facts(3) [OF pop] by blast
    then show ?thesis using assms Apply_waiting pop Inl
      by (auto simp: ApplyLoop_def in_order_def split: if_splits)
  next
    case (Inr w)
    then have "bq_queue (rt_apply_queue (sys_runtime s)) = w # bq_queue q" using pop_facts(2) [OF pop] by blast
    then show ?thesis using assms Apply_waiting pop Inr
      by (auto simp: ApplyLoop_def in_order_def scheduled_def Let_def)
  qed
next
  case (Apply_running w)
  obtain status machine where m: "(case env_apply env of None \<Rightarrow> (OK, sys_machine s)
      | Some apply_fn \<Rightarrow> apply_fn (sys_machine s) (work_entry w)) = (status, machine)" by fastforce
  then have s': "s' = s\<lparr>sys_machine := machine, sys_applied := sys_applied s @ [work_entry w], sys_apply :=
      Apply_reporting \<lparr>ace_applied_index = aw_index w, ace_status = status, ace_proposal_id = aw_proposal_id w\<rparr>\<rparr>"
    using assms(2) Apply_running by (simp add: ApplyLoop_def Let_def work_entry_def [symmetric])
  have "consecutive a (sys_applied s @ [work_entry w])"
    using assms(1) Apply_running
      consecutive_prefix [of a "sys_applied s @ [work_entry w]" "map work_entry (bq_queue (rt_apply_queue (sys_runtime s)))"]
    by (simp add: in_order_def scheduled_def Let_def)
  then have "unat (aw_index w) = Suc (a + length (sys_applied s))"
    using consecutive_last by (fastforce simp: work_entry_def)
  then show ?thesis using assms(1) Apply_running by (force simp: in_order_def s')
next
  case (Apply_reporting e)
  then have s': "s' = s\<lparr>sys_runtime := snd (EmitApplyCompletion e (sys_runtime s)),
      sys_apply := (if fst (EmitApplyCompletion e (sys_runtime s)) then Apply_waiting else Apply_ended)\<rparr>"
    using assms(2) by (auto simp: ApplyLoop_def split: prod.splits)
  have "scheduled a (sys_applied s) (snd (EmitApplyCompletion e (sys_runtime s)))"
    using assms(1) Apply_reporting by (auto simp: in_order_def EmitApplyCompletion_def BoundedQueue_Push_def intro: scheduled_cong)
  moreover have "set (bq_queue (rt_event_queue (snd (EmitApplyCompletion e (sys_runtime s)))))
      \<subseteq> insert (ApplyCompletion_event e) (set (bq_queue (rt_event_queue (sys_runtime s))))"
    by (auto simp: EmitApplyCompletion_def BoundedQueue_Push_def)
  ultimately show ?thesis using assms(1) Apply_reporting by (auto simp: in_order_def s')
qed (use assms in \<open>simp add: ApplyLoop_def\<close>)

lemma reachable_in_order:
  assumes "reachable env s0 s" "in_order a s0"
  shows "in_order a s"
  using assms
proof induction
  case (step s s')
  from step.hyps(3) show ?case
  proof cases
    case protocol
    then show ?thesis using protocol_in_order step by blast
  next
    case persistence
    then show ?thesis using persistence_in_order step by blast
  next
    case apply_entry
    then show ?thesis using apply_in_order step by blast
  next
    case (caller c)
    then show ?thesis
      using step run_call_frame [of c "sys_runtime s"] scheduled_queue_cong [of a _ "sys_runtime s" "run_call c (sys_runtime s)"]
      by (simp add: in_order_def)
  next
    case waiter
    then show ?thesis using step
      by (auto simp: WaitForShutdown_def in_order_def intro: scheduled_cong split: if_splits)
  qed
qed simp


lemma in_order_started:
  assumes "core_inv core" "ropt_peer_queue_capacity options \<noteq> 0"
  shows "in_order (unat (lg_applied_index (rc_log core))) (system_started options core storage machine)"
  using assms
  by (simp add: in_order_def system_started_def Runtime_Start_def Runtime_Initialize_def Let_def
      RaftRuntime_new_def BoundedQueue_new_def scheduled_def consecutive_def)

lemma reachable_core_inv:
  assumes "core_inv core" "ropt_peer_queue_capacity options \<noteq> 0"
    and "reachable env (system_started options core storage machine) s"
  shows "core_inv (rt_core (sys_runtime s))"
  using reachable_in_order [OF assms(3) in_order_started [OF assms(1,2)]]
  by (simp add: in_order_def scheduled_def Let_def)

text \<open>
  C12. The state machine gets the committed entries in order: in every run the indexes of the entries
  handed to it are gapless and ascending from the applied index the log started with, none twice, and
  each of them is committed and is the entry that the log has at that index unless it is compacted.
\<close>

theorem applied_in_order:
  assumes "core_inv core" and "ropt_peer_queue_capacity options \<noteq> 0"
    and "reachable env (system_started options core storage machine) s"
  shows "map (\<lambda>e. unat (le_index e)) (sys_applied s) =
      [unat (lg_applied_index (rc_log core)) + 1 ..< unat (lg_applied_index (rc_log core)) + 1 + length (sys_applied s)] \<and>
    (\<forall>e \<in> set (sys_applied s). le_index e \<le> lg_commit_index (rc_log (rt_core (sys_runtime s))) \<and>
       (lg_snapshot_index (rc_log (rt_core (sys_runtime s))) < le_index e \<longrightarrow>
          GetEntry (rc_log (rt_core (sys_runtime s))) (le_index e) out = Inr e))"
proof -
  let ?es = "sys_applied s @ in_flight (sys_apply s) @ map work_entry (bq_queue (rt_apply_queue (sys_runtime s)))"
  have "in_order (unat (lg_applied_index (rc_log core))) s"
    using reachable_in_order [OF assms(3) in_order_started [OF assms(1,2)]] .
  then have es: "consecutive (unat (lg_applied_index (rc_log core))) ?es"
    "\<forall>e \<in> set ?es. committed_entry (rc_log (rt_core (sys_runtime s))) e"
    by (simp_all add: in_order_def scheduled_def Let_def)
  have "consecutive (unat (lg_applied_index (rc_log core))) (sys_applied s)"
    using es(1) by (rule consecutive_prefix)
  then show ?thesis
    using es(2) by (simp add: consecutive_def committed_entry_def GetEntry_abs del: upt_Suc)
qed

text \<open>The only voter of a cluster is its leader; a proposal runs through all threads.\<close>

definition example_sole_leader :: RaftCore where
  "example_sole_leader = snd (Initialize RaftCore_new ((example_options 1)
     \<lparr>opt_initial_role := LEADER, opt_voter_ids := [1],
      opt_hard_state := HardState_default\<lparr>hs_current_term := 1, hs_voted_for := 1\<rparr>\<rparr>))"

lemma example_sole_leader_inv: "core_inv example_sole_leader"
proof -
  have "fst (Initialize RaftCore_new ((example_options 1)\<lparr>opt_initial_role := LEADER, opt_voter_ids := [1],
      opt_hard_state := HardState_default\<lparr>hs_current_term := 1, hs_voted_for := 1\<rparr>\<rparr>)) = OK" by code_simp
  then show ?thesis
    using Initialize_inv(1) unfolding example_sole_leader_def by (metis prod.collapse)
qed

definition example_proposal_actors :: "actor list" where
  "example_proposal_actors =
     Caller (Call_EnqueueProposal \<lparr>pe_proposal_id = 7, pe_payload = [1]\<rparr>) # Protocol #
     replicate 4 Persistence @ Protocol # replicate 3 Apply_thread @ [Protocol]"

definition example_applied :: "(unit, unit) System" where
  "example_applied = the (run_schedule example_environment example_proposal_actors
     (system_started example_runtime_options example_sole_leader () ()))"

lemma example_applied_reachable:
  "reachable example_environment (system_started example_runtime_options example_sole_leader () ()) example_applied"
proof -
  have "ranged example_environment example_proposal_actors
      (system_started example_runtime_options example_sole_leader () ())" by code_simp
  then show ?thesis
    using ranged_reachable unfolding example_applied_def by blast
qed

theorem applied_in_order_witness:
  "map (\<lambda>e. unat (le_index e)) (sys_applied example_applied) = [1] \<and>
   length (sys_applied example_applied) = 1 \<and>
   map prs_status (rq_items (rt_proposal_results (sys_runtime example_applied))) = [OK]"
proof -
  have "lg_applied_index (rc_log example_sole_leader) = 0" "length (sys_applied example_applied) = 1"
    "map prs_status (rq_items (rt_proposal_results (sys_runtime example_applied))) = [OK]" by code_simp+
  then show ?thesis
    using applied_in_order [OF example_sole_leader_inv _ example_applied_reachable] by (simp add: example_runtime_options_def)
qed

end
