(* ===== verification/Runtime_Shutdown.thy ===== *)
theory Runtime_Shutdown
  imports Runtime_Bounds
begin

text \<open>
  After \<open>RequestShutdown\<close> the three queues between the threads are closed: what they hold is still
  worked off, nothing is added, and a thread ends when its queue is empty or when it cannot report.
  Every step of a thread decreases a measure, so the threads end and \<open>WaitForShutdown\<close> returns.
\<close>

section \<open>Closed queues\<close>

definition closed :: "RaftRuntime \<Rightarrow> bool" where
  "closed r \<longleftrightarrow> bq_closed (rt_event_queue r) \<and> bq_closed (rt_persistence_queue r) \<and> bq_closed (rt_apply_queue r)"

lemma queue_closed_steps:
  "bq_closed (snd (BoundedQueue_Push x q)) = bq_closed q"
  "BoundedQueue_Pop out q = Some (y, q') \<Longrightarrow> bq_closed q' = bq_closed q"
  by (auto simp: BoundedQueue_Push_def BoundedQueue_Pop_def split: list.splits if_splits)

lemma push_closed: "BoundedQueue_Push x q = (status, q') \<Longrightarrow> bq_closed q' = bq_closed q"
  using queue_closed_steps(1) [of x q] by simp

lemma stopping_call:
  assumes "rt_state r = Runtime_STOPPING \<longrightarrow> closed r"
  shows "rt_state (run_call c r) = Runtime_STOPPING \<longrightarrow> closed (run_call c r)"
proof -
  have enqueue: "rt_state (snd (Enqueue r e)) = Runtime_STOPPING \<longrightarrow> closed (snd (Enqueue r e))" for e
    using assms by (cases "BoundedQueue_Push e (rt_event_queue r)") (auto simp: Enqueue_def)
  show ?thesis
  proof (cases c)
    case (Call_TryDequeuePeerMessage n)
    show ?thesis using assms unfolding Call_TryDequeuePeerMessage
      by (auto simp: TryDequeuePeerMessage_def closed_def split: option.split list.split)
  next
    case Call_RequestShutdown
    show ?thesis using assms unfolding Call_RequestShutdown
      by (auto simp: RequestShutdown_def CloseAllPeerQueues_def BoundedQueue_Close_def closed_def)
  next
    case (Call_TryTakeMembershipChangeResult i)
    show ?thesis using assms unfolding Call_TryTakeMembershipChangeResult
      by (auto simp: TryTakeMembershipChangeResult_def closed_def split: option.split)
  qed (use assms enqueue in \<open>auto simp: EnqueueTick_def EnqueueMessage_def EnqueueProposal_def
      EnqueueMembershipChange_def CollectProposalResults_def ClearProposalResultOverflow_def closed_def Let_def\<close>)
qed

interpretation stopping: runtime_invariant "\<lambda>r. rt_state r = Runtime_STOPPING \<longrightarrow> closed r"
proof unfold_locales
  show "rt_state (run_call c r) = Runtime_STOPPING \<longrightarrow> closed (run_call c r)"
    if "rt_state r = Runtime_STOPPING \<longrightarrow> closed r" for c r
    using that by (rule stopping_call)
next
  show "rt_state (EmitProposalResult pid i status final r) = Runtime_STOPPING \<longrightarrow> closed (EmitProposalResult pid i status final r)"
    if "rt_state r = Runtime_STOPPING \<longrightarrow> closed r" for r pid i status final
    using that by (auto simp: EmitProposalResult_def closed_def Let_def split: prod.split)
qed (auto simp: closed_def in_range_def queue_closed_steps(2) dest: push_closed)

text \<open>With closed queues the handlers of the protocol thread leave all three of them alone.\<close>

interpretation frozen: handler_invariant
  "\<lambda>r. closed r \<and> rt_event_queue r = eq \<and> rt_persistence_queue r = wq \<and> rt_apply_queue r = aq \<and> rt_state r = st"
  "\<lambda>_. True" "\<lambda>_. True" for eq wq aq st
  by unfold_locales
    (auto simp: closed_def EmitProposalResult_def BoundedQueue_Push_def Let_def split: prod.split)

section \<open>The measure\<close>

fun protocol_weight :: "ProtocolThread \<Rightarrow> nat" where
  "protocol_weight Protocol_waiting = 1"
| "protocol_weight Protocol_ended = 0"

fun persistence_weight :: "PersistenceThread \<Rightarrow> nat" where
  "persistence_weight Persistence_waiting = 1"
| "persistence_weight (Persistence_writing _) = 4"
| "persistence_weight (Persistence_hard_state _ _) = 3"
| "persistence_weight (Persistence_reporting _) = 2"
| "persistence_weight Persistence_ended = 0"

fun apply_weight :: "ApplyThread \<Rightarrow> nat" where
  "apply_weight Apply_waiting = 1"
| "apply_weight (Apply_running _) = 3"
| "apply_weight (Apply_reporting _) = 2"
| "apply_weight Apply_ended = 0"

definition shutdown_measure :: "('s, 'a) System \<Rightarrow> nat" where
  "shutdown_measure s =
     protocol_weight (sys_protocol s) + event_queue_size (sys_runtime s) +
     persistence_weight (sys_persistence s) + 4 * persistence_queue_size (sys_runtime s) +
     apply_weight (sys_apply s) + 3 * apply_queue_size (sys_runtime s)"

lemmas measure_defs = shutdown_measure_def event_queue_size_def persistence_queue_size_def apply_queue_size_def
  BoundedQueue_size_def

definition threads :: "actor set" where
  "threads = {Protocol, Persistence, Apply_thread}"

lemma pop_closed:
  "bq_closed q \<Longrightarrow> BoundedQueue_Pop out q =
     (case bq_queue q of [] \<Rightarrow> Some (Inl RetryLater, q) | x # xs \<Rightarrow> Some (Inr x, q\<lparr>bq_queue := xs\<rparr>))"
  by (cases "bq_queue q") (simp_all add: BoundedQueue_Pop_def)

lemma protocol_decreases:
  assumes "closed (sys_runtime s)" "ProtocolLoop env s = Some s'"
  shows "closed (sys_runtime s') \<and> shutdown_measure s' < shutdown_measure s"
proof (cases "bq_queue (rt_event_queue (sys_runtime s))")
  case Nil
  then show ?thesis using assms
    by (auto simp: ProtocolLoop_def closed_def pop_closed measure_defs split: ProtocolThread.splits)
next
  case (Cons event rest)
  let ?q = "(rt_event_queue (sys_runtime s))\<lparr>bq_queue := rest\<rparr>"
  let ?r = "(sys_runtime s)\<lparr>rt_event_queue := ?q\<rparr>"
  let ?p = "ProcessEvent (env_save_snapshot env) event ?r (sys_storage s)"
  have p: "closed (fst ?p) \<and> rt_event_queue (fst ?p) = ?q \<and> rt_persistence_queue (fst ?p) = rt_persistence_queue (sys_runtime s) \<and>
      rt_apply_queue (fst ?p) = rt_apply_queue (sys_runtime s) \<and> rt_state (fst ?p) = rt_state (sys_runtime s)"
    using assms(1) by (intro frozen.process_event any_event) (simp_all add: closed_def)
  show ?thesis
    using assms Cons p
    by (cases ?p) (auto simp: ProtocolLoop_def closed_def pop_closed measure_defs Let_def split: ProtocolThread.splits if_splits)
qed

lemma persistence_decreases:
  assumes "closed (sys_runtime s)" "PersistenceLoop env s = Some s'"
  shows "closed (sys_runtime s') \<and> shutdown_measure s' < shutdown_measure s"
proof (cases "sys_persistence s")
  case Persistence_waiting
  then show ?thesis using assms
    by (cases "bq_queue (rt_persistence_queue (sys_runtime s))")
      (auto simp: PersistenceLoop_def closed_def pop_closed measure_defs)
next
  case (Persistence_reporting e)
  then show ?thesis using assms
    by (auto simp: PersistenceLoop_def closed_def EmitPersistenceCompletion_def BoundedQueue_Push_def measure_defs)
qed (use assms in \<open>auto simp: PersistenceLoop_def Let_def measure_defs split: prod.splits if_splits\<close>)

lemma apply_decreases:
  assumes "closed (sys_runtime s)" "ApplyLoop env s = Some s'"
  shows "closed (sys_runtime s') \<and> shutdown_measure s' < shutdown_measure s"
proof (cases "sys_apply s")
  case Apply_waiting
  then show ?thesis using assms
    by (cases "bq_queue (rt_apply_queue (sys_runtime s))")
      (auto simp: ApplyLoop_def closed_def pop_closed measure_defs)
next
  case (Apply_reporting e)
  then show ?thesis using assms
    by (auto simp: ApplyLoop_def closed_def EmitApplyCompletion_def BoundedQueue_Push_def measure_defs)
qed (use assms in \<open>auto simp: ApplyLoop_def Let_def measure_defs split: prod.splits\<close>)

lemma thread_decreases:
  assumes "closed (sys_runtime s)" "a \<in> threads" "actor_step env a s = Some s'"
  shows "closed (sys_runtime s') \<and> shutdown_measure s' < shutdown_measure s"
  using assms(2,3) protocol_decreases [OF assms(1)] persistence_decreases [OF assms(1)] apply_decreases [OF assms(1)]
  unfolding threads_def by (elim insertE) simp_all

lemma stuck_ended:
  assumes "closed (sys_runtime s)" "\<forall>a \<in> threads. actor_step env a s = None"
  shows "all_ended s"
proof -
  have "ProtocolLoop env s = None" "PersistenceLoop env s = None" "ApplyLoop env s = None"
    using assms(2) by (simp_all add: threads_def)
  then show ?thesis
    using assms(1)
    by (auto simp: all_ended_def ProtocolLoop_def PersistenceLoop_def ApplyLoop_def closed_def pop_closed Let_def
        split: ProtocolThread.splits PersistenceThread.splits ApplyThread.splits list.splits prod.splits if_splits)
qed

lemma thread_run_closed:
  assumes "closed (sys_runtime s)" "set actors \<subseteq> threads" "run_schedule env actors s = Some s'"
  shows "closed (sys_runtime s') \<and> shutdown_measure s' + length actors \<le> shutdown_measure s"
  using assms
proof (induction actors arbitrary: s)
  case (Cons a actors)
  then obtain t where t: "actor_step env a s = Some t" "run_schedule env actors t = Some s'"
    by (auto split: option.splits)
  then have "closed (sys_runtime t) \<and> shutdown_measure t < shutdown_measure s"
    using Cons.prems thread_decreases by fastforce
  then show ?case using Cons.IH [of t] Cons.prems(2) t(2) by simp
qed simp

text \<open>
  C16. The threads end after a shutdown request: in every reachable state in which one is in progress,
  no schedule of the three threads takes more steps than \<open>shutdown_measure\<close> says, and when none of
  them can take another step all three have ended and \<open>WaitForShutdown\<close> returns.
\<close>

theorem shutdown_terminates:
  assumes "reachable env (system_started options core storage machine) s"
    and "rt_state (sys_runtime s) = Runtime_STOPPING"
    and "set actors \<subseteq> threads" and "run_schedule env actors s = Some s'"
  shows "length actors \<le> shutdown_measure s \<and>
    ((\<forall>a \<in> threads. actor_step env a s' = None) \<longrightarrow>
       (\<exists>t. WaitForShutdown s' = Some t \<and> rt_state (sys_runtime t) = Runtime_STOPPED))"
proof -
  have "rt_state (sys_runtime (system_started options core storage machine)) \<noteq> Runtime_STOPPING"
    by (auto simp: system_started_def Runtime_Start_def Runtime_Initialize_def RaftRuntime_new_def Let_def)
  then have "closed (sys_runtime s)"
    using stopping.reachable_inv [OF assms(1)] assms(2) by blast
  from thread_run_closed [OF this assms(3,4)] show ?thesis
    using stuck_ended [of s' env] by (simp add: WaitForShutdown_def)
qed

text \<open>A shutdown requested while a message waits: every thread ends.\<close>

definition example_shutdown :: "(unit, unit) System" where
  "example_shutdown = the (run_schedule example_environment
     [hd example_actors, Caller Call_RequestShutdown] example_system)"

theorem shutdown_terminates_witness:
  "\<exists>t. WaitForShutdown (the (run_schedule example_environment [Protocol, Apply_thread, Protocol, Persistence] example_shutdown)) =
      Some t \<and> rt_state (sys_runtime t) = Runtime_STOPPED"
proof -
  let ?actors = "[Protocol, Apply_thread, Protocol, Persistence]"
  have "ranged example_environment [hd example_actors, Caller Call_RequestShutdown] example_system" by code_simp
  then have reach: "reachable example_environment (system_started example_runtime_options (example_node 1) () ()) example_shutdown"
    using ranged_reachable unfolding example_shutdown_def example_system_def by blast
  have state: "rt_state (sys_runtime example_shutdown) = Runtime_STOPPING" by code_simp
  have actors: "set ?actors \<subseteq> threads" by (simp add: threads_def)
  have "run_schedule example_environment ?actors example_shutdown \<noteq> None" by code_simp
  then have run: "run_schedule example_environment ?actors example_shutdown =
      Some (the (run_schedule example_environment ?actors example_shutdown))" by auto
  have "actor_step example_environment a (the (run_schedule example_environment ?actors example_shutdown)) = None"
    if "a \<in> threads" for a
  proof -
    have "actor_step example_environment Protocol (the (run_schedule example_environment ?actors example_shutdown)) = None"
      "actor_step example_environment Persistence (the (run_schedule example_environment ?actors example_shutdown)) = None"
      "actor_step example_environment Apply_thread (the (run_schedule example_environment ?actors example_shutdown)) = None"
      by code_simp+
    then show ?thesis using that unfolding threads_def by blast
  qed
  then show ?thesis using shutdown_terminates [OF reach state actors run] by blast
qed

end
