(* ===== verification/Runtime_Output.thy ===== *)
theory Runtime_Output
  imports Runtime_Order Memory_Storage
begin

text \<open>
  What \<open>DrainCoreOutput\<close> does with the output of the core: the messages that still wait for
  persistence are sent with the others, a message that cannot be delivered stops the scheduling of
  committed entries, and the entries that wait for the storage are handed to it again at every drain.
\<close>

section \<open>Distribution\<close>

text \<open>Queues only grow while messages are distributed.\<close>

definition deliverable :: "RaftRuntime \<Rightarrow> RaftMessage \<Rightarrow> bool" where
  "deliverable r m \<longleftrightarrow>
     msg_target_node_id m = rc_node_id (rt_core r) \<or>
     (case map_find (rt_peer_queues r) (msg_target_node_id m) of
        None \<Rightarrow> False
      | Some q \<Rightarrow> \<not> pq_closed q \<and> length (pq_messages q) < pq_max_capacity q)"

definition queued_for_peer :: "RaftRuntime \<Rightarrow> RaftMessage \<Rightarrow> bool" where
  "queued_for_peer r m \<longleftrightarrow>
     (\<exists>q. map_find (rt_peer_queues r) (msg_target_node_id m) = Some q \<and> m \<in> set (pq_messages q))"

lemma distribute_frame:
  "rt_core (snd (DistributeOutputMessages ms r)) = rt_core r \<and>
   rt_persistence_queue (snd (DistributeOutputMessages ms r)) = rt_persistence_queue r \<and>
   rt_apply_queue (snd (DistributeOutputMessages ms r)) = rt_apply_queue r \<and>
   rt_next_apply_schedule (snd (DistributeOutputMessages ms r)) = rt_next_apply_schedule r \<and>
   (\<forall>m. queued_for_peer r m \<longrightarrow> queued_for_peer (snd (DistributeOutputMessages ms r)) m)"
proof (induction ms r rule: DistributeOutputMessages.induct)
  case (2 msg messages r)
  show ?case
  proof (cases "map_find (rt_peer_queues r) (msg_target_node_id msg)")
    case (Some q)
    let ?r = "r\<lparr>rt_peer_queues := map_set (msg_target_node_id msg) (q\<lparr>pq_messages := pq_messages q @ [msg]\<rparr>) (rt_peer_queues r)\<rparr>"
    have "queued_for_peer r m \<Longrightarrow> queued_for_peer ?r m" for m
      using Some by (auto simp: queued_for_peer_def)
    then show ?thesis using 2 Some by simp
  qed (use 2 in simp)
qed simp

lemma distributed:
  assumes "fst (DistributeOutputMessages ms r) = OK" "m \<in> set ms" "msg_target_node_id m \<noteq> rc_node_id (rt_core r)"
  shows "queued_for_peer (snd (DistributeOutputMessages ms r)) m"
  using assms
proof (induction ms r rule: DistributeOutputMessages.induct)
  case (2 msg messages r)
  show ?case
  proof (cases "msg_target_node_id msg = rc_node_id (rt_core r)")
    case True
    then show ?thesis using 2 by auto
  next
    case False
    then obtain q where q: "map_find (rt_peer_queues r) (msg_target_node_id msg) = Some q" "\<not> pq_closed q"
      "length (pq_messages q) < pq_max_capacity q"
      using 2(3) by (fastforce split: option.splits if_splits)
    let ?r = "r\<lparr>rt_peer_queues := map_set (msg_target_node_id msg) (q\<lparr>pq_messages := pq_messages q @ [msg]\<rparr>) (rt_peer_queues r)\<rparr>"
    have step: "DistributeOutputMessages (msg # messages) r = DistributeOutputMessages messages ?r"
      using False q by simp
    show ?thesis
    proof (cases "m = msg")
      case True
      then have "queued_for_peer ?r m" by (simp add: queued_for_peer_def)
      then show ?thesis unfolding step using distribute_frame by blast
    next
      case not_head: False
      have "queued_for_peer (snd (DistributeOutputMessages messages ?r)) m"
        by (rule 2(2) [OF False q(1)]) (use 2(3-5) q step not_head in auto)
      then show ?thesis unfolding step .
    qed
  qed
qed simp

lemma undelivered:
  assumes "m \<in> set ms" "\<not> deliverable r m"
  shows "fst (DistributeOutputMessages ms r) \<noteq> OK"
  using assms
proof (induction ms r rule: DistributeOutputMessages.induct)
  case (2 msg messages r)
  show ?case
  proof (cases "deliverable r msg")
    case False
    then show ?thesis by (auto simp: deliverable_def split: option.splits)
  next
    case True
    then have m: "m \<in> set messages" using 2(3,4) by auto
    show ?thesis
    proof (cases "msg_target_node_id msg = rc_node_id (rt_core r)")
      case own: True
      then show ?thesis using 2(1,4) m by simp
    next
      case False
      then obtain q where q: "map_find (rt_peer_queues r) (msg_target_node_id msg) = Some q" "\<not> pq_closed q"
        "length (pq_messages q) < pq_max_capacity q"
        using True by (auto simp: deliverable_def split: option.splits)
      let ?r = "r\<lparr>rt_peer_queues := map_set (msg_target_node_id msg) (q\<lparr>pq_messages := pq_messages q @ [msg]\<rparr>) (rt_peer_queues r)\<rparr>"
      have "\<not> deliverable ?r m" using 2(4) q by (auto simp: deliverable_def split: option.splits)
      then have "fst (DistributeOutputMessages messages ?r) \<noteq> OK"
        using 2(2) [OF False q(1) _ _ m] q by simp
      then show ?thesis using False q by simp
    qed
  qed
qed simp

lemma distribute_undeliverable:
  "\<not> deliverable r m \<Longrightarrow> \<not> deliverable (snd (DistributeOutputMessages ms r)) m"
proof (induction ms r rule: DistributeOutputMessages.induct)
  case (2 msg messages r)
  show ?case
  proof (cases "map_find (rt_peer_queues r) (msg_target_node_id msg)")
    case (Some q)
    let ?r = "r\<lparr>rt_peer_queues := map_set (msg_target_node_id msg) (q\<lparr>pq_messages := pq_messages q @ [msg]\<rparr>) (rt_peer_queues r)\<rparr>"
    have "\<not> deliverable ?r m" using 2(3) Some by (auto simp: deliverable_def split: option.splits)
    then show ?thesis using 2 Some by simp
  qed (use 2 in simp)
qed simp

section \<open>The output of the core\<close>

lemma GetOutput_messages:
  assumes "GetOutput c out = Inr o1"
  shows "ro_immediate_messages o1 = rc_immediate_messages c" "ro_persisted_messages o1 = map pm_message (rc_persisted_messages c)"
  using assms by (auto simp: GetOutput_def and_then_Inr_iff split: if_splits)

lemma GetOutput_error: "GetOutput c out = Inl status \<Longrightarrow> status \<noteq> OK"
  by (auto simp: GetOutput_def and_then_Inl_iff GetEntries_def GetApplyReadyRange_def split: if_splits)

lemma then_do_OK_eq: "fst x = OK \<Longrightarrow> then_do x f = f (snd x)"
  by (cases x) simp

lemma then_do_OK: "fst (then_do x f) = OK \<longleftrightarrow> fst x = OK \<and> fst (f (snd x)) = OK"
  by (cases x) auto

lemma schedule_loop_frame:
  "rt_peer_queues (snd (schedule_loop i e r)) = rt_peer_queues r \<and>
   rt_persistence_queue (snd (schedule_loop i e r)) = rt_persistence_queue r"
proof (induction i e r rule: schedule_loop.induct)
  case (1 index range_end r)
  then show ?case
    by (simp add: schedule_loop.simps [of index range_end r] split: sum.split prod.split)
qed

lemma ScheduleApplyWork_peers: "rt_peer_queues (snd (ScheduleApplyWork r)) = rt_peer_queues r"
  by (simp add: ScheduleApplyWork_def schedule_loop_frame Let_def split: sum.split)

lemma ScheduleApplyWork_persistence: "rt_persistence_queue (snd (ScheduleApplyWork r)) = rt_persistence_queue r"
  by (simp add: ScheduleApplyWork_def schedule_loop_frame Let_def split: sum.split)

text \<open>A drain that succeeds distributes both kinds of messages behind the persistence work.\<close>

lemma drain_steps:
  assumes "GetOutput (rt_core r) out = Inr o1" "fst (DrainCoreOutput r) = OK"
  shows "\<exists>r1. rt_core r1 = rt_core r \<and> DrainCoreOutput r =
      then_do (DistributeOutputMessages (ro_immediate_messages o1) r1) (\<lambda>r2.
      then_do (DistributeOutputMessages (ro_persisted_messages o1) r2) ScheduleApplyWork)"
proof -
  let ?x = "if pr_has_hard_state (ro_persistence o1) \<or> has_log_entries (ro_persistence o1)
    then (case BoundedQueue_Push \<lparr>pw_has_hard_state = pr_has_hard_state (ro_persistence o1),
            pw_hard_state = pr_hard_state (ro_persistence o1), pw_entries = ro_unstable_entries o1,
            pw_max_stable_index = pr_last_log_index (ro_persistence o1)\<rparr> (rt_persistence_queue r) of
          (status, q) \<Rightarrow> (status, r\<lparr>rt_persistence_queue := q\<rparr>))
    else (OK, r)"
  have drain: "DrainCoreOutput r = then_do ?x (\<lambda>r1. then_do (DistributeOutputMessages (ro_immediate_messages o1) r1) (\<lambda>r2.
      then_do (DistributeOutputMessages (ro_persisted_messages o1) r2) ScheduleApplyWork))"
    unfolding DrainCoreOutput_def assms(1) by (simp add: Let_def)
  obtain status r1 where x: "?x = (status, r1)" by fastforce
  then have "rt_core r1 = rt_core r" by (auto split: prod.splits if_splits)
  moreover have "status = OK" using assms(2) unfolding drain x by (simp split: if_splits)
  ultimately show ?thesis unfolding drain x by (intro exI [of _ r1]) simp
qed

text \<open>
  A drain does not hold back the messages that wait for persistence: when it succeeds, every
  message that the core has staged behind the persistence of its hard state or of log entries is in
  the queue of the peer it goes to, whether or not the storage has written anything.
\<close>

theorem blocked_messages_sent:
  assumes "fst (DrainCoreOutput r) = OK"
    and "p \<in> set (rc_persisted_messages (rt_core r))"
    and "msg_target_node_id (pm_message p) \<noteq> rc_node_id (rt_core r)"
  shows "\<exists>q. map_find (rt_peer_queues (snd (DrainCoreOutput r))) (msg_target_node_id (pm_message p)) = Some q \<and>
    pm_message p \<in> set (pq_messages q)"
proof -
  obtain o1 where o1: "GetOutput (rt_core r) out = Inr o1"
    using assms(1) GetOutput_error by (cases "GetOutput (rt_core r) out") (auto simp: DrainCoreOutput_def)
  obtain r1 where r1: "rt_core r1 = rt_core r" "DrainCoreOutput r =
      then_do (DistributeOutputMessages (ro_immediate_messages o1) r1) (\<lambda>r2.
      then_do (DistributeOutputMessages (ro_persisted_messages o1) r2) ScheduleApplyWork)"
    using drain_steps [OF o1 assms(1)] by blast
  let ?r2 = "snd (DistributeOutputMessages (ro_immediate_messages o1) r1)"
  let ?r3 = "snd (DistributeOutputMessages (ro_persisted_messages o1) ?r2)"
  have sent: "fst (DistributeOutputMessages (ro_immediate_messages o1) r1) = OK"
    "fst (DistributeOutputMessages (ro_persisted_messages o1) ?r2) = OK"
    using assms(1) unfolding r1(2) by (simp_all add: then_do_OK)
  have "rt_core ?r2 = rt_core r" using distribute_frame r1(1) by metis
  then have "queued_for_peer ?r3 (pm_message p)"
    using assms(2,3) GetOutput_messages [OF o1] by (intro distributed sent) simp_all
  moreover have "snd (DrainCoreOutput r) = snd (ScheduleApplyWork ?r3)"
    unfolding r1(2) by (simp add: then_do_OK_eq sent)
  ultimately show ?thesis by (simp add: queued_for_peer_def ScheduleApplyWork_peers)
qed


text \<open>
  The answered vote request: the granted vote is on its way while the storage has not written the vote.
\<close>

theorem blocked_messages_sent_witness:
  "\<exists>p q. p \<in> set (rc_persisted_messages (rt_core (sys_runtime example_answered))) \<and>
     map_find (rt_peer_queues (sys_runtime example_answered)) 2 = Some q \<and> pm_message p \<in> set (pq_messages q) \<and>
     msg_payload (pm_message p) = RequestVoteResponseMsg \<lparr>rvr_term = 1, rvr_vote_granted = True, rvr_reject_reason = Reject_NONE\<rparr> \<and>
     hs_voted_for (rc_persisted_hard_state (rt_core (sys_runtime example_answered))) = kInvalidNodeId"
proof -
  let ?r = "(sys_runtime example_system)\<lparr>rt_core := snd (HandleRequestVote (example_node 1) example_vote_request out)\<rparr>"
  let ?p = "hd (rc_persisted_messages (rt_core ?r))"
  have facts: "fst (DrainCoreOutput ?r) = OK" "rc_persisted_messages (rt_core ?r) \<noteq> []"
    "msg_target_node_id (pm_message ?p) = 2" "rc_node_id (rt_core ?r) = 1"
    "rc_persisted_messages (rt_core (sys_runtime example_answered)) = rc_persisted_messages (rt_core ?r)"
    "rt_peer_queues (sys_runtime example_answered) = rt_peer_queues (snd (DrainCoreOutput ?r))"
    "msg_payload (pm_message ?p) = RequestVoteResponseMsg \<lparr>rvr_term = 1, rvr_vote_granted = True, rvr_reject_reason = Reject_NONE\<rparr>"
    "hs_voted_for (rc_persisted_hard_state (rt_core (sys_runtime example_answered))) = kInvalidNodeId"
    by code_simp+
  have "?p \<in> set (rc_persisted_messages (rt_core ?r))" using facts(2) by simp
  from blocked_messages_sent [OF facts(1) this] show ?thesis
    using facts \<open>?p \<in> _\<close> by force
qed

section \<open>Undelivered messages\<close>

text \<open>
  A message that cannot be delivered stops the state machine: as long as one staged message goes
  to a node without a queue (a member added after \<open>Initialize\<close>) or to one whose queue is full, a drain
  fails and schedules no committed entry, whatever the core has committed.
\<close>

theorem undelivered_stops_apply:
  assumes "m \<in> set (queued (rt_core r))" and "\<not> deliverable r m"
  shows "fst (DrainCoreOutput r) \<noteq> OK \<and> rt_apply_queue (snd (DrainCoreOutput r)) = rt_apply_queue r \<and>
    rt_next_apply_schedule (snd (DrainCoreOutput r)) = rt_next_apply_schedule r"
proof (cases "GetOutput (rt_core r) out")
  case (Inl status)
  then show ?thesis using GetOutput_error by (auto simp: DrainCoreOutput_def)
next
  case (Inr o1)
  define x where "x = (if pr_has_hard_state (ro_persistence o1) \<or> has_log_entries (ro_persistence o1)
    then (case BoundedQueue_Push \<lparr>pw_has_hard_state = pr_has_hard_state (ro_persistence o1),
            pw_hard_state = pr_hard_state (ro_persistence o1), pw_entries = ro_unstable_entries o1,
            pw_max_stable_index = pr_last_log_index (ro_persistence o1)\<rparr> (rt_persistence_queue r) of
          (status, q) \<Rightarrow> (status, r\<lparr>rt_persistence_queue := q\<rparr>))
    else (OK, r))"
  let ?d1 = "DistributeOutputMessages (ro_immediate_messages o1)"
  let ?d2 = "DistributeOutputMessages (ro_persisted_messages o1)"
  have drain: "DrainCoreOutput r = then_do x (\<lambda>r1. then_do (?d1 r1) (\<lambda>r2. then_do (?d2 r2) ScheduleApplyWork))"
    unfolding DrainCoreOutput_def Inr x_def by (simp add: Let_def)
  obtain status r1 where x: "x = (status, r1)" by fastforce
  then have r1: "rt_apply_queue r1 = rt_apply_queue r" "rt_next_apply_schedule r1 = rt_next_apply_schedule r" "\<not> deliverable r1 m"
    using assms(2) unfolding x_def by (auto simp: deliverable_def split: prod.splits if_splits)
  obtain status2 r2 where d1: "?d1 r1 = (status2, r2)" by fastforce
  obtain status3 r3 where d2: "?d2 r2 = (status3, r3)" by fastforce
  have r2: "rt_apply_queue r2 = rt_apply_queue r" "rt_next_apply_schedule r2 = rt_next_apply_schedule r"
    using distribute_frame [of "ro_immediate_messages o1" r1] r1 d1 by simp_all
  have r3: "rt_apply_queue r3 = rt_apply_queue r" "rt_next_apply_schedule r3 = rt_next_apply_schedule r"
    using distribute_frame [of "ro_persisted_messages o1" r2] r2 d2 by simp_all
  have "status2 \<noteq> OK \<or> status3 \<noteq> OK"
  proof (cases "m \<in> set (ro_immediate_messages o1)")
    case True
    then show ?thesis using undelivered [OF True r1(3)] d1 by simp
  next
    case False
    then have "m \<in> set (ro_persisted_messages o1)"
      using assms(1) GetOutput_messages [OF Inr] by (auto simp: queued_def)
    moreover have "status2 = OK \<Longrightarrow> \<not> deliverable r2 m"
      using distribute_undeliverable [OF r1(3)] d1 by (metis snd_conv)
    ultimately show ?thesis using undelivered [of m "ro_persisted_messages o1" r2] d2 by auto
  qed
  then show ?thesis using r1 r2 r3 unfolding drain x by (auto simp: d1 d2)
qed


text \<open>
  A node without a queue never gets one: \<open>Initialize\<close> creates the queues, and no later step adds one.
  What waits for such a node is replaced by newer messages to it, but never goes away.
\<close>

definition stuck :: "NodeId \<Rightarrow> LogIndex \<Rightarrow> RaftRuntime \<Rightarrow> bool" where
  "stuck n i r \<longleftrightarrow>
     n \<noteq> rc_node_id (rt_core r) \<and> map_find (rt_peer_queues r) n = None \<and>
     n \<in> msg_target_node_id ` set (queued (rt_core r)) \<and> rt_next_apply_schedule r = i"

lemma stuck_call:
  assumes "stuck n i r"
  shows "stuck n i (run_call c r)"
proof -
  have enqueue: "stuck n i (snd (Enqueue r e))" for e
    using assms by (cases "BoundedQueue_Push e (rt_event_queue r)") (auto simp: Enqueue_def stuck_def)
  show ?thesis
  proof (cases c)
    case (Call_TryDequeuePeerMessage m)
    show ?thesis
      using assms unfolding Call_TryDequeuePeerMessage
      by (auto simp: TryDequeuePeerMessage_def stuck_def split: option.split list.split)
  next
    case Call_RequestShutdown
    show ?thesis
      using assms unfolding Call_RequestShutdown
      by (auto simp: RequestShutdown_def CloseAllPeerQueues_def stuck_def map_find_map_values)
  next
    case (Call_TryTakeMembershipChangeResult j)
    show ?thesis
      using assms unfolding Call_TryTakeMembershipChangeResult
      by (auto simp: TryTakeMembershipChangeResult_def stuck_def split: option.split)
  qed (use assms enqueue in \<open>auto simp: EnqueueTick_def EnqueueMessage_def EnqueueProposal_def
      EnqueueMembershipChange_def CollectProposalResults_def ClearProposalResultOverflow_def stuck_def Let_def\<close>)
qed

interpretation stuck: runtime_invariant "stuck n i" for n i
proof unfold_locales
  show "stuck n i (run_call c r)" if "stuck n i r" for c r
    using that by (rule stuck_call)
next
  fix r op
  assume "stuck n i r" "runtime_op (\<lambda>_. True) op"
  moreover from this(2) have "quiet (rt_core r) (core_exec op (rt_core r)) \<or> (\<exists>i. op = Do_ConfirmApplied i)"
    by (cases op) (simp_all add: quiet_step)
  ultimately show "stuck n i (r\<lparr>rt_core := core_exec op (rt_core r)\<rparr>)"
    by (auto simp: stuck_def quiet_def ConfirmApplied_quiet)
next
  show "stuck n i (EmitProposalResult pid j status final r)" if "stuck n i r" for r pid j status final
    using that by (auto simp: EmitProposalResult_def stuck_def Let_def split: prod.split)
qed (auto simp: stuck_def in_range_def schedulable_def known_def)

lemma reachable_trans:
  assumes "reachable env t u" "reachable env s t"
  shows "reachable env s u"
  using assms by induction (auto intro: reachable.intros)

text \<open>
  C14. One message to a node that is not a peer ends the progress of the state machine: from the moment
  a reply to such a node is staged (for a vote request that carries an unknown candidate id is enough), no
  entry beyond those already scheduled is ever handed to the state machine, whatever happens afterwards.
\<close>

theorem unknown_target_ends_applying:
  assumes "core_inv core" and "ropt_peer_queue_capacity options \<noteq> 0"
    and "reachable env (system_started options core storage machine) s"
    and "m \<in> set (queued (rt_core (sys_runtime s)))"
    and "msg_target_node_id m \<noteq> rc_node_id (rt_core (sys_runtime s))"
    and "\<not> IsPeerRegistered (sys_runtime s) (msg_target_node_id m)"
    and "reachable env s s'"
  shows "rt_next_apply_schedule (sys_runtime s') = rt_next_apply_schedule (sys_runtime s) \<and>
    (\<forall>e \<in> set (sys_applied s'). le_index e \<le> rt_next_apply_schedule (sys_runtime s))"
proof -
  have "stuck (msg_target_node_id m) (rt_next_apply_schedule (sys_runtime s)) (sys_runtime s)"
    using assms(4-6) by (auto simp: stuck_def IsPeerRegistered_def)
  then have i: "rt_next_apply_schedule (sys_runtime s') = rt_next_apply_schedule (sys_runtime s)"
    using stuck.reachable_inv [OF assms(7)] by (simp add: stuck_def)
  let ?a = "unat (lg_applied_index (rc_log core))"
  have "reachable env (system_started options core storage machine) s'"
    using assms(7,3) by (rule reachable_trans)
  from reachable_in_order [OF this in_order_started [OF assms(1,2)]]
  have s': "scheduled ?a (sys_applied s' @ in_flight (sys_apply s')) (sys_runtime s')"
    by (simp add: in_order_def)
  have "unat (le_index e) \<le> unat (rt_next_apply_schedule (sys_runtime s'))" if "e \<in> set (sys_applied s')" for e
    using scheduled_bound [OF s', of e] that by simp
  then show ?thesis using i by (simp add: word_le_nat_alt)
qed


text \<open>
  Node 9 is no peer of the only voter of a cluster. It asks for a vote; the proposal that follows is
  committed and stored, but the apply queue stays empty.
\<close>

definition example_stray :: "(unit, unit) System" where
  "example_stray = the (run_schedule example_environment
     [Caller (Call_EnqueueMessage 9 \<lparr>msg_type = REQUEST_VOTE_REQUEST, msg_source_node_id = 9, msg_target_node_id = 1,
        msg_payload = RequestVoteRequestMsg (example_vote_request\<lparr>rv_term := 0, rv_candidate_id := 9\<rparr>)\<rparr>), Protocol]
     (system_started example_runtime_options example_sole_leader () ()))"

definition example_stalled :: "(unit, unit) System" where
  "example_stalled = the (run_schedule example_environment
     (Caller (Call_EnqueueProposal \<lparr>pe_proposal_id = 7, pe_payload = [1]\<rparr>) # Protocol # replicate 4 Persistence @ [Protocol])
     example_stray)"

theorem unknown_target_ends_applying_witness:
  "lg_commit_index (rc_log (rt_core (sys_runtime example_stalled))) = 1 \<and>
   lg_stable_index (rc_log (rt_core (sys_runtime example_stalled))) = 1 \<and>
   {e. \<exists>s. reachable example_environment example_stray s \<and> e \<in> set (sys_applied s)} \<subseteq> {e. le_index e = 0} \<and>
   rt_next_apply_schedule (sys_runtime example_stalled) = 0"
proof -
  have "ranged example_environment
      [Caller (Call_EnqueueMessage 9 \<lparr>msg_type = REQUEST_VOTE_REQUEST, msg_source_node_id = 9, msg_target_node_id = 1,
        msg_payload = RequestVoteRequestMsg (example_vote_request\<lparr>rv_term := 0, rv_candidate_id := 9\<rparr>)\<rparr>), Protocol]
      (system_started example_runtime_options example_sole_leader () ())" by code_simp
  then have stray: "reachable example_environment (system_started example_runtime_options example_sole_leader () ()) example_stray"
    unfolding example_stray_def by (rule ranged_reachable)
  have "ranged example_environment
      (Caller (Call_EnqueueProposal \<lparr>pe_proposal_id = 7, pe_payload = [1]\<rparr>) # Protocol # replicate 4 Persistence @ [Protocol])
      example_stray" by code_simp
  then have stalled: "reachable example_environment example_stray example_stalled"
    unfolding example_stalled_def by (rule ranged_reachable)
  let ?m = "hd (queued (rt_core (sys_runtime example_stray)))"
  have facts: "queued (rt_core (sys_runtime example_stray)) \<noteq> []" "msg_target_node_id ?m = 9"
    "rc_node_id (rt_core (sys_runtime example_stray)) = 1" "\<not> IsPeerRegistered (sys_runtime example_stray) 9"
    "rt_next_apply_schedule (sys_runtime example_stray) = 0" "ropt_peer_queue_capacity example_runtime_options \<noteq> 0"
    by code_simp+
  have commit: "lg_commit_index (rc_log (rt_core (sys_runtime example_stalled))) = 1"
    "lg_stable_index (rc_log (rt_core (sys_runtime example_stalled))) = 1" by code_simp+
  have "?m \<in> set (queued (rt_core (sys_runtime example_stray)))" using facts(1) by simp
  note ends = unknown_target_ends_applying [OF example_sole_leader_inv facts(6) stray this]
  have "rt_next_apply_schedule (sys_runtime s) = 0 \<and> (\<forall>e \<in> set (sys_applied s). le_index e = 0)"
    if "reachable example_environment example_stray s" for s
    using ends [OF _ _ that] facts by simp
  then show ?thesis using stalled commit by blast
qed

end
