(* ===== verification/Config.thy ===== *)
theory Config
  imports Text_Format Status Std_Map
begin

text \<open>
  \<open>config/config.h\<close> and \<open>config/config.cpp\<close>: the configuration of a server and
  \<open>ValidateConfig\<close>, with the condition it decides, \<open>well_formed\<close>, written without
  the order in which the code looks at the fields. A path is its text.
\<close>

section \<open>Data\<close>

datatype MemberRole = kVoter | kLearner

datatype LogLevel = kTrace | kDebug | kInfo | kWarn | kError | kCritical

record InitialMember =
  im_node_id :: string
  im_ip_address :: string
  im_raft_port :: u16
  im_metadata_port :: u16
  im_store_control_port :: u16
  im_role :: MemberRole

record Config =
  cfg_node_id :: string
  cfg_ip_address :: string
  cfg_raft_port :: u16
  cfg_metadata_port :: u16
  cfg_store_control_port :: u16
  cfg_initial_members :: "InitialMember list"
  cfg_heartbeat_interval_ms :: u32
  cfg_election_timeout_min_ms :: u32
  cfg_election_timeout_max_ms :: u32
  cfg_rpc_timeout_ms :: u32
  cfg_queue_capacity :: u64
  cfg_worker_count :: u64
  cfg_max_message_size :: u64
  cfg_log_batch_size :: u64
  cfg_data_directory :: string
  cfg_snapshot_directory :: string
  cfg_store_heartbeat_timeout_ms :: u32
  cfg_failure_detection_interval_ms :: u32
  cfg_task_poll_limit :: u64
  cfg_log_level :: LogLevel

fun MemberRole_ToString :: "MemberRole \<Rightarrow> string" where
  "MemberRole_ToString kVoter = ''VOTER''"
| "MemberRole_ToString kLearner = ''LEARNER''"

fun LogLevel_ToString :: "LogLevel \<Rightarrow> string" where
  "LogLevel_ToString kTrace = ''TRACE''"
| "LogLevel_ToString kDebug = ''DEBUG''"
| "LogLevel_ToString kInfo = ''INFO''"
| "LogLevel_ToString kWarn = ''WARN''"
| "LogLevel_ToString kError = ''ERROR''"
| "LogLevel_ToString kCritical = ''CRITICAL''"

section \<open>Validation\<close>

definition ValidatePositive :: "'a::zero \<Rightarrow> Status" where
  "ValidatePositive v = (if v = 0 then InvalidArgument else OK)"

definition FormatMemberAddress :: "InitialMember \<Rightarrow> string" where
  "FormatMemberAddress m =
     im_ip_address m @ '':'' @ to_string (unat (im_raft_port m)) @ '':'' @
     to_string (unat (im_metadata_port m)) @ '':'' @ to_string (unat (im_store_control_port m))"

text \<open>The first check of a list that is not OK.\<close>

fun first_failure :: "Status list \<Rightarrow> Status" where
  "first_failure [] = OK"
| "first_failure (c # cs) = (if ok c then first_failure cs else c)"

text \<open>
  The loop over the members, with the two sets and the flag it keeps; it returns the flag.
\<close>

fun ValidateConfig_members ::
  "string \<Rightarrow> InitialMember list \<Rightarrow> string set \<Rightarrow> string set \<Rightarrow> bool \<Rightarrow> Status + bool" where
  "ValidateConfig_members node_id [] node_ids addresses current_node_found = Inr current_node_found"
| "ValidateConfig_members node_id (m # ms) node_ids addresses current_node_found =
     (if im_node_id m = [] then Inl InvalidArgument
      else if im_ip_address m = [] then Inl InvalidArgument
      else if im_raft_port m = 0 \<or> im_metadata_port m = 0 \<or> im_store_control_port m = 0
        then Inl InvalidArgument
      else if im_node_id m \<in> node_ids then Inl InvalidArgument
      else if FormatMemberAddress m \<in> addresses then Inl InvalidArgument
      else ValidateConfig_members node_id ms (insert (im_node_id m) node_ids)
             (insert (FormatMemberAddress m) addresses)
             (current_node_found \<or> im_node_id m = node_id))"

definition ValidateConfig :: "Config \<Rightarrow> Status" where
  "ValidateConfig c =
     (if cfg_node_id c = [] then InvalidArgument
      else if cfg_ip_address c = [] then InvalidArgument
      else if cfg_initial_members c = [] then InvalidArgument
      else if list_ex (\<lambda>p. p = 0) [cfg_raft_port c, cfg_metadata_port c, cfg_store_control_port c]
        then InvalidArgument
      else if cfg_raft_port c = cfg_metadata_port c \<or> cfg_raft_port c = cfg_store_control_port c \<or>
              cfg_metadata_port c = cfg_store_control_port c then InvalidArgument
      else if cfg_election_timeout_max_ms c < cfg_election_timeout_min_ms c then InvalidArgument
      else if cfg_election_timeout_min_ms c \<le> cfg_heartbeat_interval_ms c then InvalidArgument
      else let checks = first_failure
             [ValidatePositive (cfg_heartbeat_interval_ms c),
              ValidatePositive (cfg_election_timeout_min_ms c),
              ValidatePositive (cfg_election_timeout_max_ms c),
              ValidatePositive (cfg_rpc_timeout_ms c),
              ValidatePositive (cfg_queue_capacity c),
              ValidatePositive (cfg_worker_count c),
              ValidatePositive (cfg_max_message_size c),
              ValidatePositive (cfg_log_batch_size c),
              ValidatePositive (cfg_store_heartbeat_timeout_ms c),
              ValidatePositive (cfg_failure_detection_interval_ms c),
              ValidatePositive (cfg_task_poll_limit c)]
      in if \<not> ok checks then checks
      else if cfg_data_directory c = [] then InvalidArgument
      else if cfg_snapshot_directory c = [] then InvalidArgument
      else case ValidateConfig_members (cfg_node_id c) (cfg_initial_members c) {} {} False of
             Inl s \<Rightarrow> s
           | Inr current_node_found \<Rightarrow> if current_node_found then OK else InvalidArgument)"

section \<open>What validation decides\<close>

text \<open>
  The conditions on a member and on a configuration: names and directories are given, every
  port and every size is positive, the three ports differ, the heartbeat is shorter than the
  shortest election timeout, no two members share a name or all of address and ports, and the
  node itself is a member.
\<close>

definition member_ok :: "InitialMember \<Rightarrow> bool" where
  "member_ok m \<longleftrightarrow> im_node_id m \<noteq> [] \<and> im_ip_address m \<noteq> [] \<and>
     0 < im_raft_port m \<and> 0 < im_metadata_port m \<and> 0 < im_store_control_port m"

definition address_of ::
  "InitialMember \<Rightarrow> string \<times> u16 \<times> u16 \<times> u16" where
  "address_of m = (im_ip_address m, im_raft_port m, im_metadata_port m, im_store_control_port m)"

definition members_ok :: "InitialMember list \<Rightarrow> bool" where
  "members_ok ms \<longleftrightarrow> list_all member_ok ms \<and>
     distinct (map im_node_id ms) \<and> distinct (map address_of ms)"

definition limits_ok :: "Config \<Rightarrow> bool" where
  "limits_ok c \<longleftrightarrow>
     0 < cfg_heartbeat_interval_ms c \<and>
     cfg_heartbeat_interval_ms c < cfg_election_timeout_min_ms c \<and>
     cfg_election_timeout_min_ms c \<le> cfg_election_timeout_max_ms c \<and>
     0 < cfg_rpc_timeout_ms c \<and> 0 < cfg_queue_capacity c \<and> 0 < cfg_worker_count c \<and>
     0 < cfg_max_message_size c \<and> 0 < cfg_log_batch_size c \<and>
     0 < cfg_store_heartbeat_timeout_ms c \<and> 0 < cfg_failure_detection_interval_ms c \<and>
     0 < cfg_task_poll_limit c"

definition well_formed :: "Config \<Rightarrow> bool" where
  "well_formed c \<longleftrightarrow>
     cfg_ip_address c \<noteq> [] \<and> cfg_data_directory c \<noteq> [] \<and> cfg_snapshot_directory c \<noteq> [] \<and>
     0 \<notin> {cfg_raft_port c, cfg_metadata_port c, cfg_store_control_port c} \<and>
     distinct [cfg_raft_port c, cfg_metadata_port c, cfg_store_control_port c] \<and>
     limits_ok c \<and> members_ok (cfg_initial_members c) \<and>
     cfg_node_id c \<in> im_node_id ` set (cfg_initial_members c)"

lemma FormatMemberAddress_eq_iff:
  "FormatMemberAddress m = FormatMemberAddress n \<longleftrightarrow> address_of m = address_of n"
proof
  note no = no_colon_in_to_string
  assume "FormatMemberAddress m = FormatMemberAddress n"
  then have e: "(im_ip_address m @ '':'' @ to_string (unat (im_raft_port m)) @ '':'' @
       to_string (unat (im_metadata_port m))) @ CHR '':'' # to_string (unat (im_store_control_port m)) =
     (im_ip_address n @ '':'' @ to_string (unat (im_raft_port n)) @ '':'' @
       to_string (unat (im_metadata_port n))) @ CHR '':'' # to_string (unat (im_store_control_port n))"
    by (simp add: FormatMemberAddress_def)
  note e1 = separated_suffix [OF e no no]
  then have "(im_ip_address m @ '':'' @ to_string (unat (im_raft_port m))) @ CHR '':'' #
       to_string (unat (im_metadata_port m)) =
     (im_ip_address n @ '':'' @ to_string (unat (im_raft_port n))) @ CHR '':'' #
       to_string (unat (im_metadata_port n))" by simp
  note e2 = separated_suffix [OF this no no]
  then have "im_ip_address m @ CHR '':'' # to_string (unat (im_raft_port m)) =
     im_ip_address n @ CHR '':'' # to_string (unat (im_raft_port n))" by simp
  note e3 = separated_suffix [OF this no no]
  from e1 e2 e3 show "address_of m = address_of n" by (simp add: address_of_def word_unat_eq_iff)
qed (simp add: address_of_def FormatMemberAddress_def)

lemma FormatMemberAddress_image:
  "FormatMemberAddress m \<in> FormatMemberAddress ` M \<longleftrightarrow> address_of m \<in> address_of ` M"
  by (auto simp: image_iff FormatMemberAddress_eq_iff)

text \<open>The loop accepts exactly the lists that add new names and new addresses.\<close>

lemma ValidateConfig_members_iff:
  "ValidateConfig_members i ms (im_node_id ` M) (FormatMemberAddress ` M) b = Inr r \<longleftrightarrow>
     members_ok ms \<and> im_node_id ` M \<inter> im_node_id ` set ms = {} \<and>
     address_of ` M \<inter> address_of ` set ms = {} \<and> r = (b \<or> i \<in> im_node_id ` set ms)"
proof (induction ms arbitrary: M b)
  case Nil
  then show ?case by (auto simp: members_ok_def)
next
  case (Cons m ms)
  note IH = Cons.IH [of "insert m M"]
  show ?case
  proof (cases "member_ok m \<and> im_node_id m \<notin> im_node_id ` M \<and> address_of m \<notin> address_of ` M")
    case True
    then show ?thesis
      using IH [of "b \<or> im_node_id m = i"]
      by (auto simp: member_ok_def members_ok_def FormatMemberAddress_image word_gt_0)
  next
    case False
    then show ?thesis
      by (auto simp: member_ok_def members_ok_def FormatMemberAddress_image word_gt_0)
  qed
qed

lemma ValidateConfig_members_fails:
  "ValidateConfig_members i ms N A b = Inl s \<Longrightarrow> s = InvalidArgument"
  by (induction i ms N A b rule: ValidateConfig_members.induct) (auto split: if_splits)

lemma first_failure_ok [simp]: "first_failure cs = OK \<longleftrightarrow> list_all ok cs"
  by (induction cs) auto

lemma first_failure_cases:
  "set cs \<subseteq> {OK, InvalidArgument} \<Longrightarrow> first_failure cs \<in> {OK, InvalidArgument}"
  by (induction cs) auto

lemma ValidatePositive_ok [simp]:
  "ValidatePositive (w :: 'a::len word) = OK \<longleftrightarrow> 0 < w"
  by (simp add: ValidatePositive_def word_gt_0)

lemma ValidatePositive_cases: "ValidatePositive w \<in> {OK, InvalidArgument}"
  by (simp add: ValidatePositive_def)

text \<open>A chain of guards that return an error is OK when none of them applies.\<close>

lemma guard_ok:
  "(if P then InvalidArgument else s) = OK \<longleftrightarrow> \<not> P \<and> s = OK"
  "(if \<not> ok t then t else s) = OK \<longleftrightarrow> t = OK \<and> s = OK"
  by auto

lemma guard_cases:
  "s \<in> {OK, InvalidArgument} \<Longrightarrow> (if P then InvalidArgument else s) \<in> {OK, InvalidArgument}"
  "t \<in> {OK, InvalidArgument} \<Longrightarrow> s \<in> {OK, InvalidArgument} \<Longrightarrow>
     (if \<not> ok t then t else s) \<in> {OK, InvalidArgument}"
  by auto

lemma ValidateConfig_cases: "ValidateConfig c \<in> {OK, InvalidArgument}"
  unfolding ValidateConfig_def Let_def
  by (intro guard_cases first_failure_cases)
    (auto simp: ValidatePositive_def dest: ValidateConfig_members_fails split: sum.splits)

lemma members_found_iff:
  "(case ValidateConfig_members i ms {} {} False of
      Inl s \<Rightarrow> s | Inr found \<Rightarrow> if found then OK else InvalidArgument) = OK \<longleftrightarrow>
   members_ok ms \<and> i \<in> im_node_id ` set ms"
  using ValidateConfig_members_iff [of i ms "{}" False]
  by (cases "ValidateConfig_members i ms {} {} False")
    (auto dest: ValidateConfig_members_fails)

lemma members_named:
  "members_ok ms \<Longrightarrow> i \<in> im_node_id ` set ms \<Longrightarrow> i \<noteq> [] \<and> ms \<noteq> []"
  by (auto simp: members_ok_def member_ok_def list_all_iff)

lemma ValidateConfig_ok_iff: "ValidateConfig c = OK \<longleftrightarrow> well_formed c"
proof -
  have *: "ValidateConfig c = OK \<longleftrightarrow>
      cfg_node_id c \<noteq> [] \<and> cfg_initial_members c \<noteq> [] \<and> well_formed c"
    unfolding ValidateConfig_def Let_def guard_ok members_found_iff well_formed_def limits_ok_def
    by (simp add: not_less not_le word_gt_0) blast
  show ?thesis
    unfolding * using members_named [of "cfg_initial_members c" "cfg_node_id c"]
    by (auto simp: well_formed_def)
qed

text \<open>
  C24. \<open>ValidateConfig\<close> answers OK for exactly the well-formed configurations: the ordered
  sequence of checks, the eleven positivity checks and the loop with its two sets, its
  textual addresses and its flag decide the conjunction of the stated conditions, and every
  other configuration is an invalid argument. In particular the text that stands for an
  address in the set of addresses identifies the address and its three ports.
\<close>

theorem ValidateConfig_decides:
  "ValidateConfig c = (if well_formed c then OK else InvalidArgument)"
  using ValidateConfig_cases [of c] by (auto simp: ValidateConfig_ok_iff)

end
