(* ===== verification/Config_Loader.thy ===== *)
theory Config_Loader
  imports Config
begin

text \<open>
  \<open>config/config_loader.cpp\<close>: reading a configuration from a JSON document. \<open>Json\<close> is the
  value type of the JSON library; its parser is a parameter of \<open>LoadFromFile\<close>, and so is
  the file system. The name of the object that is being read only enters message texts and
  is left out, with the index of a member.
\<close>

section \<open>JSON values\<close>

text \<open>
  The alternatives of \<open>nlohmann::json\<close>. The library keeps negative integers and other
  integers apart; an object is a \<open>std::map\<close>. The content of a floating point number is
  its bit pattern.
\<close>

datatype Json =
    json_null
  | json_boolean bool
  | json_integer u64
  | json_unsigned u64
  | json_float u64
  | json_string string
  | json_array "Json list"
  | json_object "(string, Json) std_map"

fun is_object :: "Json \<Rightarrow> bool" where
  "is_object (json_object m) = True"
| "is_object _ = False"

text \<open>The entries of an object, for its iteration and for \<open>find\<close>.\<close>

fun json_items :: "Json \<Rightarrow> (string, Json) std_map" where
  "json_items (json_object m) = m"
| "json_items _ = []"

section \<open>Readers\<close>

definition MakeFieldError :: Status where
  "MakeFieldError = InvalidArgument"

definition RequireObject :: "Json \<Rightarrow> Status" where
  "RequireObject v = (if \<not> is_object v then MakeFieldError else OK)"

definition RejectUnknownFields :: "Json \<Rightarrow> string list \<Rightarrow> Status" where
  "RejectUnknownFields v allowed_fields =
     (if list_all (\<lambda>(key, _). list_ex (\<lambda>field. key = field) allowed_fields) (json_items v)
      then OK else MakeFieldError)"

definition GetRequiredField :: "Json \<Rightarrow> string \<Rightarrow> Status + Json" where
  "GetRequiredField v field_name =
     (case map_find (json_items v) field_name of None \<Rightarrow> Inl MakeFieldError | Some x \<Rightarrow> Inr x)"

definition ReadString :: "Json \<Rightarrow> string \<Rightarrow> Status + string" where
  "ReadString v field_name =
     and_then (GetRequiredField v field_name) (\<lambda>field.
       case field of json_string s \<Rightarrow> Inr s | _ \<Rightarrow> Inl MakeFieldError)"

text \<open>
  The target type gives the largest value: every caller passes the largest value of the
  type it reads. An integer that is not stored as an unsigned one is read as a signed one.
\<close>

definition unsigned_in_range :: "u64 \<Rightarrow> Status + 'a::len word" where
  "unsigned_in_range parsed =
     (let max_value = (- 1 :: 'a word)
      in if parsed = 0 \<or> unat max_value < unat parsed then Inl MakeFieldError
         else Inr (ucast parsed))"

definition ReadUnsignedInteger :: "Json \<Rightarrow> string \<Rightarrow> Status + 'a::len word" where
  "ReadUnsignedInteger v field_name =
     and_then (GetRequiredField v field_name) (\<lambda>field.
       case field of
         json_unsigned u \<Rightarrow> unsigned_in_range u
       | json_integer i \<Rightarrow> if sint i \<le> 0 then Inl MakeFieldError else unsigned_in_range i
       | _ \<Rightarrow> Inl MakeFieldError)"

definition ReadMemberRole :: "Json \<Rightarrow> Status + MemberRole" where
  "ReadMemberRole v = and_then (ReadString v ''role'') (\<lambda>s.
     if s = ''VOTER'' then Inr kVoter
     else if s = ''LEARNER'' then Inr kLearner
     else Inl MakeFieldError)"

definition ReadLogLevel :: "Json \<Rightarrow> Status + LogLevel" where
  "ReadLogLevel v = and_then (ReadString v ''log_level'') (\<lambda>s.
     if s = ''TRACE'' then Inr kTrace
     else if s = ''DEBUG'' then Inr kDebug
     else if s = ''INFO'' then Inr kInfo
     else if s = ''WARN'' then Inr kWarn
     else if s = ''ERROR'' then Inr kError
     else if s = ''CRITICAL'' then Inr kCritical
     else Inl MakeFieldError)"

definition member_fields :: "string list" where
  "member_fields =
     [''node_id'', ''ip_address'', ''raft_port'', ''metadata_port'', ''store_control_port'', ''role'']"

definition ParseMember :: "Json \<Rightarrow> Status + InitialMember" where
  "ParseMember v =
     and_then (check (RequireObject v)) (\<lambda>_.
     and_then (check (RejectUnknownFields v member_fields)) (\<lambda>_.
     and_then (ReadString v ''node_id'') (\<lambda>node_id.
     and_then (ReadString v ''ip_address'') (\<lambda>ip_address.
     and_then (ReadUnsignedInteger v ''raft_port'') (\<lambda>raft_port.
     and_then (ReadUnsignedInteger v ''metadata_port'') (\<lambda>metadata_port.
     and_then (ReadUnsignedInteger v ''store_control_port'') (\<lambda>store_control_port.
     and_then (ReadMemberRole v) (\<lambda>role.
       Inr \<lparr>im_node_id = node_id, im_ip_address = ip_address, im_raft_port = raft_port,
            im_metadata_port = metadata_port, im_store_control_port = store_control_port,
            im_role = role\<rparr>))))))))"

fun ReadMembers_loop :: "Json list \<Rightarrow> Status + InitialMember list" where
  "ReadMembers_loop [] = Inr []"
| "ReadMembers_loop (v # vs) =
     and_then (ParseMember v) (\<lambda>member.
     and_then (ReadMembers_loop vs) (\<lambda>members. Inr (member # members)))"

definition ReadMembers :: "Json \<Rightarrow> Status + InitialMember list" where
  "ReadMembers v = and_then (GetRequiredField v ''initial_members'') (\<lambda>field.
     case field of json_array vs \<Rightarrow> ReadMembers_loop vs | _ \<Rightarrow> Inl MakeFieldError)"

definition root_fields :: "string list" where
  "root_fields =
     [''node_id'', ''ip_address'', ''raft_port'', ''metadata_port'', ''store_control_port'',
      ''initial_members'', ''heartbeat_interval_ms'', ''election_timeout_min_ms'',
      ''election_timeout_max_ms'', ''rpc_timeout_ms'', ''queue_capacity'', ''worker_count'',
      ''max_message_size'', ''log_batch_size'', ''data_directory'', ''snapshot_directory'',
      ''store_heartbeat_timeout_ms'', ''failure_detection_interval_ms'', ''task_poll_limit'',
      ''log_level'']"

definition ParseConfig :: "Json \<Rightarrow> Status + Config" where
  "ParseConfig root =
     and_then (check (RequireObject root)) (\<lambda>_.
     and_then (check (RejectUnknownFields root root_fields)) (\<lambda>_.
     and_then (ReadString root ''node_id'') (\<lambda>node_id.
     and_then (ReadString root ''ip_address'') (\<lambda>ip_address.
     and_then (ReadUnsignedInteger root ''raft_port'') (\<lambda>raft_port.
     and_then (ReadUnsignedInteger root ''metadata_port'') (\<lambda>metadata_port.
     and_then (ReadUnsignedInteger root ''store_control_port'') (\<lambda>store_control_port.
     and_then (ReadMembers root) (\<lambda>members.
     and_then (ReadUnsignedInteger root ''heartbeat_interval_ms'') (\<lambda>heartbeat.
     and_then (ReadUnsignedInteger root ''election_timeout_min_ms'') (\<lambda>election_min.
     and_then (ReadUnsignedInteger root ''election_timeout_max_ms'') (\<lambda>election_max.
     and_then (ReadUnsignedInteger root ''rpc_timeout_ms'') (\<lambda>rpc_timeout.
     and_then (ReadUnsignedInteger root ''queue_capacity'') (\<lambda>queue_capacity.
     and_then (ReadUnsignedInteger root ''worker_count'') (\<lambda>worker_count.
     and_then (ReadUnsignedInteger root ''max_message_size'') (\<lambda>message_size.
     and_then (ReadUnsignedInteger root ''log_batch_size'') (\<lambda>batch_size.
     and_then (ReadString root ''data_directory'') (\<lambda>data_directory.
     and_then (ReadString root ''snapshot_directory'') (\<lambda>snapshot_directory.
     and_then (ReadUnsignedInteger root ''store_heartbeat_timeout_ms'') (\<lambda>store_timeout.
     and_then (ReadUnsignedInteger root ''failure_detection_interval_ms'') (\<lambda>detection.
     and_then (ReadUnsignedInteger root ''task_poll_limit'') (\<lambda>poll_limit.
     and_then (ReadLogLevel root) (\<lambda>log_level.
       let config = \<lparr>cfg_node_id = node_id, cfg_ip_address = ip_address,
            cfg_raft_port = raft_port, cfg_metadata_port = metadata_port,
            cfg_store_control_port = store_control_port, cfg_initial_members = members,
            cfg_heartbeat_interval_ms = heartbeat, cfg_election_timeout_min_ms = election_min,
            cfg_election_timeout_max_ms = election_max, cfg_rpc_timeout_ms = rpc_timeout,
            cfg_queue_capacity = queue_capacity, cfg_worker_count = worker_count,
            cfg_max_message_size = message_size, cfg_log_batch_size = batch_size,
            cfg_data_directory = data_directory, cfg_snapshot_directory = snapshot_directory,
            cfg_store_heartbeat_timeout_ms = store_timeout,
            cfg_failure_detection_interval_ms = detection, cfg_task_poll_limit = poll_limit,
            cfg_log_level = log_level\<rparr>
       in and_then (check (ValidateConfig config)) (\<lambda>_. Inr config)))))))))))))))))))))))"

text \<open>
  \<open>LoadFromFile\<close>: \<open>read_file\<close> is the text of the file at a path, when it can be opened, and
  \<open>parse\<close> is \<open>Json::parse\<close>, \<open>None\<close> when it throws. On an error the configuration of the
  caller is not written.
\<close>

definition LoadFromFile ::
  "(string \<Rightarrow> string option) \<Rightarrow> (string \<Rightarrow> Json option) \<Rightarrow> string \<Rightarrow> out_ptr \<Rightarrow> Status + Config" where
  "LoadFromFile read_file parse path config =
     (if config = nullptr then Inl InvalidArgument
      else case read_file path of
        None \<Rightarrow> Inl kIoError
      | Some input \<Rightarrow>
          (case parse input of None \<Rightarrow> Inl InvalidArgument | Some root \<Rightarrow> ParseConfig root))"

section \<open>What a document says\<close>

text \<open>
  A document describes a configuration when its fields are exactly the known ones and each
  holds the value: a string as such, a number as an unsigned integer or as a signed one
  that is positive and has that value.
\<close>

definition holds_number :: "'a::len word \<Rightarrow> Json option \<Rightarrow> bool" where
  "holds_number w j \<longleftrightarrow> 0 < w \<and>
     (\<exists>u :: u64. unat u = unat w \<and> (j = Some (json_unsigned u) \<or> (j = Some (json_integer u) \<and> 0 < sint u)))"

definition holds_string :: "string \<Rightarrow> Json option \<Rightarrow> bool" where
  "holds_string s j \<longleftrightarrow> j = Some (json_string s)"

fun describes_member :: "Json \<Rightarrow> InitialMember \<Rightarrow> bool" where
  "describes_member (json_object o') m \<longleftrightarrow> fst ` set o' = set member_fields \<and>
     holds_string (im_node_id m) (map_of o' ''node_id'') \<and>
     holds_string (im_ip_address m) (map_of o' ''ip_address'') \<and>
     holds_number (im_raft_port m) (map_of o' ''raft_port'') \<and>
     holds_number (im_metadata_port m) (map_of o' ''metadata_port'') \<and>
     holds_number (im_store_control_port m) (map_of o' ''store_control_port'') \<and>
     holds_string (MemberRole_ToString (im_role m)) (map_of o' ''role'')"
| "describes_member _ m \<longleftrightarrow> False"

fun describes :: "Json \<Rightarrow> Config \<Rightarrow> bool" where
  "describes (json_object o') c \<longleftrightarrow> fst ` set o' = set root_fields \<and>
     holds_string (cfg_node_id c) (map_of o' ''node_id'') \<and>
     holds_string (cfg_ip_address c) (map_of o' ''ip_address'') \<and>
     holds_number (cfg_raft_port c) (map_of o' ''raft_port'') \<and>
     holds_number (cfg_metadata_port c) (map_of o' ''metadata_port'') \<and>
     holds_number (cfg_store_control_port c) (map_of o' ''store_control_port'') \<and>
     (\<exists>vs. map_of o' ''initial_members'' = Some (json_array vs) \<and>
        list_all2 describes_member vs (cfg_initial_members c)) \<and>
     holds_number (cfg_heartbeat_interval_ms c) (map_of o' ''heartbeat_interval_ms'') \<and>
     holds_number (cfg_election_timeout_min_ms c) (map_of o' ''election_timeout_min_ms'') \<and>
     holds_number (cfg_election_timeout_max_ms c) (map_of o' ''election_timeout_max_ms'') \<and>
     holds_number (cfg_rpc_timeout_ms c) (map_of o' ''rpc_timeout_ms'') \<and>
     holds_number (cfg_queue_capacity c) (map_of o' ''queue_capacity'') \<and>
     holds_number (cfg_worker_count c) (map_of o' ''worker_count'') \<and>
     holds_number (cfg_max_message_size c) (map_of o' ''max_message_size'') \<and>
     holds_number (cfg_log_batch_size c) (map_of o' ''log_batch_size'') \<and>
     holds_string (cfg_data_directory c) (map_of o' ''data_directory'') \<and>
     holds_string (cfg_snapshot_directory c) (map_of o' ''snapshot_directory'') \<and>
     holds_number (cfg_store_heartbeat_timeout_ms c) (map_of o' ''store_heartbeat_timeout_ms'') \<and>
     holds_number (cfg_failure_detection_interval_ms c)
       (map_of o' ''failure_detection_interval_ms'') \<and>
     holds_number (cfg_task_poll_limit c) (map_of o' ''task_poll_limit'') \<and>
     holds_string (LogLevel_ToString (cfg_log_level c)) (map_of o' ''log_level'')"
| "describes _ c \<longleftrightarrow> False"

lemma GetRequiredField_iff [simp]:
  "GetRequiredField v f = Inr x \<longleftrightarrow> map_of (json_items v) f = Some x"
  by (simp add: GetRequiredField_def map_find_def split: option.splits)

lemma ReadString_iff:
  "ReadString v f = Inr s \<longleftrightarrow> holds_string s (map_of (json_items v) f)"
  unfolding ReadString_def holds_string_def and_then_Inr_iff GetRequiredField_iff
  by (auto split: Json.split_asm)

lemma unsigned_in_range_iff:
  "unsigned_in_range u = Inr (w :: 'a::len word) \<longleftrightarrow> 0 < w \<and> unat u = unat w" for u :: u64
proof -
  have le: "unat w \<le> unat (- 1 :: 'a word)"
    using word_le_nat_alt [of w "- 1"] by simp
  have max: "Suc (unat (- 1 :: 'a word)) = 2 ^ LENGTH('a)"
    by (simp add: unsigned_minus_1_eq_mask mask_eq_exp_minus_1)
  have uc: "unat (ucast u :: 'a word) = unat u" if "unat u \<le> unat (- 1 :: 'a word)"
  proof -
    have "unat u < 2 ^ LENGTH('a)" using that max by simp
    then show ?thesis by (simp add: unsigned_ucast_eq take_bit_nat_eq_self_iff)
  qed
  have zero: "u = 0 \<longleftrightarrow> unat u = 0" "w = 0 \<longleftrightarrow> unat w = 0" by (simp_all add: unsigned_eq_0_iff)
  show ?thesis
    using le uc by (auto simp: unsigned_in_range_def zero word_gt_0 word_unat_eq_iff not_less)
qed

lemma ReadUnsignedInteger_iff:
  "ReadUnsignedInteger v f = Inr w \<longleftrightarrow> holds_number w (map_of (json_items v) f)"
  unfolding ReadUnsignedInteger_def Let_def and_then_Inr_iff GetRequiredField_iff holds_number_def
  by (auto simp: unsigned_in_range_iff split: Json.split_asm if_split_asm)

lemma ReadMemberRole_iff:
  "ReadMemberRole v = Inr r \<longleftrightarrow> holds_string (MemberRole_ToString r) (map_of (json_items v) ''role'')"
  unfolding ReadString_iff [symmetric] ReadMemberRole_def
  by (cases "ReadString v ''role''"; cases r) simp_all

lemma ReadLogLevel_iff:
  "ReadLogLevel v = Inr l \<longleftrightarrow>
     holds_string (LogLevel_ToString l) (map_of (json_items v) ''log_level'')"
  unfolding ReadString_iff [symmetric] ReadLogLevel_def
  by (cases "ReadString v ''log_level''"; cases l) simp_all

lemma RejectUnknownFields_iff:
  "RejectUnknownFields v fs = OK \<longleftrightarrow> fst ` set (json_items v) \<subseteq> set fs"
  by (auto simp: RejectUnknownFields_def MakeFieldError_def list_all_iff list_ex_iff)

text \<open>Every known field is read, so a document that is read has them all.\<close>

lemma holds_in_dom:
  "holds_string s (map_of m k) \<Longrightarrow> k \<in> fst ` set m"
  "holds_number w (map_of m k) \<Longrightarrow> k \<in> fst ` set m"
  by (auto simp: holds_string_def holds_number_def dest!: map_of_SomeD intro: rev_image_eqI)

lemma ParseMember_iff: "ParseMember v = Inr m \<longleftrightarrow> describes_member v m"
proof (cases v)
  case (json_object o')
  have sub: "fst ` set o' = F \<longleftrightarrow> fst ` set o' \<subseteq> F \<and> F \<subseteq> fst ` set o'" for F by blast
  have *: "ParseMember v = Inr m \<longleftrightarrow> fst ` set o' \<subseteq> set member_fields \<and>
     holds_string (im_node_id m) (map_of o' ''node_id'') \<and>
     holds_string (im_ip_address m) (map_of o' ''ip_address'') \<and>
     holds_number (im_raft_port m) (map_of o' ''raft_port'') \<and>
     holds_number (im_metadata_port m) (map_of o' ''metadata_port'') \<and>
     holds_number (im_store_control_port m) (map_of o' ''store_control_port'') \<and>
     holds_string (MemberRole_ToString (im_role m)) (map_of o' ''role'')"
    unfolding ParseMember_def and_then_Inr_iff check_simps RejectUnknownFields_iff ReadString_iff
      ReadUnsignedInteger_iff ReadMemberRole_iff json_object
    by (cases m) (auto simp: RequireObject_def)
  show ?thesis
    unfolding *
    unfolding json_object describes_member.simps sub [of "set member_fields"]
    by (auto simp: member_fields_def dest: holds_in_dom)
qed (auto simp: ParseMember_def RequireObject_def MakeFieldError_def and_then_Inr_iff)

lemma ReadMembers_loop_iff:
  "ReadMembers_loop vs = Inr ms \<longleftrightarrow> list_all2 describes_member vs ms"
  by (induction vs arbitrary: ms) (auto simp: and_then_Inr_iff ParseMember_iff list_all2_Cons1)

lemma ReadMembers_iff:
  "ReadMembers v = Inr ms \<longleftrightarrow>
     (\<exists>vs. map_of (json_items v) ''initial_members'' = Some (json_array vs) \<and>
        list_all2 describes_member vs ms)"
  unfolding ReadMembers_def and_then_Inr_iff GetRequiredField_iff
  by (auto simp: ReadMembers_loop_iff split: Json.split_asm)

text \<open>
  The object is read field by field; here the fields are a conjunction, in the order of
  \<open>describes\<close>.
\<close>

definition fields_describe :: "Json \<Rightarrow> Config \<Rightarrow> bool" where
  "fields_describe v c \<longleftrightarrow>
     ReadString v ''node_id'' = Inr (cfg_node_id c) \<and>
     ReadString v ''ip_address'' = Inr (cfg_ip_address c) \<and>
     ReadUnsignedInteger v ''raft_port'' = Inr (cfg_raft_port c) \<and>
     ReadUnsignedInteger v ''metadata_port'' = Inr (cfg_metadata_port c) \<and>
     ReadUnsignedInteger v ''store_control_port'' = Inr (cfg_store_control_port c) \<and>
     ReadMembers v = Inr (cfg_initial_members c) \<and>
     ReadUnsignedInteger v ''heartbeat_interval_ms'' = Inr (cfg_heartbeat_interval_ms c) \<and>
     ReadUnsignedInteger v ''election_timeout_min_ms'' = Inr (cfg_election_timeout_min_ms c) \<and>
     ReadUnsignedInteger v ''election_timeout_max_ms'' = Inr (cfg_election_timeout_max_ms c) \<and>
     ReadUnsignedInteger v ''rpc_timeout_ms'' = Inr (cfg_rpc_timeout_ms c) \<and>
     ReadUnsignedInteger v ''queue_capacity'' = Inr (cfg_queue_capacity c) \<and>
     ReadUnsignedInteger v ''worker_count'' = Inr (cfg_worker_count c) \<and>
     ReadUnsignedInteger v ''max_message_size'' = Inr (cfg_max_message_size c) \<and>
     ReadUnsignedInteger v ''log_batch_size'' = Inr (cfg_log_batch_size c) \<and>
     ReadString v ''data_directory'' = Inr (cfg_data_directory c) \<and>
     ReadString v ''snapshot_directory'' = Inr (cfg_snapshot_directory c) \<and>
     ReadUnsignedInteger v ''store_heartbeat_timeout_ms'' = Inr (cfg_store_heartbeat_timeout_ms c) \<and>
     ReadUnsignedInteger v ''failure_detection_interval_ms'' =
       Inr (cfg_failure_detection_interval_ms c) \<and>
     ReadUnsignedInteger v ''task_poll_limit'' = Inr (cfg_task_poll_limit c) \<and>
     ReadLogLevel v = Inr (cfg_log_level c)"

lemma ParseConfig_fields:
  "ParseConfig v = Inr c \<longleftrightarrow> is_object v \<and> fst ` set (json_items v) \<subseteq> set root_fields \<and>
     fields_describe v c \<and> ValidateConfig c = OK"
  unfolding ParseConfig_def and_then_Inr_iff check_simps RejectUnknownFields_iff Let_def
    fields_describe_def RequireObject_def MakeFieldError_def
  by (cases c) auto

lemma fields_describe_iff:
  "is_object v \<and> fst ` set (json_items v) \<subseteq> set root_fields \<and> fields_describe v c \<longleftrightarrow> describes v c"
proof (cases v)
  case (json_object o')
  have sub: "fst ` set o' = F \<longleftrightarrow> fst ` set o' \<subseteq> F \<and> F \<subseteq> fst ` set o'" for F by blast
  have members: "''initial_members'' \<in> fst ` set o'" if "map_of o' ''initial_members'' = Some x" for x
    using map_of_SomeD [OF that] by (rule rev_image_eqI) simp
  show ?thesis
    unfolding fields_describe_def ReadString_iff ReadUnsignedInteger_iff ReadLogLevel_iff
      ReadMembers_iff json_object describes.simps sub [of "set root_fields"] json_items.simps
      is_object.simps
    by (intro iffI conjI; elim conjE exE)
      (simp_all add: root_fields_def holds_in_dom [where m = o'] members)
qed simp_all

text \<open>
  A document is accepted as a configuration exactly when it describes one that is
  well-formed: every known field and no other is present, at the root and in every member,
  each has the right type and a value in the range of its integer type, and the
  configuration that results passes validation. The configuration that is returned is the
  described one, field by field.
\<close>

theorem ParseConfig_accepts:
  "ParseConfig v = Inr c \<longleftrightarrow> describes v c \<and> well_formed c"
  unfolding ParseConfig_fields ValidateConfig_ok_iff fields_describe_iff [symmetric] by blast

section \<open>Errors\<close>

text \<open>Every failure of a reader is an invalid argument, and so is one of their sequence.\<close>

definition invalid_only :: "Status + 'a \<Rightarrow> bool" where
  "invalid_only r \<longleftrightarrow> (\<forall>s. r = Inl s \<longrightarrow> s = InvalidArgument)"

lemma invalid_only_and_then:
  "invalid_only m \<Longrightarrow> (\<And>x. invalid_only (f x)) \<Longrightarrow> invalid_only (and_then m f)"
  by (auto simp: invalid_only_def and_then_Inl_iff)

lemma invalid_only_simps [simp]: "invalid_only (Inr x)" "invalid_only (Inl MakeFieldError)"
  by (simp_all add: invalid_only_def MakeFieldError_def)

lemma invalid_only_GetRequiredField [simp]: "invalid_only (GetRequiredField v f)"
  by (simp add: GetRequiredField_def split: option.split)

lemma invalid_only_ReadString [simp]: "invalid_only (ReadString v f)"
  unfolding ReadString_def by (rule invalid_only_and_then) (simp_all split: Json.split)

lemma invalid_only_ReadUnsignedInteger [simp]:
  "invalid_only (ReadUnsignedInteger v f :: Status + 'a::len word)"
  unfolding ReadUnsignedInteger_def unsigned_in_range_def Let_def
  by (rule invalid_only_and_then) (simp_all split: Json.split)

lemma invalid_only_names [simp]: "invalid_only (ReadMemberRole v)" "invalid_only (ReadLogLevel v)"
  unfolding ReadMemberRole_def ReadLogLevel_def by (rule invalid_only_and_then; simp)+

lemma invalid_only_checks [simp]:
  "invalid_only (check (RequireObject v))" "invalid_only (check (RejectUnknownFields v fs))"
  "invalid_only (check (ValidateConfig c))"
  using ValidateConfig_cases [of c]
  by (auto simp: invalid_only_def check_def RequireObject_def RejectUnknownFields_def MakeFieldError_def)

lemma invalid_only_ParseMember [simp]: "invalid_only (ParseMember v)"
  unfolding ParseMember_def by (intro invalid_only_and_then) simp_all

lemma invalid_only_ReadMembers_loop [simp]: "invalid_only (ReadMembers_loop vs)"
  by (induction vs) (simp_all add: invalid_only_and_then)

lemma invalid_only_ReadMembers [simp]: "invalid_only (ReadMembers v)"
  unfolding ReadMembers_def by (rule invalid_only_and_then) (simp_all split: Json.split)

lemma invalid_only_ParseConfig: "invalid_only (ParseConfig v)"
  unfolding ParseConfig_def Let_def by (intro invalid_only_and_then) simp_all

lemma ParseConfig_fails: "ParseConfig v = Inl s \<Longrightarrow> s = InvalidArgument"
  using invalid_only_ParseConfig [of v] by (simp add: invalid_only_def)

text \<open>
  C25. Whatever the file system and the JSON parser return, \<open>LoadFromFile\<close> either hands
  the caller a configuration that is well-formed, or fails with an I/O error or an invalid
  argument: no other configuration leaves the loader.
\<close>

theorem LoadFromFile_type:
  "case LoadFromFile read_file parse path p of
     Inl s \<Rightarrow> s \<in> {kIoError, InvalidArgument}
   | Inr c \<Rightarrow> well_formed c"
  by (auto simp: LoadFromFile_def ParseConfig_accepts split: sum.split option.split
      dest: ParseConfig_fails)

section \<open>Writing a configuration\<close>

text \<open>
  The document of a configuration, as the parser returns it: an object is the map that
  results from inserting its fields.
\<close>

definition object_of :: "(string \<times> Json) list \<Rightarrow> Json" where
  "object_of fs = json_object (foldr (\<lambda>(k, v). map_set k v) fs [])"

definition number :: "'a::len word \<Rightarrow> Json" where
  "number w = json_unsigned (word_of_nat (unat w))"

definition member_document :: "InitialMember \<Rightarrow> Json" where
  "member_document m = object_of
     [(''node_id'', json_string (im_node_id m)),
      (''ip_address'', json_string (im_ip_address m)),
      (''raft_port'', number (im_raft_port m)),
      (''metadata_port'', number (im_metadata_port m)),
      (''store_control_port'', number (im_store_control_port m)),
      (''role'', json_string (MemberRole_ToString (im_role m)))]"

definition config_document :: "Config \<Rightarrow> Json" where
  "config_document c = object_of
     [(''node_id'', json_string (cfg_node_id c)),
      (''ip_address'', json_string (cfg_ip_address c)),
      (''raft_port'', number (cfg_raft_port c)),
      (''metadata_port'', number (cfg_metadata_port c)),
      (''store_control_port'', number (cfg_store_control_port c)),
      (''initial_members'', json_array (map member_document (cfg_initial_members c))),
      (''heartbeat_interval_ms'', number (cfg_heartbeat_interval_ms c)),
      (''election_timeout_min_ms'', number (cfg_election_timeout_min_ms c)),
      (''election_timeout_max_ms'', number (cfg_election_timeout_max_ms c)),
      (''rpc_timeout_ms'', number (cfg_rpc_timeout_ms c)),
      (''queue_capacity'', number (cfg_queue_capacity c)),
      (''worker_count'', number (cfg_worker_count c)),
      (''max_message_size'', number (cfg_max_message_size c)),
      (''log_batch_size'', number (cfg_log_batch_size c)),
      (''data_directory'', json_string (cfg_data_directory c)),
      (''snapshot_directory'', json_string (cfg_snapshot_directory c)),
      (''store_heartbeat_timeout_ms'', number (cfg_store_heartbeat_timeout_ms c)),
      (''failure_detection_interval_ms'', number (cfg_failure_detection_interval_ms c)),
      (''task_poll_limit'', number (cfg_task_poll_limit c)),
      (''log_level'', json_string (LogLevel_ToString (cfg_log_level c)))]"

lemma object_of_lookup: "map_of (foldr (\<lambda>(k, v). map_set k v) fs []) k = map_of fs k"
proof (induction fs)
  case (Cons f fs)
  then show ?case
    using map_find_set [of "fst f" "snd f" "foldr (\<lambda>(k, v). map_set k v) fs []" k]
    by (cases f) (simp add: map_find_def)
qed simp

lemma object_of_keys: "fst ` set (foldr (\<lambda>(k, v). map_set k v) fs []) = fst ` set fs"
  by (induction fs) (simp_all add: fst_map_set split_beta)

lemma holds_number_number [simp]:
  "holds_number v (Some (number w)) \<longleftrightarrow> 0 < w \<and> v = w" if "LENGTH('a) \<le> 64" for v w :: "'a::len word"
proof -
  have "unat w < 2 ^ LENGTH('a)" by (rule unsigned_less)
  also have "\<dots> \<le> 2 ^ 64" using that by (rule power_increasing) simp
  finally have "unat (word_of_nat (unat w) :: u64) = unat w"
    by (simp only: unat_of_nat) simp
  moreover have "0 < v \<longleftrightarrow> 0 < unat v" "0 < w \<longleftrightarrow> 0 < unat w"
    by (simp_all add: word_less_nat_alt)
  ultimately show ?thesis
    unfolding holds_number_def number_def word_unat_eq_iff [of v w] by auto
qed

lemma holds_string_string [simp]: "holds_string t (Some (json_string s)) \<longleftrightarrow> t = s"
  by (auto simp: holds_string_def)

lemma ToString_inject [simp]:
  "MemberRole_ToString r = MemberRole_ToString r' \<longleftrightarrow> r = r'"
  "LogLevel_ToString l = LogLevel_ToString l' \<longleftrightarrow> l = l'"
  by (cases r; cases r'; simp) (cases l; cases l'; simp)

lemma describes_member_document:
  "describes_member (member_document m) m' \<longleftrightarrow>
     m' = m \<and> 0 < im_raft_port m \<and> 0 < im_metadata_port m \<and> 0 < im_store_control_port m"
  unfolding member_document_def object_of_def describes_member.simps object_of_lookup object_of_keys
  by (cases m; cases m') (auto simp: member_fields_def)

lemma describes_member_documents:
  "list_all2 describes_member (map member_document ms) ms' \<longleftrightarrow>
     ms' = ms \<and> list_all (\<lambda>m. describes_member (member_document m) m) ms"
  by (induction ms arbitrary: ms')
    (auto simp: list_all2_Cons1 describes_member_document)

text \<open>A document describes no configuration but the one it was made of.\<close>

lemma describes_config_document:
  "describes (config_document c) c' \<longleftrightarrow> c' = c \<and> describes (config_document c) c"
  unfolding config_document_def object_of_def describes.simps object_of_lookup object_of_keys
  by (cases c; cases c') (auto simp: describes_member_documents)

lemma well_formed_document:
  assumes "well_formed c"
  shows "describes (config_document c) c"
proof -
  have "list_all (\<lambda>m. describes_member (member_document m) m) ms" if "members_ok ms" for ms
    using that by (auto simp: describes_member_document members_ok_def member_ok_def list_all_iff)
  moreover have "0 < cfg_election_timeout_min_ms c"
    using assms by (auto simp: well_formed_def limits_ok_def)
  moreover from this have "0 < cfg_election_timeout_max_ms c"
    using assms unfolding well_formed_def limits_ok_def by (metis order.strict_trans2)
  ultimately show ?thesis
    using assms
    unfolding config_document_def object_of_def describes.simps object_of_lookup object_of_keys
      well_formed_def limits_ok_def
    by (intro conjI; simp add: root_fields_def word_gt_0 describes_member_documents)
qed

text \<open>
  A configuration that is written as a document is read back as itself, when it is
  well-formed; the document of any other configuration is refused. The loader loses no
  field and confuses no two of them, for every value of every integer type.
\<close>

theorem config_roundtrip:
  "ParseConfig (config_document c) = (if well_formed c then Inr c else Inl InvalidArgument)"
proof (cases "ParseConfig (config_document c)")
  case (Inl s)
  then show ?thesis
    using ParseConfig_fails [OF Inl] well_formed_document [of c]
    by (metis ParseConfig_accepts)
next
  case (Inr c')
  then have "describes (config_document c) c'" "well_formed c'"
    by (simp_all add: ParseConfig_accepts)
  then have "c' = c" using describes_config_document by blast
  with Inr \<open>well_formed c'\<close> show ?thesis by simp
qed

end
