(* ===== verification/Proto.thy ===== *)
theory Proto
  imports Raft_Types
begin

text \<open>
  The messages of \<open>proto/common.proto\<close> and \<open>proto/raft.proto\<close> as records, with the fields and
  enumerations of the interface definitions, and the status codes of gRPC. A \<open>proto3\<close>
  enumeration is open: \<open>..._OTHER\<close> is a number without a name.
\<close>

section \<open>common.proto\<close>

datatype LogEntryKind =
    LOG_ENTRY_KIND_UNSPECIFIED
  | LOG_ENTRY_KIND_NO_OP
  | LOG_ENTRY_KIND_COMMAND
  | LOG_ENTRY_KIND_MEMBERSHIP_CHANGE
  | LOG_ENTRY_KIND_OTHER u32

record ProtoNodeAddress =
  pna_host :: string
  pna_port :: u32

record ProtoClusterMember =
  pcm_node_id :: u64
  pcm_address :: ProtoNodeAddress
  pcm_is_learner :: bool

record ProtoMembershipView =
  pmv_voters :: "ProtoClusterMember list"
  pmv_learners :: "ProtoClusterMember list"
  pmv_has_active_transition :: bool
  pmv_configuration_id :: u64

record ProtoLogEntry =
  ple_index :: u64
  ple_term :: u64
  ple_type :: LogEntryKind
  ple_payload :: bytes

record ProtoSnapshotMetadata =
  psm_last_included_index :: u64
  psm_last_included_term :: u64
  psm_membership :: ProtoMembershipView

section \<open>raft.proto\<close>

datatype ProtoVoteRejectReason =
    VOTE_REJECT_REASON_UNSPECIFIED
  | VOTE_REJECT_REASON_NONE
  | VOTE_REJECT_REASON_STALE_TERM
  | VOTE_REJECT_REASON_LOG_OUTDATED
  | VOTE_REJECT_REASON_ALREADY_VOTED
  | VOTE_REJECT_REASON_LEARNER
  | VOTE_REJECT_REASON_OTHER u32

record ProtoRequestVoteRequest =
  prv_term :: u64
  prv_candidate_id :: u64
  prv_last_log_index :: u64
  prv_last_log_term :: u64

record ProtoRequestVoteResponse =
  prvr_term :: u64
  prvr_vote_granted :: bool
  prvr_reject_reason :: ProtoVoteRejectReason

record ProtoAppendEntriesRequest =
  pae_term :: u64
  pae_leader_id :: u64
  pae_prev_log_index :: u64
  pae_prev_log_term :: u64
  pae_entries :: "ProtoLogEntry list"
  pae_leader_commit :: u64

record ProtoAppendEntriesResponse =
  paer_term :: u64
  paer_success :: bool
  paer_match_index :: u64
  paer_conflict_index :: u64
  paer_conflict_term :: u64

record ProtoInstallSnapshotRequest =
  pis_term :: u64
  pis_leader_id :: u64
  pis_metadata :: ProtoSnapshotMetadata
  pis_payload :: bytes

record ProtoInstallSnapshotResponse =
  pisr_term :: u64
  pisr_success :: bool
  pisr_last_included_index :: u64

section \<open>gRPC\<close>

datatype GrpcCode =
    Grpc_OK
  | Grpc_CANCELLED
  | Grpc_UNKNOWN
  | Grpc_INVALID_ARGUMENT
  | Grpc_DEADLINE_EXCEEDED
  | Grpc_NOT_FOUND
  | Grpc_ALREADY_EXISTS
  | Grpc_PERMISSION_DENIED
  | Grpc_RESOURCE_EXHAUSTED
  | Grpc_FAILED_PRECONDITION
  | Grpc_ABORTED
  | Grpc_OUT_OF_RANGE
  | Grpc_UNIMPLEMENTED
  | Grpc_INTERNAL
  | Grpc_UNAVAILABLE
  | Grpc_DATA_LOSS
  | Grpc_UNAUTHENTICATED

end
