(* ===== verification/Raft_Transport.thy ===== *)
theory Raft_Transport
  imports Proto Text_Format Std_Map
begin

text \<open>
  \<open>transport/grpc_raft_transport.cpp\<close>: the conversion of outbound requests to protobuf messages
  and of the replies back, and the transport itself, which keeps one gRPC stub per peer. A stub is
  the target it was created for; what the remote end answers is a parameter, \<open>RaftStubs\<close>.
\<close>

section \<open>Conversions\<close>

definition AddressToTarget :: "NodeAddress \<Rightarrow> string" where
  "AddressToTarget a = na_host a @ '':'' @ to_string (unat (na_port a))"

fun ToProtoVoteRejectReason :: "VoteRejectReason \<Rightarrow> ProtoVoteRejectReason" where
  "ToProtoVoteRejectReason Reject_NONE = VOTE_REJECT_REASON_NONE"
| "ToProtoVoteRejectReason Reject_STALE_TERM = VOTE_REJECT_REASON_STALE_TERM"
| "ToProtoVoteRejectReason Reject_LOG_OUTDATED = VOTE_REJECT_REASON_LOG_OUTDATED"
| "ToProtoVoteRejectReason Reject_ALREADY_VOTED = VOTE_REJECT_REASON_ALREADY_VOTED"
| "ToProtoVoteRejectReason Reject_LEARNER = VOTE_REJECT_REASON_LEARNER"

fun FromProtoVoteRejectReason :: "ProtoVoteRejectReason \<Rightarrow> VoteRejectReason" where
  "FromProtoVoteRejectReason VOTE_REJECT_REASON_NONE = Reject_NONE"
| "FromProtoVoteRejectReason VOTE_REJECT_REASON_STALE_TERM = Reject_STALE_TERM"
| "FromProtoVoteRejectReason VOTE_REJECT_REASON_LOG_OUTDATED = Reject_LOG_OUTDATED"
| "FromProtoVoteRejectReason VOTE_REJECT_REASON_ALREADY_VOTED = Reject_ALREADY_VOTED"
| "FromProtoVoteRejectReason VOTE_REJECT_REASON_LEARNER = Reject_LEARNER"
| "FromProtoVoteRejectReason _ = Reject_NONE"

definition ToProto_NodeAddress :: "NodeAddress \<Rightarrow> ProtoNodeAddress" where
  "ToProto_NodeAddress a = \<lparr>pna_host = na_host a, pna_port = ucast (na_port a)\<rparr>"

text \<open>The field \<open>is_learner\<close> is not set.\<close>

definition ToProto_RaftMember :: "RaftMember \<Rightarrow> ProtoClusterMember" where
  "ToProto_RaftMember m =
     \<lparr>pcm_node_id = mb_node_id m, pcm_address = ToProto_NodeAddress (mb_address m),
      pcm_is_learner = False\<rparr>"

definition ToProto_MembershipView :: "MembershipView \<Rightarrow> ProtoMembershipView" where
  "ToProto_MembershipView v =
     \<lparr>pmv_voters = map ToProto_RaftMember (mv_voters v),
      pmv_learners = map ToProto_RaftMember (mv_learners v),
      pmv_has_active_transition = mv_has_active_transition v,
      pmv_configuration_id = mv_configuration_id v\<rparr>"

fun ToProto_LogEntryType :: "LogEntryType \<Rightarrow> LogEntryKind" where
  "ToProto_LogEntryType NO_OP = LOG_ENTRY_KIND_NO_OP"
| "ToProto_LogEntryType COMMAND = LOG_ENTRY_KIND_COMMAND"
| "ToProto_LogEntryType MEMBERSHIP_CHANGE = LOG_ENTRY_KIND_MEMBERSHIP_CHANGE"

definition ToProto_LogEntry :: "LogEntry \<Rightarrow> ProtoLogEntry" where
  "ToProto_LogEntry e =
     \<lparr>ple_index = le_index e, ple_term = le_term e, ple_type = ToProto_LogEntryType (le_type e),
      ple_payload = le_payload e\<rparr>"

definition ToProto_SnapshotMetadata :: "SnapshotMetadata \<Rightarrow> ProtoSnapshotMetadata" where
  "ToProto_SnapshotMetadata m =
     \<lparr>psm_last_included_index = sm_last_included_index m,
      psm_last_included_term = sm_last_included_term m,
      psm_membership = ToProto_MembershipView (sm_membership m)\<rparr>"

definition ToProto_RequestVoteRequest :: "RequestVoteRequest \<Rightarrow> ProtoRequestVoteRequest" where
  "ToProto_RequestVoteRequest r =
     \<lparr>prv_term = rv_term r, prv_candidate_id = rv_candidate_id r,
      prv_last_log_index = rv_last_log_index r, prv_last_log_term = rv_last_log_term r\<rparr>"

definition ToProto_AppendEntriesRequest :: "AppendEntriesRequest \<Rightarrow> ProtoAppendEntriesRequest" where
  "ToProto_AppendEntriesRequest r =
     \<lparr>pae_term = ae_term r, pae_leader_id = ae_leader_id r,
      pae_prev_log_index = ae_prev_log_index r, pae_prev_log_term = ae_prev_log_term r,
      pae_entries = map ToProto_LogEntry (ae_entries r), pae_leader_commit = ae_leader_commit r\<rparr>"

definition ToProto_InstallSnapshotRequest :: "InstallSnapshotRequest \<Rightarrow> ProtoInstallSnapshotRequest" where
  "ToProto_InstallSnapshotRequest r =
     \<lparr>pis_term = is_term r, pis_leader_id = is_leader_id r,
      pis_metadata = ToProto_SnapshotMetadata (is_metadata r), pis_payload = is_payload r\<rparr>"

definition BuildResponse_RequestVote :: "NodeId \<Rightarrow> NodeId \<Rightarrow> ProtoRequestVoteResponse \<Rightarrow> RaftMessage" where
  "BuildResponse_RequestVote local_node_id remote_node_id p =
     \<lparr>msg_type = REQUEST_VOTE_RESPONSE, msg_source_node_id = remote_node_id,
      msg_target_node_id = local_node_id,
      msg_payload = RequestVoteResponseMsg
        \<lparr>rvr_term = prvr_term p, rvr_vote_granted = prvr_vote_granted p,
         rvr_reject_reason = FromProtoVoteRejectReason (prvr_reject_reason p)\<rparr>\<rparr>"

definition BuildResponse_AppendEntries :: "NodeId \<Rightarrow> NodeId \<Rightarrow> ProtoAppendEntriesResponse \<Rightarrow> RaftMessage" where
  "BuildResponse_AppendEntries local_node_id remote_node_id p =
     \<lparr>msg_type = APPEND_ENTRIES_RESPONSE, msg_source_node_id = remote_node_id,
      msg_target_node_id = local_node_id,
      msg_payload = AppendEntriesResponseMsg
        \<lparr>aer_term = paer_term p, aer_success = paer_success p,
         aer_match_index = paer_match_index p, aer_conflict_index = paer_conflict_index p,
         aer_conflict_term = paer_conflict_term p\<rparr>\<rparr>"

definition BuildResponse_InstallSnapshot :: "NodeId \<Rightarrow> NodeId \<Rightarrow> ProtoInstallSnapshotResponse \<Rightarrow> RaftMessage" where
  "BuildResponse_InstallSnapshot local_node_id remote_node_id p =
     \<lparr>msg_type = INSTALL_SNAPSHOT_RESPONSE, msg_source_node_id = remote_node_id,
      msg_target_node_id = local_node_id,
      msg_payload = InstallSnapshotResponseMsg
        \<lparr>isr_term = pisr_term p, isr_success = pisr_success p,
         isr_last_included_index = pisr_last_included_index p\<rparr>\<rparr>"

fun ToCommonStatus :: "GrpcCode \<Rightarrow> Status" where
  "ToCommonStatus Grpc_OK = OK"
| "ToCommonStatus Grpc_INVALID_ARGUMENT = InvalidArgument"
| "ToCommonStatus Grpc_NOT_FOUND = NotFound"
| "ToCommonStatus Grpc_RESOURCE_EXHAUSTED = ResourceExhausted"
| "ToCommonStatus Grpc_DEADLINE_EXCEEDED = RetryLater"
| "ToCommonStatus Grpc_UNAVAILABLE = RetryLater"
| "ToCommonStatus _ = InternalError"

definition ValidateRequestMessage :: "RaftMessage \<Rightarrow> Status" where
  "ValidateRequestMessage m =
     (if msg_source_node_id m = kInvalidNodeId then InvalidArgument
      else if msg_target_node_id m = kInvalidNodeId then InvalidArgument
      else case msg_type m of
        REQUEST_VOTE_REQUEST \<Rightarrow>
          (case msg_payload m of RequestVoteRequestMsg _ \<Rightarrow> OK | _ \<Rightarrow> InvalidArgument)
      | APPEND_ENTRIES_REQUEST \<Rightarrow>
          (case msg_payload m of AppendEntriesRequestMsg _ \<Rightarrow> OK | _ \<Rightarrow> InvalidArgument)
      | INSTALL_SNAPSHOT_REQUEST \<Rightarrow>
          (case msg_payload m of InstallSnapshotRequestMsg _ \<Rightarrow> OK | _ \<Rightarrow> InvalidArgument)
      | _ \<Rightarrow> InvalidArgument)"

section \<open>The transport\<close>

datatype TransportState = Transport_CREATED | Transport_INITIALIZED | Transport_STARTED | Transport_STOPPED

record GrpcRaftTransport =
  gt_rpc_timeout_ms :: u64
  gt_local_node_id :: NodeId
  gt_state :: TransportState
  gt_peers :: "(NodeId, RaftMember) std_map"
  gt_stubs :: "(NodeId, string) std_map"

text \<open>The remote ends: what a call to the target with this message returns.\<close>

record RaftStubs =
  stub_RequestVote :: "string \<Rightarrow> ProtoRequestVoteRequest \<Rightarrow> GrpcCode \<times> ProtoRequestVoteResponse"
  stub_AppendEntries :: "string \<Rightarrow> ProtoAppendEntriesRequest \<Rightarrow> GrpcCode \<times> ProtoAppendEntriesResponse"
  stub_InstallSnapshot :: "string \<Rightarrow> ProtoInstallSnapshotRequest \<Rightarrow> GrpcCode \<times> ProtoInstallSnapshotResponse"

definition GrpcRaftTransport_new :: "u64 \<Rightarrow> GrpcRaftTransport" where
  "GrpcRaftTransport_new rpc_timeout_ms =
     \<lparr>gt_rpc_timeout_ms = rpc_timeout_ms, gt_local_node_id = kInvalidNodeId,
      gt_state = Transport_CREATED, gt_peers = [], gt_stubs = []\<rparr>"

text \<open>The loop over the peers. An error leaves the peers that were added.\<close>

fun Transport_add_peers :: "RaftMember list \<Rightarrow> GrpcRaftTransport \<Rightarrow> Status \<times> GrpcRaftTransport" where
  "Transport_add_peers [] t = (OK, t)"
| "Transport_add_peers (peer # peers) t =
     (if mb_node_id peer = kInvalidNodeId then (InvalidArgument, t)
      else if mb_node_id peer = gt_local_node_id t then Transport_add_peers peers t
      else if na_host (mb_address peer) = [] then (InvalidArgument, t)
      else if na_port (mb_address peer) = 0 then (InvalidArgument, t)
      else if map_find (gt_peers t) (mb_node_id peer) \<noteq> None then (InvalidArgument, t)
      else Transport_add_peers peers
             (t\<lparr>gt_peers := map_emplace (mb_node_id peer) peer (gt_peers t),
                gt_stubs := map_emplace (mb_node_id peer) (AddressToTarget (mb_address peer)) (gt_stubs t)\<rparr>))"

definition Transport_Initialize ::
  "GrpcRaftTransport \<Rightarrow> NodeId \<Rightarrow> RaftMember list \<Rightarrow> Status \<times> GrpcRaftTransport" where
  "Transport_Initialize t local_node_id peers =
     (if local_node_id = kInvalidNodeId then (InvalidArgument, t)
      else if gt_state t = Transport_STARTED then (Busy, t)
      else case Transport_add_peers peers
             (t\<lparr>gt_local_node_id := local_node_id, gt_peers := [], gt_stubs := []\<rparr>) of
        (status, t1) \<Rightarrow>
          if \<not> ok status then (status, t1) else (OK, t1\<lparr>gt_state := Transport_INITIALIZED\<rparr>))"

definition Transport_Start :: "GrpcRaftTransport \<Rightarrow> Status \<times> GrpcRaftTransport" where
  "Transport_Start t =
     (if gt_state t = Transport_STARTED then (OK, t)
      else if gt_state t = Transport_CREATED then (InvalidArgument, t)
      else (OK, t\<lparr>gt_state := Transport_STARTED\<rparr>))"

definition Transport_Stop :: "GrpcRaftTransport \<Rightarrow> Status \<times> GrpcRaftTransport" where
  "Transport_Stop t =
     (if gt_state t = Transport_CREATED \<or> gt_state t = Transport_STOPPED then (OK, t)
      else (OK, t\<lparr>gt_state := Transport_STOPPED\<rparr>))"

definition Transport_Send :: "RaftStubs \<Rightarrow> GrpcRaftTransport \<Rightarrow> RaftMessage \<Rightarrow> out_ptr \<Rightarrow> Status + RaftMessage" where
  "Transport_Send net t message response =
     (if response = nullptr then Inl InvalidArgument
      else if \<not> ok (ValidateRequestMessage message) then Inl (ValidateRequestMessage message)
      else if gt_state t \<noteq> Transport_STARTED then Inl Busy
      else if msg_source_node_id message \<noteq> gt_local_node_id t then Inl InvalidArgument
      else case map_find (gt_stubs t) (msg_target_node_id message) of
        None \<Rightarrow> Inl NotFound
      | Some stub \<Rightarrow>
          (case msg_payload message of
             RequestVoteRequestMsg r \<Rightarrow>
               (case stub_RequestVote net stub (ToProto_RequestVoteRequest r) of
                  (code, p) \<Rightarrow>
                    if \<not> ok (ToCommonStatus code) then Inl (ToCommonStatus code)
                    else Inr (BuildResponse_RequestVote (gt_local_node_id t) (msg_target_node_id message) p))
           | AppendEntriesRequestMsg r \<Rightarrow>
               (case stub_AppendEntries net stub (ToProto_AppendEntriesRequest r) of
                  (code, p) \<Rightarrow>
                    if \<not> ok (ToCommonStatus code) then Inl (ToCommonStatus code)
                    else Inr (BuildResponse_AppendEntries (gt_local_node_id t) (msg_target_node_id message) p))
           | InstallSnapshotRequestMsg r \<Rightarrow>
               (case stub_InstallSnapshot net stub (ToProto_InstallSnapshotRequest r) of
                  (code, p) \<Rightarrow>
                    if \<not> ok (ToCommonStatus code) then Inl (ToCommonStatus code)
                    else Inr (BuildResponse_InstallSnapshot (gt_local_node_id t) (msg_target_node_id message) p))
           | _ \<Rightarrow> Inl InvalidArgument))"

section \<open>Facts\<close>

text \<open>The members of a list can be peers of a node: every one but the node has an address.\<close>

definition peers_ok :: "NodeId \<Rightarrow> RaftMember list \<Rightarrow> bool" where
  "peers_ok n peers \<longleftrightarrow>
     list_all (\<lambda>p. mb_node_id p \<noteq> kInvalidNodeId) peers \<and>
     list_all (\<lambda>p. mb_node_id p \<noteq> n \<longrightarrow> na_host (mb_address p) \<noteq> [] \<and> na_port (mb_address p) \<noteq> 0) peers \<and>
     distinct (filter (\<lambda>i. i \<noteq> n) (map mb_node_id peers))"

lemma Transport_add_peers_frame:
  "Transport_add_peers peers t = (status, t') \<Longrightarrow>
     gt_local_node_id t' = gt_local_node_id t \<and> gt_state t' = gt_state t \<and> status \<in> {OK, InvalidArgument}"
  by (induction peers t rule: Transport_add_peers.induct) (auto split: if_splits)

lemma Transport_add_peers_ok:
  "fst (Transport_add_peers peers t) = OK \<longleftrightarrow>
     peers_ok (gt_local_node_id t) peers \<and>
     list_all (\<lambda>p. mb_node_id p \<noteq> gt_local_node_id t \<longrightarrow> map_find (gt_peers t) (mb_node_id p) = None) peers"
proof (induction peers t rule: Transport_add_peers.induct)
  case (2 peer peers t)
  have new: "mb_node_id peer \<notin> mb_node_id ` set peers \<longleftrightarrow> (\<forall>p \<in> set peers. mb_node_id p \<noteq> mb_node_id peer)"
    by (force simp: image_iff)
  from "2" show ?case by (auto simp: peers_ok_def list_all_iff new)
qed (simp add: peers_ok_def)

lemma Transport_add_peers_stubs:
  "Transport_add_peers peers t = (OK, t') \<Longrightarrow>
     map_find (gt_stubs t') n =
       (case map_find (gt_stubs t) n of
          Some a \<Rightarrow> Some a
        | None \<Rightarrow> if n = gt_local_node_id t then None
                  else map_option (\<lambda>p. AddressToTarget (mb_address p)) (find (\<lambda>p. mb_node_id p = n) peers))"
  by (induction peers t rule: Transport_add_peers.induct) (auto split: if_splits option.splits)

text \<open>
  \<open>Initialize\<close> accepts exactly the lists of peers in which every id is valid, every other node
  has a host and a port, and no other node appears twice; then the node can reach exactly those
  nodes, each at its address, and not itself. A transport that runs is not touched.
\<close>

theorem Transport_Initialize_peers:
  "case Transport_Initialize t n peers of (status, t') \<Rightarrow>
     (status = OK \<longleftrightarrow> n \<noteq> kInvalidNodeId \<and> gt_state t \<noteq> Transport_STARTED \<and> peers_ok n peers) \<and>
     (if status = OK
      then gt_state t' = Transport_INITIALIZED \<and> gt_local_node_id t' = n \<and>
           map_find (gt_stubs t') = (\<lambda>m. if m = n then None
             else map_option (\<lambda>p. AddressToTarget (mb_address p)) (find (\<lambda>p. mb_node_id p = m) peers))
      else gt_state t' = gt_state t)"
proof -
  let ?t = "t\<lparr>gt_local_node_id := n, gt_peers := [], gt_stubs := []\<rparr>"
  obtain s u where su: "Transport_add_peers peers ?t = (s, u)" by fastforce
  then have ok: "s = OK \<longleftrightarrow> peers_ok n peers"
    using Transport_add_peers_ok [of peers ?t] by (simp add: list_all_iff)
  have stubs: "s = OK \<Longrightarrow> map_find (gt_stubs u) = (\<lambda>m. if m = n then None
      else map_option (\<lambda>p. AddressToTarget (mb_address p)) (find (\<lambda>p. mb_node_id p = m) peers))"
    using Transport_add_peers_stubs [of peers ?t u] su by auto
  show ?thesis
    using Transport_add_peers_frame [OF su] su ok stubs by (auto simp: Transport_Initialize_def)
qed

end
