(* ===== verification/Raft_Rpc.thy ===== *)
theory Raft_Rpc
  imports Raft_Transport Raft_Runtime
begin

text \<open>
  \<open>rpc/raft_rpc_service.cpp\<close>: the server side of the three Raft RPCs. A request becomes a message
  event of the runtime; its reply is whatever the queue of the peer that sent it holds next. The
  handler polls that queue while the threads of the runtime and other callers run.
\<close>

section \<open>Conversions\<close>

fun ToGrpcStatus :: "Status \<Rightarrow> GrpcCode" where
  "ToGrpcStatus kOk = Grpc_OK"
| "ToGrpcStatus kInvalidArgument = Grpc_INVALID_ARGUMENT"
| "ToGrpcStatus kNotFound = Grpc_NOT_FOUND"
| "ToGrpcStatus kBusy = Grpc_FAILED_PRECONDITION"
| "ToGrpcStatus kResourceExhausted = Grpc_RESOURCE_EXHAUSTED"
| "ToGrpcStatus kRetryLater = Grpc_UNAVAILABLE"
| "ToGrpcStatus kIoError = Grpc_DATA_LOSS"
| "ToGrpcStatus kCorruption = Grpc_DATA_LOSS"
| "ToGrpcStatus kInternalError = Grpc_INTERNAL"

fun Rpc_ToProtoVoteRejectReason :: "VoteRejectReason \<Rightarrow> ProtoVoteRejectReason" where
  "Rpc_ToProtoVoteRejectReason Reject_NONE = VOTE_REJECT_REASON_NONE"
| "Rpc_ToProtoVoteRejectReason Reject_STALE_TERM = VOTE_REJECT_REASON_STALE_TERM"
| "Rpc_ToProtoVoteRejectReason Reject_LOG_OUTDATED = VOTE_REJECT_REASON_LOG_OUTDATED"
| "Rpc_ToProtoVoteRejectReason Reject_ALREADY_VOTED = VOTE_REJECT_REASON_ALREADY_VOTED"
| "Rpc_ToProtoVoteRejectReason Reject_LEARNER = VOTE_REJECT_REASON_LEARNER"

fun FromProtoLogEntryType :: "LogEntryKind \<Rightarrow> LogEntryType" where
  "FromProtoLogEntryType LOG_ENTRY_KIND_NO_OP = NO_OP"
| "FromProtoLogEntryType LOG_ENTRY_KIND_COMMAND = COMMAND"
| "FromProtoLogEntryType LOG_ENTRY_KIND_MEMBERSHIP_CHANGE = MEMBERSHIP_CHANGE"
| "FromProtoLogEntryType _ = NO_OP"

definition FromProto_LogEntry :: "ProtoLogEntry \<Rightarrow> LogEntry" where
  "FromProto_LogEntry p =
     \<lparr>le_index = ple_index p, le_term = ple_term p, le_type = FromProtoLogEntryType (ple_type p),
      le_payload = ple_payload p\<rparr>"

text \<open>The port is narrowed to 16 bits.\<close>

definition FromProto_ClusterMember :: "ProtoClusterMember \<Rightarrow> RaftMember" where
  "FromProto_ClusterMember p =
     \<lparr>mb_node_id = pcm_node_id p,
      mb_address = \<lparr>na_host = pna_host (pcm_address p), na_port = ucast (pna_port (pcm_address p))\<rparr>\<rparr>"

definition FromProto_MembershipView :: "ProtoMembershipView \<Rightarrow> MembershipView" where
  "FromProto_MembershipView p =
     MembershipView_default
       \<lparr>mv_has_active_transition := pmv_has_active_transition p,
        mv_configuration_id := pmv_configuration_id p,
        mv_voters := map FromProto_ClusterMember (pmv_voters p),
        mv_learners := map FromProto_ClusterMember (pmv_learners p)\<rparr>"

definition FromProto_SnapshotMetadata :: "ProtoSnapshotMetadata \<Rightarrow> SnapshotMetadata" where
  "FromProto_SnapshotMetadata p =
     \<lparr>sm_last_included_index = psm_last_included_index p,
      sm_last_included_term = psm_last_included_term p,
      sm_membership = FromProto_MembershipView (psm_membership p)\<rparr>"

definition ToInternal_RequestVote :: "ProtoRequestVoteRequest \<Rightarrow> RaftMessage" where
  "ToInternal_RequestVote p =
     \<lparr>msg_type = REQUEST_VOTE_REQUEST, msg_source_node_id = prv_candidate_id p,
      msg_target_node_id = kInvalidNodeId,
      msg_payload = RequestVoteRequestMsg
        \<lparr>rv_term = prv_term p, rv_candidate_id = prv_candidate_id p,
         rv_last_log_index = prv_last_log_index p, rv_last_log_term = prv_last_log_term p\<rparr>\<rparr>"

definition ToInternal_AppendEntries :: "ProtoAppendEntriesRequest \<Rightarrow> RaftMessage" where
  "ToInternal_AppendEntries p =
     \<lparr>msg_type = APPEND_ENTRIES_REQUEST, msg_source_node_id = pae_leader_id p,
      msg_target_node_id = kInvalidNodeId,
      msg_payload = AppendEntriesRequestMsg
        \<lparr>ae_term = pae_term p, ae_leader_id = pae_leader_id p,
         ae_prev_log_index = pae_prev_log_index p, ae_prev_log_term = pae_prev_log_term p,
         ae_entries = map FromProto_LogEntry (pae_entries p), ae_leader_commit = pae_leader_commit p\<rparr>\<rparr>"

definition ToInternal_InstallSnapshot :: "ProtoInstallSnapshotRequest \<Rightarrow> RaftMessage" where
  "ToInternal_InstallSnapshot p =
     \<lparr>msg_type = INSTALL_SNAPSHOT_REQUEST, msg_source_node_id = pis_leader_id p,
      msg_target_node_id = kInvalidNodeId,
      msg_payload = InstallSnapshotRequestMsg
        \<lparr>is_term = pis_term p, is_leader_id = pis_leader_id p,
         is_metadata = FromProto_SnapshotMetadata (pis_metadata p), is_payload = pis_payload p\<rparr>\<rparr>"

definition ValidateRequest_RequestVote :: "ProtoRequestVoteRequest \<Rightarrow> Status" where
  "ValidateRequest_RequestVote p =
     (if prv_candidate_id p = kInvalidNodeId then InvalidArgument else OK)"

definition ValidateRequest_AppendEntries :: "ProtoAppendEntriesRequest \<Rightarrow> Status" where
  "ValidateRequest_AppendEntries p =
     (if pae_leader_id p = kInvalidNodeId then InvalidArgument
      else if kInvalidLogIndex < pae_prev_log_index p \<and> pae_prev_log_term p = kInitialTerm
        then InvalidArgument
      else OK)"

definition ValidateRequest_InstallSnapshot :: "ProtoInstallSnapshotRequest \<Rightarrow> Status" where
  "ValidateRequest_InstallSnapshot p =
     (if pis_leader_id p = kInvalidNodeId then InvalidArgument
      else if psm_last_included_index (pis_metadata p) = kInvalidLogIndex then InvalidArgument
      else if psm_last_included_term (pis_metadata p) = kInitialTerm then InvalidArgument
      else OK)"

definition FillResponse_RequestVote :: "RaftMessage \<Rightarrow> Status + ProtoRequestVoteResponse" where
  "FillResponse_RequestVote m =
     (case msg_payload m of
        RequestVoteResponseMsg r \<Rightarrow>
          Inr \<lparr>prvr_term = rvr_term r, prvr_vote_granted = rvr_vote_granted r,
               prvr_reject_reason = Rpc_ToProtoVoteRejectReason (rvr_reject_reason r)\<rparr>
      | _ \<Rightarrow> Inl InternalError)"

definition FillResponse_AppendEntries :: "RaftMessage \<Rightarrow> Status + ProtoAppendEntriesResponse" where
  "FillResponse_AppendEntries m =
     (case msg_payload m of
        AppendEntriesResponseMsg r \<Rightarrow>
          Inr \<lparr>paer_term = aer_term r, paer_success = aer_success r,
               paer_match_index = aer_match_index r, paer_conflict_index = aer_conflict_index r,
               paer_conflict_term = aer_conflict_term r\<rparr>
      | _ \<Rightarrow> Inl InternalError)"

definition FillResponse_InstallSnapshot :: "RaftMessage \<Rightarrow> Status + ProtoInstallSnapshotResponse" where
  "FillResponse_InstallSnapshot m =
     (case msg_payload m of
        InstallSnapshotResponseMsg r \<Rightarrow>
          Inr \<lparr>pisr_term = isr_term r, pisr_success = isr_success r,
               pisr_last_included_index = isr_last_included_index r\<rparr>
      | _ \<Rightarrow> Inl InternalError)"

section \<open>Waiting for the reply\<close>

text \<open>
  One round of the waiting loop: what the rest of the process does to the runtime before the state
  is read and between that and the look into the queue, and the time at the end of the round.
\<close>

record poll_round =
  pr_before_state :: "RaftRuntime \<Rightarrow> RaftRuntime"
  pr_before_poll :: "RaftRuntime \<Rightarrow> RaftRuntime"
  pr_now :: int

text \<open>\<open>None\<close>: the handler is still waiting when the rounds end.\<close>

fun WaitForPeerResponse ::
  "poll_round list \<Rightarrow> NodeId \<Rightarrow> RaftMessageType \<Rightarrow> int \<Rightarrow> RaftRuntime \<Rightarrow>
     ((Status + RaftMessage) \<times> RaftRuntime) option" where
  "WaitForPeerResponse [] peer_id expected_type deadline r = None"
| "WaitForPeerResponse (round # rounds) peer_id expected_type deadline r =
     (let r1 = pr_before_state round r
      in if rt_state r1 \<noteq> Runtime_RUNNING then Some (Inl Busy, r1)
         else case TryDequeuePeerMessage (pr_before_poll round r1) peer_id out of
           (Inr response, r2) \<Rightarrow>
             Some (if msg_type response \<noteq> expected_type then Inl InternalError else Inr response, r2)
         | (Inl status, r2) \<Rightarrow>
             if status \<noteq> NotFound then Some (Inl status, r2)
             else if deadline \<le> pr_now round then Some (Inl RetryLater, r2)
             else WaitForPeerResponse rounds peer_id expected_type deadline r2)"

text \<open>
  Times are in nanoseconds; a context without a deadline has \<open>None\<close>. The remaining time is cut to
  milliseconds, and one that is over becomes the fallback.
\<close>

definition ResolveDeadline :: "int option \<Rightarrow> int \<Rightarrow> int \<Rightarrow> int \<Rightarrow> int" where
  "ResolveDeadline context_deadline now_system now_steady fallback_timeout_ms =
     (case context_deadline of
        Some d \<Rightarrow>
          let remaining = (d - now_system) div 1000000
          in if 0 < remaining then now_steady + remaining * 1000000
             else now_steady + fallback_timeout_ms * 1000000
      | None \<Rightarrow> now_steady + fallback_timeout_ms * 1000000)"

text \<open>
  \<open>DispatchUnaryRequest\<close>, for any of the three RPCs: \<open>validate\<close>, \<open>convert\<close> and \<open>fill\<close> are its
  overloads. The null pointers of the call are \<open>pointers\<close> and \<open>bound\<close>.
\<close>

definition DispatchUnaryRequest ::
  "('p \<Rightarrow> Status) \<Rightarrow> ('p \<Rightarrow> RaftMessage) \<Rightarrow> (RaftMessage \<Rightarrow> Status + 'q) \<Rightarrow> RaftMessageType \<Rightarrow>
   poll_round list \<Rightarrow> int \<Rightarrow> out_ptr \<Rightarrow> bool \<Rightarrow> 'p \<Rightarrow> RaftRuntime \<Rightarrow>
     ((GrpcCode + 'q) \<times> RaftRuntime) option" where
  "DispatchUnaryRequest validate convert fill expected rounds deadline pointers bound request r =
     (if pointers = nullptr then Some (Inl Grpc_INVALID_ARGUMENT, r)
      else if \<not> bound then Some (Inl Grpc_UNAVAILABLE, r)
      else if rt_state r \<noteq> Runtime_RUNNING then Some (Inl Grpc_FAILED_PRECONDITION, r)
      else if \<not> ok (validate request) then Some (Inl (ToGrpcStatus (validate request)), r)
      else let internal = convert request;
               peer_id = msg_source_node_id internal
      in case EnqueueMessage r peer_id internal of (enqueue_status, r1) \<Rightarrow>
           if \<not> ok enqueue_status then Some (Inl (ToGrpcStatus enqueue_status), r1)
           else case WaitForPeerResponse rounds peer_id expected deadline r1 of
             None \<Rightarrow> None
           | Some (Inl status, r2) \<Rightarrow> Some (Inl (ToGrpcStatus status), r2)
           | Some (Inr internal_response, r2) \<Rightarrow>
               (case fill internal_response of
                  Inl status \<Rightarrow> Some (Inl (ToGrpcStatus status), r2)
                | Inr response \<Rightarrow> Some (Inr response, r2)))"

definition Rpc_RequestVote ::
  "poll_round list \<Rightarrow> int \<Rightarrow> out_ptr \<Rightarrow> bool \<Rightarrow> ProtoRequestVoteRequest \<Rightarrow> RaftRuntime \<Rightarrow>
     ((GrpcCode + ProtoRequestVoteResponse) \<times> RaftRuntime) option" where
  "Rpc_RequestVote = DispatchUnaryRequest ValidateRequest_RequestVote ToInternal_RequestVote
     FillResponse_RequestVote REQUEST_VOTE_RESPONSE"

definition Rpc_AppendEntries ::
  "poll_round list \<Rightarrow> int \<Rightarrow> out_ptr \<Rightarrow> bool \<Rightarrow> ProtoAppendEntriesRequest \<Rightarrow> RaftRuntime \<Rightarrow>
     ((GrpcCode + ProtoAppendEntriesResponse) \<times> RaftRuntime) option" where
  "Rpc_AppendEntries = DispatchUnaryRequest ValidateRequest_AppendEntries ToInternal_AppendEntries
     FillResponse_AppendEntries APPEND_ENTRIES_RESPONSE"

definition Rpc_InstallSnapshot ::
  "poll_round list \<Rightarrow> int \<Rightarrow> out_ptr \<Rightarrow> bool \<Rightarrow> ProtoInstallSnapshotRequest \<Rightarrow> RaftRuntime \<Rightarrow>
     ((GrpcCode + ProtoInstallSnapshotResponse) \<times> RaftRuntime) option" where
  "Rpc_InstallSnapshot = DispatchUnaryRequest ValidateRequest_InstallSnapshot ToInternal_InstallSnapshot
     FillResponse_InstallSnapshot INSTALL_SNAPSHOT_RESPONSE"

section \<open>The wire\<close>


definition answered :: "NodeId \<Rightarrow> NodeId \<Rightarrow> RaftMessage \<Rightarrow> RaftMessage option" where
  "answered local_node_id remote_node_id m =
     (case msg_payload m of
        RequestVoteResponseMsg _ \<Rightarrow>
          (case FillResponse_RequestVote m of Inl _ \<Rightarrow> None
           | Inr p \<Rightarrow> Some (BuildResponse_RequestVote local_node_id remote_node_id p))
      | AppendEntriesResponseMsg _ \<Rightarrow>
          (case FillResponse_AppendEntries m of Inl _ \<Rightarrow> None
           | Inr p \<Rightarrow> Some (BuildResponse_AppendEntries local_node_id remote_node_id p))
      | InstallSnapshotResponseMsg _ \<Rightarrow>
          (case FillResponse_InstallSnapshot m of Inl _ \<Rightarrow> None
           | Inr p \<Rightarrow> Some (BuildResponse_InstallSnapshot local_node_id remote_node_id p))
      | _ \<Rightarrow> None)"



fun payload_type :: "RaftMessagePayload \<Rightarrow> RaftMessageType" where
  "payload_type (RequestVoteRequestMsg _) = REQUEST_VOTE_REQUEST"
| "payload_type (RequestVoteResponseMsg _) = REQUEST_VOTE_RESPONSE"
| "payload_type (AppendEntriesRequestMsg _) = APPEND_ENTRIES_REQUEST"
| "payload_type (AppendEntriesResponseMsg _) = APPEND_ENTRIES_RESPONSE"
| "payload_type (InstallSnapshotRequestMsg _) = INSTALL_SNAPSHOT_REQUEST"
| "payload_type (InstallSnapshotResponseMsg _) = INSTALL_SNAPSHOT_RESPONSE"

lemma ucast_port [simp]: "ucast (ucast (p :: u16) :: u32) = p"
  by (rule bit_word_eqI) (simp add: bit_simps)

lemma FromProto_ToProto_member [simp]: "FromProto_ClusterMember (ToProto_RaftMember m) = m"
  by (simp add: FromProto_ClusterMember_def ToProto_RaftMember_def ToProto_NodeAddress_def)

lemma FromProto_ToProto_entry [simp]: "FromProto_LogEntry (ToProto_LogEntry e) = e"
  by (cases "le_type e") (simp_all add: FromProto_LogEntry_def ToProto_LogEntry_def)

lemma FromProto_ToProto_view [simp]:
  "FromProto_MembershipView (ToProto_MembershipView v) = v\<lparr>mv_next_voters := [], mv_next_learners := []\<rparr>"
  by (simp add: FromProto_MembershipView_def ToProto_MembershipView_def MembershipView_default_def comp_def)

lemma reject_reason_roundtrip [simp]:
  "FromProtoVoteRejectReason (Rpc_ToProtoVoteRejectReason reason) = reason"
  by (cases reason) simp_all




text \<open>
  A reply arrives as it was given: the message that the sender of a request builds from the
  protobuf reply is the message that the remote runtime had queued, from the node that was asked
  and to the one that asked.
\<close>

theorem reply_roundtrip:
  "answered local remote m =
     (if payload_type (msg_payload m) \<in> {REQUEST_VOTE_RESPONSE, APPEND_ENTRIES_RESPONSE, INSTALL_SNAPSHOT_RESPONSE}
      then Some (m\<lparr>msg_type := payload_type (msg_payload m), msg_source_node_id := remote,
                   msg_target_node_id := local\<rparr>)
      else None)"
  by (cases m; cases "msg_payload m")
    (auto simp: answered_def FillResponse_RequestVote_def BuildResponse_RequestVote_def
      FillResponse_AppendEntries_def BuildResponse_AppendEntries_def
      FillResponse_InstallSnapshot_def BuildResponse_InstallSnapshot_def)

text \<open>
  Six of the nine status codes survive the way from the node that fails to the node that
  asked. A node that is busy, cannot read its storage or finds it corrupt looks like an internal
  error.
\<close>

theorem status_codes_survive:
  "ToCommonStatus (ToGrpcStatus s) = (if s \<in> {Busy, kIoError, Corruption} then InternalError else s)"
  by (cases s) simp_all

end
