(* ===== verification/Rpc_Handler.thy ===== *)
theory Rpc_Handler
  imports Raft_Rpc Runtime_Bounds
begin

text \<open>
  The handlers of the Raft RPCs on a running node: they return, and the reply they return is the
  next message for the sender of the request, whichever request it was made for.
\<close>

definition peer_messages :: "RaftRuntime \<Rightarrow> NodeId \<Rightarrow> RaftMessage list" where
  "peer_messages r n = (case map_find (rt_peer_queues r) n of None \<Rightarrow> [] | Some q \<Rightarrow> pq_messages q)"

lemma TryDequeue_messages:
  "TryDequeuePeerMessage r n out = (result, r') \<Longrightarrow>
     rt_event_queue r' = rt_event_queue r \<and> rt_core r' = rt_core r \<and> rt_state r' = rt_state r \<and>
     peer_messages r' = (peer_messages r)(n := tl (peer_messages r n)) \<and>
     (case result of Inl _ \<Rightarrow> peer_messages r n = [] | Inr m \<Rightarrow> peer_messages r n \<noteq> [] \<and> hd (peer_messages r n) = m)"
  by (auto simp: TryDequeuePeerMessage_def peer_messages_def fun_eq_iff split: option.splits list.splits)

lemma Enqueue_messages:
  "EnqueueMessage r n m = (status, r') \<Longrightarrow> peer_messages r' = peer_messages r \<and> rt_state r' = rt_state r"
  by (auto simp: EnqueueMessage_def Enqueue_def peer_messages_def fun_eq_iff split: prod.splits if_splits)

section \<open>Termination\<close>

lemma WaitForPeerResponse_returns:
  "list_ex (\<lambda>round. deadline \<le> pr_now round) rounds \<Longrightarrow>
     WaitForPeerResponse rounds peer_id expected deadline r \<noteq> None"
  by (induction rounds peer_id expected deadline r rule: WaitForPeerResponse.induct)
    (auto simp: Let_def split: prod.split sum.split)

lemma Dispatch_returns:
  assumes "list_ex (\<lambda>round. deadline \<le> pr_now round) rounds"
  shows "DispatchUnaryRequest validate convert fill expected rounds deadline pointers bound request r \<noteq> None"
proof -
  obtain status r1 where e: "EnqueueMessage r (msg_source_node_id (convert request)) (convert request) = (status, r1)"
    by fastforce
  obtain result r2 where "WaitForPeerResponse rounds (msg_source_node_id (convert request)) expected deadline r1 = Some (result, r2)"
    using WaitForPeerResponse_returns [OF assms] by fastforce
  with e show ?thesis
    by (simp add: DispatchUnaryRequest_def Let_def split: sum.split)
qed

text \<open>
  C22. The handlers return. Whatever the threads of the runtime and the other callers do while a
  handler of one of the three RPCs waits, it has an answer as soon as a round of its loop ends at or
  after its deadline.
\<close>

theorem rpc_handlers_return:
  assumes "list_ex (\<lambda>round. deadline \<le> pr_now round) rounds"
  shows "Rpc_RequestVote rounds deadline pointers bound vote r \<noteq> None \<and>
    Rpc_AppendEntries rounds deadline pointers bound entries r \<noteq> None \<and>
    Rpc_InstallSnapshot rounds deadline pointers bound snapshot r \<noteq> None"
  unfolding Rpc_RequestVote_def Rpc_AppendEntries_def Rpc_InstallSnapshot_def
  by (intro conjI Dispatch_returns assms)

text \<open>Nothing happens to the runtime of the example, and the second round ends after the deadline.\<close>

definition idle_round :: "int \<Rightarrow> poll_round" where
  "idle_round now = \<lparr>pr_before_state = id, pr_before_poll = id, pr_now = now\<rparr>"

definition wire_vote :: ProtoRequestVoteRequest where
  "wire_vote = ToProto_RequestVoteRequest example_vote_request"

theorem rpc_handlers_return_witness:
  "Rpc_RequestVote [idle_round 5, idle_round 12] 10 out True wire_vote (sys_runtime example_system) \<noteq> None \<and>
   map_option fst (Rpc_RequestVote [idle_round 5, idle_round 12] 10 out True wire_vote (sys_runtime example_system)) =
     Some (Inl Grpc_UNAVAILABLE)"
proof -
  have "map_option fst (Rpc_RequestVote [idle_round 5, idle_round 12] 10 out True wire_vote (sys_runtime example_system)) =
     Some (Inl Grpc_UNAVAILABLE)" by code_simp
  then show ?thesis
    using rpc_handlers_return [of 10 "[idle_round 5, idle_round 12]" out True wire_vote "sys_runtime example_system"]
    by (simp add: idle_round_def)
qed

section \<open>Replies that arrive late\<close>

text \<open>
  C23. A handler can answer with the reply to another request. If the queue of the candidate holds a
  vote response when its request comes in (the reply to an earlier request whose handler gave up, or
  to one whose handler still waits), the handler takes that message and returns it: a vote that was
  granted in one term answers the request for another, before the runtime has looked at it.
\<close>

theorem stale_vote_answers:
  assumes "rt_state r = Runtime_RUNNING" and "prv_candidate_id p \<noteq> kInvalidNodeId"
    and "fst (EnqueueMessage r (prv_candidate_id p) (ToInternal_RequestVote p)) = OK"
    and "peer_messages r (prv_candidate_id p) = m # ms"
    and "msg_type m = REQUEST_VOTE_RESPONSE" and "msg_payload m = RequestVoteResponseMsg v"
  shows "map_option fst (Rpc_RequestVote (idle_round now # rounds) deadline out True p r) =
    Some (Inr \<lparr>prvr_term = rvr_term v, prvr_vote_granted = rvr_vote_granted v,
               prvr_reject_reason = Rpc_ToProtoVoteRejectReason (rvr_reject_reason v)\<rparr>)"
proof -
  let ?c = "prv_candidate_id p"
  have source: "msg_source_node_id (ToInternal_RequestVote p) = ?c" by (simp add: ToInternal_RequestVote_def)
  obtain r1 where r1: "EnqueueMessage r ?c (ToInternal_RequestVote p) = (OK, r1)"
    using assms(3) by (metis prod.collapse)
  have "peer_messages r1 ?c = m # ms" "rt_state r1 = Runtime_RUNNING"
    using Enqueue_messages [OF r1] assms(1,4) by simp_all
  moreover obtain result r2 where d: "TryDequeuePeerMessage r1 ?c out = (result, r2)" by fastforce
  ultimately have "result = Inr m" using TryDequeue_messages [OF d] by (auto split: sum.splits)
  then show ?thesis
    using d r1 source assms(1,2,5,6) \<open>rt_state r1 = Runtime_RUNNING\<close>
    by (simp add: Rpc_RequestVote_def DispatchUnaryRequest_def ValidateRequest_RequestVote_def idle_round_def
        FillResponse_RequestVote_def Let_def)
qed

text \<open>
  The example node has answered node 2 in term 1 when nobody waited; the request of node 2 for term 5
  is answered with that vote.
\<close>

theorem stale_vote_answers_witness:
  "map_option fst (Rpc_RequestVote [idle_round 0] 10 out True (wire_vote\<lparr>prv_term := 5\<rparr>) (sys_runtime example_answered)) =
     Some (Inr \<lparr>prvr_term = 1, prvr_vote_granted = True, prvr_reject_reason = VOTE_REJECT_REASON_NONE\<rparr>)"
proof -
  let ?p = "wire_vote\<lparr>prv_term := 5\<rparr>" and ?r = "sys_runtime example_answered"
  obtain m ms where m: "peer_messages ?r (prv_candidate_id ?p) = m # ms" "m = hd (peer_messages ?r (prv_candidate_id ?p))"
  proof -
    have "peer_messages ?r (prv_candidate_id ?p) \<noteq> []" by code_simp
    then show thesis using that by (cases "peer_messages ?r (prv_candidate_id ?p)") simp_all
  qed
  have "msg_type (hd (peer_messages ?r (prv_candidate_id ?p))) = REQUEST_VOTE_RESPONSE"
    "msg_payload (hd (peer_messages ?r (prv_candidate_id ?p))) =
       RequestVoteResponseMsg \<lparr>rvr_term = 1, rvr_vote_granted = True, rvr_reject_reason = Reject_NONE\<rparr>"
    "rt_state ?r = Runtime_RUNNING" "prv_candidate_id ?p \<noteq> kInvalidNodeId"
    "fst (EnqueueMessage ?r (prv_candidate_id ?p) (ToInternal_RequestVote ?p)) = OK"
    by code_simp+
  with m show ?thesis
    using stale_vote_answers [of ?r ?p m ms "\<lparr>rvr_term = 1, rvr_vote_granted = True, rvr_reject_reason = Reject_NONE\<rparr>" 0 "[]" 10]
    by simp
qed

end
