(* ===== verification/Server_Lifecycle.thy ===== *)
theory Server_Lifecycle
  imports Config
begin

text \<open>
  \<open>server/logging.cpp\<close> with its console backend, \<open>platform/process_ops.cpp\<close> on POSIX and
  \<open>server/server_lifecycle.cpp\<close>. The variables these files keep per process are the record
  \<open>Process\<close>; the text written to the two streams is part of it. A lifecycle object is known to
  the process by its address, \<open>lc_self\<close>.
\<close>

section \<open>The process\<close>

record LoggingState =
  ls_initialized :: bool
  ls_level :: LogLevel

record Process =
  ps_logging :: LoggingState
  ps_cout :: string
  ps_cerr :: string
  ps_shutdown_requested :: bool
  ps_shutdown_handler :: bool
  ps_active_lifecycle :: "nat option"

definition LoggingState_default :: LoggingState where
  "LoggingState_default = \<lparr>ls_initialized = False, ls_level = kInfo\<rparr>"

definition Process_new :: Process where
  "Process_new =
     \<lparr>ps_logging = LoggingState_default, ps_cout = [], ps_cerr = [], ps_shutdown_requested = False,
      ps_shutdown_handler = False, ps_active_lifecycle = None\<rparr>"

section \<open>Logging\<close>

fun level_number :: "LogLevel \<Rightarrow> nat" where
  "level_number kTrace = 0"
| "level_number kDebug = 1"
| "level_number kInfo = 2"
| "level_number kWarn = 3"
| "level_number kError = 4"
| "level_number kCritical = 5"

definition ShouldLog :: "Process \<Rightarrow> LogLevel \<Rightarrow> bool" where
  "ShouldLog p level \<longleftrightarrow> level_number (ls_level (ps_logging p)) \<le> level_number level"

fun LevelToText :: "LogLevel \<Rightarrow> string" where
  "LevelToText kTrace = ''TRACE''"
| "LevelToText kDebug = ''DEBUG''"
| "LevelToText kInfo = ''INFO''"
| "LevelToText kWarn = ''WARN''"
| "LevelToText kError = ''ERROR''"
| "LevelToText kCritical = ''CRITICAL''"

definition LogMessage :: "LogLevel \<Rightarrow> string \<Rightarrow> Process \<Rightarrow> Process" where
  "LogMessage level message p =
     (if \<not> ls_initialized (ps_logging p) \<or> \<not> ShouldLog p level then p
      else let line = ''['' @ LevelToText level @ ''] '' @ message @ [CHR 0x0A]
           in if level_number kError \<le> level_number level then p\<lparr>ps_cerr := ps_cerr p @ line\<rparr>
              else p\<lparr>ps_cout := ps_cout p @ line\<rparr>)"

definition LogDebug :: "string \<Rightarrow> Process \<Rightarrow> Process" where "LogDebug = LogMessage kDebug"
definition LogInfo :: "string \<Rightarrow> Process \<Rightarrow> Process" where "LogInfo = LogMessage kInfo"
definition LogWarning :: "string \<Rightarrow> Process \<Rightarrow> Process" where "LogWarning = LogMessage kWarn"
definition LogError :: "string \<Rightarrow> Process \<Rightarrow> Process" where "LogError = LogMessage kError"

definition InitializeLogging :: "LogLevel \<Rightarrow> Process \<Rightarrow> Status \<times> Process" where
  "InitializeLogging level p = (OK, p\<lparr>ps_logging := \<lparr>ls_initialized = True, ls_level = level\<rparr>\<rparr>)"

definition SetLogLevel :: "LogLevel \<Rightarrow> Process \<Rightarrow> Status \<times> Process" where
  "SetLogLevel level p =
     (if \<not> ls_initialized (ps_logging p) then (Busy, p)
      else (OK, p\<lparr>ps_logging := (ps_logging p)\<lparr>ls_level := level\<rparr>\<rparr>))"

text \<open>The streams are not buffered in the model, so there is nothing to flush.\<close>

definition FlushLogging :: "Process \<Rightarrow> Status \<times> Process" where
  "FlushLogging p = (OK, p)"

definition ShutdownLogging :: "Process \<Rightarrow> Status \<times> Process" where
  "ShutdownLogging p =
     (if \<not> ls_initialized (ps_logging p) then (OK, p)
      else (OK, p\<lparr>ps_logging := LoggingState_default\<rparr>))"

section \<open>Signals\<close>

text \<open>\<open>installed\<close> is whether both calls of \<open>sigaction\<close> succeed.\<close>

definition RegisterShutdownHandler :: "bool \<Rightarrow> Process \<Rightarrow> Status \<times> Process" where
  "RegisterShutdownHandler installed p =
     (if installed then OK else InternalError, p\<lparr>ps_shutdown_handler := True\<rparr>)"

definition HandleSignal :: "Process \<Rightarrow> Process" where
  "HandleSignal p = p\<lparr>ps_shutdown_requested := True\<rparr>"

definition IsShutdownRequested :: "Process \<Rightarrow> bool" where
  "IsShutdownRequested p = ps_shutdown_requested p"

definition ResetShutdownForTests :: "Process \<Rightarrow> Process" where
  "ResetShutdownForTests p = p\<lparr>ps_shutdown_requested := False\<rparr>"

section \<open>The lifecycle\<close>

record ServerLifecycle =
  lc_self :: nat
  lc_node_id :: string
  lc_initialized :: bool
  lc_running :: bool
  lc_stop_requested :: bool

definition ServerLifecycle_new :: "nat \<Rightarrow> ServerLifecycle" where
  "ServerLifecycle_new self =
     \<lparr>lc_self = self, lc_node_id = [], lc_initialized = False, lc_running = False,
      lc_stop_requested = False\<rparr>"

text \<open>Of its configuration a lifecycle uses the node id.\<close>

definition Lifecycle_Initialize ::
  "bool \<Rightarrow> Config \<Rightarrow> ServerLifecycle \<Rightarrow> Process \<Rightarrow> Status \<times> ServerLifecycle \<times> Process" where
  "Lifecycle_Initialize installed config l p =
     (if lc_initialized l
      then (case SetLogLevel (cfg_log_level config) p of
              (status, p1) \<Rightarrow> (status, l\<lparr>lc_node_id := cfg_node_id config\<rparr>, p1))
      else case InitializeLogging (cfg_log_level config) p of (status, p1) \<Rightarrow>
        if \<not> ok status then (status, l, p1)
        else case RegisterShutdownHandler installed p1 of (status, p2) \<Rightarrow>
          if \<not> ok status then (status, l, snd (ShutdownLogging p2))
          else (OK, l\<lparr>lc_node_id := cfg_node_id config, lc_stop_requested := False, lc_initialized := True\<rparr>,
                LogInfo ''server lifecycle initialized'' p2))"

definition Lifecycle_Start :: "ServerLifecycle \<Rightarrow> Process \<Rightarrow> Status \<times> ServerLifecycle \<times> Process" where
  "Lifecycle_Start l p =
     (if \<not> lc_initialized l then (Busy, l, p)
      else if lc_running l then (OK, l, p)
      else (OK, l\<lparr>lc_running := True, lc_stop_requested := False\<rparr>,
            LogInfo (''server lifecycle started for node '' @ lc_node_id l)
              (p\<lparr>ps_active_lifecycle := Some (lc_self l)\<rparr>)))"

definition Lifecycle_RequestStop :: "ServerLifecycle \<Rightarrow> ServerLifecycle" where
  "Lifecycle_RequestStop l = l\<lparr>lc_stop_requested := True\<rparr>"

definition Lifecycle_HasShutdownRequest :: "ServerLifecycle \<Rightarrow> Process \<Rightarrow> bool" where
  "Lifecycle_HasShutdownRequest l p \<longleftrightarrow> lc_stop_requested l \<or> IsShutdownRequested p"

definition Lifecycle_Stop :: "ServerLifecycle \<Rightarrow> Process \<Rightarrow> Status \<times> ServerLifecycle \<times> Process" where
  "Lifecycle_Stop l p =
     (if \<not> lc_initialized l then (OK, l, p)
      else let l1 = (Lifecycle_RequestStop l)\<lparr>lc_running := False\<rparr>;
               p1 = (if ps_active_lifecycle p = Some (lc_self l) then p\<lparr>ps_active_lifecycle := None\<rparr> else p);
               p2 = LogInfo (''server lifecycle stopped for node '' @ lc_node_id l) p1;
               p3 = snd (ShutdownLogging (snd (FlushLogging p2)))
           in (OK, l1\<lparr>lc_initialized := False\<rparr>, p3))"

text \<open>
  The callback that \<open>RegisterShutdownHandler\<close> stores. The signal handler does not call it; only
  \<open>RequestShutdownForTests\<close> does.
\<close>

definition HandleProcessShutdown :: "ServerLifecycle \<Rightarrow> Process \<Rightarrow> ServerLifecycle" where
  "HandleProcessShutdown l p =
     (if ps_active_lifecycle p = Some (lc_self l) then l\<lparr>lc_stop_requested := True\<rparr> else l)"

definition RequestShutdownForTests :: "ServerLifecycle \<Rightarrow> Process \<Rightarrow> ServerLifecycle \<times> Process" where
  "RequestShutdownForTests l p =
     (let p1 = p\<lparr>ps_shutdown_requested := True\<rparr>
      in (if ps_shutdown_handler p1 then HandleProcessShutdown l p1 else l, p1))"

section \<open>Facts\<close>

lemma LogMessage_frame [simp]:
  "ps_logging (LogMessage level m p) = ps_logging p"
  "ps_shutdown_requested (LogMessage level m p) = ps_shutdown_requested p"
  "ps_shutdown_handler (LogMessage level m p) = ps_shutdown_handler p"
  "ps_active_lifecycle (LogMessage level m p) = ps_active_lifecycle p"
  by (simp_all add: LogMessage_def Let_def)

lemma LogInfo_frame [simp]:
  "ps_logging (LogInfo m p) = ps_logging p"
  "ps_shutdown_requested (LogInfo m p) = ps_shutdown_requested p"
  "ps_shutdown_handler (LogInfo m p) = ps_shutdown_handler p"
  "ps_active_lifecycle (LogInfo m p) = ps_active_lifecycle p"
  by (simp_all add: LogInfo_def)

lemma Lifecycle_Initialize_ok:
  "Lifecycle_Initialize installed config l p = (OK, l', p') \<Longrightarrow>
     lc_initialized l' \<and> lc_running l' = lc_running l \<and> lc_self l' = lc_self l"
  by (auto simp: Lifecycle_Initialize_def InitializeLogging_def split: if_splits prod.splits)

lemma Lifecycle_Start_ok:
  "Lifecycle_Start l p = (status, l', p') \<Longrightarrow> lc_initialized l \<Longrightarrow>
     status = OK \<and> lc_initialized l' \<and> lc_running l'"
  by (auto simp: Lifecycle_Start_def split: if_splits)

lemma Lifecycle_Stop_ok:
  "Lifecycle_Stop l p = (status, l', p') \<Longrightarrow> status = OK \<and> \<not> lc_initialized l'"
  by (auto simp: Lifecycle_Stop_def Let_def split: if_splits)

text \<open>A line is printed exactly when logging is on and the level is high enough.\<close>

lemma LogMessage_prints:
  "LogMessage level m p \<noteq> p \<longleftrightarrow> ls_initialized (ps_logging p) \<and> ShouldLog p level"
  by (cases p) (auto simp: LogMessage_def Let_def)

end
