(* ===== verification/Server.thy ===== *)
theory Server
  imports Server_Lifecycle Raft_Rpc File_Storage Metadata_State
begin

text \<open>
  \<open>server/server.cpp\<close>: how a configuration becomes a running node. \<open>ServerApplication\<close> opens the
  storage, builds the options of the core, creates the runtime and the transport and starts them;
  two threads of its own feed the runtime with ticks and carry messages between the peer queues and
  the transport.

  The objects that \<open>Initialize\<close> creates are one \<open>ServerParts\<close>: every use of them is behind
  \<open>initialized_\<close>, and a later \<open>Initialize\<close> replaces what a failed one has left. The core is the one
  inside the runtime. The system calls of the storage (\<open>io\<close>, \<open>disk\<close>), \<open>sigaction\<close>, gRPC's
  server builder and the remote peers are parameters.
\<close>

section \<open>Node ids\<close>

text \<open>\<open>parse_positive\<close>: the whole text, up to a NUL byte, is a number other than zero.\<close>

definition parse_positive :: "string \<Rightarrow> NodeId option" where
  "parse_positive s =
     (case strtoull (c_str s) of
        None \<Rightarrow> None
      | Some (raw, rest) \<Rightarrow> if rest \<noteq> [] \<or> raw = 0 then None else Some raw)"

definition kPrefix :: string where "kPrefix = ''node-''"

definition ParseNodeIdText :: "string \<Rightarrow> out_ptr \<Rightarrow> Status + NodeId" where
  "ParseNodeIdText txt node_id =
     (if node_id = nullptr then Inl InvalidArgument
      else if txt = [] then Inl InvalidArgument
      else case parse_positive txt of
        Some parsed \<Rightarrow> Inr parsed
      | None \<Rightarrow>
          if take (length kPrefix) txt \<noteq> kPrefix then Inl InvalidArgument
          else (case parse_positive (drop (length kPrefix) txt) of
                  None \<Rightarrow> Inl InvalidArgument
                | Some parsed \<Rightarrow> Inr parsed))"

section \<open>The options of the core\<close>

record ParsedMember =
  pm_node_id :: NodeId
  pm_member :: InitialMember

definition CeilDiv :: "u64 \<Rightarrow> u64 \<Rightarrow> u64" where
  "CeilDiv dividend divisor = (dividend + divisor - 1) div divisor"

fun ToInitialRole :: "MemberRole \<Rightarrow> RaftRole" where
  "ToInitialRole kLearner = LEARNER"
| "ToInitialRole kVoter = FOLLOWER"

definition ToRaftMember :: "NodeId \<Rightarrow> InitialMember \<Rightarrow> RaftMember" where
  "ToRaftMember node_id member =
     \<lparr>mb_node_id = node_id,
      mb_address = \<lparr>na_host = im_ip_address member, na_port = im_raft_port member\<rparr>\<rparr>"

fun parse_members :: "InitialMember list \<Rightarrow> Status + ParsedMember list" where
  "parse_members [] = Inr []"
| "parse_members (m # ms) =
     and_then (ParseNodeIdText (im_node_id m) out) (\<lambda>id.
     and_then (parse_members ms) (\<lambda>parsed. Inr (\<lparr>pm_node_id = id, pm_member = m\<rparr> # parsed)))"

definition BuildBootstrapMembers :: "Config \<Rightarrow> Status + ParsedMember list \<times> ParsedMember" where
  "BuildBootstrapMembers config =
     and_then (parse_members (cfg_initial_members config)) (\<lambda>members.
     and_then (ParseNodeIdText (cfg_node_id config) out) (\<lambda>local_node_id.
       case find (\<lambda>m. pm_node_id m = local_node_id) members of
         None \<Rightarrow> Inl InvalidArgument
       | Some local_member \<Rightarrow> Inr (members, local_member)))"

definition is_learner_member :: "ParsedMember \<Rightarrow> bool" where
  "is_learner_member m \<longleftrightarrow> im_role (pm_member m) = kLearner"

definition parsed_raft_member :: "ParsedMember \<Rightarrow> RaftMember" where
  "parsed_raft_member m = ToRaftMember (pm_node_id m) (pm_member m)"

text \<open>The loop over the members sorts them into two lists, here two filters.\<close>

definition BuildRaftCoreOptions :: "Config \<Rightarrow> ParsedMember \<Rightarrow> ParsedMember list \<Rightarrow> Options" where
  "BuildRaftCoreOptions config local_member members =
     (let voters = filter (\<lambda>m. \<not> is_learner_member m) members;
          learners = filter is_learner_member members;
          options = \<lparr>opt_node_id = pm_node_id local_member,
            opt_initial_role = ToInitialRole (im_role (pm_member local_member)),
            opt_election_timeout_ticks =
              max 1 (CeilDiv (ucast (cfg_election_timeout_min_ms config)) (ucast (cfg_heartbeat_interval_ms config))),
            opt_hard_state = HardState_default,
            opt_voter_ids = map pm_node_id voters, opt_learner_ids = map pm_node_id learners,
            opt_membership = Some (MembershipView_default
              \<lparr>mv_configuration_id := 1, mv_voters := map parsed_raft_member voters,
               mv_learners := map parsed_raft_member learners\<rparr>)\<rparr>
      in if length (opt_voter_ids options) = 1 \<and> hd (opt_voter_ids options) = pm_node_id local_member \<and>
            opt_learner_ids options = []
         then options\<lparr>opt_initial_role := CANDIDATE,
                opt_hard_state := HardState_default\<lparr>hs_current_term := 1\<rparr>\<rparr>
         else options)"

definition server_runtime_options :: "Config \<Rightarrow> RuntimeOptions" where
  "server_runtime_options config =
     \<lparr>ropt_event_queue_capacity = unat (cfg_queue_capacity config),
      ropt_persistence_queue_capacity = unat (cfg_queue_capacity config),
      ropt_apply_queue_capacity = unat (cfg_queue_capacity config),
      ropt_proposal_result_queue_capacity = unat (cfg_queue_capacity config),
      ropt_peer_queue_capacity = unat (cfg_queue_capacity config)\<rparr>"

section \<open>The application\<close>

record ServerParts =
  sp_storage :: FileRaftStorage
  sp_runtime :: RaftRuntime
  sp_transport :: GrpcRaftTransport
  sp_state_machine :: MetadataStateMachine
  sp_peer_ids :: "NodeId list"
  sp_grpc_server :: bool

record ServerApplication =
  srv_lifecycle :: ServerLifecycle
  srv_initialized :: bool
  srv_running :: bool
  srv_stop_requested :: bool
  srv_config :: "Config option"
  srv_parts :: "ServerParts option"
  srv_threads :: bool

definition ServerApplication_new :: "nat \<Rightarrow> ServerApplication" where
  "ServerApplication_new self =
     \<lparr>srv_lifecycle = ServerLifecycle_new self, srv_initialized = False, srv_running = False,
      srv_stop_requested = False, srv_config = None, srv_parts = None, srv_threads = False\<rparr>"

text \<open>
  From the opened storage to the parts: the core, as a leader when it is the only member, the
  runtime around it, and the transport to the others.
\<close>

definition build_core :: "Options \<Rightarrow> Status + RaftCore" where
  "build_core options =
     (case Initialize RaftCore_new options of (status, core) \<Rightarrow>
        if \<not> ok status then Inl status
        else if opt_initial_role options = CANDIDATE
          then (case BecomeLeader core of (status, core1) \<Rightarrow> if \<not> ok status then Inl status else Inr core1)
        else Inr core)"

definition build_parts ::
  "Config \<Rightarrow> ParsedMember list \<Rightarrow> ParsedMember \<Rightarrow> FileRaftStorage \<Rightarrow> Status + ServerParts" where
  "build_parts config members local_member storage =
     and_then (build_core (BuildRaftCoreOptions config local_member members)) (\<lambda>core.
       case Runtime_Initialize (RaftRuntime_new (server_runtime_options config)) (Some core) True of
         (status, runtime) \<Rightarrow>
           if \<not> ok status then Inl status
           else let others = filter (\<lambda>m. pm_node_id m \<noteq> pm_node_id local_member) members
           in case Transport_Initialize (GrpcRaftTransport_new (ucast (cfg_rpc_timeout_ms config)))
                     (pm_node_id local_member) (map parsed_raft_member others) of
                (status, transport) \<Rightarrow>
                  if \<not> ok status then Inl status
                  else Inr \<lparr>sp_storage = storage, sp_runtime = runtime, sp_transport = transport,
                            sp_state_machine = MetadataStateMachine_new,
                            sp_peer_ids = map pm_node_id others, sp_grpc_server = False\<rparr>)"

definition Server_Initialize ::
  "bool \<Rightarrow> io \<Rightarrow> Config \<Rightarrow> ServerApplication \<Rightarrow> Process \<Rightarrow> disk \<Rightarrow>
     Status \<times> ServerApplication \<times> Process \<times> disk" where
  "Server_Initialize installed io config srv p d =
     (if srv_initialized srv then (Busy, srv, p, d)
      else if \<not> ok (ValidateConfig config) then (ValidateConfig config, srv, p, d)
      else case Lifecycle_Initialize installed config (srv_lifecycle srv) p of (status, l, p1) \<Rightarrow>
        let srv1 = srv\<lparr>srv_lifecycle := l\<rparr>
        in if \<not> ok status then (status, srv1, p1, d)
           else let srv2 = srv1\<lparr>srv_config := Some config\<rparr>
           in case BuildBootstrapMembers config of
             Inl status \<Rightarrow> (status, srv2, p1, d)
           | Inr (members, local_member) \<Rightarrow>
               (case File_Open io FileRaftStorage_new (cfg_data_directory config) d of (status, storage, d1) \<Rightarrow>
                  if \<not> ok status then (status, srv2, p1, d1)
                  else case File_Load io storage out d1 of
                    (Inl status, d2) \<Rightarrow> (status, srv2, p1, d2)
                  | (Inr load_result, d2) \<Rightarrow>
                      if \<not> lr_empty load_result then (RetryLater, srv2, p1, d2)
                      else (case build_parts config members local_member storage of
                              Inl status \<Rightarrow> (status, srv2, p1, d2)
                            | Inr parts \<Rightarrow>
                                (OK, srv2\<lparr>srv_parts := Some parts, srv_initialized := True\<rparr>, p1, d2))))"

definition EndpointForPort :: "Config \<Rightarrow> u16 \<Rightarrow> string" where
  "EndpointForPort config port = cfg_ip_address config @ '':'' @ to_string (unat port)"

definition raft_endpoint :: "Config \<Rightarrow> string" where
  "raft_endpoint config = EndpointForPort config (cfg_raft_port config)"

definition metadata_endpoint :: "Config \<Rightarrow> string" where
  "metadata_endpoint config = EndpointForPort config (cfg_metadata_port config)"

definition store_endpoint :: "Config \<Rightarrow> string" where
  "store_endpoint config = EndpointForPort config (cfg_store_control_port config)"

text \<open>
  \<open>StartGrpcServer\<close>: \<open>bind\<close> is the port that \<open>AddListeningPort\<close> reports for an endpoint, not
  positive when it cannot be bound, and \<open>built\<close> whether \<open>BuildAndStart\<close> returns a server.
\<close>

definition StartGrpcServer :: "(string \<Rightarrow> int) \<Rightarrow> bool \<Rightarrow> Config \<Rightarrow> Status" where
  "StartGrpcServer bind built config =
     (let raft_port = bind (raft_endpoint config);
          metadata_port = (if cfg_metadata_port config \<noteq> cfg_raft_port config
                           then bind (metadata_endpoint config) else raft_port);
          store_port = (if cfg_store_control_port config \<noteq> cfg_raft_port config \<and>
                           cfg_store_control_port config \<noteq> cfg_metadata_port config
                        then bind (store_endpoint config)
                        else if cfg_store_control_port config = cfg_metadata_port config then metadata_port
                        else raft_port)
      in if \<not> built \<or> raft_port \<le> 0 \<or> metadata_port \<le> 0 \<or> store_port \<le> 0 then kIoError else OK)"

definition Server_RequestStop :: "ServerApplication \<Rightarrow> ServerApplication" where
  "Server_RequestStop srv =
     srv\<lparr>srv_stop_requested := True, srv_lifecycle := Lifecycle_RequestStop (srv_lifecycle srv)\<rparr>"

definition Server_HasShutdownRequest :: "ServerApplication \<Rightarrow> Process \<Rightarrow> bool" where
  "Server_HasShutdownRequest srv p \<longleftrightarrow>
     srv_stop_requested srv \<or> Lifecycle_HasShutdownRequest (srv_lifecycle srv) p"

text \<open>
  Shutting the runtime down and waiting for its threads; \<open>joined\<close> is what the threads do to the
  runtime until they have ended.
\<close>

definition stop_runtime :: "(RaftRuntime \<Rightarrow> RaftRuntime) \<Rightarrow> RaftRuntime \<Rightarrow> RaftRuntime" where
  "stop_runtime joined r =
     (joined (if rt_state r = Runtime_RUNNING then snd (RequestShutdown r) else r))\<lparr>rt_state := Runtime_STOPPED\<rparr>"

definition Server_Start ::
  "(string \<Rightarrow> int) \<Rightarrow> bool \<Rightarrow> (RaftRuntime \<Rightarrow> RaftRuntime) \<Rightarrow> ServerApplication \<Rightarrow> Process \<Rightarrow>
     Status \<times> ServerApplication \<times> Process" where
  "Server_Start bind built joined srv p =
     (if \<not> srv_initialized srv then (Busy, srv, p)
      else if srv_running srv then (OK, srv, p)
      else let parts = the (srv_parts srv); config = the (srv_config srv);
               srv1 = srv\<lparr>srv_running := True, srv_stop_requested := False\<rparr>
      in case Lifecycle_Start (srv_lifecycle srv1) p of (status, l1, p1) \<Rightarrow>
        let srv2 = srv1\<lparr>srv_lifecycle := l1\<rparr>;
            give_up = (\<lambda>s parts. case Lifecycle_Stop (srv_lifecycle s) p1 of (_, l2, p2) \<Rightarrow>
              (s\<lparr>srv_lifecycle := l2, srv_running := False, srv_parts := Some parts\<rparr>, p2))
        in if \<not> ok status then (status, srv2\<lparr>srv_running := False\<rparr>, p1)
      else case Transport_Start (sp_transport parts) of (status, t1) \<Rightarrow>
        let parts1 = parts\<lparr>sp_transport := t1\<rparr>
        in if \<not> ok status then (status, give_up srv2 parts1)
      else case Runtime_Start (sp_runtime parts1) of (status, r1) \<Rightarrow>
        let parts2 = parts1\<lparr>sp_runtime := r1\<rparr>
        in if \<not> ok status
           then (status, give_up srv2 (parts2\<lparr>sp_transport := snd (Transport_Stop t1)\<rparr>))
      else let status = StartGrpcServer bind built config
        in if \<not> ok status
           then (status, give_up (Server_RequestStop srv2)
                   (parts2\<lparr>sp_runtime := stop_runtime joined r1, sp_transport := snd (Transport_Stop t1)\<rparr>))
      else (OK, srv2\<lparr>srv_parts := Some (parts2\<lparr>sp_grpc_server := True\<rparr>), srv_threads := True\<rparr>,
            LogInfo (''server started for node '' @ cfg_node_id config @ '' raft='' @ raft_endpoint config @
              '' metadata='' @ metadata_endpoint config @ '' store='' @ store_endpoint config) p1))"

definition Server_Stop ::
  "(RaftRuntime \<Rightarrow> RaftRuntime) \<Rightarrow> ServerApplication \<Rightarrow> Process \<Rightarrow> Status \<times> ServerApplication \<times> Process" where
  "Server_Stop joined srv p =
     (if \<not> srv_initialized srv then (OK, srv, p)
      else let srv1 = Server_RequestStop srv; parts = the (srv_parts srv1);
               parts1 = parts\<lparr>sp_grpc_server := False, sp_runtime := stop_runtime joined (sp_runtime parts),
                 sp_transport := snd (Transport_Stop (sp_transport parts))\<rparr>
      in case Lifecycle_Stop (srv_lifecycle srv1) p of (status, l, p1) \<Rightarrow>
           (status, srv1\<lparr>srv_threads := False, srv_parts := Some parts1, srv_running := False,
              srv_initialized := False, srv_lifecycle := l\<rparr>, p1))"

section \<open>The threads of the server\<close>

text \<open>One round of \<open>TickLoop\<close>, after the sleep.\<close>

definition TickLoop_round :: "RaftRuntime \<Rightarrow> RaftRuntime" where
  "TickLoop_round r = (if rt_state r = Runtime_RUNNING then snd (EnqueueTick r) else r)"

text \<open>
  One round of \<open>PeerPumpLoop\<close>: \<open>did_work\<close> and the runtime. The remote ends are the stubs.
\<close>

fun PeerPumpLoop_round ::
  "RaftStubs \<Rightarrow> GrpcRaftTransport \<Rightarrow> NodeId list \<Rightarrow> RaftRuntime \<Rightarrow> bool \<times> RaftRuntime" where
  "PeerPumpLoop_round net t [] r = (False, r)"
| "PeerPumpLoop_round net t (peer_id # peer_ids) r =
     (case TryDequeuePeerMessage r peer_id out of
        (Inl _, r1) \<Rightarrow> PeerPumpLoop_round net t peer_ids r1
      | (Inr request, r1) \<Rightarrow>
          let r2 = (case Transport_Send net t request out of
                      Inl _ \<Rightarrow> r1
                    | Inr response \<Rightarrow> snd (EnqueueMessage r1 (msg_source_node_id response) response))
          in (True, snd (PeerPumpLoop_round net t peer_ids r2)))"

section \<open>The program\<close>

text \<open>
  \<open>main\<close> of \<open>server_main.cpp\<close>: the exit code, from the arguments (the first is the name of the
  program), the result of loading the file they name, and the statuses of \<open>Initialize\<close>, \<open>Start\<close> and,
  after a shutdown request, \<open>Stop\<close>.
\<close>

definition server_main ::
  "string list \<Rightarrow> (string \<Rightarrow> Status + Config) \<Rightarrow> (Config \<Rightarrow> Status) \<Rightarrow> Status \<Rightarrow> Status \<Rightarrow> int" where
  "server_main argv load_file initialize start stop =
     (if length argv \<noteq> 3 \<or> argv ! 1 = ''--help'' then (if length argv = 2 then 0 else 2)
      else if argv ! 1 \<noteq> ''--config'' then 2
      else case load_file (argv ! 2) of
        Inl _ \<Rightarrow> 1
      | Inr config \<Rightarrow>
          if \<not> ok (initialize config) then 1
          else if \<not> ok start then 1
          else if \<not> ok stop then 1 else 0)"

end
