(* ===== verification/Server_Composition.thy ===== *)
theory Server_Composition
  imports Server Rpc_Handler Runtime_Order File_Recovery Config_Loader Metadata_Machine
begin

text \<open>
  The server as a whole: which configurations bootstrap which role, what the threads of the server
  do to a node that is not alone, and what a node finds when it starts again. The runtime, the
  storage and the state machine behind it are the ones of the other components.
\<close>

section \<open>Node ids\<close>

lemma parse_positive_to_string:
  "parse_positive (to_string (unat w)) = (if w = 0 then None else Some w)" for w :: u64
  using strtoull_to_string [of "unat w"] unat_u64_lt [of w] by (simp add: parse_positive_def)

lemma parse_positive_prefix: "parse_positive (''node-'' @ s) = None"
proof -
  have "c_str (''node-'' @ s) = ''node-'' @ c_str s" by (simp add: c_str_def)
  then show ?thesis
    by (simp add: parse_positive_def strtoull_def is_space_def is_digit_def Let_def)
qed

lemma to_string_not_prefix: "take (length kPrefix) (to_string n) \<noteq> kPrefix"
proof
  assume "take (length kPrefix) (to_string n) = kPrefix"
  then have "set kPrefix \<subseteq> set (to_string n)" by (metis set_take_subset)
  then have "CHR ''n'' \<in> set (to_string n)" by (simp add: kPrefix_def)
  then show False using to_string_digits [of n] by (auto simp: is_digit_def)
qed

text \<open>
  Every node id but zero can be written in a configuration, as a decimal number or behind
  \<open>node-\<close>, and is read back as itself; zero is refused in both forms.
\<close>

theorem node_id_roundtrip:
  "ParseNodeIdText (to_string (unat w)) out = (if w = 0 then Inl InvalidArgument else Inr w) \<and>
   ParseNodeIdText (''node-'' @ to_string (unat w)) out = (if w = 0 then Inl InvalidArgument else Inr w)"
proof
  show "ParseNodeIdText (to_string (unat w)) out = (if w = 0 then Inl InvalidArgument else Inr w)"
    using to_string_not_prefix by (simp add: ParseNodeIdText_def parse_positive_to_string)
  show "ParseNodeIdText (''node-'' @ to_string (unat w)) out = (if w = 0 then Inl InvalidArgument else Inr w)"
    using parse_positive_prefix by (simp add: ParseNodeIdText_def parse_positive_to_string kPrefix_def)
qed

text \<open>
  Other texts are ids too: a minus sign negates, a number that is too large saturates, white space
  and a plus sign are skipped and a NUL byte ends the text. So two members of a well-formed
  configuration can denote one node.
\<close>

lemma odd_node_ids:
  "ParseNodeIdText ''-1'' out = Inr (- 1)"
  "ParseNodeIdText ''99999999999999999999'' out = Inr (- 1)"
  "ParseNodeIdText ''node- +07'' out = Inr 7"
  "ParseNodeIdText (''7'' @ CHR 0x00 # ''x'') out = Inr 7"
  by (simp_all add: ParseNodeIdText_def parse_positive_def kPrefix_def c_str_def strtoull_def
      is_space_def is_digit_def digits_value_def digit_value_def Let_def)

section \<open>The role a node starts in\<close>

lemma parse_members_length: "parse_members ms = Inr parsed \<Longrightarrow> map pm_member parsed = ms"
  by (induction ms arbitrary: parsed) (auto simp: and_then_Inr_iff)

lemma BuildBootstrapMembers_ok:
  assumes "BuildBootstrapMembers config = Inr (members, local_member)"
  shows "map pm_member members = cfg_initial_members config" "local_member \<in> set members"
proof -
  obtain id where "parse_members (cfg_initial_members config) = Inr members"
    "find (\<lambda>m. pm_node_id m = id) members = Some local_member"
    using assms by (auto simp: BuildBootstrapMembers_def and_then_Inr_iff split: option.split_asm)
  then show "map pm_member members = cfg_initial_members config" "local_member \<in> set members"
    by (auto simp: parse_members_length find_Some_iff)
qed

text \<open>The node is the only member of the cluster.\<close>

definition sole_member :: "Config \<Rightarrow> bool" where
  "sole_member config \<longleftrightarrow>
     length (cfg_initial_members config) = 1 \<and> im_role (hd (cfg_initial_members config)) = kVoter"

lemma options_sole:
  assumes "BuildBootstrapMembers config = Inr (members, local_member)"
  defines "options \<equiv> BuildRaftCoreOptions config local_member members"
  shows "if sole_member config
    then opt_initial_role options = CANDIDATE \<and> opt_hard_state options = HardState_default\<lparr>hs_current_term := 1\<rparr>
    else opt_initial_role options \<in> {FOLLOWER, LEARNER} \<and> opt_hard_state options = HardState_default"
proof -
  note ms = BuildBootstrapMembers_ok [OF assms(1)]
  let ?voters = "filter (\<lambda>m. \<not> is_learner_member m) members"
  let ?learners = "filter is_learner_member members"
  have one: "length ?voters = 1 \<and> ?learners = [] \<longleftrightarrow> length members = 1 \<and> \<not> is_learner_member (hd members)"
    by (cases members; cases "tl members") (auto simp: filter_empty_conv)
  have "map pm_node_id ?voters = [pm_node_id local_member]" if "length members = 1" "\<not> is_learner_member (hd members)"
    using that ms(2) by (cases members) auto
  moreover have "length members = 1 \<and> \<not> is_learner_member (hd members) \<longleftrightarrow> sole_member config"
    unfolding sole_member_def ms(1) [symmetric] is_learner_member_def
    by (cases members; cases "im_role (pm_member (hd members))") auto
  ultimately have "length ?voters = 1 \<and> hd (map pm_node_id ?voters) = pm_node_id local_member \<and> ?learners = [] \<longleftrightarrow>
      sole_member config"
    using one by fastforce
  moreover have "ToInitialRole role \<in> {FOLLOWER, LEARNER}" for role by (cases role) simp_all
  ultimately show ?thesis
    by (simp add: options_def BuildRaftCoreOptions_def Let_def del: filter_eq_Cons_iff)
qed

lemma build_core_facts:
  assumes "build_core options = Inr core"
  shows "core_inv core" "current_term core = hs_current_term (opt_hard_state options)"
    "voted_for core = hs_voted_for (opt_hard_state options)"
    "rc_log core = RaftLog_new" "queued core = []" "rc_node_id core = opt_node_id options"
    "rc_role core = (if opt_initial_role options = CANDIDATE then LEADER else opt_initial_role options)"
proof -
  obtain c where c: "Initialize RaftCore_new options = (OK, c)"
    using assms by (auto simp: build_core_def split: prod.splits if_splits)
  note facts = Initialize_inv [OF c]
  have "if opt_initial_role options = CANDIDATE then BecomeLeader c = (OK, core) else core = c"
    using assms c by (auto simp: build_core_def split: prod.splits if_splits)
  moreover have "BecomeLeader c = (OK, core) \<Longrightarrow> core_inv core"
    using core_le_inv [OF BecomeLeader_le [OF facts(1)]] by simp
  moreover have "BecomeLeader c = (OK, core) \<Longrightarrow>
      rc_role core = LEADER \<and> rc_hard_state core = rc_hard_state c \<and> rc_log core = rc_log c \<and>
      rc_immediate_messages core = rc_immediate_messages c \<and>
      rc_persisted_messages core = rc_persisted_messages c \<and> rc_node_id core = rc_node_id c"
    by (auto simp: BecomeLeader_def ResetElectionTicks_def ResetPeerProgress_def SyncLocalPeerProgress_def
        put_progress_def Let_def split: if_splits sum.splits)
  ultimately show "core_inv core" "current_term core = hs_current_term (opt_hard_state options)"
    "voted_for core = hs_voted_for (opt_hard_state options)"
    "rc_log core = RaftLog_new" "queued core = []" "rc_node_id core = opt_node_id options"
    "rc_role core = (if opt_initial_role options = CANDIDATE then LEADER else opt_initial_role options)"
    using facts by (auto simp: current_term_def voted_for_def queued_def split: if_splits)
qed

section \<open>The running server\<close>

text \<open>
  The system that runs when \<open>Start\<close> has returned: the runtime of the server with its three threads,
  behind it the file storage (each call of which has system calls of its own) and the metadata state
  machine.
\<close>

definition server_environment :: "StoreId \<Rightarrow> (file_world, MetadataStateMachine) Environment" where
  "server_environment uninit =
     \<lparr>env_append_entries = \<lambda>w entries. file_exec (Op_AppendEntries entries) w,
      env_save_hard_state = \<lambda>w hard_state. file_exec (Op_SaveHardState hard_state) w,
      env_save_snapshot = \<lambda>w snapshot. file_exec (Op_SaveSnapshot snapshot) w,
      env_apply = Some (server_apply uninit)\<rparr>"

definition server_system :: "ServerApplication \<Rightarrow> disk \<Rightarrow> (nat \<Rightarrow> io) \<Rightarrow> (file_world, MetadataStateMachine) System" where
  "server_system srv d ios =
     (let parts = the (srv_parts srv)
      in \<lparr>sys_runtime = sp_runtime parts, sys_storage = (sp_storage parts, d, ios),
          sys_machine = sp_state_machine parts, sys_protocol = Protocol_waiting,
          sys_persistence = Persistence_waiting, sys_apply = Apply_waiting, sys_applied = []\<rparr>)"

text \<open>\<open>srv\<close> is a server that has been initialized and started in this order, for the first time.\<close>

definition started :: "io \<Rightarrow> Config \<Rightarrow> disk \<Rightarrow> disk \<Rightarrow> ServerApplication \<Rightarrow> bool" where
  "started io config d d' srv \<longleftrightarrow>
     (\<exists>self p p' p'' srv1 bind built joined.
        Server_Initialize True io config (ServerApplication_new self) p d = (OK, srv1, p', d') \<and>
        Server_Start bind built joined srv1 p' = (OK, srv, p''))"

lemma build_parts_facts:
  assumes "build_parts config members local_member storage = Inr parts"
  obtains core where "build_core (BuildRaftCoreOptions config local_member members) = Inr core"
    "sp_runtime parts = snd (Runtime_Initialize (RaftRuntime_new (server_runtime_options config)) (Some core) True)"
    "sp_state_machine parts = MetadataStateMachine_new" "sp_storage parts = storage"
    "distinct (sp_peer_ids parts)" "pm_node_id local_member \<notin> set (sp_peer_ids parts)"
    "gt_local_node_id (sp_transport parts) = pm_node_id local_member"
    "gt_state (sp_transport parts) = Transport_INITIALIZED"
proof -
  obtain core where core: "build_core (BuildRaftCoreOptions config local_member members) = Inr core"
    using assms by (auto simp: build_parts_def and_then_Inr_iff)
  define others where "others = filter (\<lambda>m. pm_node_id m \<noteq> pm_node_id local_member) members"
  obtain r where r: "Runtime_Initialize (RaftRuntime_new (server_runtime_options config)) (Some core) True = (OK, r)"
    using assms core by (auto simp: build_parts_def and_then_Inr_iff split: prod.splits if_splits)
  obtain t where t: "Transport_Initialize (GrpcRaftTransport_new (ucast (cfg_rpc_timeout_ms config)))
      (pm_node_id local_member) (map parsed_raft_member others) = (OK, t)"
    "parts = \<lparr>sp_storage = storage, sp_runtime = r, sp_transport = t,
       sp_state_machine = MetadataStateMachine_new, sp_peer_ids = map pm_node_id others, sp_grpc_server = False\<rparr>"
    using assms core r
    by (auto simp: build_parts_def and_then_Inr_iff others_def Let_def split: prod.splits if_splits)
  obtain u where u: "Transport_add_peers (map parsed_raft_member others)
      ((GrpcRaftTransport_new (ucast (cfg_rpc_timeout_ms config)))\<lparr>gt_local_node_id := pm_node_id local_member,
        gt_peers := [], gt_stubs := []\<rparr>) = (OK, u)" "t = u\<lparr>gt_state := Transport_INITIALIZED\<rparr>"
    using t(1) by (auto simp: Transport_Initialize_def split: prod.splits if_splits)
  have ids: "map mb_node_id (map parsed_raft_member others) = map pm_node_id others"
    by (simp add: parsed_raft_member_def ToRaftMember_def)
  have "peers_ok (pm_node_id local_member) (map parsed_raft_member others)"
    using Transport_add_peers_ok [of "map parsed_raft_member others"] u(1) by (metis (no_types) GrpcRaftTransport.select_convs(2)
      GrpcRaftTransport.surjective GrpcRaftTransport.update_convs(2,4,5) fst_conv)
  then have "distinct (filter (\<lambda>i. i \<noteq> pm_node_id local_member) (map pm_node_id others))"
    unfolding peers_ok_def ids by blast
  moreover have "filter (\<lambda>i. i \<noteq> pm_node_id local_member) (map pm_node_id others) = map pm_node_id others"
    by (auto simp: others_def filter_map comp_def)
  ultimately have d: "distinct (map pm_node_id others)" by simp
  have n: "pm_node_id local_member \<notin> set (map pm_node_id others)" by (auto simp: others_def)
  show thesis
    using that [OF core] r t(2) u Transport_add_peers_frame [OF u(1)] d n by simp
qed

lemma started_facts:
  assumes "started io config d d' srv"
  obtains members local_member core where
    "well_formed config" "BuildBootstrapMembers config = Inr (members, local_member)"
    "build_core (BuildRaftCoreOptions config local_member members) = Inr core"
    "server_system srv d' ios = system_started (server_runtime_options config) core
       (sp_storage (the (srv_parts srv)), d', ios) MetadataStateMachine_new"
    "distinct (sp_peer_ids (the (srv_parts srv)))"
    "rc_node_id core \<notin> set (sp_peer_ids (the (srv_parts srv)))"
proof -
  obtain self p p' p'' srv1 bind built joined where
    init: "Server_Initialize True io config (ServerApplication_new self) p d = (OK, srv1, p', d')" and
    start: "Server_Start bind built joined srv1 p' = (OK, srv, p'')"
    using assms unfolding started_def by blast
  have initialized: "srv_initialized srv1"
    using start by (auto simp: Server_Start_def split: if_splits)
  obtain members local_member storage parts where
    valid: "ValidateConfig config = OK" and members: "BuildBootstrapMembers config = Inr (members, local_member)"
    and parts: "build_parts config members local_member storage = Inr parts"
    and srv1: "srv_parts srv1 = Some parts" "\<not> srv_running srv1" "srv_initialized srv1"
    using init initialized
    by (auto simp: Server_Initialize_def ServerApplication_new_def Let_def split: prod.splits if_splits sum.splits)
  obtain core where core: "build_core (BuildRaftCoreOptions config local_member members) = Inr core"
    "sp_runtime parts = snd (Runtime_Initialize (RaftRuntime_new (server_runtime_options config)) (Some core) True)"
    "sp_state_machine parts = MetadataStateMachine_new"
    "distinct (sp_peer_ids parts)" "pm_node_id local_member \<notin> set (sp_peer_ids parts)"
    using build_parts_facts [OF parts] by metis
  have srv: "sp_runtime (the (srv_parts srv)) = snd (Runtime_Start (sp_runtime parts))"
    "sp_state_machine (the (srv_parts srv)) = sp_state_machine parts"
    "sp_peer_ids (the (srv_parts srv)) = sp_peer_ids parts"
    using start srv1
    by (auto simp: Server_Start_def Let_def split: prod.splits if_splits)
  have "rc_node_id core = pm_node_id local_member"
    using build_core_facts(6) [OF core(1)] by (simp add: BuildRaftCoreOptions_def Let_def)
  then show thesis
    using that [OF _ members core(1)] valid core srv
    by (simp add: ValidateConfig_ok_iff server_system_def system_started_def Let_def)
qed

lemma started_core:
  assumes "started io config d d' srv"
  obtains core where "server_system srv d' ios = system_started (server_runtime_options config) core
       (sp_storage (the (srv_parts srv)), d', ios) MetadataStateMachine_new"
    "core_inv core" "rc_log core = RaftLog_new" "queued core = []" "voted_for core = kInvalidNodeId"
    "if sole_member config then rc_role core = LEADER \<and> current_term core = 1
     else rc_role core \<in> {FOLLOWER, LEARNER} \<and> current_term core = kInitialTerm"
    "ropt_peer_queue_capacity (server_runtime_options config) \<noteq> 0"
proof -
  obtain members local_member core where
    c: "well_formed config" "BuildBootstrapMembers config = Inr (members, local_member)"
    "build_core (BuildRaftCoreOptions config local_member members) = Inr core"
    "server_system srv d' ios = system_started (server_runtime_options config) core
       (sp_storage (the (srv_parts srv)), d', ios) MetadataStateMachine_new"
    using started_facts [OF assms, of ios] by metis
  have "unat (cfg_queue_capacity config) \<noteq> 0"
    using c(1) by (simp add: well_formed_def limits_ok_def word_less_nat_alt)
  then show thesis
    using that [OF c(4)] build_core_facts [OF c(3)] options_sole [OF c(2)]
    by (simp add: server_runtime_options_def HardState_default_def split: if_splits)
qed

text \<open>
  What a configuration makes of a fresh node: the only voter of a cluster of one leads from
  the start, in term 1 and without a vote, and every other node starts as a follower or a learner
  in term 0; its log is empty and it has nothing to send.
\<close>

theorem bootstrap_role:
  assumes "started io config d d' srv"
  shows "let core = rt_core (sp_runtime (the (srv_parts srv)))
    in core_inv core \<and> rc_log core = RaftLog_new \<and> queued core = [] \<and> voted_for core = kInvalidNodeId \<and>
       (if sole_member config then rc_role core = LEADER \<and> current_term core = 1
        else rc_role core \<in> {FOLLOWER, LEARNER} \<and> current_term core = kInitialTerm)"
proof -
  obtain core where c: "server_system srv d' (\<lambda>_. io) = system_started (server_runtime_options config) core
       (sp_storage (the (srv_parts srv)), d', \<lambda>_. io) MetadataStateMachine_new"
    "core_inv core" "rc_log core = RaftLog_new" "queued core = []" "voted_for core = kInvalidNodeId"
    "if sole_member config then rc_role core = LEADER \<and> current_term core = 1
     else rc_role core \<in> {FOLLOWER, LEARNER} \<and> current_term core = kInitialTerm"
    "ropt_peer_queue_capacity (server_runtime_options config) \<noteq> 0"
    using started_core [OF assms, of "\<lambda>_. io"] by blast
  have "sp_runtime (the (srv_parts srv)) = sys_runtime (server_system srv d' (\<lambda>_. io))"
    by (simp add: server_system_def Let_def)
  then have "rt_core (sp_runtime (the (srv_parts srv))) = core"
    using c(1,7) by (simp add: system_started_def Runtime_Start_def Runtime_Initialize_def
        RaftRuntime_new_def Let_def)
  then show ?thesis using c(2-6) by simp
qed

section \<open>The peer pump\<close>

definition only_replies :: "RaftRuntime \<Rightarrow> bool" where
  "only_replies r \<longleftrightarrow> (\<forall>n. \<forall>m \<in> set (peer_messages r n). is_reply (msg_type m))"

lemma send_refuses_replies: "is_reply (msg_type m) \<Longrightarrow> \<exists>status. Transport_Send net t m p = Inl status"
  by (cases "msg_type m") (auto simp: Transport_Send_def ValidateRequestMessage_def)

lemma in_tl: "x \<in> set (tl xs) \<Longrightarrow> x \<in> set xs"
  by (cases xs) auto

lemma pump_drops:
  "only_replies r \<Longrightarrow> distinct ids \<Longrightarrow> PeerPumpLoop_round net t ids r = (did_work, r') \<Longrightarrow>
     rt_event_queue r' = rt_event_queue r \<and> rt_core r' = rt_core r \<and> only_replies r' \<and>
     peer_messages r' = (\<lambda>n. if n \<in> set ids then tl (peer_messages r n) else peer_messages r n)"
proof (induction ids arbitrary: r did_work r')
  case (Cons n ids)
  obtain result r1 where d: "TryDequeuePeerMessage r n out = (result, r1)" by fastforce
  note m = TryDequeue_messages [OF d]
  have only: "only_replies r1"
    using Cons.prems(1) m by (auto simp: only_replies_def dest: in_tl)
  obtain did r2 where rest: "PeerPumpLoop_round net t ids r1 = (did, r2)" by fastforce
  have "r' = r2"
  proof (cases result)
    case (Inr msg)
    then have "msg \<in> set (peer_messages r n)" using m by auto
    then obtain status where "Transport_Send net t msg out = Inl status"
      using Cons.prems(1) send_refuses_replies unfolding only_replies_def by blast
    then show ?thesis using Cons.prems(3) d rest Inr by simp
  qed (use Cons.prems(3) d rest in simp)
  then show ?case
    using Cons.IH [OF only _ rest] Cons.prems(2) m by (auto simp: fun_eq_iff)
qed auto

text \<open>
  C9. A server that is not the only voter never leads, and its peer pump never delivers anything:
  in every state of every run its role is not LEADER, and a round of \<open>PeerPumpLoop\<close>, whatever the
  network does, enqueues no message; it takes the first message of every peer queue and loses it,
  because all of them are replies and \<open>Send\<close> refuses replies. The RPC handlers wait for these
  messages in the same queues.
\<close>

theorem cluster_server_only_drops:
  assumes "started io config d d' srv" and "\<not> sole_member config"
    and "reachable (server_environment uninit) (server_system srv d' ios) s"
  shows "rc_role (rt_core (sys_runtime s)) \<noteq> LEADER \<and>
    (case PeerPumpLoop_round net t (sp_peer_ids (the (srv_parts srv))) (sys_runtime s) of (did_work, r) \<Rightarrow>
       rt_event_queue r = rt_event_queue (sys_runtime s) \<and>
       peer_messages r = (\<lambda>n. if n \<in> set (sp_peer_ids (the (srv_parts srv)))
                              then tl (peer_messages (sys_runtime s) n) else peer_messages (sys_runtime s) n))"
proof -
  obtain core where c: "server_system srv d' ios = system_started (server_runtime_options config) core
       (sp_storage (the (srv_parts srv)), d', ios) MetadataStateMachine_new"
    "queued core = []" "rc_role core \<noteq> LEADER" "ropt_peer_queue_capacity (server_runtime_options config) \<noteq> 0"
    using started_core [OF assms(1), of ios] assms(2) by (metis RaftRole.distinct(3,11) empty_iff insert_iff)
  have "distinct (sp_peer_ids (the (srv_parts srv)))"
    using started_facts [OF assms(1), of ios] by blast
  moreover note r = runtime_only_replies [OF c(3,2,4) assms(3) [unfolded c(1)]]
  have "\<forall>m \<in> set (peer_messages (sys_runtime s) n). is_reply (msg_type m)" for n
    using r by (cases "map_find (rt_peer_queues (sys_runtime s)) n") (auto simp: peer_messages_def)
  then have "only_replies (sys_runtime s)" by (simp add: only_replies_def)
  ultimately show ?thesis using pump_drops r by (simp split: prod.split)
qed

section \<open>The replicated state\<close>




section \<open>Starting again\<close>

text \<open>What a storage holds that is not as good as new.\<close>

definition holds_state :: "Durable \<Rightarrow> bool" where
  "holds_state d \<longleftrightarrow> du_hard_state d \<noteq> HardState_default \<or> du_last d \<noteq> kInvalidLogIndex"

lemma reopened_not_empty:
  assumes "file_inv dir few_members w" "dir \<noteq> []" "holds_state (file_durable w)"
  shows "\<exists>f result. File_Open io_fine FileRaftStorage_new dir (fst (snd w)) = (OK, f, fst (snd w)) \<and>
    File_Load io_fine f out (fst (snd w)) = (Inr result, fst (snd w)) \<and> \<not> lr_empty result"
proof -
  let ?d = "fst (snd w)"
  obtain ds where ds: "file_rel dir ds (fst w) ?d" "\<forall>s. ds = Some s \<longrightarrow> few_members s"
    using assms(1) by (auto simp: file_inv_def)
  obtain f where f: "File_Open io_fine FileRaftStorage_new dir ?d = (OK, f, ?d)"
    "file_rel dir (map_option forget_targets ds) f ?d"
    "reopened_from (file_durable w) (memory_durable (mem_of f))"
    using File_Open_fine [OF ds(1) assms(2) ds(2), of FileRaftStorage_new] by (auto simp: file_durable_def)
  have few: "\<forall>s. map_option forget_targets ds = Some s \<longrightarrow> few_members s"
    using ds(2) by (auto simp: few_members_def forget_targets_def)
  note load = LoadFromDisk_fine [OF f(2) file_relD(2) [OF f(2)] few]
  have hold: "frs_hard_state f \<noteq> HardState_default \<or> File_LastLogIndex f \<noteq> 0"
    using assms(3) f(3) by (auto simp: holds_state_def reopened_from_def memory_durable_def helpers_eq)
  have "frs_open f" using file_relD(1) [OF f(2)] by (simp add: memory_inv_def mem_of_def)
  then have "File_Load io_fine f out ?d = (Inr \<lparr>lr_hard_state = frs_hard_state f,
      lr_entries = filter (\<lambda>e. snapshot_index (map_option forget_targets ds) < le_index e) (frs_entries f),
      lr_snapshot = map_option forget_targets (map_option forget_targets ds),
      lr_empty = (filter (\<lambda>e. snapshot_index (map_option forget_targets ds) < le_index e) (frs_entries f) = [] \<and>
        map_option forget_targets (map_option forget_targets ds) = None \<and>
        frs_hard_state f = HardState_default)\<rparr>, ?d)"
    unfolding File_Load_def using load(1)
    by (cases "frs_hard_state f") (simp add: File_RequireOpen_def HardState_default_def)
  moreover have "\<not> (filter (\<lambda>e. snapshot_index (map_option forget_targets ds) < le_index e) (frs_entries f) = [] \<and>
      ds = None \<and> frs_hard_state f = HardState_default)"
    using load(4) hold by (auto simp: LastIndex_def)
  ultimately show ?thesis using f(1) by auto
qed

text \<open>
  C11. A server starts once. Whatever a node wrote to its data directory, in any history of writes
  and crashes, as soon as its storage holds a hard state or a log, initializing a server on that
  directory is refused with RetryLater, although the storage opens without an error and still holds
  everything that was acknowledged.
\<close>

theorem restart_refused:
  assumes "well_formed config" and "BuildBootstrapMembers config = Inr (members, local_member)"
    and "no_files (cfg_data_directory config) d" and "few_members_in evs"
    and "w = history (cfg_data_directory config) evs (first_world (cfg_data_directory config) d ios)"
    and "holds_state (file_durable w)"
  shows "fst (Server_Initialize True io_fine config (ServerApplication_new self) p (fst (snd w))) = RetryLater"
proof -
  have dir: "cfg_data_directory config \<noteq> []" using assms(1) by (simp add: well_formed_def)
  have "file_inv (cfg_data_directory config) few_members w"
    using history_inv [OF first_world_inv(1) [OF dir assms(3)] dir assms(4)] unfolding assms(5) by blast
  then obtain f result where f:
    "File_Open io_fine FileRaftStorage_new (cfg_data_directory config) (fst (snd w)) = (OK, f, fst (snd w))"
    "File_Load io_fine f out (fst (snd w)) = (Inr result, fst (snd w))" "\<not> lr_empty result"
    using reopened_not_empty [OF _ dir assms(6)] by blast
  obtain l p1 where "Lifecycle_Initialize True config (ServerLifecycle_new self) p = (OK, l, p1)"
    by (auto simp: Lifecycle_Initialize_def ServerLifecycle_new_def InitializeLogging_def RegisterShutdownHandler_def)
  then show ?thesis
    using f assms(1,2) by (simp add: Server_Initialize_def ServerApplication_new_def ValidateConfig_ok_iff Let_def)
qed

section \<open>Examples\<close>

text \<open>The test configuration of one node, and the first configuration file with three voters.\<close>

definition config_member :: "string \<Rightarrow> u16 \<Rightarrow> MemberRole \<Rightarrow> InitialMember" where
  "config_member name port role =
     \<lparr>im_node_id = name, im_ip_address = ''127.0.0.1'', im_raft_port = port, im_metadata_port = port + 100,
      im_store_control_port = port + 200, im_role = role\<rparr>"

definition example_config :: "InitialMember list \<Rightarrow> Config" where
  "example_config members =
     \<lparr>cfg_node_id = ''node-1'', cfg_ip_address = ''127.0.0.1'', cfg_raft_port = 7101,
      cfg_metadata_port = 7201, cfg_store_control_port = 7301, cfg_initial_members = members,
      cfg_heartbeat_interval_ms = 150, cfg_election_timeout_min_ms = 500,
      cfg_election_timeout_max_ms = 900, cfg_rpc_timeout_ms = 1000, cfg_queue_capacity = 8,
      cfg_worker_count = 4, cfg_max_message_size = 4194304, cfg_log_batch_size = 128,
      cfg_data_directory = ''d'', cfg_snapshot_directory = ''s'', cfg_store_heartbeat_timeout_ms = 3000,
      cfg_failure_detection_interval_ms = 1000, cfg_task_poll_limit = 64, cfg_log_level = kInfo\<rparr>"

definition sole_config :: Config where
  "sole_config = example_config [config_member ''node-1'' 7101 kVoter]"

definition cluster_config :: Config where
  "cluster_config = example_config
     [config_member ''node-1'' 7101 kVoter, config_member ''node-2'' 7102 kVoter,
      config_member ''node-3'' 7103 kVoter, config_member ''node-4'' 7104 kLearner]"


text \<open>A fresh node starts when the core accepts the options and the others have usable addresses.\<close>

lemma fresh_node_starts:
  assumes "well_formed config" and "BuildBootstrapMembers config = Inr (members, local_member)"
    and "no_files (cfg_data_directory config) d"
    and "build_core (BuildRaftCoreOptions config local_member members) = Inr core"
    and "peers_ok (pm_node_id local_member)
      (map parsed_raft_member (filter (\<lambda>m. pm_node_id m \<noteq> pm_node_id local_member) members))"
    and "pm_node_id local_member \<noteq> kInvalidNodeId"
  obtains srv d' where "started io_fine config d d' srv"
    "sp_peer_ids (the (srv_parts srv)) =
       map pm_node_id (filter (\<lambda>m. pm_node_id m \<noteq> pm_node_id local_member) members)"
    "\<And>ios. server_system srv d' ios = system_started (server_runtime_options config) core
       (sp_storage (the (srv_parts srv)), d', ios) MetadataStateMachine_new"
    "File_Open io_fine FileRaftStorage_new (cfg_data_directory config) d = (OK, sp_storage (the (srv_parts srv)), d')"
proof -
  let ?others = "filter (\<lambda>m. pm_node_id m \<noteq> pm_node_id local_member) members"
  have dir: "cfg_data_directory config \<noteq> []" and cap: "unat (cfg_queue_capacity config) \<noteq> 0"
    using assms(1) by (simp_all add: well_formed_def limits_ok_def word_less_nat_alt)
  obtain f d1 where f: "File_Open io_fine FileRaftStorage_new (cfg_data_directory config) d = (OK, f, d1)"
    "file_rel (cfg_data_directory config) None f d1" "memory_durable (mem_of f) = Durable_new"
    using File_Open_first [OF dir, of d FileRaftStorage_new] assms(3) unfolding no_files_def by blast
  note load = LoadFromDisk_fine [OF f(2) file_relD(2) [OF f(2)], simplified]
  have "frs_hard_state f = HardState_default" "File_LastLogIndex f = 0"
    using f(3) by (simp_all add: memory_durable_def Durable_new_def helpers_eq)
  moreover have "frs_open f" using file_relD(1) [OF f(2)] by (simp add: memory_inv_def mem_of_def)
  moreover have "frs_entries f = []"
    using memory_last [OF memory_invD(2) [OF file_relD(1) [OF f(2)]]] \<open>File_LastLogIndex f = 0\<close>
    by (simp add: helpers_eq)
  ultimately obtain result where result: "File_Load io_fine f out d1 = (Inr result, d1)" "lr_empty result"
    unfolding File_Load_def using load(1) by (simp add: File_RequireOpen_def HardState_default_def)
  obtain r where r: "Runtime_Initialize (RaftRuntime_new (server_runtime_options config)) (Some core) True = (OK, r)"
    using cap by (simp add: Runtime_Initialize_def RaftRuntime_new_def server_runtime_options_def Let_def)
  obtain status t where t: "Transport_Initialize (GrpcRaftTransport_new (ucast (cfg_rpc_timeout_ms config)))
      (pm_node_id local_member) (map parsed_raft_member ?others) = (status, t)" by fastforce
  then have ok: "status = OK" "gt_state t = Transport_INITIALIZED"
    using Transport_Initialize_peers [where t = "GrpcRaftTransport_new (ucast (cfg_rpc_timeout_ms config))"
        and n = "pm_node_id local_member" and peers = "map parsed_raft_member ?others"] assms(5,6)
    by (simp_all add: GrpcRaftTransport_new_def split: if_splits)
  obtain parts where parts: "build_parts config members local_member f = Inr parts" "sp_runtime parts = r"
    "sp_transport parts = t" "sp_state_machine parts = MetadataStateMachine_new" "sp_peer_ids parts = map pm_node_id ?others"
    "sp_storage parts = f"
    using assms(4) r t ok by (simp add: build_parts_def Let_def)
  obtain l p1 where l: "Lifecycle_Initialize True config (ServerLifecycle_new 0) Process_new = (OK, l, p1)"
    by (auto simp: Lifecycle_Initialize_def ServerLifecycle_new_def InitializeLogging_def RegisterShutdownHandler_def)
  have run: "rt_state r = Runtime_INITIALIZED"
    using r by (auto simp: Runtime_Initialize_def Let_def split: if_splits)
  obtain srv where init: "Server_Initialize True io_fine config (ServerApplication_new 0) Process_new d = (OK, srv, p1, d1)"
    "srv_parts srv = Some parts" "srv_initialized srv" "\<not> srv_running srv" "srv_lifecycle srv = l" "srv_config srv = Some config"
    using f(1) result parts(1) l assms(1,2)
    by (simp add: Server_Initialize_def ServerApplication_new_def ValidateConfig_ok_iff Let_def)
  obtain l1 p2 where l1: "Lifecycle_Start l p1 = (OK, l1, p2)"
    using Lifecycle_Start_ok Lifecycle_Initialize_ok [OF l] by (metis prod_cases3)
  have bound: "StartGrpcServer (\<lambda>_. 1) True config = OK"
    by (auto simp: StartGrpcServer_def Let_def)
  obtain srv' p3 where start: "Server_Start (\<lambda>_. 1) True id srv p1 = (OK, srv', p3)"
    "srv_parts srv' = Some (parts\<lparr>sp_transport := snd (Transport_Start t), sp_runtime := snd (Runtime_Start r),
       sp_grpc_server := True\<rparr>)"
    using init l1 parts(2,3) ok run bound
    by (simp add: Server_Start_def Transport_Start_def Runtime_Start_def Let_def)
  have "started io_fine config d d1 srv'" unfolding started_def using init(1) start(1) by blast
  moreover have "server_system srv' d1 ios = system_started (server_runtime_options config) core
       (sp_storage (the (srv_parts srv')), d1, ios) MetadataStateMachine_new" for ios
    using start(2) r parts(4) by (simp add: server_system_def system_started_def Let_def)
  ultimately show thesis using that start(2) parts(5,6) f(1) by simp
qed

lemma node_names:
  "ParseNodeIdText ''node-1'' out = Inr 1" "ParseNodeIdText ''node-2'' out = Inr 2"
  "ParseNodeIdText ''node-3'' out = Inr 3" "ParseNodeIdText ''node-4'' out = Inr 4"
  by (simp_all add: ParseNodeIdText_def parse_positive_def kPrefix_def c_str_def strtoull_def
      is_space_def is_digit_def digits_value_def digit_value_def Let_def)

lemmas example_config_defs = example_config_def config_member_def

lemma sole_wf: "well_formed sole_config"
  by (simp add: sole_config_def example_config_defs well_formed_def limits_ok_def members_ok_def member_ok_def)

lemma cluster_wf: "well_formed cluster_config"
  by (simp add: cluster_config_def example_config_defs well_formed_def limits_ok_def members_ok_def member_ok_def
      address_of_def)

definition sole_parsed :: "ParsedMember list" where
  "sole_parsed = [\<lparr>pm_node_id = 1, pm_member = config_member ''node-1'' 7101 kVoter\<rparr>]"

definition cluster_parsed :: "ParsedMember list" where
  "cluster_parsed = sole_parsed @
    [\<lparr>pm_node_id = 2, pm_member = config_member ''node-2'' 7102 kVoter\<rparr>,
     \<lparr>pm_node_id = 3, pm_member = config_member ''node-3'' 7103 kVoter\<rparr>,
     \<lparr>pm_node_id = 4, pm_member = config_member ''node-4'' 7104 kLearner\<rparr>]"

lemma sole_members: "BuildBootstrapMembers sole_config = Inr (sole_parsed, hd sole_parsed)"
  by (simp add: BuildBootstrapMembers_def sole_config_def example_config_defs sole_parsed_def node_names)

lemma cluster_members: "BuildBootstrapMembers cluster_config = Inr (cluster_parsed, hd sole_parsed)"
  by (simp add: BuildBootstrapMembers_def cluster_config_def example_config_defs cluster_parsed_def sole_parsed_def node_names)

definition sole_core :: RaftCore where
  "sole_core = projr (build_core (BuildRaftCoreOptions sole_config (hd sole_parsed) sole_parsed))"

definition cluster_core :: RaftCore where
  "cluster_core = projr (build_core (BuildRaftCoreOptions cluster_config (hd sole_parsed) cluster_parsed))"

lemma projr_ok: "\<not> isl x \<Longrightarrow> x = Inr (projr x)"
  by (cases x) auto

lemma sole_built: "build_core (BuildRaftCoreOptions sole_config (hd sole_parsed) sole_parsed) = Inr sole_core"
  unfolding sole_core_def by (rule projr_ok) code_simp

lemma cluster_built:
  "build_core (BuildRaftCoreOptions cluster_config (hd sole_parsed) cluster_parsed) = Inr cluster_core"
  unfolding cluster_core_def by (rule projr_ok) code_simp

lemma sole_server:
  obtains srv d' where "started io_fine sole_config Map.empty d' srv" "sp_peer_ids (the (srv_parts srv)) = []"
    "\<And>ios. server_system srv d' ios = system_started (server_runtime_options sole_config) sole_core
       (sp_storage (the (srv_parts srv)), d', ios) MetadataStateMachine_new"
    "File_Open io_fine FileRaftStorage_new ''d'' Map.empty = (OK, sp_storage (the (srv_parts srv)), d')"
  by (rule fresh_node_starts [OF sole_wf sole_members _ sole_built, of Map.empty])
    (simp_all add: no_files_def peers_ok_def sole_parsed_def sole_config_def example_config_defs)

lemma cluster_server:
  obtains srv d' where "started io_fine cluster_config Map.empty d' srv" "sp_peer_ids (the (srv_parts srv)) = [2, 3, 4]"
    "\<And>ios. server_system srv d' ios = system_started (server_runtime_options cluster_config) cluster_core
       (sp_storage (the (srv_parts srv)), d', ios) MetadataStateMachine_new"
  by (rule fresh_node_starts [OF cluster_wf cluster_members _ cluster_built, of Map.empty])
    (simp_all add: no_files_def peers_ok_def sole_parsed_def cluster_parsed_def cluster_config_def
      example_config_defs parsed_raft_member_def ToRaftMember_def)

lemma sole_or_not: "sole_member sole_config" "\<not> sole_member cluster_config"
  by (simp_all add: sole_member_def sole_config_def cluster_config_def example_config_defs)

theorem bootstrap_role_witness:
  "(\<exists>srv d'. started io_fine sole_config Map.empty d' srv \<and> rc_role (rt_core (sp_runtime (the (srv_parts srv)))) = LEADER) \<and>
   (\<exists>srv d'. started io_fine cluster_config Map.empty d' srv \<and> rc_role (rt_core (sp_runtime (the (srv_parts srv)))) \<in> {FOLLOWER, LEARNER})"
proof -
  obtain srv d' srv2 d2 where s: "started io_fine sole_config Map.empty d' srv" "started io_fine cluster_config Map.empty d2 srv2"
    using sole_server cluster_server by metis
  then show ?thesis
    using bootstrap_role [OF s(1)] bootstrap_role [OF s(2)] sole_or_not by (auto simp: Let_def)
qed

text \<open>Node 2 asks node 1 for its vote; the reply waits for node 2.\<close>

definition cluster_actors :: "actor list" where
  "cluster_actors =
     [Caller (Call_EnqueueMessage 2
        \<lparr>msg_type = REQUEST_VOTE_REQUEST, msg_source_node_id = 2, msg_target_node_id = 0,
         msg_payload = RequestVoteRequestMsg example_vote_request\<rparr>), Protocol]"

lemma cluster_run:
  "ranged (server_environment 0) cluster_actors
     (system_started (server_runtime_options cluster_config) cluster_core (f, d, ios) MetadataStateMachine_new)"
  by code_simp

lemma cluster_reply:
  "length (peer_messages (sys_runtime (the (run_schedule (server_environment 0) cluster_actors
     (system_started (server_runtime_options cluster_config) cluster_core (f, d, ios) MetadataStateMachine_new)))) 2) = 1"
  by code_simp

theorem cluster_server_only_drops_witness:
  "\<exists>srv d' s. started io_fine cluster_config Map.empty d' srv \<and>
     reachable (server_environment 0) (server_system srv d' (\<lambda>_. io_fine)) s \<and>
     length (peer_messages (sys_runtime s) 2) = 1 \<and>
     (\<forall>net t. case PeerPumpLoop_round net t [2, 3, 4] (sys_runtime s) of (did_work, r) \<Rightarrow>
        rt_event_queue r = rt_event_queue (sys_runtime s) \<and> peer_messages r 2 = [])"
proof -
  obtain srv d' where srv: "started io_fine cluster_config Map.empty d' srv" "sp_peer_ids (the (srv_parts srv)) = [2, 3, 4]"
    "server_system srv d' (\<lambda>_. io_fine) = system_started (server_runtime_options cluster_config) cluster_core
       (sp_storage (the (srv_parts srv)), d', \<lambda>_. io_fine) MetadataStateMachine_new"
    using cluster_server by metis
  define s where "s = the (run_schedule (server_environment 0) cluster_actors (server_system srv d' (\<lambda>_. io_fine)))"
  have s: "reachable (server_environment 0) (server_system srv d' (\<lambda>_. io_fine)) s"
    unfolding s_def srv(3) by (rule ranged_reachable [OF cluster_run])
  have one: "length (peer_messages (sys_runtime s) 2) = 1"
    unfolding s_def srv(3) by (rule cluster_reply)
  then have "tl (peer_messages (sys_runtime s) 2) = []" by (cases "peer_messages (sys_runtime s) 2") auto
  then show ?thesis
    using cluster_server_only_drops [OF srv(1) sole_or_not(2) s] srv(1,2) s one by (fastforce split: prod.splits)
qed





text \<open>A node that has stored its first term.\<close>

definition first_term :: "history_event list" where
  "first_term = [Write (Op_SaveHardState (HardState_default\<lparr>hs_current_term := 1\<rparr>))]"

definition first_term_world :: file_world where
  "first_term_world = history ''d'' first_term (first_world ''d'' Map.empty (\<lambda>_. io_fine))"

lemma first_term_stored: "holds_state (file_durable first_term_world)"
  by code_simp

theorem restart_refused_witness:
  "fst (Server_Initialize True io_fine sole_config (ServerApplication_new 0) Process_new
     (fst (snd first_term_world))) = RetryLater"
proof -
  have dir: "cfg_data_directory sole_config = ''d''" by (simp add: sole_config_def example_config_def)
  show ?thesis
    by (rule restart_refused [OF sole_wf sole_members, where d = Map.empty and evs = first_term
          and ios = "\<lambda>_. io_fine"])
      (simp_all add: dir no_files_def few_members_in_def first_term_stored
        first_term_def [symmetric] first_term_world_def [symmetric], simp add: first_term_def)
qed

end
