(* ===== verification/Metadata_Service.thy ===== *)
theory Metadata_Service
  imports Raft_Runtime Metadata_State Text_Format
begin

text \<open>
  \<open>metadata/metadata_service.cpp\<close>: the calls of the RPC layer on the metadata. A command is
  proposed to the Raft runtime, the caller waits for the result of its proposal, and a command on
  stores or tasks then reads its answer out of the record the state machine has written.

  The service shares the runtime and the state machine with the threads of the runtime and with
  the other callers; \<open>ServiceWorld\<close> is what they share. Wherever a call releases a lock, the
  steps of the others are an argument: \<open>before_take\<close>, \<open>before_state\<close> and \<open>before_abandon\<close> of a
  round of the waiting loop, \<open>before_query\<close> and \<open>between\<close>. Times are in milliseconds.
\<close>

section \<open>State\<close>

record MetadataProposalResult =
  mpr_status :: Status
  mpr_proposal_id :: u64
  mpr_command_id :: string
  mpr_applied_index :: LogIndex
  mpr_leader_id :: NodeId
  mpr_leader_address :: NodeAddress
  mpr_final_result :: bool

record MetadataQueryResult =
  mqr_record :: MetadataStateRecord
  mqr_last_applied_index :: LogIndex
  mqr_last_applied_term :: Term

record StoreControlResult =
  scr_status :: Status
  scr_proposal_id :: u64
  scr_command_id :: string
  scr_applied_index :: LogIndex
  scr_leader_id :: NodeId
  scr_leader_address :: NodeAddress
  scr_store :: StoreInfo
  scr_tasks :: "TaskRecord list"
  scr_duplicate_result :: bool
  scr_final_result :: bool

record ServiceOptions =
  svo_proposal_timeout :: int
  svo_poll_interval :: int

text \<open>The set of abandoned proposals is an ordered map to unit. The flags are the two pointers.\<close>

record MetadataService =
  ms_runtime :: bool
  ms_state_machine :: bool
  ms_options :: ServiceOptions
  ms_next_proposal_id :: u64
  ms_next_store_command_id :: u64
  ms_cached_results :: "(u64, ProposalResult) std_map"
  ms_abandoned_proposals :: "(u64, unit) std_map"

definition MetadataService_new :: "bool \<Rightarrow> bool \<Rightarrow> ServiceOptions \<Rightarrow> MetadataService" where
  "MetadataService_new runtime state_machine options =
     \<lparr>ms_runtime = runtime, ms_state_machine = state_machine, ms_options = options,
      ms_next_proposal_id = 1, ms_next_store_command_id = 1, ms_cached_results = [],
      ms_abandoned_proposals = []\<rparr>"

definition ServiceOptions_default :: ServiceOptions where
  "ServiceOptions_default = \<lparr>svo_proposal_timeout = 1000, svo_poll_interval = 1\<rparr>"

record ServiceWorld =
  sw_service :: MetadataService
  sw_runtime :: RaftRuntime
  sw_machine :: MetadataStateMachine

definition kMaxCachedProposalResults :: nat where "kMaxCachedProposalResults = 4096"
definition kCollectBatchSize :: nat where "kCollectBatchSize = 64"

definition MetadataProposalResult_default :: MetadataProposalResult where
  "MetadataProposalResult_default =
     \<lparr>mpr_status = OK, mpr_proposal_id = 0, mpr_command_id = [], mpr_applied_index = kInvalidLogIndex,
      mpr_leader_id = kInvalidNodeId, mpr_leader_address = NodeAddress_default, mpr_final_result = False\<rparr>"

definition ToMetadataResult :: "MetadataCommand \<Rightarrow> ProposalResult \<Rightarrow> MetadataProposalResult" where
  "ToMetadataResult command source =
     \<lparr>mpr_status = prs_status source, mpr_proposal_id = prs_proposal_id source,
      mpr_command_id = mc_command_id command, mpr_applied_index = prs_log_index source,
      mpr_leader_id = prs_leader_id source, mpr_leader_address = prs_leader_address source,
      mpr_final_result = prs_final_result source\<rparr>"

definition ToStoreResult :: "StoreId \<Rightarrow> MetadataProposalResult \<Rightarrow> StoreControlResult" where
  "ToStoreResult uninit proposal =
     \<lparr>scr_status = mpr_status proposal, scr_proposal_id = mpr_proposal_id proposal,
      scr_command_id = mpr_command_id proposal, scr_applied_index = mpr_applied_index proposal,
      scr_leader_id = mpr_leader_id proposal, scr_leader_address = mpr_leader_address proposal,
      scr_store = StoreInfo_default uninit, scr_tasks = [], scr_duplicate_result = False,
      scr_final_result = mpr_final_result proposal\<rparr>"

definition EffectiveTimeout :: "int \<Rightarrow> int \<Rightarrow> int" where
  "EffectiveTimeout timeout fallback = (if 0 < timeout then timeout else fallback)"

definition ValidateDependencies :: "MetadataService \<Rightarrow> Status" where
  "ValidateDependencies s = (if \<not> ms_runtime s \<or> \<not> ms_state_machine s then InvalidArgument else OK)"

section \<open>Ids\<close>

text \<open>The counters are drawn from twice when they have wrapped to zero.\<close>

definition draw :: "u64 \<Rightarrow> u64 \<times> u64" where
  "draw counter = (if counter = 0 then (1, 2) else (counter, counter + 1))"

definition NextProposalId :: "MetadataService \<Rightarrow> u64 \<times> MetadataService" where
  "NextProposalId s = (case draw (ms_next_proposal_id s) of (i, c) \<Rightarrow> (i, s\<lparr>ms_next_proposal_id := c\<rparr>))"

definition NextGeneratedCommandId :: "string \<Rightarrow> MetadataService \<Rightarrow> string \<times> MetadataService" where
  "NextGeneratedCommandId prefix s =
     (case draw (ms_next_store_command_id s) of
        (i, c) \<Rightarrow> (prefix @ ''-'' @ to_string (unat i), s\<lparr>ms_next_store_command_id := c\<rparr>))"

section \<open>The results that have arrived\<close>

text \<open>Both containers drop their smallest keys until they have the allowed size.\<close>

definition TrimResultCache :: "MetadataService \<Rightarrow> MetadataService" where
  "TrimResultCache s =
     (let trim = (\<lambda>n. n - kMaxCachedProposalResults)
      in s\<lparr>ms_cached_results := drop (trim (length (ms_cached_results s))) (ms_cached_results s),
           ms_abandoned_proposals :=
             drop (trim (length (ms_abandoned_proposals s))) (ms_abandoned_proposals s)\<rparr>)"

text \<open>The loop over a batch: the last result of the proposal, and the service.\<close>

fun collect_batch ::
  "u64 \<Rightarrow> ProposalResult list \<Rightarrow> ProposalResult option \<Rightarrow> MetadataService \<Rightarrow>
     ProposalResult option \<times> MetadataService" where
  "collect_batch proposal_id [] matched s = (matched, s)"
| "collect_batch proposal_id (item # items) matched s =
     (if prs_proposal_id item = proposal_id then collect_batch proposal_id items (Some item) s
      else if map_find (ms_abandoned_proposals s) (prs_proposal_id item) \<noteq> None
        then collect_batch proposal_id items matched
               (s\<lparr>ms_abandoned_proposals := map_erase (prs_proposal_id item) (ms_abandoned_proposals s)\<rparr>)
      else collect_batch proposal_id items matched
             (s\<lparr>ms_cached_results := map_emplace (prs_proposal_id item) item (ms_cached_results s)\<rparr>))"

definition TakeProposalResult ::
  "u64 \<Rightarrow> MetadataService \<Rightarrow> RaftRuntime \<Rightarrow> ProposalResult option \<times> MetadataService \<times> RaftRuntime" where
  "TakeProposalResult proposal_id s r =
     (case map_find (ms_cached_results s) proposal_id of
        Some cached \<Rightarrow> (Some cached, s\<lparr>ms_cached_results := map_erase proposal_id (ms_cached_results s)\<rparr>, r)
      | None \<Rightarrow>
          (case CollectProposalResults r kCollectBatchSize of (items, r1) \<Rightarrow>
             case collect_batch proposal_id items None s of (matched, s1) \<Rightarrow>
               (matched, TrimResultCache s1, r1)))"

definition AbandonProposal :: "u64 \<Rightarrow> MetadataService \<Rightarrow> MetadataService" where
  "AbandonProposal proposal_id s =
     TrimResultCache (s\<lparr>ms_cached_results := map_erase proposal_id (ms_cached_results s),
       ms_abandoned_proposals := map_set proposal_id () (ms_abandoned_proposals s)\<rparr>)"

section \<open>Proposing\<close>

record service_round =
  svr_before_take :: "ServiceWorld \<Rightarrow> ServiceWorld"
  svr_before_state :: "ServiceWorld \<Rightarrow> ServiceWorld"
  svr_before_abandon :: "ServiceWorld \<Rightarrow> ServiceWorld"
  svr_now :: int

definition abandon :: "u64 \<Rightarrow> service_round \<Rightarrow> ServiceWorld \<Rightarrow> ServiceWorld" where
  "abandon proposal_id round w =
     (let w1 = svr_before_abandon round w
      in w1\<lparr>sw_service := AbandonProposal proposal_id (sw_service w1)\<rparr>)"

text \<open>\<open>None\<close>: the caller is still waiting when the rounds end.\<close>

fun wait_for_result ::
  "service_round list \<Rightarrow> u64 \<Rightarrow> int \<Rightarrow> ServiceWorld \<Rightarrow> ((Status + ProposalResult) \<times> ServiceWorld) option" where
  "wait_for_result [] proposal_id deadline w = None"
| "wait_for_result (round # rounds) proposal_id deadline w =
     (let w1 = svr_before_take round w
      in case TakeProposalResult proposal_id (sw_service w1) (sw_runtime w1) of (found, s, r) \<Rightarrow>
         (let w2 = w1\<lparr>sw_service := s, sw_runtime := r\<rparr>
         in (case found of
           Some result \<Rightarrow> Some (Inr result, w2)
         | None \<Rightarrow>
            (let w3 = svr_before_state round w2
             in if rt_state (sw_runtime w3) \<noteq> Runtime_RUNNING then Some (Inl Busy, abandon proposal_id round w3)
                else if deadline \<le> svr_now round then Some (Inl RetryLater, abandon proposal_id round w3)
                else wait_for_result rounds proposal_id deadline w3))))"

text \<open>The status returned and what is written to \<open>*result\<close>, if anything.\<close>

definition Service_Propose ::
  "service_round list \<Rightarrow> int \<Rightarrow> MetadataCommand \<Rightarrow> int \<Rightarrow> out_ptr \<Rightarrow> ServiceWorld \<Rightarrow>
     ((Status \<times> MetadataProposalResult option) \<times> ServiceWorld) option" where
  "Service_Propose rounds now command timeout p w =
     (if p = nullptr then Some ((InvalidArgument, None), w)
      else if \<not> ok (ValidateDependencies (sw_service w)) then Some ((ValidateDependencies (sw_service w), None), w)
      else if \<not> ok (ValidateMetadataCommand command) then Some ((ValidateMetadataCommand command, None), w)
      else (case EncodeMetadataCommand command out of
        Inl status \<Rightarrow> Some ((status, None), w)
      | Inr payload \<Rightarrow>
          (case NextProposalId (sw_service w) of (proposal_id, s) \<Rightarrow>
          (case EnqueueProposal (sw_runtime w) \<lparr>pe_proposal_id = proposal_id, pe_payload = payload\<rparr> of (status, r) \<Rightarrow>
            (let w1 = w\<lparr>sw_service := s, sw_runtime := r\<rparr>
             in if \<not> ok status then Some ((status, None), w1)
                else (case wait_for_result rounds proposal_id (now + timeout) w1 of
                  None \<Rightarrow> None
                | Some (Inl status, w2) \<Rightarrow> Some ((status, None), w2)
                | Some (Inr result, w2) \<Rightarrow>
                    Some ((prs_status result, Some (ToMetadataResult command result)), w2)))))))"

definition Service_Propose_default ::
  "service_round list \<Rightarrow> int \<Rightarrow> MetadataCommand \<Rightarrow> out_ptr \<Rightarrow> ServiceWorld \<Rightarrow>
     ((Status \<times> MetadataProposalResult option) \<times> ServiceWorld) option" where
  "Service_Propose_default rounds now command p w =
     Service_Propose rounds now command (svo_proposal_timeout (ms_options (sw_service w))) p w"

text \<open>The record and the last applied index are read under two locks.\<close>

definition Service_Query ::
  "(ServiceWorld \<Rightarrow> ServiceWorld) \<Rightarrow> string \<Rightarrow> out_ptr \<Rightarrow> ServiceWorld \<Rightarrow>
     (Status + MetadataQueryResult) \<times> ServiceWorld" where
  "Service_Query between target_id p w =
     (if p = nullptr then (Inl InvalidArgument, w)
      else if \<not> ok (ValidateDependencies (sw_service w)) then (Inl (ValidateDependencies (sw_service w)), w)
      else if target_id = [] then (Inl InvalidArgument, w)
      else (case GetRecord (sw_machine w) target_id out of
        Inl status \<Rightarrow> (Inl status, w)
      | Inr found \<Rightarrow>
         (let w1 = between w
          in (case GetLastApplied (sw_machine w1) out out of
            Inl status \<Rightarrow> (Inl status, w1)
          | Inr (index, uterm) \<Rightarrow>
              (Inr \<lparr>mqr_record = found, mqr_last_applied_index = index, mqr_last_applied_term = uterm\<rparr>, w1)))))"

section \<open>Stores and tasks\<close>

text \<open>Where the rest of the process runs during a call that proposes and then queries.\<close>

record service_schedule =
  svs_rounds :: "service_round list"
  svs_now :: int
  svs_before_query :: "ServiceWorld \<Rightarrow> ServiceWorld"
  svs_between :: "ServiceWorld \<Rightarrow> ServiceWorld"

definition ProposeStoreCommand ::
  "StoreId \<Rightarrow> service_schedule \<Rightarrow> string \<Rightarrow> string \<Rightarrow> StoreBusinessCommand \<Rightarrow> int \<Rightarrow> out_ptr \<Rightarrow> ServiceWorld \<Rightarrow>
     ((Status \<times> StoreControlResult option) \<times> ServiceWorld) option" where
  "ProposeStoreCommand uninit sched command_id target_id command timeout p w =
     (if p = nullptr then Some ((InvalidArgument, None), w)
      else if command_id = [] then Some ((InvalidArgument, None), w)
      else (case EncodeStoreBusinessCommand command out of
        Inl status \<Rightarrow> Some ((status, None), w)
      | Inr command_payload \<Rightarrow>
         (let metadata_command =
                \<lparr>mc_type = STORE_OPERATION, mc_command_id = command_id, mc_target_id = target_id,
                 mc_expected_generation = None, mc_payload = command_payload\<rparr>
          in (case Service_Propose (svs_rounds sched) (svs_now sched) metadata_command
                    (EffectiveTimeout timeout (svo_proposal_timeout (ms_options (sw_service w)))) out w of
            None \<Rightarrow> None
          | Some ((status, written), w1) \<Rightarrow>
             (let candidate = ToStoreResult uninit
                    (case written of Some proposal \<Rightarrow> proposal | None \<Rightarrow> MetadataProposalResult_default)
              in if \<not> ok status then Some ((status, Some candidate), w1)
                 else (case Service_Query (svs_between sched) target_id out (svs_before_query sched w1) of
                   (Inl status, w2) \<Rightarrow> Some ((status, Some candidate), w2)
                 | (Inr query, w2) \<Rightarrow>
                     (case DecodeStoreBusinessResult (sr_payload (mqr_record query)) out of
                        Inl status \<Rightarrow> Some ((status, Some candidate), w2)
                      | Inr business_result \<Rightarrow>
                          Some ((OK, Some (candidate\<lparr>scr_store := br_store business_result,
                                  scr_tasks := br_tasks business_result,
                                  scr_duplicate_result := br_duplicate_result business_result\<rparr>)), w2))))))))"

text \<open>A default command. The ids without initialiser hold what was in memory.\<close>

definition StoreBusinessCommand_default :: "StoreId \<Rightarrow> StoreBusinessCommand" where
  "StoreBusinessCommand_default uninit =
     \<lparr>sb_kind = REGISTER_STORE, sb_store = StoreInfo_default uninit,
      sb_update = \<lparr>su_id = uninit, su_expected_generation = None, su_capacity_bytes = None,
        su_used_bytes = None, su_state = None\<rparr>,
      sb_task_create = \<lparr>tc_task_id = [], tc_type = Task_CREATE, tc_target_payload = []\<rparr>,
      sb_task_result = \<lparr>rr_store_id = 0, rr_task_id = [], rr_final_state = Task_SUCCESS,
        rr_result_payload = [], rr_expected_generation = None\<rparr>,
      sb_store_id = 0, sb_max_tasks = 0\<rparr>"

definition register_command :: "StoreId \<Rightarrow> StoreInfo \<Rightarrow> StoreBusinessCommand" where
  "register_command uninit store =
     (StoreBusinessCommand_default uninit)\<lparr>sb_kind := REGISTER_STORE, sb_store := store\<rparr>"

definition stop_command :: "StoreId \<Rightarrow> StoreId \<Rightarrow> u64 \<Rightarrow> StoreBusinessCommand" where
  "stop_command uninit store_id expected_generation =
     (let command = StoreBusinessCommand_default uninit
      in command\<lparr>sb_kind := UPDATE_STORE_STATE, sb_update := (sb_update command)
           \<lparr>su_id := store_id, su_expected_generation := Some expected_generation,
            su_state := Some Store_STOPPED\<rparr>\<rparr>)"

definition remove_command :: "StoreId \<Rightarrow> StoreId \<Rightarrow> u64 \<Rightarrow> StoreBusinessCommand" where
  "remove_command uninit store_id expected_generation =
     (let command = StoreBusinessCommand_default uninit
      in command\<lparr>sb_kind := REMOVE_STORE, sb_store_id := store_id, sb_update := (sb_update command)
           \<lparr>su_expected_generation := Some expected_generation\<rparr>\<rparr>)"

definition create_command :: "StoreId \<Rightarrow> TaskCreateRequest \<Rightarrow> StoreBusinessCommand" where
  "create_command uninit task =
     (StoreBusinessCommand_default uninit)\<lparr>sb_kind := CREATE_TASK, sb_task_create := task\<rparr>"

definition poll_command :: "StoreId \<Rightarrow> StoreId \<Rightarrow> u32 \<Rightarrow> StoreBusinessCommand" where
  "poll_command uninit store_id max_tasks =
     (StoreBusinessCommand_default uninit)
       \<lparr>sb_kind := POLL_TASKS, sb_store_id := store_id, sb_max_tasks := max_tasks\<rparr>"

definition report_command :: "StoreId \<Rightarrow> TaskResultReport \<Rightarrow> StoreBusinessCommand" where
  "report_command uninit report =
     (StoreBusinessCommand_default uninit)\<lparr>sb_kind := REPORT_TASK_RESULT, sb_task_result := report\<rparr>"

definition Service_RegisterStore where
  "Service_RegisterStore uninit sched command_id store timeout p w =
     ProposeStoreCommand uninit sched command_id (''store-register:'' @ command_id)
       (register_command uninit store) timeout p w"

definition Service_StopStore where
  "Service_StopStore uninit sched command_id store_id expected_generation timeout p w =
     ProposeStoreCommand uninit sched command_id (''store-stop:'' @ command_id)
       (stop_command uninit store_id expected_generation) timeout p w"

definition Service_RemoveStore where
  "Service_RemoveStore uninit sched command_id store_id expected_generation timeout p w =
     ProposeStoreCommand uninit sched command_id (''store-remove:'' @ command_id)
       (remove_command uninit store_id expected_generation) timeout p w"

definition Service_CreateTaskForTest where
  "Service_CreateTaskForTest uninit sched command_id task timeout p w =
     ProposeStoreCommand uninit sched command_id (''task-create:'' @ command_id)
       (create_command uninit task) timeout p w"

definition Service_PollTasks where
  "Service_PollTasks uninit sched store_id max_tasks timeout p w =
     (case NextGeneratedCommandId ''poll'' (sw_service w) of (command_id, s) \<Rightarrow>
        ProposeStoreCommand uninit sched command_id (''task-poll:'' @ command_id)
          (poll_command uninit store_id max_tasks) timeout p (w\<lparr>sw_service := s\<rparr>))"

definition Service_ReportTaskResult where
  "Service_ReportTaskResult uninit sched report timeout p w =
     (case NextGeneratedCommandId ''result'' (sw_service w) of (command_id, s) \<Rightarrow>
        ProposeStoreCommand uninit sched command_id (''task-result:'' @ command_id)
          (report_command uninit report) timeout p (w\<lparr>sw_service := s\<rparr>))"

definition Service_UpdateStoreHeartbeat ::
  "StoreId \<Rightarrow> i64 \<Rightarrow> ServiceWorld \<Rightarrow> (Status + StoreInfo) \<times> ServiceWorld" where
  "Service_UpdateStoreHeartbeat store_id heartbeat_ms w =
     (if \<not> ok (ValidateDependencies (sw_service w)) then (Inl (ValidateDependencies (sw_service w)), w)
      else case UpdateStoreHeartbeat (sw_machine w) store_id heartbeat_ms of
        (outcome, m) \<Rightarrow> (outcome, w\<lparr>sw_machine := m\<rparr>))"

definition Service_GetStore :: "StoreId \<Rightarrow> out_ptr \<Rightarrow> ServiceWorld \<Rightarrow> Status + StoreInfo" where
  "Service_GetStore store_id p w =
     (if \<not> ok (ValidateDependencies (sw_service w)) then Inl (ValidateDependencies (sw_service w))
      else Machine_GetStore (sw_machine w) store_id p)"

definition Service_GetTask :: "TaskId \<Rightarrow> out_ptr \<Rightarrow> ServiceWorld \<Rightarrow> Status + TaskRecord" where
  "Service_GetTask task_id p w =
     (if \<not> ok (ValidateDependencies (sw_service w)) then Inl (ValidateDependencies (sw_service w))
      else Machine_GetTask (sw_machine w) task_id p)"

end
