(* ===== verification/Service_Answers.thy ===== *)
theory Service_Answers
  imports Metadata_Service Metadata_Machine
begin

text \<open>
  What the callers of the metadata service can rely on: the result of a proposal is the result of
  that proposal, the containers of the service stay bounded, a call returns when its time is up, and
  the answer to a command on stores and tasks is the outcome the state machine computed, as long as
  nobody else writes the record of that command.
\<close>

section \<open>The containers of the service\<close>

definition keyed :: "(u64, ProposalResult) std_map \<Rightarrow> bool" where
  "keyed m \<longleftrightarrow> map_wf m \<and> (\<forall>(k, v) \<in> set m. prs_proposal_id v = k)"

definition service_ok :: "MetadataService \<Rightarrow> bool" where
  "service_ok s \<longleftrightarrow>
     keyed (ms_cached_results s) \<and> map_wf (ms_abandoned_proposals s) \<and>
     length (ms_cached_results s) \<le> kMaxCachedProposalResults \<and>
     length (ms_abandoned_proposals s) \<le> kMaxCachedProposalResults"

lemma map_wf_drop: "map_wf m \<Longrightarrow> map_wf (drop n m)"
  by (simp add: map_wf_def drop_map [symmetric] sorted_wrt_drop)

lemma keyed_find: "keyed m \<Longrightarrow> map_find m k = Some v \<Longrightarrow> prs_proposal_id v = k"
  by (auto simp: keyed_def map_find_mem)

lemma keyed_iff: "keyed m \<longleftrightarrow> map_wf m \<and> (\<forall>k v. map_find m k = Some v \<longrightarrow> prs_proposal_id v = k)"
  by (auto simp: keyed_def map_find_mem)

lemma keyed_drop: "keyed m \<Longrightarrow> keyed (drop n m)"
  by (auto simp: keyed_def map_wf_drop dest: in_set_dropD)

lemma keyed_erase: "keyed m \<Longrightarrow> keyed (map_erase k m)"
  by (auto simp: keyed_iff map_erase_def)

lemma keyed_emplace: "keyed m \<Longrightarrow> keyed (map_emplace (prs_proposal_id v) v m)"
  by (auto simp: keyed_iff)

lemma length_erase: "length (map_erase k m) \<le> length m"
  by (simp add: map_erase_def map_erase_if_def)

lemma map_wf_erase: "map_wf m \<Longrightarrow> map_wf (map_erase k m)"
  by (simp add: map_erase_def)

text \<open>Trimming brings both containers to their bound, whatever they held.\<close>

lemma service_ok_trim:
  "keyed (ms_cached_results s) \<Longrightarrow> map_wf (ms_abandoned_proposals s) \<Longrightarrow> service_ok (TrimResultCache s)"
  by (simp add: service_ok_def TrimResultCache_def Let_def keyed_drop map_wf_drop) arith

lemma collect_batch_ok:
  assumes "keyed (ms_cached_results s)" "map_wf (ms_abandoned_proposals s)"
    and "\<And>r. matched = Some r \<Longrightarrow> prs_proposal_id r = i"
    and "collect_batch i items matched s = (found, s')"
  shows "keyed (ms_cached_results s') \<and> map_wf (ms_abandoned_proposals s') \<and>
    (\<forall>r. found = Some r \<longrightarrow> prs_proposal_id r = i \<and> (r \<in> set items \<or> matched = Some r))"
  using assms
proof (induction i items matched s rule: collect_batch.induct)
  case (2 i item items matched s)
  consider "prs_proposal_id item = i"
    | "prs_proposal_id item \<noteq> i" "map_find (ms_abandoned_proposals s) (prs_proposal_id item) \<noteq> None"
    | "prs_proposal_id item \<noteq> i" "map_find (ms_abandoned_proposals s) (prs_proposal_id item) = None"
    by blast
  then show ?case
  proof cases
    case 1 with 2(1) "2.prems" show ?thesis by auto
  next
    case 2 with "2.IH"(2) "2.prems" show ?thesis by (auto simp: map_wf_erase)
  next
    case 3 with "2.IH"(3) "2.prems" show ?thesis by (auto simp: keyed_emplace)
  qed
qed auto

lemma TakeProposalResult_ok:
  assumes "service_ok s" "TakeProposalResult i s r = (found, s', r')"
  shows "service_ok s' \<and> (\<forall>x. found = Some x \<longrightarrow> prs_proposal_id x = i)"
proof (cases "map_find (ms_cached_results s) i")
  case None
  then show ?thesis
    using assms collect_batch_ok [of s None i]
    by (auto simp: TakeProposalResult_def service_ok_def [of s] service_ok_trim split: prod.splits)
next
  case (Some x)
  then show ?thesis
    using assms keyed_find [of "ms_cached_results s" i x] length_erase [of i "ms_cached_results s"]
    by (auto simp: TakeProposalResult_def service_ok_def keyed_erase)
qed

lemma AbandonProposal_ok: "service_ok s \<Longrightarrow> service_ok (AbandonProposal i s)"
  by (simp add: AbandonProposal_def service_ok_trim service_ok_def [of s] keyed_erase)

lemma service_ok_counters [simp]:
  "service_ok (s\<lparr>ms_next_proposal_id := c\<rparr>) = service_ok s"
  "service_ok (s\<lparr>ms_next_store_command_id := c\<rparr>) = service_ok s"
  by (simp_all add: service_ok_def)

text \<open>The ids of the proposals: never zero, and different until the counter has gone round.\<close>

fun draws :: "nat \<Rightarrow> u64 \<Rightarrow> u64 list" where
  "draws 0 c = []"
| "draws (Suc n) c = fst (draw c) # draws n (snd (draw c))"

lemma draw_nonzero: "fst (draw c) \<noteq> 0"
  by (simp add: draw_def)

lemma draws_from:
  assumes "unat c + n \<le> 2 ^ 64" "c \<noteq> 0"
  shows "map unat (draws n c) = [unat c ..< unat c + n]"
  using assms
proof (induction n arbitrary: c)
  case (Suc n)
  show ?case
  proof (cases n)
    case 0
    then show ?thesis using Suc.prems(2) by (simp add: draw_def)
  next
    case (Suc m)
    then have up: "unat (c + 1) = Suc (unat c)" using Suc.prems(1) by (intro unat_inc_bound) simp
    then have "c + 1 \<noteq> 0" by (metis unat_0 Zero_not_Suc)
    then show ?thesis
      using Suc.IH [of "c + 1"] Suc.prems up by (simp add: draw_def upt_conv_Cons)
  qed
qed simp

lemma proposal_ids_distinct: "n < 2 ^ 64 \<Longrightarrow> distinct (draws n 1)"
  using draws_from [of 1 n] by (metis (no_types, lifting) Suc_leI distinct_map distinct_upt plus_1_eq_Suc
      unat_1 zero_neq_one)

section \<open>The result of a proposal\<close>

definition keeps_service :: "(ServiceWorld \<Rightarrow> ServiceWorld) \<Rightarrow> bool" where
  "keeps_service f \<longleftrightarrow> (\<forall>w. service_ok (sw_service w) \<longrightarrow> service_ok (sw_service (f w)))"

definition round_keeps_service :: "service_round \<Rightarrow> bool" where
  "round_keeps_service round \<longleftrightarrow>
     keeps_service (svr_before_take round) \<and> keeps_service (svr_before_state round) \<and>
     keeps_service (svr_before_abandon round)"

lemma keeps_serviceD: "keeps_service f \<Longrightarrow> service_ok (sw_service w) \<Longrightarrow> service_ok (sw_service (f w))"
  by (simp add: keeps_service_def)

lemma wait_for_result_own:
  assumes "service_ok (sw_service w)" "list_all round_keeps_service rounds"
    and "wait_for_result rounds i deadline w = Some (answer, w')"
  shows "service_ok (sw_service w') \<and> (\<forall>x. answer = Inr x \<longrightarrow> prs_proposal_id x = i)"
  using assms
proof (induction rounds i deadline w rule: wait_for_result.induct)
  case (2 round rounds i deadline w)
  define w1 where "w1 = svr_before_take round w"
  obtain found s r where t: "TakeProposalResult i (sw_service w1) (sw_runtime w1) = (found, s, r)"
    by (cases "TakeProposalResult i (sw_service w1) (sw_runtime w1)")
  have k: "round_keeps_service round" using "2.prems"(2) by simp
  then have "service_ok (sw_service w1)"
    using keeps_serviceD "2.prems"(1) unfolding round_keeps_service_def w1_def by blast
  note s = TakeProposalResult_ok [OF this t]
  define w2 where "w2 = w1\<lparr>sw_service := s, sw_runtime := r\<rparr>"
  have w2: "service_ok (sw_service w2)" using s by (simp add: w2_def)
  show ?case
  proof (cases found)
    case (Some x)
    then show ?thesis
      using "2.prems"(3) s w2 unfolding w1_def [symmetric] by (auto simp: Let_def w1_def [symmetric] t w2_def)
  next
    case None
    define w3 where "w3 = svr_before_state round w2"
    have w3: "service_ok (sw_service w3)"
      using keeps_serviceD w2 k unfolding round_keeps_service_def w3_def by blast
    have aband: "service_ok (sw_service (abandon i round w3))"
      using keeps_serviceD w3 k AbandonProposal_ok
      unfolding round_keeps_service_def abandon_def Let_def by fastforce
    have eq: "wait_for_result (round # rounds) i deadline w =
        (if rt_state (sw_runtime w3) \<noteq> Runtime_RUNNING then Some (Inl Busy, abandon i round w3)
         else if deadline \<le> svr_now round then Some (Inl RetryLater, abandon i round w3)
         else wait_for_result rounds i deadline w3)"
      using t None by (simp add: Let_def w1_def [symmetric] w2_def [symmetric] w3_def [symmetric])
    have IH: "\<lbrakk>rt_state (sw_runtime w3) = Runtime_RUNNING; \<not> deadline \<le> svr_now round;
        wait_for_result rounds i deadline w3 = Some (answer, w')\<rbrakk> \<Longrightarrow> ?thesis"
      using "2.IH" [OF w1_def t [symmetric] refl w2_def None w3_def] w3 "2.prems"(2) by simp
    show ?thesis
      using "2.prems"(3) IH aband unfolding eq by (auto split: if_splits)
  qed
qed simp

text \<open>The call once the id is drawn: what it wrote is the result of its own proposal.\<close>

lemma Service_Propose_cases:
  assumes "Service_Propose rounds now command timeout p w = Some ((status, written), w')"
  obtains "written = None" "w' = w"
  | r where "written = None" "status \<noteq> OK" 
      "w' = w\<lparr>sw_service := snd (NextProposalId (sw_service w)), sw_runtime := r\<rparr>"
  | r answer where
      "wait_for_result rounds (fst (NextProposalId (sw_service w))) (now + timeout)
         (w\<lparr>sw_service := snd (NextProposalId (sw_service w)), sw_runtime := r\<rparr>) = Some (answer, w')"
      "status = (case answer of Inl e \<Rightarrow> e | Inr x \<Rightarrow> prs_status x)"
      "written = (case answer of Inl e \<Rightarrow> None | Inr x \<Rightarrow> Some (ToMetadataResult command x))"
  using assms
  by (auto simp: Service_Propose_def Let_def split: if_splits sum.splits prod.splits option.splits)

text \<open>
  C26. A proposal is answered with its own result. Whatever the threads of the runtime and the other
  callers do in between, as long as they keep the containers of the service in order, the result
  that \<open>Propose\<close> writes carries the id this call has drawn, which is not zero, its status is the
  one the call returns, and the containers stay in order: each at most 4096 entries long, every
  cached result under its own id.
\<close>

theorem propose_own_result:
  assumes "service_ok (sw_service w)" "list_all round_keeps_service rounds"
    and "Service_Propose rounds now command timeout p w = Some ((status, written), w')"
  shows "service_ok (sw_service w') \<and> fst (NextProposalId (sw_service w)) \<noteq> 0 \<and>
    (case written of None \<Rightarrow> True
     | Some result \<Rightarrow>
         mpr_proposal_id result = fst (NextProposalId (sw_service w)) \<and> mpr_status result = status \<and>
         mpr_command_id result = mc_command_id command)"
proof -
  have id: "fst (NextProposalId s) \<noteq> 0" "service_ok (snd (NextProposalId s)) = service_ok s" for s
    using draw_nonzero by (simp_all add: NextProposalId_def case_prod_beta)
  show ?thesis
    using assms(3)
  proof (cases rule: Service_Propose_cases)
    case (3 r answer)
    let ?w = "w\<lparr>sw_service := snd (NextProposalId (sw_service w)), sw_runtime := r\<rparr>"
    have "service_ok (sw_service ?w)" using assms(1) id by simp
    from wait_for_result_own [OF this assms(2) 3(1)] show ?thesis
      using 3(2,3) id by (cases answer) (auto simp: ToMetadataResult_def)
  qed (use assms(1) id in auto)
qed

section \<open>Calls return\<close>

lemma wait_for_result_returns:
  "list_ex (\<lambda>round. deadline \<le> svr_now round) rounds \<Longrightarrow> wait_for_result rounds i deadline w \<noteq> None"
  by (induction rounds i deadline w rule: wait_for_result.induct)
    (auto simp: Let_def split: prod.splits option.splits)

lemma Service_Propose_returns:
  assumes "list_ex (\<lambda>round. now + timeout \<le> svr_now round) rounds"
  shows "Service_Propose rounds now command timeout p w \<noteq> None"
  by (simp add: Service_Propose_def Let_def wait_for_result_returns [OF assms]
      split: prod.split sum.split option.split)

text \<open>
  Every call of the service returns: the waiting loop ends with the first round that passes the
  deadline, which is the timeout of the caller or, when that is not positive, the one of the
  options, whether a result has come or not.
\<close>

theorem service_calls_return:
  assumes "list_ex (\<lambda>round. svs_now sched +
      EffectiveTimeout timeout (svo_proposal_timeout (ms_options (sw_service w))) \<le> svr_now round) (svs_rounds sched)"
  shows "ProposeStoreCommand uninit sched command_id target_id command timeout p w \<noteq> None"
  by (simp add: ProposeStoreCommand_def Let_def Service_Propose_returns [OF assms]
      split: prod.split sum.split option.split)

section \<open>The answer to a command on stores and tasks\<close>

definition store_metadata_command :: "string \<Rightarrow> string \<Rightarrow> OpaquePayload \<Rightarrow> MetadataCommand" where
  "store_metadata_command command_id target_id payload =
     \<lparr>mc_type = STORE_OPERATION, mc_command_id = command_id, mc_target_id = target_id,
      mc_expected_generation = None, mc_payload = payload\<rparr>"

text \<open>A heartbeat is not part of a result: it reads as zero.\<close>

definition without_heartbeat :: "StoreInfo \<Rightarrow> StoreInfo" where
  "without_heartbeat s = s\<lparr>si_last_heartbeat_ms := 0\<rparr>"

lemma run_store_command_store_state:
  assumes "business_inv m" "run_store_command u m c = (Inr r, n)"
  shows "DecodeStoreState (EncodeStoreState (si_state (br_store r))) = si_state (br_store r)"
proof -
  have reg: "registry_inv (msm_stores m)" using assms(1) by (simp add: business_inv_def)
  have d: "DecodeStoreState (EncodeStoreState Store_RUNNING) = Store_RUNNING" by (simp add: DecodeStoreState_def)
  have get: "DecodeStoreState (EncodeStoreState (si_state s)) = si_state s"
    if "Registry_GetStore (msm_stores m) i out = Inr s" for i s
    using that registry_invD(4) [OF reg] store_fields_writable(2)
    by (auto simp: Registry_GetStore_def split: if_splits option.splits)
  show ?thesis
    using assms(2) d get registry_ops_result [THEN store_fields_writable(2)]
    by (cases "sb_kind c")
      (auto simp: run_store_command_def Let_def map_sum_Inr StoreBusinessResult_default_def StoreInfo_default_def
        split: prod.splits sum.splits if_splits)
qed

lemma result_decodes:
  assumes biz: "business_inv m" and r: "run_store_command u m c = (Inr r, n)"
    and e: "EncodeStoreBusinessResult r out = Inr b"
  shows "DecodeStoreBusinessResult b out = Inr (r\<lparr>br_store := without_heartbeat (br_store r)\<rparr>)"
proof -
  let ?r = "r\<lparr>br_store := without_heartbeat (br_store r)\<rparr>"
  have "EncodeStoreBusinessResult ?r out = Inr b"
    using e by (simp add: EncodeStoreBusinessResult_eq store_result_writable_def store_result_bytes_def
        without_heartbeat_def store_info_bytes_def)
  moreover have "store_result_normal ?r"
    using run_store_command_result(1,2) [OF biz r] run_store_command_store_state [OF biz r]
    by (simp add: store_result_normal_def store_info_normal_def without_heartbeat_def)
  ultimately show ?thesis by (simp add: store_result_canonical)
qed

text \<open>What an applied store command leaves for its caller.\<close>

lemma Apply_store_command:
  assumes inv: "machine_inv m"
    and e: "EncodeMetadataCommand (store_metadata_command command_id target_id payload) out = Inr entry"
    and a: "Apply u m index uterm entry = (OK, m')"
  obtains sent outcome m1 r where
    "DecodeStoreBusinessCommand payload out = Inr sent" "run_store_command u m sent = (Inr outcome, m1)"
    "map_find (msm_records m') target_id = Some r"
    "DecodeStoreBusinessResult (sr_payload r) out = Inr (outcome\<lparr>br_store := without_heartbeat (br_store outcome)\<rparr>)"
proof -
  let ?c = "store_metadata_command command_id target_id payload"
  note biz = machine_biz [OF inv]
  have d: "DecodeMetadataCommand entry out = Inr ?c" using e by (simp add: metadata_command_canonical)
  obtain "index = msm_last_applied_index m + 1" "index \<noteq> 0" "uterm \<noteq> 0"
    using Apply_reaches [of u m index uterm entry] a by auto
  note eq = Apply_next [OF this d, of u]
  obtain sent where sent: "DecodeStoreBusinessCommand payload out = Inr sent"
    using a DecodeStoreBusinessCommand_not_OK
    by (cases "DecodeStoreBusinessCommand payload out") (auto simp: eq store_metadata_command_def)
  obtain outcome1 m1 where r: "run_store_command u m sent = (outcome1, m1)" by fastforce
  obtain outcome where o: "outcome1 = Inr outcome"
    using a sent r run_store_command_not_OK [of u m sent]
    by (cases outcome1) (auto simp: eq store_metadata_command_def)
  note r' = r [unfolded o]
  obtain q where q: "EncodeStoreBusinessResult outcome out = Inr q"
      "m' = put_record (new_record m1 index uterm ?c q) m1"
    using a sent r' result_encodes [OF biz r']
    by (auto simp: eq store_metadata_command_def split: if_splits)
  have "msm_records m1 = msm_records m"
    using run_store_command_keeps [OF biz, of u sent] r' by (simp add: same_log_def)
  then have "sr_target_id (new_record m1 index uterm ?c q) = target_id"
    using machine_invD(4) [OF inv, of target_id]
    by (auto simp: new_record_def store_metadata_command_def state_record_ok_def split: option.splits)
  then have "map_find (msm_records m') target_id = Some (new_record m1 index uterm ?c q)"
    by (simp add: q(2) put_record_def)
  moreover have "sr_payload (new_record m1 index uterm ?c q) = q" by (simp add: new_record_def)
  ultimately show ?thesis using that sent r' result_decodes [OF biz r' q(1)] by metis
qed

text \<open>
  C27. The answer of a command on stores and tasks is its outcome. When the command a call has
  proposed was applied to the machine \<open>m\<close> and the record of its target is not written again before
  the call reads it, the call returns OK with the store, the tasks and the duplicate flag that the
  state machine computed for the command as it arrived, and only the heartbeat of the store reads
  as zero.
\<close>

theorem store_command_answer:
  assumes "machine_inv m"
    and "command_id \<noteq> []" "EncodeStoreBusinessCommand command out = Inr payload"
    and "EncodeMetadataCommand (store_metadata_command command_id target_id payload) out = Inr entry"
    and "Apply u m index uterm entry = (OK, m')"
    and "Service_Propose (svs_rounds sched) (svs_now sched) (store_metadata_command command_id target_id payload)
      (EffectiveTimeout timeout (svo_proposal_timeout (ms_options (sw_service w)))) out w = Some ((OK, Some proposal), w1)"
    and "ValidateDependencies (sw_service (svs_before_query sched w1)) = OK"
    and "map_find (msm_records (sw_machine (svs_before_query sched w1))) target_id = map_find (msm_records m') target_id"
  shows "\<exists>sent outcome m1 answer w2.
    DecodeStoreBusinessCommand payload out = Inr sent \<and> run_store_command u m sent = (Inr outcome, m1) \<and>
    ProposeStoreCommand uninit sched command_id target_id command timeout out w = Some ((OK, Some answer), w2) \<and>
    scr_store answer = without_heartbeat (br_store outcome) \<and> scr_tasks answer = br_tasks outcome \<and>
    scr_duplicate_result answer = br_duplicate_result outcome \<and> scr_applied_index answer = mpr_applied_index proposal"
proof -
  obtain sent outcome m1 r where o: "DecodeStoreBusinessCommand payload out = Inr sent"
    "run_store_command u m sent = (Inr outcome, m1)" "map_find (msm_records m') target_id = Some r"
    "DecodeStoreBusinessResult (sr_payload r) out = Inr (outcome\<lparr>br_store := without_heartbeat (br_store outcome)\<rparr>)"
    using Apply_store_command [OF assms(1,4,5)] .
  have "target_id \<noteq> []"
    using assms(4) by (auto simp: EncodeMetadataCommand_eq store_metadata_command_def ValidateMetadataCommand_OK
        split: if_splits)
  then show ?thesis
    using assms(2,3,6,7,8) o
    by (simp add: ProposeStoreCommand_def store_metadata_command_def [symmetric] Service_Query_def GetRecord_def
        GetLastApplied_def ToStoreResult_def Let_def)
qed

section \<open>A command that is accepted and never applied\<close>

text \<open>
  The generation that a caller of \<open>StopStore\<close> or \<open>RemoveStore\<close> expects is part of the command; a
  zero is written like an absent one, and an absent one is not allowed.
\<close>

definition zero_generation_commands :: "StoreId \<Rightarrow> StoreId \<Rightarrow> StoreBusinessCommand list" where
  "zero_generation_commands uninit store_id = [stop_command uninit store_id 0, remove_command uninit store_id 0]"

lemmas command_builders = stop_command_def remove_command_def StoreBusinessCommand_default_def StoreInfo_default_def

lemma zero_generation_valid:
  assumes "store_id \<noteq> 0"
  shows "list_all (\<lambda>c. ValidateStoreBusinessCommand c = OK \<and> store_command_writable c)
    (zero_generation_commands uninit store_id)"
  using assms
  by (simp add: zero_generation_commands_def command_builders Let_def ValidateStoreBusinessCommand_def
      IsKnownStoreCommandKind_def store_command_writable_def)

lemma zero_generation_length:
  "list_all (\<lambda>c. length (store_command_bytes c) \<le> kMaxMetadataCommandPayloadBytes)
    (zero_generation_commands uninit store_id)"
  by (simp add: zero_generation_commands_def command_builders Let_def store_command_bytes_def store_info_bytes_def
      string_bytes_def payload_bytes_def length_bytes_def kMaxMetadataCommandPayloadBytes_def)

lemma zero_generation_unreadable:
  "list_all (\<lambda>c. DecodeStoreBusinessCommand (store_command_bytes c) out = Inl Corruption)
    (zero_generation_commands uninit store_id)"
proof -
  have last: "ReadPayloadField (payload_bytes []) = Inr ([], [])"
    using cpayload.parse_put [of "[]" "[]"] by simp
  have "store_info_normal (StoreInfo_default uninit)"
    by (simp add: store_info_normal_def StoreInfo_default_def DecodeStoreState_def)
  then show ?thesis
    by (simp add: zero_generation_commands_def stop_command_def remove_command_def StoreBusinessCommand_default_def
        Let_def DecodeStoreBusinessCommand_def
        store_command_bytes_def put_simps last ValidateStoreBusinessCommand_def IsKnownStoreCommandKind_def
        command_kind_of_code_def nonzero_def value_or_def)
qed

text \<open>
  C28. A request to stop or to remove a store with generation zero, which is what a client sends that
  leaves the generation out, passes every check of the service and is proposed to the log. No state
  machine ever applies the entry: it fails at every index and in every state, and leaves the state
  as it was.
\<close>

theorem zero_generation_never_applies:
  assumes "command \<in> set (zero_generation_commands uninit store_id)" "store_id \<noteq> 0"
    and "command_id \<noteq> []" "length command_id \<le> 4000" "prefix \<in> {''store-stop:'', ''store-remove:''}"
  shows "\<exists>payload entry.
    EncodeStoreBusinessCommand command out = Inr payload \<and>
    EncodeMetadataCommand (store_metadata_command command_id (prefix @ command_id) payload) out = Inr entry \<and>
    (\<forall>u m index uterm. fst (Apply u m index uterm entry) \<noteq> OK \<and> snd (Apply u m index uterm entry) = m)"
proof -
  let ?p = "store_command_bytes command"
  have z: "EncodeStoreBusinessCommand command out = Inr ?p" "DecodeStoreBusinessCommand ?p out = Inl Corruption"
      "length ?p \<le> kMaxMetadataCommandPayloadBytes"
    using assms(1) zero_generation_valid [OF assms(2), of uninit] zero_generation_unreadable [of uninit store_id]
      zero_generation_length [of uninit store_id]
    unfolding list_all_iff EncodeStoreBusinessCommand_eq by simp_all
  let ?c = "store_metadata_command command_id (prefix @ command_id) ?p"
  have "EncodeMetadataCommand ?c out = Inr (metadata_command_bytes ?c)"
    using assms(3-5) z(3) by (auto simp: EncodeMetadataCommand_eq ValidateMetadataCommand_OK
        store_metadata_command_def IsKnownType_def command_limits)
  moreover have "fst (Apply u m index uterm (metadata_command_bytes ?c)) \<noteq> OK \<and>
      snd (Apply u m index uterm (metadata_command_bytes ?c)) = m" for u m index uterm
  proof (rule ccontr)
    assume "\<not> ?thesis"
    then obtain "index = msm_last_applied_index m + 1" "index \<noteq> 0" "uterm \<noteq> 0"
      using Apply_reaches [of u m index uterm "metadata_command_bytes ?c"] by auto
    from Apply_next [OF this, of "metadata_command_bytes ?c" ?c u] \<open>\<not> ?thesis\<close> z(2)
    show False
      using \<open>EncodeMetadataCommand ?c out = Inr (metadata_command_bytes ?c)\<close>
      by (simp add: metadata_command_canonical store_metadata_command_def)
  qed
  ultimately show ?thesis using z(1) by blast
qed

section \<open>An example\<close>

text \<open>
  A service on a fresh machine and a running runtime. Before the caller looks for its result for the
  first time, the threads of the runtime apply the command and report it.
\<close>

definition example_world :: ServiceWorld where
  "example_world =
     \<lparr>sw_service = MetadataService_new True True ServiceOptions_default,
      sw_runtime = (RaftRuntime_new \<lparr>ropt_event_queue_capacity = 4, ropt_persistence_queue_capacity = 4,
        ropt_apply_queue_capacity = 4, ropt_proposal_result_queue_capacity = 4, ropt_peer_queue_capacity = 4\<rparr>)
        \<lparr>rt_state := Runtime_RUNNING\<rparr>,
      sw_machine = MetadataStateMachine_new\<rparr>"

definition example_create :: StoreBusinessCommand where
  "example_create = create_command 0 \<lparr>tc_task_id = ''t'', tc_type = Task_COPY, tc_target_payload = [1]\<rparr>"

definition example_task_command :: MetadataCommand where
  "example_task_command = store_metadata_command ''c'' ''task-create:c'' (store_command_bytes example_create)"

definition example_entry :: OpaquePayload where
  "example_entry = metadata_command_bytes example_task_command"

definition applied_and_reported :: "ServiceWorld \<Rightarrow> ServiceWorld" where
  "applied_and_reported w =
     w\<lparr>sw_machine := snd (Apply 0 (sw_machine w) 1 1 example_entry),
       sw_runtime := EmitProposalResult 1 1 OK True (sw_runtime w)\<rparr>"

definition example_round :: service_round where
  "example_round = \<lparr>svr_before_take = applied_and_reported, svr_before_state = (\<lambda>w. w),
     svr_before_abandon = (\<lambda>w. w), svr_now = 100\<rparr>"

definition example_schedule :: service_schedule where
  "example_schedule = \<lparr>svs_rounds = [example_round], svs_now = 0, svs_before_query = (\<lambda>w. w), svs_between = (\<lambda>w. w)\<rparr>"

lemma example_encodes:
  "EncodeStoreBusinessCommand example_create out = Inr (store_command_bytes example_create)"
  "DecodeStoreBusinessCommand (store_command_bytes example_create) out = Inr example_create"
proof -
  have d: "ValidateStoreBusinessCommand example_create = OK" "store_command_writable example_create"
      "store_command_normal example_create"
    by (simp_all add: example_create_def create_command_def StoreBusinessCommand_default_def StoreInfo_default_def
        ValidateStoreBusinessCommand_def IsKnownStoreCommandKind_def ValidateLength_def command_limits
        store_command_writable_def store_command_normal_def store_info_normal_def DecodeStoreState_def
        DecodeTaskType_def DecodeTaskState_def)
  then show "EncodeStoreBusinessCommand example_create out = Inr (store_command_bytes example_create)"
    by (simp add: EncodeStoreBusinessCommand_eq)
  show "DecodeStoreBusinessCommand (store_command_bytes example_create) out = Inr example_create"
    by (rule DecodeStoreBusinessCommand_bytes [OF d])
qed

lemma example_entry_encodes: "EncodeMetadataCommand example_task_command out = Inr example_entry"
proof -
  have "length (store_command_bytes example_create) \<le> kMaxMetadataCommandPayloadBytes"
    by (simp add: store_command_bytes_def example_create_def create_command_def StoreBusinessCommand_default_def
        StoreInfo_default_def store_info_bytes_def string_bytes_def payload_bytes_def length_bytes_def
        kMaxMetadataCommandPayloadBytes_def)
  then show ?thesis
    by (simp add: EncodeMetadataCommand_eq ValidateMetadataCommand_OK example_entry_def example_task_command_def
        store_metadata_command_def IsKnownType_def command_limits)
qed

definition example_task :: TaskRecord where
  "example_task = \<lparr>tr_task_id = ''t'', tr_type = Task_COPY, tr_state = Task_WAITING, tr_target_payload = [1],
     tr_assigned_store = 0, tr_result_payload = [], tr_generation = kInitialTaskGeneration, tr_sequence = 1\<rparr>"

lemma example_outcome:
  "\<exists>outcome m1. run_store_command 0 MetadataStateMachine_new example_create = (Inr outcome, m1) \<and>
     br_tasks outcome = [example_task]"
  by (simp add: run_store_command_def example_create_def create_command_def StoreBusinessCommand_default_def
      CreateTask_def MetadataStateMachine_new_def TaskManager_new_def ValidateTaskId_def ValidateTaskType_def
      kMaxTaskIdBytes_def kMaxTaskPayloadBytes_def example_task_def StoreBusinessResult_default_def Let_def)

lemma example_applies: "fst (Apply 0 MetadataStateMachine_new 1 1 example_entry) = OK"
proof -
  have d: "DecodeMetadataCommand example_entry out = Inr example_task_command"
    using example_entry_encodes by (simp add: metadata_command_canonical)
  obtain outcome m1 where o: "run_store_command 0 MetadataStateMachine_new example_create = (Inr outcome, m1)"
      "br_tasks outcome = [example_task]"
    using example_outcome by blast
  have "EncodeStoreBusinessResult outcome out = Inr (store_result_bytes outcome)"
    using result_encodes [OF machine_biz [OF machine_inv_new] o(1)] o(2) by (simp add: kMaxStoreBusinessItems_def)
  then show ?thesis
    using Apply_next [OF _ _ _ d, of 1 MetadataStateMachine_new 1 0] o(1) example_encodes(2)
    by (simp add: MetadataStateMachine_new_def example_task_command_def store_metadata_command_def)
qed

lemma example_proposal:
  "\<exists>result w. Service_Propose [example_round] 0 example_task_command 10 out example_world = Some ((OK, Some result), w) \<and>
     sw_service w = snd (NextProposalId (sw_service example_world)) \<and>
     sw_machine w = snd (Apply 0 MetadataStateMachine_new 1 1 example_entry)"
proof -
  have v: "ValidateMetadataCommand example_task_command = OK"
    using example_entry_encodes by (simp add: EncodeMetadataCommand_eq split: if_splits)
  show ?thesis
    by (simp add: Service_Propose_def v example_entry_encodes example_world_def MetadataService_new_def
        ValidateDependencies_def NextProposalId_def draw_def EnqueueProposal_def Enqueue_def RaftRuntime_new_def
        BoundedQueue_new_def BoundedQueue_Push_def example_round_def applied_and_reported_def EmitProposalResult_def
        TakeProposalResult_def CollectProposalResults_def kCollectBatchSize_def TrimResultCache_def Let_def
        case_prod_beta)
qed

lemma example_keeps: "service_ok (sw_service example_world)" "list_all round_keeps_service [example_round]"
  by (simp_all add: example_world_def MetadataService_new_def service_ok_def keyed_def example_round_def
      round_keeps_service_def keeps_service_def applied_and_reported_def)

theorem propose_own_result_witness:
  "\<exists>result w. Service_Propose [example_round] 0 example_task_command 10 out example_world = Some ((OK, Some result), w) \<and>
     mpr_proposal_id result = 1 \<and> mpr_command_id result = ''c''"
proof -
  obtain result w where p: "Service_Propose [example_round] 0 example_task_command 10 out example_world
      = Some ((OK, Some result), w)"
    using example_proposal by blast
  have "fst (NextProposalId (sw_service example_world)) = 1"
    by (simp add: example_world_def MetadataService_new_def NextProposalId_def draw_def)
  with propose_own_result [OF example_keeps p] p show ?thesis
    by (simp add: example_task_command_def store_metadata_command_def)
qed

theorem service_calls_return_witness:
  "ProposeStoreCommand 0 example_schedule ''c'' ''task-create:c'' example_create 10 out example_world \<noteq> None"
  by (rule service_calls_return) (simp add: example_schedule_def example_round_def EffectiveTimeout_def)

theorem store_command_answer_witness:
  "\<exists>answer w. ProposeStoreCommand 0 example_schedule ''c'' ''task-create:c'' example_create 10 out example_world
      = Some ((OK, Some answer), w) \<and> scr_tasks answer = [example_task]"
proof -
  let ?m = "MetadataStateMachine_new"
  obtain result w where p: "Service_Propose [example_round] 0 example_task_command 10 out example_world
      = Some ((OK, Some result), w)" "sw_service w = snd (NextProposalId (sw_service example_world))"
      "sw_machine w = snd (Apply 0 ?m 1 1 example_entry)"
    using example_proposal by blast
  have a: "Apply 0 ?m 1 1 example_entry = (OK, snd (Apply 0 ?m 1 1 example_entry))"
    using example_applies by (metis prod.collapse)
  have deps: "ValidateDependencies (sw_service (svs_before_query example_schedule w)) = OK"
    by (simp add: example_schedule_def p(2) NextProposalId_def example_world_def MetadataService_new_def
        ValidateDependencies_def case_prod_beta)
  have call: "Service_Propose (svs_rounds example_schedule) (svs_now example_schedule)
      (store_metadata_command ''c'' ''task-create:c'' (store_command_bytes example_create))
      (EffectiveTimeout 10 (svo_proposal_timeout (ms_options (sw_service example_world)))) out example_world
      = Some ((OK, Some result), w)"
    using p(1) by (simp add: example_schedule_def EffectiveTimeout_def example_task_command_def)
  obtain sent outcome m1 answer w2 where r: "DecodeStoreBusinessCommand (store_command_bytes example_create) out = Inr sent"
      "run_store_command 0 ?m sent = (Inr outcome, m1)"
      "ProposeStoreCommand 0 example_schedule ''c'' ''task-create:c'' example_create 10 out example_world
        = Some ((OK, Some answer), w2)"
      "scr_tasks answer = br_tasks outcome"
    using store_command_answer [OF machine_inv_new _ example_encodes(1)
        example_entry_encodes [unfolded example_task_command_def] a call deps, where uninit = 0] p(3)
    by (auto simp: example_schedule_def)
  then show ?thesis using example_encodes(2) example_outcome by auto
qed

theorem zero_generation_never_applies_witness:
  "\<exists>payload entry.
    EncodeStoreBusinessCommand (stop_command 0 7 0) out = Inr payload \<and>
    EncodeMetadataCommand (store_metadata_command ''c'' ''store-stop:c'' payload) out = Inr entry \<and>
    fst (Apply 0 MetadataStateMachine_new 1 1 entry) \<noteq> OK"
  using zero_generation_never_applies [of "stop_command 0 7 0" 0 7 "''c''" "''store-stop:''"]
  by (auto simp: zero_generation_commands_def)

end
