(* ===== verification/Spec2Isabelle.thy ===== *)
theory Spec2Isabelle
  imports Prelude Status Checksum Std_Map Bounded_Queue Raft_Types Raft_Log Byte_Codec Quorum
    Membership Membership_Codec Raft_Snapshot Raft_Core Raft_Core_Invariant Raft_Core_Run
    Raft_Core_Commit Raft_Core_Append Raft_Core_Gate Raft_Core_Scenarios
    Raft_Storage Memory_Storage File_Ops Record_Codec File_Storage File_Recovery
    Store_Types Store_Registry Placement Task_Manager Task_Dispatcher
    Byte_Decoder Metadata_Command Metadata_Codec Metadata_State Metadata_Snapshot Metadata_Machine
    Metadata_Replica Metadata_Restore
    Raft_Runtime Runtime_System Runtime_Core Runtime_Invariant Runtime_Bounds Runtime_Order Runtime_Shutdown
    Runtime_Output Runtime_Persistence
    Text_Format Config Config_Loader Proto Raft_Transport Raft_Rpc Rpc_Handler
    Server_Lifecycle Server Server_Composition
    Metadata_Service Service_Answers
begin

text \<open>
  A verification library of the replicated block store under \<open>src/cross-platform-raft\<close>: a C++
  server whose nodes agree on a log by Raft and apply it to the metadata of storage nodes and their
  tasks. All paths below are relative to \<open>src/cross-platform-raft/src\<close>.

  \<^bold>\<open>The program.\<close> A client calls an RPC of a node (\<open>rpc/\<close>). A command on the metadata goes through
  \<open>MetadataService\<close> (\<open>metadata/\<close>), which gives its encoding to \<open>RaftRuntime\<close> (\<open>raft/\<close>) as a proposal.
  The runtime owns the deterministic \<open>RaftCore\<close>: its protocol thread takes events from one queue and
  calls the core, its persistence thread writes what the core asks for to an \<open>IRaftStorage\<close>
  (\<open>raft/memory_raft_storage.cpp\<close>, \<open>raft/file_raft_storage.cpp\<close> on \<open>platform/file_ops.cpp\<close>), its apply
  thread hands committed entries to \<open>MetadataStateMachine\<close>, which keeps records, the store registry
  and the task manager (\<open>store/\<close>). Replies to other nodes wait in one queue per peer; the handlers
  of the Raft RPCs take them there. \<open>server/server.cpp\<close> builds all this from a configuration
  (\<open>config/\<close>) and runs two more threads, for ticks and for outbound messages
  (\<open>transport/grpc_raft_transport.cpp\<close>).

  \<^bold>\<open>Conventions.\<close> A class is a record, a member function a definition on the record that returns the
  status and the object behind the call; results written through a pointer are in a sum with the
  status, and whether the pointer was null is the argument of type \<open>out_ptr\<close>. Integers have their
  width as words and wrap; \<open>std::map\<close> is a sorted association list (\<open>Std_Map\<close>). The names are those
  of the sources, with a prefix where two classes share one (\<open>Memory_\<close>, \<open>File_\<close>, \<open>Runtime_\<close>,
  \<open>Service_\<close>, \<open>Server_\<close> and others); loops have the name of their function and \<open>_loop\<close>. A status is its code: no
  modelled function branches on the text of one.

  \<^bold>\<open>The theories.\<close>
  \<^item> \<open>Prelude\<close>, \<open>Std_Map\<close>, \<open>Quorum\<close>, \<open>Byte_Codec\<close>, \<open>Byte_Decoder\<close>: what the components share, with the locales
    for ordered maps, quorum systems, codecs at an offset and parsers of a prefix, interpreted on every
    codec of the sources. \<open>Status\<close>, \<open>Checksum\<close>, \<open>Bounded_Queue\<close>, \<open>Text_Format\<close>: \<open>common/\<close> and the number
    formats of the standard library. \<open>Checksum\<close> shows that no change of one byte goes unseen,
    \<open>Bounded_Queue\<close> that the queue is a bounded FIFO over every sequence of calls.
  \<^item> \<open>Raft_Types\<close>, \<open>Raft_Log\<close>, \<open>Membership\<close>, \<open>Membership_Codec\<close>, \<open>Raft_Snapshot\<close>: the data of \<open>raft/\<close>. The log
    refines an abstract map from indexes to entries under an invariant; the changes that the builders
    of membership entries produce apply and keep quorums intersecting; the codecs round trip, and the
    checksum of a snapshot detects damage.
  \<^item> \<open>Raft_Core\<close>: \<open>raft/raft_core.cpp\<close>, every member function. \<open>Raft_Core_Invariant\<close> and \<open>Raft_Core_Run\<close>: the
    invariant, runs of any operations with any arguments, one vote per term, election safety over
    several nodes, committed entries stay. \<open>Raft_Core_Commit\<close>: what the leader commits. \<open>Raft_Core_Append\<close>:
    what a follower accepts. \<open>Raft_Core_Gate\<close>: which replies wait for the disk. \<open>Raft_Core_Scenarios\<close>:
    executions in which a promise of Raft is broken.
  \<^item> \<open>Raft_Storage\<close>, \<open>Memory_Storage\<close>, \<open>File_Ops\<close>, \<open>Record_Codec\<close>, \<open>File_Storage\<close>, \<open>File_Recovery\<close>: the contract of
    the storage as a locale over an abstract durable state, interpreted on both implementations; for
    the files with any system call failing, over crashes and restarts.
  \<^item> \<open>Store_Types\<close>, \<open>Store_Registry\<close>, \<open>Placement\<close>, \<open>Task_Manager\<close>, \<open>Task_Dispatcher\<close>: \<open>store/\<close>. The registry
    refines a map of stores, the placement picks the best stores, tasks only move forward and no task
    is handed out twice; the policies are locales interpreted on the classes.
  \<^item> \<open>Metadata_Command\<close>, \<open>Metadata_Codec\<close>, \<open>Metadata_State\<close>, \<open>Metadata_Snapshot\<close>, \<open>Metadata_Machine\<close>,
    \<open>Metadata_Replica\<close>, \<open>Metadata_Restore\<close>: the commands, the state machine and its snapshots. The formats are
    canonical, a failing apply changes nothing but in one case, replicas of one log agree up to the
    payload of records, and a replica that starts from a snapshot answers like the one that wrote it.
  \<^item> \<open>Metadata_Service\<close>, \<open>Service_Answers\<close>: \<open>metadata/metadata_service.cpp\<close>. A call gets the result of its own
    proposal, returns when its time is up, and a command on stores or tasks gets the outcome the state
    machine computed; one kind of request is accepted and can never be applied.
  \<^item> \<open>Raft_Runtime\<close>, \<open>Runtime_System\<close>: \<open>raft/raft_runtime.cpp\<close>, the handlers as functions and the three threads
    as a step relation in which calls of the rest of the server interleave. \<open>Runtime_Core\<close> and
    \<open>Runtime_Invariant\<close> prove invariants once for all handlers and steps (locales); on them rest the
    bounds of the queues (\<open>Runtime_Bounds\<close>), the order of applied entries (\<open>Runtime_Order\<close>), the end after a
    shutdown request (\<open>Runtime_Shutdown\<close>), what one message to an unknown node does (\<open>Runtime_Output\<close>) and the
    interplay with the storage (\<open>Runtime_Persistence\<close>).
  \<^item> \<open>Config\<close>, \<open>Config_Loader\<close>: \<open>config/\<close>. Validation decides well-formedness, and a document loads exactly
    when it describes a well-formed configuration.
  \<^item> \<open>Proto\<close>, \<open>Raft_Transport\<close>, \<open>Raft_Rpc\<close>, \<open>Rpc_Handler\<close>: the Raft messages of \<open>../proto\<close>, the client and the
    server side of the Raft RPCs. Messages arrive as they were sent but for the target sets of a
    transition, handlers return, and a handler may answer with the reply to another request.
  \<^item> \<open>Server_Lifecycle\<close>, \<open>Server\<close>, \<open>Server_Composition\<close>: logging, signals, \<open>server/\<close> and \<open>main\<close>, and the composition:
    from the configuration to the threads, what a node alone and a node of a cluster do.

  \<^bold>\<open>Bounds.\<close> No definition uses fuel. Loops over machine integers have a termination measure on the
  word (the search for the commit index, the scheduling of entries, the conflict search); loops that
  wait take the list of the rounds they get, each with what the others do in it and the time at its
  end, and \<open>None\<close> says that the rounds ended first. That they return is shown for every list
  with a round behind the deadline. The limits of the formats and caches are those of the sources.

  \<^bold>\<open>Parameters.\<close> What is not under \<open>src\<close> is an argument: the outcomes of the system calls (\<open>io\<close>), what
  uninitialised memory holds (\<open>uninit\<close>), the storage and the state machine of a runtime
  (\<open>Environment\<close>), the JSON parser, the remote ends of the stubs (\<open>RaftStubs\<close>), the result of
  binding ports, building the gRPC server and installing signal handlers, the clock, and the other
  threads between two critical sections.

  \<^bold>\<open>Not modelled.\<close> \<open>rpc/metadata_rpc_service.cpp\<close> and \<open>rpc/store_rpc_service.cpp\<close>: they translate generated
  messages to calls of the metadata service and the runtime, and recognise one error by the text
  of its status, which the model of the other components leaves out. The command-line tools of
  \<open>../tools\<close>: parsing of arguments and printing around RPC calls and file dumps. The classes protobuf
  generates, the spdlog backend of the log and the Windows branches: not built from sources that
  are here. \<open>platform/time_ops.cpp\<close> and the loops around the native read and write calls in
  \<open>platform/file_ops.cpp\<close>: no logic beyond the calls. The tests, and the stub program
  \<open>CQUPT_Block_Storage.cpp\<close> outside the server.
\<close>

end
